(* ===== verification/Prelude.thy ===== *)
theory Prelude
  imports Main "HOL-Library.AList" "HOL-Library.State_Monad" "HOL-Library.Sublist"
begin

section \<open>Shared vocabulary: Go values, errors, strings and maps\<close>

text \<open>
  The part of the Go language and its standard library that the modelled sources use:
  panics, errors, byte strings with the functions of package \<open>strings\<close>, maps that may
  be nil, and the interface to a Kubernetes API server. Every component theory imports this
  one. A Go string is a HOL \<^typ>\<open>string\<close>, that is a list of bytes.
\<close>

named_theorems go_simps \<open>evaluation of Go maps, panics and strings\<close>
named_theorems run_simps \<open>running effectful handlers on a world\<close>

subsection \<open>Panics and errors\<close>

text \<open>
  \<open>Panic\<close> is a Go run-time panic: a nil pointer dereference, an index out of range, an
  assignment into a nil map. \<open>Ret v\<close> is a normal return.
\<close>

datatype 'a go = Ret 'a | Panic

fun go_bind :: "'a go \<Rightarrow> ('a \<Rightarrow> 'b go) \<Rightarrow> 'b go" where
  "go_bind (Ret x) f = f x"
| "go_bind Panic f = Panic"

lemma go_bind_eq_Ret [go_simps]:
  "go_bind m f = Ret y \<longleftrightarrow> (\<exists>x. m = Ret x \<and> f x = Ret y)"
  by (cases m) auto

lemma go_bind_eq_Panic [go_simps]:
  "go_bind m f = Panic \<longleftrightarrow> m = Panic \<or> (\<exists>x. m = Ret x \<and> f x = Panic)"
  by (cases m) auto

text \<open>
  The errors the code tells apart: the API statuses tested by \<open>errors.IsNotFound\<close>,
  \<open>errors.IsAlreadyExists\<close> and \<open>errors.IsConflict\<close>, and every other error with its text.
\<close>

datatype err = NotFound | AlreadyExists | Conflict | Err string

type_synonym 'a result = "err + 'a"

text \<open>
  \<open>client.IgnoreNotFound\<close> and the like work on an error that may be nil: \<open>err option\<close>.
\<close>

definition IgnoreNotFound :: "err option \<Rightarrow> err option" where
  "IgnoreNotFound e = (if e = Some NotFound then None else e)"

subsection \<open>Maps that may be nil\<close>

text \<open>
  A Go map is an association list in some iteration order, or nil. Reading a nil map gives
  the missing value; assigning into one panics.
\<close>

type_synonym ('k, 'v) gomap = "('k \<times> 'v) list option"

definition gm_get :: "('k, 'v) gomap \<Rightarrow> 'k \<Rightarrow> 'v option" where
  "gm_get m k = (case m of None \<Rightarrow> None | Some l \<Rightarrow> map_of l k)"

definition gm_put :: "('k, 'v) gomap \<Rightarrow> 'k \<Rightarrow> 'v \<Rightarrow> ('k, 'v) gomap go" where
  "gm_put m k v = (case m of None \<Rightarrow> Panic | Some l \<Rightarrow> Ret (Some (AList.update k v l)))"

definition gm_has :: "('k, 'v) gomap \<Rightarrow> 'k \<Rightarrow> bool" where
  "gm_has m k \<longleftrightarrow> gm_get m k \<noteq> None"

definition gm_keys :: "('k, 'v) gomap \<Rightarrow> 'k list" where
  "gm_keys m = (case m of None \<Rightarrow> [] | Some l \<Rightarrow> map fst l)"

lemma gm_get_None [simp]: "gm_get None k = None"
  by (simp add: gm_get_def)

lemma gm_get_Some [simp]: "gm_get (Some l) k = map_of l k"
  by (simp add: gm_get_def)

lemma gm_has_iff: "gm_has m k \<longleftrightarrow> k \<in> set (gm_keys m)"
  by (cases m) (simp_all add: gm_has_def gm_keys_def gm_get_def map_of_eq_None_iff)

lemma gm_put_Some [simp]: "gm_put (Some l) k v = Ret (Some (AList.update k v l))"
  by (simp add: gm_put_def)

lemma gm_put_None [simp]: "gm_put None k v = Panic"
  by (simp add: gm_put_def)

lemma map_of_alist_update [simp]: "map_of (AList.update k v l) = (map_of l)(k \<mapsto> v)"
  by (simp add: update_conv')

lemma gm_get_put: "gm_put m k v = Ret m' \<Longrightarrow> gm_get m' = (gm_get m)(k \<mapsto> v)"
  by (auto simp: gm_put_def gm_get_def fun_eq_iff split: option.splits)

subsection \<open>Package strings\<close>

definition HasPrefix :: "string \<Rightarrow> string \<Rightarrow> bool" where
  "HasPrefix s p \<longleftrightarrow> take (length p) s = p"

definition HasSuffix :: "string \<Rightarrow> string \<Rightarrow> bool" where
  "HasSuffix s p \<longleftrightarrow> length p \<le> length s \<and> drop (length s - length p) s = p"

definition TrimPrefix :: "string \<Rightarrow> string \<Rightarrow> string" where
  "TrimPrefix s p = (if HasPrefix s p then drop (length p) s else s)"

definition TrimSuffix :: "string \<Rightarrow> string \<Rightarrow> string" where
  "TrimSuffix s p = (if HasSuffix s p then take (length s - length p) s else s)"

definition TrimLeft :: "string \<Rightarrow> char \<Rightarrow> string" where
  "TrimLeft s c = dropWhile (\<lambda>x. x = c) s"

definition TrimRight :: "string \<Rightarrow> char \<Rightarrow> string" where
  "TrimRight s c = rev (dropWhile (\<lambda>x. x = c) (rev s))"

fun Contains :: "string \<Rightarrow> string \<Rightarrow> bool" where
  "Contains [] sub \<longleftrightarrow> sub = []"
| "Contains (c # cs) sub \<longleftrightarrow> HasPrefix (c # cs) sub \<or> Contains cs sub"

fun Join :: "string list \<Rightarrow> string \<Rightarrow> string" where
  "Join [] sep = []"
| "Join [x] sep = x"
| "Join (x # y # ys) sep = x @ sep @ Join (y # ys) sep"

text \<open>
  \<open>strings.Split\<close> for a non-empty separator: the second argument collects, in reverse,
  the part read since the last separator.
\<close>

function split_from :: "string \<Rightarrow> string \<Rightarrow> string \<Rightarrow> string list" where
  "split_from sep acc [] = [rev acc]"
| "split_from sep acc (c # cs) =
     (if sep \<noteq> [] \<and> HasPrefix (c # cs) sep
      then rev acc # split_from sep [] (drop (length sep) (c # cs))
      else split_from sep (c # acc) cs)"
  by pat_completeness auto
termination
  by (relation "measure (\<lambda>(sep, acc, s). length s)") auto

definition Split :: "string \<Rightarrow> string \<Rightarrow> string list" where
  "Split s sep = split_from sep [] s"

lemma HasPrefix_append [simp, go_simps]: "HasPrefix (p @ s) p"
  by (simp add: HasPrefix_def)

lemma HasPrefix_iff: "HasPrefix s p \<longleftrightarrow> (\<exists>t. s = p @ t)"
  by (auto simp: HasPrefix_def) (metis append_take_drop_id)

lemma HasSuffix_iff: "HasSuffix s p \<longleftrightarrow> (\<exists>t. s = t @ p)"
proof
  assume "HasSuffix s p"
  then have "s = take (length s - length p) s @ p"
    by (metis HasSuffix_def append_take_drop_id)
  then show "\<exists>t. s = t @ p" by blast
qed (auto simp: HasSuffix_def)

lemma HasSuffix_append [simp, go_simps]: "HasSuffix (s @ p) p"
  by (auto simp: HasSuffix_iff)

lemma TrimPrefix_append [simp, go_simps]: "TrimPrefix (p @ s) p = s"
  by (simp add: TrimPrefix_def)

lemma TrimSuffix_append [simp, go_simps]: "TrimSuffix (s @ p) p = s"
  by (simp add: TrimSuffix_def)

lemma Contains_iff: "Contains s sub \<longleftrightarrow> (\<exists>a b. s = a @ sub @ b)"
proof (induction s)
  case Nil
  then show ?case by simp
next
  case (Cons c cs)
  show ?case
  proof
    assume "Contains (c # cs) sub"
    then consider "HasPrefix (c # cs) sub" | "Contains cs sub" by auto
    then show "\<exists>a b. c # cs = a @ sub @ b"
    proof cases
      case 1
      then show ?thesis by (metis HasPrefix_iff append_Nil)
    next
      case 2
      with Cons.IH show ?thesis by (metis append_Cons)
    qed
  next
    assume "\<exists>a b. c # cs = a @ sub @ b"
    then obtain a b where ab: "c # cs = a @ sub @ b" by blast
    show "Contains (c # cs) sub"
    proof (cases a)
      case Nil
      with ab have "HasPrefix (c # cs) sub" by (auto simp: HasPrefix_iff)
      then show ?thesis by simp
    next
      case (Cons x a')
      with ab have "cs = a' @ sub @ b" by simp
      with Cons.IH show ?thesis by auto
    qed
  qed
qed

lemma split_from_nonempty [simp]: "split_from sep acc s \<noteq> []"
  by (induction sep acc s rule: split_from.induct) auto

lemma Split_nonempty [simp]: "Split s sep \<noteq> []"
  by (simp add: Split_def)

lemma Join_Cons: "xs \<noteq> [] \<Longrightarrow> Join (x # xs) sep = x @ sep @ Join xs sep"
  by (cases xs) auto

lemma Join_split_from: "Join (split_from sep acc s) sep = rev acc @ s"
proof (induction sep acc s rule: split_from.induct)
  case (2 sep acc c cs)
  show ?case
  proof (cases "sep \<noteq> [] \<and> HasPrefix (c # cs) sep")
    case True
    then have "c # cs = sep @ drop (length sep) (c # cs)"
      by (metis HasPrefix_def append_take_drop_id)
    with True 2 show ?thesis by (simp add: Join_Cons)
  next
    case False
    with 2 show ?thesis by (auto simp: HasPrefix_def)
  qed
qed simp

lemma Join_Split: "Join (Split s sep) sep = s"
  by (simp add: Split_def Join_split_from)

lemma split_from_char:
  "c \<notin> set x \<Longrightarrow> split_from [c] acc (x @ c # s) = (rev acc @ x) # split_from [c] [] s"
  by (induction x arbitrary: acc) (auto simp: HasPrefix_def)

lemma split_from_char_end: "c \<notin> set x \<Longrightarrow> split_from [c] acc x = [rev acc @ x]"
  by (induction x arbitrary: acc) (auto simp: HasPrefix_def)

lemma Split_Join_char:
  "xs \<noteq> [] \<Longrightarrow> (\<forall>x\<in>set xs. c \<notin> set x) \<Longrightarrow> Split (Join xs [c]) [c] = xs"
proof (induction xs)
  case (Cons x xs)
  then show ?case
    by (cases xs) (auto simp: Split_def Join_Cons split_from_char split_from_char_end)
qed simp

lemma split_from_append_char:
  "split_from [c] acc (s @ c # x) = split_from [c] acc s @ split_from [c] [] x"
  by (induction s arbitrary: acc) (auto simp: HasPrefix_def)

lemma Split_snoc_char: "c \<notin> set x \<Longrightarrow> Split (s @ c # x) [c] = Split s [c] @ [x]"
  by (simp add: Split_def split_from_append_char split_from_char_end)

lemma length_split_from:
  "sep \<noteq> [] \<Longrightarrow> length (split_from sep acc s) < 2 \<longleftrightarrow> \<not> Contains s sep"
proof (induction sep acc s rule: split_from.induct)
  case (2 sep acc c cs)
  then show ?case by (simp add: Suc_less_eq2 numeral_2_eq_2)
qed simp

lemma length_Split: "sep \<noteq> [] \<Longrightarrow> length (Split s sep) < 2 \<longleftrightarrow> \<not> Contains s sep"
  by (simp add: Split_def length_split_from)

subsection \<open>strconv.Atoi\<close>

definition digit_val :: "char \<Rightarrow> int option" where
  "digit_val c =
     (let n = int (of_char c) in if 48 \<le> n \<and> n \<le> 57 then Some (n - 48) else None)"

fun atoi_digits :: "int \<Rightarrow> string \<Rightarrow> int option" where
  "atoi_digits acc [] = Some acc"
| "atoi_digits acc (c # cs) =
     (case digit_val c of None \<Rightarrow> None | Some d \<Rightarrow> atoi_digits (acc * 10 + d) cs)"

definition Atoi :: "string \<Rightarrow> int option" where
  "Atoi s =
     (let neg = HasPrefix s ''-'';
          body = (if neg \<or> HasPrefix s ''+'' then drop 1 s else s)
      in if body = [] then None
         else case atoi_digits 0 body of
                None \<Rightarrow> None
              | Some n \<Rightarrow>
                  let v = (if neg then - n else n)
                  in if - (2 ^ 63) \<le> v \<and> v < 2 ^ 63 then Some v else None)"

lemma Atoi_range: "Atoi s = Some n \<Longrightarrow> - (2 ^ 63) \<le> n \<and> n < 2 ^ 63"
  by (auto simp: Atoi_def Let_def split: if_splits option.splits)

lemma atoi_digits_nonneg: "0 \<le> acc \<Longrightarrow> atoi_digits acc s = Some n \<Longrightarrow> 0 \<le> n"
proof (induction s arbitrary: acc)
  case (Cons c s)
  then obtain d where d: "digit_val c = Some d" "atoi_digits (acc * 10 + d) s = Some n"
    by (auto split: option.splits)
  then have "0 \<le> acc * 10 + d"
    using Cons.prems(1) by (auto simp: digit_val_def Let_def split: if_splits)
  then show ?case using d(2) by (rule Cons.IH)
qed simp

subsection \<open>strconv.Itoa\<close>

function int_digits :: "int \<Rightarrow> string" where
  "int_digits i = (if i < 10 then [char_of (48 + nat i)] else int_digits (i div 10) @ [char_of (48 + nat (i mod 10))])"
  by pat_completeness auto
termination
  by (relation "measure nat") auto

declare int_digits.simps [simp del]

definition Itoa :: "int \<Rightarrow> string" where
  "Itoa i = (if i < 0 then CHR ''-'' # int_digits (- i) else int_digits i)"

lemma atoi_digits_append:
  "atoi_digits acc (s @ t) = (case atoi_digits acc s of None \<Rightarrow> None | Some a \<Rightarrow> atoi_digits a t)"
  by (induction s arbitrary: acc) (auto split: option.splits)

lemma of_char_digit: "0 \<le> i \<Longrightarrow> i < 10 \<Longrightarrow> (of_char (char_of (48 + nat i)) :: nat) = 48 + nat i"
  by simp

lemma digit_val_digit: "0 \<le> i \<Longrightarrow> i < 10 \<Longrightarrow> digit_val (char_of (48 + nat i)) = Some i"
  by (simp add: digit_val_def Let_def)

lemma atoi_int_digits: "0 \<le> i \<Longrightarrow> atoi_digits 0 (int_digits i) = Some i"
proof (induction i rule: int_digits.induct)
  case (1 i)
  show ?case
  proof (cases "i < 10")
    case True
    with 1 show ?thesis by (subst int_digits.simps) (simp add: digit_val_digit)
  next
    case False
    with 1 show ?thesis
      by (subst int_digits.simps) (simp add: atoi_digits_append digit_val_digit)
  qed
qed

lemma int_digits_nonempty [simp]: "int_digits i \<noteq> []"
  by (subst int_digits.simps) simp

lemma int_digits_plain: "0 \<le> i \<Longrightarrow> c \<in> set (int_digits i) \<Longrightarrow> 48 \<le> (of_char c :: nat) \<and> (of_char c :: nat) \<le> 57"
proof (induction i rule: int_digits.induct)
  case (1 i)
  have d: "48 \<le> (of_char (char_of (48 + nat j)) :: nat) \<and> (of_char (char_of (48 + nat j)) :: nat) \<le> 57" if "0 \<le> j" "j < 10" for j :: int
    using that of_char_digit [of j] by simp
  show ?case
  proof (cases "i < 10")
    case True
    with 1 d show ?thesis by (subst (asm) int_digits.simps) auto
  next
    case False
    with "1.prems" have "c \<in> set (int_digits (i div 10)) \<or> c = char_of (48 + nat (i mod 10))"
      by (subst (asm) int_digits.simps) auto
    with 1 False d [of "i mod 10"] show ?thesis by auto
  qed
qed

lemma Atoi_Itoa:
  assumes "- (2 ^ 63) \<le> i" and "i < 2 ^ 63"
  shows "Atoi (Itoa i) = Some i"
proof -
  have p: "\<not> HasPrefix (int_digits n) ''-''" "\<not> HasPrefix (int_digits n) ''+''" if "0 \<le> n" for n
    using int_digits_plain [OF that, of "hd (int_digits n)"]
    by (cases "int_digits n"; auto simp: HasPrefix_def)+
  show ?thesis
  proof (cases "i < 0")
    case True
    then have "Itoa i = CHR ''-'' # int_digits (- i)" by (simp add: Itoa_def)
    moreover have "HasPrefix (CHR ''-'' # int_digits (- i)) ''-''" by (simp add: HasPrefix_def)
    ultimately show ?thesis using True assms by (simp add: Atoi_def atoi_int_digits)
  next
    case False
    then show ?thesis using assms p by (simp add: Atoi_def Itoa_def atoi_int_digits)
  qed
qed

subsection \<open>strconv.ParseBool\<close>

definition ParseBool :: "string \<Rightarrow> bool option" where
  "ParseBool s =
     (if s \<in> {''1'', ''t'', ''T'', ''true'', ''TRUE'', ''True''} then Some True
      else if s \<in> {''0'', ''f'', ''F'', ''false'', ''FALSE'', ''False''} then Some False else None)"

subsection \<open>64-bit signed arithmetic\<close>

text \<open>Go's \<open>int\<close> on the supported platforms: results wrap around modulo \<open>2 ^ 64\<close>.\<close>

definition wrap64 :: "int \<Rightarrow> int" where
  "wrap64 x = (x + 2 ^ 63) mod 2 ^ 64 - 2 ^ 63"

lemma wrap64_id [simp]: "- (2 ^ 63) \<le> x \<Longrightarrow> x < 2 ^ 63 \<Longrightarrow> wrap64 x = x"
  by (simp add: wrap64_def)

lemma wrap64_range: "- (2 ^ 63) \<le> wrap64 x \<and> wrap64 x < 2 ^ 63"
proof -
  have "0 \<le> (x + 2 ^ 63) mod 2 ^ 64" "(x + 2 ^ 63) mod 2 ^ 64 < (2 ^ 64 :: int)"
    by simp_all
  then show ?thesis by (simp add: wrap64_def)
qed

end
