(* ===== verification/ApiPath.thy ===== *)
theory ApiPath
  imports Prelude
begin

section \<open>API paths and versions: pkg/utils/path, pkg/conversion, pkg/utils/keys\<close>

text \<open>
  Models the reading and rewriting of Kubernetes API paths (\<open>pkg/utils/path/parse.go\<close>,
  \<open>ParseURL\<close> and \<open>ConvertURL\<close> of \<open>pkg/conversion/conversion.go\<close>), the comparison of
  cluster versions, and the cluster wide object key of \<open>pkg/utils/keys/keys.go\<close>.
\<close>

subsection \<open>Data\<close>

record gvr =
  gvr_Group :: string
  gvr_Version :: string
  gvr_Resource :: string

record ResourceIdentity =
  ri_Name :: string
  ri_Namespace :: string
  ri_IsCoreApi :: bool
  ri_IsNamespaced :: bool
  ri_Gvr :: gvr

abbreviation empty_gvr :: gvr where
  "empty_gvr \<equiv> \<lparr>gvr_Group = [], gvr_Version = [], gvr_Resource = []\<rparr>"

subsection \<open>Parse and ParseURL\<close>

definition url_is_core :: "string \<Rightarrow> bool" where
  "url_is_core url = HasPrefix url ''/api/''"

definition url_is_noncore :: "string \<Rightarrow> bool" where
  "url_is_noncore url = HasPrefix url ''/apis/''"

definition url_segments :: "string \<Rightarrow> string list" where
  "url_segments url = Split (TrimPrefix url ''/'') ''/''"

definition url_is_namespaced :: "string \<Rightarrow> bool" where
  "url_is_namespaced url \<longleftrightarrow> length (url_segments url) > 4 \<and> Contains url ''/namespaces/''"

definition Parse :: "string \<Rightarrow> ResourceIdentity result" where
  "Parse url =
     (let invalidUrlErr = Err (''can not parse url: '' @ url);
          isCoreApi = url_is_core url;
          isNonCoreApi = url_is_noncore url;
          ss = url_segments url;
          isNamespaced = url_is_namespaced url;
          ri = \<lparr>ri_Name = [], ri_Namespace = [], ri_IsCoreApi = isCoreApi,
                ri_IsNamespaced = isNamespaced, ri_Gvr = empty_gvr\<rparr>
      in if isCoreApi \<and> isNamespaced then
           (if length ss < 5 then Inl invalidUrlErr
            else Inr (ri\<lparr>ri_Gvr := empty_gvr\<lparr>gvr_Resource := ss ! 4, gvr_Version := ss ! 1\<rparr>,
                         ri_Namespace := ss ! 3,
                         ri_Name := (if length ss > 5 then ss ! 5 else [])\<rparr>))
         else if isCoreApi \<and> \<not> isNamespaced then
           (if length ss < 3 then Inl invalidUrlErr
            else Inr (ri\<lparr>ri_Gvr := empty_gvr\<lparr>gvr_Version := ss ! 1, gvr_Resource := ss ! 2\<rparr>,
                         ri_Name := (if length ss > 3 then ss ! 3 else [])\<rparr>))
         else if isNonCoreApi \<and> isNamespaced then
           (if length ss < 6 then Inl invalidUrlErr
            else Inr (ri\<lparr>ri_Gvr := \<lparr>gvr_Group = ss ! 1, gvr_Version = ss ! 2, gvr_Resource = ss ! 5\<rparr>,
                         ri_Name := (if length ss > 6 then ss ! 6 else [])\<rparr>))
         else if isNonCoreApi \<and> \<not> isNamespaced then
           (if length ss < 4 then Inl invalidUrlErr
            else Inr (ri\<lparr>ri_Gvr := \<lparr>gvr_Group = ss ! 1, gvr_Version = ss ! 2, gvr_Resource = ss ! 3\<rparr>,
                         ri_Name := (if length ss > 4 then ss ! 4 else [])\<rparr>))
         else Inl invalidUrlErr)"

definition ParseURL :: "string \<Rightarrow> (bool \<times> bool \<times> gvr) result" where
  "ParseURL url =
     (let invalidUrlErr = Err (''url not k8s format: '' @ url);
          isCoreApi = url_is_core url;
          isNonCoreApi = url_is_noncore url;
          ss = url_segments url;
          isNamespaced = url_is_namespaced url
      in if isCoreApi \<and> isNamespaced then
           (if length ss < 5 then Inl invalidUrlErr
            else Inr (isCoreApi, isNamespaced,
                      empty_gvr\<lparr>gvr_Version := ss ! 1, gvr_Resource := ss ! 4\<rparr>))
         else if isCoreApi \<and> \<not> isNamespaced then
           (if length ss < 3 then Inl invalidUrlErr
            else Inr (isCoreApi, isNamespaced,
                      empty_gvr\<lparr>gvr_Version := ss ! 1, gvr_Resource := ss ! 2\<rparr>))
         else if isNonCoreApi \<and> isNamespaced then
           (if length ss < 6 then Inl invalidUrlErr
            else Inr (isCoreApi, isNamespaced,
                      \<lparr>gvr_Group = ss ! 1, gvr_Version = ss ! 2, gvr_Resource = ss ! 5\<rparr>))
         else if isNonCoreApi \<and> \<not> isNamespaced then
           (if length ss < 4 then Inl invalidUrlErr
            else Inr (isCoreApi, isNamespaced,
                      \<lparr>gvr_Group = ss ! 1, gvr_Version = ss ! 2, gvr_Resource = ss ! 3\<rparr>))
         else Inl invalidUrlErr)"

subsection \<open>ConvertURL\<close>

definition ConvertURL :: "string \<Rightarrow> gvr \<Rightarrow> string result" where
  "ConvertURL url g =
     (case ParseURL url of
        Inl e \<Rightarrow> Inl e
      | Inr (rawIsCoreApi, _, _) \<Rightarrow>
          let isCoreApi = (gvr_Group g = []);
              ss = url_segments url;
              ss' =
                (if isCoreApi \<and> rawIsCoreApi then ss[1 := gvr_Version g]
                 else if \<not> isCoreApi \<and> rawIsCoreApi then
                   (ss[0 := ''apis''])[1 := gvr_Group g @ ''/'' @ gvr_Version g]
                 else if isCoreApi \<and> \<not> rawIsCoreApi then
                   (let t = (ss[0 := ''api''])[2 := gvr_Version g] in take 1 t @ drop 2 t)
                 else (ss[1 := gvr_Group g])[2 := gvr_Version g])
          in Inr (''/'' @ Join ss' ''/''))"

subsection \<open>Versions\<close>

record version_info =
  vi_Major :: string
  vi_Minor :: string

definition Version :: "version_info \<Rightarrow> string" where
  "Version info = vi_Major info @ ''.'' @ vi_Minor info"

definition ParseVersion :: "string \<Rightarrow> (int \<times> int) result" where
  "ParseVersion version =
     (let invalidError = Err ''invalid version''
      in if length version = 0 then Inl invalidError
         else let vs = Split (TrimLeft version (CHR ''v'')) ''.''
              in if length vs \<noteq> 2 then Inl invalidError
                 else case Atoi (vs ! 0) of
                        None \<Rightarrow> Inl invalidError
                      | Some currentMajor \<Rightarrow>
                          (case Atoi (vs ! 1) of
                             None \<Rightarrow> Inl invalidError
                           | Some currentMinor \<Rightarrow> Inr (currentMajor, currentMinor)))"

definition VersionCompare :: "string \<Rightarrow> string \<Rightarrow> int result" where
  "VersionCompare v1 v2 =
     (case ParseVersion v1 of
        Inl e \<Rightarrow> Inl e
      | Inr (majorV1, minorV1) \<Rightarrow>
          (case ParseVersion v2 of
             Inl e \<Rightarrow> Inl e
           | Inr (majorV2, minorV2) \<Rightarrow>
               if majorV1 > majorV2 \<or> majorV1 = majorV2 \<and> minorV1 > minorV2 then Inr 1
               else if majorV1 = majorV2 \<and> minorV1 = minorV2 then Inr 0
               else Inr (-1)))"

text \<open>\<open>stableVersionRegexp\<close> is one or more \<open>v\<close> followed by digits only.\<close>

definition stable_version_match :: "string \<Rightarrow> bool" where
  "stable_version_match v \<longleftrightarrow>
     HasPrefix v ''v'' \<and> list_all (\<lambda>c. digit_val c \<noteq> None) (TrimLeft v (CHR ''v''))"

definition IsStableVersion :: "string \<Rightarrow> string \<Rightarrow> bool" where
  "IsStableVersion gv_Group gv_Version \<longleftrightarrow> stable_version_match gv_Version \<and> gv_Group = []"

subsection \<open>Cluster wide keys\<close>

record ClusterWideKey =
  cwk_Group :: string
  cwk_Version :: string
  cwk_Kind :: string
  cwk_Namespace :: string
  cwk_Name :: string

definition GroupVersion_String :: "string \<Rightarrow> string \<Rightarrow> string" where
  "GroupVersion_String g v = (if length g > 0 then g @ ''/'' @ v else v)"

definition NamespaceKey :: "ClusterWideKey \<Rightarrow> string" where
  "NamespaceKey k =
     (if length (cwk_Namespace k) > 0 then cwk_Namespace k @ ''/'' @ cwk_Name k else cwk_Name k)"

definition ClusterWideKey_String :: "ClusterWideKey \<Rightarrow> string" where
  "ClusterWideKey_String k =
     GroupVersion_String (cwk_Group k) (cwk_Version k) @ '', kind='' @ cwk_Kind k @ '', '' @
     NamespaceKey k"

subsection \<open>The two parsers agree\<close>

text \<open>
  C12: \<open>path.Parse\<close>, used to decide whether a request belongs to its user, and
  \<open>conversion.ParseURL\<close>, used to rewrite a proxied request, accept the same paths and read
  the same group, version and resource out of them.
\<close>

theorem Parse_agrees_ParseURL:
  "map_sum (\<lambda>_. ()) (\<lambda>ri. (ri_IsCoreApi ri, ri_IsNamespaced ri, ri_Gvr ri)) (Parse url) =
   map_sum (\<lambda>_. ()) (\<lambda>r. r) (ParseURL url)"
  by (simp add: Parse_def ParseURL_def Let_def)

subsection \<open>Paths in canonical form\<close>

text \<open>
  The path of a resource: the core group lives under \<open>/api/<version>\<close>, every other group
  under \<open>/apis/<group>/<version>\<close>, and the rest of the path follows.
\<close>

definition api_path :: "string \<Rightarrow> string \<Rightarrow> string list \<Rightarrow> string" where
  "api_path g v rest =
     ''/'' @ Join ((if g = [] then [''api'', v] else [''apis'', g, v]) @ rest) ''/''"

definition no_slash :: "string list \<Rightarrow> bool" where
  "no_slash = list_all (\<lambda>s. CHR ''/'' \<notin> set s)"

lemma no_slash_simps [simp]:
  "no_slash []" "no_slash (x # xs) \<longleftrightarrow> CHR ''/'' \<notin> set x \<and> no_slash xs"
  "no_slash (xs @ ys) \<longleftrightarrow> no_slash xs \<and> no_slash ys"
  by (simp_all add: no_slash_def)

lemma url_segments_api_path:
  assumes "no_slash (g # v # rest)"
  shows "url_segments (api_path g v rest) =
         (if g = [] then [''api'', v] else [''apis'', g, v]) @ rest"
  using assms unfolding api_path_def url_segments_def TrimPrefix_append no_slash_def
  by (intro Split_Join_char) (auto simp: list_all_iff)

lemma url_is_core_api_path: "url_is_core (api_path g v rest) \<longleftrightarrow> g = []"
  by (cases rest) (auto simp: url_is_core_def api_path_def HasPrefix_def Join_Cons)

lemma url_is_noncore_api_path: "url_is_noncore (api_path g v rest) \<longleftrightarrow> g \<noteq> []"
  by (cases rest) (auto simp: url_is_noncore_def api_path_def HasPrefix_def Join_Cons)

lemmas api_path_simps = url_segments_api_path url_is_core_api_path url_is_noncore_api_path

lemma Contains_namespaces_api_path:
  "Contains (api_path g v (''namespaces'' # ns # rest)) ''/namespaces/''"
proof -
  have "api_path g v (''namespaces'' # ns # rest) =
        (''/'' @ Join (if g = [] then [''api'', v] else [''apis'', g, v]) ''/'') @
        ''/namespaces/'' @ Join (ns # rest) ''/''"
    by (simp add: api_path_def Join_Cons)
  then show ?thesis unfolding Contains_iff by blast
qed

lemma api_path_Join:
  "Join (h # (g @ ''/'' @ v) # rest) ''/'' = Join (h # g # v # rest) ''/''"
  by (cases rest) auto

text \<open>
  Rewriting a path that parses to another group and version changes exactly the group
  and version segments: the result is the canonical path of the target group and version
  with the rest of the request unchanged, in all four combinations of core and named groups.
\<close>

lemma ConvertURL_api_path:
  assumes "no_slash (g # v # rest)" and "ParseURL (api_path g v rest) = Inr r"
  shows "ConvertURL (api_path g v rest) t = Inr (api_path (gvr_Group t) (gvr_Version t) rest)"
proof -
  have "fst r = (g = [])"
    using assms(2)
    by (auto simp: ParseURL_def Let_def url_is_core_api_path url_is_noncore_api_path split: if_splits)
  then obtain n q where r: "r = (g = [], n, q)" by (cases r) auto
  show ?thesis
    unfolding ConvertURL_def assms(2) r
    using api_path_Join [of "''apis''" "gvr_Group t" "gvr_Version t" rest]
    by (simp add: Let_def url_segments_api_path [OF assms(1)]
        api_path_def [of "gvr_Group t" "gvr_Version t"])
qed

text \<open>
  A request for a namespaced resource is read as such: the resource and the object name
  are the segments after the namespace. The namespace itself is recorded for the core group
  only; for every other group the field stays empty.
\<close>

theorem Parse_namespaced:
  assumes "no_slash (g # v # ns # res # rest)"
  shows "Parse (api_path g v (''namespaces'' # ns # res # rest)) =
     Inr \<lparr>ri_Name = (case rest of [] \<Rightarrow> [] | n # _ \<Rightarrow> n),
          ri_Namespace = (if g = [] then ns else []),
          ri_IsCoreApi = (g = []), ri_IsNamespaced = True,
          ri_Gvr = \<lparr>gvr_Group = g, gvr_Version = v, gvr_Resource = res\<rparr>\<rparr>"
proof -
  have "no_slash (g # v # ''namespaces'' # ns # res # rest)" using assms by simp
  then show ?thesis
    unfolding Parse_def Let_def url_is_namespaced_def
    by (simp add: api_path_simps Contains_namespaces_api_path split: list.splits)
qed

theorem Parse_namespaced_witness:
  "Parse ''/apis/batch/v1/namespaces/ns/jobs/j'' =
     Inr \<lparr>ri_Name = ''j'', ri_Namespace = [], ri_IsCoreApi = False, ri_IsNamespaced = True,
          ri_Gvr = \<lparr>gvr_Group = ''batch'', gvr_Version = ''v1'', gvr_Resource = ''jobs''\<rparr>\<rparr>"
  using Parse_namespaced [of "''batch''" "''v1''" "''ns''" "''jobs''" "[''j'']"]
  by (simp add: api_path_def)

subsection \<open>Version comparison is an order\<close>

lemma VersionCompare_eq:
  assumes "ParseVersion v1 = Inr (a, b)" and "ParseVersion v2 = Inr (a', b')"
  shows "VersionCompare v1 v2 = Inr (if a = a' then sgn (b - b') else sgn (a - a'))"
  using assms by (simp add: VersionCompare_def sgn_if)

lemma VersionCompare_parsed:
  assumes "VersionCompare v1 v2 = Inr c"
  obtains a b a' b' where "ParseVersion v1 = Inr (a, b)" and "ParseVersion v2 = Inr (a', b')"
    and "c = (if a = a' then sgn (b - b') else sgn (a - a'))"
proof -
  from assms obtain a b a' b'
    where p: "ParseVersion v1 = Inr (a, b)" "ParseVersion v2 = Inr (a', b')"
    by (auto simp: VersionCompare_def split: sum.splits)
  with assms have "c = (if a = a' then sgn (b - b') else sgn (a - a'))"
    by (simp add: VersionCompare_eq)
  with p show ?thesis by (rule that)
qed

text \<open>
  Comparing cluster versions is a consistent three-way order: swapping the versions
  negates the answer, and the answer zero means the same major and minor numbers.
\<close>

theorem VersionCompare_antisym:
  assumes "VersionCompare v1 v2 = Inr c"
  shows "VersionCompare v2 v1 = Inr (- c) \<and> (c = 0 \<longleftrightarrow> ParseVersion v1 = ParseVersion v2)"
proof -
  from assms obtain a b a' b'
    where p: "ParseVersion v1 = Inr (a, b)" "ParseVersion v2 = Inr (a', b')"
      and c: "c = (if a = a' then sgn (b - b') else sgn (a - a'))"
    by (rule VersionCompare_parsed)
  from VersionCompare_eq [OF p(2,1)] c p show ?thesis by (auto simp: sgn_if)
qed

theorem VersionCompare_antisym_witness: "VersionCompare ''1.9'' ''v1.20'' = Inr (-1)"
proof -
  have "VersionCompare ''v1.20'' ''1.9'' = Inr 1" by code_simp
  from VersionCompare_antisym [OF this] show ?thesis by simp
qed

lemma VersionCompare_trans:
  "VersionCompare v1 v2 = Inr 1 \<Longrightarrow> VersionCompare v2 v3 = Inr 1 \<Longrightarrow> VersionCompare v1 v3 = Inr 1"
  by (elim VersionCompare_parsed) (auto simp: VersionCompare_eq sgn_if split: if_splits)

end
