(* ===== verification/StringUtils.thy ===== *)
theory StringUtils
  imports Prelude
begin

section \<open>String utilities: pkg/utils/strslice, selector, page, sort, domain\<close>

text \<open>
  Models \<open>pkg/utils/strslice/strings.go\<close>, \<open>pkg/utils/selector/selector.go\<close>,
  \<open>pkg/utils/page/page.go\<close>, \<open>pkg/utils/sort/sort.go\<close> and
  \<open>pkg/utils/domain/domainsuffix.go\<close>: slices of strings used as sets, the list
  query language of the resource API, and the ingress domain suffix check. The lemmas give
  each function's meaning as a set, a round trip or an exact condition.
\<close>

subsection \<open>strslice\<close>

fun ContainsString :: "string list \<Rightarrow> string \<Rightarrow> bool" where
  "ContainsString [] s = False"
| "ContainsString (item # slice) s = (if item = s then True else ContainsString slice s)"

fun RemoveString :: "string list \<Rightarrow> string \<Rightarrow> string list" where
  "RemoveString [] s = []"
| "RemoveString (item # slice) s =
     (if item = s then RemoveString slice s else item # RemoveString slice s)"

definition InsertString :: "string list \<Rightarrow> string \<Rightarrow> string list" where
  "InsertString slice s = (if list_ex (\<lambda>item. item = s) slice then slice else slice @ [s])"

fun repeat_from :: "string set \<Rightarrow> string list \<Rightarrow> bool" where
  "repeat_from tmp [] = False"
| "repeat_from tmp (value # slice) =
     (if value \<in> tmp then True else repeat_from (insert value tmp) slice)"

definition IsRepeatString :: "string list \<Rightarrow> bool" where
  "IsRepeatString slice = (if length slice = 0 then False else repeat_from {} slice)"

lemma ContainsString_iff [simp]: "ContainsString slice s \<longleftrightarrow> s \<in> set slice"
  by (induction slice) auto

lemma RemoveString_filter: "RemoveString slice s = filter (\<lambda>x. x \<noteq> s) slice"
  by (induction slice) auto

lemma set_RemoveString [simp]: "set (RemoveString slice s) = set slice - {s}"
  by (auto simp: RemoveString_filter)

lemma distinct_RemoveString [simp]: "distinct slice \<Longrightarrow> distinct (RemoveString slice s)"
  by (simp add: RemoveString_filter)

lemma InsertString_eq: "InsertString slice s = (if s \<in> set slice then slice else slice @ [s])"
  by (auto simp: InsertString_def list_ex_iff)

lemma set_InsertString [simp]: "set (InsertString slice s) = insert s (set slice)"
  by (auto simp: InsertString_eq)

lemma distinct_InsertString [simp]: "distinct slice \<Longrightarrow> distinct (InsertString slice s)"
  by (auto simp: InsertString_eq)

lemma InsertString_idem [simp]: "InsertString (InsertString slice s) s = InsertString slice s"
  by (auto simp: InsertString_eq)

lemma RemoveString_id: "s \<notin> set slice \<Longrightarrow> RemoveString slice s = slice"
  by (induction slice) auto

lemma RemoveString_InsertString:
  "s \<notin> set slice \<Longrightarrow> RemoveString (InsertString slice s) s = slice"
  by (auto simp: InsertString_eq RemoveString_filter filter_id_conv)

lemma repeat_from_iff: "repeat_from tmp xs \<longleftrightarrow> \<not> distinct xs \<or> set xs \<inter> tmp \<noteq> {}"
  by (induction xs arbitrary: tmp) auto

lemma IsRepeatString_iff: "IsRepeatString slice \<longleftrightarrow> \<not> distinct slice"
  by (auto simp: IsRepeatString_def repeat_from_iff)

text \<open>
  The slice operations are the operations of a finite set without duplicates. The quota
  operators keep a parent's list of children through this interface.
\<close>

locale string_set =
  fixes member_op :: "'s \<Rightarrow> 'a \<Rightarrow> bool"
    and insert_op :: "'s \<Rightarrow> 'a \<Rightarrow> 's"
    and remove_op :: "'s \<Rightarrow> 'a \<Rightarrow> 's"
    and elems :: "'s \<Rightarrow> 'a set"
    and ok :: "'s \<Rightarrow> bool"
  assumes member_law: "member_op s x \<longleftrightarrow> x \<in> elems s"
    and insert_law: "elems (insert_op s x) = insert x (elems s)"
    and remove_law: "elems (remove_op s x) = elems s - {x}"
    and insert_ok: "ok s \<Longrightarrow> ok (insert_op s x)"
    and remove_ok: "ok s \<Longrightarrow> ok (remove_op s x)"
begin

lemma member_insert_same: "member_op (insert_op s x) x"
  by (simp add: member_law insert_law)

lemma member_insert_other: "y \<noteq> x \<Longrightarrow> member_op (insert_op s x) y \<longleftrightarrow> member_op s y"
  by (simp add: member_law insert_law)

lemma member_remove_same: "\<not> member_op (remove_op s x) x"
  by (simp add: member_law remove_law)

lemma insert_remove_elems: "x \<notin> elems s \<Longrightarrow> elems (remove_op (insert_op s x) x) = elems s"
  by (simp add: insert_law remove_law)

lemma fold_insert_elems: "elems (foldl insert_op s xs) = elems s \<union> set xs"
  by (induction xs arbitrary: s) (auto simp: insert_law)

lemma fold_insert_ok: "ok s \<Longrightarrow> ok (foldl insert_op s xs)"
  by (induction xs arbitrary: s) (auto simp: insert_ok)

end

interpretation strset: string_set ContainsString InsertString RemoveString set distinct
  by unfold_locales simp_all

subsection \<open>selector\<close>

text \<open>\<open>strings.IndexAny(label, "~=")\<close>.\<close>

fun IndexAny :: "string \<Rightarrow> char set \<Rightarrow> nat option" where
  "IndexAny [] cs = None"
| "IndexAny (c # s) cs = (if c \<in> cs then Some 0 else map_option Suc (IndexAny s cs))"

type_synonym exact_cond = "(string \<times> string set) list"
type_synonym fuzzy_cond = "(string \<times> string list) list"

abbreviation selector_ops :: "char set" where
  "selector_ops \<equiv> {CHR ''~'', CHR ''=''}"

fun selector_loop :: "string list \<Rightarrow> exact_cond \<Rightarrow> fuzzy_cond \<Rightarrow> exact_cond \<times> fuzzy_cond" where
  "selector_loop [] exact fuzzy = (exact, fuzzy)"
| "selector_loop (label # labels) exact fuzzy =
     (case IndexAny label selector_ops of
        None \<Rightarrow> selector_loop labels exact fuzzy
      | Some i \<Rightarrow>
          if i > 0 then
            (if label ! i = CHR ''='' then
               selector_loop labels
                 (AList.update (take i label) (set (Split (drop (i + 1) label) ''|'')) exact) fuzzy
             else
               selector_loop labels exact
                 (AList.update (take i label) (Split (drop (i + 1) label) ''|'') fuzzy))
          else selector_loop labels exact fuzzy)"

definition ParseSelector :: "string \<Rightarrow> exact_cond \<times> fuzzy_cond" where
  "ParseSelector selectorStr =
     (if selectorStr = [] then ([], [])
      else selector_loop (Split selectorStr '','') [] [])"

definition k8sLabelPrefix :: string where
  "k8sLabelPrefix = ''metadata.labels''"

fun label_selector_loop ::
  "string list \<Rightarrow> (string \<times> string list) list \<Rightarrow> (string \<times> string list) list go" where
  "label_selector_loop [] sel = Ret sel"
| "label_selector_loop (label # labels) sel =
     (case IndexAny label selector_ops of
        None \<Rightarrow> label_selector_loop labels sel
      | Some i \<Rightarrow>
          if i > 0 \<and> label ! i = CHR ''='' \<and> HasPrefix (take i label) k8sLabelPrefix then
            (let labelValue = Split (take i label) (k8sLabelPrefix @ ''.'')
             in if length labelValue < 2 then Panic
                else label_selector_loop labels
                       (AList.update (labelValue ! 1) (Split (drop (i + 1) label) ''|'') sel))
          else label_selector_loop labels sel)"

definition ParseLabelSelector :: "string \<Rightarrow> (string \<times> string list) list go" where
  "ParseLabelSelector selectorStr =
     (if selectorStr = [] then Ret []
      else label_selector_loop (Split selectorStr '','') [])"

subsection \<open>page and sort\<close>

definition ParsePage :: "string \<Rightarrow> string \<Rightarrow> int \<times> int" where
  "ParsePage pageSize pageNum =
     (let limit = (case Atoi pageSize of None \<Rightarrow> 10 | Some l \<Rightarrow> l)
      in case Atoi pageNum of
           None \<Rightarrow> (limit, 0)
         | Some page \<Rightarrow>
             if page < 1 then (limit, 0) else (limit, wrap64 (wrap64 (page - 1) * limit)))"

text \<open>
  \<open>strings.EqualFold\<close> against ASCII text: ASCII letters fold to lower case; the only other code
  points that fold to an ASCII letter are the long s, U+017F, which is the two bytes C5 BF in
  UTF-8, and the Kelvin sign, U+212A, which is the three bytes E2 84 AA.
\<close>

definition ascii_lower :: "char \<Rightarrow> char" where
  "ascii_lower c = (let n = of_char c :: nat in if 65 \<le> n \<and> n \<le> 90 then char_of (n + 32) else c)"

function fold_case :: "string \<Rightarrow> string" where
  "fold_case [] = []"
| "fold_case (c # s) =
     (if map of_char (take 2 (c # s)) = [197 :: nat, 191] then CHR ''s'' # fold_case (drop 1 s)
      else if map of_char (take 3 (c # s)) = [226 :: nat, 132, 170] then CHR ''k'' # fold_case (drop 2 s)
      else ascii_lower c # fold_case s)"
  by pat_completeness auto
termination
  by (relation "measure length") auto

definition EqualFold :: "string \<Rightarrow> string \<Rightarrow> bool" where
  "EqualFold s t \<longleftrightarrow> fold_case s = fold_case t"

definition ParseSort :: "string \<Rightarrow> string \<Rightarrow> string \<Rightarrow> string \<times> string \<times> string" where
  "ParseSort name order sFunc =
     (if name = [] then (''metadata.name'', ''asc'', ''string'')
      else (name,
            (if EqualFold order ''desc'' then ''desc'' else ''asc''),
            (if sFunc \<noteq> [] then sFunc else ''string'')))"

subsection \<open>domain\<close>

definition dns_alnum :: "char \<Rightarrow> bool" where
  "dns_alnum c =
     (let n = (of_char c :: nat) in 97 \<le> n \<and> n \<le> 122 \<or> 48 \<le> n \<and> n \<le> 57)"

definition dns_label :: "string \<Rightarrow> bool" where
  "dns_label l \<longleftrightarrow>
     l \<noteq> [] \<and> dns_alnum (hd l) \<and> dns_alnum (last l) \<and>
     list_all (\<lambda>c. dns_alnum c \<or> c = CHR ''-'') l"

text \<open>\<open>validation.IsDNS1123Subdomain\<close> returns no complaint.\<close>

definition IsDNS1123Subdomain :: "string \<Rightarrow> bool" where
  "IsDNS1123Subdomain s \<longleftrightarrow> length s \<le> 253 \<and> list_all dns_label (Split s ''.'')"

datatype domain_err = InvalidSuffix string | RepeatedSuffix

fun suffix_loop :: "string list \<Rightarrow> domain_err option" where
  "suffix_loop [] = None"
| "suffix_loop (d # ds) =
     (if length d \<noteq> 0 \<and> \<not> IsDNS1123Subdomain d then Some (InvalidSuffix d)
      else suffix_loop ds)"

definition ValidatorDomainSuffix :: "string list \<Rightarrow> domain_err option" where
  "ValidatorDomainSuffix l =
     (if l = [] then None
      else case suffix_loop l of
             Some e \<Rightarrow> Some e
           | None \<Rightarrow> if IsRepeatString l then Some RepeatedSuffix else None)"

subsection \<open>Properties of the selector language\<close>

lemma IndexAny_append:
  "set k \<inter> cs = {} \<Longrightarrow> c \<in> cs \<Longrightarrow> IndexAny (k @ c # s) cs = Some (length k)"
  by (induction k) auto

lemma IndexAny_None: "IndexAny s cs = None \<longleftrightarrow> set s \<inter> cs = {}"
  by (induction s) auto

text \<open>
  Conditions as a query string: a key, \<open>=\<close> for an exact or \<open>~\<close> for a fuzzy match, and
  the alternatives joined by a bar; conditions joined by commas.
\<close>

datatype cond = ExactC string "string list" | FuzzyC string "string list"

fun print_cond :: "cond \<Rightarrow> string" where
  "print_cond (ExactC k vs) = k @ CHR ''='' # Join vs ''|''"
| "print_cond (FuzzyC k vs) = k @ CHR ''~'' # Join vs ''|''"

fun cond_ok :: "cond \<Rightarrow> bool" where
  "cond_ok (ExactC k vs) \<longleftrightarrow> k \<noteq> [] \<and> set k \<inter> {CHR ''~'', CHR ''='', CHR '',''} = {} \<and> vs \<noteq> [] \<and>
     (\<forall>v \<in> set vs. CHR ''|'' \<notin> set v \<and> CHR '','' \<notin> set v)"
| "cond_ok (FuzzyC k vs) \<longleftrightarrow> k \<noteq> [] \<and> set k \<inter> {CHR ''~'', CHR ''='', CHR '',''} = {} \<and> vs \<noteq> [] \<and>
     (\<forall>v \<in> set vs. CHR ''|'' \<notin> set v \<and> CHR '','' \<notin> set v)"

fun add_cond :: "exact_cond \<times> fuzzy_cond \<Rightarrow> cond \<Rightarrow> exact_cond \<times> fuzzy_cond" where
  "add_cond (exact, fuzzy) (ExactC k vs) = (AList.update k (set vs) exact, fuzzy)"
| "add_cond (exact, fuzzy) (FuzzyC k vs) = (exact, AList.update k vs fuzzy)"

lemma selector_loop_step:
  assumes "cond_ok c"
  shows "selector_loop (print_cond c # labels) exact fuzzy =
         (case add_cond (exact, fuzzy) c of (e, f) \<Rightarrow> selector_loop labels e f)"
proof (cases c)
  case (ExactC k vs)
  with assms have "IndexAny (print_cond c) selector_ops = Some (length k)"
    by (auto intro: IndexAny_append)
  with ExactC assms show ?thesis by (simp add: Split_Join_char)
next
  case (FuzzyC k vs)
  with assms have "IndexAny (print_cond c) selector_ops = Some (length k)"
    by (auto intro: IndexAny_append)
  with FuzzyC assms show ?thesis by (simp add: Split_Join_char)
qed

lemma selector_loop_print:
  "(\<forall>c \<in> set cs. cond_ok c) \<Longrightarrow>
   selector_loop (map print_cond cs) exact fuzzy = foldl add_cond (exact, fuzzy) cs"
proof (induction cs arbitrary: exact fuzzy)
  case (Cons c cs)
  then show ?case
    by (cases "add_cond (exact, fuzzy) c") (simp add: selector_loop_step del: selector_loop.simps)
qed simp

lemma set_Join_subset: "set (Join xs sep) \<subseteq> \<Union> (set ` set xs) \<union> set sep"
  by (induction xs sep rule: Join.induct) auto

lemma comma_notin_print_cond: "cond_ok c \<Longrightarrow> CHR '','' \<notin> set (print_cond c)"
  using set_Join_subset [of _ "''|''"] by (cases c) fastforce+

lemma print_cond_nonempty: "print_cond c \<noteq> []"
  by (cases c) auto

text \<open>
  Parsing a printed list query gives the conditions back: every exact condition as its
  set of alternatives, every fuzzy one as its list, a later condition on a key replacing an
  earlier one.
\<close>

lemma ParseSelector_print:
  assumes "cs \<noteq> []" and "\<forall>c \<in> set cs. cond_ok c"
  shows "ParseSelector (Join (map print_cond cs) '','') = foldl add_cond ([], []) cs"
proof -
  have "Split (Join (map print_cond cs) '','') '','' = map print_cond cs"
    using assms by (intro Split_Join_char) (auto simp: comma_notin_print_cond)
  moreover have "Join (map print_cond cs) '','' \<noteq> []"
    using assms(1) by (cases cs; cases "tl cs") (auto simp: print_cond_nonempty Join_Cons)
  ultimately show ?thesis
    using assms(2) by (simp add: ParseSelector_def selector_loop_print)
qed

lemma label_selector_loop_Panic:
  "label_selector_loop labels sel = Panic \<longleftrightarrow>
   (\<exists>label \<in> set labels. \<exists>i. IndexAny label selector_ops = Some i \<and> i > 0 \<and>
      label ! i = CHR ''='' \<and> HasPrefix (take i label) k8sLabelPrefix \<and>
      \<not> Contains (take i label) (k8sLabelPrefix @ ''.''))"
proof (induction labels arbitrary: sel)
  case (Cons label labels)
  then show ?case
    by (cases "IndexAny label selector_ops") (auto simp: Let_def length_Split)
qed simp

text \<open>
  \<open>ParseLabelSelector\<close> indexes \<open>labelValue[1]\<close> after testing only for the prefix
  \<open>metadata.labels\<close>: it panics exactly when some item of the query has \<open>=\<close> as its
  operator and a key that starts with \<open>metadata.labels\<close> but nowhere contains
  \<open>metadata.labels.\<close> with the dot.
\<close>

lemma ParseLabelSelector_Panic_iff:
  "ParseLabelSelector s = Panic \<longleftrightarrow>
   (\<exists>label \<in> set (Split s '',''). \<exists>i. IndexAny label selector_ops = Some i \<and> i > 0 \<and>
      label ! i = CHR ''='' \<and> HasPrefix (take i label) k8sLabelPrefix \<and>
      \<not> Contains (take i label) (k8sLabelPrefix @ ''.''))"
  by (auto simp: ParseLabelSelector_def label_selector_loop_Panic Split_def)

lemma ParseLabelSelector_example: "ParseLabelSelector ''metadata.labels=x'' = Panic"
  by code_simp

subsection \<open>Properties of paging and of the domain suffix check\<close>

text \<open>
  With a page size and a page number that parse and a product within \<open>int\<close>, the
  offset is the page number less one times the limit; an unreadable page size means ten,
  and a page number that does not parse or is below one means the first page.
\<close>

theorem ParsePage_offset:
  assumes "Atoi pageNum = Some page" and "1 \<le> page"
    and "- (2 ^ 63) \<le> (page - 1) * (case Atoi pageSize of None \<Rightarrow> 10 | Some l \<Rightarrow> l)"
    and "(page - 1) * (case Atoi pageSize of None \<Rightarrow> 10 | Some l \<Rightarrow> l) < 2 ^ 63"
  shows "ParsePage pageSize pageNum =
     (case Atoi pageSize of None \<Rightarrow> 10 | Some l \<Rightarrow> l,
      (page - 1) * (case Atoi pageSize of None \<Rightarrow> 10 | Some l \<Rightarrow> l))"
proof -
  have "wrap64 (page - 1) = page - 1"
    using Atoi_range [OF assms(1)] assms(2) by (intro wrap64_id) auto
  then show ?thesis using assms by (simp add: ParsePage_def Let_def)
qed

theorem ParsePage_offset_witness: "ParsePage ''20'' ''3'' = (20, 40)"
proof -
  have "Atoi ''3'' = Some 3" "Atoi ''20'' = Some 20" by code_simp+
  then show ?thesis using ParsePage_offset [of "''3''" 3 "''20''"] by simp
qed

lemma suffix_loop_None:
  "suffix_loop l = None \<longleftrightarrow> (\<forall>d \<in> set l. d \<noteq> [] \<longrightarrow> IsDNS1123Subdomain d)"
  by (induction l) auto

text \<open>
  The ingress domain suffixes of a project or a cluster are accepted exactly when every
  non-empty one is an RFC 1123 subdomain and none occurs twice.
\<close>

theorem ValidatorDomainSuffix_accepts:
  "ValidatorDomainSuffix l = None \<longleftrightarrow>
   list_all (\<lambda>d. IsDNS1123Subdomain d \<or> d = []) l \<and> distinct l"
proof (cases "suffix_loop l")
  case None
  with suffix_loop_None [of l] show ?thesis
    by (auto simp: ValidatorDomainSuffix_def IsRepeatString_iff list_all_iff)
next
  case (Some e)
  with suffix_loop_None [of l] have "\<not> list_all (\<lambda>d. IsDNS1123Subdomain d \<or> d = []) l"
    by (auto simp: list_all_iff)
  with Some show ?thesis by (auto simp: ValidatorDomainSuffix_def)
qed

end
