(* ===== verification/ListFilter.thy ===== *)
theory ListFilter
  imports StringUtils Complex_Main
begin

section \<open>List queries: pkg/utils/filter\<close>

text \<open>
  The chain that answers a list query: exact match, fuzzy match, sort, page, version
  conversion (\<open>exact_filter_chain.go\<close>, \<open>fuzzy_filter_chain.go\<close>, \<open>sort_chain.go\<close>,
  \<open>page_chain.go\<close>, \<open>convert_chain.go\<close>, \<open>help.go\<close> and \<open>filter\<close> of
  \<open>filter.go\<close>). An unstructured object is a JSON value. \<open>sort.Slice\<close> is an argument:
  it is only documented to sort when the comparison is a strict weak order.
\<close>

datatype json =
    JNull
  | JBool bool
  | JInt int
  | JFloat rat
  | JStr string
  | JArr "json list"
  | JObj "(string \<times> json) list"

definition Labels :: string where "Labels = ''labels''"
definition Annotations :: string where "Annotations = ''annotations''"

definition fieldNotExistErr :: "string \<Rightarrow> err" where
  "fieldNotExistErr field = Err (''field '' @ field @ '' not exsit'')"

subsection \<open>Definitions\<close>

fun oks :: "'a result list \<Rightarrow> 'a list" where
  "oks [] = []"
| "oks (Inl e # rs) = oks rs"
| "oks (Inr x # rs) = x # oks rs"

lemma size_map_of: "map_of kvs k = Some v \<Longrightarrow> size v < size (JObj kvs)"
  by (induction kvs) (auto split: if_splits)

text \<open>
  \<open>getRes\<close>: objects are read field by field, arrays elementwise with failures skipped; a
  null is marshalled and read as an empty object, any other value is an error.
\<close>

function getRes :: "json \<Rightarrow> nat \<Rightarrow> string list \<Rightarrow> json result" where
  "getRes (JObj info) index fields =
     (if fields ! index = Labels \<or> fields ! index = Annotations then
        (case map_of info (fields ! index) of
           None \<Rightarrow> Inl (fieldNotExistErr (fields ! index))
         | Some nxt \<Rightarrow> getRes nxt 0 [Join (drop (index + 1) fields) ''.''])
      else if index = length fields - 1 then
        (case map_of info (fields ! index) of
           None \<Rightarrow> Inl (fieldNotExistErr (fields ! index))
         | Some v \<Rightarrow> Inr v)
      else
        (case map_of info (fields ! index) of
           None \<Rightarrow> Inl (fieldNotExistErr (fields ! index))
         | Some nxt \<Rightarrow> getRes nxt (index + 1) fields))"
| "getRes (JArr arr) index fields = Inr (JArr (oks (map (\<lambda>info. getRes info index fields) arr)))"
| "getRes JNull index fields = Inl (fieldNotExistErr (fields ! index))"
| "getRes (JBool b) index fields = Inl (Err ''cannot unmarshal'')"
| "getRes (JInt n) index fields = Inl (Err ''cannot unmarshal'')"
| "getRes (JFloat q) index fields = Inl (Err ''cannot unmarshal'')"
| "getRes (JStr s) index fields = Inl (Err ''cannot unmarshal'')"
  by pat_completeness auto
termination
proof (relation "measure (\<lambda>(j, i, f). size j)")
  show "info \<in> set arr \<Longrightarrow> ((info, index, fields), JArr arr, index, fields) \<in> measure (\<lambda>(j, i, f). size j)"
    for arr info and index :: nat and fields :: "string list"
    by (induction arr) auto
qed (use size_map_of in fastforce)+

fun json_strings :: "json list \<Rightarrow> string list" where
  "json_strings [] = []"
| "json_strings (JStr s # vs) = s # json_strings vs"
| "json_strings (v # vs) = json_strings vs"

definition GetDeepValue :: "json \<Rightarrow> string \<Rightarrow> string list result" where
  "GetDeepValue item keyStr =
     (case getRes item 0 (Split keyStr ''.'') of
        Inl e \<Rightarrow> Inl e
      | Inr (JStr s) \<Rightarrow> Inr [s]
      | Inr (JArr array) \<Rightarrow> Inr (json_strings array)
      | Inr v \<Rightarrow> Inl (Err ''only support string or string array value''))"

fun exact_conditions :: "json \<Rightarrow> exact_cond \<Rightarrow> bool" where
  "exact_conditions item [] = True"
| "exact_conditions item ((key, vals) # conds) =
     (case GetDeepValue item key of
        Inl e \<Rightarrow> False
      | Inr realValue \<Rightarrow>
          if list_ex (\<lambda>v. v \<in> vals) realValue then exact_conditions item conds else False)"

fun exact_items :: "json list \<Rightarrow> exact_cond \<Rightarrow> json list" where
  "exact_items [] exact = []"
| "exact_items (item # items) exact =
     (if exact_conditions item exact then item # exact_items items exact else exact_items items exact)"

definition ExactFilter :: "json list \<Rightarrow> exact_cond \<Rightarrow> json list" where
  "ExactFilter items exact =
     (if length items < 1 then items else if length exact < 1 then items else exact_items items exact)"

fun fuzzy_conditions :: "json \<Rightarrow> fuzzy_cond \<Rightarrow> bool" where
  "fuzzy_conditions item [] = True"
| "fuzzy_conditions item ((key, valueArray) # conds) =
     (case GetDeepValue item key of
        Inl e \<Rightarrow> False
      | Inr realValue \<Rightarrow>
          if list_ex (\<lambda>v. list_ex (\<lambda>val. Contains v val) valueArray) realValue
          then fuzzy_conditions item conds else False)"

fun fuzzy_items :: "json list \<Rightarrow> fuzzy_cond \<Rightarrow> json list" where
  "fuzzy_items [] fuzzy = []"
| "fuzzy_items (item # items) fuzzy =
     (if fuzzy_conditions item fuzzy then item # fuzzy_items items fuzzy else fuzzy_items items fuzzy)"

definition FuzzyFilter :: "json list \<Rightarrow> fuzzy_cond \<Rightarrow> json list" where
  "FuzzyFilter items fuzzy =
     (if length items < 1 then items else if length fuzzy < 1 then items else fuzzy_items items fuzzy)"

text \<open>
  \<open>GetDeepFloat64\<close>: any failing type assertion panics and is recovered to zero.
\<close>

fun float_walk :: "json \<Rightarrow> string list \<Rightarrow> rat" where
  "float_walk temp [] = 0"
| "float_walk temp [k] =
     (case temp of
        JObj info \<Rightarrow> (case map_of info k of Some (JFloat q) \<Rightarrow> q | _ \<Rightarrow> 0)
      | _ \<Rightarrow> 0)"
| "float_walk temp (k # k' # ks) =
     (case temp of
        JObj info \<Rightarrow>
          (case map_of info k of
             Some (JObj info') \<Rightarrow>
               if k = Labels \<or> k = Annotations
               then (case map_of info' (Join (k' # ks) ''.'') of Some (JFloat q) \<Rightarrow> q | _ \<Rightarrow> 0)
               else float_walk (JObj info') (k' # ks)
           | _ \<Rightarrow> 0)
      | _ \<Rightarrow> 0)"

definition GetDeepFloat64 :: "json \<Rightarrow> string \<Rightarrow> rat" where
  "GetDeepFloat64 item keyStr = float_walk item (Split keyStr ''.'')"

record SortParam =
  sp_sortName :: string
  sp_sortOrder :: string
  sp_sortFunc :: string

text \<open>\<open>strings.Compare\<close>.\<close>

fun str_compare :: "string \<Rightarrow> string \<Rightarrow> int" where
  "str_compare [] [] = 0"
| "str_compare [] (b # bs) = -1"
| "str_compare (a # as) [] = 1"
| "str_compare (a # as) (b # bs) =
     (if (of_char a :: nat) < of_char b then -1 else if (of_char b :: nat) < of_char a then 1 else str_compare as bs)"

text \<open>
  \<open>getStringFunc\<close>: the two values to compare; \<open>None\<close> is an error. A value that is a
  longer array gives two empty strings and no error; one that is an empty array is indexed.
\<close>

definition getStringFunc :: "string \<Rightarrow> json \<Rightarrow> json \<Rightarrow> (string \<times> string) option go" where
  "getStringFunc sortName itemi itemj =
     (case GetDeepValue itemi sortName of
        Inl e \<Rightarrow> Ret None
      | Inr si \<Rightarrow>
          if length si > 1 then Ret (Some ([], []))
          else (case GetDeepValue itemj sortName of
                  Inl e \<Rightarrow> Ret None
                | Inr sj \<Rightarrow>
                    if length sj > 1 then Ret (Some ([], []))
                    else (case si of [] \<Rightarrow> Panic
                          | before # _ \<Rightarrow> (case sj of [] \<Rightarrow> Panic | after # _ \<Rightarrow> Ret (Some (before, after))))))"

definition sort_string :: "SortParam \<Rightarrow> json \<Rightarrow> json \<Rightarrow> bool go" where
  "sort_string param itemi itemj =
     go_bind (getStringFunc (sp_sortName param) itemi itemj) (\<lambda>r. Ret (case r of
        None \<Rightarrow> False
      | Some (before, after) \<Rightarrow>
          if sp_sortOrder param = ''asc'' then str_compare before after \<noteq> 1
          else str_compare before after = 1))"

text \<open>The comparison function; \<open>parse_time\<close> is \<open>time.ParseInLocation\<close> as a number.\<close>

definition sort_less :: "(string \<Rightarrow> int option) \<Rightarrow> SortParam \<Rightarrow> json \<Rightarrow> json \<Rightarrow> bool go" where
  "sort_less parse_time param itemi itemj =
     (if sp_sortFunc param = ''string'' then sort_string param itemi itemj
      else if sp_sortFunc param = ''time'' then
        go_bind (getStringFunc (sp_sortName param) itemi itemj) (\<lambda>r. Ret (case r of
           None \<Rightarrow> False
         | Some (before, after) \<Rightarrow>
             (case parse_time before of
                None \<Rightarrow> False
              | Some ti \<Rightarrow>
                  (case parse_time after of
                     None \<Rightarrow> False
                   | Some tj \<Rightarrow> if sp_sortOrder param = ''asc'' then ti < tj else ti > tj))))
      else if sp_sortFunc param = ''number'' then
        let ni = GetDeepFloat64 itemi (sp_sortName param); nj = GetDeepFloat64 itemj (sp_sortName param)
        in Ret (if sp_sortOrder param = ''asc'' then ni < nj
                else if sp_sortOrder param = ''desc'' then ni > nj
                else ni < nj)
      else sort_string param itemi itemj)"

definition SortHandler ::
  "((json \<Rightarrow> json \<Rightarrow> bool go) \<Rightarrow> json list \<Rightarrow> json list go) \<Rightarrow> (string \<Rightarrow> int option) \<Rightarrow> json list \<Rightarrow> SortParam \<Rightarrow> json list go" where
  "SortHandler sort_slice parse_time items param =
     (if length items = 0 then Ret items
      else if length (sp_sortFunc param) = 0 \<or> length (sp_sortName param) = 0 then Ret items
      else sort_slice (sort_less parse_time param) items)"

definition PageHandler :: "'a list \<Rightarrow> int \<Rightarrow> int \<Rightarrow> 'a list go" where
  "PageHandler items limit offset =
     (if length items = 0 then Ret items
      else if limit = 0 then Ret items
      else
        let size = int (length items)
        in if offset \<ge> size then Ret []
           else
             let e = wrap64 (offset + limit);
                 e = (if e > size then size else e)
             in if offset < 0 \<or> e < offset then Panic
                else Ret (take (nat (e - offset)) (drop (nat offset) items)))"

definition get_str :: "json \<Rightarrow> string \<Rightarrow> string" where
  "get_str u field =
     (case u of JObj kvs \<Rightarrow> (case map_of kvs field of Some (JStr s) \<Rightarrow> s | _ \<Rightarrow> []) | _ \<Rightarrow> [])"

definition set_str :: "json \<Rightarrow> string \<Rightarrow> string \<Rightarrow> json" where
  "set_str u field s =
     (case u of JObj kvs \<Rightarrow> JObj (AList.update field (JStr s) kvs) | _ \<Rightarrow> JObj [(field, JStr s)])"

text \<open>
  \<open>ConvertHandler\<close>: \<open>gvr2gvk\<close> is the kind that the REST mapper gives for the converted
  resource and \<open>direct_convert\<close> is \<open>DirectConvert\<close> to the raw group version; both belong to
  other packages. The version and kind are set in the item's own map, so they stay set when a
  later conversion fails and the items are given back unconverted.
\<close>

record convert_param =
  cp_convertedVersion :: string
  cp_gvr2gvk :: "string result"
  cp_direct_convert :: "json \<Rightarrow> json result"

fun convert_loop :: "convert_param \<Rightarrow> json list \<Rightarrow> json list \<Rightarrow> json list \<Rightarrow> json list \<times> err option" where
  "convert_loop param seen [] res = (res, None)"
| "convert_loop param seen (u # us) res =
     (let u = (if get_str u ''apiVersion'' = [] then set_str u ''apiVersion'' (cp_convertedVersion param) else u)
      in case (if get_str u ''kind'' = []
               then (case cp_gvr2gvk param of Inl e \<Rightarrow> Inl e | Inr kind \<Rightarrow> Inr (set_str u ''kind'' kind))
               else Inr u) of
           Inl e \<Rightarrow> ([], Some e)
         | Inr u \<Rightarrow>
             (case cp_direct_convert param u of
                Inl e \<Rightarrow> (seen @ u # us, Some e)
              | Inr out \<Rightarrow> convert_loop param (seen @ [u]) us (res @ [out])))"

definition ConvertHandler :: "convert_param \<Rightarrow> json list \<Rightarrow> json list \<times> err option" where
  "ConvertHandler param items = convert_loop param [] items []"

text \<open>\<open>None\<close> is a filter with no converter context or with conversion disabled.\<close>

definition versionConvert :: "convert_param option \<Rightarrow> json list \<Rightarrow> json list \<times> err option" where
  "versionConvert ctx listObject =
     (case ctx of None \<Rightarrow> (listObject, None) | Some param \<Rightarrow> ConvertHandler param listObject)"

record Condition =
  co_Exact :: exact_cond
  co_Fuzzy :: fuzzy_cond
  co_Limit :: int
  co_Offset :: int
  co_SortName :: string
  co_SortOrder :: string
  co_SortFunc :: string

definition filter_list ::
  "((json \<Rightarrow> json \<Rightarrow> bool go) \<Rightarrow> json list \<Rightarrow> json list go) \<Rightarrow> (string \<Rightarrow> int option) \<Rightarrow> convert_param option
     \<Rightarrow> json list \<Rightarrow> Condition \<Rightarrow> (json list \<times> int) go" where
  "filter_list sort_slice parse_time ctx listObject cond =
     (let listObject = ExactFilter listObject (co_Exact cond);
          listObject = FuzzyFilter listObject (co_Fuzzy cond);
          sortParam = \<lparr>sp_sortName = co_SortName cond, sp_sortOrder = co_SortOrder cond, sp_sortFunc = co_SortFunc cond\<rparr>
      in go_bind (SortHandler sort_slice parse_time listObject sortParam) (\<lambda>listObject.
           let total = int (length listObject)
           in go_bind (PageHandler listObject (co_Limit cond) (co_Offset cond)) (\<lambda>listObject.
                Ret (fst (versionConvert ctx listObject), total))))"

subsection \<open>Matching\<close>

definition matches_exact :: "json \<Rightarrow> string \<times> string set \<Rightarrow> bool" where
  "matches_exact item c =
     (case GetDeepValue item (fst c) of Inl e \<Rightarrow> False | Inr vs \<Rightarrow> list_ex (\<lambda>v. v \<in> snd c) vs)"

definition matches_fuzzy :: "json \<Rightarrow> string \<times> string list \<Rightarrow> bool" where
  "matches_fuzzy item c =
     (case GetDeepValue item (fst c) of
        Inl e \<Rightarrow> False | Inr vs \<Rightarrow> list_ex (\<lambda>v. list_ex (\<lambda>val. Contains v val) (snd c)) vs)"

lemma exact_conditions_iff: "exact_conditions item conds \<longleftrightarrow> list_all (matches_exact item) conds"
  by (induction item conds rule: exact_conditions.induct) (auto simp: matches_exact_def split: sum.splits)

lemma fuzzy_conditions_iff: "fuzzy_conditions item conds \<longleftrightarrow> list_all (matches_fuzzy item) conds"
  by (induction item conds rule: fuzzy_conditions.induct) (auto simp: matches_fuzzy_def split: sum.splits)

lemma exact_items_filter: "exact_items items exact = filter (\<lambda>i. exact_conditions i exact) items"
  by (induction items) auto

lemma fuzzy_items_filter: "fuzzy_items items fuzzy = filter (\<lambda>i. fuzzy_conditions i fuzzy) items"
  by (induction items) auto

lemma ExactFilter_eq: "ExactFilter items exact = filter (\<lambda>i. list_all (matches_exact i) exact) items"
  by (cases items; cases exact) (auto simp: ExactFilter_def exact_items_filter exact_conditions_iff)

lemma FuzzyFilter_eq: "FuzzyFilter items fuzzy = filter (\<lambda>i. list_all (matches_fuzzy i) fuzzy) items"
  by (cases items; cases fuzzy) (auto simp: FuzzyFilter_def fuzzy_items_filter fuzzy_conditions_iff)

text \<open>
  The two filters keep, in order, exactly the items that meet every condition: the value
  at the condition's path is a string or an array with a string among the wanted values
  (exact), or one that contains a wanted value (fuzzy). Items without the path are dropped,
  and the order of the conditions does not matter.
\<close>

lemma filters_exact:
  "FuzzyFilter (ExactFilter items exact) fuzzy =
     filter (\<lambda>i. list_all (matches_exact i) exact \<and> list_all (matches_fuzzy i) fuzzy) items"
  by (simp add: ExactFilter_eq FuzzyFilter_eq conj_commute)

subsection \<open>Paths with dots in the last key\<close>

lemma Split_dot_Cons: "CHR ''.'' \<notin> set x \<Longrightarrow> Split (x @ CHR ''.'' # s) ''.'' = x # Split s ''.''"
  by (simp add: Split_def split_from_char)

text \<open>
  A label is found whatever dots its key has. The value of the path \<open>metadata.labels.k\<close>
  is the label \<open>k\<close>, for every key but \<open>labels\<close> and \<open>annotations\<close> themselves; a
  missing label is an error, and so is a label that is not a string or an array.
\<close>

theorem GetDeepValue_label:
  assumes "k \<noteq> ''labels''" and "k \<noteq> ''annotations''"
    and "map_of kvs ''metadata'' = Some (JObj meta)" and "map_of meta ''labels'' = Some (JObj ls)"
  shows "GetDeepValue (JObj kvs) (''metadata.labels.'' @ k) =
    (case map_of ls k of
       None \<Rightarrow> Inl (fieldNotExistErr k)
     | Some (JStr s) \<Rightarrow> Inr [s]
     | Some (JArr vs) \<Rightarrow> Inr (json_strings vs)
     | Some _ \<Rightarrow> Inl (Err ''only support string or string array value''))"
proof -
  have "Split (''metadata.labels.'' @ k) ''.'' = ''metadata'' # ''labels'' # Split k ''.''"
    using Split_dot_Cons [of "''metadata''" "''labels.'' @ k"] Split_dot_Cons [of "''labels''" k] by simp
  moreover have "Join (Split k ''.'') ''.'' = k" by (rule Join_Split)
  ultimately show ?thesis
    using assms by (simp add: GetDeepValue_def Labels_def Annotations_def split: option.splits json.splits)
qed

theorem GetDeepValue_label_witness:
  "GetDeepValue (JObj [(''metadata'', JObj [(''labels'', JObj [(''app.io/name'', JStr ''x'')])])])
     (''metadata.labels.'' @ ''app.io/name'') = Inr [''x'']"
  by (subst GetDeepValue_label [where meta = "[(''labels'', JObj [(''app.io/name'', JStr ''x'')])]"
        and ls = "[(''app.io/name'', JStr ''x'')]"]) simp_all

subsection \<open>Paging\<close>

text \<open>
  Paging is exact. With a limit, the page is the slice of that length at the offset, cut
  at the end of the list and empty past it; a limit of zero means everything. The code panics
  exactly on a non-empty list when the offset is negative, or the end, computed with 64-bit
  wrap around, comes before an offset that lies in the list.
\<close>

lemma PageHandler_exact:
  "PageHandler items limit offset =
     (if items = [] \<or> limit = 0 then Ret items
      else if int (length items) \<le> offset then Ret []
      else if offset < 0 \<or> wrap64 (offset + limit) < offset then Panic
      else Ret (take (nat (wrap64 (offset + limit) - offset)) (drop (nat offset) items)))"
proof -
  have "take (nat (int (length items) - offset)) (drop (nat offset) items) =
        take (nat (wrap64 (offset + limit) - offset)) (drop (nat offset) items)"
    if "0 \<le> offset" "int (length items) < wrap64 (offset + limit)" "offset < int (length items)"
    using that by simp
  then show ?thesis
    by (auto simp: PageHandler_def Let_def not_le)
qed

lemma PageHandler_page:
  assumes "0 < l" and "int o' + int l < 2 ^ 63"
  shows "PageHandler items (int l) (int o') = Ret (take l (drop o' items))"
proof -
  have "wrap64 (int o' + int l) = int o' + int l" using assms by simp
  then show ?thesis
    using assms by (auto simp: PageHandler_def Let_def nat_diff_distrib' nat_int_add)
qed

text \<open>
  The pages of a list make up the list. For any page size the pages 1 to \<open>m\<close>, as
  \<open>ParsePage\<close> numbers them, follow each other without gap or overlap, as long as the
  numbers fit in 64 bits.
\<close>

lemma pages_partition:
  assumes "0 < l" and "int (m * l) < 2 ^ 63"
  shows "map (\<lambda>i. PageHandler items (int l) (int (i * l))) [0..<m] =
           map (\<lambda>i. Ret (take l (drop (i * l) items))) [0..<m] \<and>
         concat (map (\<lambda>i. take l (drop (i * l) items)) [0..<m]) = take (m * l) items"
proof
  have "PageHandler items (int l) (int (i * l)) = Ret (take l (drop (i * l) items))" if "i < m" for i
  proof (rule PageHandler_page [OF assms(1)])
    have "i * l + l \<le> m * l" using that by (metis Suc_leI add.commute mult_Suc mult_le_mono1)
    then show "int (i * l) + int l < 2 ^ 63" using assms(2) by linarith
  qed
  then show "map (\<lambda>i. PageHandler items (int l) (int (i * l))) [0..<m] =
      map (\<lambda>i. Ret (take l (drop (i * l) items))) [0..<m]" by simp
  show "concat (map (\<lambda>i. take l (drop (i * l) items)) [0..<m]) = take (m * l) items"
    by (induction m) (simp_all add: take_add [symmetric] add.commute)
qed

subsection \<open>Sorting\<close>

text \<open>
  What \<open>sort.Slice\<close> promises: it permutes the items, and if the comparison does not panic
  on them and is a strict weak order, no later item is less than an earlier one.
\<close>

definition strict_weak :: "('a \<Rightarrow> 'a \<Rightarrow> bool) \<Rightarrow> bool" where
  "strict_weak r \<longleftrightarrow> (\<forall>x. \<not> r x x) \<and> (\<forall>x y z. r x y \<longrightarrow> r y z \<longrightarrow> r x z) \<and>
     (\<forall>x y z. \<not> r x y \<longrightarrow> \<not> r y z \<longrightarrow> \<not> r x z)"

definition sorts :: "((json \<Rightarrow> json \<Rightarrow> bool go) \<Rightarrow> json list \<Rightarrow> json list go) \<Rightarrow> bool" where
  "sorts ss \<longleftrightarrow>
     (\<forall>less items ys. ss less items = Ret ys \<longrightarrow> set ys = set items \<and> length ys = length items) \<and>
     (\<forall>r items. strict_weak r \<longrightarrow>
        (\<exists>ys. ss (\<lambda>x y. Ret (r x y)) items = Ret ys \<and> sorted_wrt (\<lambda>x y. \<not> r y x) ys))"

lemma strict_weak_key: "strict_weak (\<lambda>x y. (f x :: 'k :: linorder) < f y)" "strict_weak (\<lambda>x y. (f x :: 'k :: linorder) > f y)"
  by (auto simp: strict_weak_def)

text \<open>
  Sorting by number is right. Under the contract of \<open>sort.Slice\<close> the handler returns the
  items ordered by their number, ascending unless descending order is asked for.
\<close>

lemma SortHandler_number:
  assumes "sorts ss" and "sp_sortFunc param = ''number''" and "sp_sortName param \<noteq> []"
  shows "\<exists>ys. SortHandler ss pt items param = Ret ys \<and> set ys = set items \<and> length ys = length items \<and>
    sorted_wrt (\<lambda>x y. if sp_sortOrder param = ''desc''
      then GetDeepFloat64 y (sp_sortName param) \<le> GetDeepFloat64 x (sp_sortName param)
      else GetDeepFloat64 x (sp_sortName param) \<le> GetDeepFloat64 y (sp_sortName param)) ys"
proof (cases items)
  case Nil
  then show ?thesis by (simp add: SortHandler_def)
next
  case (Cons i rest)
  let ?f = "\<lambda>x. GetDeepFloat64 x (sp_sortName param)"
  let ?r = "if sp_sortOrder param = ''desc'' then (\<lambda>x y. ?f x > ?f y) else (\<lambda>x y. ?f x < ?f y)"
  have less: "sort_less pt param = (\<lambda>x y. Ret (?r x y))"
    using assms(2) by (auto simp: sort_less_def Let_def fun_eq_iff)
  have "strict_weak ?r" using strict_weak_key [of ?f] by simp
  with assms(1) obtain ys where ys: "ss (\<lambda>x y. Ret (?r x y)) items = Ret ys" "sorted_wrt (\<lambda>x y. \<not> ?r y x) ys"
    unfolding sorts_def by blast
  moreover from ys(1) assms(1) have "set ys = set items \<and> length ys = length items"
    unfolding sorts_def by blast
  moreover have "sorted_wrt (\<lambda>x y. if sp_sortOrder param = ''desc'' then ?f y \<le> ?f x else ?f x \<le> ?f y) ys"
    using ys(2) by (simp add: not_less split: if_splits)
  ultimately show ?thesis using Cons assms less by (simp add: SortHandler_def)
qed

text \<open>Insertion sort keeps the contract; the examples run with it.\<close>

definition insert_by :: "('a \<Rightarrow> 'a \<Rightarrow> bool) \<Rightarrow> 'a \<Rightarrow> 'a list \<Rightarrow> 'a list" where
  "insert_by r x ys = takeWhile (\<lambda>y. r y x) ys @ x # dropWhile (\<lambda>y. r y x) ys"

definition insertion_sort :: "(json \<Rightarrow> json \<Rightarrow> bool go) \<Rightarrow> json list \<Rightarrow> json list go" where
  "insertion_sort lt items = Ret (foldr (insert_by (\<lambda>x y. lt x y = Ret True)) items [])"

lemma insert_by_perm [simp]: "set (insert_by r x ys) = insert x (set ys)" "length (insert_by r x ys) = Suc (length ys)"
proof -
  have "set ys = set (takeWhile (\<lambda>y. r y x) ys) \<union> set (dropWhile (\<lambda>y. r y x) ys)"
    by (metis set_append takeWhile_dropWhile_id)
  then show "set (insert_by r x ys) = insert x (set ys)" by (auto simp: insert_by_def)
  show "length (insert_by r x ys) = Suc (length ys)"
    by (metis add_Suc_right insert_by_def length_Cons length_append takeWhile_dropWhile_id)
qed

lemma insert_by_sorted:
  assumes "strict_weak r" and "sorted_wrt (\<lambda>x y. \<not> r y x) ys"
  shows "sorted_wrt (\<lambda>x y. \<not> r y x) (insert_by r x ys)"
  using assms(2)
proof (induction ys)
  case (Cons y ys)
  from assms(1) have sw: "\<And>a. \<not> r a a" "\<And>a b c. r a b \<Longrightarrow> r b c \<Longrightarrow> r a c" "\<And>a b c. \<not> r a b \<Longrightarrow> \<not> r b c \<Longrightarrow> \<not> r a c"
    unfolding strict_weak_def by blast+
  show ?case
  proof (cases "r y x")
    case True
    then have "insert_by r x (y # ys) = y # insert_by r x ys" by (simp add: insert_by_def)
    moreover have "\<not> r x y" using True sw(1,2) by blast
    ultimately show ?thesis using Cons by simp
  next
    case False
    then have "insert_by r x (y # ys) = x # y # ys" by (simp add: insert_by_def)
    moreover have "\<not> r z x" if "z \<in> set ys" for z
      using that Cons.prems False sw(3) by auto
    ultimately show ?thesis using Cons.prems False by auto
  qed
qed (simp add: insert_by_def)

lemma sorts_insertion_sort: "sorts insertion_sort"
proof -
  have "set (foldr (insert_by r) items []) = set items \<and> length (foldr (insert_by r) items []) = length items"
    for r and items :: "json list" by (induction items) auto
  moreover have "sorted_wrt (\<lambda>x y. \<not> r y x) (foldr (insert_by r) items [])" if "strict_weak r" for r and items :: "json list"
    by (induction items) (auto simp: insert_by_sorted [OF that])
  ultimately show ?thesis by (auto simp: sorts_def insertion_sort_def)
qed

lemma str_compare_refl [simp]: "str_compare s s = 0"
  by (induction s) auto

text \<open>
  Sorting by string in ascending order hands \<open>sort.Slice\<close> a comparison that is not a
  strict order: every item with a string at the path is less than itself. Descending order
  compares strictly.
\<close>

lemma sort_string_not_strict:
  assumes "GetDeepValue item (sp_sortName param) = Inr [s]"
  shows "sort_string param item item = Ret (sp_sortOrder param = ''asc'')"
  using assms by (simp add: sort_string_def getStringFunc_def)

subsection \<open>The whole chain\<close>

definition selected :: "Condition \<Rightarrow> json \<Rightarrow> bool" where
  "selected cond i \<longleftrightarrow> list_all (matches_exact i) (co_Exact cond) \<and> list_all (matches_fuzzy i) (co_Fuzzy cond)"

text \<open>
  The answer to a list query. When the chain returns, the total is the number of items
  that meet all conditions, whatever the page; without version conversion every item of the
  page meets them, and a page with a positive limit has at most that many items.
\<close>

lemma filter_list_answer:
  assumes "sorts ss" and "filter_list ss pt None items cond = Ret (page, n)"
  shows "n = int (length (filter (selected cond) items)) \<and> set page \<subseteq> set (filter (selected cond) items) \<and>
    (0 < co_Limit cond \<longrightarrow> 0 \<le> co_Offset cond \<longrightarrow> co_Offset cond + co_Limit cond < 2 ^ 63 \<longrightarrow> int (length page) \<le> co_Limit cond)"
proof -
  let ?sel = "filter (selected cond) items"
  let ?sp = "\<lparr>sp_sortName = co_SortName cond, sp_sortOrder = co_SortOrder cond, sp_sortFunc = co_SortFunc cond\<rparr>"
  have sel: "FuzzyFilter (ExactFilter items (co_Exact cond)) (co_Fuzzy cond) = ?sel"
    by (simp add: ExactFilter_eq FuzzyFilter_eq selected_def [abs_def] conj_commute)
  from assms(2) obtain ys where ys: "SortHandler ss pt ?sel ?sp = Ret ys"
    and page: "PageHandler ys (co_Limit cond) (co_Offset cond) = Ret page" and n: "n = int (length ys)"
    unfolding filter_list_def sel Let_def by (auto simp: go_bind_eq_Ret versionConvert_def)
  have "ys = ?sel \<or> (\<exists>less. ss less ?sel = Ret ys)"
    using ys unfolding SortHandler_def by (auto split: if_splits)
  then have perm: "set ys = set ?sel" "length ys = length ?sel"
    using assms(1) unfolding sorts_def by blast+
  have "set page \<subseteq> set ys"
    using page by (auto simp: PageHandler_def Let_def split: if_splits dest!: in_set_takeD in_set_dropD)
  moreover have "int (length page) \<le> co_Limit cond"
    if "0 < co_Limit cond" "0 \<le> co_Offset cond" "co_Offset cond + co_Limit cond < 2 ^ 63"
    using page that PageHandler_page [of "nat (co_Limit cond)" "nat (co_Offset cond)" ys] by auto
  ultimately show ?thesis using n perm by simp
qed

end
