(* ===== verification/KubeApi.thy ===== *)
theory KubeApi
  imports StringUtils
begin

section \<open>The Kubernetes API client\<close>

text \<open>
  The API server and the controller-runtime client are services outside the repository: a
  client is a record of operations on an abstract world \<open>'w\<close>, given to every handler as
  an argument. What the code relies on is stated by the predicates \<open>reads\<close> and
  \<open>writes_status\<close> over a view of the world's objects. The theory also models the
  helpers of \<open>client-go\<close> and \<open>controller-runtime\<close> that the controllers go through:
  \<open>retry.RetryOnConflict\<close> and the finalizer functions.
\<close>

type_synonym objkey = "string \<times> string"

record ('w, 'o) client =
  cl_get :: "objkey \<Rightarrow> ('w, 'o result) state"
  cl_create :: "'o \<Rightarrow> ('w, err option) state"
  cl_update :: "'o \<Rightarrow> ('w, err option) state"
  cl_status_update :: "'o \<Rightarrow> ('w, err option) state"
  cl_delete :: "'o \<Rightarrow> ('w, err option) state"

subsection \<open>RetryOnConflict\<close>

text \<open>
  \<open>retry.RetryOnConflict\<close> with \<open>retry.DefaultRetry\<close> runs its function up to five times
  while the error is a conflict, and returns the last error.
\<close>

fun RetryOnConflict :: "nat \<Rightarrow> ('w, err option) state \<Rightarrow> ('w, err option) state" where
  "RetryOnConflict 0 fn = State_Monad.return None"
| "RetryOnConflict (Suc steps) fn = do {
     e \<leftarrow> fn;
     if e = Some Conflict
     then (if steps = 0 then State_Monad.return e else RetryOnConflict steps fn)
     else State_Monad.return e
   }"

definition DefaultRetry :: nat where
  "DefaultRetry = 5"

lemma DefaultRetry_pos [simp]: "0 < DefaultRetry"
  by (simp add: DefaultRetry_def)

subsection \<open>Finalizers\<close>

fun ContainsFinalizer :: "string list \<Rightarrow> string \<Rightarrow> bool" where
  "ContainsFinalizer [] finalizer = False"
| "ContainsFinalizer (e # f) finalizer = (if e = finalizer then True else ContainsFinalizer f finalizer)"

definition AddFinalizer :: "string list \<Rightarrow> string \<Rightarrow> string list" where
  "AddFinalizer f finalizer = (if ContainsFinalizer f finalizer then f else f @ [finalizer])"

fun RemoveFinalizer :: "string list \<Rightarrow> string \<Rightarrow> string list" where
  "RemoveFinalizer [] finalizer = []"
| "RemoveFinalizer (e # f) finalizer =
     (if e = finalizer then RemoveFinalizer f finalizer else e # RemoveFinalizer f finalizer)"

lemma ContainsFinalizer_iff [simp]: "ContainsFinalizer f x \<longleftrightarrow> x \<in> set f"
  by (induction f) auto

lemma set_AddFinalizer [simp]: "set (AddFinalizer f x) = insert x (set f)"
  by (auto simp: AddFinalizer_def)

lemma set_RemoveFinalizer [simp]: "set (RemoveFinalizer f x) = set f - {x}"
  by (induction f) auto

lemma distinct_AddFinalizer: "distinct f \<Longrightarrow> distinct (AddFinalizer f x)"
  by (auto simp: AddFinalizer_def)

lemma distinct_RemoveFinalizer: "distinct f \<Longrightarrow> distinct (RemoveFinalizer f x)"
  by (induction f) auto

interpretation finalizers: string_set ContainsFinalizer AddFinalizer RemoveFinalizer set distinct
  by unfold_locales (simp_all add: distinct_AddFinalizer distinct_RemoveFinalizer)

subsection \<open>Admission\<close>

text \<open>
  The operation of an admission request, and the response built by \<open>admission.Allowed\<close>,
  \<open>admission.Denied\<close> and \<open>admission.Errored\<close> with its status code and its cause.
\<close>

datatype operation = Create | Update | Delete | Connect

datatype 'r response = Allowed | Denied 'r | Errored int 'r

definition StatusBadRequest :: int where "StatusBadRequest = 400"
definition StatusNotAcceptable :: int where "StatusNotAcceptable = 406"
definition StatusInternalServerError :: int where "StatusInternalServerError = 500"

subsection \<open>What the code relies on\<close>

text \<open>
  \<open>view\<close> is what the world holds that the handlers care about and \<open>objs\<close> picks the
  objects of one kind out of it. Reading returns the object that is there, reports
  \<open>NotFound\<close> only when there is none, and changes nothing; any other error may occur.
\<close>

definition reads :: "('w, 'o) client \<Rightarrow> ('w \<Rightarrow> 'v) \<Rightarrow> ('v \<Rightarrow> objkey \<Rightarrow> 'o option) \<Rightarrow> bool" where
  "reads cli view objs \<longleftrightarrow>
     (\<forall>w k r w'. run_state (cl_get cli k) w = (r, w') \<longrightarrow>
        view w' = view w \<and>
        (case r of Inr x \<Rightarrow> objs (view w) k = Some x
                 | Inl e \<Rightarrow> e = NotFound \<longrightarrow> objs (view w) k = None))"

text \<open>
  Writing the status of an object that is there replaces the status alone; a write that
  reports an error has changed nothing.
\<close>

definition writes_status ::
  "('w, 'o) client \<Rightarrow> ('o \<Rightarrow> objkey) \<Rightarrow> ('o \<Rightarrow> 'o \<Rightarrow> 'o) \<Rightarrow> ('w \<Rightarrow> objkey \<Rightarrow> 'o option) \<Rightarrow> bool" where
  "writes_status cli key_of set_status objs \<longleftrightarrow>
     (\<forall>w x e w'. run_state (cl_status_update cli x) w = (e, w') \<longrightarrow>
        (case e of
           None \<Rightarrow> (\<exists>y. objs w (key_of x) = Some y \<and> objs w' = (objs w)(key_of x \<mapsto> set_status y x))
         | Some _ \<Rightarrow> objs w' = objs w))"

lemma reads_run:
  assumes "reads cli view objs" and "run_state (cl_get cli k) w = (r, w')"
  shows "view w' = view w"
    and "r = Inr x \<Longrightarrow> objs (view w) k = Some x"
    and "r = Inl NotFound \<Longrightarrow> objs (view w) k = None"
proof -
  have "view w' = view w \<and> (case r of Inr x \<Rightarrow> objs (view w) k = Some x
                 | Inl e \<Rightarrow> e = NotFound \<longrightarrow> objs (view w) k = None)"
    using assms unfolding reads_def by blast
  then show "view w' = view w"
    and "r = Inr x \<Longrightarrow> objs (view w) k = Some x"
    and "r = Inl NotFound \<Longrightarrow> objs (view w) k = None"
    by simp_all
qed

lemma writes_status_run:
  assumes "writes_status cli key_of set_status objs"
    and "run_state (cl_status_update cli x) w = (e, w')"
  shows "e = None \<Longrightarrow> \<exists>y. objs w (key_of x) = Some y \<and> objs w' = (objs w)(key_of x \<mapsto> set_status y x)"
    and "e \<noteq> None \<Longrightarrow> objs w' = objs w"
proof -
  have "case e of
           None \<Rightarrow> (\<exists>y. objs w (key_of x) = Some y \<and> objs w' = (objs w)(key_of x \<mapsto> set_status y x))
         | Some _ \<Rightarrow> objs w' = objs w"
    using assms unfolding writes_status_def by blast
  then show "e = None \<Longrightarrow> \<exists>y. objs w (key_of x) = Some y \<and> objs w' = (objs w)(key_of x \<mapsto> set_status y x)"
    and "e \<noteq> None \<Longrightarrow> objs w' = objs w"
    by (auto split: option.splits)
qed

text \<open>
  An invariant of every attempt is an invariant of the retry loop, and a success of the loop
  is a success of its last attempt.
\<close>

lemma RetryOnConflict_success:
  assumes "run_state (RetryOnConflict n fn) w = (None, w')" and "n > 0"
    and "\<And>w w'. P w \<Longrightarrow> run_state fn w = (Some Conflict, w') \<Longrightarrow> P w'"
    and "P w"
  shows "\<exists>v. P v \<and> run_state fn v = (None, w')"
  using assms(1,2,4)
proof (induction n arbitrary: w)
  case (Suc n)
  obtain e v where v: "run_state fn w = (e, v)" by fastforce
  show ?case
  proof (cases "e = Some Conflict")
    case True
    with v Suc.prems have "n > 0" and "run_state (RetryOnConflict n fn) v = (None, w')"
      by (auto split: if_splits)
    moreover from True v Suc.prems(3) have "P v" using assms(3) by blast
    ultimately show ?thesis using Suc.IH by blast
  next
    case False
    with v Suc.prems show ?thesis by auto
  qed
qed simp

lemma RetryOnConflict_invariant:
  assumes "run_state (RetryOnConflict n fn) w = (e, w')"
    and "\<And>w e w'. P w \<Longrightarrow> run_state fn w = (e, w') \<Longrightarrow> P w'"
    and "P w"
  shows "P w'"
  using assms(1,3)
proof (induction n arbitrary: w)
  case (Suc n)
  obtain e1 v where v: "run_state fn w = (e1, v)" by fastforce
  with Suc.prems(2) have "P v" using assms(2) by blast
  with v Suc show ?case by (auto split: if_splits)
qed simp

text \<open>
  Replacing an object, where \<open>oth\<close> is the rest of the view, which stays; a write that
  reports an error has changed nothing.
\<close>

definition updates ::
  "('w, 'o) client \<Rightarrow> ('o \<Rightarrow> objkey) \<Rightarrow> ('w \<Rightarrow> 'v) \<Rightarrow> ('v \<Rightarrow> objkey \<Rightarrow> 'o option) \<Rightarrow> ('v \<Rightarrow> 'r) \<Rightarrow> bool" where
  "updates cli key_of view objs oth \<longleftrightarrow>
     (\<forall>w x e w'. run_state (cl_update cli x) w = (e, w') \<longrightarrow> oth (view w') = oth (view w) \<and>
        objs (view w') = (if e = None then (objs (view w))(key_of x \<mapsto> x) else objs (view w)))"

text \<open>Creation of an object that is not there yet, and deletion of one by its key.\<close>

definition inserts ::
  "('w, 'o) client \<Rightarrow> ('o \<Rightarrow> objkey) \<Rightarrow> ('w \<Rightarrow> 'v) \<Rightarrow> ('v \<Rightarrow> objkey \<Rightarrow> 'o option) \<Rightarrow> ('v \<Rightarrow> 'r) \<Rightarrow> bool" where
  "inserts cli key_of view objs oth \<longleftrightarrow>
     (\<forall>w x e w'. run_state (cl_create cli x) w = (e, w') \<longrightarrow> oth (view w') = oth (view w) \<and>
        (case e of
           None \<Rightarrow> objs (view w) (key_of x) = None \<and> objs (view w') = (objs (view w))(key_of x \<mapsto> x)
         | Some er \<Rightarrow> objs (view w') = objs (view w) \<and> (er = AlreadyExists \<longrightarrow> objs (view w) (key_of x) \<noteq> None)))"

definition removes ::
  "('w, 'o) client \<Rightarrow> ('o \<Rightarrow> objkey) \<Rightarrow> ('w \<Rightarrow> 'v) \<Rightarrow> ('v \<Rightarrow> objkey \<Rightarrow> 'o option) \<Rightarrow> ('v \<Rightarrow> 'r) \<Rightarrow> bool" where
  "removes cli key_of view objs oth \<longleftrightarrow>
     (\<forall>w x e w'. run_state (cl_delete cli x) w = (e, w') \<longrightarrow> oth (view w') = oth (view w) \<and>
        (case e of
           None \<Rightarrow> objs (view w') = (objs (view w))(key_of x := None)
         | Some er \<Rightarrow> objs (view w') = objs (view w) \<and> (er = NotFound \<longrightarrow> objs (view w) (key_of x) = None)))"

lemma inserts_run:
  assumes "inserts cli key_of view objs oth" and "run_state (cl_create cli x) w = (e, w')"
  shows "oth (view w') = oth (view w)"
    and "e = None \<Longrightarrow> objs (view w) (key_of x) = None \<and> objs (view w') = (objs (view w))(key_of x \<mapsto> x)"
    and "e \<noteq> None \<Longrightarrow> objs (view w') = objs (view w)"
    and "e = Some AlreadyExists \<Longrightarrow> objs (view w) (key_of x) \<noteq> None"
  using assms unfolding inserts_def by (cases e; fastforce)+

lemma removes_run:
  assumes "removes cli key_of view objs oth" and "run_state (cl_delete cli x) w = (e, w')"
  shows "oth (view w') = oth (view w)"
    and "e = None \<Longrightarrow> objs (view w') = (objs (view w))(key_of x := None)"
    and "e \<noteq> None \<Longrightarrow> objs (view w') = objs (view w)"
    and "e = Some NotFound \<Longrightarrow> objs (view w) (key_of x) = None"
  using assms unfolding removes_def by (cases e; fastforce)+

text \<open>Calls that leave the part of the world alone that a property speaks of.\<close>

definition keeps_view :: "('w, 'x) state \<Rightarrow> ('w \<Rightarrow> 'v) \<Rightarrow> bool" where
  "keeps_view m view \<longleftrightarrow> (\<forall>w r w'. run_state m w = (r, w') \<longrightarrow> view w' = view w)"

lemma keeps_viewD: "keeps_view m view \<Longrightarrow> run_state m w = (r, w') \<Longrightarrow> view w' = view w"
  by (simp add: keeps_view_def)

lemma keeps_view_bind:
  "keeps_view m view \<Longrightarrow> (\<And>x. keeps_view (f x) view) \<Longrightarrow> keeps_view (State_Monad.bind m f) view"
  by (fastforce simp: keeps_view_def split: prod.splits)

lemma keeps_view_return [simp]: "keeps_view (State_Monad.return x) view"
  by (simp add: keeps_view_def)

lemma keeps_view_retry: "keeps_view fn view \<Longrightarrow> keeps_view (RetryOnConflict n fn) view"
  by (induction n) (auto intro!: keeps_view_bind)

text \<open>The pattern of all the writers: read the object again, change it, and write it back.\<close>

definition modify_once :: "('w, 'o) client \<Rightarrow> objkey \<Rightarrow> ('o \<Rightarrow> 'o) \<Rightarrow> ('w, err option) state" where
  "modify_once cli k f = do {
     r \<leftarrow> cl_get cli k;
     case r of Inl e \<Rightarrow> State_Monad.return (Some e) | Inr x \<Rightarrow> cl_update cli (f x)
   }"

definition retry_modify :: "('w, 'o) client \<Rightarrow> objkey \<Rightarrow> ('o \<Rightarrow> 'o) \<Rightarrow> ('w, err option) state" where
  "retry_modify cli k f = RetryOnConflict DefaultRetry (modify_once cli k f)"

lemma RetryOnConflict_error:
  assumes "run_state (RetryOnConflict n fn) w = (Some e, w')"
    and "\<And>w e w'. P w \<Longrightarrow> run_state fn w = (Some e, w') \<Longrightarrow> P w'"
    and "P w"
  shows "P w'"
  using assms(1,3)
proof (induction n arbitrary: w)
  case (Suc n)
  obtain e1 v where v: "run_state fn w = (e1, v)" by fastforce
  show ?case
  proof (cases e1)
    case None
    with v Suc.prems show ?thesis by simp
  next
    case (Some e')
    with v Suc.prems(2) have "P v" using assms(2) by blast
    with v Some Suc show ?thesis by (auto split: if_splits)
  qed
qed simp

lemma modify_step:
  assumes rd: "reads cli view objs" and up: "updates cli key_of view objs oth"
    and run: "run_state (modify_once cli k f) v = (e, v')"
  shows "oth (view v') = oth (view v)"
    and "e \<noteq> None \<Longrightarrow> objs (view v') = objs (view v)"
    and "e = None \<Longrightarrow> \<exists>x. objs (view v) k = Some x \<and> objs (view v') = (objs (view v))(key_of (f x) \<mapsto> f x)"
proof -
  obtain g v1 where g: "run_state (cl_get cli k) v = (g, v1)" by fastforce
  note G = reads_run [OF rd g]
  have "oth (view v') = oth (view v) \<and> (if e = None then \<exists>x. objs (view v) k = Some x \<and> objs (view v') = (objs (view v))(key_of (f x) \<mapsto> f x)
     else objs (view v') = objs (view v))"
  proof (cases g)
    case (Inr x)
    with run g have "run_state (cl_update cli (f x)) v1 = (e, v')" by (simp add: modify_once_def)
    with up have "oth (view v') = oth (view v1) \<and>
        objs (view v') = (if e = None then (objs (view v1))(key_of (f x) \<mapsto> f x) else objs (view v1))"
      unfolding updates_def by blast
    with G(1) G(2) [OF Inr] show ?thesis by auto
  qed (use run g G(1) in \<open>auto simp: modify_once_def\<close>)
  then show "oth (view v') = oth (view v)"
    and "e \<noteq> None \<Longrightarrow> objs (view v') = objs (view v)"
    and "e = None \<Longrightarrow> \<exists>x. objs (view v) k = Some x \<and> objs (view v') = (objs (view v))(key_of (f x) \<mapsto> f x)"
    by simp_all
qed

lemma retry_modify_run:
  assumes rd: "reads cli view objs" and up: "updates cli key_of view objs oth"
    and run: "run_state (retry_modify cli k f) w = (e, w')"
  shows "oth (view w') = oth (view w)"
    and "e \<noteq> None \<Longrightarrow> objs (view w') = objs (view w)"
    and "e = None \<Longrightarrow> \<exists>x. objs (view w) k = Some x \<and> objs (view w') = (objs (view w))(key_of (f x) \<mapsto> f x)"
proof -
  note step = modify_step [OF rd up, of k f]
  show "oth (view w') = oth (view w)"
    by (rule RetryOnConflict_invariant [OF run [unfolded retry_modify_def]]) (auto dest: step(1))
  show "objs (view w') = objs (view w)" if "e \<noteq> None"
  proof -
    from that obtain er where "e = Some er" by blast
    with run have "run_state (RetryOnConflict DefaultRetry (modify_once cli k f)) w = (Some er, w')" by (simp add: retry_modify_def)
    then show ?thesis
      by (rule RetryOnConflict_error [where P = "\<lambda>v. objs (view v) = objs (view w)"]) (auto dest!: step(2))
  qed
  show "\<exists>x. objs (view w) k = Some x \<and> objs (view w') = (objs (view w))(key_of (f x) \<mapsto> f x)" if "e = None"
  proof -
    from run that have "\<exists>v. objs (view v) = objs (view w) \<and> run_state (modify_once cli k f) v = (None, w')"
      unfolding retry_modify_def
      by (intro RetryOnConflict_success [where P = "\<lambda>v. objs (view v) = objs (view w)", OF _ DefaultRetry_pos])
        (auto dest!: step(2))
    then obtain v where v: "objs (view v) = objs (view w)" "run_state (modify_once cli k f) v = (None, w')" by blast
    from step(3) [OF v(2) refl] v(1) show ?thesis by simp
  qed
qed

subsection \<open>A plain store\<close>

text \<open>
  A world that is just a map from keys to objects, whose client never fails but for missing
  objects. The witnesses run the handlers on it.
\<close>

definition store_client :: "('o \<Rightarrow> objkey) \<Rightarrow> ('o \<Rightarrow> 'o \<Rightarrow> 'o) \<Rightarrow> (objkey \<Rightarrow> 'o option, 'o) client" where
  "store_client key_of set_status =
     \<lparr>cl_get = (\<lambda>k. State (\<lambda>w. (case w k of None \<Rightarrow> Inl NotFound | Some x \<Rightarrow> Inr x, w))),
      cl_create = (\<lambda>x. State (\<lambda>w. if w (key_of x) = None then (None, w(key_of x \<mapsto> x))
                                   else (Some AlreadyExists, w))),
      cl_update = (\<lambda>x. State (\<lambda>w. if w (key_of x) = None then (Some NotFound, w)
                                   else (None, w(key_of x \<mapsto> x)))),
      cl_status_update = (\<lambda>x. State (\<lambda>w. case w (key_of x) of None \<Rightarrow> (Some NotFound, w)
                                   | Some y \<Rightarrow> (None, w(key_of x \<mapsto> set_status y x)))),
      cl_delete = (\<lambda>x. State (\<lambda>w. if w (key_of x) = None then (Some NotFound, w)
                                   else (None, w(key_of x := None))))\<rparr>"

lemma store_client_simps [simp]:
  "run_state (cl_get (store_client kf ss) k) w = (case w k of None \<Rightarrow> Inl NotFound | Some x \<Rightarrow> Inr x, w)"
  "run_state (cl_status_update (store_client kf ss) x) w =
     (case w (kf x) of None \<Rightarrow> (Some NotFound, w) | Some y \<Rightarrow> (None, w(kf x \<mapsto> ss y x)))"
  "run_state (cl_update (store_client kf ss) x) w =
     (if w (kf x) = None then (Some NotFound, w) else (None, w(kf x \<mapsto> x)))"
  "run_state (cl_create (store_client kf ss) x) w =
     (if w (kf x) = None then (None, w(kf x \<mapsto> x)) else (Some AlreadyExists, w))"
  "run_state (cl_delete (store_client kf ss) x) w =
     (if w (kf x) = None then (Some NotFound, w) else (None, w(kf x := None)))"
  by (simp_all add: store_client_def)

lemma store_client_reads: "reads (store_client kf ss) (\<lambda>w. w) (\<lambda>w. w)"
  by (auto simp: reads_def split: option.splits sum.splits)

lemma store_client_writes_status: "writes_status (store_client kf ss) kf ss (\<lambda>w. w)"
  by (auto simp: writes_status_def split: option.splits)

text \<open>The same for one kind of objects in a world that holds several.\<close>

definition part_client ::
  "('w \<Rightarrow> objkey \<Rightarrow> 'o option) \<Rightarrow> ((objkey \<Rightarrow> 'o option) \<Rightarrow> 'w \<Rightarrow> 'w) \<Rightarrow> ('o \<Rightarrow> objkey) \<Rightarrow> ('w, 'o) client" where
  "part_client objs put key_of =
     (let upd = (\<lambda>x. State (\<lambda>w. if objs w (key_of x) = None then (Some NotFound, w) else (None, put ((objs w)(key_of x \<mapsto> x)) w)))
      in \<lparr>cl_get = (\<lambda>k. State (\<lambda>w. (case objs w k of None \<Rightarrow> Inl NotFound | Some x \<Rightarrow> Inr x, w))),
          cl_create = (\<lambda>x. State (\<lambda>w. if objs w (key_of x) = None then (None, put ((objs w)(key_of x \<mapsto> x)) w) else (Some AlreadyExists, w))),
          cl_update = upd, cl_status_update = upd,
          cl_delete = (\<lambda>x. State (\<lambda>w. if objs w (key_of x) = None then (Some NotFound, w)
                                       else (None, put ((objs w)(key_of x := None)) w)))\<rparr>)"

lemma part_client_simps [simp]:
  "run_state (cl_get (part_client objs put kf) k) w = (case objs w k of None \<Rightarrow> Inl NotFound | Some x \<Rightarrow> Inr x, w)"
  "run_state (cl_create (part_client objs put kf) x) w =
     (if objs w (kf x) = None then (None, put ((objs w)(kf x \<mapsto> x)) w) else (Some AlreadyExists, w))"
  "run_state (cl_update (part_client objs put kf) x) w =
     (if objs w (kf x) = None then (Some NotFound, w) else (None, put ((objs w)(kf x \<mapsto> x)) w))"
  "run_state (cl_status_update (part_client objs put kf) x) w =
     (if objs w (kf x) = None then (Some NotFound, w) else (None, put ((objs w)(kf x \<mapsto> x)) w))"
  "run_state (cl_delete (part_client objs put kf) x) w =
     (if objs w (kf x) = None then (Some NotFound, w) else (None, put ((objs w)(kf x := None)) w))"
  by (simp_all add: part_client_def Let_def)

lemma part_client_reads: "reads (part_client objs put kf) (\<lambda>w. w) objs"
  by (auto simp: reads_def split: option.splits sum.splits)

lemma part_client_updates:
  "(\<And>m w. oth (put m w) = oth w) \<Longrightarrow> (\<And>m w. objs (put m w) = m) \<Longrightarrow> updates (part_client objs put kf) kf (\<lambda>w. w) objs oth"
  by (auto simp: updates_def)

lemma part_client_inserts:
  "(\<And>m w. oth (put m w) = oth w) \<Longrightarrow> (\<And>m w. objs (put m w) = m) \<Longrightarrow> inserts (part_client objs put kf) kf (\<lambda>w. w) objs oth"
  by (auto simp: inserts_def)

lemma part_client_removes:
  "(\<And>m w. oth (put m w) = oth w) \<Longrightarrow> (\<And>m w. objs (put m w) = m) \<Longrightarrow> removes (part_client objs put kf) kf (\<lambda>w. w) objs oth"
  by (auto simp: removes_def)

text \<open>
  Listing by label, where \<open>labels.Parse\<close> reads an equality; and a world of lists of objects, the
  first object with a key being the one that counts.
\<close>

definition lists_by :: "(string \<times> string \<Rightarrow> ('w, 'x list result) state) \<Rightarrow> ('w \<Rightarrow> 'v) \<Rightarrow> ('v \<Rightarrow> 'k \<Rightarrow> 'x option) \<Rightarrow> ('x \<Rightarrow> (string, string) gomap) \<Rightarrow> bool" where
  "lists_by f view get lab \<longleftrightarrow>
     (\<forall>k v w r w'. run_state (f (k, v)) w = (r, w') \<longrightarrow> view w' = view w \<and>
        (\<forall>xs. r = Inr xs \<longrightarrow> set xs = {x. \<exists>i. get (view w) i = Some x \<and> gm_get (lab x) k = Some v}))"

definition parses_equality :: "(string \<Rightarrow> (string \<times> string) result) \<Rightarrow> bool" where
  "parses_equality f \<longleftrightarrow> (\<forall>k v ls. f (k @ ''='' @ v) = Inr ls \<longrightarrow> CHR ''='' \<notin> set k \<longrightarrow> ls = (k, v))"

lemma lists_run:
  assumes "lists_by f view get lab" and "run_state (f ls) w = (r, w')"
  shows "view w' = view w"
    and "r = Inr xs \<Longrightarrow> set xs = {x. \<exists>i. get (view w) i = Some x \<and> gm_get (lab x) (fst ls) = Some (snd ls)}"
  using assms unfolding lists_by_def by (cases ls; fastforce)+

definition lookup_by :: "('o \<Rightarrow> 'k) \<Rightarrow> 'o list \<Rightarrow> 'k \<Rightarrow> 'o option" where
  "lookup_by key xs k = find (\<lambda>x. key x = k) xs"

lemma lookup_by_simps [simp]:
  "lookup_by key [] k = None" "lookup_by key (x # xs) k = (if key x = k then Some x else lookup_by key xs k)"
  by (simp_all add: lookup_by_def)

lemma lookup_by_snoc: "lookup_by key xs (key x) = None \<Longrightarrow> lookup_by key (xs @ [x]) = (lookup_by key xs)(key x \<mapsto> x)"
proof
  fix k
  assume "lookup_by key xs (key x) = None"
  then show "lookup_by key (xs @ [x]) k = ((lookup_by key xs)(key x \<mapsto> x)) k" by (induction xs) (auto split: if_splits)
qed

lemma lookup_by_filter: "lookup_by key (filter (\<lambda>y. key y \<noteq> key x) xs) = (lookup_by key xs)(key x := None)"
proof
  fix k
  show "lookup_by key (filter (\<lambda>y. key y \<noteq> key x) xs) k = ((lookup_by key xs)(key x := None)) k" by (induction xs) auto
qed

lemma lookup_by_key: "lookup_by key xs k = Some x \<Longrightarrow> key x = k \<and> x \<in> set xs"
  by (induction xs) (auto split: if_splits)

definition list_client :: "('w \<Rightarrow> 'o list) \<Rightarrow> ('o list \<Rightarrow> 'w \<Rightarrow> 'w) \<Rightarrow> ('o \<Rightarrow> objkey) \<Rightarrow> ('w, 'o) client" where
  "list_client g s key =
     (let upd = (\<lambda>x. State (\<lambda>w. if lookup_by key (g w) (key x) = None then (Some NotFound, w)
                                 else (None, s (map (\<lambda>y. if key y = key x then x else y) (g w)) w)))
      in \<lparr>cl_get = (\<lambda>k. State (\<lambda>w. (case lookup_by key (g w) k of None \<Rightarrow> Inl NotFound | Some x \<Rightarrow> Inr x, w))),
          cl_create = (\<lambda>x. State (\<lambda>w. if lookup_by key (g w) (key x) = None then (None, s (g w @ [x]) w) else (Some AlreadyExists, w))),
          cl_update = upd, cl_status_update = upd,
          cl_delete = (\<lambda>x. State (\<lambda>w. if lookup_by key (g w) (key x) = None then (Some NotFound, w)
                                       else (None, s (filter (\<lambda>y. key y \<noteq> key x) (g w)) w)))\<rparr>)"

definition list_select :: "('w \<Rightarrow> 'o list) \<Rightarrow> ('o \<Rightarrow> 'k) \<Rightarrow> ('o \<Rightarrow> (string, string) gomap) \<Rightarrow> string \<times> string \<Rightarrow> ('w, 'o list result) state" where
  "list_select g key lab kv =
     State (\<lambda>w. (Inr (filter (\<lambda>x. lookup_by key (g w) (key x) = Some x \<and> gm_get (lab x) (fst kv) = Some (snd kv)) (g w)), w))"

lemma list_select_lists:
  assumes "\<And>w. get (view w) = lookup_by key (g w)"
  shows "lists_by (list_select g key lab) view get lab"
  using assms by (auto simp: lists_by_def list_select_def dest: lookup_by_key)

lemma list_client_inserts:
  assumes "\<And>xs w. oth (view (s xs w)) = oth (view w)" and "\<And>w. get (view w) = lookup_by key (g w)" and "\<And>xs w. g (s xs w) = xs"
  shows "inserts (list_client g s key) key view get oth"
  using assms by (auto simp: inserts_def list_client_def Let_def lookup_by_snoc)

lemma list_client_removes:
  assumes "\<And>xs w. oth (view (s xs w)) = oth (view w)" and "\<And>w. get (view w) = lookup_by key (g w)" and "\<And>xs w. g (s xs w) = xs"
  shows "removes (list_client g s key) key view get oth"
  using assms by (auto simp: removes_def list_client_def Let_def lookup_by_filter)

lemma list_client_reads:
  assumes "\<And>w. get (view w) = lookup_by key (g w)"
  shows "reads (list_client g s key) view get"
  using assms by (auto simp: reads_def list_client_def Let_def split: option.splits)

lemma lookup_by_map:
  assumes "lookup_by key xs (key x) \<noteq> None"
  shows "lookup_by key (map (\<lambda>y. if key y = key x then x else y) xs) = (lookup_by key xs)(key x \<mapsto> x)"
proof
  fix k
  have "k \<noteq> key x \<Longrightarrow> lookup_by key (map (\<lambda>y. if key y = key x then x else y) xs) k = lookup_by key xs k"
    by (induction xs) auto
  moreover have "lookup_by key (map (\<lambda>y. if key y = key x then x else y) xs) (key x) = Some x"
    using assms by (induction xs) (auto split: if_splits)
  ultimately show "lookup_by key (map (\<lambda>y. if key y = key x then x else y) xs) k = ((lookup_by key xs)(key x \<mapsto> x)) k"
    by simp
qed

lemma list_client_updates:
  assumes "\<And>xs w. oth (view (s xs w)) = oth (view w)" and "\<And>w. get (view w) = lookup_by key (g w)" and "\<And>xs w. g (s xs w) = xs"
  shows "updates (list_client g s key) key view get oth"
  using assms by (auto simp: updates_def list_client_def Let_def lookup_by_map)

definition parse_equality :: "string \<Rightarrow> (string \<times> string) result" where
  "parse_equality s = Inr (takeWhile (\<lambda>c. c \<noteq> CHR ''='') s, tl (dropWhile (\<lambda>c. c \<noteq> CHR ''='') s))"

lemma parse_equality_parses: "parses_equality parse_equality"
proof -
  have "takeWhile (\<lambda>c. c \<noteq> e) (k @ e # v) = k \<and> dropWhile (\<lambda>c. c \<noteq> e) (k @ e # v) = e # v" if "e \<notin> set k" for e :: char and k v
    using that by (induction k) auto
  then show ?thesis by (simp add: parses_equality_def parse_equality_def)
qed

end
