(* ===== verification/Hotplug.thy ===== *)
theory Hotplug
  imports ListFilter KubeApi "HOL-Library.List_Lexorder" "HOL-Library.Char_ord" "HOL-Library.Multiset"
begin

section \<open>Pluggable components: the hotplug controller of the warden\<close>

text \<open>
  \<open>pkg/warden/localmgr/controllers/hotplug\<close>: the configuration of the components of a
  cluster is the common hotplug object overridden by the one of the cluster (\<open>util.go\<close>),
  and the controller drives the helm releases to it (\<open>hotplug_controller.go\<close>). Reading and
  writing YAML, the template engine and helm are outside the repository: they are arguments.
  A nil map of JSON values is \<open>None\<close>.
\<close>

type_synonym jmap = "(string \<times> json) list option"

record ComponentConfig =
  cc_Name :: string
  cc_Namespace :: string
  cc_Status :: string
  cc_PkgName :: string
  cc_Env :: string

datatype message = Msg string | MsgErr string err

record DeployResult =
  dr_Name :: string
  dr_Status :: string
  dr_Result :: string
  dr_Message :: message

record Hotplug =
  hp_Name :: string
  hp_Annotations :: "(string, string) gomap"
  hp_Component :: "ComponentConfig list"
  hp_Phase :: string
  hp_Results :: "DeployResult list"

text \<open>
  What \<open>sigs.k8s.io/yaml\<close> and \<open>text/template\<close> do: YAML to JSON, a JSON map to YAML, and
  the text of a template with the cluster name filled in.
\<close>

record yaml_lib =
  yl_YAMLToJSON :: "string \<Rightarrow> json result"
  yl_Marshal :: "jmap \<Rightarrow> string result"
  yl_Template :: "string \<Rightarrow> string result"

subsection \<open>Definitions: merging configurations\<close>

definition YamlStringToJson :: "yaml_lib \<Rightarrow> string \<Rightarrow> jmap result" where
  "YamlStringToJson yl yamlStr =
     (case yl_YAMLToJSON yl yamlStr of
        Inl e \<Rightarrow> Inl e
      | Inr (JObj m) \<Rightarrow> Inr (Some m)
      | Inr JNull \<Rightarrow> Inr None
      | Inr _ \<Rightarrow> Inl (Err ''cannot unmarshal''))"

text \<open>
  The loop of \<open>MergeJson\<close> over the second map, for two maps that are not nil: the value of
  two maps under the same key is their merge, and a nil value is not stored.
\<close>

definition put_value :: "string \<Rightarrow> json \<Rightarrow> (string \<times> json) list \<Rightarrow> (string \<times> json) list" where
  "put_value key bVal a = (if bVal \<noteq> JNull then AList.update key bVal a else a)"

function merge_loop :: "(string \<times> json) list \<Rightarrow> (string \<times> json) list \<Rightarrow> (string \<times> json) list" where
  "merge_loop a [] = a"
| "merge_loop a ((key, bVal) # b) =
     (case (map_of a key, bVal) of
        (Some (JObj aMap), JObj bMap) \<Rightarrow> merge_loop (put_value key (JObj (merge_loop aMap bMap)) a) b
      | _ \<Rightarrow> merge_loop (put_value key bVal a) b)"
  by pat_completeness auto
termination by (relation "measure (\<lambda>(a, b). size_list (size_prod (\<lambda>_. 0) size) b)") auto

definition MergeJson :: "jmap \<Rightarrow> jmap \<Rightarrow> jmap" where
  "MergeJson a b =
     (case a of None \<Rightarrow> b
      | Some am \<Rightarrow> (case b of None \<Rightarrow> a | Some bm \<Rightarrow> Some (merge_loop am bm)))"

definition MergeYamlString :: "yaml_lib \<Rightarrow> string \<Rightarrow> string \<Rightarrow> string result" where
  "MergeYamlString yl ayaml byaml =
     (case YamlStringToJson yl ayaml of
        Inl e \<Rightarrow> Inl e
      | Inr ajson \<Rightarrow>
          (case YamlStringToJson yl byaml of
             Inl e \<Rightarrow> Inl e
           | Inr bjson \<Rightarrow> yl_Marshal yl (MergeJson ajson bjson)))"

definition convertYaml :: "yaml_lib \<Rightarrow> string \<Rightarrow> string" where
  "convertYaml yl yamlStr =
     (if yamlStr = [] then []
      else (case yl_Template yl yamlStr of Inl _ \<Rightarrow> yamlStr | Inr s \<Rightarrow> s))"

text \<open>One turn of the loop of \<open>MergeHotplug\<close>; \<open>None\<close> when the component is left out.\<close>

definition merge_component :: "yaml_lib \<Rightarrow> ComponentConfig option \<Rightarrow> ComponentConfig \<Rightarrow> ComponentConfig option" where
  "merge_component yl jo i =
     (case jo of
        None \<Rightarrow> Some (i\<lparr>cc_Env := convertYaml yl (cc_Env i)\<rparr>)
      | Some j \<Rightarrow>
          (let i = (if cc_Namespace j \<noteq> [] then i\<lparr>cc_Namespace := cc_Namespace j\<rparr> else i);
               i = (if cc_Status j \<noteq> [] then i\<lparr>cc_Status := cc_Status j\<rparr> else i);
               i = (if cc_PkgName j \<noteq> [] then i\<lparr>cc_PkgName := cc_PkgName j\<rparr> else i)
           in if cc_Env j \<noteq> [] then
                (case MergeYamlString yl (cc_Env i) (cc_Env j) of
                   Inl _ \<Rightarrow> None
                 | Inr env \<Rightarrow> Some (i\<lparr>cc_Env := convertYaml yl env\<rparr>))
              else Some (i\<lparr>cc_Env := convertYaml yl (cc_Env i)\<rparr>)))"

fun merge_components ::
  "yaml_lib \<Rightarrow> (string \<Rightarrow> ComponentConfig option) \<Rightarrow> ComponentConfig list \<Rightarrow> ComponentConfig list \<Rightarrow> ComponentConfig list" where
  "merge_components yl clusterComponentMap [] componentArr = componentArr"
| "merge_components yl clusterComponentMap (i # is) componentArr =
     merge_components yl clusterComponentMap is
       (case merge_component yl (clusterComponentMap (cc_Name i)) i of
          None \<Rightarrow> componentArr | Some c \<Rightarrow> componentArr @ [c])"

fun component_map :: "ComponentConfig list \<Rightarrow> (string \<Rightarrow> ComponentConfig option) \<Rightarrow> string \<Rightarrow> ComponentConfig option" where
  "component_map [] m = m"
| "component_map (item # items) m = component_map items (m(cc_Name item \<mapsto> item))"

definition MergeHotplug :: "yaml_lib \<Rightarrow> Hotplug \<Rightarrow> Hotplug \<Rightarrow> Hotplug" where
  "MergeHotplug yl commonConfig clusterConfig =
     commonConfig\<lparr>hp_Component :=
       merge_components yl (component_map (hp_Component clusterConfig) Map.empty) (hp_Component commonConfig) []\<rparr>"

subsection \<open>Definitions: comparing values\<close>

text \<open>
  \<open>json.Marshal\<close> writes the keys of a map in order and whole numbers without a fraction:
  two values have the same text exactly when these normal forms are the same.
\<close>

primrec marshal :: "json \<Rightarrow> json" where
  "marshal JNull = JNull"
| "marshal (JBool b) = JBool b"
| "marshal (JInt n) = JFloat (of_int n)"
| "marshal (JFloat q) = JFloat q"
| "marshal (JStr s) = JStr s"
| "marshal (JArr xs) = JArr (map marshal xs)"
| "marshal (JObj kvs) = JObj (sort_key fst (map (map_prod id marshal) kvs))"

lemma size_member: "(k, v) \<in> set kvs \<Longrightarrow> size v < size (JObj kvs)"
  by (induction kvs) auto

function JudgeJsonEqual :: "json \<Rightarrow> json \<Rightarrow> bool" where
  "JudgeJsonEqual a b =
     (case (a, b) of
        (JObj am, JObj bm) \<Rightarrow>
          list_all (\<lambda>p. case map_of bm (fst p) of Some bv \<Rightarrow> JudgeJsonEqual (snd p) bv | None \<Rightarrow> False) am \<and>
          list_all (\<lambda>p. case map_of am (fst p) of Some av \<Rightarrow> JudgeJsonEqual (snd p) av | None \<Rightarrow> False) bm
      | _ \<Rightarrow> marshal a = marshal b)"
  by pat_completeness auto
termination
proof (relation "measure (\<lambda>(a, b). size a + size b)")
  show "wf (measure (\<lambda>(a :: json, b :: json). size a + size b))" by simp
qed (auto dest!: size_map_of size_member)

declare JudgeJsonEqual.simps [simp del]

lemma JudgeJsonEqual_Obj:
  "JudgeJsonEqual (JObj am) (JObj bm) \<longleftrightarrow>
     (\<forall>(k, av) \<in> set am. \<exists>bv. map_of bm k = Some bv \<and> JudgeJsonEqual av bv) \<and>
     (\<forall>(k, bv) \<in> set bm. \<exists>av. map_of am k = Some av \<and> JudgeJsonEqual bv av)"
  by (subst JudgeJsonEqual.simps) (fastforce simp: list_all_iff split: option.splits)

lemma JudgeJsonEqual_other:
  "(\<forall>am bm. (a, b) \<noteq> (JObj am, JObj bm)) \<Longrightarrow> JudgeJsonEqual a b \<longleftrightarrow> marshal a = marshal b"
  by (subst JudgeJsonEqual.simps) (auto split: json.splits)

subsection \<open>The comparison decides equality\<close>

text \<open>Values as the JSON decoder makes them: no key twice in a map.\<close>

primrec json_wf :: "json \<Rightarrow> bool" where
  "json_wf JNull = True"
| "json_wf (JBool b) = True"
| "json_wf (JInt n) = True"
| "json_wf (JFloat q) = True"
| "json_wf (JStr s) = True"
| "json_wf (JArr xs) = list_all (\<lambda>b. b) (map json_wf xs)"
| "json_wf (JObj kvs) = (distinct (map fst kvs) \<and> list_all snd (map (map_prod id json_wf) kvs))"

lemma json_wf_member: "json_wf (JObj kvs) \<Longrightarrow> (k, v) \<in> set kvs \<Longrightarrow> json_wf v"
  by (auto simp: list_all_iff)

lemma json_wf_lookup: "json_wf (JObj kvs) \<Longrightarrow> map_of kvs k = Some v \<Longrightarrow> json_wf v"
  by (blast intro: json_wf_member map_of_SomeD)

lemma sort_key_fst_eq_iff:
  fixes xs ys :: "('k :: linorder \<times> 'v) list"
  assumes "distinct (map fst xs)" and "distinct (map fst ys)"
  shows "sort_key fst xs = sort_key fst ys \<longleftrightarrow> map_of xs = map_of ys"
proof
  assume "sort_key fst xs = sort_key fst ys"
  then have "set xs = set ys" by (metis set_sort)
  with assms show "map_of xs = map_of ys" by (simp add: map_of_inject_set)
next
  assume "map_of xs = map_of ys"
  with assms have "set xs = set ys" by (simp add: map_of_inject_set)
  moreover have "distinct xs" "distinct ys" using assms by (simp_all add: distinct_map)
  ultimately have "mset xs = mset (sort_key fst ys)" by (simp add: set_eq_iff_mset_eq_distinct)
  moreover have "inj_on fst (set xs)" using assms(1) by (simp add: distinct_map)
  ultimately show "sort_key fst xs = sort_key fst ys" by (intro sort_key_inj_key_eq) simp_all
qed

lemma marshal_Obj_eq_iff:
  assumes "json_wf (JObj am)" and "json_wf (JObj bm)"
  shows "marshal (JObj am) = marshal (JObj bm) \<longleftrightarrow> (\<forall>k. map_option marshal (map_of am k) = map_option marshal (map_of bm k))"
proof -
  have keys: "map fst (map (map_prod id marshal) xs) = map fst xs" for xs :: "(string \<times> json) list"
    by simp
  have look: "map_of (map (map_prod id marshal) xs) = (\<lambda>k. map_option marshal (map_of xs k))" for xs :: "(string \<times> json) list"
    by (induction xs) (auto simp: fun_eq_iff)
  from assms have "distinct (map fst (map (map_prod id marshal) am))" "distinct (map fst (map (map_prod id marshal) bm))"
    unfolding keys by simp_all
  from sort_key_fst_eq_iff [OF this] show ?thesis by (simp add: look fun_eq_iff)
qed

lemma judge_marshal:
  assumes "json_wf a" and "json_wf b"
  shows "JudgeJsonEqual a b \<longleftrightarrow> marshal a = marshal b"
  using assms
proof (induction a b rule: JudgeJsonEqual.induct)
  case (1 a b)
  show ?case
  proof (cases "\<exists>am bm. (a, b) = (JObj am, JObj bm)")
    case False
    then show ?thesis by (intro JudgeJsonEqual_other) blast
  next
    case True
    then obtain am bm where ab: "a = JObj am" "b = JObj bm" by blast
    have fwd: "JudgeJsonEqual av bv \<longleftrightarrow> marshal av = marshal bv" if "(k, av) \<in> set am" "map_of bm k = Some bv" for k av bv
      using "1.IH"(1) [of a b am bm "(k, av)" bv] that "1.prems" json_wf_member json_wf_lookup unfolding ab by auto
    have bwd: "JudgeJsonEqual bv av \<longleftrightarrow> marshal bv = marshal av" if "(k, bv) \<in> set bm" "map_of am k = Some av" for k av bv
      using "1.IH"(2) [of a b am bm "(k, bv)" av] that "1.prems" json_wf_member json_wf_lookup unfolding ab by auto
    have dist: "distinct (map fst am)" "distinct (map fst bm)" using "1.prems" ab by simp_all
    then have mem: "\<And>k v. (k, v) \<in> set am \<longleftrightarrow> map_of am k = Some v" "\<And>k v. (k, v) \<in> set bm \<longleftrightarrow> map_of bm k = Some v"
      by simp_all
    have all: "(\<forall>(k, v) \<in> set am. P k v) \<longleftrightarrow> (\<forall>k v. map_of am k = Some v \<longrightarrow> P k v)"
      "(\<forall>(k, v) \<in> set bm. P k v) \<longleftrightarrow> (\<forall>k v. map_of bm k = Some v \<longrightarrow> P k v)" for P
      by (auto dest: map_of_SomeD simp: mem)
    have "JudgeJsonEqual a b \<longleftrightarrow>
        (\<forall>k av. map_of am k = Some av \<longrightarrow> (\<exists>bv. map_of bm k = Some bv \<and> marshal av = marshal bv)) \<and>
        (\<forall>k bv. map_of bm k = Some bv \<longrightarrow> (\<exists>av. map_of am k = Some av \<and> marshal bv = marshal av))"
      unfolding ab JudgeJsonEqual_Obj all using fwd [unfolded mem] bwd [unfolded mem] by meson
    also have "\<dots> \<longleftrightarrow> (\<forall>k. map_option marshal (map_of am k) = map_option marshal (map_of bm k))"
      (is "?l \<longleftrightarrow> ?r")
    proof
      assume ?l
      then show ?r by (metis not_None_eq option.map(1,2))
    next
      assume ?r
      then show ?l by (metis map_option_eq_Some)
    qed
    finally show ?thesis using marshal_Obj_eq_iff "1.prems" ab by blast
  qed
qed

text \<open>
  Comparing the wanted values of a component with those of its release is exact. On
  values without repeated keys the two traversals of \<open>JudgeJsonEqual\<close> accept exactly the
  values with the same JSON text, so the order in which maps are traversed plays no part.
\<close>

lemma JudgeJsonEqual_iff_marshal:
  assumes "json_wf a" and "json_wf b"
  shows "JudgeJsonEqual a b \<longleftrightarrow> marshal a = marshal b"
  using assms by (rule judge_marshal)

subsection \<open>Merging is overriding leaf by leaf\<close>

fun at_path :: "json \<Rightarrow> string list \<Rightarrow> json option" where
  "at_path j [] = Some j"
| "at_path (JObj kvs) (k # ks) = (case map_of kvs k of None \<Rightarrow> None | Some v \<Rightarrow> at_path v ks)"
| "at_path j (k # ks) = None"

definition leaf :: "json \<Rightarrow> bool" where
  "leaf v = (case v of JNull \<Rightarrow> False | JObj _ \<Rightarrow> False | _ \<Rightarrow> True)"

text \<open>A value that has nothing but nulls on the way along a path leaves it to the other value.\<close>

fun yields :: "json \<Rightarrow> string list \<Rightarrow> bool" where
  "yields JNull p = True"
| "yields (JObj kvs) [] = False"
| "yields (JObj kvs) (k # ks) = (case map_of kvs k of None \<Rightarrow> True | Some v \<Rightarrow> yields v ks)"
| "yields j p = False"

definition merge_value :: "json option \<Rightarrow> json option \<Rightarrow> json option" where
  "merge_value x y =
     (case y of
        None \<Rightarrow> x
      | Some JNull \<Rightarrow> x
      | Some (JObj bm) \<Rightarrow> (case x of Some (JObj am) \<Rightarrow> Some (JObj (merge_loop am bm)) | _ \<Rightarrow> y)
      | _ \<Rightarrow> y)"

lemma map_of_put_value: "map_of (put_value k v a) = (if v = JNull then map_of a else (map_of a)(k \<mapsto> v))"
  by (simp add: put_value_def update_conv')

lemma merge_loop_Cons:
  "merge_loop a ((k, v) # b) = merge_loop (put_value k (the (merge_value (map_of a k) (Some v))) a) b \<or>
   v = JNull \<and> merge_loop a ((k, v) # b) = merge_loop a b"
  by (auto simp: merge_value_def put_value_def split: option.splits json.splits)

lemma merge_loop_lookup:
  assumes "distinct (map fst b)"
  shows "map_of (merge_loop a b) k = merge_value (map_of a k) (map_of b k)"
  using assms
proof (induction b arbitrary: a)
  case Nil
  then show ?case by (simp add: merge_value_def)
next
  case (Cons p b)
  obtain key v where p: "p = (key, v)" by fastforce
  with Cons.prems have dist: "distinct (map fst b)" and notin: "map_of b key = None"
    by (auto simp: map_of_eq_None_iff)
  show ?case
  proof (cases "v = JNull")
    case True
    then have "merge_loop a (p # b) = merge_loop a b" by (auto simp: p put_value_def split: option.splits json.splits)
    with True Cons.IH [OF dist] notin show ?thesis by (simp add: p merge_value_def)
  next
    case False
    let ?v = "the (merge_value (map_of a key) (Some v))"
    have v: "merge_value (map_of a key) (Some v) = Some ?v" "?v \<noteq> JNull"
      using False by (auto simp: merge_value_def split: json.splits option.splits)
    from merge_loop_Cons [of a key v b] False have "merge_loop a (p # b) = merge_loop (put_value key ?v a) b"
      unfolding p by blast
    with Cons.IH [OF dist, of "put_value key ?v a"] v
    have eq: "map_of (merge_loop a (p # b)) k = merge_value (((map_of a)(key \<mapsto> ?v)) k) (map_of b k)"
      by (simp add: map_of_put_value)
    show ?thesis
    proof (cases "k = key")
      case True
      with eq notin v(1) show ?thesis by (simp add: p merge_value_def [of _ None])
    next
      case False
      then show ?thesis unfolding eq by (simp add: p)
    qed
  qed
qed

lemma at_path_merge_loop:
  assumes "json_wf (JObj b)" and "leaf v"
  shows "at_path (JObj (merge_loop a b)) p = Some v \<longleftrightarrow>
    at_path (JObj b) p = Some v \<or> at_path (JObj a) p = Some v \<and> yields (JObj b) p"
  using assms(1)
proof (induction p arbitrary: a b)
  case Nil
  with assms(2) show ?case by (auto simp: leaf_def)
next
  case (Cons k ks)
  from Cons.prems have "distinct (map fst b)" by simp
  note look = merge_loop_lookup [OF this]
  show ?case
  proof (cases "map_of b k")
    case None
    then show ?thesis by (simp add: look merge_value_def)
  next
    case (Some bv)
    have path_null: "at_path JNull ks \<noteq> Some v" using assms(2) by (cases ks) (auto simp: leaf_def)
    show ?thesis
    proof (cases "\<exists>am bm. map_of a k = Some (JObj am) \<and> bv = JObj bm")
      case True
      then obtain am bm where ab: "map_of a k = Some (JObj am)" "bv = JObj bm" by blast
      with Some Cons.prems have "json_wf (JObj bm)" by (blast intro: json_wf_lookup)
      from Cons.IH [OF this, of am] show ?thesis by (simp add: look Some ab merge_value_def)
    next
      case False
      show ?thesis
      proof (cases bv)
        case JNull
        with Some path_null show ?thesis by (simp add: look merge_value_def)
      next
        case (JObj bm)
        have "at_path av ks \<noteq> Some v \<or> \<not> yields (JObj bm) ks" if "map_of a k = Some av" for av
          using False that JObj by (cases ks; cases av) auto
        with False JObj Some show ?thesis by (auto simp: look merge_value_def split: option.splits json.splits)
      qed (use Some in \<open>auto simp: look merge_value_def\<close>)
    qed
  qed
qed

definition jobj :: "jmap \<Rightarrow> json" where
  "jobj m = JObj (case m of None \<Rightarrow> [] | Some kvs \<Rightarrow> kvs)"

lemma MergeJson_leaf:
  assumes "json_wf (jobj b)" and "leaf v"
  shows "at_path (jobj (MergeJson a b)) p = Some v \<longleftrightarrow>
    at_path (jobj b) p = Some v \<or> at_path (jobj a) p = Some v \<and> yields (jobj b) p"
proof -
  have no: "at_path (JObj []) p \<noteq> Some v" using assms(2) by (cases p) (auto simp: leaf_def)
  have all: "yields (JObj []) p" if "at_path (JObj kvs) p = Some v" for kvs
    using assms(2) that by (cases p) (auto simp: leaf_def)
  show ?thesis
  proof (cases b)
    case None
    with no all show ?thesis by (auto simp: MergeJson_def jobj_def split: option.splits)
  next
    case (Some bm)
    with assms at_path_merge_loop [of bm v _ p] no show ?thesis
      by (cases a) (auto simp: MergeJson_def jobj_def)
  qed
qed

text \<open>
  Overriding the values of a component. When the merge of two YAML texts succeeds and
  the result is read back, a leaf (a value that is neither null nor a map) stands at a path
  exactly when the overriding text has it there, or the base text has it there and the
  overriding one has nothing but a null or a missing key on the way.
\<close>

lemma MergeYamlString_leaves:
  assumes "MergeYamlString yl ayaml byaml = Inr s"
    and "YamlStringToJson yl ayaml = Inr a" and "YamlStringToJson yl byaml = Inr b"
    and "json_wf (jobj b)" and "leaf v"
    and "\<And>m t. yl_Marshal yl m = Inr t \<Longrightarrow> YamlStringToJson yl t = Inr m"
  shows "\<exists>m. YamlStringToJson yl s = Inr m \<and>
    (at_path (jobj m) p = Some v \<longleftrightarrow>
       at_path (jobj b) p = Some v \<or> at_path (jobj a) p = Some v \<and> yields (jobj b) p)"
proof -
  from assms(1-3) have "yl_Marshal yl (MergeJson a b) = Inr s" by (simp add: MergeYamlString_def)
  with assms(6) MergeJson_leaf [OF assms(4,5)] show ?thesis by blast
qed

definition toy_yaml :: yaml_lib where
  "toy_yaml =
     \<lparr>yl_YAMLToJSON = (\<lambda>s. if s = ''a'' then Inr (JObj [(''x'', JInt 1), (''y'', JObj [(''u'', JInt 2)])])
                        else if s = ''b'' then Inr (JObj [(''y'', JObj [(''u'', JNull), (''v'', JInt 3)])])
                        else if s = ''m'' then Inr (JObj [(''x'', JInt 1), (''y'', JObj [(''u'', JInt 2), (''v'', JInt 3)])])
                        else Inl (Err ''yaml'')),
      yl_Marshal = (\<lambda>m. if m = Some [(''x'', JInt 1), (''y'', JObj [(''u'', JInt 2), (''v'', JInt 3)])] then Inr ''m''
                        else Inl (Err ''yaml'')),
      yl_Template = Inr\<rparr>"

lemma merge_components_filter:
  "merge_components yl m is acc = acc @ List.map_filter (\<lambda>i. merge_component yl (m (cc_Name i)) i) is"
  by (induction "is" arbitrary: acc) (auto simp: List.map_filter_simps split: option.splits)

lemma component_map_last: "component_map items m = m ++ map_of (rev (map (\<lambda>c. (cc_Name c, c)) items))"
  by (induction items arbitrary: m) (simp_all add: map_add_assoc [symmetric] map_add_def fun_eq_iff split: option.splits)

text \<open>
  What the merged configuration of a cluster holds. Its components are the common ones in
  their order; a component the cluster does not configure is the common one with its values
  instantiated; for one it does, the fields the cluster's last entry sets win over the common
  ones and its values are merged, and it is left out exactly when that merge fails.
  Components only the cluster knows are not deployed.
\<close>

lemma MergeHotplug_components:
  "hp_Component (MergeHotplug yl common clus) =
     List.map_filter (\<lambda>i.
       case map_of (rev (map (\<lambda>c. (cc_Name c, c)) (hp_Component clus))) (cc_Name i) of
         None \<Rightarrow> Some (i\<lparr>cc_Env := convertYaml yl (cc_Env i)\<rparr>)
       | Some j \<Rightarrow>
           map_option (\<lambda>env.
               \<lparr>cc_Name = cc_Name i,
                cc_Namespace = if cc_Namespace j = [] then cc_Namespace i else cc_Namespace j,
                cc_Status = if cc_Status j = [] then cc_Status i else cc_Status j,
                cc_PkgName = if cc_PkgName j = [] then cc_PkgName i else cc_PkgName j,
                cc_Env = convertYaml yl env\<rparr>)
             (if cc_Env j = [] then Some (cc_Env i)
              else (case MergeYamlString yl (cc_Env i) (cc_Env j) of Inl _ \<Rightarrow> None | Inr env \<Rightarrow> Some env)))
       (hp_Component common)"
proof -
  have "merge_component yl jo i =
      (case jo of
         None \<Rightarrow> Some (i\<lparr>cc_Env := convertYaml yl (cc_Env i)\<rparr>)
       | Some j \<Rightarrow>
           map_option (\<lambda>env.
               \<lparr>cc_Name = cc_Name i,
                cc_Namespace = if cc_Namespace j = [] then cc_Namespace i else cc_Namespace j,
                cc_Status = if cc_Status j = [] then cc_Status i else cc_Status j,
                cc_PkgName = if cc_PkgName j = [] then cc_PkgName i else cc_PkgName j,
                cc_Env = convertYaml yl env\<rparr>)
             (if cc_Env j = [] then Some (cc_Env i)
              else (case MergeYamlString yl (cc_Env i) (cc_Env j) of Inl _ \<Rightarrow> None | Inr env \<Rightarrow> Some env)))" for jo i
    by (cases i) (simp add: merge_component_def Let_def split: option.splits sum.splits)
  then show ?thesis by (simp add: MergeHotplug_def merge_components_filter component_map_last)
qed

subsection \<open>Definitions: deploying\<close>

text \<open>
  A helm release and the operations of \<open>helm.go\<close>, whose errors and effects are those of the
  helm library; \<open>NotFound\<close> is \<open>driver.ErrReleaseNotFound\<close>.
\<close>

record release =
  rl_Status :: string
  rl_Values :: jmap

record 'w helm =
  hm_Status :: "string \<Rightarrow> string \<Rightarrow> ('w, release result) state"
  hm_GetValues :: "string \<Rightarrow> string \<Rightarrow> ('w, jmap result) state"
  hm_Install :: "string \<Rightarrow> string \<Rightarrow> string \<Rightarrow> jmap \<Rightarrow> ('w, err option) state"
  hm_Upgrade :: "string \<Rightarrow> string \<Rightarrow> string \<Rightarrow> jmap \<Rightarrow> ('w, err option) state"
  hm_Uninstall :: "string \<Rightarrow> string \<Rightarrow> ('w, err option) state"

definition StatusUninstalled :: string where "StatusUninstalled = ''uninstalled''"
definition StatusDeployed :: string where "StatusDeployed = ''deployed''"
definition common_hotplug :: string where "common_hotplug = ''common''"
definition fail :: string where "fail = ''fail''"
definition success :: string where "success = ''success''"
definition enabled :: string where "enabled = ''enabled''"

definition addSuccessResult :: "DeployResult \<Rightarrow> message \<Rightarrow> DeployResult" where
  "addSuccessResult r m = r\<lparr>dr_Result := success, dr_Message := m\<rparr>"

definition addFailResult :: "DeployResult \<Rightarrow> message \<Rightarrow> DeployResult" where
  "addFailResult r m = r\<lparr>dr_Result := fail, dr_Message := m\<rparr>"

text \<open>The cases of the switch in the helm loop that call helm.\<close>

definition install_release :: "yaml_lib \<Rightarrow> 'w helm \<Rightarrow> ComponentConfig \<Rightarrow> DeployResult \<Rightarrow> ('w, DeployResult) state" where
  "install_release yl helm c result =
     (case YamlStringToJson yl (cc_Env c) of
        Inl e \<Rightarrow> State_Monad.return (addFailResult result (MsgErr ''parse env yaml fail'' e))
      | Inr envs \<Rightarrow> do {
          e \<leftarrow> hm_Install helm (cc_Namespace c) (cc_Name c) (cc_PkgName c) envs;
          State_Monad.return (case e of
              Some e \<Rightarrow> addFailResult result (MsgErr ''helm install fail'' e)
            | None \<Rightarrow> addSuccessResult result (Msg ''helm install success''))
        })"

definition uninstall_release :: "'w helm \<Rightarrow> ComponentConfig \<Rightarrow> DeployResult \<Rightarrow> ('w, DeployResult) state" where
  "uninstall_release helm c result = do {
     e \<leftarrow> hm_Uninstall helm (cc_Namespace c) (cc_Name c);
     State_Monad.return (case e of
         Some e \<Rightarrow> addFailResult result (MsgErr ''helm uninstall fail'' e)
       | None \<Rightarrow> addSuccessResult result (Msg ''helm uninstall success''))
   }"

definition upgrade_release ::
  "yaml_lib \<Rightarrow> 'w helm \<Rightarrow> release \<Rightarrow> ComponentConfig \<Rightarrow> DeployResult \<Rightarrow> ('w, DeployResult) state" where
  "upgrade_release yl helm rel c result =
     (case YamlStringToJson yl (cc_Env c) of
        Inl e \<Rightarrow> State_Monad.return (addFailResult result (MsgErr ''parse env yaml fail'' e))
      | Inr envs \<Rightarrow> do {
          v \<leftarrow> hm_GetValues helm (cc_Namespace c) (cc_Name c);
          case v of
            Inl e \<Rightarrow> State_Monad.return (addFailResult result (MsgErr ''helm get values fail'' e))
          | Inr values \<Rightarrow>
              if JudgeJsonEqual (jobj envs) (jobj values)
              then State_Monad.return (addSuccessResult result
                     (if rl_Status rel \<noteq> StatusDeployed
                      then Msg ''release is existing but status not ok please check''
                      else Msg ''release is running''))
              else do {
                e \<leftarrow> hm_Upgrade helm (cc_Namespace c) (cc_Name c) (cc_PkgName c) envs;
                State_Monad.return (case e of
                    Some e \<Rightarrow> addFailResult result (MsgErr ''helm upgrade fail'' e)
                  | None \<Rightarrow> addSuccessResult result (Msg ''upgrade success''))
              }
        })"

text \<open>One turn of the helm loop; \<open>Inl\<close> is the error with which the whole reconciliation returns.\<close>

definition deploy_component :: "yaml_lib \<Rightarrow> 'w helm \<Rightarrow> ComponentConfig \<Rightarrow> ('w, DeployResult result) state" where
  "deploy_component yl helm c = do {
     let result = \<lparr>dr_Name = cc_Name c, dr_Status = cc_Status c, dr_Result = [], dr_Message = Msg []\<rparr>;
     r \<leftarrow> hm_Status helm (cc_Namespace c) (cc_Name c);
     case (case r of Inl e \<Rightarrow> if e \<noteq> NotFound then Inl e else Inr None | Inr rel \<Rightarrow> Inr (Some rel)) of
       Inl e \<Rightarrow> State_Monad.return (Inl e)
     | Inr release \<Rightarrow>
         let isReleaseExist = (case release of None \<Rightarrow> False | Some rel \<Rightarrow> rl_Status rel \<noteq> StatusUninstalled)
         in do {
           result \<leftarrow>
             (if \<not> isReleaseExist \<and> cc_Status c \<noteq> enabled
              then State_Monad.return (addSuccessResult result (Msg ''clear''))
              else if \<not> isReleaseExist \<and> cc_Status c = enabled then install_release yl helm c result
              else if isReleaseExist \<and> cc_Status c \<noteq> enabled then uninstall_release helm c result
              else upgrade_release yl helm (the release) c result);
           State_Monad.return (Inr result)
         }
   }"

fun deploy_loop :: "yaml_lib \<Rightarrow> 'w helm \<Rightarrow> ComponentConfig list \<Rightarrow> DeployResult list \<Rightarrow> ('w, DeployResult list result) state" where
  "deploy_loop yl helm [] results = State_Monad.return (Inr results)"
| "deploy_loop yl helm (c # cs) results = do {
     r \<leftarrow> deploy_component yl helm c;
     case r of
       Inl e \<Rightarrow> State_Monad.return (Inl e)
     | Inr result \<Rightarrow> deploy_loop yl helm cs (results @ [result])
   }"

fun phase_loop :: "DeployResult list \<Rightarrow> string \<Rightarrow> string" where
  "phase_loop [] phase = phase"
| "phase_loop (r # rs) phase = phase_loop rs (if dr_Result r = fail then fail else phase)"

record ConfigMap =
  cm_Key :: objkey
  cm_Data :: "(string, string) gomap"

definition updateConfigMap :: "('w, ConfigMap) client \<Rightarrow> objkey \<Rightarrow> DeployResult list \<Rightarrow> ('w, err option) state" where
  "updateConfigMap cli key results = do {
     r \<leftarrow> cl_get cli key;
     case r of
       Inl e \<Rightarrow> State_Monad.return (Some e)
     | Inr cm \<Rightarrow>
         let data = (case cm_Data cm of None \<Rightarrow> [] | Some d \<Rightarrow> d);
             data = fold (\<lambda>r. AList.update (dr_Name r) (dr_Status r)) results data
         in cl_update cli (cm\<lparr>cm_Data := Some data\<rparr>)
   }"

record 'w HotplugReconciler =
  hr_Client :: "('w, Hotplug) client"
  hr_ConfigMaps :: "('w, ConfigMap) client"
  hr_helm :: "'w helm"
  hr_yaml :: yaml_lib
  hr_isMemberCluster :: bool
  hr_Cluster :: string
  hr_CubeNamespace :: string

definition featureConfigMap :: string where
  "featureConfigMap = ''kubecube-feature-config''"

definition empty_hotplug :: Hotplug where
  "empty_hotplug = \<lparr>hp_Name = [], hp_Annotations = None, hp_Component = [], hp_Phase = [], hp_Results = []\<rparr>"

text \<open>
  The first part of \<open>Reconcile\<close>: the two objects for the request; \<open>Inl\<close> is an early return.
\<close>

definition hotplug_configs ::
  "'w HotplugReconciler \<Rightarrow> string \<Rightarrow> ('w, err option + Hotplug \<times> Hotplug) state" where
  "hotplug_configs h reqName =
     (if reqName = common_hotplug then do {
        r \<leftarrow> cl_get (hr_Client h) ([], reqName);
        case r of
          Inl e \<Rightarrow> State_Monad.return (Inl (if e = NotFound then None else Some e))
        | Inr commonConfig \<Rightarrow> do {
            r \<leftarrow> cl_get (hr_Client h) ([], hr_Cluster h);
            State_Monad.return (case r of
                Inl e \<Rightarrow> if e \<noteq> NotFound then Inl (Some e) else Inr (commonConfig, empty_hotplug)
              | Inr clusterConfig \<Rightarrow> Inr (commonConfig, clusterConfig))
          }
      }
      else if reqName = hr_Cluster h then do {
        r \<leftarrow> cl_get (hr_Client h) ([], reqName);
        case r of
          Inl e \<Rightarrow> State_Monad.return (Inl (if e = NotFound then None else Some e))
        | Inr clusterConfig \<Rightarrow> do {
            r \<leftarrow> cl_get (hr_Client h) ([], common_hotplug);
            State_Monad.return (case r of
                Inl e \<Rightarrow> Inl (Some e)
              | Inr commonConfig \<Rightarrow> Inr (commonConfig, clusterConfig))
          }
      }
      else State_Monad.return (Inl None))"

definition Reconcile_hotplug :: "'w HotplugReconciler \<Rightarrow> string \<Rightarrow> ('w, err option) state" where
  "Reconcile_hotplug h reqName = do {
     cfg \<leftarrow> hotplug_configs h reqName;
     case cfg of
       Inl e \<Rightarrow> State_Monad.return e
     | Inr (commonConfig, clusterConfig) \<Rightarrow> do {
         let hotplugConfig = MergeHotplug (hr_yaml h) commonConfig clusterConfig;
         r \<leftarrow> deploy_loop (hr_yaml h) (hr_helm h) (hp_Component hotplugConfig) [];
         case r of
           Inl e \<Rightarrow> State_Monad.return (Some e)
         | Inr results \<Rightarrow> do {
             let phase = phase_loop results success;
             e \<leftarrow> (if \<not> hr_isMemberCluster h
                   then updateConfigMap (hr_ConfigMaps h) (hr_CubeNamespace h, featureConfigMap) results
                   else State_Monad.return None);
             if e \<noteq> None then State_Monad.return e
             else do {
               e \<leftarrow> cl_status_update (hr_Client h) (commonConfig\<lparr>hp_Phase := phase, hp_Results := results\<rparr>);
               if e \<noteq> None then State_Monad.return e
               else if reqName = hr_Cluster h
               then cl_status_update (hr_Client h) (clusterConfig\<lparr>hp_Phase := phase, hp_Results := results\<rparr>)
               else State_Monad.return None
             }
           }
       }
   }"

subsection \<open>The releases follow the configuration\<close>

text \<open>
  What helm promises, over a view of the world and the releases in it. Reading changes
  nothing. A successful installation leaves a deployed release with the given values, a
  successful upgrade too, but when it is given no values it keeps the old ones; a successful
  uninstallation leaves no release. A failed operation may leave its own release in any state.
\<close>

definition helm_reads :: "'w helm \<Rightarrow> ('w \<Rightarrow> 'v) \<Rightarrow> ('v \<Rightarrow> objkey \<Rightarrow> release option) \<Rightarrow> bool" where
  "helm_reads h view rels \<longleftrightarrow>
     (\<forall>w w' ns n r. run_state (hm_Status h ns n) w = (r, w') \<longrightarrow> view w' = view w \<and>
        (case r of Inr x \<Rightarrow> rels (view w) (ns, n) = Some x | Inl e \<Rightarrow> e = NotFound \<longrightarrow> rels (view w) (ns, n) = None)) \<and>
     (\<forall>w w' ns n r. run_state (hm_GetValues h ns n) w = (r, w') \<longrightarrow> view w' = view w \<and>
        (case r of Inr v \<Rightarrow> map_option rl_Values (rels (view w) (ns, n)) = Some v | Inl _ \<Rightarrow> True))"

definition helm_installs :: "'w helm \<Rightarrow> ('w \<Rightarrow> objkey \<Rightarrow> release option) \<Rightarrow> bool" where
  "helm_installs h rels \<longleftrightarrow>
     (\<forall>w w' ns n pkg vs e. run_state (hm_Install h ns n pkg vs) w = (e, w') \<longrightarrow>
        (\<forall>k. k \<noteq> (ns, n) \<longrightarrow> rels w' k = rels w k) \<and>
        (e = None \<longrightarrow> rels w' (ns, n) = Some \<lparr>rl_Status = StatusDeployed, rl_Values = vs\<rparr>))"

definition helm_upgrades :: "'w helm \<Rightarrow> ('w \<Rightarrow> objkey \<Rightarrow> release option) \<Rightarrow> bool" where
  "helm_upgrades h rels \<longleftrightarrow>
     (\<forall>w w' ns n pkg vs e. run_state (hm_Upgrade h ns n pkg vs) w = (e, w') \<longrightarrow>
        (\<forall>k. k \<noteq> (ns, n) \<longrightarrow> rels w' k = rels w k) \<and>
        (e = None \<longrightarrow> (\<exists>old. rels w (ns, n) = Some old \<and>
           rels w' (ns, n) = Some \<lparr>rl_Status = StatusDeployed, rl_Values = if jobj vs = JObj [] then rl_Values old else vs\<rparr>)))"

definition helm_uninstalls :: "'w helm \<Rightarrow> ('w \<Rightarrow> objkey \<Rightarrow> release option) \<Rightarrow> bool" where
  "helm_uninstalls h rels \<longleftrightarrow>
     (\<forall>w w' ns n e. run_state (hm_Uninstall h ns n) w = (e, w') \<longrightarrow>
        (\<forall>k. k \<noteq> (ns, n) \<longrightarrow> rels w' k = rels w k) \<and> (e = None \<longrightarrow> rels w' (ns, n) = None))"

definition helm_ok :: "'w helm \<Rightarrow> ('w \<Rightarrow> 'v) \<Rightarrow> ('v \<Rightarrow> objkey \<Rightarrow> release option) \<Rightarrow> bool" where
  "helm_ok h view rels \<longleftrightarrow> helm_reads h view rels \<and> helm_installs h (\<lambda>w. rels (view w)) \<and>
     helm_upgrades h (\<lambda>w. rels (view w)) \<and> helm_uninstalls h (\<lambda>w. rels (view w))"

text \<open>
  The state a component asks for: no release unless it is enabled, and otherwise a release
  with its values, where an empty set of values asks for nothing.
\<close>

definition deployed_as :: "yaml_lib \<Rightarrow> ComponentConfig \<Rightarrow> release option \<Rightarrow> bool" where
  "deployed_as yl c r =
     (if cc_Status c = enabled
      then (case (r, YamlStringToJson yl (cc_Env c)) of
              (Some rel, Inr envs) \<Rightarrow> rl_Status rel \<noteq> StatusUninstalled \<and>
                 (jobj envs = JObj [] \<or> marshal (jobj (rl_Values rel)) = marshal (jobj envs))
            | _ \<Rightarrow> False)
      else (case r of None \<Rightarrow> True | Some rel \<Rightarrow> rl_Status rel = StatusUninstalled))"

definition yaml_wf :: "yaml_lib \<Rightarrow> bool" where
  "yaml_wf yl \<longleftrightarrow> (\<forall>s m. YamlStringToJson yl s = Inr m \<longrightarrow> json_wf (jobj m))"

definition hotplugs_named :: "(objkey \<Rightarrow> Hotplug option) \<Rightarrow> bool" where
  "hotplugs_named m \<longleftrightarrow> (\<forall>k x. m ([], k) = Some x \<longrightarrow> hp_Name x = k)"

definition releases_wf :: "(objkey \<Rightarrow> release option) \<Rightarrow> bool" where
  "releases_wf m \<longleftrightarrow> (\<forall>k r. m k = Some r \<longrightarrow> json_wf (jobj (rl_Values r)))"

definition component_key :: "ComponentConfig \<Rightarrow> objkey" where
  "component_key c = (cc_Namespace c, cc_Name c)"

lemmas result_simps = addSuccessResult_def addFailResult_def success_def fail_def

text \<open>What one component may do: report, and change its own release alone.\<close>

definition turn_ok :: "yaml_lib \<Rightarrow> ComponentConfig \<Rightarrow> DeployResult \<Rightarrow> DeployResult \<Rightarrow> (objkey \<Rightarrow> release option) \<Rightarrow> (objkey \<Rightarrow> release option) \<Rightarrow> bool" where
  "turn_ok yl c res0 res m m' \<longleftrightarrow>
     dr_Name res = dr_Name res0 \<and> dr_Status res = dr_Status res0 \<and> (dr_Result res = success \<or> dr_Result res = fail) \<and>
     (\<forall>k. k \<noteq> component_key c \<longrightarrow> m' k = m k) \<and>
     (dr_Result res = success \<longrightarrow> deployed_as yl c (m' (component_key c)))"

lemma deployed_neq: "StatusDeployed \<noteq> StatusUninstalled"
  by (simp add: StatusDeployed_def StatusUninstalled_def)

lemma install_release_run:
  assumes "helm_installs h rels" and "cc_Status c = enabled"
    and "run_state (install_release yl h c res0) w = (res, w')"
  shows "turn_ok yl c res0 res (rels w) (rels w')"
proof (cases "YamlStringToJson yl (cc_Env c)")
  case (Inl e)
  with assms(3) show ?thesis by (auto simp: install_release_def turn_ok_def result_simps)
next
  case (Inr envs)
  obtain e w1 where i: "run_state (hm_Install h (cc_Namespace c) (cc_Name c) (cc_PkgName c) envs) w = (e, w1)" by fastforce
  have "\<forall>k. k \<noteq> component_key c \<longrightarrow> rels w1 k = rels w k"
    "e = None \<longrightarrow> rels w1 (component_key c) = Some \<lparr>rl_Status = StatusDeployed, rl_Values = envs\<rparr>"
    using assms(1) i unfolding helm_installs_def component_key_def by blast+
  with assms(2,3) Inr i show ?thesis
    by (cases e) (auto simp: install_release_def turn_ok_def deployed_as_def deployed_neq result_simps)
qed

lemma uninstall_release_run:
  assumes "helm_uninstalls h rels" and "cc_Status c \<noteq> enabled"
    and "run_state (uninstall_release h c res0) w = (res, w')"
  shows "turn_ok yl c res0 res (rels w) (rels w')"
proof -
  obtain e w1 where i: "run_state (hm_Uninstall h (cc_Namespace c) (cc_Name c)) w = (e, w1)" by fastforce
  have "\<forall>k. k \<noteq> component_key c \<longrightarrow> rels w1 k = rels w k" "e = None \<longrightarrow> rels w1 (component_key c) = None"
    using assms(1) i unfolding helm_uninstalls_def component_key_def by blast+
  with assms(2,3) i show ?thesis
    by (cases e) (auto simp: uninstall_release_def turn_ok_def deployed_as_def result_simps)
qed

lemma upgrade_release_run:
  assumes "helm_reads h view rels" and "helm_upgrades h (\<lambda>w. rels (view w))"
    and yw: "\<And>s m. YamlStringToJson yl s = Inr m \<Longrightarrow> json_wf (jobj m)"
    and rel: "rels (view w) (component_key c) = Some rel" "json_wf (jobj (rl_Values rel))" "rl_Status rel \<noteq> StatusUninstalled"
    and "cc_Status c = enabled" and "run_state (upgrade_release yl h rel0 c res0) w = (res, w')"
  shows "turn_ok yl c res0 res (rels (view w)) (rels (view w'))"
proof (cases "YamlStringToJson yl (cc_Env c)")
  case (Inl e)
  with assms(8) show ?thesis by (auto simp: upgrade_release_def turn_ok_def result_simps)
next
  case (Inr envs)
  obtain v w1 where g: "run_state (hm_GetValues h (cc_Namespace c) (cc_Name c)) w = (v, w1)" by fastforce
  have v1: "view w1 = view w"
    and vals: "\<And>x. v = Inr x \<Longrightarrow> map_option rl_Values (rels (view w) (component_key c)) = Some x"
    using assms(1) g unfolding helm_reads_def component_key_def by (blast, fastforce)
  show ?thesis
  proof (cases v)
    case (Inl e)
    with assms(8) Inr g v1 show ?thesis by (auto simp: upgrade_release_def turn_ok_def result_simps)
  next
    case v: (Inr cur)
    with vals rel(1) have vv: "cur = rl_Values rel" by simp
    show ?thesis
    proof (cases "JudgeJsonEqual (jobj envs) (jobj cur)")
      case True
      then have "marshal (jobj (rl_Values rel)) = marshal (jobj envs)"
        using judge_marshal [OF yw [OF Inr] rel(2)] vv by simp
      with True assms(7,8) Inr g v v1 rel(1,3) show ?thesis
        by (auto simp: upgrade_release_def turn_ok_def deployed_as_def result_simps)
    next
      case False
      obtain e w2 where u: "run_state (hm_Upgrade h (cc_Namespace c) (cc_Name c) (cc_PkgName c) envs) w1 = (e, w2)" by fastforce
      have up: "(\<forall>k. k \<noteq> component_key c \<longrightarrow> rels (view w2) k = rels (view w1) k) \<and>
        (e = None \<longrightarrow> (\<exists>old. rels (view w1) (component_key c) = Some old \<and> rels (view w2) (component_key c) =
           Some \<lparr>rl_Status = StatusDeployed, rl_Values = if jobj envs = JObj [] then rl_Values old else envs\<rparr>))"
        using assms(2) u unfolding helm_upgrades_def component_key_def by blast
      have frame: "\<forall>k. k \<noteq> component_key c \<longrightarrow> rels (view w2) k = rels (view w) k" using up unfolding v1 by simp
      show ?thesis
      proof (cases e)
        case None
        with up obtain old :: release where "rels (view w2) (component_key c) =
            Some \<lparr>rl_Status = StatusDeployed, rl_Values = if jobj envs = JObj [] then rl_Values old else envs\<rparr>"
          by blast
        with None False frame assms(7,8) Inr g v u show ?thesis
          by (auto simp: upgrade_release_def turn_ok_def deployed_as_def deployed_neq result_simps)
      next
        case (Some er)
        with False frame assms(8) Inr g v u show ?thesis
          by (auto simp: upgrade_release_def turn_ok_def result_simps)
      qed
    qed
  qed
qed

lemma deploy_component_run:
  assumes ok: "helm_ok h view rels"
    and yw: "\<And>s m. YamlStringToJson yl s = Inr m \<Longrightarrow> json_wf (jobj m)"
    and wf: "\<And>r. rels (view w) (component_key c) = Some r \<Longrightarrow> json_wf (jobj (rl_Values r))"
    and run: "run_state (deploy_component yl h c) w = (Inr res, w')"
  shows "turn_ok yl c \<lparr>dr_Name = cc_Name c, dr_Status = cc_Status c, dr_Result = [], dr_Message = Msg []\<rparr> res
    (rels (view w)) (rels (view w'))"
proof -
  obtain r w1 where st: "run_state (hm_Status h (cc_Namespace c) (cc_Name c)) w = (r, w1)" by fastforce
  let ?rel = "rels (view w) (component_key c)"
  let ?res0 = "\<lparr>dr_Name = cc_Name c, dr_Status = cc_Status c, dr_Result = [], dr_Message = Msg []\<rparr>"
  let ?ex = "case ?rel of None \<Rightarrow> False | Some rel \<Rightarrow> rl_Status rel \<noteq> StatusUninstalled"
  have v1: "view w1 = view w"
    and r1: "case r of Inr x \<Rightarrow> ?rel = Some x | Inl e \<Rightarrow> e = NotFound \<longrightarrow> ?rel = None"
    using ok st unfolding helm_ok_def helm_reads_def component_key_def by blast+
  have "\<exists>body. run_state body w1 = (res, w') \<and> body =
      (if \<not> ?ex \<and> cc_Status c \<noteq> enabled then State_Monad.return (addSuccessResult ?res0 (Msg ''clear''))
       else if \<not> ?ex \<and> cc_Status c = enabled then install_release yl h c ?res0
       else if ?ex \<and> cc_Status c \<noteq> enabled then uninstall_release h c ?res0
       else upgrade_release yl h (the ?rel) c ?res0)"
    using run st r1
    by (cases r) (auto simp: deploy_component_def Let_def split: if_splits prod.splits)
  then consider "\<not> ?ex" "cc_Status c \<noteq> enabled" "w' = w1" "res = addSuccessResult ?res0 (Msg ''clear'')"
    | "cc_Status c = enabled" "run_state (install_release yl h c ?res0) w1 = (res, w')"
    | "cc_Status c \<noteq> enabled" "run_state (uninstall_release h c ?res0) w1 = (res, w')"
    | "?ex" "cc_Status c = enabled" "run_state (upgrade_release yl h (the ?rel) c ?res0) w1 = (res, w')"
    by (cases ?ex; cases "cc_Status c = enabled") auto
  then show ?thesis
  proof cases
    case 1
    then show ?thesis by (auto simp: turn_ok_def deployed_as_def v1 result_simps split: option.splits)
  next
    case 2
    with install_release_run [where rels = "\<lambda>w. rels (view w)"] ok v1 show ?thesis unfolding helm_ok_def by metis
  next
    case 3
    with uninstall_release_run [where rels = "\<lambda>w. rels (view w)"] ok v1 show ?thesis unfolding helm_ok_def by metis
  next
    case 4
    then obtain rel where rel: "?rel = Some rel" "rl_Status rel \<noteq> StatusUninstalled" by (auto split: option.splits)
    have "turn_ok yl c ?res0 res (rels (view w1)) (rels (view w'))"
      using upgrade_release_run [of h view rels yl w1 c rel, OF _ _ yw _ _ _ 4(2,3)] ok rel wf v1
      by (auto simp: helm_ok_def)
    then show ?thesis by (simp add: v1)
  qed
qed

lemma turn_ok_wf:
  assumes "turn_ok yl c r0 res m m'" and "\<forall>k \<in> K. \<forall>r. m k = Some r \<longrightarrow> json_wf (jobj (rl_Values r))" and "component_key c \<notin> K"
  shows "\<forall>k \<in> K. \<forall>r. m' k = Some r \<longrightarrow> json_wf (jobj (rl_Values r))"
  using assms unfolding turn_ok_def by metis

text \<open>
  The loop over components with different releases: one result each, in order; every release
  of another component is left alone, and every component reported as a success is deployed
  as it asks.
\<close>

lemma deploy_loop_run:
  assumes ok: "helm_ok h view rels"
    and yw: "\<And>s m. YamlStringToJson yl s = Inr m \<Longrightarrow> json_wf (jobj m)"
    and "distinct (map component_key cs)"
    and "\<forall>k \<in> component_key ` set cs. \<forall>r. rels (view w) k = Some r \<longrightarrow> json_wf (jobj (rl_Values r))"
    and "run_state (deploy_loop yl h cs acc) w = (Inr results, w')"
  shows "\<exists>rs. results = acc @ rs \<and> map dr_Name rs = map cc_Name cs \<and> map dr_Status rs = map cc_Status cs \<and>
    (\<forall>r \<in> set rs. dr_Result r = success \<or> dr_Result r = fail) \<and>
    (\<forall>k. k \<notin> component_key ` set cs \<longrightarrow> rels (view w') k = rels (view w) k) \<and>
    list_all2 (\<lambda>c r. dr_Result r = success \<longrightarrow> deployed_as yl c (rels (view w') (component_key c))) cs rs"
  using assms(3-5)
proof (induction cs arbitrary: acc w)
  case (Cons c cs)
  obtain r w1 where run1: "run_state (deploy_component yl h c) w = (r, w1)" by fastforce
  with Cons.prems(3) obtain res where r: "r = Inr res" by (cases r) auto
  with run1 Cons.prems have rest: "run_state (deploy_loop yl h cs (acc @ [res])) w1 = (Inr results, w')" by simp
  note turn = deploy_component_run [OF ok yw _ run1 [unfolded r]]
  have t: "turn_ok yl c \<lparr>dr_Name = cc_Name c, dr_Status = cc_Status c, dr_Result = [], dr_Message = Msg []\<rparr> res
      (rels (view w)) (rels (view w1))"
    using Cons.prems(2) by (intro turn) auto
  have notin: "component_key c \<notin> component_key ` set cs" using Cons.prems(1) by simp
  have "\<forall>k \<in> component_key ` set cs. \<forall>r. rels (view w1) k = Some r \<longrightarrow> json_wf (jobj (rl_Values r))"
    by (rule turn_ok_wf [OF t]) (use Cons.prems(2) notin in auto)
  from Cons.IH [OF _ this rest] Cons.prems(1) obtain rs where rs: "results = acc @ res # rs"
      "map dr_Name rs = map cc_Name cs" "map dr_Status rs = map cc_Status cs"
      "\<forall>r \<in> set rs. dr_Result r = success \<or> dr_Result r = fail"
      "\<forall>k. k \<notin> component_key ` set cs \<longrightarrow> rels (view w') k = rels (view w1) k"
      "list_all2 (\<lambda>c r. dr_Result r = success \<longrightarrow> deployed_as yl c (rels (view w') (component_key c))) cs rs"
    by auto
  from rs(5) notin have same: "rels (view w') (component_key c) = rels (view w1) (component_key c)" by blast
  from t rs(5) have other: "\<forall>k. k \<notin> component_key ` set (c # cs) \<longrightarrow> rels (view w') k = rels (view w) k"
    unfolding turn_ok_def by auto
  show ?case
    by (rule exI [of _ "res # rs"], intro conjI)
      (use t rs(1-4,6) same other in \<open>simp_all add: turn_ok_def\<close>)
qed simp

lemma phase_loop_eq: "phase_loop rs phase = (if list_ex (\<lambda>r. dr_Result r = fail) rs then fail else phase)"
  by (induction rs arbitrary: phase) auto

lemma phase_success: "phase_loop rs success = success \<longleftrightarrow> (\<forall>r \<in> set rs. dr_Result r \<noteq> fail)"
  by (auto simp: phase_loop_eq list_ex_iff success_def fail_def)

subsection \<open>One reconciliation\<close>

text \<open>
  The worlds in which the reconciler runs: hotplug objects, config maps and releases are
  separate, so that writing one kind leaves the others alone.
\<close>

definition hotplug_world ::
  "'w HotplugReconciler \<Rightarrow> ('w \<Rightarrow> 'v) \<Rightarrow> ('v \<Rightarrow> objkey \<Rightarrow> Hotplug option) \<Rightarrow> ('v \<Rightarrow> objkey \<Rightarrow> release option) \<Rightarrow> bool" where
  "hotplug_world h view hps rels \<longleftrightarrow>
     reads (hr_Client h) view hps \<and> helm_ok (hr_helm h) view rels \<and>
     (\<forall>w k r w'. run_state (cl_get (hr_ConfigMaps h) k) w = (r, w') \<longrightarrow> rels (view w') = rels (view w)) \<and>
     (\<forall>w x e w'. run_state (cl_update (hr_ConfigMaps h) x) w = (e, w') \<longrightarrow> rels (view w') = rels (view w)) \<and>
     (\<forall>w x e w'. run_state (cl_status_update (hr_Client h) x) w = (e, w') \<longrightarrow> rels (view w') = rels (view w) \<and>
        (e = None \<longrightarrow> (\<exists>y. hps (view w') ([], hp_Name x) = Some y \<and> hp_Phase y = hp_Phase x \<and> hp_Results y = hp_Results x \<and>
           (\<forall>k. k \<noteq> ([], hp_Name x) \<longrightarrow> hps (view w') k = hps (view w) k))))"

lemma updateConfigMap_rels:
  assumes "hotplug_world h view hps rels" and "run_state (updateConfigMap (hr_ConfigMaps h) key rs) w = (e, w')"
  shows "rels (view w') = rels (view w)"
proof -
  obtain r w1 where g: "run_state (cl_get (hr_ConfigMaps h) key) w = (r, w1)" by fastforce
  then have "rels (view w1) = rels (view w)" using assms(1) unfolding hotplug_world_def by blast
  with assms g show ?thesis
    unfolding hotplug_world_def by (auto simp: updateConfigMap_def Let_def split: sum.splits)
qed

lemma hotplug_configs_run:
  assumes "reads (hr_Client h) view hps" and "run_state (hotplug_configs h n) w = (Inr (com, clu), w')"
  shows "view w' = view w \<and> hps (view w) ([], common_hotplug) = Some com \<and>
    (case hps (view w) ([], hr_Cluster h) of Some c \<Rightarrow> clu = c | None \<Rightarrow> clu = empty_hotplug)"
proof (cases "n = common_hotplug")
  case True
  obtain r w1 where g: "run_state (cl_get (hr_Client h) ([], common_hotplug)) w = (r, w1)" by fastforce
  with True assms(2) have r: "r = Inr com"
    by (auto simp: hotplug_configs_def split: sum.splits prod.splits if_splits)
  obtain r2 w2 where g2: "run_state (cl_get (hr_Client h) ([], hr_Cluster h)) w1 = (r2, w2)" by fastforce
  note rd = reads_run [OF assms(1) g] reads_run [OF assms(1) g2]
  from True assms(2) g g2 r have "w' = w2" "r2 = Inl NotFound \<and> clu = empty_hotplug \<or> r2 = Inr clu"
    by (auto simp: hotplug_configs_def split: sum.splits if_splits)
  with rd r show ?thesis by auto
next
  case False
  obtain r w1 where g: "run_state (cl_get (hr_Client h) ([], hr_Cluster h)) w = (r, w1)" by fastforce
  with False assms(2) have r: "r = Inr clu" and n: "n = hr_Cluster h"
    by (auto simp: hotplug_configs_def split: sum.splits prod.splits if_splits)
  obtain r2 w2 where g2: "run_state (cl_get (hr_Client h) ([], common_hotplug)) w1 = (r2, w2)" by fastforce
  note rd = reads_run [OF assms(1) g] reads_run [OF assms(1) g2]
  from False assms(2) g g2 r n have "w' = w2" "r2 = Inr com"
    by (auto simp: hotplug_configs_def split: sum.splits if_splits)
  with rd r show ?thesis by auto
qed

lemma hotplug_configs_found:
  assumes "reads (hr_Client h) view hps" and "run_state (hotplug_configs h n) w = (Inl None, w')"
    and "hps (view w) ([], common_hotplug) \<noteq> None" "n = common_hotplug \<or> n = hr_Cluster h"
  shows "n = hr_Cluster h \<and> hps (view w) ([], hr_Cluster h) = None"
proof -
  obtain r w1 where g: "run_state (cl_get (hr_Client h) ([], n)) w = (r, w1)" by fastforce
  note rd = reads_run [OF assms(1) g]
  from assms(2,4) g have "r = Inl NotFound"
    by (auto simp: hotplug_configs_def split: sum.splits prod.splits if_splits)
  with rd(3) assms(3,4) show ?thesis by auto
qed

text \<open>The cluster object that a reconciliation merges into the common one.\<close>

definition cluster_hotplug :: "(objkey \<Rightarrow> Hotplug option) \<Rightarrow> string \<Rightarrow> Hotplug" where
  "cluster_hotplug m n = (case m ([], n) of None \<Rightarrow> empty_hotplug | Some c \<Rightarrow> c)"

lemma Reconcile_hotplug_run:
  assumes world: "hotplug_world h view hps rels"
    and yaml: "yaml_wf (hr_yaml h)" and hnamed: "hotplugs_named (hps (view w))" and neq: "hr_Cluster h \<noteq> common_hotplug"
    and com: "hps (view w) ([], common_hotplug) = Some com"
    and req: "n = common_hotplug \<or> n = hr_Cluster h \<and> hps (view w) ([], hr_Cluster h) \<noteq> None"
    and cs: "cs = hp_Component (MergeHotplug (hr_yaml h) com (cluster_hotplug (hps (view w)) (hr_Cluster h)))"
    and dist: "distinct (map component_key cs)" and wf: "releases_wf (rels (view w))"
    and run: "run_state (Reconcile_hotplug h n) w = (None, w')"
  shows "\<exists>y. hps (view w') ([], common_hotplug) = Some y \<and> map dr_Name (hp_Results y) = map cc_Name cs \<and>
    (\<forall>k. k \<notin> component_key ` set cs \<longrightarrow> rels (view w') k = rels (view w) k) \<and>
    list_all2 (\<lambda>c r. dr_Result r = success \<longrightarrow> deployed_as (hr_yaml h) c (rels (view w') (component_key c))) cs (hp_Results y) \<and>
    (hp_Phase y = success \<longleftrightarrow> (\<forall>r \<in> set (hp_Results y). dr_Result r = success))"
proof -
  have rd: "reads (hr_Client h) view hps" and ok: "helm_ok (hr_helm h) view rels" using world by (auto simp: hotplug_world_def)
  have yw: "\<And>s m. YamlStringToJson (hr_yaml h) s = Inr m \<Longrightarrow> json_wf (jobj m)" using yaml unfolding yaml_wf_def by blast
  have named: "\<And>k x. hps (view w) ([], k) = Some x \<Longrightarrow> hp_Name x = k" using hnamed unfolding hotplugs_named_def by blast
  obtain cfg w1 where c: "run_state (hotplug_configs h n) w = (cfg, w1)" by fastforce
  have "cfg \<noteq> Inl None" using hotplug_configs_found [OF rd, of n w w1] c com req neq by auto
  with run c obtain com' clu where cfg: "cfg = Inr (com', clu)"
    by (cases cfg) (auto simp: Reconcile_hotplug_def)
  from hotplug_configs_run [OF rd c [unfolded cfg]] com have v1: "view w1 = view w" and com': "com' = com"
    and clu: "clu = cluster_hotplug (hps (view w)) (hr_Cluster h)"
    by (auto simp: cluster_hotplug_def split: option.splits)
  obtain r w2 where d: "run_state (deploy_loop (hr_yaml h) (hr_helm h) cs []) w1 = (r, w2)" by fastforce
  obtain results where r: "r = Inr results" using run c cfg com' clu cs d by (cases r) (auto simp: Reconcile_hotplug_def Let_def)
  have wf': "\<forall>k \<in> component_key ` set cs. \<forall>r. rels (view w1) k = Some r \<longrightarrow> json_wf (jobj (rl_Values r))"
    using wf unfolding releases_wf_def v1 by blast
  from deploy_loop_run [OF ok yw dist wf' d [unfolded r]] have
    loop: "map dr_Name results = map cc_Name cs" "\<forall>r \<in> set results. dr_Result r = success \<or> dr_Result r = fail"
      "\<forall>k. k \<notin> component_key ` set cs \<longrightarrow> rels (view w2) k = rels (view w) k"
      "list_all2 (\<lambda>c r. dr_Result r = success \<longrightarrow> deployed_as (hr_yaml h) c (rels (view w2) (component_key c))) cs results"
    by (auto simp: v1)
  let ?st = "\<lambda>x. x\<lparr>hp_Phase := phase_loop results success, hp_Results := results\<rparr>"
  have "\<exists>w3 w4. rels (view w3) = rels (view w2) \<and> run_state (cl_status_update (hr_Client h) (?st com)) w3 = (None, w4) \<and>
    (if n = hr_Cluster h then run_state (cl_status_update (hr_Client h) (?st clu)) w4 = (None, w') else w' = w4)"
  proof (cases "hr_isMemberCluster h")
    case True
    with run c cfg com' clu cs d r show ?thesis
      by (auto simp: Reconcile_hotplug_def Let_def split: prod.splits if_splits)
  next
    case False
    obtain e w3 where u: "run_state (updateConfigMap (hr_ConfigMaps h) (hr_CubeNamespace h, featureConfigMap) results) w2 = (e, w3)"
      by fastforce
    from updateConfigMap_rels [OF world u] run c cfg com' clu cs d r u False show ?thesis
      by (auto simp: Reconcile_hotplug_def Let_def split: prod.splits if_splits)
  qed
  then obtain w3 w4 where w3: "rels (view w3) = rels (view w2)"
    and st1: "run_state (cl_status_update (hr_Client h) (?st com)) w3 = (None, w4)"
    and st2: "if n = hr_Cluster h then run_state (cl_status_update (hr_Client h) (?st clu)) w4 = (None, w') else w' = w4" by blast
  have wr: "rels (view v') = rels (view v) \<and> (\<exists>y. hps (view v') ([], hp_Name x) = Some y \<and> hp_Phase y = hp_Phase x \<and>
      hp_Results y = hp_Results x \<and> (\<forall>k. k \<noteq> ([], hp_Name x) \<longrightarrow> hps (view v') k = hps (view v) k))"
    if "run_state (cl_status_update (hr_Client h) x) v = (None, v')" for x v v'
    using world that unfolding hotplug_world_def by blast
  from wr [OF st1] named [OF com] obtain y where y: "hps (view w4) ([], common_hotplug) = Some y" "hp_Results y = results"
      "hp_Phase y = phase_loop results success" "rels (view w4) = rels (view w2)"
    using w3 by auto
  have fin: "rels (view w') = rels (view w4) \<and> hps (view w') ([], common_hotplug) = hps (view w4) ([], common_hotplug)"
  proof (cases "n = hr_Cluster h")
    case True
    with req neq clu have "hp_Name clu = hr_Cluster h" by (auto simp: cluster_hotplug_def named split: option.splits)
    with True st2 wr [of "?st clu" w4 w'] neq show ?thesis by auto
  qed (use st2 in simp)
  have ph: "hp_Phase y = success \<longleftrightarrow> (\<forall>r \<in> set (hp_Results y). dr_Result r = success)"
    using loop(2) unfolding y(2,3) phase_success by (auto simp: success_def fail_def)
  show ?thesis using y fin loop ph by auto
qed

text \<open>
  C17: a reconciliation of the components of a cluster that returns no error has stored, in
  the status of the common hotplug object, one result per component of the merged
  configuration, in order; every component with the result success is deployed as it asks
  (enabled ones have a release with their values, the others have none); the phase is success
  exactly when all are, and then the whole configuration is deployed; releases of other
  components have not changed.
\<close>

theorem Reconcile_hotplug_deploys:
  assumes "hotplug_world h view hps rels"
    and "yaml_wf (hr_yaml h)" and "hotplugs_named (hps (view w))" and "hr_Cluster h \<noteq> common_hotplug"
    and "hps (view w) ([], common_hotplug) = Some com"
    and "n = common_hotplug \<or> n = hr_Cluster h \<and> hps (view w) ([], hr_Cluster h) \<noteq> None"
    and "cs = hp_Component (MergeHotplug (hr_yaml h) com (cluster_hotplug (hps (view w)) (hr_Cluster h)))"
    and "distinct (map component_key cs)" and "releases_wf (rels (view w))"
    and "run_state (Reconcile_hotplug h n) w = (None, w')"
  shows "\<exists>y. hps (view w') ([], common_hotplug) = Some y \<and> map dr_Name (hp_Results y) = map cc_Name cs \<and>
    (\<forall>k. k \<notin> component_key ` set cs \<longrightarrow> rels (view w') k = rels (view w) k) \<and>
    list_all2 (\<lambda>c r. dr_Result r = success \<longrightarrow> deployed_as (hr_yaml h) c (rels (view w') (component_key c))) cs (hp_Results y) \<and>
    (hp_Phase y = success \<longrightarrow> (\<forall>c \<in> set cs. deployed_as (hr_yaml h) c (rels (view w') (component_key c))))"
proof -
  from Reconcile_hotplug_run [OF assms] obtain y where y: "hps (view w') ([], common_hotplug) = Some y"
      "map dr_Name (hp_Results y) = map cc_Name cs" "\<forall>k. k \<notin> component_key ` set cs \<longrightarrow> rels (view w') k = rels (view w) k"
      "list_all2 (\<lambda>c r. dr_Result r = success \<longrightarrow> deployed_as (hr_yaml h) c (rels (view w') (component_key c))) cs (hp_Results y)"
      "hp_Phase y = success \<longleftrightarrow> (\<forall>r \<in> set (hp_Results y). dr_Result r = success)"
    by (elim exE conjE) (rule that)
  have "\<forall>c \<in> set cs. deployed_as (hr_yaml h) c (rels (view w') (component_key c))" if "hp_Phase y = success"
  proof
    fix c assume "c \<in> set cs"
    then obtain i where i: "i < length cs" "c = cs ! i" by (auto simp: in_set_conv_nth)
    with y(4,5) that show "deployed_as (hr_yaml h) c (rels (view w') (component_key c))"
      by (auto simp: list_all2_conv_all_nth)
  qed
  with y(1-4) show ?thesis by (intro exI [of _ y] conjI impI)
qed

text \<open>A world of hotplug objects and releases, with a helm that does what it is told.\<close>

record toy_world =
  tw_hps :: "objkey \<Rightarrow> Hotplug option"
  tw_rels :: "objkey \<Rightarrow> release option"

definition toy_helm :: "toy_world helm" where
  "toy_helm =
     \<lparr>hm_Status = (\<lambda>ns n. State (\<lambda>w. (case tw_rels w (ns, n) of None \<Rightarrow> Inl NotFound | Some r \<Rightarrow> Inr r, w))),
      hm_GetValues = (\<lambda>ns n. State (\<lambda>w. (case tw_rels w (ns, n) of None \<Rightarrow> Inl NotFound | Some r \<Rightarrow> Inr (rl_Values r), w))),
      hm_Install = (\<lambda>ns n pkg vs. State (\<lambda>w. (None, w\<lparr>tw_rels := (tw_rels w)((ns, n) \<mapsto> \<lparr>rl_Status = StatusDeployed, rl_Values = vs\<rparr>)\<rparr>))),
      hm_Upgrade = (\<lambda>ns n pkg vs. State (\<lambda>w. case tw_rels w (ns, n) of None \<Rightarrow> (Some NotFound, w)
        | Some old \<Rightarrow> (None, w\<lparr>tw_rels := (tw_rels w)((ns, n) \<mapsto>
            \<lparr>rl_Status = StatusDeployed, rl_Values = if jobj vs = JObj [] then rl_Values old else vs\<rparr>)\<rparr>))),
      hm_Uninstall = (\<lambda>ns n. State (\<lambda>w. (None, w\<lparr>tw_rels := (tw_rels w)((ns, n) := None)\<rparr>)))\<rparr>"

definition toy_hotplugs :: "(toy_world, Hotplug) client" where
  "toy_hotplugs =
     \<lparr>cl_get = (\<lambda>k. State (\<lambda>w. (case tw_hps w k of None \<Rightarrow> Inl NotFound | Some x \<Rightarrow> Inr x, w))),
      cl_create = (\<lambda>x. State (\<lambda>w. (Some AlreadyExists, w))),
      cl_update = (\<lambda>x. State (\<lambda>w. (Some NotFound, w))),
      cl_status_update = (\<lambda>x. State (\<lambda>w. (None, w\<lparr>tw_hps := (tw_hps w)(([], hp_Name x) \<mapsto> x)\<rparr>))),
      cl_delete = (\<lambda>x. State (\<lambda>w. (Some NotFound, w)))\<rparr>"

definition toy_configmaps :: "(toy_world, ConfigMap) client" where
  "toy_configmaps =
     \<lparr>cl_get = (\<lambda>k. State (\<lambda>w. (Inl NotFound, w))), cl_create = (\<lambda>x. State (\<lambda>w. (None, w))),
      cl_update = (\<lambda>x. State (\<lambda>w. (None, w))), cl_status_update = (\<lambda>x. State (\<lambda>w. (None, w))),
      cl_delete = (\<lambda>x. State (\<lambda>w. (None, w)))\<rparr>"

definition toy_reconciler :: "toy_world HotplugReconciler" where
  "toy_reconciler = \<lparr>hr_Client = toy_hotplugs, hr_ConfigMaps = toy_configmaps, hr_helm = toy_helm, hr_yaml = toy_yaml,
     hr_isMemberCluster = True, hr_Cluster = ''c'', hr_CubeNamespace = ''kube''\<rparr>"

lemma toy_reconciler_world: "hotplug_world toy_reconciler (\<lambda>w. w) tw_hps tw_rels"
  unfolding hotplug_world_def helm_ok_def helm_reads_def helm_installs_def helm_upgrades_def helm_uninstalls_def reads_def
  by (auto simp: toy_reconciler_def toy_hotplugs_def toy_configmaps_def toy_helm_def split: option.splits)

lemma toy_yaml_wf: "yaml_wf toy_yaml"
  by (auto simp: yaml_wf_def YamlStringToJson_def toy_yaml_def jobj_def split: if_splits)

definition toy_common :: Hotplug where
  "toy_common = \<lparr>hp_Name = common_hotplug, hp_Annotations = None,
     hp_Component = [\<lparr>cc_Name = ''audit'', cc_Namespace = ''ns'', cc_Status = enabled, cc_PkgName = ''p'', cc_Env = ''a''\<rparr>,
                     \<lparr>cc_Name = ''log'', cc_Namespace = ''ns'', cc_Status = ''disabled'', cc_PkgName = ''p'', cc_Env = ''a''\<rparr>],
     hp_Phase = [], hp_Results = []\<rparr>"

definition toy_start :: toy_world where
  "toy_start = \<lparr>tw_hps = [([], common_hotplug) \<mapsto> toy_common],
     tw_rels = [(''ns'', ''log'') \<mapsto> \<lparr>rl_Status = StatusDeployed, rl_Values = None\<rparr>]\<rparr>"

theorem Reconcile_hotplug_deploys_witness:
  "\<exists>w' y. run_state (Reconcile_hotplug toy_reconciler common_hotplug) toy_start = (None, w') \<and>
     tw_hps w' ([], common_hotplug) = Some y \<and> hp_Phase y = success \<and>
     (\<forall>c \<in> set (hp_Component toy_common). deployed_as toy_yaml c (tw_rels w' (component_key c)))"
proof -
  obtain w' where run: "run_state (Reconcile_hotplug toy_reconciler common_hotplug) toy_start = (None, w')"
      and ph: "\<exists>y. tw_hps w' ([], common_hotplug) = Some y \<and> hp_Phase y = success"
    by (simp add: Reconcile_hotplug_def hotplug_configs_def toy_reconciler_def toy_hotplugs_def toy_start_def toy_common_def
        common_hotplug_def MergeHotplug_def merge_component_def convertYaml_def empty_hotplug_def toy_yaml_def Let_def
        deploy_component_def install_release_def uninstall_release_def toy_helm_def YamlStringToJson_def
        StatusDeployed_def StatusUninstalled_def enabled_def addSuccessResult_def success_def fail_def)
  have comps: "hp_Component toy_common = hp_Component (MergeHotplug (hr_yaml toy_reconciler) toy_common
      (cluster_hotplug (tw_hps toy_start) (hr_Cluster toy_reconciler)))"
    by (simp add: toy_reconciler_def toy_start_def toy_common_def common_hotplug_def MergeHotplug_def merge_component_def
        cluster_hotplug_def convertYaml_def empty_hotplug_def toy_yaml_def)
  from ph run Reconcile_hotplug_deploys [OF toy_reconciler_world _ _ _ _ _ comps _ _ run] toy_yaml_wf show ?thesis
    by (auto simp: toy_reconciler_def toy_start_def toy_common_def common_hotplug_def hotplugs_named_def releases_wf_def
        component_key_def jobj_def split: if_splits)
qed

end
