(* ===== verification/QuotaBase.thy ===== *)
theory QuotaBase
  imports KubeApi
begin

section \<open>Quota data: pkg/apis/quota/v1 and pkg/quota\<close>

text \<open>
  The cube resource quota of \<open>pkg/apis/quota/v1/cuberesourcequota_types.go\<close>, the helpers of
  \<open>pkg/quota/utils.go\<close>, and what the two quota operators share: the test whether a change
  stays within the parent, the accounting of one child, and the specification both
  operators are proved against. A \<open>resource.Quantity\<close> is an exact decimal number no finer
  than a nano unit; it is an \<^typ>\<open>int\<close> counting nano units.
\<close>

type_synonym quantity = int
type_synonym resource_list = "(string, quantity) gomap"

record cube_quota_status =
  st_Hard :: resource_list
  st_Used :: resource_list
  st_SubResourceQuotas :: "string list option"

record CubeResourceQuota =
  cq_Name :: string
  cq_UID :: string
  cq_Finalizers :: "string list"
  cq_DeletionTimestamp :: "int option"
  cq_Hard :: resource_list
  cq_ParentQuota :: string
  cq_TargetName :: string
  cq_TargetKind :: string
  cq_Status :: cube_quota_status

definition NodesPoolObj :: string where "NodesPoolObj = ''NodesPool''"
definition TenantObj :: string where "TenantObj = ''Tenant''"
definition ProjectObj :: string where "ProjectObj = ''Project''"

definition SubFix :: string where "SubFix = ''quota''"
definition Finalizer :: string where "Finalizer = ''finalizers.kubecube.io/quota''"

definition ResourceNames :: "string list" where
  "ResourceNames =
     [''requests.cpu'', ''limits.cpu'', ''requests.memory'', ''limits.memory'',
      ''requests.ephemeral-storage'', ''limits.ephemeral-storage'', ''requests.storage'',
      ''cpu'', ''memory'', ''storage'', ''ephemeral-storage'',
      ''requests.nvidia.com/gpu'', ''pods'']"

definition ZeroQ :: quantity where "ZeroQ = 0"

definition ClearQuotas :: "resource_list \<Rightarrow> resource_list" where
  "ClearQuotas l = map_option (map (\<lambda>(k, _). (k, ZeroQ))) l"

definition Cmp :: "quantity \<Rightarrow> quantity \<Rightarrow> int" where
  "Cmp a b = (if a < b then -1 else if a = b then 0 else 1)"

text \<open>
  Why a quota is refused. The code renders these as sentences; the quantities in the last
  one are the parent's hard and used values and the requested change.
\<close>

datatype reason =
    NoReason
  | NotInParentHard string
  | NotInParentUsed string
  | LessResource string
  | Overloaded string quantity quantity quantity
  | NoNamespace string string

definition isExceed :: "quantity \<Rightarrow> quantity \<Rightarrow> quantity \<Rightarrow> bool" where
  "isExceed parentHard parentUsed changed =
     (let parentUsed' = parentUsed + changed
      in if Cmp parentUsed' parentHard = 1 then True
         else if Cmp parentUsed' ZeroQ = -1 then True
         else False)"

text \<open>
  \<open>ensureValue\<close> on the hard list of the old quota; \<open>None\<close> is a nil quota. It stores a
  zero for a missing resource, which panics when the list itself is nil.
\<close>

definition ensureValue :: "resource_list option \<Rightarrow> string \<Rightarrow> (quantity \<times> resource_list option) go" where
  "ensureValue c key =
     (case c of
        None \<Rightarrow> Ret (ZeroQ, None)
      | Some oHard \<Rightarrow>
          (case gm_get oHard key of
             Some v \<Rightarrow> Ret (v, Some oHard)
           | None \<Rightarrow> go_bind (gm_put oHard key ZeroQ) (\<lambda>h. Ret (ZeroQ, Some h))))"

subsection \<open>One child's contribution\<close>

text \<open>
  The inner loop of \<open>refreshUsedResource\<close>: add the hard values of one child to the
  parent's new used values, for the resources the parent counts.
\<close>

fun add_used :: "string list \<Rightarrow> resource_list \<Rightarrow> resource_list \<Rightarrow> resource_list" where
  "add_used [] hard newParentUsed = newParentUsed"
| "add_used (rs # rss) hard newParentUsed =
     (case gm_get newParentUsed rs of
        None \<Rightarrow> add_used rss hard newParentUsed
      | Some newUsed \<Rightarrow>
          (case gm_get hard rs of
             None \<Rightarrow> add_used rss hard newParentUsed
           | Some rq \<Rightarrow>
               add_used rss hard
                 (map_option (AList.update rs (newUsed + rq)) newParentUsed)))"

subsection \<open>Basic facts\<close>

lemma Cmp_simps [simp]:
  "Cmp a b = 1 \<longleftrightarrow> b < a" "Cmp a b = -1 \<longleftrightarrow> a < b" "Cmp a b = 0 \<longleftrightarrow> a = b"
  by (auto simp: Cmp_def)

lemma isExceed_iff: "isExceed h u c \<longleftrightarrow> h < u + c \<or> u + c < 0"
  by (auto simp: isExceed_def ZeroQ_def Let_def)

lemma distinct_ResourceNames: "distinct ResourceNames"
  by (simp add: ResourceNames_def)

lemma gm_get_ClearQuotas [simp]: "gm_get (ClearQuotas l) k = map_option (\<lambda>_. 0) (gm_get l k)"
proof (cases l)
  case (Some xs)
  have "map_of (map (\<lambda>(k, _). (k, 0 :: int)) xs) k = map_option (\<lambda>_. 0) (map_of xs k)"
    by (induction xs) auto
  with Some show ?thesis by (simp add: ClearQuotas_def ZeroQ_def)
qed (simp add: ClearQuotas_def)

text \<open>The value of a resource, zero when it is missing or the quota is nil.\<close>

definition hard0 :: "resource_list option \<Rightarrow> string \<Rightarrow> quantity" where
  "hard0 c k = (case c of None \<Rightarrow> 0 | Some l \<Rightarrow> (case gm_get l k of None \<Rightarrow> 0 | Some v \<Rightarrow> v))"

definition nil_hard :: "resource_list option \<Rightarrow> bool" where
  "nil_hard c \<longleftrightarrow> c = Some None"

lemma ensureValue_Ret:
  assumes "ensureValue c k = Ret (v, c')"
  shows "v = hard0 c k" and "hard0 c' = hard0 c" and "nil_hard c' = nil_hard c"
  using assms
  by (auto simp: ensureValue_def hard0_def ZeroQ_def nil_hard_def fun_eq_iff go_simps
      gm_put_def split: option.splits if_splits)

lemma ensureValue_not_Panic: "\<not> nil_hard c \<Longrightarrow> ensureValue c k = Panic \<longleftrightarrow> False"
  by (auto simp: ensureValue_def nil_hard_def split: option.splits)

lemma ensureValue_nil [simp]: "ensureValue (Some None) k = Panic"
  by (simp add: ensureValue_def)

text \<open>
  What a change to one resource must satisfy to stay within the parent: a resource the
  parent does not have may not be set, one that it counts must be set, and the parent's used
  value after the change lies between zero and its hard value.
\<close>

definition fits :: "resource_list \<Rightarrow> resource_list \<Rightarrow> resource_list \<Rightarrow> resource_list option \<Rightarrow> string \<Rightarrow> bool" where
  "fits pHard pUsed cHard old rs =
     (case gm_get pHard rs of
        None \<Rightarrow> gm_get cHard rs = None
      | Some h \<Rightarrow>
          (case gm_get pUsed rs of
             None \<Rightarrow> gm_get cHard rs = None
           | Some u \<Rightarrow>
               (case gm_get cHard rs of
                  None \<Rightarrow> False
                | Some c \<Rightarrow> 0 \<le> u + (c - hard0 old rs) \<and> u + (c - hard0 old rs) \<le> h)))"

lemma fits_cong: "hard0 old' = hard0 old \<Longrightarrow> fits p u c old' = fits p u c old"
  by (intro ext) (simp add: fits_def cong: option.case_cong)

subsection \<open>The parent's used values after a refresh\<close>

definition val0 :: "resource_list \<Rightarrow> string \<Rightarrow> quantity" where
  "val0 l k = (case gm_get l k of None \<Rightarrow> 0 | Some v \<Rightarrow> v)"

lemma hard0_Some [simp]: "hard0 (Some l) = val0 l"
  by (simp add: hard0_def val0_def fun_eq_iff)

lemma gm_get_map_update [simp]:
  "gm_get (map_option (AList.update k v) m) j =
   (if m = None then None else if j = k then Some v else gm_get m j)"
  by (cases m) simp_all

lemma gm_get_Some_not_None: "gm_get m k = Some v \<Longrightarrow> m \<noteq> None"
  by (cases m) simp_all

lemma gm_get_add_used:
  "distinct rss \<Longrightarrow>
   gm_get (add_used rss hard used) k =
     map_option (\<lambda>u. if k \<in> set rss then u + val0 hard k else u) (gm_get used k)"
proof (induction rss arbitrary: used)
  case (Cons rs rss)
  show ?case
  proof (cases "gm_get used rs")
    case None
    with Cons show ?thesis by (cases "k = rs") simp_all
  next
    case (Some u)
    with Cons show ?thesis
      by (cases "k = rs"; cases "gm_get hard rs") (simp_all add: val0_def gm_get_Some_not_None)
  qed
qed (simp add: option.map_ident)

lemma add_used_nil [simp]: "add_used rss hard used = None \<longleftrightarrow> used = None"
  by (induction rss arbitrary: used) (auto split: option.splits)

lemma ClearQuotas_nil [simp]: "ClearQuotas l = None \<longleftrightarrow> l = None"
  by (simp add: ClearQuotas_def)

subsection \<open>The interface between an operator and its children\<close>

text \<open>
  Both operators record a child in the parent's status under a printed name, read the
  children back by parsing those names, and add up what they find. \<open>pick\<close> is the
  override by the quota under reconciliation: its new value is used in place of the stored
  one. The locale states what the two implementations promise; the accounting is proved once.
\<close>

definition pick :: "('c \<Rightarrow> 'n) \<Rightarrow> 'c option \<Rightarrow> 'n \<Rightarrow> 'c option" where
  "pick name_of current n =
     (case current of None \<Rightarrow> None | Some c \<Rightarrow> if name_of c = n then Some c else None)"

definition child_of ::
  "(string \<Rightarrow> 'n option) \<Rightarrow> ('c \<Rightarrow> 'n) \<Rightarrow> ('n \<Rightarrow> objkey) \<Rightarrow> (objkey \<Rightarrow> 'c option) \<Rightarrow> 'c option \<Rightarrow> string \<Rightarrow> 'c option" where
  "child_of parse_sub name_of key_of objs current s =
     (case parse_sub s of
        None \<Rightarrow> None
      | Some n \<Rightarrow> (case pick name_of current n of None \<Rightarrow> objs (key_of n) | Some c \<Rightarrow> Some c))"

definition sum_children :: "(string \<Rightarrow> 'c option) \<Rightarrow> ('c \<Rightarrow> resource_list) \<Rightarrow> string list \<Rightarrow> string \<Rightarrow> quantity" where
  "sum_children child hard_of subs k =
     sum_list (map (\<lambda>s. case child s of None \<Rightarrow> 0 | Some c \<Rightarrow> val0 (hard_of c) k) subs)"

lemma sum_children_simps [simp]:
  "sum_children child hard_of [] k = 0"
  "sum_children child hard_of (s # ss) k =
     (case child s of None \<Rightarrow> 0 | Some c \<Rightarrow> val0 (hard_of c) k) + sum_children child hard_of ss k"
  by (simp_all add: sum_children_def)

lemma sum_children_filter:
  "sum_children child hard_of (filter (\<lambda>s. child s \<noteq> None) subs) k = sum_children child hard_of subs k"
  by (induction subs) auto

definition slice_elems :: "'a list option \<Rightarrow> 'a list" where
  "slice_elems xs = (case xs of None \<Rightarrow> [] | Some l \<Rightarrow> l)"

text \<open>What a refresh leaves in the status of the parent, given its list of children.\<close>

definition refreshed_status ::
  "(string \<Rightarrow> resource_list option) \<Rightarrow> string list option \<Rightarrow> cube_quota_status \<Rightarrow> cube_quota_status \<Rightarrow> bool" where
  "refreshed_status child subs st st' \<longleftrightarrow>
     st_Hard st' = st_Hard st \<and>
     st_SubResourceQuotas st' = map_option (filter (\<lambda>s. child s \<noteq> None)) subs \<and>
     (st_Used st' = None \<longleftrightarrow> st_Used st = None) \<and>
     (\<forall>k. gm_get (st_Used st') k = map_option (\<lambda>_.
        if k \<in> set ResourceNames
        then sum_list (map (\<lambda>s. case child s of None \<Rightarrow> 0 | Some h \<Rightarrow> val0 h k) (slice_elems subs)) else 0)
        (gm_get (st_Used st) k))"

lemma sum_children_hard:
  "sum_children child hard_of subs k =
   sum_list (map (\<lambda>s. case map_option hard_of (child s) of None \<Rightarrow> 0 | Some h \<Rightarrow> val0 h k) subs)"
  by (induction subs) (auto split: option.splits)

locale quota_children =
  fixes print_sub :: "'n \<Rightarrow> string"
    and parse_sub :: "string \<Rightarrow> 'n option"
    and valid_name :: "'n \<Rightarrow> bool"
    and key_of :: "'n \<Rightarrow> objkey"
    and name_of :: "'c \<Rightarrow> 'n"
    and hard_of :: "'c \<Rightarrow> resource_list"
    and fetch :: "('w, 'c) client \<Rightarrow> string \<Rightarrow> ('w, 'c result \<times> 'n) state"
    and loop :: "('w, 'c) client \<Rightarrow> 'c option \<Rightarrow> string list \<Rightarrow> string list option \<Rightarrow> resource_list
                  \<Rightarrow> ('w, (string list option \<times> resource_list) result) state"
  assumes parse_print: "valid_name n \<Longrightarrow> parse_sub (print_sub n) = Some n"
    and fetch_parsed: "parse_sub s = Some n \<Longrightarrow>
          run_state (fetch cli s) w = (case run_state (cl_get cli (key_of n)) w of (r, w') \<Rightarrow> ((r, n), w'))"
    and fetch_invalid: "parse_sub s = None \<Longrightarrow> \<exists>m n. run_state (fetch cli s) w = ((Inl (Err m), n), w)"
    and loop_Nil: "run_state (loop cli current [] subs used) w = (Inr (subs, used), w)"
    and loop_Cons: "run_state (loop cli current (s # rng) subs used) w =
          (case run_state (fetch cli s) w of ((r, n), w') \<Rightarrow>
             (case r of
                Inl e \<Rightarrow>
                  if e \<noteq> NotFound then (Inl e, w')
                  else (case pick name_of current n of
                          None \<Rightarrow> run_state (loop cli current rng (map_option (\<lambda>l. RemoveString l s) subs) used) w'
                        | Some c \<Rightarrow> run_state (loop cli current rng subs (add_used ResourceNames (hard_of c) used)) w')
              | Inr x \<Rightarrow>
                  (case pick name_of current n of
                     None \<Rightarrow> run_state (loop cli current rng subs (add_used ResourceNames (hard_of x) used)) w'
                   | Some c \<Rightarrow> run_state (loop cli current rng subs (add_used ResourceNames (hard_of c) used)) w')))"
begin

lemma print_inj: "valid_name m \<Longrightarrow> valid_name n \<Longrightarrow> print_sub m = print_sub n \<longleftrightarrow> m = n"
  by (metis option.inject parse_print)

lemma loop_step:
  assumes "reads cli view objs"
    and "run_state (loop cli current (s # rng) subs used) w = (Inr res, w')"
  shows "\<exists>w1. view w1 = view w \<and>
    run_state (loop cli current rng
      (case child_of parse_sub name_of key_of (objs (view w)) current s of
         None \<Rightarrow> map_option (\<lambda>l. RemoveString l s) subs | Some _ \<Rightarrow> subs)
      (case child_of parse_sub name_of key_of (objs (view w)) current s of
         None \<Rightarrow> used | Some c \<Rightarrow> add_used ResourceNames (hard_of c) used)) w1 = (Inr res, w')"
proof (cases "parse_sub s")
  case None
  from fetch_invalid [OF None] obtain m n where "run_state (fetch cli s) w = ((Inl (Err m), n), w)" by blast
  with assms(2) show ?thesis by (simp add: loop_Cons)
next
  case (Some n)
  obtain r w1 where get: "run_state (cl_get cli (key_of n)) w = (r, w1)" by fastforce
  note view = reads_run [OF assms(1) get]
  have "run_state (fetch cli s) w = ((r, n), w1)" using fetch_parsed [OF Some] get by simp
  with assms(2) Some view show ?thesis
    by (intro exI [of _ w1])
      (auto simp: loop_Cons child_of_def split: sum.splits option.splits if_splits)
qed

lemma loop_accounts:
  assumes "reads cli view objs"
    and "run_state (loop cli current rng subs used) w = (Inr (subs', used'), w')"
  defines "child \<equiv> child_of parse_sub name_of key_of (objs (view w)) current"
  shows "view w' = view w"
    and "subs' = map_option (filter (\<lambda>s. \<not> (s \<in> set rng \<and> child s = None))) subs"
    and "gm_get used' k =
      map_option (\<lambda>u. if k \<in> set ResourceNames then u + sum_children child hard_of rng k else u) (gm_get used k)"
    and "used' = None \<longleftrightarrow> used = None"
proof -
  have "view w' = view w \<and>
    subs' = map_option (filter (\<lambda>s. \<not> (s \<in> set rng \<and> child s = None))) subs \<and>
    gm_get used' k =
      map_option (\<lambda>u. if k \<in> set ResourceNames then u + sum_children child hard_of rng k else u) (gm_get used k) \<and>
    (used' = None \<longleftrightarrow> used = None)"
    using assms(2) unfolding child_def
  proof (induction rng arbitrary: subs used w)
    case Nil
    then show ?case by (cases "k \<in> set ResourceNames") (simp_all add: loop_Nil option.map_ident)
  next
    case (Cons s rng)
    let ?child = "child_of parse_sub name_of key_of (objs (view w)) current"
    from loop_step [OF assms(1) Cons.prems] obtain w1 where w1: "view w1 = view w"
      "run_state (loop cli current rng
        (case ?child s of None \<Rightarrow> map_option (\<lambda>l. RemoveString l s) subs | Some _ \<Rightarrow> subs)
        (case ?child s of None \<Rightarrow> used | Some c \<Rightarrow> add_used ResourceNames (hard_of c) used)) w1
       = (Inr (subs', used'), w')" by blast
    from Cons.IH [OF w1(2)] w1(1) show ?case
      by (auto simp: gm_get_add_used distinct_ResourceNames RemoveString_filter option.map_comp
          comp_def fun_eq_iff split: option.splits intro!: option.map_cong filter_cong)
  qed
  then show "view w' = view w"
    and "subs' = map_option (filter (\<lambda>s. \<not> (s \<in> set rng \<and> child s = None))) subs"
    and "gm_get used' k =
      map_option (\<lambda>u. if k \<in> set ResourceNames then u + sum_children child hard_of rng k else u) (gm_get used k)"
    and "used' = None \<longleftrightarrow> used = None"
    by simp_all
qed

lemma loop_refreshed:
  assumes "reads cli view objs"
    and "run_state (loop cli current (slice_elems (st_SubResourceQuotas st)) (st_SubResourceQuotas st)
           (ClearQuotas (st_Used st))) w = (Inr (subs', used'), w')"
  shows "view w' = view w"
    and "refreshed_status (\<lambda>s. map_option hard_of (child_of parse_sub name_of key_of (objs (view w)) current s))
           (st_SubResourceQuotas st) st (st\<lparr>st_SubResourceQuotas := subs', st_Used := used'\<rparr>)"
proof -
  note acc = loop_accounts [OF assms]
  show "view w' = view w" by (rule acc(1))
  have "subs' = map_option (filter (\<lambda>s. child_of parse_sub name_of key_of (objs (view w)) current s \<noteq> None))
          (st_SubResourceQuotas st)"
    by (cases "st_SubResourceQuotas st") (auto simp: acc(2) slice_elems_def intro: filter_cong)
  then show "refreshed_status (\<lambda>s. map_option hard_of (child_of parse_sub name_of key_of (objs (view w)) current s))
           (st_SubResourceQuotas st) st (st\<lparr>st_SubResourceQuotas := subs', st_Used := used'\<rparr>)"
    by (auto simp: refreshed_status_def acc(3,4) option.map_comp comp_def sum_children_hard)
qed

end

end
