(* ===== verification/QuotaCube.thy ===== *)
theory QuotaCube
  imports QuotaBase
begin

section \<open>The cube quota operator: pkg/quota/cube\<close>

text \<open>
  \<open>operator.go\<close> and \<open>populate.go\<close> of \<open>pkg/quota/cube\<close>: cube resource quotas form a
  tree (node pool, tenant, project); the operator decides whether a child fits into its
  parent and keeps the parent's status, the list of children and what they use.
\<close>

record 'w cube_operator =
  co_Client :: "('w, CubeResourceQuota) client"
  co_CurrentQuota :: "CubeResourceQuota option"
  co_OldQuota :: "CubeResourceQuota option"

subsection \<open>Definitions\<close>

definition Parent_cube :: "'w cube_operator \<Rightarrow> ('w, CubeResourceQuota option result go) state" where
  "Parent_cube op =
     (case (case co_CurrentQuota op of None \<Rightarrow> co_OldQuota op | Some c \<Rightarrow> Some c) of
        None \<Rightarrow> State_Monad.return Panic
      | Some q \<Rightarrow>
          let parentName = cq_ParentQuota q
          in if parentName = [] then State_Monad.return (Ret (Inr None))
             else do {
               r \<leftarrow> cl_get (co_Client op) ([], parentName);
               State_Monad.return
                 (Ret (case r of Inl e \<Rightarrow> Inl e | Inr parentQuota \<Rightarrow> Inr (Some parentQuota)))
             })"

fun isTenantKind :: "CubeResourceQuota option list \<Rightarrow> bool" where
  "isTenantKind [] = False"
| "isTenantKind (q # qs) =
     (case q of
        None \<Rightarrow> isTenantKind qs
      | Some q \<Rightarrow> if cq_TargetKind q = TenantObj then True else isTenantKind qs)"

text \<open>The loop of \<open>isExceedParent\<close>; \<open>ensureValue\<close> may store zeros into the old hard list.\<close>

fun isExceedParent_loop_cube ::
  "string list \<Rightarrow> resource_list \<Rightarrow> resource_list \<Rightarrow> resource_list \<Rightarrow> resource_list option \<Rightarrow> (bool \<times> reason) go" where
  "isExceedParent_loop_cube [] pHard pUsed cHard old = Ret (False, NoReason)"
| "isExceedParent_loop_cube (rs # rss) pHard pUsed cHard old =
     (case gm_get pHard rs of
        None \<Rightarrow>
          if gm_has cHard rs then Ret (True, NotInParentHard rs)
          else isExceedParent_loop_cube rss pHard pUsed cHard old
      | Some parentHard \<Rightarrow>
          (case gm_get pUsed rs of
             None \<Rightarrow>
               if gm_has cHard rs then Ret (True, NotInParentUsed rs)
               else isExceedParent_loop_cube rss pHard pUsed cHard old
           | Some parentUsed \<Rightarrow>
               (case gm_get cHard rs of
                  None \<Rightarrow> Ret (True, LessResource rs)
                | Some currentHard \<Rightarrow>
                    go_bind (ensureValue old rs) (\<lambda>(oldHard, old').
                      let changed = currentHard - oldHard
                      in if isExceed parentHard parentUsed changed
                         then Ret (True, Overloaded rs parentHard parentUsed changed)
                         else isExceedParent_loop_cube rss pHard pUsed cHard old'))))"

definition isExceedParent_cube ::
  "CubeResourceQuota option \<Rightarrow> CubeResourceQuota option \<Rightarrow> CubeResourceQuota \<Rightarrow> (bool \<times> reason) go" where
  "isExceedParent_cube current old parent =
     (case current of
        None \<Rightarrow> Panic
      | Some c \<Rightarrow>
          isExceedParent_loop_cube ResourceNames (cq_Hard parent) (st_Used (cq_Status parent))
            (cq_Hard c) (map_option cq_Hard old))"

definition Overload_cube :: "'w cube_operator \<Rightarrow> ('w, (bool \<times> reason) result go) state" where
  "Overload_cube op =
     (if isTenantKind [co_CurrentQuota op, co_OldQuota op]
      then State_Monad.return (Ret (Inr (False, NoReason)))
      else do {
        r \<leftarrow> Parent_cube op;
        State_Monad.return
          (go_bind r (\<lambda>r. case r of
             Inl e \<Rightarrow> Ret (Inl e)
           | Inr None \<Rightarrow> Ret (Inr (False, NoReason))
           | Inr (Some parentQuota) \<Rightarrow>
               go_bind (isExceedParent_cube (co_CurrentQuota op) (co_OldQuota op) parentQuota)
                 (\<lambda>res. Ret (Inr res))))
      })"

definition parse_sub_cube :: "string \<Rightarrow> string option" where
  "parse_sub_cube s =
     (let splitS = Split s ''.''; splitSLen = length splitS
      in if splitSLen < 2 then None else Some (Join (take (splitSLen - 1) splitS) ''.''))"

definition getCubeResourceQuota ::
  "('w, CubeResourceQuota) client \<Rightarrow> string \<Rightarrow> ('w, CubeResourceQuota result \<times> string) state" where
  "getCubeResourceQuota cli s =
     (case parse_sub_cube s of
        None \<Rightarrow> State_Monad.return (Inl (Err (''subResourceQuota name invilde: '' @ s)), [])
      | Some name \<Rightarrow> do {
          r \<leftarrow> cl_get cli ([], name);
          State_Monad.return (r, name)
        })"

text \<open>
  The loop of \<open>refreshUsedResource\<close> over the list of children as it was on entry; the
  arguments are the list the parent keeps and the new used values.
\<close>

fun refresh_loop_cube ::
  "('w, CubeResourceQuota) client \<Rightarrow> CubeResourceQuota option \<Rightarrow> string list \<Rightarrow> string list option \<Rightarrow> resource_list
     \<Rightarrow> ('w, (string list option \<times> resource_list) result) state" where
  "refresh_loop_cube cli current [] subs used = State_Monad.return (Inr (subs, used))"
| "refresh_loop_cube cli current (sub # rng) subs used = do {
     (r, name) \<leftarrow> getCubeResourceQuota cli sub;
     case r of
       Inl e \<Rightarrow>
         if e \<noteq> NotFound then State_Monad.return (Inl e)
         else (case current of
                 Some c \<Rightarrow>
                   if name = cq_Name c
                   then refresh_loop_cube cli current rng subs (add_used ResourceNames (cq_Hard c) used)
                   else refresh_loop_cube cli current rng (map_option (\<lambda>l. RemoveString l sub) subs) used
               | None \<Rightarrow> refresh_loop_cube cli current rng (map_option (\<lambda>l. RemoveString l sub) subs) used)
     | Inr subResourceQuota \<Rightarrow>
         let subResourceQuota =
               (case current of Some c \<Rightarrow> if name = cq_Name c then c else subResourceQuota
                              | None \<Rightarrow> subResourceQuota)
         in refresh_loop_cube cli current rng subs (add_used ResourceNames (cq_Hard subResourceQuota) used)
   }"

definition refreshUsedResource_cube ::
  "CubeResourceQuota option \<Rightarrow> CubeResourceQuota option \<Rightarrow> CubeResourceQuota \<Rightarrow> ('w, CubeResourceQuota) client
     \<Rightarrow> ('w, CubeResourceQuota result) state" where
  "refreshUsedResource_cube current old parent cli =
     (let newParentUsed = ClearQuotas (st_Used (cq_Status parent));
          subs = st_SubResourceQuotas (cq_Status parent)
      in do {
        r \<leftarrow> refresh_loop_cube cli current (slice_elems subs) subs newParentUsed;
        State_Monad.return
          (case r of
             Inl e \<Rightarrow> Inl e
           | Inr (subs', used') \<Rightarrow>
               Inr (parent\<lparr>cq_Status := (cq_Status parent)\<lparr>st_SubResourceQuotas := subs', st_Used := used'\<rparr>\<rparr>))
      })"

definition write_status_cube ::
  "('w, CubeResourceQuota) client \<Rightarrow> string \<Rightarrow> cube_quota_status \<Rightarrow> ('w, err option) state" where
  "write_status_cube cli name status =
     RetryOnConflict DefaultRetry (do {
       r \<leftarrow> cl_get cli ([], name);
       case r of
         Inl e \<Rightarrow> State_Monad.return (Some e)
       | Inr newQuota \<Rightarrow> cl_status_update cli (newQuota\<lparr>cq_Status := status\<rparr>)
     })"

definition sub_name_cube :: "CubeResourceQuota option \<Rightarrow> CubeResourceQuota option \<Rightarrow> string" where
  "sub_name_cube currentQuota oldQuota =
     (case oldQuota of
        Some q \<Rightarrow> cq_Name q @ ''.'' @ SubFix
      | None \<Rightarrow> (case currentQuota of Some q \<Rightarrow> cq_Name q @ ''.'' @ SubFix | None \<Rightarrow> []))"

definition update_subs :: "bool \<Rightarrow> string \<Rightarrow> string list option \<Rightarrow> string list option" where
  "update_subs flush sub subs =
     (if flush then (case subs of None \<Rightarrow> None | Some l \<Rightarrow> Some (RemoveString l sub))
      else (case subs of None \<Rightarrow> Some [sub] | Some l \<Rightarrow> Some (InsertString l sub)))"

definition UpdateParentStatus_cube :: "'w cube_operator \<Rightarrow> bool \<Rightarrow> ('w, err option go) state" where
  "UpdateParentStatus_cube op flush = do {
     r \<leftarrow> Parent_cube op;
     case r of
       Panic \<Rightarrow> State_Monad.return Panic
     | Ret (Inl e) \<Rightarrow> State_Monad.return (Ret (Some e))
     | Ret (Inr None) \<Rightarrow> State_Monad.return (Ret None)
     | Ret (Inr (Some parentQuota)) \<Rightarrow>
         let currentQuota = co_CurrentQuota op; oldQuota = co_OldQuota op;
             sub = sub_name_cube currentQuota oldQuota;
             status = cq_Status parentQuota;
             parentQuota = parentQuota\<lparr>cq_Status :=
               status\<lparr>st_SubResourceQuotas := update_subs flush sub (st_SubResourceQuotas status)\<rparr>\<rparr>
         in do {
           r \<leftarrow> refreshUsedResource_cube currentQuota oldQuota parentQuota (co_Client op);
           case r of
             Inl e \<Rightarrow> State_Monad.return (Ret (Some e))
           | Inr refreshed \<Rightarrow> do {
               e \<leftarrow> write_status_cube (co_Client op) (cq_Name refreshed) (cq_Status refreshed);
               State_Monad.return (Ret e)
             }
         }
   }"

definition InitStatus :: "CubeResourceQuota \<Rightarrow> CubeResourceQuota" where
  "InitStatus current =
     current\<lparr>cq_Status := (cq_Status current)\<lparr>
       st_Hard := cq_Hard current,
       st_Used := Some (map (\<lambda>k. (k, ZeroQ)) (gm_keys (cq_Hard current))),
       st_SubResourceQuotas := Some []\<rparr>\<rparr>"

definition AllowedDel :: "CubeResourceQuota \<Rightarrow> bool" where
  "AllowedDel current =
     (case st_SubResourceQuotas (cq_Status current) of
        None \<Rightarrow> True
      | Some l \<Rightarrow> if length l > 0 then False else True)"

fun AllowedUpdate_loop :: "string list \<Rightarrow> resource_list \<Rightarrow> resource_list \<Rightarrow> bool" where
  "AllowedUpdate_loop [] currentHard oldUsed = True"
| "AllowedUpdate_loop (rs # rss) currentHard oldUsed =
     (case gm_get currentHard rs of
        None \<Rightarrow>
          if gm_has oldUsed rs then False
          else AllowedUpdate_loop rss currentHard oldUsed
      | Some cHard \<Rightarrow>
          (case gm_get oldUsed rs of
             None \<Rightarrow> AllowedUpdate_loop rss currentHard oldUsed
           | Some oUsed \<Rightarrow>
               if Cmp cHard oUsed = -1 then False
               else AllowedUpdate_loop rss currentHard oldUsed))"

definition AllowedUpdate :: "CubeResourceQuota \<Rightarrow> CubeResourceQuota \<Rightarrow> bool" where
  "AllowedUpdate current old =
     AllowedUpdate_loop ResourceNames (cq_Hard current) (st_Used (cq_Status old))"

fun IsRelyOnObj_cube :: "CubeResourceQuota option list \<Rightarrow> bool" where
  "IsRelyOnObj_cube [] = False"
| "IsRelyOnObj_cube (q # qs) =
     (case q of
        None \<Rightarrow> IsRelyOnObj_cube qs
      | Some q \<Rightarrow> if length (cq_UID q) > 0 then True else IsRelyOnObj_cube qs)"

text \<open>Quotas for the examples: a name, a parent, hard values and used values.\<close>

definition sample_quota :: "string \<Rightarrow> string \<Rightarrow> resource_list \<Rightarrow> resource_list \<Rightarrow> CubeResourceQuota" where
  "sample_quota name parent hard used =
     \<lparr>cq_Name = name, cq_UID = ''u'', cq_Finalizers = [Finalizer], cq_DeletionTimestamp = None,
      cq_Hard = hard, cq_ParentQuota = parent, cq_TargetName = name, cq_TargetKind = ProjectObj,
      cq_Status = \<lparr>st_Hard = hard, st_Used = used, st_SubResourceQuotas = None\<rparr>\<rparr>"

subsection \<open>Does a change fit into the parent?\<close>

lemma isExceedParent_loop_cube_fits:
  assumes "\<not> nil_hard old"
  shows "(\<exists>why. isExceedParent_loop_cube rss pHard pUsed cHard old = Ret (True, why)) \<or>
         isExceedParent_loop_cube rss pHard pUsed cHard old = Ret (False, NoReason)"
    and "isExceedParent_loop_cube rss pHard pUsed cHard old = Ret (False, NoReason) \<longleftrightarrow>
         list_all (fits pHard pUsed cHard old) rss"
proof -
  have "((\<exists>why. isExceedParent_loop_cube rss pHard pUsed cHard old = Ret (True, why)) \<or>
         isExceedParent_loop_cube rss pHard pUsed cHard old = Ret (False, NoReason)) \<and>
        (isExceedParent_loop_cube rss pHard pUsed cHard old = Ret (False, NoReason) \<longleftrightarrow>
         list_all (fits pHard pUsed cHard old) rss)"
    using assms
  proof (induction rss arbitrary: old)
    case (Cons rs rss)
    obtain v old' where ens: "ensureValue old rs = Ret (v, old')"
      using ensureValue_not_Panic [OF Cons.prems] by (metis go.exhaust surj_pair)
    note laws = ensureValue_Ret [OF ens]
    with Cons.prems have "\<not> nil_hard old'" by simp
    note IH = Cons.IH [OF Cons.prems] Cons.IH [OF this]
    have "fits pHard pUsed cHard old' = fits pHard pUsed cHard old"
      by (rule fits_cong) (rule laws(2))
    with IH laws(1) ens show ?case
      by (auto simp: fits_def [where rs = rs] gm_has_def isExceed_iff Let_def not_less not_le split: option.splits)
  qed simp
  then show "(\<exists>why. isExceedParent_loop_cube rss pHard pUsed cHard old = Ret (True, why)) \<or>
         isExceedParent_loop_cube rss pHard pUsed cHard old = Ret (False, NoReason)"
    and "isExceedParent_loop_cube rss pHard pUsed cHard old = Ret (False, NoReason) \<longleftrightarrow>
         list_all (fits pHard pUsed cHard old) rss"
    by blast+
qed

lemma AllowedUpdate_loop_iff:
  "AllowedUpdate_loop rss h u \<longleftrightarrow>
   list_all (\<lambda>rs. case gm_get u rs of None \<Rightarrow> True
     | Some used \<Rightarrow> (case gm_get h rs of None \<Rightarrow> False | Some hard \<Rightarrow> used \<le> hard)) rss"
  by (induction rss) (auto simp: gm_has_def not_less split: option.splits)

lemma isExceedParent_loop_nil:
  "isExceedParent_loop_cube rss pHard pUsed cHard (Some None) = Panic \<longleftrightarrow>
   (case dropWhile (\<lambda>rs. gm_get cHard rs = None \<and> (gm_get pHard rs = None \<or> gm_get pUsed rs = None)) rss of
      [] \<Rightarrow> False
    | rs # _ \<Rightarrow> gm_has pHard rs \<and> gm_has pUsed rs \<and> gm_has cHard rs)"
  by (induction rss) (auto simp: gm_has_def split: option.splits)

text \<open>
  C4: the overload test of a cube quota is exact. A quota whose old version has a hard list
  (or none, on creation) is accepted without a reason exactly when every counted resource
  fits into the parent, and is otherwise refused; the test never panics then.
\<close>

theorem isExceedParent_cube_exact:
  assumes "\<not> nil_hard (map_option cq_Hard old)"
  shows "case isExceedParent_cube (Some current) old parent of
      Panic \<Rightarrow> False
    | Ret (exceeded, why) \<Rightarrow>
        (exceeded \<longleftrightarrow>
           list_ex (\<lambda>rs. \<not> fits (cq_Hard parent) (st_Used (cq_Status parent)) (cq_Hard current)
                          (map_option cq_Hard old) rs) ResourceNames)
        \<and> (exceeded \<or> why = NoReason)"
  using isExceedParent_loop_cube_fits [OF assms, of ResourceNames "cq_Hard parent"
      "st_Used (cq_Status parent)" "cq_Hard current"]
  by (auto simp: isExceedParent_cube_def list_all_iff list_ex_iff)

theorem isExceedParent_cube_exact_witness:
  "case isExceedParent_cube (Some (sample_quota ''a'' ''p'' (Some [(''pods'', 3)]) None)) None
          (sample_quota ''p'' [] (Some [(''pods'', 4)]) (Some [(''pods'', 2)])) of
     Panic \<Rightarrow> False | Ret (exceeded, why) \<Rightarrow> exceeded"
  using isExceedParent_cube_exact [of None "sample_quota ''p'' [] (Some [(''pods'', 4)]) (Some [(''pods'', 2)])"
      "sample_quota ''a'' ''p'' (Some [(''pods'', 3)]) None"]
  by (auto simp: nil_hard_def hard0_def sample_quota_def fits_def ResourceNames_def split: go.splits)

subsection \<open>Names of children and the refresh\<close>

definition print_sub_cube :: "string \<Rightarrow> string" where
  "print_sub_cube n = n @ ''.'' @ SubFix"

abbreviation cube_key :: "string \<Rightarrow> objkey" where
  "cube_key n \<equiv> ([], n)"

lemma parse_print_cube [simp]: "parse_sub_cube (print_sub_cube n) = Some n"
proof -
  have "Split (n @ CHR ''.'' # ''quota'') ''.'' = Split n ''.'' @ [''quota'']"
    by (rule Split_snoc_char) simp
  then show ?thesis
    by (auto simp: parse_sub_cube_def print_sub_cube_def SubFix_def Let_def Join_Split Suc_le_eq
        dest: leI)
qed

interpretation cube_children: quota_children print_sub_cube parse_sub_cube "\<lambda>_. True" cube_key
  cq_Name cq_Hard getCubeResourceQuota refresh_loop_cube
proof unfold_locales
  show "run_state (refresh_loop_cube cli current (s # rng) subs used) w =
          (case run_state (getCubeResourceQuota cli s) w of ((r, n), w') \<Rightarrow>
             (case r of
                Inl e \<Rightarrow>
                  if e \<noteq> NotFound then (Inl e, w')
                  else (case pick cq_Name current n of
                          None \<Rightarrow> run_state (refresh_loop_cube cli current rng (map_option (\<lambda>l. RemoveString l s) subs) used) w'
                        | Some c \<Rightarrow> run_state (refresh_loop_cube cli current rng subs (add_used ResourceNames (cq_Hard c) used)) w')
              | Inr x \<Rightarrow>
                  (case pick cq_Name current n of
                     None \<Rightarrow> run_state (refresh_loop_cube cli current rng subs (add_used ResourceNames (cq_Hard x) used)) w'
                   | Some c \<Rightarrow> run_state (refresh_loop_cube cli current rng subs (add_used ResourceNames (cq_Hard c) used)) w')))"
    for cli current s rng subs used w
    by (auto simp: pick_def split: prod.split sum.split option.split)
qed (auto simp: getCubeResourceQuota_def split: prod.splits)

abbreviation cube_child :: "(objkey \<Rightarrow> CubeResourceQuota option) \<Rightarrow> CubeResourceQuota option \<Rightarrow> string \<Rightarrow> CubeResourceQuota option" where
  "cube_child \<equiv> child_of parse_sub_cube cq_Name cube_key"

lemma refreshUsedResource_cube_run:
  assumes "reads cli view objs"
    and "run_state (refreshUsedResource_cube current old parent cli) w = (Inr p', w')"
  shows "view w' = view w" and "cq_Name p' = cq_Name parent"
    and "refreshed_status (\<lambda>s. map_option cq_Hard (cube_child (objs (view w)) current s))
           (st_SubResourceQuotas (cq_Status parent)) (cq_Status parent) (cq_Status p')"
proof -
  let ?st = "cq_Status parent"
  from assms(2) obtain subs' used' where
    loop: "run_state (refresh_loop_cube cli current (slice_elems (st_SubResourceQuotas ?st))
             (st_SubResourceQuotas ?st) (ClearQuotas (st_Used ?st))) w = (Inr (subs', used'), w')"
    and p': "p' = parent\<lparr>cq_Status := ?st\<lparr>st_SubResourceQuotas := subs', st_Used := used'\<rparr>\<rparr>"
    by (auto simp: refreshUsedResource_cube_def Let_def split: prod.splits sum.splits)
  with cube_children.loop_refreshed [OF assms(1) loop]
  show "view w' = view w" "cq_Name p' = cq_Name parent"
    "refreshed_status (\<lambda>s. map_option cq_Hard (cube_child (objs (view w)) current s))
       (st_SubResourceQuotas ?st) ?st (cq_Status p')"
    by simp_all
qed

text \<open>
  The pivot store of cube quotas as the operator relies on it: the client reads and writes
  status as the API documents; \<open>named\<close> says that every object is stored under its name.
\<close>

definition cube_set_status :: "CubeResourceQuota \<Rightarrow> CubeResourceQuota \<Rightarrow> CubeResourceQuota" where
  "cube_set_status y x = y\<lparr>cq_Status := cq_Status x\<rparr>"

definition cube_store ::
  "('w, CubeResourceQuota) client \<Rightarrow> ('w \<Rightarrow> 'v) \<Rightarrow> ('v \<Rightarrow> objkey \<Rightarrow> CubeResourceQuota option) \<Rightarrow> bool" where
  "cube_store cli view objs \<longleftrightarrow>
     reads cli view objs \<and>
     writes_status cli (\<lambda>q. cube_key (cq_Name q)) cube_set_status (\<lambda>w. objs (view w))"

definition named :: "(objkey \<Rightarrow> CubeResourceQuota option) \<Rightarrow> bool" where
  "named m \<longleftrightarrow> (\<forall>n q. m (cube_key n) = Some q \<longrightarrow> cq_Name q = n)"

lemma write_status_attempt:
  assumes "cube_store cli view objs" and "named (objs (view w))"
    and "run_state (do { r \<leftarrow> cl_get cli (cube_key name);
           case r of Inl e \<Rightarrow> State_Monad.return (Some e)
           | Inr q \<Rightarrow> cl_status_update cli (q\<lparr>cq_Status := st\<rparr>) }) w = (e, w')"
  shows "e = None \<Longrightarrow> \<exists>q. objs (view w) (cube_key name) = Some q \<and>
           objs (view w') = (objs (view w))(cube_key name \<mapsto> q\<lparr>cq_Status := st\<rparr>)"
    and "e \<noteq> None \<Longrightarrow> objs (view w') = objs (view w)"
proof -
  have rd: "reads cli view objs"
    and wr: "writes_status cli (\<lambda>q. cube_key (cq_Name q)) cube_set_status (\<lambda>w. objs (view w))"
    and nm: "\<And>n q. objs (view w) (cube_key n) = Some q \<Longrightarrow> cq_Name q = n"
    using assms(1,2) by (auto simp: cube_store_def named_def)
  obtain r w1 where get: "run_state (cl_get cli (cube_key name)) w = (r, w1)" by fastforce
  note view = reads_run [OF rd get]
  have "(e = None \<longrightarrow> (\<exists>q. objs (view w) (cube_key name) = Some q \<and>
           objs (view w') = (objs (view w))(cube_key name \<mapsto> q\<lparr>cq_Status := st\<rparr>))) \<and>
        (e \<noteq> None \<longrightarrow> objs (view w') = objs (view w))"
  proof (cases r)
    case (Inl e')
    with get assms(3) view(1) show ?thesis by auto
  next
    case (Inr q)
    with get assms(3) have upd: "run_state (cl_status_update cli (q\<lparr>cq_Status := st\<rparr>)) w1 = (e, w')" by simp
    from view(2) [OF Inr] nm have "cq_Name q = name" by blast
    with writes_status_run [OF wr upd] view(1) view(2) [OF Inr] show ?thesis
      by (auto simp: cube_set_status_def)
  qed
  then show "e = None \<Longrightarrow> \<exists>q. objs (view w) (cube_key name) = Some q \<and>
           objs (view w') = (objs (view w))(cube_key name \<mapsto> q\<lparr>cq_Status := st\<rparr>)"
    and "e \<noteq> None \<Longrightarrow> objs (view w') = objs (view w)" by blast+
qed

lemma write_status_cube_run:
  assumes "cube_store cli view objs" and "named (objs (view w))"
    and "run_state (write_status_cube cli name st) w = (None, w')"
  shows "\<exists>q. objs (view w) (cube_key name) = Some q \<and>
           objs (view w') = (objs (view w))(cube_key name \<mapsto> q\<lparr>cq_Status := st\<rparr>)"
proof -
  let ?fn = "do { r \<leftarrow> cl_get cli (cube_key name);
           case r of Inl e \<Rightarrow> State_Monad.return (Some e)
           | Inr q \<Rightarrow> cl_status_update cli (q\<lparr>cq_Status := st\<rparr>) }"
  from assms(3) have "run_state (RetryOnConflict DefaultRetry ?fn) w = (None, w')"
    by (simp add: write_status_cube_def)
  then have "\<exists>v. objs (view v) = objs (view w) \<and> run_state ?fn v = (None, w')"
  proof (rule RetryOnConflict_success)
    show "objs (view v') = objs (view w)"
      if "objs (view v) = objs (view w)" and "run_state ?fn v = (Some Conflict, v')" for v v'
      using write_status_attempt(2) [OF assms(1) _ that(2)] that(1) assms(2) by simp
  qed simp_all
  then obtain v where v: "objs (view v) = objs (view w)" "run_state ?fn v = (None, w')" by blast
  then show ?thesis using write_status_attempt(1) [OF assms(1) _ v(2)] assms(2) by simp
qed

lemma sub_name_cube_print:
  "sub_name_cube current old =
     (case old of Some q \<Rightarrow> print_sub_cube (cq_Name q)
      | None \<Rightarrow> (case current of Some q \<Rightarrow> print_sub_cube (cq_Name q) | None \<Rightarrow> []))"
  by (simp add: sub_name_cube_def print_sub_cube_def split: option.splits)

lemma Parent_cube_run:
  assumes "reads (co_Client op) view objs" and "run_state (Parent_cube op) w = (r, w')"
  shows "view w' = view w"
    and "r = Ret (Inr (Some p)) \<Longrightarrow> \<exists>q. (co_CurrentQuota op = Some q \<or> co_CurrentQuota op = None \<and> co_OldQuota op = Some q)
           \<and> objs (view w) (cube_key (cq_ParentQuota q)) = Some p"
  using assms(2) reads_run [OF assms(1)]
  by (auto simp: Parent_cube_def Let_def split: option.splits if_splits prod.splits sum.splits)

lemma UpdateParentStatus_cube_run:
  assumes "cube_store cli view objs" and "named (objs (view w))"
    and "run_state (UpdateParentStatus_cube \<lparr>co_Client = cli, co_CurrentQuota = Some q, co_OldQuota = None\<rparr> flush) w
         = (Ret None, w')"
  shows "if cq_ParentQuota q = [] then view w' = view w
         else \<exists>p st'. objs (view w) (cube_key (cq_ParentQuota q)) = Some p \<and>
           objs (view w') = (objs (view w))(cube_key (cq_ParentQuota q) \<mapsto> p\<lparr>cq_Status := st'\<rparr>) \<and>
           refreshed_status (\<lambda>s. map_option cq_Hard (cube_child (objs (view w)) (Some q) s))
             (update_subs flush (print_sub_cube (cq_Name q)) (st_SubResourceQuotas (cq_Status p)))
             (cq_Status p) st'"
proof -
  let ?op = "\<lparr>co_Client = cli, co_CurrentQuota = Some q, co_OldQuota = None\<rparr>"
  have rd: "reads cli view objs"
    and nm: "\<And>n q. objs (view w) (cube_key n) = Some q \<Longrightarrow> cq_Name q = n"
    using assms(1,2) by (auto simp: cube_store_def named_def)
  show ?thesis
  proof (cases "cq_ParentQuota q = []")
    case True
    with assms(3) show ?thesis by (simp add: UpdateParentStatus_cube_def Parent_cube_def)
  next
    case False
    obtain r w1 where par: "run_state (Parent_cube ?op) w = (r, w1)" by fastforce
    with False assms(3) obtain p where r: "r = Ret (Inr (Some p))"
      by (auto simp: UpdateParentStatus_cube_def Parent_cube_def Let_def split: prod.splits sum.splits)
    from Parent_cube_run [of ?op view objs, OF _ par] rd r
    have v1: "view w1 = view w" and p: "objs (view w) (cube_key (cq_ParentQuota q)) = Some p" by auto
    let ?p1 = "p\<lparr>cq_Status := (cq_Status p)\<lparr>st_SubResourceQuotas :=
        update_subs flush (print_sub_cube (cq_Name q)) (st_SubResourceQuotas (cq_Status p))\<rparr>\<rparr>"
    from assms(3) par r obtain p2 w2 where
      ref: "run_state (refreshUsedResource_cube (Some q) None ?p1 cli) w1 = (Inr p2, w2)"
      and wr: "run_state (write_status_cube cli (cq_Name p2) (cq_Status p2)) w2 = (None, w')"
      by (auto simp: UpdateParentStatus_cube_def Let_def sub_name_cube_print split: prod.splits sum.splits)
    note ref' = refreshUsedResource_cube_run [OF rd ref]
    have "objs (view w2) = objs (view w)" using ref'(1) v1 by simp
    moreover have "cq_Name p2 = cq_ParentQuota q" using ref'(2) nm [OF p] by simp
    ultimately have "objs (view w') = (objs (view w))(cube_key (cq_ParentQuota q) \<mapsto> p\<lparr>cq_Status := cq_Status p2\<rparr>)"
      using write_status_cube_run [OF assms(1) _ wr] assms(2) p by auto
    moreover have "refreshed_status (\<lambda>s. map_option cq_Hard (cube_child (objs (view w)) (Some q) s))
        (update_subs flush (print_sub_cube (cq_Name q)) (st_SubResourceQuotas (cq_Status p)))
        (cq_Status p) (cq_Status p2)"
      using ref'(3) v1 by (simp add: refreshed_status_def)
    ultimately show ?thesis using False p by auto
  qed
qed

text \<open>The list of children with one inserted at the end, if it is not there, or taken out.\<close>

definition recorded :: "bool \<Rightarrow> string \<Rightarrow> string list \<Rightarrow> string list" where
  "recorded flush s xs = (if flush then filter (\<lambda>x. x \<noteq> s) xs else if s \<in> set xs then xs else xs @ [s])"

lemma update_subs_elems: "slice_elems (update_subs flush s S) = recorded flush s (slice_elems S)"
  by (simp add: update_subs_def recorded_def slice_elems_def InsertString_eq RemoveString_filter split: option.splits)

text \<open>
  C3: reconciling a cube quota keeps the books of its parent. When the update of the parent
  of a reconciled quota (no old version) succeeds, either the quota has no parent and nothing
  the store holds has changed, or only the parent's status has: its list of children is the
  old list with this quota inserted (or removed, on flush) less the children that are gone,
  and each counted resource is used by the sum of the hard values of the listed children,
  where this quota counts with its new values.
\<close>

theorem UpdateParentStatus_cube_accounts:
  assumes "cube_store cli view objs" and "named (objs (view w))"
    and "run_state (UpdateParentStatus_cube \<lparr>co_Client = cli, co_CurrentQuota = Some q, co_OldQuota = None\<rparr> flush) w
         = (Ret None, w')"
  shows "if cq_ParentQuota q = [] then view w' = view w
         else \<exists>p st'. objs (view w) (cube_key (cq_ParentQuota q)) = Some p \<and>
           objs (view w') = (objs (view w))(cube_key (cq_ParentQuota q) \<mapsto> p\<lparr>cq_Status := st'\<rparr>) \<and>
           (\<exists>S. slice_elems S = recorded flush (cq_Name q @ ''.quota'') (slice_elems (st_SubResourceQuotas (cq_Status p))) \<and>
              refreshed_status (\<lambda>s. map_option cq_Hard (cube_child (objs (view w)) (Some q) s)) S (cq_Status p) st')"
proof -
  have "slice_elems (update_subs flush (print_sub_cube (cq_Name q)) S) = recorded flush (cq_Name q @ ''.quota'') (slice_elems S)" for S
    by (simp add: update_subs_elems print_sub_cube_def SubFix_def)
  with UpdateParentStatus_cube_run [OF assms] show ?thesis by (cases "cq_ParentQuota q = []") auto
qed

lemma cube_store_client:
  "cube_store (store_client (\<lambda>q. cube_key (cq_Name q)) cube_set_status) (\<lambda>w. w) (\<lambda>w. w)"
  by (simp add: cube_store_def store_client_reads store_client_writes_status)

abbreviation sample_cubes :: "objkey \<Rightarrow> CubeResourceQuota option" where
  "sample_cubes \<equiv>
     [cube_key ''p'' \<mapsto> sample_quota ''p'' [] (Some [(''pods'', 9)]) (Some [(''pods'', 2)]),
      cube_key ''a'' \<mapsto> sample_quota ''a'' ''p'' (Some [(''pods'', 3)]) None]"

lemma sample_cubes_update:
  "run_state (UpdateParentStatus_cube
     \<lparr>co_Client = store_client (\<lambda>q. cube_key (cq_Name q)) cube_set_status,
      co_CurrentQuota = Some (sample_quota ''a'' ''p'' (Some [(''pods'', 3)]) None), co_OldQuota = None\<rparr> False)
     sample_cubes =
   (Ret None, sample_cubes(cube_key ''p'' \<mapsto>
      (sample_quota ''p'' [] (Some [(''pods'', 9)]) (Some [(''pods'', 2)]))
        \<lparr>cq_Status := \<lparr>st_Hard = Some [(''pods'', 9)], st_Used = Some [(''pods'', 3)],
           st_SubResourceQuotas = Some [''a.quota'']\<rparr>\<rparr>))"
  by (simp add: UpdateParentStatus_cube_def Parent_cube_def sample_quota_def update_subs_def
      sub_name_cube_def SubFix_def refreshUsedResource_cube_def slice_elems_def getCubeResourceQuota_def
      parse_sub_cube_def Split_def HasPrefix_def Let_def ClearQuotas_def ZeroQ_def ResourceNames_def
      write_status_cube_def DefaultRetry_def eval_nat_numeral cube_set_status_def fun_eq_iff)

theorem UpdateParentStatus_cube_accounts_witness:
  "\<exists>p st' S. sample_cubes (cube_key ''p'') = Some p \<and> slice_elems S = [''a.quota''] \<and>
     refreshed_status (\<lambda>s. map_option cq_Hard (cube_child sample_cubes
        (Some (sample_quota ''a'' ''p'' (Some [(''pods'', 3)]) None)) s))
       S (cq_Status p) st' \<and> gm_get (st_Used st') ''pods'' = Some 3"
proof -
  let ?q = "sample_quota ''a'' ''p'' (Some [(''pods'', 3)]) None"
  have n: "named sample_cubes" by (auto simp: named_def sample_quota_def)
  have pq: "cq_ParentQuota ?q = ''p''" "cq_Name ?q = ''a''" by (simp_all add: sample_quota_def)
  from UpdateParentStatus_cube_accounts [where view = "\<lambda>w. w" and objs = "\<lambda>w. w", OF cube_store_client n sample_cubes_update]
  obtain p st' S where p: "sample_cubes (cube_key ''p'') = Some p"
    and st: "sample_cubes(cube_key ''p'' \<mapsto> (sample_quota ''p'' [] (Some [(''pods'', 9)]) (Some [(''pods'', 2)]))
        \<lparr>cq_Status := \<lparr>st_Hard = Some [(''pods'', 9)], st_Used = Some [(''pods'', 3)],
           st_SubResourceQuotas = Some [''a.quota'']\<rparr>\<rparr>) = sample_cubes(cube_key ''p'' \<mapsto> p\<lparr>cq_Status := st'\<rparr>)"
    and S: "slice_elems S = recorded False ''a.quota'' (slice_elems (st_SubResourceQuotas (cq_Status p)))"
    and ref: "refreshed_status (\<lambda>s. map_option cq_Hard (cube_child sample_cubes (Some ?q) s)) S (cq_Status p) st'"
    unfolding pq by (auto simp only: list.simps if_False append.simps)
  from p have "st_SubResourceQuotas (cq_Status p) = None" by (auto simp: sample_quota_def)
  then have "slice_elems S = [''a.quota'']" using S by (simp add: recorded_def slice_elems_def)
  moreover have "st' = cq_Status (the ((sample_cubes(cube_key ''p'' \<mapsto> p\<lparr>cq_Status := st'\<rparr>)) (cube_key ''p'')))"
    by simp
  then have "gm_get (st_Used st') ''pods'' = Some 3" unfolding st [symmetric] by simp
  ultimately show ?thesis using p ref by blast
qed

end
