(* ===== verification/QuotaK8s.thy ===== *)
theory QuotaK8s
  imports QuotaCube
begin

section \<open>The namespace quota operator: pkg/quota/k8s\<close>

text \<open>
  \<open>operator.go\<close> and \<open>populate.go\<close> of \<open>pkg/quota/k8s\<close>: a \<open>ResourceQuota\<close> of a member
  cluster is a leaf of the quota tree. Its parent is the cube quota that its label names, on
  the pivot cluster; its siblings and its namespace are read from the local cluster.
\<close>

record ResourceQuota =
  rq_Name :: string
  rq_Namespace :: string
  rq_UID :: string
  rq_Labels :: "(string, string) gomap"
  rq_Finalizers :: "string list"
  rq_DeletionTimestamp :: "int option"
  rq_Hard :: resource_list

record namespace_obj =
  ns_Labels :: "(string, string) gomap"

definition CubeQuotaLabel :: string where
  "CubeQuotaLabel = ''kubecube.io/quota''"

text \<open>
  The operator's fields. The local client reads two kinds of object, so it is a client per
  kind; \<open>ko_DetachedKey\<close> is the value of \<open>env.DetachedNamespaceLabelKey()\<close>.
\<close>

record 'w k8s_operator =
  ko_PivotClient :: "('w, CubeResourceQuota) client"
  ko_LocalClient :: "('w, ResourceQuota) client"
  ko_Namespaces :: "('w, namespace_obj) client"
  ko_DetachedKey :: string
  ko_CurrentQuota :: "ResourceQuota option"
  ko_OldQuota :: "ResourceQuota option"

subsection \<open>Definitions\<close>

definition Parent_k8s :: "'w k8s_operator \<Rightarrow> ('w, CubeResourceQuota option result go) state" where
  "Parent_k8s op =
     (case (case ko_CurrentQuota op of None \<Rightarrow> ko_OldQuota op | Some c \<Rightarrow> Some c) of
        None \<Rightarrow> State_Monad.return Panic
      | Some q \<Rightarrow>
          (case gm_get (rq_Labels q) CubeQuotaLabel of
             None \<Rightarrow> State_Monad.return (Ret (Inr None))
           | Some parentName \<Rightarrow>
               if parentName = [] then State_Monad.return (Ret (Inr None))
               else do {
                 r \<leftarrow> cl_get (ko_PivotClient op) ([], parentName);
                 State_Monad.return
                   (Ret (case r of Inl e \<Rightarrow> Inl e | Inr parentQuota \<Rightarrow> Inr (Some parentQuota)))
               }))"

definition allowQuotaUnsetField :: "'w k8s_operator \<Rightarrow> ResourceQuota \<Rightarrow> ('w, bool result) state" where
  "allowQuotaUnsetField op current =
     (let labelKey = ko_DetachedKey op
      in if labelKey = [] then State_Monad.return (Inr False)
         else do {
           r \<leftarrow> cl_get (ko_Namespaces op) ([], rq_Namespace current);
           State_Monad.return
             (case r of
                Inl e \<Rightarrow> Inl e
              | Inr ns \<Rightarrow> Inr (if gm_has (ns_Labels ns) labelKey then True else False))
         })"

fun isExceedParent_loop_k8s ::
  "bool \<Rightarrow> string list \<Rightarrow> resource_list \<Rightarrow> resource_list \<Rightarrow> resource_list \<Rightarrow> resource_list option \<Rightarrow> (bool \<times> reason) go" where
  "isExceedParent_loop_k8s allowedUnsetField [] pHard pUsed cHard old = Ret (False, NoReason)"
| "isExceedParent_loop_k8s allowedUnsetField (rs # rss) pHard pUsed cHard old =
     (case gm_get pHard rs of
        None \<Rightarrow>
          if gm_has cHard rs then Ret (True, NotInParentHard rs)
          else isExceedParent_loop_k8s allowedUnsetField rss pHard pUsed cHard old
      | Some parentHard \<Rightarrow>
          (case gm_get pUsed rs of
             None \<Rightarrow>
               if gm_has cHard rs then Ret (True, NotInParentUsed rs)
               else isExceedParent_loop_k8s allowedUnsetField rss pHard pUsed cHard old
           | Some parentUsed \<Rightarrow>
               (case gm_get cHard rs of
                  None \<Rightarrow>
                    if allowedUnsetField then Ret (False, NoReason)
                    else Ret (True, LessResource rs)
                | Some currentHard \<Rightarrow>
                    go_bind (ensureValue old rs) (\<lambda>(oldHard, old').
                      let changed = currentHard - oldHard
                      in if isExceed parentHard parentUsed changed
                         then Ret (True, Overloaded rs parentHard parentUsed changed)
                         else isExceedParent_loop_k8s allowedUnsetField rss pHard pUsed cHard old'))))"

definition isExceedParent_k8s :: "'w k8s_operator \<Rightarrow> CubeResourceQuota \<Rightarrow> ('w, (bool \<times> reason) go) state" where
  "isExceedParent_k8s op parent =
     (case ko_CurrentQuota op of
        None \<Rightarrow> State_Monad.return Panic
      | Some current \<Rightarrow> do {
          r \<leftarrow> allowQuotaUnsetField op current;
          State_Monad.return
            (case r of
               Inl e \<Rightarrow> Ret (True, NoNamespace (rq_Name current) (rq_Namespace current))
             | Inr allowedUnsetField \<Rightarrow>
                 isExceedParent_loop_k8s allowedUnsetField ResourceNames (cq_Hard parent)
                   (st_Used (cq_Status parent)) (rq_Hard current)
                   (map_option rq_Hard (ko_OldQuota op)))
        })"

definition Overload_k8s :: "'w k8s_operator \<Rightarrow> ('w, (bool \<times> reason) result go) state" where
  "Overload_k8s op = do {
     r \<leftarrow> Parent_k8s op;
     case r of
       Panic \<Rightarrow> State_Monad.return Panic
     | Ret (Inl e) \<Rightarrow> State_Monad.return (Ret (Inl e))
     | Ret (Inr None) \<Rightarrow> State_Monad.return (Ret (Inr (False, NoReason)))
     | Ret (Inr (Some parentQuota)) \<Rightarrow> do {
         res \<leftarrow> isExceedParent_k8s op parentQuota;
         State_Monad.return (go_bind res (\<lambda>res. Ret (Inr res)))
       }
   }"

definition parse_sub_k8s :: "string \<Rightarrow> (string \<times> string) option" where
  "parse_sub_k8s s =
     (let splitS = Split s ''.''; splitSLen = length splitS
      in if splitSLen < 3 then None
         else Some (Join (take (splitSLen - 2) splitS) ''.'', splitS ! (splitSLen - 2)))"

definition getResourceQuota ::
  "('w, ResourceQuota) client \<Rightarrow> string \<Rightarrow> ('w, ResourceQuota result \<times> string \<times> string) state" where
  "getResourceQuota cli s =
     (case parse_sub_k8s s of
        None \<Rightarrow> State_Monad.return (Inl (Err (''subResourceQuota name invilde: '' @ s)), [], [])
      | Some (name, ns) \<Rightarrow> do {
          r \<leftarrow> cl_get cli (ns, name);
          State_Monad.return (r, name, ns)
        })"

fun refresh_loop_k8s ::
  "('w, ResourceQuota) client \<Rightarrow> ResourceQuota option \<Rightarrow> string list \<Rightarrow> string list option \<Rightarrow> resource_list
     \<Rightarrow> ('w, (string list option \<times> resource_list) result) state" where
  "refresh_loop_k8s cli current [] subs used = State_Monad.return (Inr (subs, used))"
| "refresh_loop_k8s cli current (sub # rng) subs used = do {
     (r, name, ns) \<leftarrow> getResourceQuota cli sub;
     case r of
       Inl e \<Rightarrow>
         if e \<noteq> NotFound then State_Monad.return (Inl e)
         else (case current of
                 Some c \<Rightarrow>
                   if name = rq_Name c \<and> ns = rq_Namespace c
                   then refresh_loop_k8s cli current rng subs (add_used ResourceNames (rq_Hard c) used)
                   else refresh_loop_k8s cli current rng (map_option (\<lambda>l. RemoveString l sub) subs) used
               | None \<Rightarrow> refresh_loop_k8s cli current rng (map_option (\<lambda>l. RemoveString l sub) subs) used)
     | Inr subResourceQuota \<Rightarrow>
         let subResourceQuota =
               (case current of
                  Some c \<Rightarrow> if rq_Name c = name \<and> rq_Namespace c = ns then c else subResourceQuota
                | None \<Rightarrow> subResourceQuota)
         in refresh_loop_k8s cli current rng subs (add_used ResourceNames (rq_Hard subResourceQuota) used)
   }"

definition refreshUsedResource_k8s ::
  "ResourceQuota option \<Rightarrow> ResourceQuota option \<Rightarrow> CubeResourceQuota \<Rightarrow> ('w, ResourceQuota) client
     \<Rightarrow> ('w, CubeResourceQuota result) state" where
  "refreshUsedResource_k8s current old parent cli =
     (let newParentUsed = ClearQuotas (st_Used (cq_Status parent));
          subs = st_SubResourceQuotas (cq_Status parent)
      in do {
        r \<leftarrow> refresh_loop_k8s cli current (slice_elems subs) subs newParentUsed;
        State_Monad.return
          (case r of
             Inl e \<Rightarrow> Inl e
           | Inr (subs', used') \<Rightarrow>
               Inr (parent\<lparr>cq_Status := (cq_Status parent)\<lparr>st_SubResourceQuotas := subs', st_Used := used'\<rparr>\<rparr>))
      })"

definition sub_name_k8s :: "ResourceQuota option \<Rightarrow> ResourceQuota option \<Rightarrow> string" where
  "sub_name_k8s currentQuota oldQuota =
     (case oldQuota of
        Some q \<Rightarrow> rq_Name q @ ''.'' @ rq_Namespace q @ ''.'' @ SubFix
      | None \<Rightarrow>
          (case currentQuota of
             Some q \<Rightarrow> rq_Name q @ ''.'' @ rq_Namespace q @ ''.'' @ SubFix
           | None \<Rightarrow> []))"

definition UpdateParentStatus_k8s :: "'w k8s_operator \<Rightarrow> bool \<Rightarrow> ('w, err option go) state" where
  "UpdateParentStatus_k8s op flush = do {
     r \<leftarrow> Parent_k8s op;
     case r of
       Panic \<Rightarrow> State_Monad.return Panic
     | Ret (Inl e) \<Rightarrow> State_Monad.return (Ret (Some e))
     | Ret (Inr None) \<Rightarrow> State_Monad.return (Ret None)
     | Ret (Inr (Some parentQuota)) \<Rightarrow>
         let currentQuota = ko_CurrentQuota op; oldQuota = ko_OldQuota op;
             sub = sub_name_k8s currentQuota oldQuota;
             status = cq_Status parentQuota;
             parentQuota = parentQuota\<lparr>cq_Status :=
               status\<lparr>st_SubResourceQuotas := update_subs flush sub (st_SubResourceQuotas status)\<rparr>\<rparr>
         in do {
           r \<leftarrow> refreshUsedResource_k8s currentQuota oldQuota parentQuota (ko_LocalClient op);
           case r of
             Inl e \<Rightarrow> State_Monad.return (Ret (Some e))
           | Inr refreshed \<Rightarrow> do {
               e \<leftarrow> write_status_cube (ko_PivotClient op) (cq_Name refreshed) (cq_Status refreshed);
               State_Monad.return (Ret e)
             }
         }
   }"

fun IsRelyOnObj_k8s :: "ResourceQuota option list \<Rightarrow> bool" where
  "IsRelyOnObj_k8s [] = False"
| "IsRelyOnObj_k8s (q # qs) =
     (case q of
        None \<Rightarrow> IsRelyOnObj_k8s qs
      | Some q \<Rightarrow> if length (rq_UID q) > 0 then True else IsRelyOnObj_k8s qs)"

text \<open>
  A world for the examples: cube quotas of the pivot, quotas and namespaces of the local
  cluster; each client works on its own part.
\<close>

record k8s_world =
  kw_cubes :: "objkey \<Rightarrow> CubeResourceQuota option"
  kw_quotas :: "objkey \<Rightarrow> ResourceQuota option"
  kw_namespaces :: "objkey \<Rightarrow> namespace_obj option"

definition ns_client :: "(k8s_world, namespace_obj) client" where
  "ns_client =
     \<lparr>cl_get = (\<lambda>k. State (\<lambda>w. (case kw_namespaces w k of None \<Rightarrow> Inl NotFound | Some x \<Rightarrow> Inr x, w))),
      cl_create = (\<lambda>x. State_Monad.return None), cl_update = (\<lambda>x. State_Monad.return None),
      cl_status_update = (\<lambda>x. State_Monad.return None), cl_delete = (\<lambda>x. State_Monad.return None)\<rparr>"

definition rq_client :: "(k8s_world, ResourceQuota) client" where
  "rq_client =
     \<lparr>cl_get = (\<lambda>k. State (\<lambda>w. (case kw_quotas w k of None \<Rightarrow> Inl NotFound | Some x \<Rightarrow> Inr x, w))),
      cl_create = (\<lambda>x. State_Monad.return None), cl_update = (\<lambda>x. State_Monad.return None),
      cl_status_update = (\<lambda>x. State_Monad.return None), cl_delete = (\<lambda>x. State_Monad.return None)\<rparr>"

definition pivot_client :: "(k8s_world, CubeResourceQuota) client" where
  "pivot_client =
     \<lparr>cl_get = (\<lambda>k. State (\<lambda>w. (case kw_cubes w k of None \<Rightarrow> Inl NotFound | Some x \<Rightarrow> Inr x, w))),
      cl_create = (\<lambda>x. State_Monad.return None), cl_update = (\<lambda>x. State_Monad.return None),
      cl_status_update = (\<lambda>x. State (\<lambda>w. case kw_cubes w (cube_key (cq_Name x)) of
         None \<Rightarrow> (Some NotFound, w)
       | Some y \<Rightarrow> (None, w\<lparr>kw_cubes := (kw_cubes w)(cube_key (cq_Name x) \<mapsto> cube_set_status y x)\<rparr>))),
      cl_delete = (\<lambda>x. State_Monad.return None)\<rparr>"

definition sample_rq :: ResourceQuota where
  "sample_rq = \<lparr>rq_Name = ''a'', rq_Namespace = ''n'', rq_UID = ''u'',
     rq_Labels = Some [(CubeQuotaLabel, ''p'')], rq_Finalizers = [], rq_DeletionTimestamp = None,
     rq_Hard = Some [(''pods'', 7)]\<rparr>"

definition sample_k8s_op :: "string \<Rightarrow> k8s_world k8s_operator" where
  "sample_k8s_op key = \<lparr>ko_PivotClient = pivot_client, ko_LocalClient = rq_client, ko_Namespaces = ns_client,
     ko_DetachedKey = key, ko_CurrentQuota = Some sample_rq, ko_OldQuota = None\<rparr>"

definition sample_k8s_world :: k8s_world where
  "sample_k8s_world =
     \<lparr>kw_cubes = [cube_key ''p'' \<mapsto> sample_quota ''p'' [] (Some [(''pods'', 9)]) (Some [(''pods'', 2)])],
      kw_quotas = [(''n'', ''a'') \<mapsto> sample_rq],
      kw_namespaces = [([], ''n'') \<mapsto> \<lparr>ns_Labels = Some [(''d'', ''1'')]\<rparr>]\<rparr>"

subsection \<open>Does a change fit into the parent?\<close>

text \<open>
  The resource at which the test stops early: one the parent counts and the quota leaves
  unset, in a namespace that carries the detached label.
\<close>

definition unset_stop :: "bool \<Rightarrow> resource_list \<Rightarrow> resource_list \<Rightarrow> resource_list \<Rightarrow> string \<Rightarrow> bool" where
  "unset_stop allowed pHard pUsed cHard rs \<longleftrightarrow>
     allowed \<and> gm_has pHard rs \<and> gm_has pUsed rs \<and> \<not> gm_has cHard rs"

lemma isExceedParent_loop_k8s_exact:
  assumes "\<not> nil_hard old"
  shows "\<exists>why. isExceedParent_loop_k8s allowed rss pHard pUsed cHard old =
    Ret (\<not> list_all (fits pHard pUsed cHard old)
              (takeWhile (\<lambda>rs. \<not> unset_stop allowed pHard pUsed cHard rs) rss), why)"
  using assms
proof (induction rss arbitrary: old)
  case (Cons rs rss)
  obtain v old' where ens: "ensureValue old rs = Ret (v, old')"
    using ensureValue_not_Panic [OF Cons.prems] by (metis go.exhaust surj_pair)
  note laws = ensureValue_Ret [OF ens]
  with Cons.prems have "\<not> nil_hard old'" by simp
  note IH = Cons.IH [OF Cons.prems] Cons.IH [OF this]
  have "fits pHard pUsed cHard old' = fits pHard pUsed cHard old"
    by (rule fits_cong) (rule laws(2))
  with IH laws(1) ens show ?case
    by (auto simp: unset_stop_def [where rs = rs] fits_def [where rs = rs] gm_has_def isExceed_iff
        Let_def not_less not_le split: option.splits)
qed simp

text \<open>
  C9: the overload test of a namespace quota is exact up to the first resource that is
  unset and allowed to be. Without the detached label every counted resource must fit into
  the parent; with it, the resources after the first unset one are not looked at.
\<close>

theorem isExceedParent_k8s_exact:
  assumes "ko_CurrentQuota op = Some c"
    and "\<not> nil_hard (map_option rq_Hard (ko_OldQuota op))"
    and "run_state (cl_get (ko_Namespaces op) ([], rq_Namespace c)) w = (Inr ns, w')"
  shows "\<exists>why. run_state (isExceedParent_k8s op parent) w =
    (Ret (\<not> list_all (fits (cq_Hard parent) (st_Used (cq_Status parent)) (rq_Hard c)
                        (map_option rq_Hard (ko_OldQuota op)))
              (takeWhile (\<lambda>rs. \<not> unset_stop (ko_DetachedKey op \<noteq> [] \<and> gm_has (ns_Labels ns) (ko_DetachedKey op))
                                  (cq_Hard parent) (st_Used (cq_Status parent)) (rq_Hard c) rs)
                 ResourceNames), why), if ko_DetachedKey op = [] then w else w')"
proof -
  let ?a = "ko_DetachedKey op \<noteq> [] \<and> gm_has (ns_Labels ns) (ko_DetachedKey op)"
  have "run_state (allowQuotaUnsetField op c) w = (Inr ?a, if ko_DetachedKey op = [] then w else w')"
    using assms(3) by (simp add: allowQuotaUnsetField_def)
  with isExceedParent_loop_k8s_exact [OF assms(2), of ?a] assms(1) show ?thesis
    by (simp add: isExceedParent_k8s_def)
qed

theorem isExceedParent_k8s_exact_witness:
  "fst (run_state (isExceedParent_k8s (sample_k8s_op ''d'') (sample_quota ''p'' []
      (Some [(''requests.cpu'', 1), (''pods'', 1)]) (Some [(''requests.cpu'', 0), (''pods'', 0)])))
     sample_k8s_world) = Ret (False, NoReason)
   \<and> \<not> fits (Some [(''requests.cpu'', 1), (''pods'', 1)]) (Some [(''requests.cpu'', 0), (''pods'', 0)])
        (Some [(''pods'', 7)]) None ''pods''"
proof -
  obtain ns where "run_state (cl_get (ko_Namespaces (sample_k8s_op ''d'')) ([], rq_Namespace sample_rq)) sample_k8s_world
        = (Inr ns, sample_k8s_world)"
    by (simp add: sample_k8s_op_def sample_rq_def sample_k8s_world_def ns_client_def)
  from isExceedParent_k8s_exact [OF _ _ this, where parent = "sample_quota ''p'' []
      (Some [(''requests.cpu'', 1), (''pods'', 1)]) (Some [(''requests.cpu'', 0), (''pods'', 0)])"]
  show ?thesis
    by (simp add: sample_k8s_op_def sample_rq_def nil_hard_def sample_quota_def ResourceNames_def unset_stop_def
        gm_has_def fits_def hard0_def isExceedParent_k8s_def allowQuotaUnsetField_def ns_client_def
        sample_k8s_world_def)
qed

subsection \<open>Names of children and the refresh\<close>

definition print_sub_k8s :: "string \<times> string \<Rightarrow> string" where
  "print_sub_k8s n = fst n @ ''.'' @ snd n @ ''.'' @ SubFix"

definition plain_ns :: "string \<times> string \<Rightarrow> bool" where
  "plain_ns n \<longleftrightarrow> CHR ''.'' \<notin> set (snd n)"

lemma parse_print_k8s:
  assumes "plain_ns n"
  shows "parse_sub_k8s (print_sub_k8s n) = Some n"
proof -
  have "Split ((fst n @ CHR ''.'' # snd n) @ CHR ''.'' # ''quota'') ''.'' =
        Split (fst n @ CHR ''.'' # snd n) ''.'' @ [''quota'']"
    by (rule Split_snoc_char) simp
  also have "Split (fst n @ CHR ''.'' # snd n) ''.'' = Split (fst n) ''.'' @ [snd n]"
    by (rule Split_snoc_char) (use assms in \<open>simp add: plain_ns_def\<close>)
  finally show ?thesis
    by (simp add: parse_sub_k8s_def print_sub_k8s_def SubFix_def Let_def Join_Split nth_append Suc_le_eq
        not_less)
qed

abbreviation rq_key :: "string \<times> string \<Rightarrow> objkey" where
  "rq_key n \<equiv> (snd n, fst n)"

abbreviation rq_id :: "ResourceQuota \<Rightarrow> string \<times> string" where
  "rq_id q \<equiv> (rq_Name q, rq_Namespace q)"

interpretation k8s_children: quota_children print_sub_k8s parse_sub_k8s plain_ns rq_key
  rq_id rq_Hard getResourceQuota refresh_loop_k8s
proof unfold_locales
  show "run_state (refresh_loop_k8s cli current (s # rng) subs used) w =
          (case run_state (getResourceQuota cli s) w of ((r, n), w') \<Rightarrow>
             (case r of
                Inl e \<Rightarrow>
                  if e \<noteq> NotFound then (Inl e, w')
                  else (case pick rq_id current n of
                          None \<Rightarrow> run_state (refresh_loop_k8s cli current rng (map_option (\<lambda>l. RemoveString l s) subs) used) w'
                        | Some c \<Rightarrow> run_state (refresh_loop_k8s cli current rng subs (add_used ResourceNames (rq_Hard c) used)) w')
              | Inr x \<Rightarrow>
                  (case pick rq_id current n of
                     None \<Rightarrow> run_state (refresh_loop_k8s cli current rng subs (add_used ResourceNames (rq_Hard x) used)) w'
                   | Some c \<Rightarrow> run_state (refresh_loop_k8s cli current rng subs (add_used ResourceNames (rq_Hard c) used)) w')))"
    for cli current s rng subs used w
    by (auto simp: pick_def split: prod.split sum.split option.split)
qed (auto simp: getResourceQuota_def parse_print_k8s split: prod.splits)

abbreviation k8s_child :: "(objkey \<Rightarrow> ResourceQuota option) \<Rightarrow> ResourceQuota option \<Rightarrow> string \<Rightarrow> ResourceQuota option" where
  "k8s_child \<equiv> child_of parse_sub_k8s rq_id rq_key"

lemma refreshUsedResource_k8s_run:
  assumes "reads cli view objs"
    and "run_state (refreshUsedResource_k8s current old parent cli) w = (Inr p', w')"
  shows "view w' = view w" and "cq_Name p' = cq_Name parent"
    and "refreshed_status (\<lambda>s. map_option rq_Hard (k8s_child (objs (view w)) current s))
           (st_SubResourceQuotas (cq_Status parent)) (cq_Status parent) (cq_Status p')"
proof -
  let ?st = "cq_Status parent"
  from assms(2) obtain subs' used' where
    loop: "run_state (refresh_loop_k8s cli current (slice_elems (st_SubResourceQuotas ?st))
             (st_SubResourceQuotas ?st) (ClearQuotas (st_Used ?st))) w = (Inr (subs', used'), w')"
    and p': "p' = parent\<lparr>cq_Status := ?st\<lparr>st_SubResourceQuotas := subs', st_Used := used'\<rparr>\<rparr>"
    by (auto simp: refreshUsedResource_k8s_def Let_def split: prod.splits sum.splits)
  with k8s_children.loop_refreshed [OF assms(1) loop]
  show "view w' = view w" "cq_Name p' = cq_Name parent"
    "refreshed_status (\<lambda>s. map_option rq_Hard (k8s_child (objs (view w)) current s))
       (st_SubResourceQuotas ?st) ?st (cq_Status p')"
    by simp_all
qed

lemma sub_name_k8s_print:
  "sub_name_k8s current old =
     (case old of Some q \<Rightarrow> print_sub_k8s (rq_id q)
      | None \<Rightarrow> (case current of Some q \<Rightarrow> print_sub_k8s (rq_id q) | None \<Rightarrow> []))"
  by (simp add: sub_name_k8s_def print_sub_k8s_def split: option.splits)

definition parent_name_k8s :: "ResourceQuota \<Rightarrow> string" where
  "parent_name_k8s q = (case gm_get (rq_Labels q) CubeQuotaLabel of None \<Rightarrow> [] | Some n \<Rightarrow> n)"

lemma Parent_k8s_run:
  assumes "reads (ko_PivotClient op) view objs" and "run_state (Parent_k8s op) w = (r, w')"
    and "ko_CurrentQuota op = Some q"
  shows "view w' = view w"
    and "r = Ret (Inr (Some p)) \<Longrightarrow> objs (view w) (cube_key (parent_name_k8s q)) = Some p"
    and "parent_name_k8s q \<noteq> [] \<Longrightarrow> r \<noteq> Ret (Inr None) \<and> r \<noteq> Panic"
    and "parent_name_k8s q = [] \<Longrightarrow> r = Ret (Inr None)"
proof -
  obtain x v where get: "run_state (cl_get (ko_PivotClient op) (cube_key (parent_name_k8s q))) w = (x, v)"
    by fastforce
  have eq: "(r, w') = (if parent_name_k8s q = [] then (Ret (Inr None), w)
      else (Ret (case x of Inl e \<Rightarrow> Inl e | Inr parentQuota \<Rightarrow> Inr (Some parentQuota)), v))"
    using assms(2,3) get by (simp add: Parent_k8s_def parent_name_k8s_def split: option.splits if_splits)
  note rd = reads_run [OF assms(1) get]
  show "view w' = view w" using eq rd(1) by (simp split: if_splits)
  show "r = Ret (Inr (Some p)) \<Longrightarrow> objs (view w) (cube_key (parent_name_k8s q)) = Some p"
    using eq rd(2) by (simp split: if_splits sum.splits)
  show "parent_name_k8s q \<noteq> [] \<Longrightarrow> r \<noteq> Ret (Inr None) \<and> r \<noteq> Panic"
    using eq by (simp split: sum.splits)
  show "parent_name_k8s q = [] \<Longrightarrow> r = Ret (Inr None)" using eq by simp
qed

text \<open>
  Reconciling a namespace quota keeps the books of the cube quota its label names. A
  successful update of the parent leaves everything alone when no parent is named; otherwise
  only the parent's status changes: its children are the old ones with this quota inserted
  (or removed, on flush) less those that are gone, and each counted resource is used by the
  sum of the children's hard values, this quota counting with its new ones.
\<close>

lemma UpdateParentStatus_k8s_accounts:
  assumes "cube_store (ko_PivotClient op) view cubes" and "named (cubes (view w))"
    and "reads (ko_LocalClient op) view quotas"
    and "ko_CurrentQuota op = Some q" and "ko_OldQuota op = None"
    and "run_state (UpdateParentStatus_k8s op flush) w = (Ret None, w')"
  shows "if parent_name_k8s q = [] then view w' = view w
         else \<exists>p st'. cubes (view w) (cube_key (parent_name_k8s q)) = Some p \<and>
           cubes (view w') = (cubes (view w))(cube_key (parent_name_k8s q) \<mapsto> p\<lparr>cq_Status := st'\<rparr>) \<and>
           (\<exists>S. slice_elems S = recorded flush (print_sub_k8s (rq_id q)) (slice_elems (st_SubResourceQuotas (cq_Status p))) \<and>
              refreshed_status (\<lambda>s. map_option rq_Hard (k8s_child (quotas (view w)) (Some q) s)) S (cq_Status p) st')"
proof -
  have rd: "reads (ko_PivotClient op) view cubes" using assms(1) by (simp add: cube_store_def)
  obtain r w1 where par: "run_state (Parent_k8s op) w = (r, w1)" by fastforce
  note run = Parent_k8s_run [OF rd par assms(4)]
  show ?thesis
  proof (cases "parent_name_k8s q = []")
    case True
    with run par assms(6) show ?thesis by (simp add: UpdateParentStatus_k8s_def)
  next
    case False
    with run(3) par assms(6) obtain p where r: "r = Ret (Inr (Some p))"
      by (auto simp: UpdateParentStatus_k8s_def split: go.splits sum.splits option.splits)
    note p = run(2) [OF r]
    let ?p1 = "p\<lparr>cq_Status := (cq_Status p)\<lparr>st_SubResourceQuotas :=
        update_subs flush (print_sub_k8s (rq_id q)) (st_SubResourceQuotas (cq_Status p))\<rparr>\<rparr>"
    from assms(4-6) par r obtain p2 w2 where
      ref: "run_state (refreshUsedResource_k8s (Some q) None ?p1 (ko_LocalClient op)) w1 = (Inr p2, w2)"
      and wr: "run_state (write_status_cube (ko_PivotClient op) (cq_Name p2) (cq_Status p2)) w2 = (None, w')"
      by (auto simp: UpdateParentStatus_k8s_def Let_def sub_name_k8s_print split: prod.splits sum.splits)
    note ref' = refreshUsedResource_k8s_run [OF assms(3) ref]
    have v2: "cubes (view w2) = cubes (view w)" using ref'(1) run(1) by simp
    moreover have "cq_Name p2 = parent_name_k8s q" using ref'(2) assms(2) p by (simp add: named_def)
    ultimately have "cubes (view w') = (cubes (view w))(cube_key (parent_name_k8s q) \<mapsto> p\<lparr>cq_Status := cq_Status p2\<rparr>)"
      using write_status_cube_run [OF assms(1) _ wr] assms(2) p by auto
    moreover have "refreshed_status (\<lambda>s. map_option rq_Hard (k8s_child (quotas (view w)) (Some q) s))
        (update_subs flush (print_sub_k8s (rq_id q)) (st_SubResourceQuotas (cq_Status p)))
        (cq_Status p) (cq_Status p2)"
      using ref'(3) run(1) by (simp add: refreshed_status_def)
    ultimately show ?thesis
      using False p update_subs_elems [of flush "print_sub_k8s (rq_id q)" "st_SubResourceQuotas (cq_Status p)"]
      by (simp only: if_False) blast
  qed
qed

lemma pivot_store: "cube_store pivot_client (\<lambda>w. w) kw_cubes"
  by (auto simp: cube_store_def reads_def writes_status_def pivot_client_def split: option.splits sum.splits)

lemma rq_reads: "reads rq_client (\<lambda>w. w) kw_quotas"
  by (auto simp: reads_def rq_client_def split: option.splits sum.splits)

lemma sample_k8s_update:
  "run_state (UpdateParentStatus_k8s (sample_k8s_op []) False) sample_k8s_world =
   (Ret None, sample_k8s_world\<lparr>kw_cubes := (kw_cubes sample_k8s_world)(cube_key ''p'' \<mapsto>
      (sample_quota ''p'' [] (Some [(''pods'', 9)]) (Some [(''pods'', 2)]))
        \<lparr>cq_Status := \<lparr>st_Hard = Some [(''pods'', 9)], st_Used = Some [(''pods'', 7)],
           st_SubResourceQuotas = Some [''a.n.quota'']\<rparr>\<rparr>)\<rparr>)"
  by (simp add: UpdateParentStatus_k8s_def Parent_k8s_def sample_quota_def sample_k8s_op_def sample_rq_def
      sample_k8s_world_def pivot_client_def rq_client_def update_subs_def
      sub_name_k8s_def SubFix_def refreshUsedResource_k8s_def slice_elems_def getResourceQuota_def
      parse_sub_k8s_def Split_def HasPrefix_def Let_def ClearQuotas_def ZeroQ_def ResourceNames_def
      write_status_cube_def DefaultRetry_def eval_nat_numeral cube_set_status_def)

end
