(* ===== verification/QuotaWebhook.thy ===== *)
theory QuotaWebhook
  imports QuotaK8s
begin

section \<open>The quota admission webhooks\<close>

text \<open>
  \<open>Handle\<close> of \<open>pkg/ctrlmgr/webhooks/quota/cube_resource_quota_v.go\<close> (cube quotas, on the
  pivot cluster) and of \<open>pkg/warden/localmgr/webhooks/quota/resource_quota_v.go\<close> (namespace
  quotas, on a member cluster). The decoder belongs to controller-runtime: what it returns for
  the object and the old object of the request are arguments.
\<close>

datatype quota_cause =
    DecodeError err
  | ClientError err
  | Refused reason
  | HardLessThanUsed string
  | MustDeleteSub string

definition empty_cube_quota :: CubeResourceQuota where
  "empty_cube_quota =
     \<lparr>cq_Name = [], cq_UID = [], cq_Finalizers = [], cq_DeletionTimestamp = None, cq_Hard = None,
      cq_ParentQuota = [], cq_TargetName = [], cq_TargetKind = [],
      cq_Status = \<lparr>st_Hard = None, st_Used = None, st_SubResourceQuotas = None\<rparr>\<rparr>"

definition empty_resource_quota :: ResourceQuota where
  "empty_resource_quota =
     \<lparr>rq_Name = [], rq_Namespace = [], rq_UID = [], rq_Labels = None, rq_Finalizers = [],
      rq_DeletionTimestamp = None, rq_Hard = None\<rparr>"

text \<open>The \<open>switch\<close> on the operation: the current and the old quota, or an early response.\<close>

definition switch_cube ::
  "operation \<Rightarrow> CubeResourceQuota result \<Rightarrow> CubeResourceQuota result
     \<Rightarrow> quota_cause response + CubeResourceQuota option \<times> CubeResourceQuota option" where
  "switch_cube operation decode decodeRaw =
     (case operation of
        Create \<Rightarrow>
          (case decode of
             Inl e \<Rightarrow> Inl (Errored StatusBadRequest (DecodeError e))
           | Inr currentQuota \<Rightarrow> Inr (Some currentQuota, None))
      | Update \<Rightarrow>
          (case decode of
             Inl e \<Rightarrow> Inl (Errored StatusBadRequest (DecodeError e))
           | Inr currentQuota \<Rightarrow>
               (case decodeRaw of
                  Inl e \<Rightarrow> Inl (Errored StatusBadRequest (DecodeError e))
                | Inr oldQuota \<Rightarrow>
                    if \<not> AllowedUpdate currentQuota oldQuota
                    then Inl (Denied (HardLessThanUsed (cq_Name currentQuota)))
                    else Inr (Some currentQuota, Some oldQuota)))
      | Delete \<Rightarrow>
          (case decodeRaw of
             Inl e \<Rightarrow> Inl (Errored StatusBadRequest (DecodeError e))
           | Inr oldQuota \<Rightarrow>
               if \<not> AllowedDel oldQuota
               then Inl (Errored StatusNotAcceptable (MustDeleteSub (cq_Name oldQuota)))
               else Inr (None, Some oldQuota))
      | Connect \<Rightarrow> Inr (Some empty_cube_quota, Some empty_cube_quota))"

definition Handle_cube_quota ::
  "('w, CubeResourceQuota) client \<Rightarrow> operation \<Rightarrow> CubeResourceQuota result \<Rightarrow> CubeResourceQuota result
     \<Rightarrow> ('w, quota_cause response go) state" where
  "Handle_cube_quota cli operation decode decodeRaw =
     (case switch_cube operation decode decodeRaw of
        Inl resp \<Rightarrow> State_Monad.return (Ret resp)
      | Inr (currentQuota, oldQuota) \<Rightarrow>
          let q = \<lparr>co_Client = cli, co_CurrentQuota = currentQuota, co_OldQuota = oldQuota\<rparr>
          in if operation \<noteq> Delete then do {
               r \<leftarrow> Overload_cube q;
               State_Monad.return
                 (go_bind r (\<lambda>r. Ret (case r of
                    Inl e \<Rightarrow> Errored StatusInternalServerError (ClientError e)
                  | Inr (isOverLoad, why) \<Rightarrow>
                      if isOverLoad then Errored StatusNotAcceptable (Refused why) else Allowed)))
             }
             else State_Monad.return (Ret Allowed))"

definition switch_k8s ::
  "operation \<Rightarrow> ResourceQuota result \<Rightarrow> ResourceQuota result
     \<Rightarrow> quota_cause response + ResourceQuota option \<times> ResourceQuota option" where
  "switch_k8s operation decode decodeRaw =
     (case operation of
        Create \<Rightarrow>
          (case decode of
             Inl e \<Rightarrow> Inl (Errored StatusBadRequest (DecodeError e))
           | Inr currentQuota \<Rightarrow> Inr (Some currentQuota, None))
      | Update \<Rightarrow>
          (case decode of
             Inl e \<Rightarrow> Inl (Errored StatusBadRequest (DecodeError e))
           | Inr currentQuota \<Rightarrow>
               (case decodeRaw of
                  Inl e \<Rightarrow> Inl (Errored StatusBadRequest (DecodeError e))
                | Inr oldQuota \<Rightarrow> Inr (Some currentQuota, Some oldQuota)))
      | Delete \<Rightarrow>
          (case decodeRaw of
             Inl e \<Rightarrow> Inl (Errored StatusBadRequest (DecodeError e))
           | Inr oldQuota \<Rightarrow> Inr (None, Some oldQuota))
      | Connect \<Rightarrow> Inr (Some empty_resource_quota, Some empty_resource_quota))"

definition Handle_k8s_quota ::
  "('w, CubeResourceQuota) client \<Rightarrow> ('w, ResourceQuota) client \<Rightarrow> ('w, namespace_obj) client \<Rightarrow> string
     \<Rightarrow> operation \<Rightarrow> ResourceQuota result \<Rightarrow> ResourceQuota result \<Rightarrow> ('w, quota_cause response go) state" where
  "Handle_k8s_quota pivot lcl nss key operation decode decodeRaw =
     (case switch_k8s operation decode decodeRaw of
        Inl resp \<Rightarrow> State_Monad.return (Ret resp)
      | Inr (currentQuota, oldQuota) \<Rightarrow>
          let q = \<lparr>ko_PivotClient = pivot, ko_LocalClient = lcl, ko_Namespaces = nss, ko_DetachedKey = key,
                   ko_CurrentQuota = currentQuota, ko_OldQuota = oldQuota\<rparr>
          in if operation \<noteq> Delete then do {
               r \<leftarrow> Overload_k8s q;
               State_Monad.return
                 (go_bind r (\<lambda>r. Ret (case r of
                    Inl e \<Rightarrow> Errored StatusInternalServerError (ClientError e)
                  | Inr (isOverLoad, why) \<Rightarrow>
                      if isOverLoad then Errored StatusNotAcceptable (Refused why) else Allowed)))
             }
             else State_Monad.return (Ret Allowed))"

subsection \<open>What an admitted request guarantees\<close>

lemma Overload_cube_allowed:
  assumes "reads (co_Client op) view objs"
    and "co_CurrentQuota op = Some c" and "\<not> nil_hard (map_option cq_Hard (co_OldQuota op))"
    and "run_state (Overload_cube op) w = (Ret (Inr (False, why)), w')"
    and "\<not> isTenantKind [co_CurrentQuota op, co_OldQuota op]"
    and "objs (view w) (cube_key (cq_ParentQuota c)) = Some p" and "cq_ParentQuota c \<noteq> []"
  shows "list_all (fits (cq_Hard p) (st_Used (cq_Status p)) (cq_Hard c) (map_option cq_Hard (co_OldQuota op)))
           ResourceNames"
proof -
  obtain r w1 where par: "run_state (Parent_cube op) w = (r, w1)" by fastforce
  with assms(4,5) have r: "go_bind r (\<lambda>r. case r of
             Inl e \<Rightarrow> Ret (Inl e)
           | Inr None \<Rightarrow> Ret (Inr (False, NoReason))
           | Inr (Some parentQuota) \<Rightarrow>
               go_bind (isExceedParent_cube (Some c) (co_OldQuota op) parentQuota)
                 (\<lambda>res. Ret (Inr res))) = Ret (Inr (False, why))"
    by (simp only: Overload_cube_def if_False run_state_bind assms(2)) simp
  from par assms(2,7) have "r \<noteq> Ret (Inr None)"
    by (auto simp: Parent_cube_def Let_def split: prod.splits sum.splits)
  with r obtain p' where p': "r = Ret (Inr (Some p'))"
      "isExceedParent_cube (Some c) (co_OldQuota op) p' = Ret (False, why)"
    by (cases r) (auto simp: go_bind_eq_Ret split: sum.splits option.splits)
  from Parent_cube_run(2) [OF assms(1) par p'(1)] assms(2,6) have "p' = p" by auto
  with p'(2) isExceedParent_loop_cube_fits [OF assms(3), of ResourceNames "cq_Hard p"
      "st_Used (cq_Status p)" "cq_Hard c"]
  show ?thesis by (auto simp: isExceedParent_cube_def)
qed

lemma Handle_cube_quota_update_facts:
  assumes "reads cli view objs"
    and "run_state (Handle_cube_quota cli Update (Inr current) (Inr old)) w = (Ret Allowed, w')"
    and "cq_Hard old \<noteq> None"
    and "\<not> isTenantKind [Some current, Some old]"
    and "objs (view w) (cube_key (cq_ParentQuota current)) = Some p" and "cq_ParentQuota current \<noteq> []"
  shows "list_all (\<lambda>rs. case gm_get (st_Used (cq_Status old)) rs of
             None \<Rightarrow> True
           | Some used \<Rightarrow> (case gm_get (cq_Hard current) rs of None \<Rightarrow> False | Some hard \<Rightarrow> used \<le> hard)) ResourceNames"
    and "list_all (fits (cq_Hard p) (st_Used (cq_Status p)) (cq_Hard current) (Some (cq_Hard old))) ResourceNames"
proof -
  let ?op = "\<lparr>co_Client = cli, co_CurrentQuota = Some current, co_OldQuota = Some old\<rparr>"
  from assms(2) have upd: "AllowedUpdate current old"
    by (auto simp: Handle_cube_quota_def switch_cube_def split: if_splits)
  then show "list_all (\<lambda>rs. case gm_get (st_Used (cq_Status old)) rs of
             None \<Rightarrow> True
           | Some used \<Rightarrow> (case gm_get (cq_Hard current) rs of None \<Rightarrow> False | Some hard \<Rightarrow> used \<le> hard)) ResourceNames"
    by (simp add: AllowedUpdate_def AllowedUpdate_loop_iff)
  obtain r v where ov: "run_state (Overload_cube ?op) w = (r, v)" by fastforce
  with assms(2) upd obtain why where "r = Ret (Inr (False, why))"
    by (cases r) (auto simp: Handle_cube_quota_def switch_cube_def split: sum.splits if_splits)
  with Overload_cube_allowed [of ?op view objs current w why v p] assms ov
  show "list_all (fits (cq_Hard p) (st_Used (cq_Status p)) (cq_Hard current) (Some (cq_Hard old))) ResourceNames"
    by (simp add: nil_hard_def)
qed



text \<open>
  Deleting a cube quota is admitted exactly when it lists no children; the webhook then
  asks nothing of the API server, and a decoding failure is reported as a bad request.
\<close>

lemma Handle_cube_quota_delete:
  "run_state (Handle_cube_quota cli Delete decode decodeRaw) w =
     (Ret (case decodeRaw of
        Inl e \<Rightarrow> Errored 400 (DecodeError e)
      | Inr old \<Rightarrow> if slice_elems (st_SubResourceQuotas (cq_Status old)) = [] then Allowed
                  else Errored 406 (MustDeleteSub (cq_Name old))), w)"
  by (simp add: Handle_cube_quota_def switch_cube_def AllowedDel_def slice_elems_def StatusBadRequest_def
      StatusNotAcceptable_def split: sum.splits option.splits)

text \<open>
  An update whose old version has no hard list brings the webhook down with a panic as
  soon as the first resource that is not skipped is set and counted by the parent: the code assigns into the nil hard map of the old quota.
\<close>

lemma isExceedParent_cube_nil_old_panics:
  "isExceedParent_cube (Some current) (Some old) parent = Panic \<longleftrightarrow>
   cq_Hard old = None \<and>
   (case dropWhile (\<lambda>rs. gm_get (cq_Hard current) rs = None \<and>
              (gm_get (cq_Hard parent) rs = None \<or> gm_get (st_Used (cq_Status parent)) rs = None)) ResourceNames of
      [] \<Rightarrow> False
    | rs # _ \<Rightarrow> gm_has (cq_Hard parent) rs \<and> gm_has (st_Used (cq_Status parent)) rs \<and> gm_has (cq_Hard current) rs)"
proof (cases "cq_Hard old")
  case None
  then show ?thesis by (simp add: isExceedParent_cube_def isExceedParent_loop_nil)
next
  case (Some l)
  then have "\<not> nil_hard (map_option cq_Hard (Some old))" by (simp add: nil_hard_def)
  from isExceedParent_loop_cube_fits(1) [OF this] Some show ?thesis
    by (auto simp: isExceedParent_cube_def) (metis go.distinct(1))
qed

end
