(* ===== verification/QuotaController.thy ===== *)
theory QuotaController
  imports QuotaWebhook
begin

section \<open>The quota controllers\<close>

text \<open>
  \<open>pkg/ctrlmgr/controllers/quota/cuberesourcequota_controller.go\<close> and
  \<open>pkg/warden/localmgr/controllers/quota/quota_controller.go\<close>: the reconcilers that set a
  quota's finalizer, initialise its status and drive the operators. \<open>reflect.DeepEqual\<close> on
  quantities also compares their internal representation, so it is an argument; the code
  relies only on equal results meaning equal values.
\<close>

subsection \<open>Cube quotas\<close>

definition ensureFinalizer_cube ::
  "('w, CubeResourceQuota) client \<Rightarrow> CubeResourceQuota \<Rightarrow> ('w, err option \<times> CubeResourceQuota) state" where
  "ensureFinalizer_cube cli cubeQuota =
     (if \<not> ContainsFinalizer (cq_Finalizers cubeQuota) Finalizer then
        let cubeQuota = cubeQuota\<lparr>cq_Finalizers := AddFinalizer (cq_Finalizers cubeQuota) Finalizer\<rparr>
        in do {
          e \<leftarrow> cl_update cli cubeQuota;
          State_Monad.return (e, cubeQuota)
        }
      else State_Monad.return (None, cubeQuota))"

definition removeFinalizer_cube ::
  "('w, CubeResourceQuota) client \<Rightarrow> CubeResourceQuota \<Rightarrow> 'w cube_operator \<Rightarrow> ('w, err option go) state" where
  "removeFinalizer_cube cli cubeQuota quotaOperator =
     (if ContainsFinalizer (cq_Finalizers cubeQuota) Finalizer then do {
        r \<leftarrow> UpdateParentStatus_cube quotaOperator True;
        case r of
          Panic \<Rightarrow> State_Monad.return Panic
        | Ret (Some e) \<Rightarrow> State_Monad.return (Ret (Some e))
        | Ret None \<Rightarrow> do {
            e \<leftarrow> cl_update cli (cubeQuota\<lparr>cq_Finalizers := RemoveFinalizer (cq_Finalizers cubeQuota) Finalizer\<rparr>);
            State_Monad.return (Ret e)
          }
      }
      else State_Monad.return (Ret None))"

definition initCubeQuotaStatus ::
  "('w, CubeResourceQuota) client \<Rightarrow> CubeResourceQuota \<Rightarrow> ('w, err option \<times> CubeResourceQuota) state" where
  "initCubeQuotaStatus cli cubeQuota =
     (if st_Used (cq_Status cubeQuota) \<noteq> None \<and> st_Hard (cq_Status cubeQuota) \<noteq> None
      then State_Monad.return (None, cubeQuota)
      else
        let cubeQuota = InitStatus cubeQuota
        in do {
          e \<leftarrow> write_status_cube cli (cq_Name cubeQuota) (cq_Status cubeQuota);
          State_Monad.return (e, cubeQuota)
        })"

text \<open>The loop of \<open>ifUpdateUsed\<close> over the keys of the hard list.\<close>

fun ifUpdateUsed_loop :: "string list \<Rightarrow> resource_list \<Rightarrow> bool \<Rightarrow> (resource_list \<times> bool) go" where
  "ifUpdateUsed_loop [] used needUpdate = Ret (used, needUpdate)"
| "ifUpdateUsed_loop (rsName # rest) used needUpdate =
     (if \<not> gm_has used rsName
      then go_bind (gm_put used rsName ZeroQ) (\<lambda>used. ifUpdateUsed_loop rest used True)
      else ifUpdateUsed_loop rest used needUpdate)"

definition ifUpdateUsed :: "resource_list \<Rightarrow> resource_list \<Rightarrow> (resource_list \<times> bool) go" where
  "ifUpdateUsed hard used = ifUpdateUsed_loop (gm_keys hard) used False"

definition ensureSpecAndStatusConsistent ::
  "(resource_list \<Rightarrow> resource_list \<Rightarrow> bool) \<Rightarrow> ('w, CubeResourceQuota) client \<Rightarrow> CubeResourceQuota
     \<Rightarrow> ('w, (err option \<times> CubeResourceQuota) go) state" where
  "ensureSpecAndStatusConsistent deepEqual cli cubeQuota =
     (case ifUpdateUsed (cq_Hard cubeQuota) (st_Used (cq_Status cubeQuota)) of
        Panic \<Rightarrow> State_Monad.return Panic
      | Ret (used, updateUsed) \<Rightarrow>
          let status = cq_Status cubeQuota;
              status = (if updateUsed then status\<lparr>st_Used := used\<rparr> else status);
              needUpdate = updateUsed;
              differ = \<not> deepEqual (cq_Hard cubeQuota) (st_Hard status);
              status = (if differ then status\<lparr>st_Hard := cq_Hard cubeQuota\<rparr> else status);
              needUpdate = (if differ then True else needUpdate);
              cubeQuota = cubeQuota\<lparr>cq_Status := status\<rparr>
          in if needUpdate then do {
               e \<leftarrow> write_status_cube cli (cq_Name cubeQuota) (cq_Status cubeQuota);
               State_Monad.return (Ret (e, cubeQuota))
             }
             else State_Monad.return (Ret (None, cubeQuota)))"

definition Reconcile_cube_quota ::
  "(resource_list \<Rightarrow> resource_list \<Rightarrow> bool) \<Rightarrow> ('w, CubeResourceQuota) client \<Rightarrow> objkey \<Rightarrow> ('w, err option go) state" where
  "Reconcile_cube_quota deepEqual cli req = do {
     r \<leftarrow> cl_get cli req;
     case r of
       Inl e \<Rightarrow> State_Monad.return (Ret (IgnoreNotFound (Some e)))
     | Inr cubeQuota \<Rightarrow>
         if cq_DeletionTimestamp cubeQuota \<noteq> None
         then removeFinalizer_cube cli cubeQuota
                \<lparr>co_Client = cli, co_CurrentQuota = Some cubeQuota, co_OldQuota = None\<rparr>
         else do {
           (e, cubeQuota) \<leftarrow> ensureFinalizer_cube cli cubeQuota;
           if e \<noteq> None then State_Monad.return (Ret e)
           else do {
             (e, cubeQuota) \<leftarrow> initCubeQuotaStatus cli cubeQuota;
             if e \<noteq> None then State_Monad.return (Ret e)
             else do {
               r \<leftarrow> ensureSpecAndStatusConsistent deepEqual cli cubeQuota;
               case r of
                 Panic \<Rightarrow> State_Monad.return Panic
               | Ret (Some e, _) \<Rightarrow> State_Monad.return (Ret (Some e))
               | Ret (None, cubeQuota) \<Rightarrow>
                   UpdateParentStatus_cube
                     \<lparr>co_Client = cli, co_CurrentQuota = Some cubeQuota, co_OldQuota = None\<rparr> False
             }
           }
         }
   }"

text \<open>The update predicate; \<open>specEqual\<close> is \<open>reflect.DeepEqual\<close> on the two specs.\<close>

definition UpdateFunc_cube_quota ::
  "(CubeResourceQuota \<Rightarrow> CubeResourceQuota \<Rightarrow> bool) \<Rightarrow> CubeResourceQuota option \<Rightarrow> CubeResourceQuota option \<Rightarrow> bool" where
  "UpdateFunc_cube_quota specEqual objectOld objectNew =
     (case objectOld of
        None \<Rightarrow> False
      | Some oldObj \<Rightarrow>
          (case objectNew of
             None \<Rightarrow> False
           | Some newObj \<Rightarrow>
               if cq_DeletionTimestamp oldObj \<noteq> None \<or> cq_DeletionTimestamp newObj \<noteq> None then True
               else if specEqual oldObj newObj then False
               else True))"

subsection \<open>Namespace quotas\<close>

definition ensureFinalizer_k8s ::
  "('w, ResourceQuota) client \<Rightarrow> ResourceQuota \<Rightarrow> ('w, err option \<times> ResourceQuota) state" where
  "ensureFinalizer_k8s cli currentQuota =
     (if \<not> ContainsFinalizer (rq_Finalizers currentQuota) Finalizer then
        let currentQuota = currentQuota\<lparr>rq_Finalizers := AddFinalizer (rq_Finalizers currentQuota) Finalizer\<rparr>
        in do {
          e \<leftarrow> RetryOnConflict DefaultRetry (do {
            r \<leftarrow> cl_get cli (rq_Namespace currentQuota, rq_Name currentQuota);
            case r of
              Inl e \<Rightarrow> State_Monad.return (Some e)
            | Inr newQuota \<Rightarrow> cl_update cli (newQuota\<lparr>rq_Finalizers := rq_Finalizers currentQuota\<rparr>)
          });
          State_Monad.return (e, currentQuota)
        }
      else State_Monad.return (None, currentQuota))"

definition removeFinalizer_k8s ::
  "('w, ResourceQuota) client \<Rightarrow> ResourceQuota \<Rightarrow> 'w k8s_operator \<Rightarrow> ('w, err option go) state" where
  "removeFinalizer_k8s cli currentQuota quotaOperator =
     (if ContainsFinalizer (rq_Finalizers currentQuota) Finalizer then do {
        r \<leftarrow> UpdateParentStatus_k8s quotaOperator True;
        case r of
          Panic \<Rightarrow> State_Monad.return Panic
        | Ret (Some e) \<Rightarrow> State_Monad.return (Ret (Some e))
        | Ret None \<Rightarrow> do {
            e \<leftarrow> cl_update cli (currentQuota\<lparr>rq_Finalizers := RemoveFinalizer (rq_Finalizers currentQuota) Finalizer\<rparr>);
            State_Monad.return (Ret e)
          }
      }
      else State_Monad.return (Ret None))"

definition Reconcile_k8s_quota ::
  "('w, CubeResourceQuota) client \<Rightarrow> ('w, ResourceQuota) client \<Rightarrow> ('w, namespace_obj) client \<Rightarrow> string
     \<Rightarrow> objkey \<Rightarrow> ('w, err option go) state" where
  "Reconcile_k8s_quota pivot lcl nss key req = do {
     r \<leftarrow> cl_get lcl req;
     case r of
       Inl e \<Rightarrow> State_Monad.return (Ret (if e = NotFound then None else Some e))
     | Inr currentQuota \<Rightarrow>
         let quotaOperator = (\<lambda>q. \<lparr>ko_PivotClient = pivot, ko_LocalClient = lcl, ko_Namespaces = nss,
               ko_DetachedKey = key, ko_CurrentQuota = Some q, ko_OldQuota = None\<rparr>)
         in if rq_DeletionTimestamp currentQuota \<noteq> None
            then removeFinalizer_k8s lcl currentQuota (quotaOperator currentQuota)
            else do {
              (e, currentQuota) \<leftarrow> ensureFinalizer_k8s lcl currentQuota;
              if e \<noteq> None then State_Monad.return (Ret e)
              else UpdateParentStatus_k8s (quotaOperator currentQuota) False
            }
   }"

definition isManagedResourceQuota :: "ResourceQuota \<Rightarrow> bool" where
  "isManagedResourceQuota obj =
     (case rq_Labels obj of
        None \<Rightarrow> False
      | Some l \<Rightarrow> if gm_has (Some l) CubeQuotaLabel then True else False)"

definition UpdateFunc_k8s_quota ::
  "(ResourceQuota \<Rightarrow> ResourceQuota \<Rightarrow> bool) \<Rightarrow> ResourceQuota option \<Rightarrow> ResourceQuota option \<Rightarrow> bool" where
  "UpdateFunc_k8s_quota specEqual objectOld objectNew =
     (case objectOld of
        None \<Rightarrow> False
      | Some oldObj \<Rightarrow>
          (case objectNew of
             None \<Rightarrow> False
           | Some newObj \<Rightarrow>
               if rq_DeletionTimestamp oldObj \<noteq> None \<or> rq_DeletionTimestamp newObj \<noteq> None
               then isManagedResourceQuota newObj
               else if specEqual oldObj newObj then False
               else isManagedResourceQuota newObj))"

subsection \<open>What the reconcilers keep\<close>

text \<open>
  The used list extended with zeros for the resources of the hard list, the specification of
  \<open>ifUpdateUsed\<close>.
\<close>

definition extended :: "resource_list \<Rightarrow> resource_list \<Rightarrow> resource_list \<Rightarrow> bool" where
  "extended hard used used' \<longleftrightarrow>
     (\<forall>k. gm_get used' k =
        (case gm_get used k of Some u \<Rightarrow> Some u | None \<Rightarrow> if gm_has hard k then Some 0 else None))"

lemma ifUpdateUsed_loop_Some:
  "\<exists>l'. ifUpdateUsed_loop ks (Some l) b = Ret (Some l', b \<or> list_ex (\<lambda>k. \<not> gm_has (Some l) k) ks) \<and>
     (\<forall>k. map_of l' k = (case map_of l k of Some u \<Rightarrow> Some u | None \<Rightarrow> if k \<in> set ks then Some 0 else None))"
proof (induction ks arbitrary: l b)
  case Nil
  then show ?case by (auto split: option.splits)
next
  case (Cons x ks)
  show ?case
  proof (cases "map_of l x")
    case None
    from Cons.IH [of "AList.update x ZeroQ l" True] obtain l' where
      run: "ifUpdateUsed_loop ks (Some (AList.update x ZeroQ l)) True = Ret (Some l', True)"
      and vals: "\<And>k. map_of l' k = (case ((map_of l)(x \<mapsto> 0)) k of Some u \<Rightarrow> Some u
                   | None \<Rightarrow> if k \<in> set ks then Some 0 else None)"
      by (auto simp: ZeroQ_def)
    have "map_of l' k = (case map_of l k of Some u \<Rightarrow> Some u
            | None \<Rightarrow> if k \<in> set (x # ks) then Some 0 else None)" for k
      using None vals [of k] by (cases "k = x") (simp_all split: option.splits)
    with None run show ?thesis by (simp add: gm_has_def)
  next
    case (Some v)
    from Cons.IH [of l b] obtain l' where
      run: "ifUpdateUsed_loop ks (Some l) b = Ret (Some l', b \<or> list_ex (\<lambda>k. \<not> gm_has (Some l) k) ks)"
      and vals: "\<And>k. map_of l' k = (case map_of l k of Some u \<Rightarrow> Some u
                   | None \<Rightarrow> if k \<in> set ks then Some 0 else None)"
      by blast
    have "map_of l' k = (case map_of l k of Some u \<Rightarrow> Some u
            | None \<Rightarrow> if k \<in> set (x # ks) then Some 0 else None)" for k
      using Some vals [of k] by (cases "k = x") (simp_all split: option.splits)
    with Some run show ?thesis by (simp add: gm_has_def)
  qed
qed

text \<open>
  Keeping spec and status consistent. On a status that has a used list the code never
  panics; it keeps every used value, adds a zero for each resource that is only in the hard
  list, and asks for an update exactly when it added one. Without a used list it panics as
  soon as there is a hard value.
\<close>

lemma ifUpdateUsed_spec:
  "case used of
     None \<Rightarrow> ifUpdateUsed hard used = (if gm_keys hard = [] then Ret (None, False) else Panic)
   | Some l \<Rightarrow> \<exists>l'. ifUpdateUsed hard used = Ret (Some l', list_ex (\<lambda>k. \<not> gm_has used k) (gm_keys hard))
                 \<and> extended hard used (Some l')"
proof (cases used)
  case None
  then show ?thesis by (cases "gm_keys hard") (simp_all add: ifUpdateUsed_def gm_has_def)
next
  case (Some l)
  with ifUpdateUsed_loop_Some [of "gm_keys hard" l False] show ?thesis
    by (auto simp: ifUpdateUsed_def extended_def gm_has_iff)
qed

lemma initCubeQuotaStatus_used:
  "run_state (initCubeQuotaStatus cli q) w = ((e, q'), w') \<Longrightarrow> st_Used (cq_Status q') \<noteq> None"
  by (auto simp: initCubeQuotaStatus_def InitStatus_def Let_def split: if_splits prod.splits)

lemma ifUpdateUsed_not_Panic: "used \<noteq> None \<Longrightarrow> ifUpdateUsed hard used \<noteq> Panic"
  using ifUpdateUsed_loop_Some [of "gm_keys hard" _ False] by (auto simp: ifUpdateUsed_def) (metis go.distinct(1))

lemma UpdateParentStatus_cube_not_Panic:
  assumes "co_CurrentQuota op = Some q"
  shows "fst (run_state (UpdateParentStatus_cube op flush) w) \<noteq> Panic"
  using assms
  by (auto simp: UpdateParentStatus_cube_def Parent_cube_def Let_def split: prod.splits sum.splits)

lemma removeFinalizer_cube_not_Panic:
  assumes "co_CurrentQuota op = Some q"
  shows "fst (run_state (removeFinalizer_cube cli c op) w) \<noteq> Panic"
  using UpdateParentStatus_cube_not_Panic [OF assms, of True w]
  by (auto simp: removeFinalizer_cube_def split: prod.splits go.splits option.splits)

lemma ensureSpecAndStatusConsistent_not_Panic:
  assumes "st_Used (cq_Status q) \<noteq> None"
  shows "fst (run_state (ensureSpecAndStatusConsistent eq cli q) w) \<noteq> Panic"
  using ifUpdateUsed_not_Panic [OF assms]
  by (auto simp: ensureSpecAndStatusConsistent_def Let_def split: go.splits prod.splits)

text \<open>
  The cube quota controller never panics, whatever the API server answers: the status is
  initialised before anything is stored into its used list.
\<close>

lemma Reconcile_cube_quota_no_panic:
  "fst (run_state (Reconcile_cube_quota deepEqual cli req) w) \<noteq> Panic"
proof -
  obtain r w1 where get: "run_state (cl_get cli req) w = (r, w1)" by fastforce
  show ?thesis
  proof (cases r)
    case (Inl e)
    with get show ?thesis by (simp add: Reconcile_cube_quota_def)
  next
    case (Inr q)
    obtain e1 q1 w2 where fin: "run_state (ensureFinalizer_cube cli q) w1 = ((e1, q1), w2)"
      by (metis surj_pair)
    obtain e2 q2 w3 where init: "run_state (initCubeQuotaStatus cli q1) w2 = ((e2, q2), w3)"
      by (metis surj_pair)
    obtain r3 w4 where cons: "run_state (ensureSpecAndStatusConsistent deepEqual cli q2) w3 = (r3, w4)"
      by fastforce
    have "r3 \<noteq> Panic"
      using ensureSpecAndStatusConsistent_not_Panic [OF initCubeQuotaStatus_used [OF init], of deepEqual cli w3] cons
      by simp
    with Inr get fin init cons show ?thesis
      by (auto simp: Reconcile_cube_quota_def removeFinalizer_cube_not_Panic UpdateParentStatus_cube_not_Panic
          split: go.splits option.splits)
  qed
qed

end
