(* ===== verification/QuotaSystem.thy ===== *)
theory QuotaSystem
  imports QuotaController
begin

section \<open>The quota tree as a system\<close>

text \<open>
  The cube quota webhook and controller at work on one store of cube quotas. A step is a
  request that the webhook admits, written to the store, followed by a successful run of the
  controller. The invariant is that a parent's books are right: it lists exactly its children,
  its used values are the sums of their hard values, and these stay within its own hard
  values. Requests carry no negative hard values; the webhook does not check that itself.
\<close>

type_synonym cubes = "objkey \<Rightarrow> CubeResourceQuota option"

abbreviation cube_cli :: "(cubes, CubeResourceQuota) client" where
  "cube_cli \<equiv> store_client (\<lambda>q. cube_key (cq_Name q)) cube_set_status"

subsection \<open>The controller on the store\<close>

lemma write_status_store:
  assumes "named w"
  shows "run_state (write_status_cube cube_cli n st) w =
     (case w (cube_key n) of
        None \<Rightarrow> (Some NotFound, w)
      | Some y \<Rightarrow> (None, w(cube_key n \<mapsto> y\<lparr>cq_Status := st\<rparr>)))"
  using assms
  by (simp add: write_status_cube_def DefaultRetry_def numeral_eq_Suc named_def cube_set_status_def
      split: option.splits)

text \<open>Two versions of a quota that differ in finalizers and status only.\<close>

definition same_spec :: "CubeResourceQuota \<Rightarrow> CubeResourceQuota \<Rightarrow> bool" where
  "same_spec c c' \<longleftrightarrow> cq_Name c' = cq_Name c \<and> cq_Hard c' = cq_Hard c \<and>
     cq_ParentQuota c' = cq_ParentQuota c \<and> cq_TargetKind c' = cq_TargetKind c \<and>
     cq_DeletionTimestamp c' = cq_DeletionTimestamp c"

text \<open>
  What the reconciliation of a quota does to its own status: an initialised status keeps its
  children, and its used list is extended to the resources of the hard list.
\<close>

definition status_kept :: "CubeResourceQuota \<Rightarrow> CubeResourceQuota \<Rightarrow> bool" where
  "status_kept c c' \<longleftrightarrow>
     (st_Used (cq_Status c) = None \<or> st_Hard (cq_Status c) = None \<or>
       st_SubResourceQuotas (cq_Status c') = st_SubResourceQuotas (cq_Status c) \<and>
       extended (cq_Hard c) (st_Used (cq_Status c)) (st_Used (cq_Status c')) \<and>
       st_Used (cq_Status c') \<noteq> None \<and> (cq_Hard c = None \<or> st_Hard (cq_Status c') \<noteq> None))"

lemma named_upd [simp]: "named w \<Longrightarrow> cq_Name c = n \<Longrightarrow> named (w(cube_key n \<mapsto> c))"
  by (simp add: named_def)

lemma ensureFinalizer_store:
  assumes "w (cube_key n) = Some c" and "cq_Name c = n"
  shows "\<exists>f. run_state (ensureFinalizer_cube cube_cli c) w =
     ((None, c\<lparr>cq_Finalizers := f\<rparr>), w(cube_key n \<mapsto> c\<lparr>cq_Finalizers := f\<rparr>)) \<and> Finalizer \<in> set f"
proof (cases "Finalizer \<in> set (cq_Finalizers c)")
  case True
  moreover have "c\<lparr>cq_Finalizers := cq_Finalizers c\<rparr> = c" by simp
  ultimately show ?thesis using assms
    by (intro exI [of _ "cq_Finalizers c"]) (simp add: ensureFinalizer_cube_def fun_upd_idem)
next
  case False
  with assms show ?thesis by (auto simp: ensureFinalizer_cube_def Let_def)
qed

lemma initCubeQuotaStatus_store:
  assumes "named w" and "w (cube_key n) = Some c" and "cq_Name c = n"
  shows "\<exists>st. run_state (initCubeQuotaStatus cube_cli c) w =
      ((None, c\<lparr>cq_Status := st\<rparr>), w(cube_key n \<mapsto> c\<lparr>cq_Status := st\<rparr>)) \<and> st_Used st \<noteq> None \<and>
      (st_Used (cq_Status c) = None \<or> st_Hard (cq_Status c) = None \<or> st = cq_Status c)"
proof (cases "st_Used (cq_Status c) \<noteq> None \<and> st_Hard (cq_Status c) \<noteq> None")
  case True
  moreover have "c\<lparr>cq_Status := cq_Status c\<rparr> = c" by simp
  ultimately show ?thesis using assms
    by (intro exI [of _ "cq_Status c"]) (simp add: initCubeQuotaStatus_def fun_upd_idem)
next
  case False
  with assms show ?thesis
    by (auto simp: initCubeQuotaStatus_def Let_def write_status_store InitStatus_def)
qed

lemma ensureConsistent_store:
  assumes "named w" and "w (cube_key n) = Some c" and "cq_Name c = n" and "st_Used (cq_Status c) = Some l"
  shows "\<exists>st. run_state (ensureSpecAndStatusConsistent eq cube_cli c) w =
      (Ret (None, c\<lparr>cq_Status := st\<rparr>), w(cube_key n \<mapsto> c\<lparr>cq_Status := st\<rparr>)) \<and>
      st_SubResourceQuotas st = st_SubResourceQuotas (cq_Status c) \<and>
      extended (cq_Hard c) (st_Used (cq_Status c)) (st_Used st) \<and> st_Used st \<noteq> None \<and>
      (st_Hard (cq_Status c) = None \<or> cq_Hard c = None \<or> st_Hard st \<noteq> None)"
proof -
  obtain l' where run: "ifUpdateUsed (cq_Hard c) (Some l) = Ret (Some l', list_ex (\<lambda>k. \<not> gm_has (Some l) k) (gm_keys (cq_Hard c)))"
    and ext: "extended (cq_Hard c) (Some l) (Some l')"
    using ifUpdateUsed_loop_Some [of "gm_keys (cq_Hard c)" l False]
    by (auto simp: ifUpdateUsed_def extended_def gm_has_iff)
  have same: "extended (cq_Hard c) (Some l) (Some l)"
    if "\<not> list_ex (\<lambda>k. \<not> gm_has (Some l) k) (gm_keys (cq_Hard c))"
  proof -
    have "gm_has (cq_Hard c) k \<Longrightarrow> map_of l k \<noteq> None" for k
      using that gm_has_iff [of "cq_Hard c" k] by (auto simp: list_ex_iff gm_has_def [of "Some l"])
    then show ?thesis by (force simp: extended_def split: option.splits)
  qed
  let ?flag = "list_ex (\<lambda>k. \<not> gm_has (Some l) k) (gm_keys (cq_Hard c))"
  let ?st1 = "if ?flag then (cq_Status c)\<lparr>st_Used := Some l'\<rparr> else cq_Status c"
  let ?differ = "\<not> eq (cq_Hard c) (st_Hard ?st1)"
  let ?st = "if ?differ then ?st1\<lparr>st_Hard := cq_Hard c\<rparr> else ?st1"
  have step: "run_state (ensureSpecAndStatusConsistent eq cube_cli c) w =
      (Ret (None, c\<lparr>cq_Status := ?st\<rparr>), w(cube_key n \<mapsto> c\<lparr>cq_Status := ?st\<rparr>))"
  proof (cases "?flag \<or> ?differ")
    case True
    then show ?thesis
      unfolding ensureSpecAndStatusConsistent_def assms(4) run
      by (simp only: go.case prod.case Let_def) (simp add: write_status_store assms fun_upd_idem)
  next
    case False
    then have flag: "\<not> ?flag" by blast
    with False have same_hard: "eq (cq_Hard c) (st_Hard (cq_Status c))" by simp
    have id: "c\<lparr>cq_Status := cq_Status c\<rparr> = c" by simp
    show ?thesis
      using flag same_hard unfolding ensureSpecAndStatusConsistent_def assms(4) run
      by (simp add: Let_def fun_upd_idem assms id)
  qed
  have "st_SubResourceQuotas ?st = st_SubResourceQuotas (cq_Status c) \<and>
      extended (cq_Hard c) (st_Used (cq_Status c)) (st_Used ?st) \<and> st_Used ?st \<noteq> None \<and>
      (st_Hard (cq_Status c) = None \<or> cq_Hard c = None \<or> st_Hard ?st \<noteq> None)"
    using ext same assms(4) by auto
  with step show ?thesis by blast
qed

lemma Reconcile_store:
  assumes "named w" and "w (cube_key n) = Some c" and "cq_DeletionTimestamp c = None"
    and "run_state (Reconcile_cube_quota eq cube_cli (cube_key n)) w = (Ret None, w')"
  shows "\<exists>c'. same_spec c c' \<and> Finalizer \<in> set (cq_Finalizers c') \<and> status_kept c c' \<and>
     run_state (UpdateParentStatus_cube \<lparr>co_Client = cube_cli, co_CurrentQuota = Some c', co_OldQuota = None\<rparr> False)
       (w(cube_key n \<mapsto> c')) = (Ret None, w')"
proof -
  have nm: "cq_Name c = n" using assms(1,2) by (simp add: named_def)
  from ensureFinalizer_store [of w n c, OF assms(2) nm] obtain f where
    fin: "run_state (ensureFinalizer_cube cube_cli c) w =
       ((None, c\<lparr>cq_Finalizers := f\<rparr>), w(cube_key n \<mapsto> c\<lparr>cq_Finalizers := f\<rparr>))" "Finalizer \<in> set f" by blast
  let ?c1 = "c\<lparr>cq_Finalizers := f\<rparr>"
  from initCubeQuotaStatus_store [of "w(cube_key n \<mapsto> ?c1)" n ?c1] assms(1) nm obtain st1 where
    init: "run_state (initCubeQuotaStatus cube_cli ?c1) (w(cube_key n \<mapsto> ?c1)) =
       ((None, ?c1\<lparr>cq_Status := st1\<rparr>), w(cube_key n \<mapsto> ?c1\<lparr>cq_Status := st1\<rparr>))"
    and st1: "st_Used st1 \<noteq> None"
      "st_Used (cq_Status c) = None \<or> st_Hard (cq_Status c) = None \<or> st1 = cq_Status c" by auto
  let ?c2 = "?c1\<lparr>cq_Status := st1\<rparr>"
  from st1 obtain l where "st_Used st1 = Some l" by blast
  with ensureConsistent_store [of "w(cube_key n \<mapsto> ?c2)" n ?c2 l eq] assms(1) nm obtain st2 where
    cons: "run_state (ensureSpecAndStatusConsistent eq cube_cli ?c2) (w(cube_key n \<mapsto> ?c2)) =
       (Ret (None, ?c2\<lparr>cq_Status := st2\<rparr>), w(cube_key n \<mapsto> ?c2\<lparr>cq_Status := st2\<rparr>))"
    and st2: "st_SubResourceQuotas st2 = st_SubResourceQuotas st1" "extended (cq_Hard c) (st_Used st1) (st_Used st2)"
      "st_Used st2 \<noteq> None" "st_Hard st1 = None \<or> cq_Hard c = None \<or> st_Hard st2 \<noteq> None" by auto
  let ?c3 = "?c2\<lparr>cq_Status := st2\<rparr>"
  have "same_spec c ?c3" "Finalizer \<in> set (cq_Finalizers ?c3)" "status_kept c ?c3"
    using fin(2) st1 st2 by (auto simp: same_spec_def status_kept_def)
  moreover have "run_state (UpdateParentStatus_cube \<lparr>co_Client = cube_cli, co_CurrentQuota = Some ?c3, co_OldQuota = None\<rparr> False)
       (w(cube_key n \<mapsto> ?c3)) = (Ret None, w')"
    using assms(2-4) fin(1) init cons by (simp add: Reconcile_cube_quota_def)
  ultimately show ?thesis by blast
qed

text \<open>The same for a quota that is being deleted: its parent is flushed, then the finalizer goes.\<close>

lemma Reconcile_store_delete:
  assumes "w (cube_key n) = Some c" and "cq_DeletionTimestamp c \<noteq> None" and "Finalizer \<in> set (cq_Finalizers c)"
    and "run_state (Reconcile_cube_quota eq cube_cli (cube_key n)) w = (Ret None, w')"
  shows "\<exists>v. run_state (UpdateParentStatus_cube \<lparr>co_Client = cube_cli, co_CurrentQuota = Some c, co_OldQuota = None\<rparr> True) w
           = (Ret None, v) \<and>
         w' = v(cube_key (cq_Name c) \<mapsto> c\<lparr>cq_Finalizers := RemoveFinalizer (cq_Finalizers c) Finalizer\<rparr>)"
  using assms
  by (auto simp: Reconcile_cube_quota_def removeFinalizer_cube_def split: prod.splits go.splits option.splits if_splits)

subsection \<open>The step relation\<close>

text \<open>
  \<open>admit_child\<close>: a child of \<open>P\<close> is created or updated. \<open>delete_child\<close>: a child is
  deleted; the store drops it once its last finalizer is gone. \<open>resize_parent\<close>: the hard
  values of \<open>P\<close> change, its status is carried over.
\<close>

definition nonneg :: "resource_list \<Rightarrow> bool" where
  "nonneg l = list_all (\<lambda>(k, v). 0 \<le> v) (slice_elems l)"

inductive quota_step :: "(resource_list \<Rightarrow> resource_list \<Rightarrow> bool) \<Rightarrow> string \<Rightarrow> cubes \<Rightarrow> cubes \<Rightarrow> bool"
  for eq :: "resource_list \<Rightarrow> resource_list \<Rightarrow> bool" and P :: string where
  create_child:
    "w (cube_key (cq_Name c)) = None \<Longrightarrow> cq_ParentQuota c = P \<Longrightarrow> \<not> isTenantKind [Some c] \<Longrightarrow>
     cq_DeletionTimestamp c = None \<Longrightarrow> cq_Hard c \<noteq> None \<Longrightarrow> nonneg (cq_Hard c) \<Longrightarrow>
     fst (run_state (Handle_cube_quota cube_cli Create (Inr c) raw) w) = Ret Allowed \<Longrightarrow>
     run_state (Reconcile_cube_quota eq cube_cli (cube_key (cq_Name c))) (w(cube_key (cq_Name c) \<mapsto> c)) = (Ret None, w') \<Longrightarrow>
     quota_step eq P w w'"
| update_child:
    "w (cube_key (cq_Name c)) = Some old \<Longrightarrow> cq_ParentQuota old = P \<Longrightarrow> cq_ParentQuota c = P \<Longrightarrow>
     \<not> isTenantKind [Some c, Some old] \<Longrightarrow>
     cq_DeletionTimestamp c = None \<Longrightarrow> cq_Hard c \<noteq> None \<Longrightarrow> nonneg (cq_Hard c) \<Longrightarrow>
     fst (run_state (Handle_cube_quota cube_cli Update (Inr c) (Inr old)) w) = Ret Allowed \<Longrightarrow>
     run_state (Reconcile_cube_quota eq cube_cli (cube_key (cq_Name c))) (w(cube_key (cq_Name c) \<mapsto> c)) = (Ret None, w') \<Longrightarrow>
     quota_step eq P w w'"
| delete_child:
    "w (cube_key (cq_Name old)) = Some old \<Longrightarrow> cq_ParentQuota old = P \<Longrightarrow>
     fst (run_state (Handle_cube_quota cube_cli Delete cur (Inr old)) w) = Ret Allowed \<Longrightarrow>
     run_state (Reconcile_cube_quota eq cube_cli (cube_key (cq_Name old)))
       (w(cube_key (cq_Name old) \<mapsto> old\<lparr>cq_DeletionTimestamp := Some t\<rparr>)) = (Ret None, w') \<Longrightarrow>
     quota_step eq P w (w'(cube_key (cq_Name old) := None))"
| resize_parent:
    "w (cube_key P) = Some old \<Longrightarrow> cq_Name c = P \<Longrightarrow> cq_ParentQuota c \<noteq> P \<Longrightarrow> cq_Status c = cq_Status old \<Longrightarrow>
     cq_DeletionTimestamp c = None \<Longrightarrow> cq_Hard c \<noteq> None \<Longrightarrow> nonneg (cq_Hard c) \<Longrightarrow>
     fst (run_state (Handle_cube_quota cube_cli Update (Inr c) (Inr old)) w) = Ret Allowed \<Longrightarrow>
     run_state (Reconcile_cube_quota eq cube_cli (cube_key P)) (w(cube_key P \<mapsto> c)) = (Ret None, w') \<Longrightarrow>
     quota_step eq P w w'"

subsection \<open>The books of a parent\<close>

definition children :: "string \<Rightarrow> cubes \<Rightarrow> string set" where
  "children P w = {n. \<exists>c. w (cube_key n) = Some c \<and> cq_ParentQuota c = P}"

definition hard_in :: "cubes \<Rightarrow> string \<Rightarrow> string \<Rightarrow> quantity" where
  "hard_in w n rs = (case w (cube_key n) of None \<Rightarrow> 0 | Some c \<Rightarrow> val0 (cq_Hard c) rs)"

definition total_hard :: "string \<Rightarrow> cubes \<Rightarrow> string \<Rightarrow> quantity" where
  "total_hard P w rs = (\<Sum>n\<in>children P w. hard_in w n rs)"

definition listed :: "string \<Rightarrow> cubes \<Rightarrow> CubeResourceQuota \<Rightarrow> bool" where
  "listed P w p \<longleftrightarrow>
     distinct (slice_elems (st_SubResourceQuotas (cq_Status p))) \<and>
     set (slice_elems (st_SubResourceQuotas (cq_Status p))) = print_sub_cube ` children P w"

definition balanced :: "string \<Rightarrow> cubes \<Rightarrow> CubeResourceQuota \<Rightarrow> bool" where
  "balanced P w p \<longleftrightarrow>
     (\<forall>rs\<in>set ResourceNames.
        case gm_get (st_Used (cq_Status p)) rs of
          None \<Rightarrow> \<forall>n c. w (cube_key n) = Some c \<and> cq_ParentQuota c = P \<longrightarrow> gm_get (cq_Hard c) rs = None
        | Some u \<Rightarrow> u = total_hard P w rs \<and> (\<exists>h. gm_get (cq_Hard p) rs = Some h \<and> u \<le> h))"

definition child_ok :: "CubeResourceQuota \<Rightarrow> bool" where
  "child_ok c \<longleftrightarrow> cq_Hard c \<noteq> None \<and> nonneg (cq_Hard c) \<and> Finalizer \<in> set (cq_Finalizers c)"

definition books :: "string \<Rightarrow> cubes \<Rightarrow> bool" where
  "books P w \<longleftrightarrow> named w \<and> P \<noteq> [] \<and>
     (\<forall>n c. w (cube_key n) = Some c \<and> cq_ParentQuota c = P \<longrightarrow> child_ok c) \<and>
     (\<exists>p. w (cube_key P) = Some p \<and> cq_ParentQuota p \<noteq> P \<and>
        st_Used (cq_Status p) \<noteq> None \<and> st_Hard (cq_Status p) \<noteq> None \<and> listed P w p \<and> balanced P w p)"

lemma inj_print_sub_cube: "inj print_sub_cube"
  by (simp add: inj_def cube_children.print_inj)

lemma listed_finite: "listed P w p \<Longrightarrow> finite (children P w)"
  by (metis List.finite_set finite_imageD inj_on_subset inj_print_sub_cube listed_def subset_UNIV)

lemma cube_child_print:
  "w (cube_key n) = Some c \<Longrightarrow> cq_Name c = n \<Longrightarrow> cube_child w (Some c) (print_sub_cube m) = w (cube_key m)"
  by (cases "n = m") (simp_all add: child_of_def pick_def)

lemma update_subs_set:
  "distinct (slice_elems S) \<Longrightarrow> distinct (slice_elems (update_subs flush s S))"
  "set (slice_elems (update_subs flush s S)) = (if flush then set (slice_elems S) - {s} else insert s (set (slice_elems S)))"
  by (auto simp: update_subs_def slice_elems_def split: option.splits)

text \<open>What a refresh writes, when all children in the updated list exist.\<close>

lemma refresh_total:
  assumes ref: "refreshed_status (\<lambda>s. map_option cq_Hard (cube_child w (Some c) s))
                  (update_subs flush (print_sub_cube n) S) st st'"
    and c: "w (cube_key n) = Some c" "cq_Name c = n"
    and S: "distinct (slice_elems S)" "set (slice_elems S) = print_sub_cube ` K"
    and K': "K' = (if flush then K - {n} else insert n K)" "\<And>m. m \<in> K' \<Longrightarrow> w (cube_key m) \<noteq> None"
  shows "distinct (slice_elems (st_SubResourceQuotas st'))"
    and "set (slice_elems (st_SubResourceQuotas st')) = print_sub_cube ` K'"
    and "rs \<in> set ResourceNames \<Longrightarrow>
      gm_get (st_Used st') rs = map_option (\<lambda>_. \<Sum>m\<in>K'. hard_in w m rs) (gm_get (st_Used st) rs)"
proof -
  let ?U = "update_subs flush (print_sub_cube n) S"
  let ?child = "\<lambda>s. map_option cq_Hard (cube_child w (Some c) s)"
  note inj = inj_print_sub_cube
  have dist: "distinct (slice_elems ?U)" by (simp add: update_subs_set S(1))
  have elems: "set (slice_elems ?U) = print_sub_cube ` K'"
    using inj by (simp add: update_subs_set S(2) K'(1) image_set_diff)
  have ch: "?child (print_sub_cube m) = map_option cq_Hard (w (cube_key m))" for m
    by (simp add: cube_child_print [of w n c, OF c])
  have all: "\<And>s. s \<in> set (slice_elems ?U) \<Longrightarrow> ?child s \<noteq> None"
    using elems K'(2) by (auto simp: cube_child_print [of w n c, OF c])
  have "slice_elems (st_SubResourceQuotas st') = filter (\<lambda>s. ?child s \<noteq> None) (slice_elems ?U)"
    using ref by (cases ?U) (simp_all add: refreshed_status_def slice_elems_def)
  also have "\<dots> = slice_elems ?U" using all by (simp add: filter_id_conv)
  finally have subs: "slice_elems (st_SubResourceQuotas st') = slice_elems ?U" .
  with dist elems show "distinct (slice_elems (st_SubResourceQuotas st'))"
    "set (slice_elems (st_SubResourceQuotas st')) = print_sub_cube ` K'" by simp_all
  let ?val = "\<lambda>s. case ?child s of None \<Rightarrow> 0 | Some h \<Rightarrow> val0 h rs"
  have "sum_list (map ?val (slice_elems ?U)) = sum ?val (print_sub_cube ` K')"
    using dist by (simp add: sum_list_distinct_conv_sum_set elems)
  also have "\<dots> = (\<Sum>m\<in>K'. ?val (print_sub_cube m))"
    using inj by (subst sum.reindex) (auto simp: inj_def inj_on_def)
  also have "\<dots> = (\<Sum>m\<in>K'. hard_in w m rs)"
    by (rule sum.cong) (auto simp: ch hard_in_def split: option.splits)
  finally show "rs \<in> set ResourceNames \<Longrightarrow>
      gm_get (st_Used st') rs = map_option (\<lambda>_. \<Sum>m\<in>K'. hard_in w m rs) (gm_get (st_Used st) rs)"
    using ref by (simp add: refreshed_status_def)
qed

lemma hard_in_upd [simp]:
  "hard_in (w(cube_key n \<mapsto> c)) m rs = (if m = n then val0 (cq_Hard c) rs else hard_in w m rs)"
  by (simp add: hard_in_def)

lemma children_upd:
  "children P (w(cube_key n \<mapsto> c)) = (if cq_ParentQuota c = P then insert n (children P w) else children P w - {n})"
  by (auto simp: children_def)

text \<open>A change of status alone does not touch the children and their sum.\<close>

lemma total_status:
  assumes "w (cube_key n) = Some c" and "cq_ParentQuota c' = cq_ParentQuota c" and "cq_Hard c' = cq_Hard c"
  shows "children P (w(cube_key n \<mapsto> c')) = children P w"
    and "total_hard P (w(cube_key n \<mapsto> c')) rs = total_hard P w rs"
proof -
  show ch: "children P (w(cube_key n \<mapsto> c')) = children P w" using assms(1,2) by (auto simp: children_def)
  show "total_hard P (w(cube_key n \<mapsto> c')) rs = total_hard P w rs"
    unfolding total_hard_def ch using assms by (intro sum.cong) (auto simp: hard_in_def)
qed

lemma total_set_child:
  assumes "finite (children P w)" and "cq_ParentQuota c = P"
    and "n \<notin> children P w \<Longrightarrow> w (cube_key n) = None"
  shows "total_hard P (w(cube_key n \<mapsto> c)) rs = total_hard P w rs - hard_in w n rs + val0 (cq_Hard c) rs"
proof -
  have a: "total_hard P (w(cube_key n \<mapsto> c)) rs =
      val0 (cq_Hard c) rs + (\<Sum>m\<in>children P w - {n}. hard_in w m rs)"
    using assms(1,2) by (simp add: total_hard_def children_upd sum.insert_remove)
  have b: "(\<Sum>m\<in>children P w - {n}. hard_in w m rs) = total_hard P w rs - hard_in w n rs"
  proof (cases "n \<in> children P w")
    case True
    with assms(1) show ?thesis by (simp add: total_hard_def sum_diff1)
  next
    case False
    with assms(3) show ?thesis by (simp add: total_hard_def hard_in_def)
  qed
  show ?thesis by (simp only: a b)
qed

lemma fits_unset: "fits ph pu ch old rs \<Longrightarrow> gm_get pu rs = None \<Longrightarrow> gm_get ch rs = None"
  by (auto simp: fits_def split: option.splits)

lemma fits_bound:
  "fits ph pu ch old rs \<Longrightarrow> gm_get pu rs = Some u \<Longrightarrow> gm_get ph rs = Some h \<Longrightarrow> u - hard0 old rs + val0 ch rs \<le> h"
  by (auto simp: fits_def val0_def split: option.splits)

text \<open>Updating the parent of a child, in terms of the children that stay listed.\<close>

lemma refresh_parent:
  assumes nm: "named w" and P: "P \<noteq> []" and p: "w (cube_key P) = Some p"
    and c: "w (cube_key (cq_Name c)) = Some c" "cq_ParentQuota c = P"
    and up: "run_state (UpdateParentStatus_cube \<lparr>co_Client = cube_cli, co_CurrentQuota = Some c, co_OldQuota = None\<rparr> flush) w
             = (Ret None, w')"
    and S: "distinct (slice_elems (st_SubResourceQuotas (cq_Status p)))"
      "set (slice_elems (st_SubResourceQuotas (cq_Status p))) = print_sub_cube ` K"
    and K': "K' = (if flush then K - {cq_Name c} else insert (cq_Name c) K)" "\<And>m. m \<in> K' \<Longrightarrow> w (cube_key m) \<noteq> None"
  shows "\<exists>st'. w' = w(cube_key P \<mapsto> p\<lparr>cq_Status := st'\<rparr>) \<and>
     distinct (slice_elems (st_SubResourceQuotas st')) \<and>
     set (slice_elems (st_SubResourceQuotas st')) = print_sub_cube ` K' \<and>
     st_Hard st' = st_Hard (cq_Status p) \<and> (st_Used st' = None \<longleftrightarrow> st_Used (cq_Status p) = None) \<and>
     (\<forall>rs\<in>set ResourceNames. gm_get (st_Used st') rs =
        map_option (\<lambda>_. \<Sum>m\<in>K'. hard_in w m rs) (gm_get (st_Used (cq_Status p)) rs))"
proof -
  from UpdateParentStatus_cube_run [where view = "\<lambda>w. w" and objs = "\<lambda>w. w", OF cube_store_client nm up]
  obtain st' where w': "w' = w(cube_key P \<mapsto> p\<lparr>cq_Status := st'\<rparr>)"
    and ref: "refreshed_status (\<lambda>s. map_option cq_Hard (cube_child w (Some c) s))
         (update_subs flush (print_sub_cube (cq_Name c)) (st_SubResourceQuotas (cq_Status p))) (cq_Status p) st'"
    using c(2) P p by auto
  from refresh_total [OF ref c(1) refl S K'] w' ref show ?thesis
    by (auto simp: refreshed_status_def)
qed

text \<open>The invariant from its parts, after a step that ends in a refresh of the parent.\<close>

lemma books_status:
  assumes "named w" and "P \<noteq> []" and p: "w (cube_key P) = Some p" and "cq_ParentQuota p \<noteq> P"
    and "\<And>n c. w (cube_key n) = Some c \<Longrightarrow> cq_ParentQuota c = P \<Longrightarrow> child_ok c"
    and "st_Used st \<noteq> None" and "st_Hard st \<noteq> None"
    and "distinct (slice_elems (st_SubResourceQuotas st))"
    and "set (slice_elems (st_SubResourceQuotas st)) = print_sub_cube ` children P w"
    and bal: "balanced P w (p\<lparr>cq_Status := st\<rparr>)"
  shows "books P (w(cube_key P \<mapsto> p\<lparr>cq_Status := st\<rparr>))"
proof -
  let ?w = "w(cube_key P \<mapsto> p\<lparr>cq_Status := st\<rparr>)"
  have ch: "children P ?w = children P w" and tot: "\<And>rs. total_hard P ?w rs = total_hard P w rs"
    by (rule total_status [where c = p]; use p in simp)+
  have "balanced P ?w (p\<lparr>cq_Status := st\<rparr>)"
    using bal assms(4) unfolding balanced_def tot by (auto split: option.splits)
  moreover have "listed P ?w (p\<lparr>cq_Status := st\<rparr>)" using assms(8,9) ch by (simp add: listed_def)
  moreover have "named ?w" using assms(1) p by (simp add: named_def)
  ultimately show ?thesis using assms(2,4-7) by (auto simp: books_def)
qed

text \<open>Writing an admitted child and reconciling it keeps the parent's books.\<close>

lemma set_child_balanced:
  assumes ba: "balanced P w p" and fin: "finite (children P w)"
    and c: "cq_ParentQuota c = P" and n: "n \<notin> children P w \<Longrightarrow> w (cube_key n) = None"
    and fit: "list_all (fits (cq_Hard p) (st_Used (cq_Status p)) (cq_Hard c) (map_option cq_Hard (w (cube_key n)))) ResourceNames"
    and used: "\<And>rs. rs \<in> set ResourceNames \<Longrightarrow> gm_get (st_Used st') rs =
        map_option (\<lambda>_. total_hard P (w(cube_key n \<mapsto> c)) rs) (gm_get (st_Used (cq_Status p)) rs)"
  shows "balanced P (w(cube_key n \<mapsto> c)) (p\<lparr>cq_Status := st'\<rparr>)"
  unfolding balanced_def
proof
  fix rs assume rs: "rs \<in> set ResourceNames"
  with fit have f: "fits (cq_Hard p) (st_Used (cq_Status p)) (cq_Hard c) (map_option cq_Hard (w (cube_key n))) rs"
    by (simp add: list_all_iff)
  have old: "hard0 (map_option cq_Hard (w (cube_key n))) rs = hard_in w n rs"
    by (simp add: hard0_def hard_in_def val0_def split: option.splits)
  show "case gm_get (st_Used (cq_Status (p\<lparr>cq_Status := st'\<rparr>))) rs of
      None \<Rightarrow> \<forall>m d. (w(cube_key n \<mapsto> c)) (cube_key m) = Some d \<and> cq_ParentQuota d = P \<longrightarrow> gm_get (cq_Hard d) rs = None
    | Some u \<Rightarrow> u = total_hard P (w(cube_key n \<mapsto> c)) rs \<and> (\<exists>h. gm_get (cq_Hard (p\<lparr>cq_Status := st'\<rparr>)) rs = Some h \<and> u \<le> h)"
  proof (cases "gm_get (st_Used (cq_Status p)) rs")
    case None
    with ba rs have "\<And>m d. w (cube_key m) = Some d \<Longrightarrow> cq_ParentQuota d = P \<Longrightarrow> gm_get (cq_Hard d) rs = None"
      unfolding balanced_def by fastforce
    with None fits_unset [OF f None] used [OF rs] show ?thesis by auto
  next
    case (Some u)
    with ba rs obtain h where "u = total_hard P w rs" and h: "gm_get (cq_Hard p) rs = Some h"
      unfolding balanced_def by fastforce
    with fits_bound [OF f Some h] old total_set_child [OF fin c n, of rs]
    have "total_hard P (w(cube_key n \<mapsto> c)) rs \<le> h" by simp
    with Some used [OF rs] h show ?thesis by simp
  qed
qed

lemma set_child_books:
  assumes inv: "books P w" and p: "w (cube_key P) = Some p"
    and c: "cq_ParentQuota c = P" "cq_DeletionTimestamp c = None" "cq_Hard c \<noteq> None" "nonneg (cq_Hard c)"
    and old: "cq_Name c \<notin> children P w \<Longrightarrow> w (cube_key (cq_Name c)) = None"
    and fit: "list_all (fits (cq_Hard p) (st_Used (cq_Status p)) (cq_Hard c)
               (map_option cq_Hard (w (cube_key (cq_Name c))))) ResourceNames"
    and run: "run_state (Reconcile_cube_quota eq cube_cli (cube_key (cq_Name c))) (w(cube_key (cq_Name c) \<mapsto> c)) = (Ret None, w')"
  shows "books P w'"
proof -
  let ?n = "cq_Name c"
  have nm: "named w" and P: "P \<noteq> []" "cq_ParentQuota p \<noteq> P" and li: "listed P w p" and ba: "balanced P w p"
    and ok: "\<And>n c. w (cube_key n) = Some c \<Longrightarrow> cq_ParentQuota c = P \<Longrightarrow> child_ok c"
    and st: "st_Used (cq_Status p) \<noteq> None" "st_Hard (cq_Status p) \<noteq> None"
    using inv p by (auto simp: books_def)
  have neq: "?n \<noteq> P" using old p P(2) by (auto simp: children_def)
  obtain c' where c': "same_spec c c'" "Finalizer \<in> set (cq_Finalizers c')"
    and up: "run_state (UpdateParentStatus_cube \<lparr>co_Client = cube_cli, co_CurrentQuota = Some c', co_OldQuota = None\<rparr> False)
       (w(cube_key ?n \<mapsto> c')) = (Ret None, w')"
    using Reconcile_store [of "w(cube_key ?n \<mapsto> c)" ?n c eq w'] nm run c(2) by auto
  let ?w1 = "w(cube_key ?n \<mapsto> c')"
  have same: "cq_Name c' = ?n" "cq_ParentQuota c' = P" "cq_Hard c' = cq_Hard c" using c'(1) c(1) by (auto simp: same_spec_def)
  have ch1: "children P ?w1 = insert ?n (children P w)" using same by (simp add: children_upd)
  have p1: "?w1 (cube_key P) = Some p" using p neq by simp
  have nm1: "named ?w1" using nm same by simp
  have "\<exists>st'. w' = ?w1(cube_key P \<mapsto> p\<lparr>cq_Status := st'\<rparr>) \<and>
     distinct (slice_elems (st_SubResourceQuotas st')) \<and>
     set (slice_elems (st_SubResourceQuotas st')) = print_sub_cube ` children P ?w1 \<and>
     st_Hard st' = st_Hard (cq_Status p) \<and> (st_Used st' = None \<longleftrightarrow> st_Used (cq_Status p) = None) \<and>
     (\<forall>rs\<in>set ResourceNames. gm_get (st_Used st') rs =
        map_option (\<lambda>_. \<Sum>m\<in>children P ?w1. hard_in ?w1 m rs) (gm_get (st_Used (cq_Status p)) rs))"
  proof (rule refresh_parent [OF nm1 P(1) p1 _ same(2) up, where K = "children P w"])
    show "?w1 (cube_key (cq_Name c')) = Some c'" using same by simp
    show "m \<in> children P ?w1 \<Longrightarrow> ?w1 (cube_key m) \<noteq> None" for m by (auto simp: children_def)
  qed (use li ch1 same in \<open>simp_all add: listed_def\<close>)
  then obtain st' where w': "w' = ?w1(cube_key P \<mapsto> p\<lparr>cq_Status := st'\<rparr>)"
    and subs: "distinct (slice_elems (st_SubResourceQuotas st'))"
      "set (slice_elems (st_SubResourceQuotas st')) = print_sub_cube ` children P ?w1"
    and stat: "st_Hard st' = st_Hard (cq_Status p)" "st_Used st' = None \<longleftrightarrow> st_Used (cq_Status p) = None"
    and sums: "\<forall>rs\<in>set ResourceNames. gm_get (st_Used st') rs =
        map_option (\<lambda>_. \<Sum>m\<in>children P ?w1. hard_in ?w1 m rs) (gm_get (st_Used (cq_Status p)) rs)"
    by (elim exE conjE) (rule that)
  have used: "gm_get (st_Used st') rs = map_option (\<lambda>_. total_hard P ?w1 rs) (gm_get (st_Used (cq_Status p)) rs)"
    if "rs \<in> set ResourceNames" for rs
    using sums that unfolding total_hard_def by blast
  have bal: "balanced P ?w1 (p\<lparr>cq_Status := st'\<rparr>)"
    using set_child_balanced [OF ba listed_finite [OF li] same(2) old _ used] fit same(3) by simp
  have "child_ok c'" using c c' same by (simp add: child_ok_def)
  then have ok1: "\<And>m d. ?w1 (cube_key m) = Some d \<Longrightarrow> cq_ParentQuota d = P \<Longrightarrow> child_ok d"
    using ok by (auto split: if_splits)
  show ?thesis
    unfolding w' by (rule books_status [OF nm1 P(1) p1 P(2) ok1 _ _ subs bal]) (use st stat in simp_all)
qed

text \<open>Deleting a child.\<close>

lemma nonneg_val0: "nonneg l \<Longrightarrow> 0 \<le> val0 l k"
  by (cases l) (auto simp: nonneg_def val0_def slice_elems_def list_all_iff split: option.splits dest: map_of_SomeD)

lemma delete_child_balanced:
  assumes ba: "balanced P w p" and fin: "finite (children P w)"
    and c: "w (cube_key n) = Some c" "cq_ParentQuota c = P" "nonneg (cq_Hard c)"
    and used: "\<And>rs. rs \<in> set ResourceNames \<Longrightarrow> gm_get (st_Used st') rs =
        map_option (\<lambda>_. total_hard P (w(cube_key n := None)) rs) (gm_get (st_Used (cq_Status p)) rs)"
  shows "balanced P (w(cube_key n := None)) (p\<lparr>cq_Status := st'\<rparr>)"
  unfolding balanced_def
proof
  let ?w = "w(cube_key n := None)"
  fix rs assume rs: "rs \<in> set ResourceNames"
  have "children P ?w = children P w - {n}" by (auto simp: children_def)
  moreover have "(\<Sum>m\<in>children P w - {n}. hard_in ?w m rs) = (\<Sum>m\<in>children P w - {n}. hard_in w m rs)"
    by (rule sum.cong) (auto simp: hard_in_def)
  moreover have "n \<in> children P w" using c by (auto simp: children_def)
  ultimately have "total_hard P ?w rs = total_hard P w rs - hard_in w n rs"
    using fin by (simp add: total_hard_def sum_diff1)
  moreover have "0 \<le> hard_in w n rs" using c nonneg_val0 by (simp add: hard_in_def)
  ultimately have le: "total_hard P ?w rs \<le> total_hard P w rs" by simp
  show "case gm_get (st_Used (cq_Status (p\<lparr>cq_Status := st'\<rparr>))) rs of
      None \<Rightarrow> \<forall>m d. ?w (cube_key m) = Some d \<and> cq_ParentQuota d = P \<longrightarrow> gm_get (cq_Hard d) rs = None
    | Some u \<Rightarrow> u = total_hard P ?w rs \<and> (\<exists>h. gm_get (cq_Hard (p\<lparr>cq_Status := st'\<rparr>)) rs = Some h \<and> u \<le> h)"
  proof (cases "gm_get (st_Used (cq_Status p)) rs")
    case None
    with ba rs have "\<And>m d. w (cube_key m) = Some d \<Longrightarrow> cq_ParentQuota d = P \<Longrightarrow> gm_get (cq_Hard d) rs = None"
      unfolding balanced_def by fastforce
    with None used [OF rs] show ?thesis by auto
  next
    case (Some u)
    with ba rs obtain h where "u = total_hard P w rs" and h: "gm_get (cq_Hard p) rs = Some h" "u \<le> h"
      unfolding balanced_def by fastforce
    with le Some used [OF rs] show ?thesis by simp
  qed
qed

lemma delete_child_books:
  assumes inv: "books P w" and old: "w (cube_key (cq_Name old)) = Some old" "cq_ParentQuota old = P"
    and run: "run_state (Reconcile_cube_quota eq cube_cli (cube_key (cq_Name old)))
       (w(cube_key (cq_Name old) \<mapsto> old\<lparr>cq_DeletionTimestamp := Some t\<rparr>)) = (Ret None, w')"
  shows "books P (w'(cube_key (cq_Name old) := None))"
proof -
  let ?n = "cq_Name old"
  let ?d = "old\<lparr>cq_DeletionTimestamp := Some t\<rparr>"
  let ?w1 = "w(cube_key ?n \<mapsto> ?d)"
  let ?w2 = "w(cube_key ?n := None)"
  from inv obtain p where nm: "named w" and P: "P \<noteq> []" "cq_ParentQuota p \<noteq> P" and p: "w (cube_key P) = Some p"
    and li: "listed P w p" and ba: "balanced P w p"
    and ok: "\<And>n c. w (cube_key n) = Some c \<Longrightarrow> cq_ParentQuota c = P \<Longrightarrow> child_ok c"
    and st: "st_Used (cq_Status p) \<noteq> None" "st_Hard (cq_Status p) \<noteq> None"
    by (auto simp: books_def)
  have neq: "?n \<noteq> P" using old p P(2) by auto
  have okd: "child_ok old" using ok old by blast
  obtain v where up: "run_state (UpdateParentStatus_cube \<lparr>co_Client = cube_cli, co_CurrentQuota = Some ?d, co_OldQuota = None\<rparr> True) ?w1
           = (Ret None, v)"
    and w': "w'(cube_key ?n := None) = v(cube_key ?n := None)"
    using Reconcile_store_delete [of ?w1 ?n ?d eq w'] run okd by (auto simp: child_ok_def)
  have p1: "?w1 (cube_key P) = Some p" "?w2 (cube_key P) = Some p" using p neq by simp_all
  have nm1: "named ?w1" "named ?w2" using nm by (simp_all add: named_def)
  have ch: "children P ?w2 = children P w - {?n}" by (auto simp: children_def)
  have "\<exists>st'. v = ?w1(cube_key P \<mapsto> p\<lparr>cq_Status := st'\<rparr>) \<and>
     distinct (slice_elems (st_SubResourceQuotas st')) \<and>
     set (slice_elems (st_SubResourceQuotas st')) = print_sub_cube ` children P ?w2 \<and>
     st_Hard st' = st_Hard (cq_Status p) \<and> (st_Used st' = None \<longleftrightarrow> st_Used (cq_Status p) = None) \<and>
     (\<forall>rs\<in>set ResourceNames. gm_get (st_Used st') rs =
        map_option (\<lambda>_. \<Sum>m\<in>children P ?w2. hard_in ?w1 m rs) (gm_get (st_Used (cq_Status p)) rs))"
  proof (rule refresh_parent [OF nm1(1) P(1) p1(1) _ _ up, where K = "children P w"])
    show "m \<in> children P ?w2 \<Longrightarrow> ?w1 (cube_key m) \<noteq> None" for m by (auto simp: children_def split: if_splits)
  qed (use li ch old in \<open>simp_all add: listed_def\<close>)
  then obtain st' where v: "v = ?w1(cube_key P \<mapsto> p\<lparr>cq_Status := st'\<rparr>)"
    and subs: "distinct (slice_elems (st_SubResourceQuotas st'))"
      "set (slice_elems (st_SubResourceQuotas st')) = print_sub_cube ` children P ?w2"
    and stat: "st_Hard st' = st_Hard (cq_Status p)" "st_Used st' = None \<longleftrightarrow> st_Used (cq_Status p) = None"
    and sums: "\<forall>rs\<in>set ResourceNames. gm_get (st_Used st') rs =
        map_option (\<lambda>_. \<Sum>m\<in>children P ?w2. hard_in ?w1 m rs) (gm_get (st_Used (cq_Status p)) rs)"
    by (elim exE conjE) (rule that)
  have "(\<Sum>m\<in>children P ?w2. hard_in ?w1 m rs) = total_hard P ?w2 rs" for rs
    unfolding total_hard_def by (rule sum.cong) (auto simp: ch hard_in_def)
  then have used: "gm_get (st_Used st') rs = map_option (\<lambda>_. total_hard P ?w2 rs) (gm_get (st_Used (cq_Status p)) rs)"
    if "rs \<in> set ResourceNames" for rs
    using sums that by simp
  have bal: "balanced P ?w2 (p\<lparr>cq_Status := st'\<rparr>)"
    using delete_child_balanced [OF ba listed_finite [OF li] old _ used] okd by (simp add: child_ok_def)
  have ok2: "\<And>m d. ?w2 (cube_key m) = Some d \<Longrightarrow> cq_ParentQuota d = P \<Longrightarrow> child_ok d"
    using ok by (auto split: if_splits)
  have "w'(cube_key ?n := None) = ?w2(cube_key P \<mapsto> p\<lparr>cq_Status := st'\<rparr>)"
    unfolding w' v using neq by (auto simp: fun_eq_iff)
  moreover have "books P (?w2(cube_key P \<mapsto> p\<lparr>cq_Status := st'\<rparr>))"
    by (rule books_status [OF nm1(2) P(1) p1(2) P(2) ok2 _ _ subs bal]) (use st stat in simp_all)
  ultimately show ?thesis by simp
qed

text \<open>Changing the hard values of the parent.\<close>

lemma books_other_status:
  assumes inv: "books P w" and g: "w (cube_key G) = Some g" and neq: "G \<noteq> P"
  shows "books P (w(cube_key G \<mapsto> g\<lparr>cq_Status := st\<rparr>))"
proof -
  let ?w = "w(cube_key G \<mapsto> g\<lparr>cq_Status := st\<rparr>)"
  have ch: "children P ?w = children P w" and tot: "\<And>rs. total_hard P ?w rs = total_hard P w rs"
    by (rule total_status [where c = g]; use g in simp)+
  from inv obtain p where p: "w (cube_key P) = Some p" "listed P w p" "balanced P w p" by (auto simp: books_def)
  have "balanced P ?w p"
    using p(3) g unfolding balanced_def tot by (auto split: option.splits)
  moreover have "listed P ?w p" using p(2) ch by (simp add: listed_def)
  moreover have "named ?w" using inv g by (simp add: books_def named_def)
  ultimately show ?thesis using inv p(1) neq g by (auto simp: books_def child_ok_def)
qed

lemma total_hard_zero:
  "(\<And>n c. w (cube_key n) = Some c \<Longrightarrow> cq_ParentQuota c = P \<Longrightarrow> gm_get (cq_Hard c) rs = None) \<Longrightarrow> total_hard P w rs = 0"
  unfolding total_hard_def by (rule sum.neutral) (auto simp: children_def hard_in_def val0_def)

lemma resize_balanced:
  assumes ba: "balanced P w p" and upd: "AllowedUpdate c p" and nn: "nonneg (cq_Hard c)"
    and ext: "extended (cq_Hard c) (st_Used (cq_Status p)) (st_Used (cq_Status c'))"
    and c': "cq_Hard c' = cq_Hard c"
  shows "balanced P w c'"
  unfolding balanced_def
proof
  fix rs assume rs: "rs \<in> set ResourceNames"
  from ext have ext: "gm_get (st_Used (cq_Status c')) rs =
     (case gm_get (st_Used (cq_Status p)) rs of Some u \<Rightarrow> Some u | None \<Rightarrow> if gm_has (cq_Hard c) rs then Some 0 else None)"
    by (simp add: extended_def)
  show "case gm_get (st_Used (cq_Status c')) rs of
      None \<Rightarrow> \<forall>m d. w (cube_key m) = Some d \<and> cq_ParentQuota d = P \<longrightarrow> gm_get (cq_Hard d) rs = None
    | Some u \<Rightarrow> u = total_hard P w rs \<and> (\<exists>h. gm_get (cq_Hard c') rs = Some h \<and> u \<le> h)"
  proof (cases "gm_get (st_Used (cq_Status p)) rs")
    case None
    with ba rs have none: "\<And>m d. w (cube_key m) = Some d \<Longrightarrow> cq_ParentQuota d = P \<Longrightarrow> gm_get (cq_Hard d) rs = None"
      unfolding balanced_def by fastforce
    then have "total_hard P w rs = 0" by (rule total_hard_zero)
    with None none ext c' nonneg_val0 [OF nn, of rs] show ?thesis by (auto simp: gm_has_def val0_def)
  next
    case (Some u)
    with ba rs have "u = total_hard P w rs" unfolding balanced_def by fastforce
    moreover from upd rs Some obtain h where "gm_get (cq_Hard c) rs = Some h" "u \<le> h"
      by (auto simp: AllowedUpdate_def AllowedUpdate_loop_iff list_all_iff split: option.splits)
    ultimately show ?thesis using Some ext c' by simp
  qed
qed

lemma resize_parent_books:
  assumes inv: "books P w" and p: "w (cube_key P) = Some p"
    and c: "cq_Name c = P" "cq_ParentQuota c \<noteq> P" "cq_Status c = cq_Status p" "cq_DeletionTimestamp c = None"
      "cq_Hard c \<noteq> None" "nonneg (cq_Hard c)"
    and upd: "AllowedUpdate c p"
    and run: "run_state (Reconcile_cube_quota eq cube_cli (cube_key P)) (w(cube_key P \<mapsto> c)) = (Ret None, w')"
  shows "books P w'"
proof -
  from inv p have nm: "named w" and P: "P \<noteq> []" "cq_ParentQuota p \<noteq> P" and li: "listed P w p" and ba: "balanced P w p"
    and ok: "\<And>n c. w (cube_key n) = Some c \<Longrightarrow> cq_ParentQuota c = P \<Longrightarrow> child_ok c"
    and st: "st_Used (cq_Status p) \<noteq> None" "st_Hard (cq_Status p) \<noteq> None" by (auto simp: books_def)
  obtain c' where c': "same_spec c c'" "status_kept c c'"
    and up: "run_state (UpdateParentStatus_cube \<lparr>co_Client = cube_cli, co_CurrentQuota = Some c', co_OldQuota = None\<rparr> False)
       (w(cube_key P \<mapsto> c')) = (Ret None, w')"
    using Reconcile_store [of "w(cube_key P \<mapsto> c)" P c eq w'] nm run c(1,4) by auto
  let ?w1 = "w(cube_key P \<mapsto> c')"
  have same: "cq_Name c' = P" "cq_ParentQuota c' \<noteq> P" "cq_Hard c' = cq_Hard c" using c'(1) c by (auto simp: same_spec_def)
  have kept: "st_SubResourceQuotas (cq_Status c') = st_SubResourceQuotas (cq_Status p)"
      "extended (cq_Hard c) (st_Used (cq_Status p)) (st_Used (cq_Status c'))"
      "st_Used (cq_Status c') \<noteq> None" "st_Hard (cq_Status c') \<noteq> None"
    using c'(2) c(3,5) st by (auto simp: status_kept_def)
  have bal: "balanced P w c'" by (rule resize_balanced [OF ba upd c(6) kept(2) same(3)])
  have ch: "children P ?w1 = children P w" using same(2) P(2) p by (auto simp: children_def)
  have tot: "total_hard P ?w1 rs = total_hard P w rs" for rs
    unfolding total_hard_def ch using P(2) p by (intro sum.cong) (auto simp: children_def)
  have "balanced P ?w1 c'" using bal same(2) unfolding balanced_def tot by (auto split: option.splits)
  moreover have "listed P ?w1 c'" using li ch kept(1) by (simp add: listed_def)
  ultimately have inv1: "books P ?w1" using nm same ok P(1) kept by (auto simp: books_def named_def)
  have nm1: "named ?w1" using nm same by simp
  note acc = UpdateParentStatus_cube_run [where view = "\<lambda>w. w" and objs = "\<lambda>w. w", OF cube_store_client nm1 up]
  show ?thesis
  proof (cases "cq_ParentQuota c' = []")
    case True
    with acc inv1 show ?thesis by simp
  next
    case False
    with acc obtain g st' where "?w1 (cube_key (cq_ParentQuota c')) = Some g"
        "w' = ?w1(cube_key (cq_ParentQuota c') \<mapsto> g\<lparr>cq_Status := st'\<rparr>)"
      by (simp only: if_False) blast
    with books_other_status [OF inv1 _ same(2)] show ?thesis by simp
  qed
qed

subsection \<open>Reachable stores\<close>

lemma Handle_create_fits:
  assumes "fst (run_state (Handle_cube_quota cube_cli Create (Inr c) raw) w) = Ret Allowed"
    and "\<not> isTenantKind [Some c]" and "cq_ParentQuota c \<noteq> []" and "w (cube_key (cq_ParentQuota c)) = Some p"
  shows "list_all (fits (cq_Hard p) (st_Used (cq_Status p)) (cq_Hard c) None) ResourceNames"
proof -
  let ?op = "\<lparr>co_Client = cube_cli, co_CurrentQuota = Some c, co_OldQuota = None\<rparr>"
  obtain r v where ov: "run_state (Overload_cube ?op) w = (r, v)" by fastforce
  with assms(1) obtain why where "r = Ret (Inr (False, why))"
    by (cases r) (auto simp: Handle_cube_quota_def switch_cube_def split: sum.splits if_splits)
  with Overload_cube_allowed [where op = ?op and view = "\<lambda>w. w" and objs = "\<lambda>w. w" and c = c and p = p
      and w = w and why = why and w' = v] assms ov
    store_client_reads [of "\<lambda>q. cube_key (cq_Name q)" cube_set_status]
  show ?thesis by (simp add: nil_hard_def split: if_splits)
qed

lemma Handle_update_allowed:
  assumes "fst (run_state (Handle_cube_quota cli Update (Inr c) (Inr old)) w) = Ret Allowed"
  shows "AllowedUpdate c old"
  using assms by (auto simp: Handle_cube_quota_def switch_cube_def split: if_splits)

lemma quota_step_books:
  assumes "quota_step eq P w w'" and inv: "books P w"
  shows "books P w'"
  using assms(1)
proof cases
  case (create_child c raw)
  from inv obtain p where p: "w (cube_key P) = Some p" "P \<noteq> []" by (auto simp: books_def)
  with Handle_create_fits [of c raw w p] create_child
  have "list_all (fits (cq_Hard p) (st_Used (cq_Status p)) (cq_Hard c) None) ResourceNames" by simp
  with set_child_books [OF inv p(1), of c eq w'] create_child show ?thesis by simp
next
  case (update_child c old)
  from inv obtain p where p: "w (cube_key P) = Some p" "P \<noteq> []" by (auto simp: books_def)
  from inv update_child have hard: "cq_Hard old \<noteq> None" by (auto simp: books_def child_ok_def)
  obtain v where "run_state (Handle_cube_quota cube_cli Update (Inr c) (Inr old)) w = (Ret Allowed, v)"
    using update_child by (metis prod.collapse)
  from Handle_cube_quota_update_facts(2) [where view = "\<lambda>w. w" and objs = "\<lambda>w. w", OF store_client_reads this hard, of p]
  have "list_all (fits (cq_Hard p) (st_Used (cq_Status p)) (cq_Hard c) (Some (cq_Hard old))) ResourceNames"
    using update_child p by simp
  moreover have "cq_Name c \<in> children P w" using update_child by (auto simp: children_def)
  ultimately show ?thesis using set_child_books [OF inv p(1), of c eq w'] update_child by simp
next
  case (delete_child old cur t w'')
  then show ?thesis using delete_child_books [OF inv] by simp
next
  case (resize_parent old c)
  note allowed = Handle_update_allowed [OF resize_parent(8)]
  show ?thesis
    by (rule resize_parent_books [OF inv resize_parent(1-7) allowed resize_parent(9)])
qed

definition quota_init :: "string \<Rightarrow> cubes \<Rightarrow> bool" where
  "quota_init P w \<longleftrightarrow> named w \<and> P \<noteq> [] \<and> children P w = {} \<and>
     (\<exists>q. w (cube_key P) = Some (InitStatus q) \<and> cq_Hard q \<noteq> None \<and> nonneg (cq_Hard q))"

lemma InitStatus_fields [simp]:
  "cq_Hard (InitStatus q) = cq_Hard q" "st_Hard (cq_Status (InitStatus q)) = cq_Hard q"
  "st_SubResourceQuotas (cq_Status (InitStatus q)) = Some []" "st_Used (cq_Status (InitStatus q)) \<noteq> None"
  by (simp_all add: InitStatus_def)

lemma gm_get_init_used [simp]:
  "gm_get (st_Used (cq_Status (InitStatus q))) k = (if gm_has (cq_Hard q) k then Some 0 else None)"
proof -
  have "map_of (map (\<lambda>k. (k, 0 :: int)) ks) k = (if k \<in> set ks then Some 0 else None)" for ks
    by (induction ks) auto
  then show ?thesis by (simp add: InitStatus_def ZeroQ_def gm_has_iff)
qed

lemma quota_init_books:
  assumes "quota_init P w"
  shows "books P w"
proof -
  from assms obtain q where q: "w (cube_key P) = Some (InitStatus q)" "cq_Hard q \<noteq> None" "nonneg (cq_Hard q)"
    and no: "\<And>n c. w (cube_key n) = Some c \<Longrightarrow> cq_ParentQuota c = P \<Longrightarrow> False"
    by (auto simp: quota_init_def children_def)
  have ch: "children P w = {}" using assms by (simp add: quota_init_def)
  have "balanced P w (InitStatus q)"
    unfolding balanced_def
  proof
    fix rs
    have "0 \<le> val0 (cq_Hard q) rs" by (rule nonneg_val0 [OF q(3)])
    with no show "case gm_get (st_Used (cq_Status (InitStatus q))) rs of
        None \<Rightarrow> \<forall>n c. w (cube_key n) = Some c \<and> cq_ParentQuota c = P \<longrightarrow> gm_get (cq_Hard c) rs = None
      | Some u \<Rightarrow> u = total_hard P w rs \<and> (\<exists>h. gm_get (cq_Hard (InitStatus q)) rs = Some h \<and> u \<le> h)"
      by (auto simp: total_hard_def ch gm_has_def val0_def)
  qed
  moreover have "listed P w (InitStatus q)" using ch by (simp add: listed_def slice_elems_def)
  ultimately show ?thesis using assms q no
    unfolding books_def quota_init_def by (metis InitStatus_fields(2,4))
qed


text \<open>One step, from a parent with nine pods: a project quota of three pods is created.\<close>

abbreviation sample_parent :: CubeResourceQuota where
  "sample_parent \<equiv> InitStatus (sample_quota ''p'' [] (Some [(''pods'', 9)]) None)"

abbreviation sample_child :: CubeResourceQuota where
  "sample_child \<equiv> sample_quota ''a'' ''p'' (Some [(''pods'', 3)]) None"

lemma sample_reconcile:
  "run_state (Reconcile_cube_quota (=) cube_cli (cube_key ''a'')) [cube_key ''p'' \<mapsto> sample_parent, cube_key ''a'' \<mapsto> sample_child]
   = (Ret None, [cube_key ''p'' \<mapsto> sample_parent\<lparr>cq_Status := \<lparr>st_Hard = Some [(''pods'', 9)], st_Used = Some [(''pods'', 3)],
                     st_SubResourceQuotas = Some [''a.quota'']\<rparr>\<rparr>,
                 cube_key ''a'' \<mapsto> InitStatus sample_child])"
  by (simp add: Reconcile_cube_quota_def ensureFinalizer_cube_def initCubeQuotaStatus_def ensureSpecAndStatusConsistent_def
      ifUpdateUsed_def gm_keys_def gm_has_def InitStatus_def ZeroQ_def InsertString_def
      UpdateParentStatus_cube_def Parent_cube_def sample_quota_def update_subs_def
      sub_name_cube_def SubFix_def refreshUsedResource_cube_def slice_elems_def getCubeResourceQuota_def
      parse_sub_cube_def Split_def HasPrefix_def Let_def ClearQuotas_def ResourceNames_def
      write_status_cube_def DefaultRetry_def eval_nat_numeral cube_set_status_def fun_eq_iff)

lemma sample_step:
  "quota_step (=) ''p'' [cube_key ''p'' \<mapsto> sample_parent]
     [cube_key ''p'' \<mapsto> sample_parent\<lparr>cq_Status := \<lparr>st_Hard = Some [(''pods'', 9)], st_Used = Some [(''pods'', 3)],
                     st_SubResourceQuotas = Some [''a.quota'']\<rparr>\<rparr>,
      cube_key ''a'' \<mapsto> InitStatus sample_child]"
proof (rule quota_step.create_child [where c = sample_child and raw = "Inl NotFound"])
  show "run_state (Reconcile_cube_quota (=) cube_cli (cube_key (cq_Name sample_child)))
     ([cube_key ''p'' \<mapsto> sample_parent](cube_key (cq_Name sample_child) \<mapsto> sample_child)) =
   (Ret None, [cube_key ''p'' \<mapsto> sample_parent\<lparr>cq_Status := \<lparr>st_Hard = Some [(''pods'', 9)], st_Used = Some [(''pods'', 3)],
                     st_SubResourceQuotas = Some [''a.quota'']\<rparr>\<rparr>,
                 cube_key ''a'' \<mapsto> InitStatus sample_child])"
    using sample_reconcile by (simp add: sample_quota_def)
qed (simp_all add: sample_quota_def nonneg_def slice_elems_def Handle_cube_quota_def switch_cube_def
      Overload_cube_def ProjectObj_def TenantObj_def Parent_cube_def isExceedParent_cube_def ResourceNames_def
      gm_has_def ensureValue_def isExceed_iff InitStatus_def gm_keys_def ZeroQ_def)


end
