(* ===== verification/RbacEval.thy ===== *)
theory RbacEval
  imports Prelude
begin

section \<open>RBAC rule evaluation: pkg/authorizer/rbac/helper and RuleAllows\<close>

text \<open>
  The RBAC objects, the attributes of a request, and the matching functions of
  \<open>pkg/authorizer/rbac/helper/evaluation_helpers.go\<close> with \<open>RuleAllows\<close> of
  \<open>pkg/authorizer/rbac/authorizer.go\<close>. The lemmas give each matcher's exact condition.
\<close>

record PolicyRule =
  pr_Verbs :: "string list"
  pr_APIGroups :: "string list"
  pr_Resources :: "string list"
  pr_ResourceNames :: "string list"
  pr_NonResourceURLs :: "string list"

record Subject =
  su_Kind :: string
  su_Name :: string
  su_Namespace :: string

record RoleRef =
  rr_APIGroup :: string
  rr_Kind :: string
  rr_Name :: string

record Attributes =
  at_User :: string
  at_Verb :: string
  at_Namespace :: string
  at_APIGroup :: string
  at_Resource :: string
  at_Subresource :: string
  at_Name :: string
  at_Path :: string
  at_ResourceRequest :: bool

definition UserKind :: string where "UserKind = ''User''"
definition GroupKind :: string where "GroupKind = ''Group''"
definition ServiceAccountKind :: string where "ServiceAccountKind = ''ServiceAccount''"

subsection \<open>Definitions\<close>

fun verb_loop :: "string list \<Rightarrow> string \<Rightarrow> bool" where
  "verb_loop [] requested = False"
| "verb_loop (r # rs) requested =
     (if r = ''*'' then True else if r = requested then True else verb_loop rs requested)"

definition VerbMatches :: "PolicyRule \<Rightarrow> string \<Rightarrow> bool" where
  "VerbMatches rule requestedVerb = verb_loop (pr_Verbs rule) requestedVerb"

definition APIGroupMatches :: "PolicyRule \<Rightarrow> string \<Rightarrow> bool" where
  "APIGroupMatches rule requestedGroup = verb_loop (pr_APIGroups rule) requestedGroup"

fun resource_loop :: "string list \<Rightarrow> string \<Rightarrow> string \<Rightarrow> bool" where
  "resource_loop [] combined sub = False"
| "resource_loop (ruleResource # rs) combined sub =
     (if ruleResource = ''*'' then True
      else if ruleResource = combined then True
      else if length sub = 0 then resource_loop rs combined sub
      else if length ruleResource = length sub + 2 \<and> HasPrefix ruleResource ''*/'' \<and> HasSuffix ruleResource sub
           then True
      else resource_loop rs combined sub)"

definition ResourceMatches :: "PolicyRule \<Rightarrow> string \<Rightarrow> string \<Rightarrow> bool" where
  "ResourceMatches rule combinedRequestedResource requestedSubresource =
     resource_loop (pr_Resources rule) combinedRequestedResource requestedSubresource"

fun name_loop :: "string list \<Rightarrow> string \<Rightarrow> bool" where
  "name_loop [] requested = False"
| "name_loop (ruleName # rs) requested = (if ruleName = requested then True else name_loop rs requested)"

definition ResourceNameMatches :: "PolicyRule \<Rightarrow> string \<Rightarrow> bool" where
  "ResourceNameMatches rule requestedName =
     (if length (pr_ResourceNames rule) = 0 then True else name_loop (pr_ResourceNames rule) requestedName)"

fun url_loop :: "string list \<Rightarrow> string \<Rightarrow> bool" where
  "url_loop [] requestedURL = False"
| "url_loop (ruleURL # rs) requestedURL =
     (if ruleURL = ''*'' then True
      else if ruleURL = requestedURL then True
      else if HasSuffix ruleURL ''*'' \<and> HasPrefix requestedURL (TrimRight ruleURL (CHR ''*'')) then True
      else url_loop rs requestedURL)"

definition NonResourceURLMatches :: "PolicyRule \<Rightarrow> string \<Rightarrow> bool" where
  "NonResourceURLMatches rule requestedURL = url_loop (pr_NonResourceURLs rule) requestedURL"

definition RuleAllows :: "Attributes \<Rightarrow> PolicyRule \<Rightarrow> bool" where
  "RuleAllows a rule =
     (if at_ResourceRequest a then
        let combinedResource =
              (if length (at_Subresource a) > 0 then at_Resource a @ ''/'' @ at_Subresource a else at_Resource a)
        in VerbMatches rule (at_Verb a) \<and> APIGroupMatches rule (at_APIGroup a) \<and>
           ResourceMatches rule combinedResource (at_Subresource a) \<and>
           ResourceNameMatches rule (at_Name a)
      else VerbMatches rule (at_Verb a) \<and> NonResourceURLMatches rule (at_Path a))"

text \<open>The four lists of \<open>SubjectsStrings\<close>: users, groups, service accounts, others.\<close>

fun SubjectsStrings ::
  "Subject list \<Rightarrow> string list \<times> string list \<times> string list \<times> string list" where
  "SubjectsStrings [] = ([], [], [], [])"
| "SubjectsStrings (s # ss) =
     (case SubjectsStrings ss of (users, groups, sas, others) \<Rightarrow>
        if su_Kind s = ServiceAccountKind then (users, groups, (su_Namespace s @ ''/'' @ su_Name s) # sas, others)
        else if su_Kind s = UserKind then (su_Name s # users, groups, sas, others)
        else if su_Kind s = GroupKind then (users, su_Name s # groups, sas, others)
        else (users, groups, sas, (su_Kind s @ ''/'' @ su_Namespace s @ ''/'' @ su_Name s) # others))"

subsection \<open>Exact conditions\<close>

lemma verb_loop_iff: "verb_loop rs v \<longleftrightarrow> ''*'' \<in> set rs \<or> v \<in> set rs"
  by (induction rs) auto

lemma name_loop_iff: "name_loop rs v \<longleftrightarrow> v \<in> set rs"
  by (induction rs) auto

lemma star_sub_iff:
  "length r = length sub + 2 \<and> HasPrefix r ''*/'' \<and> HasSuffix r sub \<longleftrightarrow> r = ''*/'' @ sub"
proof
  assume "length r = length sub + 2 \<and> HasPrefix r ''*/'' \<and> HasSuffix r sub"
  then have "take 2 r = ''*/''" "drop 2 r = sub"
    by (auto simp: HasPrefix_def HasSuffix_def numeral_2_eq_2)
  then show "r = ''*/'' @ sub" by (metis append_take_drop_id)
qed (auto simp: HasPrefix_iff HasSuffix_iff)

lemma resource_loop_iff:
  "resource_loop rs combined sub \<longleftrightarrow>
     ''*'' \<in> set rs \<or> combined \<in> set rs \<or> sub \<noteq> [] \<and> ''*/'' @ sub \<in> set rs"
proof (induction rs)
  case (Cons r rs)
  have "resource_loop (r # rs) combined sub \<longleftrightarrow>
      r = ''*'' \<or> r = combined \<or> sub \<noteq> [] \<and> r = ''*/'' @ sub \<or> resource_loop rs combined sub"
    unfolding resource_loop.simps star_sub_iff by simp
  with Cons show ?case by auto
qed simp

lemma url_loop_iff:
  "url_loop rs u \<longleftrightarrow> ''*'' \<in> set rs \<or> u \<in> set rs \<or>
     (\<exists>r\<in>set rs. HasSuffix r ''*'' \<and> HasPrefix u (TrimRight r (CHR ''*'')))"
  by (induction rs) auto

lemma TrimRight_stars: "TrimRight (p @ ''*'') (CHR ''*'') = TrimRight p (CHR ''*'')"
  by (simp add: TrimRight_def)

text \<open>The sets a request must meet for a rule to allow it.\<close>

definition covers :: "string list \<Rightarrow> string \<Rightarrow> bool" where
  "covers rs x \<longleftrightarrow> ''*'' \<in> set rs \<or> x \<in> set rs"

text \<open>
  A rule allows a resource request exactly when it lists the verb and the group, or a
  star for them, names the object or restricts no names, and lists the resource: a star, the
  resource (with its subresource after a slash, if the request has one), or a star before the
  subresource.
\<close>

lemma RuleAllows_resource_iff:
  "RuleAllows (a\<lparr>at_ResourceRequest := True\<rparr>) rule \<longleftrightarrow>
     covers (pr_Verbs rule) (at_Verb a) \<and> covers (pr_APIGroups rule) (at_APIGroup a) \<and>
     (pr_ResourceNames rule = [] \<or> at_Name a \<in> set (pr_ResourceNames rule)) \<and>
     (if at_Subresource a = [] then covers (pr_Resources rule) (at_Resource a)
      else covers (pr_Resources rule) (at_Resource a @ ''/'' @ at_Subresource a)
           \<or> ''*/'' @ at_Subresource a \<in> set (pr_Resources rule))"
  by (auto simp: RuleAllows_def VerbMatches_def APIGroupMatches_def ResourceMatches_def ResourceNameMatches_def
      verb_loop_iff name_loop_iff resource_loop_iff covers_def)

text \<open>
  A rule allows a non-resource request exactly when it lists the verb or a star and one
  of its URLs is a star, the path itself, or ends in a star and gives a prefix of the path
  once all its trailing stars are gone.
\<close>

lemma RuleAllows_url_iff:
  "RuleAllows (a\<lparr>at_ResourceRequest := False\<rparr>) rule \<longleftrightarrow>
     covers (pr_Verbs rule) (at_Verb a) \<and>
     (covers (pr_NonResourceURLs rule) (at_Path a) \<or>
      list_ex (\<lambda>u. HasSuffix u ''*'' \<and> HasPrefix (at_Path a) (TrimRight u (CHR ''*''))) (pr_NonResourceURLs rule))"
  by (auto simp: RuleAllows_def VerbMatches_def NonResourceURLMatches_def verb_loop_iff url_loop_iff covers_def
      list_ex_iff)

end
