(* ===== verification/RbacResolver.thy ===== *)
theory RbacResolver
  imports RbacEval
begin

section \<open>RBAC resolution and authorization: pkg/authorizer/rbac\<close>

text \<open>
  \<open>resolver.go\<close>, \<open>authorizer.go\<close>, \<open>extractor.go\<close> and \<open>interface.go\<close>. The
  informer cache is outside the repository: a \<open>cache\<close> record holds what its reads return.
  A Go visitor closure with its captured state is a function on that state; the boolean it
  returns says whether visiting goes on. The lemmas reduce each visit to the list of events
  the visitor sees.
\<close>

record Role =
  ro_Name :: string
  ro_Rules :: "PolicyRule list"

record ClusterRole =
  cr_Name :: string
  cr_Rules :: "PolicyRule list"

record binding =
  bi_Name :: string
  bi_Namespace :: string
  bi_Subjects :: "Subject list"
  bi_RoleRef :: RoleRef

record cube_user =
  us_Name :: string

record cache =
  ca_user :: "string \<Rightarrow> cube_user result"
  ca_users :: "cube_user list result"
  ca_role :: "string \<Rightarrow> string \<Rightarrow> Role result"
  ca_cluster_role :: "string \<Rightarrow> ClusterRole result"
  ca_role_bindings :: "string \<Rightarrow> binding list result"
  ca_cluster_role_bindings :: "binding list result"

subsection \<open>Extractor\<close>

definition GetUser :: "cache \<Rightarrow> string \<Rightarrow> cube_user result" where
  "GetUser r name = ca_user r name"

definition ListUser :: "cache \<Rightarrow> cube_user list result" where
  "ListUser r = ca_users r"

definition GetRole :: "cache \<Rightarrow> string \<Rightarrow> string \<Rightarrow> Role result" where
  "GetRole r namespace name = ca_role r namespace name"

definition GetClusterRole :: "cache \<Rightarrow> string \<Rightarrow> ClusterRole result" where
  "GetClusterRole r name = ca_cluster_role r name"

definition ListRoleBindings :: "cache \<Rightarrow> string \<Rightarrow> binding list result" where
  "ListRoleBindings r namespace = ca_role_bindings r namespace"

definition ListClusterRoleBindings :: "cache \<Rightarrow> binding list result" where
  "ListClusterRoleBindings r = ca_cluster_role_bindings r"

subsection \<open>Subjects\<close>

definition appliesToUser :: "string \<Rightarrow> Subject \<Rightarrow> string \<Rightarrow> bool" where
  "appliesToUser user subject namespace =
     (if su_Kind subject = UserKind then user = su_Name subject
      else if su_Kind subject = GroupKind then False
      else if su_Kind subject = ServiceAccountKind then False
      else False)"

fun appliesTo_from :: "nat \<Rightarrow> string \<Rightarrow> Subject list \<Rightarrow> string \<Rightarrow> nat \<times> bool" where
  "appliesTo_from i user [] namespace = (0, False)"
| "appliesTo_from i user (s # ss) namespace =
     (if appliesToUser user s namespace then (i, True) else appliesTo_from (Suc i) user ss namespace)"

definition appliesTo :: "string \<Rightarrow> Subject list \<Rightarrow> string \<Rightarrow> nat \<times> bool" where
  "appliesTo user bindingSubjects namespace = appliesTo_from 0 user bindingSubjects namespace"

subsection \<open>Visiting rules\<close>

datatype source =
    clusterRoleBindingDescriber binding Subject
  | roleBindingDescriber binding Subject

type_synonym 's rule_visitor = "source option \<Rightarrow> PolicyRule option \<Rightarrow> err option \<Rightarrow> 's \<Rightarrow> 's \<times> bool"

definition GetRoleReferenceRules :: "cache \<Rightarrow> RoleRef \<Rightarrow> string \<Rightarrow> PolicyRule list result" where
  "GetRoleReferenceRules r roleRef bindingNamespace =
     (if rr_Kind roleRef = ''Role'' then
        (case GetRole r bindingNamespace (rr_Name roleRef) of
           Inl e \<Rightarrow> Inl e | Inr role \<Rightarrow> Inr (ro_Rules role))
      else if rr_Kind roleRef = ''ClusterRole'' then
        (case GetClusterRole r (rr_Name roleRef) of
           Inl e \<Rightarrow> Inl e | Inr clusterRole \<Rightarrow> Inr (cr_Rules clusterRole))
      else Inl (Err (''unsupported role reference kind: '' @ rr_Kind roleRef)))"

fun visit_rules :: "'s rule_visitor \<Rightarrow> source \<Rightarrow> PolicyRule list \<Rightarrow> 's \<Rightarrow> 's \<times> bool" where
  "visit_rules visitor src [] s = (s, True)"
| "visit_rules visitor src (rule # rules) s =
     (case visitor (Some src) (Some rule) None s of
        (s', go_on) \<Rightarrow> if \<not> go_on then (s', False) else visit_rules visitor src rules s')"

text \<open>
  The loop over the bindings, shared by the cluster wide and the namespaced half, which
  differ in the describer and in the namespace they pass.
\<close>

fun visit_bindings ::
  "cache \<Rightarrow> (binding \<Rightarrow> Subject \<Rightarrow> source) \<Rightarrow> string \<Rightarrow> string \<Rightarrow> 's rule_visitor \<Rightarrow> binding list \<Rightarrow> 's \<Rightarrow> 's \<times> bool" where
  "visit_bindings r describer user namespace visitor [] s = (s, True)"
| "visit_bindings r describer user namespace visitor (b # bs) s =
     (case appliesTo user (bi_Subjects b) namespace of (subjectIndex, applies) \<Rightarrow>
        if \<not> applies then visit_bindings r describer user namespace visitor bs s
        else
          (case GetRoleReferenceRules r (bi_RoleRef b) namespace of
             Inl e \<Rightarrow>
               (case visitor None None (Some e) s of
                  (s', go_on) \<Rightarrow> if \<not> go_on then (s', False)
                                else visit_bindings r describer user namespace visitor bs s')
           | Inr rules \<Rightarrow>
               (case visit_rules visitor (describer b (bi_Subjects b ! subjectIndex)) rules s of
                  (s', go_on) \<Rightarrow> if \<not> go_on then (s', False)
                                else visit_bindings r describer user namespace visitor bs s')))"

definition visit_list ::
  "cache \<Rightarrow> (binding \<Rightarrow> Subject \<Rightarrow> source) \<Rightarrow> string \<Rightarrow> string \<Rightarrow> 's rule_visitor \<Rightarrow> binding list result \<Rightarrow> 's \<Rightarrow> 's \<times> bool" where
  "visit_list r describer user namespace visitor bindings s =
     (case bindings of
        Inl e \<Rightarrow> visitor None None (Some e) s
      | Inr bs \<Rightarrow> visit_bindings r describer user namespace visitor bs s)"

definition VisitRulesFor :: "cache \<Rightarrow> string \<Rightarrow> string \<Rightarrow> 's rule_visitor \<Rightarrow> 's \<Rightarrow> 's" where
  "VisitRulesFor r user namespace visitor s =
     (case visit_list r clusterRoleBindingDescriber user [] visitor (ListClusterRoleBindings r) s of
        (s', go_on) \<Rightarrow>
          if \<not> go_on then s'
          else if length namespace > 0
               then fst (visit_list r roleBindingDescriber user namespace visitor (ListRoleBindings r namespace) s')
               else s')"

subsection \<open>Authorization\<close>

record authorizingVisitor =
  av_allowed :: bool
  av_reason :: "source option"
  av_errors :: "err list"

text \<open>A source is only missing when the rule is: the nil describer is never asked for its text.\<close>

definition visit_auth :: "Attributes \<Rightarrow> authorizingVisitor rule_visitor" where
  "visit_auth a src rule e v =
     (case rule of
        Some ru \<Rightarrow>
          if RuleAllows a ru then (v\<lparr>av_allowed := True, av_reason := src\<rparr>, False)
          else (case e of None \<Rightarrow> (v, True) | Some e' \<Rightarrow> (v\<lparr>av_errors := av_errors v @ [e']\<rparr>, True))
      | None \<Rightarrow> (case e of None \<Rightarrow> (v, True) | Some e' \<Rightarrow> (v\<lparr>av_errors := av_errors v @ [e']\<rparr>, True)))"

datatype decision = DecisionAllow | DecisionNoOpinion

datatype auth_reason = AllowedBy source | Errors "err list" | NoAuthReason

definition Authorize :: "cache \<Rightarrow> Attributes \<Rightarrow> decision \<times> auth_reason" where
  "Authorize r a =
     (let v = VisitRulesFor r (at_User a) (at_Namespace a) (visit_auth a)
                \<lparr>av_allowed = False, av_reason = None, av_errors = []\<rparr>
      in if av_allowed v
         then (DecisionAllow, case av_reason v of None \<Rightarrow> NoAuthReason | Some src \<Rightarrow> AllowedBy src)
         else (DecisionNoOpinion, if length (av_errors v) > 0 then Errors (av_errors v) else NoAuthReason))"

definition IsAllowResourceAccess ::
  "cache \<Rightarrow> string \<Rightarrow> string \<Rightarrow> string \<Rightarrow> string \<Rightarrow> bool" where
  "IsAllowResourceAccess rbac user resource verb namespace =
     (let a = \<lparr>at_User = user, at_Verb = verb, at_Namespace = namespace, at_APIGroup = [], at_Resource = resource,
               at_Subresource = [], at_Name = [], at_Path = [], at_ResourceRequest = True\<rparr>
      in fst (Authorize rbac a) = DecisionAllow)"

fun user_roles_loop :: "string \<Rightarrow> binding list \<Rightarrow> string list \<Rightarrow> string list" where
  "user_roles_loop user [] roles = roles"
| "user_roles_loop user (b # bs) roles =
     (if \<not> snd (appliesTo user (bi_Subjects b) []) then user_roles_loop user bs roles
      else user_roles_loop user bs (roles @ [rr_Name (bi_RoleRef b)]))"

definition User2UserRole :: "cache \<Rightarrow> string \<Rightarrow> string list option" where
  "User2UserRole r user =
     (case ListClusterRoleBindings r of
        Inl e \<Rightarrow> None
      | Inr bs \<Rightarrow> Some (user_roles_loop user bs []))"

subsection \<open>Roles of a user, users of a role\<close>

record resultAccumulator =
  ra_roles :: "Role list"
  ra_clusterRoles :: "ClusterRole list"
  ra_users :: "cube_user list"
  ra_errors :: "err list"

text \<open>The four cases of \<open>visit\<close>: every call passes exactly one non-nil argument.\<close>

definition visit_role :: "Role \<Rightarrow> resultAccumulator \<Rightarrow> resultAccumulator" where
  "visit_role role r =
     (if list_ex (\<lambda>v. ro_Name v = ro_Name role) (ra_roles r) then r
      else r\<lparr>ra_roles := ra_roles r @ [role]\<rparr>)"

definition visit_clusterRole :: "ClusterRole \<Rightarrow> resultAccumulator \<Rightarrow> resultAccumulator" where
  "visit_clusterRole clusterRole r =
     (if list_ex (\<lambda>v. cr_Name v = cr_Name clusterRole) (ra_clusterRoles r) then r
      else r\<lparr>ra_clusterRoles := ra_clusterRoles r @ [clusterRole]\<rparr>)"

definition visit_user :: "cube_user \<Rightarrow> resultAccumulator \<Rightarrow> resultAccumulator" where
  "visit_user user r =
     (if list_ex (\<lambda>v. us_Name v = us_Name user) (ra_users r) then r
      else r\<lparr>ra_users := ra_users r @ [user]\<rparr>)"

definition visit_err :: "err \<Rightarrow> resultAccumulator \<Rightarrow> resultAccumulator" where
  "visit_err e r = r\<lparr>ra_errors := ra_errors r @ [e]\<rparr>"

fun visit_subjects :: "cache \<Rightarrow> Subject list \<Rightarrow> resultAccumulator \<Rightarrow> resultAccumulator" where
  "visit_subjects r [] acc = acc"
| "visit_subjects r (subject # ss) acc =
     (case GetUser r (su_Name subject) of
        Inl e \<Rightarrow> visit_subjects r ss (visit_err e acc)
      | Inr u \<Rightarrow> visit_subjects r ss (visit_user u acc))"

fun match_bindings :: "cache \<Rightarrow> RoleRef \<Rightarrow> binding list \<Rightarrow> resultAccumulator \<Rightarrow> resultAccumulator" where
  "match_bindings r role [] acc = acc"
| "match_bindings r role (b # bs) acc =
     (if bi_RoleRef b \<noteq> role then match_bindings r role bs acc
      else match_bindings r role bs (visit_subjects r (bi_Subjects b) acc))"

definition matchClusterRoleBindingsForUser :: "cache \<Rightarrow> RoleRef \<Rightarrow> resultAccumulator \<Rightarrow> resultAccumulator" where
  "matchClusterRoleBindingsForUser r role acc =
     (case ListClusterRoleBindings r of
        Inl e \<Rightarrow> visit_err e acc
      | Inr bs \<Rightarrow> match_bindings r role bs acc)"

definition matchRoleBindingsForUser :: "cache \<Rightarrow> RoleRef \<Rightarrow> string \<Rightarrow> resultAccumulator \<Rightarrow> resultAccumulator" where
  "matchRoleBindingsForUser r role namespace acc =
     (if length namespace > 0 then
        (case ListRoleBindings r namespace of
           Inl e \<Rightarrow> visit_err e acc
         | Inr bs \<Rightarrow> match_bindings r role bs acc)
      else acc)"

definition VisitUsersFor :: "cache \<Rightarrow> RoleRef \<Rightarrow> string \<Rightarrow> resultAccumulator \<Rightarrow> resultAccumulator" where
  "VisitUsersFor r role namespace acc =
     (if rr_Kind role = ''ClusterRole'' then
        matchRoleBindingsForUser r role namespace (matchClusterRoleBindingsForUser r role acc)
      else if rr_Kind role = ''Role'' then matchRoleBindingsForUser r role namespace acc
      else acc)"

fun cluster_roles_loop :: "cache \<Rightarrow> string \<Rightarrow> binding list \<Rightarrow> resultAccumulator \<Rightarrow> resultAccumulator" where
  "cluster_roles_loop r user [] acc = acc"
| "cluster_roles_loop r user (b # bs) acc =
     (if \<not> snd (appliesTo user (bi_Subjects b) []) then cluster_roles_loop r user bs acc
      else (case GetClusterRole r (rr_Name (bi_RoleRef b)) of
              Inl e \<Rightarrow> cluster_roles_loop r user bs (visit_err e acc)
            | Inr clusterRole \<Rightarrow> cluster_roles_loop r user bs (visit_clusterRole clusterRole acc)))"

fun roles_loop :: "cache \<Rightarrow> string \<Rightarrow> string \<Rightarrow> binding list \<Rightarrow> resultAccumulator \<Rightarrow> resultAccumulator" where
  "roles_loop r user namespace [] acc = acc"
| "roles_loop r user namespace (b # bs) acc =
     (if \<not> snd (appliesTo user (bi_Subjects b) namespace) then roles_loop r user namespace bs acc
      else if rr_Kind (bi_RoleRef b) = ''Role'' then
        (case GetRole r namespace (rr_Name (bi_RoleRef b)) of
           Inl e \<Rightarrow> roles_loop r user namespace bs (visit_err e acc)
         | Inr role \<Rightarrow> roles_loop r user namespace bs (visit_role role acc))
      else if rr_Kind (bi_RoleRef b) = ''ClusterRole'' then
        (case GetClusterRole r (rr_Name (bi_RoleRef b)) of
           Inl e \<Rightarrow> roles_loop r user namespace bs (visit_err e acc)
         | Inr clusterRole \<Rightarrow> roles_loop r user namespace bs (visit_clusterRole clusterRole acc))
      else roles_loop r user namespace bs acc)"

definition VisitRolesFor :: "cache \<Rightarrow> string \<Rightarrow> string \<Rightarrow> resultAccumulator \<Rightarrow> resultAccumulator" where
  "VisitRolesFor r user namespace acc =
     (let acc = (case ListClusterRoleBindings r of
                   Inl e \<Rightarrow> visit_err e acc
                 | Inr bs \<Rightarrow> cluster_roles_loop r user bs acc)
      in if length namespace > 0 then
           (case ListRoleBindings r namespace of
              Inl e \<Rightarrow> visit_err e acc
            | Inr bs \<Rightarrow> roles_loop r user namespace bs acc)
         else acc)"

definition empty_acc :: resultAccumulator where
  "empty_acc = \<lparr>ra_roles = [], ra_clusterRoles = [], ra_users = [], ra_errors = []\<rparr>"

definition RolesFor :: "cache \<Rightarrow> string \<Rightarrow> string \<Rightarrow> Role list \<times> ClusterRole list \<times> err list" where
  "RolesFor r user namespace =
     (let v = VisitRolesFor r user namespace empty_acc in (ra_roles v, ra_clusterRoles v, ra_errors v))"

definition UsersFor :: "cache \<Rightarrow> RoleRef \<Rightarrow> string \<Rightarrow> cube_user list \<times> err list" where
  "UsersFor r role namespace =
     (let v = VisitUsersFor r role namespace empty_acc in (ra_users v, ra_errors v))"

subsection \<open>What a visitor sees\<close>

definition names_user :: "string \<Rightarrow> binding \<Rightarrow> bool" where
  "names_user user b \<longleftrightarrow> list_ex (\<lambda>s. su_Kind s = UserKind \<and> su_Name s = user) (bi_Subjects b)"

lemma appliesToUser_iff: "appliesToUser user s ns \<longleftrightarrow> su_Kind s = UserKind \<and> su_Name s = user"
  by (auto simp: appliesToUser_def)

lemma appliesTo_from_iff:
  "snd (appliesTo_from i user ss ns) \<longleftrightarrow> list_ex (\<lambda>s. su_Kind s = UserKind \<and> su_Name s = user) ss"
  by (induction i user ss ns rule: appliesTo_from.induct) (auto simp: appliesToUser_iff)

lemma appliesTo_iff [simp]: "snd (appliesTo user (bi_Subjects b) ns) \<longleftrightarrow> names_user user b"
  by (simp add: appliesTo_def names_user_def appliesTo_from_iff)

type_synonym event = "source option \<times> PolicyRule option \<times> err option"

fun visit_until :: "'s rule_visitor \<Rightarrow> event list \<Rightarrow> 's \<Rightarrow> 's \<times> bool" where
  "visit_until visitor [] s = (s, True)"
| "visit_until visitor ((src, rule, e) # es) s =
     (case visitor src rule e s of (s', go_on) \<Rightarrow> if \<not> go_on then (s', False) else visit_until visitor es s')"

definition binding_events :: "cache \<Rightarrow> (binding \<Rightarrow> Subject \<Rightarrow> source) \<Rightarrow> string \<Rightarrow> string \<Rightarrow> binding \<Rightarrow> event list" where
  "binding_events r describer user ns b =
     (if names_user user b then
        (case GetRoleReferenceRules r (bi_RoleRef b) ns of
           Inl e \<Rightarrow> [(None, None, Some e)]
         | Inr rules \<Rightarrow>
             map (\<lambda>ru. (Some (describer b (bi_Subjects b ! fst (appliesTo user (bi_Subjects b) ns))), Some ru, None)) rules)
      else [])"

definition list_events ::
  "cache \<Rightarrow> (binding \<Rightarrow> Subject \<Rightarrow> source) \<Rightarrow> string \<Rightarrow> string \<Rightarrow> binding list result \<Rightarrow> event list" where
  "list_events r describer user ns bindings =
     (case bindings of
        Inl e \<Rightarrow> [(None, None, Some e)]
      | Inr bs \<Rightarrow> concat (map (binding_events r describer user ns) bs))"

definition rule_events :: "cache \<Rightarrow> string \<Rightarrow> string \<Rightarrow> event list" where
  "rule_events r user ns =
     list_events r clusterRoleBindingDescriber user [] (ListClusterRoleBindings r) @
     (if ns = [] then [] else list_events r roleBindingDescriber user ns (ListRoleBindings r ns))"

lemma visit_until_append:
  "visit_until v (es @ fs) s =
     (case visit_until v es s of (s', go_on) \<Rightarrow> if \<not> go_on then (s', False) else visit_until v fs s')"
  by (induction v es s rule: visit_until.induct) (auto split: prod.splits)

lemma visit_rules_until:
  "visit_rules v src rules s = visit_until v (map (\<lambda>ru. (Some src, Some ru, None)) rules) s"
  by (induction v src rules s rule: visit_rules.induct) (auto split: prod.splits)

lemma visit_bindings_until:
  "visit_bindings r d user ns v bs s = visit_until v (concat (map (binding_events r d user ns) bs)) s"
proof (induction bs arbitrary: s)
  case (Cons b bs)
  obtain i where ap: "appliesTo user (bi_Subjects b) ns = (i, names_user user b)"
    using appliesTo_iff [of user b ns] by (cases "appliesTo user (bi_Subjects b) ns") simp
  show ?case
    by (simp add: ap binding_events_def visit_until_append visit_rules_until Cons.IH split: sum.splits prod.splits)
qed simp

lemma visit_list_until: "visit_list r d user ns v bs s = visit_until v (list_events r d user ns bs) s"
  by (simp add: visit_list_def list_events_def visit_bindings_until split: sum.splits prod.splits)

text \<open>
  C10: visiting the rules of a user is running the visitor over one fixed list of events and
  stopping at the first refusal: first what the cluster role bindings give, in order, then, in
  a namespace, what its role bindings give. A binding gives nothing unless it names the user,
  one error when its role cannot be read, and otherwise its role's rules in order.
\<close>

theorem VisitRulesFor_events:
  "VisitRulesFor r user ns visitor s = fst (visit_until visitor (rule_events r user ns) s)"
  by (simp add: VisitRulesFor_def rule_events_def visit_list_until visit_until_append split: prod.splits)

lemma VisitRulesFor_until:
  "VisitRulesFor r user ns visitor s = fst (visit_until visitor (rule_events r user ns) s)"
  by (simp add: VisitRulesFor_def rule_events_def visit_list_until visit_until_append split: prod.splits)

subsection \<open>Authorization is exact\<close>

definition grants :: "cache \<Rightarrow> string \<Rightarrow> binding list result \<Rightarrow> string \<Rightarrow> PolicyRule \<Rightarrow> bool" where
  "grants r user bindings ns rule \<longleftrightarrow>
     (\<exists>bs b rules. bindings = Inr bs \<and> b \<in> set bs \<and> names_user user b \<and>
        GetRoleReferenceRules r (bi_RoleRef b) ns = Inr rules \<and> rule \<in> set rules)"

definition allowing :: "Attributes \<Rightarrow> event \<Rightarrow> bool" where
  "allowing a ev = (case ev of (src, rule, e) \<Rightarrow> (case rule of None \<Rightarrow> False | Some ru \<Rightarrow> RuleAllows a ru))"

lemma visit_auth_allowed:
  "av_allowed (fst (visit_until (visit_auth a) es v)) \<longleftrightarrow> av_allowed v \<or> list_ex (allowing a) es"
proof (induction es arbitrary: v)
  case (Cons ev es)
  obtain src rule e where ev: "ev = (src, rule, e)" by (cases ev)
  show ?case
    using Cons.IH by (auto simp: ev visit_auth_def allowing_def split: option.splits)
qed simp

lemma list_ex_map: "list_ex P (map f xs) \<longleftrightarrow> list_ex (P \<circ> f) xs"
  by (induction xs) auto

lemma allowing_list_events:
  "list_ex (allowing a) (list_events r d user ns bindings) \<longleftrightarrow> (\<exists>rule. grants r user bindings ns rule \<and> RuleAllows a rule)"
proof -
  have "list_ex (allowing a) (binding_events r d user ns b) \<longleftrightarrow>
     names_user user b \<and> (\<exists>rules. GetRoleReferenceRules r (bi_RoleRef b) ns = Inr rules \<and> list_ex (RuleAllows a) rules)" for b
    by (auto simp: binding_events_def list_ex_map allowing_def comp_def split: sum.splits)
  then show ?thesis
    by (cases bindings) (auto simp: list_events_def grants_def allowing_def list_ex_iff)
qed

text \<open>
  C2: authorization is exact. A request is allowed exactly when some rule that a cluster role
  binding or, in a namespace, a role binding of that namespace grants to the user allows it;
  errors met while reading other roles never turn the answer.
\<close>

theorem Authorize_iff:
  "fst (Authorize r a) = DecisionAllow \<longleftrightarrow>
     (\<exists>rule. RuleAllows a rule \<and>
        (grants r (at_User a) (ListClusterRoleBindings r) [] rule \<or>
         at_Namespace a \<noteq> [] \<and> grants r (at_User a) (ListRoleBindings r (at_Namespace a)) (at_Namespace a) rule))"
  by (simp add: Authorize_def Let_def VisitRulesFor_until visit_auth_allowed rule_events_def allowing_list_events) blast

subsection \<open>Accumulated roles and users\<close>

text \<open>A list in the accumulator that keeps one element per name.\<close>

locale name_dedup =
  fixes items :: "'acc \<Rightarrow> 'x list"
    and nm :: "'x \<Rightarrow> string"
    and add :: "'x \<Rightarrow> 'acc \<Rightarrow> 'acc"
  assumes add_items: "items (add x acc) = (if nm x \<in> nm ` set (items acc) then items acc else items acc @ [x])"
begin

lemma add_distinct: "distinct (map nm (items acc)) \<Longrightarrow> distinct (map nm (items (add x acc)))"
  by (auto simp: add_items)

lemma add_names: "nm ` set (items (add x acc)) = insert (nm x) (nm ` set (items acc))"
  by (auto simp: add_items)

lemma add_keeps: "set (items acc) \<subseteq> set (items (add x acc))"
  by (auto simp: add_items)

end

lemma list_ex_name: "list_ex (\<lambda>v. f v = f x) xs \<longleftrightarrow> f x \<in> f ` set xs"
  by (induction xs) auto

interpretation acc_roles: name_dedup ra_roles ro_Name visit_role
  by unfold_locales (simp add: visit_role_def list_ex_name)

interpretation acc_clusterRoles: name_dedup ra_clusterRoles cr_Name visit_clusterRole
  by unfold_locales (simp add: visit_clusterRole_def list_ex_name)

interpretation acc_users: name_dedup ra_users us_Name visit_user
  by unfold_locales (simp add: visit_user_def list_ex_name)

lemma visit_frame [simp]:
  "ra_clusterRoles (visit_role x acc) = ra_clusterRoles acc" "ra_users (visit_role x acc) = ra_users acc"
  "ra_roles (visit_clusterRole y acc) = ra_roles acc" "ra_users (visit_clusterRole y acc) = ra_users acc"
  "ra_roles (visit_user u acc) = ra_roles acc" "ra_clusterRoles (visit_user u acc) = ra_clusterRoles acc"
  "ra_roles (visit_err e acc) = ra_roles acc" "ra_clusterRoles (visit_err e acc) = ra_clusterRoles acc"
  "ra_users (visit_err e acc) = ra_users acc"
  by (simp_all add: visit_role_def visit_clusterRole_def visit_user_def visit_err_def)

definition acc_ok :: "resultAccumulator \<Rightarrow> bool" where
  "acc_ok acc \<longleftrightarrow> distinct (map ro_Name (ra_roles acc)) \<and> distinct (map cr_Name (ra_clusterRoles acc)) \<and>
     distinct (map us_Name (ra_users acc))"

lemma acc_ok_visit [simp]:
  "acc_ok acc \<Longrightarrow> acc_ok (visit_role x acc)" "acc_ok acc \<Longrightarrow> acc_ok (visit_clusterRole y acc)"
  "acc_ok acc \<Longrightarrow> acc_ok (visit_user u acc)" "acc_ok acc \<Longrightarrow> acc_ok (visit_err e acc)"
  by (simp_all add: acc_ok_def acc_roles.add_distinct acc_clusterRoles.add_distinct acc_users.add_distinct)

lemma cluster_roles_loop_ok: "acc_ok acc \<Longrightarrow> acc_ok (cluster_roles_loop r user bs acc)"
  by (induction r user bs acc rule: cluster_roles_loop.induct) (auto split: sum.splits)

lemma roles_loop_ok: "acc_ok acc \<Longrightarrow> acc_ok (roles_loop r user ns bs acc)"
  by (induction r user ns bs acc rule: roles_loop.induct) (auto split: sum.splits)

text \<open>The names of the roles that the bindings of a user lead to.\<close>

definition bound_clusterRoles :: "cache \<Rightarrow> string \<Rightarrow> (binding \<Rightarrow> bool) \<Rightarrow> binding list \<Rightarrow> string set" where
  "bound_clusterRoles r user sel bs =
     {cr_Name c | b c. b \<in> set bs \<and> names_user user b \<and> sel b \<and> GetClusterRole r (rr_Name (bi_RoleRef b)) = Inr c}"

definition bound_roles :: "cache \<Rightarrow> string \<Rightarrow> string \<Rightarrow> binding list \<Rightarrow> string set" where
  "bound_roles r user ns bs =
     {ro_Name c | b c. b \<in> set bs \<and> names_user user b \<and> rr_Kind (bi_RoleRef b) = ''Role'' \<and>
        GetRole r ns (rr_Name (bi_RoleRef b)) = Inr c}"

definition elems0 :: "'a list result \<Rightarrow> 'a list" where
  "elems0 x = (case x of Inl e \<Rightarrow> [] | Inr l \<Rightarrow> l)"

lemma cluster_roles_loop_names:
  "ra_roles (cluster_roles_loop r user bs acc) = ra_roles acc"
  "cr_Name ` set (ra_clusterRoles (cluster_roles_loop r user bs acc)) =
     cr_Name ` set (ra_clusterRoles acc) \<union> bound_clusterRoles r user (\<lambda>_. True) bs"
proof -
  show "ra_roles (cluster_roles_loop r user bs acc) = ra_roles acc"
    by (induction r user bs acc rule: cluster_roles_loop.induct) (auto split: sum.splits)
  show "cr_Name ` set (ra_clusterRoles (cluster_roles_loop r user bs acc)) =
     cr_Name ` set (ra_clusterRoles acc) \<union> bound_clusterRoles r user (\<lambda>_. True) bs"
    by (induction r user bs acc rule: cluster_roles_loop.induct)
      (auto simp: bound_clusterRoles_def acc_clusterRoles.add_names split: sum.splits)
qed

lemma roles_loop_names:
  "ro_Name ` set (ra_roles (roles_loop r user ns bs acc)) = ro_Name ` set (ra_roles acc) \<union> bound_roles r user ns bs"
  "cr_Name ` set (ra_clusterRoles (roles_loop r user ns bs acc)) =
     cr_Name ` set (ra_clusterRoles acc) \<union> bound_clusterRoles r user (\<lambda>b. rr_Kind (bi_RoleRef b) = ''ClusterRole'') bs"
proof -
  show "ro_Name ` set (ra_roles (roles_loop r user ns bs acc)) = ro_Name ` set (ra_roles acc) \<union> bound_roles r user ns bs"
    by (induction r user ns bs acc rule: roles_loop.induct)
      (auto simp: bound_roles_def acc_roles.add_names split: sum.splits)
  show "cr_Name ` set (ra_clusterRoles (roles_loop r user ns bs acc)) =
     cr_Name ` set (ra_clusterRoles acc) \<union> bound_clusterRoles r user (\<lambda>b. rr_Kind (bi_RoleRef b) = ''ClusterRole'') bs"
    by (induction r user ns bs acc rule: roles_loop.induct)
      (auto simp: bound_clusterRoles_def acc_clusterRoles.add_names split: sum.splits)
qed

lemma empty_acc_simps [simp]:
  "ra_roles empty_acc = []" "ra_clusterRoles empty_acc = []" "ra_users empty_acc = []" "acc_ok empty_acc"
  by (simp_all add: empty_acc_def acc_ok_def)

lemma VisitRolesFor_result:
  fixes r user ns
  defines "v \<equiv> VisitRolesFor r user ns empty_acc"
  shows "acc_ok v"
    and "ro_Name ` set (ra_roles v) = (if ns = [] then {} else bound_roles r user ns (elems0 (ListRoleBindings r ns)))"
    and "cr_Name ` set (ra_clusterRoles v) =
       bound_clusterRoles r user (\<lambda>_. True) (elems0 (ListClusterRoleBindings r)) \<union>
       (if ns = [] then {} else bound_clusterRoles r user (\<lambda>b. rr_Kind (bi_RoleRef b) = ''ClusterRole'')
          (elems0 (ListRoleBindings r ns)))"
  unfolding v_def
  by (auto simp: VisitRolesFor_def Let_def elems0_def cluster_roles_loop_ok roles_loop_ok
      cluster_roles_loop_names roles_loop_names bound_roles_def [where bs = "[]"]
      bound_clusterRoles_def [where bs = "[]"] split: sum.splits)

text \<open>
  The roles of a user are complete and listed once. No two roles and no two cluster roles
  of the answer have the same name; the roles are those that the role bindings of the
  namespace lead to; the cluster roles are those that any cluster role binding or a role
  binding of the namespace leads to, whatever could not be read left out.
\<close>

lemma RolesFor_complete:
  "case RolesFor r user ns of (roles, clusterRoles, errors) \<Rightarrow>
     distinct (map ro_Name roles) \<and> distinct (map cr_Name clusterRoles) \<and>
     ro_Name ` set roles = (if ns = [] then {} else bound_roles r user ns (elems0 (ListRoleBindings r ns))) \<and>
     cr_Name ` set clusterRoles =
       bound_clusterRoles r user (\<lambda>_. True) (elems0 (ListClusterRoleBindings r)) \<union>
       (if ns = [] then {} else bound_clusterRoles r user (\<lambda>b. rr_Kind (bi_RoleRef b) = ''ClusterRole'')
          (elems0 (ListRoleBindings r ns)))"
  using VisitRolesFor_result [of r user ns] by (simp add: RolesFor_def Let_def acc_ok_def)

definition subject_users :: "cache \<Rightarrow> RoleRef \<Rightarrow> binding list \<Rightarrow> string set" where
  "subject_users r role bs =
     {us_Name u | b s u. b \<in> set bs \<and> bi_RoleRef b = role \<and> s \<in> set (bi_Subjects b) \<and> GetUser r (su_Name s) = Inr u}"

lemma subject_users_simps:
  "subject_users r role [] = {}"
  "subject_users r role (b # bs) =
     (if bi_RoleRef b = role then {us_Name u | s u. s \<in> set (bi_Subjects b) \<and> GetUser r (su_Name s) = Inr u} else {}) \<union>
     subject_users r role bs"
  unfolding subject_users_def by (simp, force)

lemma visit_subjects_names:
  "us_Name ` set (ra_users (visit_subjects r ss acc)) =
     us_Name ` set (ra_users acc) \<union> {us_Name u | s u. s \<in> set ss \<and> GetUser r (su_Name s) = Inr u}"
  by (induction r ss acc rule: visit_subjects.induct) (auto simp: acc_users.add_names split: sum.splits)

lemma visit_subjects_ok: "acc_ok acc \<Longrightarrow> acc_ok (visit_subjects r ss acc)"
  by (induction r ss acc rule: visit_subjects.induct) (auto split: sum.splits)

lemma match_bindings_names:
  "us_Name ` set (ra_users (match_bindings r role bs acc)) = us_Name ` set (ra_users acc) \<union> subject_users r role bs"
  by (induction r role bs acc rule: match_bindings.induct) (auto simp: subject_users_simps visit_subjects_names)

lemma match_bindings_ok: "acc_ok acc \<Longrightarrow> acc_ok (match_bindings r role bs acc)"
  by (induction r role bs acc rule: match_bindings.induct) (auto simp: visit_subjects_ok)

text \<open>
  The users of a role. They are listed once each, and they are the users whose name is
  the name of any subject of a binding to exactly this role reference: of the cluster role
  bindings for a cluster role, and of the role bindings of the namespace for either kind. The
  kind of the subject plays no part, so a group named like a user counts as that user.
\<close>

lemma UsersFor_complete:
  "case UsersFor r role ns of (users, errors) \<Rightarrow>
     distinct (map us_Name users) \<and>
     us_Name ` set users =
       (if rr_Kind role = ''ClusterRole'' then subject_users r role (elems0 (ListClusterRoleBindings r)) else {}) \<union>
       (if rr_Kind role \<in> {''ClusterRole'', ''Role''} \<and> ns \<noteq> []
        then subject_users r role (elems0 (ListRoleBindings r ns)) else {})"
proof -
  let ?v = "VisitUsersFor r role ns empty_acc"
  have "acc_ok ?v"
    by (simp add: VisitUsersFor_def matchClusterRoleBindingsForUser_def matchRoleBindingsForUser_def
        match_bindings_ok split: sum.splits)
  moreover have "us_Name ` set (ra_users ?v) =
       (if rr_Kind role = ''ClusterRole'' then subject_users r role (elems0 (ListClusterRoleBindings r)) else {}) \<union>
       (if rr_Kind role \<in> {''ClusterRole'', ''Role''} \<and> ns \<noteq> []
        then subject_users r role (elems0 (ListRoleBindings r ns)) else {})"
    by (auto simp: VisitUsersFor_def matchClusterRoleBindingsForUser_def matchRoleBindingsForUser_def
        match_bindings_names elems0_def subject_users_simps split: sum.splits)
  ultimately show ?thesis by (simp add: UsersFor_def Let_def acc_ok_def)
qed

end
