(* ===== verification/RoleMapping.thy ===== *)
theory RoleMapping
  imports RbacResolver
begin

section \<open>Roles and permission items: pkg/authorizer/mapping\<close>

text \<open>
  \<open>mapping.go\<close>: a cluster role is shown to users as permission items, each standing for
  the resources that a config map lists for it, and is built back from them. A
  \<open>VerbRepresent\<close> is a Go string type whose values may come from a request body. Go maps
  are association lists in their iteration order; the lemmas show that the order does not
  matter where it does not.
\<close>

type_synonym VerbRepresent = string

definition Null_v :: VerbRepresent where "Null_v = ''null''"
definition Read_v :: VerbRepresent where "Read_v = ''read''"
definition Write_v :: VerbRepresent where "Write_v = ''write''"
definition All_v :: VerbRepresent where "All_v = ''all''"

definition readVerbs :: "string list" where
  "readVerbs = [''get'', ''list'', ''watch'']"

definition writeVerbs :: "string list" where
  "writeVerbs = [''create'', ''delete'', ''deletecollection'', ''patch'', ''update'']"

definition legacyWriteVerbs :: "string list" where
  "legacyWriteVerbs = [''create'', ''delete'', ''patch'', ''update'']"

definition bothVerbs :: "string list" where
  "bothVerbs = [''create'', ''delete'', ''deletecollection'', ''get'', ''list'', ''patch'', ''update'', ''watch'']"

record AuthItem =
  ai_Verb :: VerbRepresent
  ai_Resources :: "(string, VerbRepresent) gomap"

record RoleAuthBody =
  rab_ClusterRoleName :: string
  rab_Scope :: string
  rab_AuthItems :: "(string, AuthItem) gomap"

subsection \<open>Definitions\<close>

definition verbsMerge :: "VerbRepresent \<Rightarrow> VerbRepresent \<Rightarrow> VerbRepresent" where
  "verbsMerge v1 v2 =
     (if v1 = v2 then v1
      else if v1 \<noteq> v2 \<and> v1 \<noteq> Null_v \<and> v2 \<noteq> Null_v then All_v
      else Null_v)"

definition verbsAssert :: "string list \<Rightarrow> VerbRepresent" where
  "verbsAssert verbs =
     (let currentVerbs = set verbs
      in if set bothVerbs = currentVerbs then All_v
         else if set readVerbs \<subseteq> currentVerbs then Read_v
         else if set writeVerbs \<subseteq> currentVerbs then Write_v
         else if set legacyWriteVerbs \<subseteq> currentVerbs then Write_v
         else Null_v)"

type_synonym ClusterRoleSplit = "(string \<times> VerbRepresent) list"

fun split_resources :: "VerbRepresent \<Rightarrow> string list \<Rightarrow> ClusterRoleSplit \<Rightarrow> ClusterRoleSplit" where
  "split_resources verb [] res = res"
| "split_resources verb (resource # rs) res =
     (case map_of res resource of
        Some verbRepresent \<Rightarrow> split_resources verb rs (AList.update resource (verbsMerge verbRepresent verb) res)
      | None \<Rightarrow> split_resources verb rs (AList.update resource verb res))"

fun split_rules :: "PolicyRule list \<Rightarrow> ClusterRoleSplit \<Rightarrow> ClusterRoleSplit" where
  "split_rules [] res = res"
| "split_rules (rule # rules) res =
     split_rules rules (split_resources (verbsAssert (pr_Verbs rule)) (pr_Resources rule) res)"

definition SplitClusterRole :: "ClusterRole option \<Rightarrow> ClusterRoleSplit" where
  "SplitClusterRole clusterRole =
     (case clusterRole of None \<Rightarrow> [] | Some c \<Rightarrow> split_rules (cr_Rules c) [])"

text \<open>
  The loop over the resources of one item; the state is \<open>visitVerb\<close>, \<open>interruptVerb\<close>,
  \<open>placeVerb\<close> and the item's resources.
\<close>

fun item_loop ::
  "ClusterRoleSplit \<Rightarrow> string list \<Rightarrow> VerbRepresent \<Rightarrow> VerbRepresent \<Rightarrow> VerbRepresent \<Rightarrow> (string \<times> VerbRepresent) list
     \<Rightarrow> VerbRepresent \<times> VerbRepresent \<times> VerbRepresent \<times> (string \<times> VerbRepresent) list" where
  "item_loop p [] visitVerb interruptVerb placeVerb res = (visitVerb, interruptVerb, placeVerb, res)"
| "item_loop p (resource # rs) visitVerb interruptVerb placeVerb res =
     (let hasRule = (map_of p resource \<noteq> None);
          verb = (case map_of p resource of None \<Rightarrow> [] | Some v \<Rightarrow> v);
          verb = (if verb = [] then Null_v else verb);
          res = AList.update resource verb res
      in if \<not> hasRule \<or> verb = Null_v then item_loop p rs visitVerb Null_v placeVerb res
         else if verb \<noteq> All_v \<and> visitVerb \<noteq> All_v \<and> verb \<noteq> visitVerb \<and> visitVerb \<noteq> []
              then item_loop p rs visitVerb Null_v placeVerb res
         else
           let placeVerb = (if placeVerb = [] \<or> placeVerb = All_v then verb else placeVerb)
           in item_loop p rs verb interruptVerb placeVerb res)"

definition map_item :: "ClusterRoleSplit \<Rightarrow> bool \<Rightarrow> string \<Rightarrow> AuthItem" where
  "map_item p verbose v =
     (case item_loop p (Split v '';'') [] [] [] [] of
        (visitVerb, interruptVerb, placeVerb, resources) \<Rightarrow>
          \<lparr>ai_Verb =
             (if interruptVerb = Null_v then Null_v
              else if visitVerb \<noteq> placeVerb then placeVerb
              else visitVerb),
           ai_Resources = (if \<not> verbose then None else Some resources)\<rparr>)"

definition ClusterRoleMapping ::
  "ClusterRole option \<Rightarrow> (string, string) gomap \<Rightarrow> bool \<Rightarrow> RoleAuthBody option" where
  "ClusterRoleMapping clusterRole cmData verbose =
     (case (clusterRole, cmData) of
        (Some cr, Some (kv # kvs)) \<Rightarrow>
          let processedClusterRole = SplitClusterRole clusterRole
          in Some \<lparr>rab_ClusterRoleName = cr_Name cr, rab_Scope = [],
                  rab_AuthItems = Some (map (\<lambda>(k, v). (k, map_item processedClusterRole verbose v)) (kv # kvs))\<rparr>
      | _ \<Rightarrow> None)"

fun put_resources :: "VerbRepresent \<Rightarrow> string list \<Rightarrow> (string \<times> VerbRepresent) list \<Rightarrow> (string \<times> VerbRepresent) list" where
  "put_resources v [] rules = rules"
| "put_resources v (resource # rs) rules =
     (case map_of rules resource of
        None \<Rightarrow> put_resources v rs (AList.update resource v rules)
      | Some verb \<Rightarrow>
          if verb \<noteq> v then put_resources v rs (AList.update resource All_v rules)
          else put_resources v rs rules)"

fun put_items ::
  "(string, string) gomap \<Rightarrow> (string \<times> AuthItem) list \<Rightarrow> (string \<times> VerbRepresent) list \<Rightarrow> (string \<times> VerbRepresent) list" where
  "put_items cmData [] rules = rules"
| "put_items cmData ((k, v) # items) rules =
     (if ai_Verb v = Null_v then put_items cmData items rules
      else (case gm_get cmData k of
              None \<Rightarrow> put_items cmData items rules
            | Some resources \<Rightarrow> put_items cmData items (put_resources (ai_Verb v) (Split resources '';'') rules)))"

definition verbs_of :: "VerbRepresent \<Rightarrow> string list" where
  "verbs_of verb =
     (if verb = All_v then bothVerbs else if verb = Read_v then readVerbs
      else if verb = Write_v then writeVerbs else [])"

definition policy_rule :: "string \<times> VerbRepresent \<Rightarrow> PolicyRule" where
  "policy_rule rv =
     \<lparr>pr_Verbs = verbs_of (snd rv), pr_APIGroups = [''*''], pr_Resources = [fst rv],
      pr_ResourceNames = [], pr_NonResourceURLs = []\<rparr>"

definition RoleAuthMapping :: "RoleAuthBody option \<Rightarrow> (string, string) gomap \<Rightarrow> ClusterRole go" where
  "RoleAuthMapping roleAuths cmData =
     (case roleAuths of
        None \<Rightarrow> Panic
      | Some body \<Rightarrow>
          (case cmData of
             None \<Rightarrow> Ret \<lparr>cr_Name = rab_ClusterRoleName body, cr_Rules = []\<rparr>
           | Some [] \<Rightarrow> Ret \<lparr>cr_Name = rab_ClusterRoleName body, cr_Rules = []\<rparr>
           | Some (kv # kvs) \<Rightarrow>
               let rules = put_items cmData (case rab_AuthItems body of None \<Rightarrow> [] | Some l \<Rightarrow> l) []
               in Ret \<lparr>cr_Name = rab_ClusterRoleName body, cr_Rules = map policy_rule rules\<rparr>))"

subsection \<open>Verbs\<close>

lemmas verb_names = Null_v_def Read_v_def Write_v_def All_v_def

lemma verb_distinct [simp]:
  "Null_v \<noteq> Read_v" "Null_v \<noteq> Write_v" "Null_v \<noteq> All_v" "Read_v \<noteq> Write_v" "Read_v \<noteq> All_v" "Write_v \<noteq> All_v"
  "Read_v \<noteq> Null_v" "Write_v \<noteq> Null_v" "All_v \<noteq> Null_v" "Write_v \<noteq> Read_v" "All_v \<noteq> Read_v" "All_v \<noteq> Write_v"
  "Null_v \<noteq> []" "Read_v \<noteq> []" "Write_v \<noteq> []" "All_v \<noteq> []"
  "[] \<noteq> Null_v" "[] \<noteq> Read_v" "[] \<noteq> Write_v" "[] \<noteq> All_v"
  by (simp_all add: verb_names)

lemma verbsAssert_verbs_of [simp]:
  "verbsAssert (verbs_of All_v) = All_v" "verbsAssert (verbs_of Read_v) = Read_v"
  "verbsAssert (verbs_of Write_v) = Write_v"
proof -
  have ne: "set bothVerbs \<noteq> set readVerbs" "set bothVerbs \<noteq> set writeVerbs" "\<not> set readVerbs \<subseteq> set writeVerbs"
  proof -
    have "''create'' \<in> set bothVerbs" "''create'' \<notin> set readVerbs" "''get'' \<in> set bothVerbs"
      "''get'' \<notin> set writeVerbs" "''get'' \<in> set readVerbs"
      by (simp_all add: bothVerbs_def readVerbs_def writeVerbs_def)
    then show "set bothVerbs \<noteq> set readVerbs" "set bothVerbs \<noteq> set writeVerbs" "\<not> set readVerbs \<subseteq> set writeVerbs"
      by blast+
  qed
  then show "verbsAssert (verbs_of All_v) = All_v" "verbsAssert (verbs_of Read_v) = Read_v"
    "verbsAssert (verbs_of Write_v) = Write_v"
    by (simp_all add: verbsAssert_def verbs_of_def Let_def)
qed

text \<open>
  The merge of the verbs of two rules is a semilattice operation: the null class absorbs
  everything, and two different other classes give all verbs.
\<close>

interpretation verbs_merge: semilattice verbsMerge
  by unfold_locales (auto simp: verbsMerge_def)

text \<open>The merge of a set of verb classes, with nothing for the empty set.\<close>

definition join_verbs :: "VerbRepresent set \<Rightarrow> VerbRepresent option" where
  "join_verbs S =
     (if S = {} then None
      else if is_singleton S then Some (the_elem S)
      else if Null_v \<in> S then Some Null_v
      else Some All_v)"

lemma join_empty [simp]: "join_verbs {} = None"
  by (simp add: join_verbs_def)

lemma join_single [simp]: "join_verbs {v} = Some v"
  by (simp add: join_verbs_def)

lemma join_multi: "a \<in> S \<Longrightarrow> b \<in> S \<Longrightarrow> a \<noteq> b \<Longrightarrow> join_verbs S = Some (if Null_v \<in> S then Null_v else All_v)"
  by (auto simp: join_verbs_def is_singleton_def)

lemma join_insert:
  "join_verbs (insert v S) = (case join_verbs S of None \<Rightarrow> Some v | Some u \<Rightarrow> Some (verbsMerge u v))"
proof (cases "S = {}")
  case False
  then obtain a where a: "a \<in> S" by blast
  show ?thesis
  proof (cases "\<exists>b\<in>S. b \<noteq> a")
    case True
    then obtain b where b: "b \<in> S" "b \<noteq> a" by blast
    have "join_verbs S = Some (if Null_v \<in> S then Null_v else All_v)"
      using join_multi [OF a b(1)] b(2) by simp
    moreover have "join_verbs (insert v S) = Some (if Null_v \<in> insert v S then Null_v else All_v)"
      using join_multi [of a "insert v S" b] a b by simp
    ultimately show ?thesis by (simp add: verbsMerge_def)
  next
    case False
    with a have S: "S = {a}" by blast
    show ?thesis
    proof (cases "v = a")
      case True
      with S show ?thesis by (simp add: verbsMerge_def)
    next
      case False
      have "join_verbs {v, a} = Some (if Null_v \<in> {v, a} then Null_v else All_v)"
        by (rule join_multi [of v _ a]) (use False in simp_all)
      moreover have "verbsMerge a v = (if Null_v \<in> {v, a} then Null_v else All_v)"
        using False by (auto simp: verbsMerge_def)
      ultimately show ?thesis unfolding S by simp
    qed
  qed
qed simp

subsection \<open>What a cluster role grants\<close>

definition rule_classes :: "PolicyRule list \<Rightarrow> string \<Rightarrow> VerbRepresent set" where
  "rule_classes rules x = {verbsAssert (pr_Verbs rule) | rule. rule \<in> set rules \<and> x \<in> set (pr_Resources rule)}"

lemma split_resources_step:
  "split_resources v (r # rs) res =
   split_resources v rs (AList.update r (case map_of res r of None \<Rightarrow> v | Some u \<Rightarrow> verbsMerge u v) res)"
  by (simp split: option.split)

lemma split_resources_join:
  "map_of res x = join_verbs S \<Longrightarrow>
   map_of (split_resources v rs res) x = join_verbs (if x \<in> set rs then insert v S else S)"
proof (induction rs arbitrary: res S)
  case (Cons r rs)
  let ?S = "if x = r then insert v S else S"
  let ?res = "AList.update r (case map_of res r of None \<Rightarrow> v | Some u \<Rightarrow> verbsMerge u v) res"
  have "map_of ?res x = join_verbs ?S"
    using Cons.prems by (cases "x = r") (simp_all add: join_insert split: option.split)
  from Cons.IH [OF this] show ?case
    unfolding split_resources_step by (simp split: if_splits)
qed simp

lemma split_rules_join:
  "map_of res x = join_verbs S \<Longrightarrow> map_of (split_rules rules res) x = join_verbs (S \<union> rule_classes rules x)"
proof (induction rules arbitrary: res S)
  case (Cons rule rules)
  let ?v = "verbsAssert (pr_Verbs rule)"
  let ?S = "if x \<in> set (pr_Resources rule) then insert ?v S else S"
  have "S \<union> rule_classes (rule # rules) x = ?S \<union> rule_classes rules x"
    by (auto simp: rule_classes_def)
  with Cons.IH [OF split_resources_join [OF Cons.prems]] show ?case by simp
qed (simp add: rule_classes_def)

text \<open>
  Splitting a cluster role. For each resource the answer depends only on the set of verb
  classes of the rules that list it, not on the order or the repetition of the rules: nothing
  for no rule, the class itself for one class, null as soon as null is among several, and all
  verbs otherwise.
\<close>

lemma SplitClusterRole_exact:
  "map_of (SplitClusterRole (Some c)) x = join_verbs (rule_classes (cr_Rules c) x)"
  using split_rules_join [of "[]" x "{}"] by (simp add: SplitClusterRole_def)

subsection \<open>Building a cluster role\<close>

definition item_classes :: "(string, string) gomap \<Rightarrow> (string \<times> AuthItem) list \<Rightarrow> string \<Rightarrow> VerbRepresent set" where
  "item_classes cm items x =
     {ai_Verb it | k it rs. (k, it) \<in> set items \<and> ai_Verb it \<noteq> Null_v \<and> gm_get cm k = Some rs \<and> x \<in> set (Split rs '';'')}"

lemma put_resources_step:
  "put_resources v (r # rs) rules =
   put_resources v rs (case map_of rules r of None \<Rightarrow> AList.update r v rules
     | Some verb \<Rightarrow> if verb \<noteq> v then AList.update r All_v rules else rules)"
  by (simp split: option.split)

lemma join_not_Null: "Null_v \<notin> S \<Longrightarrow> join_verbs S \<noteq> Some Null_v"
  by (auto simp: join_verbs_def is_singleton_def)

lemma put_resources_join:
  "map_of rules x = join_verbs S \<Longrightarrow> Null_v \<notin> S \<Longrightarrow> v \<noteq> Null_v \<Longrightarrow>
   map_of (put_resources v rs rules) x = join_verbs (if x \<in> set rs then insert v S else S)"
proof (induction rs arbitrary: rules S)
  case (Cons r rs)
  let ?S = "if x = r then insert v S else S"
  let ?rules = "case map_of rules r of None \<Rightarrow> AList.update r v rules
     | Some verb \<Rightarrow> if verb \<noteq> v then AList.update r All_v rules else rules"
  have "map_of ?rules x = join_verbs ?S"
    using Cons.prems join_not_Null [OF Cons.prems(2)]
    by (cases "map_of rules r"; cases "x = r") (simp_all add: join_insert verbsMerge_def split: option.split)
  moreover have "Null_v \<notin> ?S" using Cons.prems by simp
  ultimately show ?case
    using Cons.IH [of ?rules ?S] Cons.prems(3) unfolding put_resources_step by (simp split: if_splits)
qed simp

lemma put_items_join:
  "map_of rules x = join_verbs S \<Longrightarrow> Null_v \<notin> S \<Longrightarrow>
   map_of (put_items cm items rules) x = join_verbs (S \<union> item_classes cm items x)"
proof (induction cm items rules arbitrary: S rule: put_items.induct)
  case (1 cm rules)
  then show ?case by (simp add: item_classes_def)
next
  case (2 cm k v items rules)
  show ?case
  proof (cases "ai_Verb v = Null_v \<or> gm_get cm k = None")
    case True
    then have "item_classes cm ((k, v) # items) x = item_classes cm items x"
      by (auto simp: item_classes_def)
    with True 2 show ?thesis by (cases "gm_get cm k") auto
  next
    case False
    then obtain rs where rs: "gm_get cm k = Some rs" "ai_Verb v \<noteq> Null_v" by auto
    let ?S = "if x \<in> set (Split rs '';'') then insert (ai_Verb v) S else S"
    have "S \<union> item_classes cm ((k, v) # items) x = ?S \<union> item_classes cm items x"
      using rs by (auto simp: item_classes_def)
    moreover have "map_of (put_resources (ai_Verb v) (Split rs '';'') rules) x = join_verbs ?S"
      using put_resources_join [OF "2.prems"(1)] rs "2.prems"(2) by simp
    moreover have "Null_v \<notin> ?S" using rs "2.prems"(2) by simp
    ultimately show ?thesis using "2.IH"(3) [OF rs(2,1)] rs by simp
  qed
qed

definition known_verb :: "VerbRepresent \<Rightarrow> bool" where
  "known_verb v \<longleftrightarrow> v = Null_v \<or> v = Read_v \<or> v = Write_v \<or> v = All_v"

lemma distinct_put_resources: "distinct (map fst rules) \<Longrightarrow> distinct (map fst (put_resources v rs rules))"
  by (induction v rs rules rule: put_resources.induct) (auto simp: distinct_update split: option.splits)

lemma distinct_put_items: "distinct (map fst rules) \<Longrightarrow> distinct (map fst (put_items cm items rules))"
  by (induction cm items rules rule: put_items.induct) (auto simp: distinct_put_resources split: option.splits)

lemma rule_classes_policy:
  assumes "distinct (map fst rules)"
  shows "rule_classes (map policy_rule rules) x = (case map_of rules x of None \<Rightarrow> {} | Some v \<Rightarrow> {verbsAssert (verbs_of v)})"
proof -
  have "rule_classes (map policy_rule rules) x = {verbsAssert (verbs_of v) | v. (x, v) \<in> set rules}"
    by (force simp: rule_classes_def policy_rule_def)
  also have "\<dots> = {verbsAssert (verbs_of v) | v. map_of rules x = Some v}"
    using assms by (simp add: map_of_eq_Some_iff)
  finally show ?thesis by (auto split: option.splits)
qed

lemma join_known: "S \<noteq> {} \<Longrightarrow> (\<And>v. v \<in> S \<Longrightarrow> known_verb v \<and> v \<noteq> Null_v) \<Longrightarrow> \<exists>v. join_verbs S = Some v \<and> known_verb v \<and> v \<noteq> Null_v"
  by (auto simp: join_verbs_def is_singleton_def known_verb_def)

lemma verbsAssert_known: "known_verb v \<Longrightarrow> v \<noteq> Null_v \<Longrightarrow> verbsAssert (verbs_of v) = v"
  by (auto simp: known_verb_def)

text \<open>
  C7: building a cluster role from permission items and splitting it again. When all items
  have one of the four verb classes, each resource comes back with exactly the merge of the
  classes of the items that list it in the config map, null items left out, whatever the
  order of the items: the class itself when they agree, all verbs when they do not, nothing
  when no item lists it.
\<close>

theorem RoleAuthMapping_roundtrip:
  assumes "list_all (\<lambda>(k, it). known_verb (ai_Verb it)) items"
    and "RoleAuthMapping (Some body) (Some (kv # kvs)) = Ret c"
    and "rab_AuthItems body = Some items"
  shows "map_of (SplitClusterRole (Some c)) x = join_verbs (item_classes (Some (kv # kvs)) items x)"
proof -
  let ?cm = "Some (kv # kvs)"
  let ?rules = "put_items ?cm items []"
  have c: "cr_Rules c = map policy_rule ?rules" using assms(2,3) by (auto simp: RoleAuthMapping_def Let_def)
  have rules: "map_of ?rules x = join_verbs (item_classes ?cm items x)"
    using put_items_join [of "[]" x "{}"] by simp
  have known: "\<And>v. v \<in> item_classes ?cm items x \<Longrightarrow> known_verb v \<and> v \<noteq> Null_v"
    using assms(1) by (fastforce simp: item_classes_def list_all_iff)
  have "map_of (SplitClusterRole (Some c)) x = join_verbs (rule_classes (map policy_rule ?rules) x)"
    using split_rules_join [of "[]" x "{}"] by (simp add: SplitClusterRole_def c)
  also have "\<dots> = map_of ?rules x"
  proof (cases "item_classes ?cm items x = {}")
    case True
    then show ?thesis by (simp add: rule_classes_policy distinct_put_items rules)
  next
    case False
    with join_known [OF _ known] obtain v where "join_verbs (item_classes ?cm items x) = Some v" "known_verb v" "v \<noteq> Null_v"
      by blast
    then show ?thesis by (simp add: rule_classes_policy distinct_put_items rules verbsAssert_known)
  qed
  finally show ?thesis by (simp add: rules)
qed

theorem RoleAuthMapping_roundtrip_witness:
  "\<exists>c. RoleAuthMapping (Some \<lparr>rab_ClusterRoleName = ''r'', rab_Scope = [],
       rab_AuthItems = Some [(''a'', \<lparr>ai_Verb = Read_v, ai_Resources = None\<rparr>), (''b'', \<lparr>ai_Verb = Write_v, ai_Resources = None\<rparr>)]\<rparr>)
       (Some [(''a'', ''pods;nodes''), (''b'', ''pods'')]) = Ret c \<and>
     map_of (SplitClusterRole (Some c)) ''pods'' =
       join_verbs (item_classes (Some [(''a'', ''pods;nodes''), (''b'', ''pods'')])
         [(''a'', \<lparr>ai_Verb = Read_v, ai_Resources = None\<rparr>), (''b'', \<lparr>ai_Verb = Write_v, ai_Resources = None\<rparr>)] ''pods'')"
proof -
  let ?items = "[(''a'', \<lparr>ai_Verb = Read_v, ai_Resources = None\<rparr>), (''b'', \<lparr>ai_Verb = Write_v, ai_Resources = None\<rparr>)]"
  let ?body = "\<lparr>rab_ClusterRoleName = ''r'', rab_Scope = [], rab_AuthItems = Some ?items\<rparr>"
  obtain c where c: "RoleAuthMapping (Some ?body) (Some [(''a'', ''pods;nodes''), (''b'', ''pods'')]) = Ret c"
    by (simp add: RoleAuthMapping_def Let_def)
  from RoleAuthMapping_roundtrip [OF _ c, of ?items "''pods''"] c show ?thesis
    by (simp add: known_verb_def)
qed

text \<open>
  building a cluster role panics exactly when there is no request body: the guard for a
  missing body goes on to read the name from it.
\<close>

theorem RoleAuthMapping_Panic_iff: "RoleAuthMapping body cm = Panic \<longleftrightarrow> body = None"
  by (auto simp: RoleAuthMapping_def Let_def split: option.splits list.splits)

subsection \<open>The verb of an item\<close>

definition class_in :: "ClusterRoleSplit \<Rightarrow> string \<Rightarrow> VerbRepresent" where
  "class_in p x = (case map_of p x of None \<Rightarrow> Null_v | Some v \<Rightarrow> if v = [] then Null_v else v)"

lemma item_loop_Null:
  "item_loop p rs vv iv pv res = (vv', iv', pv', res') \<Longrightarrow> iv' \<noteq> Null_v \<Longrightarrow>
     list_all (\<lambda>x. class_in p x \<noteq> Null_v) rs \<and> iv \<noteq> Null_v"
  by (induction p rs vv iv pv res rule: item_loop.induct)
    (auto simp: Let_def class_in_def split: if_splits option.splits)

lemma item_loop_same:
  "list_all (\<lambda>x. class_in p x = v) rs \<Longrightarrow> v \<noteq> Null_v \<Longrightarrow> \<exists>res'. item_loop p rs v iv v res = (v, iv, v, res')"
proof (induction rs arbitrary: res)
  case (Cons x rs)
  then have "map_of p x = Some v" "v \<noteq> []" by (auto simp: class_in_def split: option.splits if_splits)
  with Cons show ?case by (auto simp: Let_def)
qed simp

lemma item_loop_uniform:
  assumes "list_all (\<lambda>x. class_in p x = v) rs" and "v \<noteq> Null_v" and "rs \<noteq> []"
  shows "\<exists>res'. item_loop p rs [] iv [] res = (v, iv, v, res')"
proof -
  obtain x xs where rs: "rs = x # xs" using assms(3) by (cases rs) auto
  with assms have "map_of p x = Some v" "v \<noteq> []" by (auto simp: class_in_def split: option.splits if_splits)
  with assms rs item_loop_same [of p v xs] show ?thesis by (simp add: Let_def)
qed

text \<open>
  The verb shown for a permission item. An item that is not shown as null has a verb
  class on every resource that the config map lists for it, and an item whose resources all
  have the same class is shown with that class.
\<close>

lemma map_item_sound:
  "(list_all (\<lambda>x. class_in p x \<noteq> Null_v) (Split v '';'') \<or> ai_Verb (map_item p verbose v) = Null_v) \<and>
   (\<forall>u. list_all (\<lambda>x. class_in p x = u) (Split v '';'') \<longrightarrow> ai_Verb (map_item p verbose v) = u)"
proof (intro conjI allI impI)
  obtain vv iv pv res where run: "item_loop p (Split v '';'') [] [] [] [] = (vv, iv, pv, res)"
    by (metis prod.exhaust)
  from item_loop_Null [OF run]
  show "list_all (\<lambda>x. class_in p x \<noteq> Null_v) (Split v '';'') \<or> ai_Verb (map_item p verbose v) = Null_v"
    by (auto simp: map_item_def run)
  fix u assume u: "list_all (\<lambda>x. class_in p x = u) (Split v '';'')"
  show "ai_Verb (map_item p verbose v) = u"
  proof (cases "u = Null_v")
    case True
    moreover have "\<exists>x. x \<in> set (Split v '';'')" using Split_nonempty [of v "'';''"] by (metis list.set_sel(1))
    ultimately have "iv = Null_v" using u item_loop_Null [OF run] by (auto simp: list_all_iff)
    with True show ?thesis by (simp add: map_item_def run)
  next
    case False
    from item_loop_uniform [OF u False, of "[]" "[]"] run False show ?thesis
      by (auto simp: map_item_def)
  qed
qed

text \<open>
  The verb shown depends on the order of the resources. With read, all and write verbs
  on three resources, listing the one with all verbs in the middle shows the item as read,
  although one of its resources cannot be read; listing it last shows the item as null, which
  is what the comment in the code asks for whenever read meets write.
\<close>

lemma map_item_order_matters:
  "ai_Verb (map_item [(''a'', Read_v), (''b'', All_v), (''c'', Write_v)] True ''a;b;c'') = Read_v \<and>
   ai_Verb (map_item [(''a'', Read_v), (''b'', All_v), (''c'', Write_v)] True ''a;c;b'') = Null_v"
  by (simp add: map_item_def Split_def HasPrefix_def Let_def)

end
