(* ===== verification/Scout.thy ===== *)
theory Scout
  imports KubeApi
begin

section \<open>The scout of a cluster: pkg/multicluster/scout\<close>

text \<open>
  \<open>scout.go\<close>: one scout per member cluster follows the heartbeats of its warden and keeps
  the cluster's health, with the cluster object of \<open>pkg/apis/cluster/v1/cluster_types.go\<close>
  and \<open>UpdateClusterStatus\<close> of \<open>pkg/utils/update.go\<close>. A time is a number of
  nanoseconds; the current time is an argument of each call that reads the clock. The loop of
  \<open>Collect\<close> is a sequence of heartbeats and ticks.
\<close>

type_synonym ClusterState = string

definition ClusterInitFailed :: ClusterState where "ClusterInitFailed = ''initFailed''"
definition ClusterReconnectedFailed :: ClusterState where "ClusterReconnectedFailed = ''reconnectedFailed''"
definition ClusterProcessing :: ClusterState where "ClusterProcessing = ''processing''"
definition ClusterDeleting :: ClusterState where "ClusterDeleting = ''deleting''"
definition ClusterNormal :: ClusterState where "ClusterNormal = ''normal''"
definition ClusterAbnormal :: ClusterState where "ClusterAbnormal = ''abnormal''"

record ClusterStatus =
  cs_State :: "ClusterState option"
  cs_Reason :: string
  cs_LastHeartbeat :: "int option"

record Cluster =
  clu_Name :: string
  clu_KubeConfig :: string
  clu_KubernetesAPIEndpoint :: string
  clu_IsMemberCluster :: bool
  clu_Description :: string
  clu_HarborAddr :: string
  clu_NetworkType :: string
  clu_IngressDomainSuffix :: string
  clu_IsWritable :: bool
  clu_Labels :: "(string, string) gomap"
  clu_Annotations :: "(string, string) gomap"
  clu_CreationTimestamp :: int
  clu_Finalizers :: "string list"
  clu_DeletionTimestamp :: "int option"
  clu_Status :: ClusterStatus

record Scout =
  sc_LastHeartbeat :: int
  sc_WaitTimeoutSeconds :: int
  sc_InitialDelaySeconds :: int
  sc_Cluster :: string
  sc_Once :: bool
  sc_clusterState :: ClusterState

subsection \<open>Definitions\<close>

definition UpdateClusterStatus ::
  "('w, Cluster) client \<Rightarrow> Cluster \<Rightarrow> (Cluster \<Rightarrow> Cluster) \<Rightarrow> ('w, err option) state" where
  "UpdateClusterStatus cli cluster updateFn =
     (let cluster = updateFn cluster
      in RetryOnConflict DefaultRetry (do {
           r \<leftarrow> cl_get cli ([], clu_Name cluster);
           case r of
             Inl e \<Rightarrow> State_Monad.return (Some e)
           | Inr newCluster \<Rightarrow> cl_status_update cli (newCluster\<lparr>clu_Status := clu_Status cluster\<rparr>)
         }))"

definition UpdateClusterStatusByState ::
  "('w, Cluster) client \<Rightarrow> Cluster \<Rightarrow> ClusterState \<Rightarrow> ('w, err option) state" where
  "UpdateClusterStatusByState cli cluster state =
     UpdateClusterStatus cli cluster (\<lambda>cluster.
       cluster\<lparr>clu_Status := (clu_Status cluster)\<lparr>
         cs_State := Some state, cs_Reason := ''cluster('' @ clu_Name cluster @ '') is '' @ state\<rparr>\<rparr>)"

definition defaultInitialDelaySeconds :: int where "defaultInitialDelaySeconds = 10"
definition defaultWaitTimeoutSeconds :: int where "defaultWaitTimeoutSeconds = 10"

definition NewScout :: "string \<Rightarrow> int \<Rightarrow> int \<Rightarrow> Scout" where
  "NewScout cluster initialDelay waitTimeoutSeconds =
     (let initialDelay = (if initialDelay = 0 then defaultInitialDelaySeconds else initialDelay);
          waitTimeoutSeconds = (if waitTimeoutSeconds = 0 then defaultWaitTimeoutSeconds else waitTimeoutSeconds)
      in \<lparr>sc_LastHeartbeat = 0, sc_WaitTimeoutSeconds = waitTimeoutSeconds, sc_InitialDelaySeconds = initialDelay,
          sc_Cluster = cluster, sc_Once = False, sc_clusterState = ClusterProcessing\<rparr>)"

definition ClusterHealth :: "Scout \<Rightarrow> ClusterState" where
  "ClusterHealth s = sc_clusterState s"

definition healthWarden :: "('w, Cluster) client \<Rightarrow> int \<Rightarrow> Scout \<Rightarrow> ('w, Scout) state" where
  "healthWarden cli now s = do {
     r \<leftarrow> cl_get cli ([], sc_Cluster s);
     case r of
       Inl e \<Rightarrow> State_Monad.return s
     | Inr cluster \<Rightarrow>
         let s = s\<lparr>sc_LastHeartbeat := now\<rparr>
         in do {
           e \<leftarrow> UpdateClusterStatus cli cluster (\<lambda>obj.
             obj\<lparr>clu_Status := (clu_Status obj)\<lparr>
               cs_State := Some ClusterNormal,
               cs_Reason := ''receive heartbeat from cluster '' @ sc_Cluster s,
               cs_LastHeartbeat := Some (sc_LastHeartbeat s)\<rparr>\<rparr>);
           State_Monad.return (if e \<noteq> None then s else s\<lparr>sc_clusterState := ClusterNormal\<rparr>)
         }
   }"

text \<open>\<open>Duration.Milliseconds\<close> truncates towards zero; \<open>time.Duration\<close> wraps.\<close>

definition Milliseconds :: "int \<Rightarrow> int" where
  "Milliseconds d = (if 0 \<le> d then d div 10 ^ 6 else - ((- d) div 10 ^ 6))"

definition isDisconnected :: "Cluster \<Rightarrow> int \<Rightarrow> int \<Rightarrow> bool go" where
  "isDisconnected cluster waitTimeoutSecond now =
     (case cs_State (clu_Status cluster) of
        None \<Rightarrow> Panic
      | Some _ \<Rightarrow>
          (case cs_LastHeartbeat (clu_Status cluster) of
             None \<Rightarrow> Ret True
           | Some hb \<Rightarrow>
               let v = now - hb
               in if Milliseconds v < Milliseconds (wrap64 (waitTimeoutSecond * 10 ^ 9)) then Ret False
                  else Ret True))"

definition illWarden :: "('w, Cluster) client \<Rightarrow> int \<Rightarrow> Scout \<Rightarrow> ('w, Scout go) state" where
  "illWarden cli now s = do {
     r \<leftarrow> cl_get cli ([], sc_Cluster s);
     case r of
       Inl e \<Rightarrow> State_Monad.return (Ret s)
     | Inr cluster \<Rightarrow>
         let s = (case cs_LastHeartbeat (clu_Status cluster) of
                    None \<Rightarrow> s | Some hb \<Rightarrow> s\<lparr>sc_LastHeartbeat := hb\<rparr>)
         in case isDisconnected cluster (sc_WaitTimeoutSeconds s) now of
              Panic \<Rightarrow> State_Monad.return Panic
            | Ret False \<Rightarrow> State_Monad.return (Ret (s\<lparr>sc_clusterState := ClusterNormal\<rparr>))
            | Ret True \<Rightarrow>
                if sc_clusterState s = ClusterNormal then
                  (case cs_LastHeartbeat (clu_Status cluster) of
                     None \<Rightarrow> State_Monad.return Panic
                   | Some _ \<Rightarrow> do {
                       e \<leftarrow> UpdateClusterStatus cli cluster (\<lambda>obj.
                         obj\<lparr>clu_Status := (clu_Status obj)\<lparr>
                           cs_State := Some ClusterAbnormal,
                           cs_Reason := ''cluster '' @ sc_Cluster s @ '' disconnected''\<rparr>\<rparr>);
                       State_Monad.return (Ret (s\<lparr>sc_clusterState := ClusterAbnormal\<rparr>))
                     })
                else State_Monad.return (Ret (s\<lparr>sc_clusterState := ClusterAbnormal\<rparr>))
   }"

text \<open>
  \<open>Collect\<close> serves heartbeats and ticks one at a time, in the order they come, until its
  context is done: a list of events, each with the time at which it is served.
\<close>

datatype scout_event = Heartbeat int | Tick int

fun Collect_scout :: "('w, Cluster) client \<Rightarrow> scout_event list \<Rightarrow> Scout \<Rightarrow> ('w, Scout go) state" where
  "Collect_scout cli [] s = State_Monad.return (Ret s)"
| "Collect_scout cli (Heartbeat now # es) s = do { s \<leftarrow> healthWarden cli now s; Collect_scout cli es s }"
| "Collect_scout cli (Tick now # es) s = do {
     r \<leftarrow> illWarden cli now s;
     case r of Panic \<Rightarrow> State_Monad.return Panic | Ret s \<Rightarrow> Collect_scout cli es s
   }"

subsection \<open>The health that is kept\<close>

lemma cluster_states [simp]:
  "ClusterNormal \<noteq> ClusterAbnormal" "ClusterAbnormal \<noteq> ClusterNormal"
  "ClusterProcessing \<noteq> ClusterNormal" "ClusterNormal \<noteq> ClusterProcessing"
  "ClusterProcessing \<noteq> ClusterAbnormal" "ClusterAbnormal \<noteq> ClusterProcessing"
  by (simp_all add: ClusterNormal_def ClusterAbnormal_def ClusterProcessing_def)

definition scout_ok :: "Scout \<Rightarrow> bool" where
  "scout_ok s \<longleftrightarrow> sc_clusterState s \<in> {ClusterProcessing, ClusterNormal, ClusterAbnormal}"

lemma NewScout_fields [simp]:
  "sc_Cluster (NewScout n delay wait) = n" "sc_clusterState (NewScout n delay wait) = ClusterProcessing"
  "sc_WaitTimeoutSeconds (NewScout n delay wait) = (if wait = 0 then 10 else wait)"
  by (simp_all add: NewScout_def Let_def defaultWaitTimeoutSeconds_def)

lemma healthWarden_ok:
  "scout_ok s \<Longrightarrow> run_state (healthWarden cli now s) w = (s', w') \<Longrightarrow>
     scout_ok s' \<and> sc_Cluster s' = sc_Cluster s \<and> sc_WaitTimeoutSeconds s' = sc_WaitTimeoutSeconds s"
  by (auto simp: healthWarden_def scout_ok_def Let_def split: sum.splits prod.splits if_splits)

lemma illWarden_ok:
  "scout_ok s \<Longrightarrow> run_state (illWarden cli now s) w = (Ret s', w') \<Longrightarrow>
     scout_ok s' \<and> sc_Cluster s' = sc_Cluster s \<and> sc_WaitTimeoutSeconds s' = sc_WaitTimeoutSeconds s"
  by (auto simp: illWarden_def scout_ok_def Let_def split: sum.splits prod.splits if_splits option.splits go.splits bool.splits)

lemma Collect_ok:
  "scout_ok s \<Longrightarrow> run_state (Collect_scout cli es s) w = (Ret s', w') \<Longrightarrow>
     scout_ok s' \<and> sc_Cluster s' = sc_Cluster s \<and> sc_WaitTimeoutSeconds s' = sc_WaitTimeoutSeconds s"
proof (induction es arbitrary: s w)
  case (Cons ev es)
  show ?case
  proof (cases ev)
    case (Heartbeat now)
    obtain s1 w1 where h: "run_state (healthWarden cli now s) w = (s1, w1)" by fastforce
    with Heartbeat Cons.prems(2) have "run_state (Collect_scout cli es s1) w1 = (Ret s', w')" by simp
    with healthWarden_ok [OF Cons.prems(1) h] Cons.IH show ?thesis by metis
  next
    case (Tick now)
    obtain r w1 where ill: "run_state (illWarden cli now s) w = (r, w1)" by fastforce
    with Cons.prems(2) Tick obtain s1 where r: "r = Ret s1" and run: "run_state (Collect_scout cli es s1) w1 = (Ret s', w')"
      by (cases r) auto
    with illWarden_ok [OF Cons.prems(1), of cli now w s1 w1] ill Cons.IH show ?thesis by metis
  qed
qed simp

text \<open>
  The scout's state machine. From a new scout, any sequence of heartbeats and ticks and
  any answers of the API server that do not end in a panic leave its health at processing,
  normal or abnormal, and never change the cluster it watches or its timeout.
\<close>

lemma scout_states:
  "case run_state (Collect_scout cli es (NewScout n delay wait)) w of
     (Panic, w') \<Rightarrow> True
   | (Ret s, w') \<Rightarrow> scout_ok s \<and> sc_Cluster s = n \<and>
       sc_WaitTimeoutSeconds s = (if wait = 0 then 10 else wait)"
proof -
  obtain r w' where run: "run_state (Collect_scout cli es (NewScout n delay wait)) w = (r, w')" by fastforce
  have ok: "scout_ok (NewScout n delay wait)" by (simp add: scout_ok_def)
  show ?thesis
  proof (cases r)
    case (Ret s)
    with Collect_ok [OF ok, of cli es w s w'] run show ?thesis by simp
  qed (simp add: run)
qed

subsection \<open>Following the heartbeats\<close>

type_synonym clusters = "objkey \<Rightarrow> Cluster option"

definition cluster_set_status :: "Cluster \<Rightarrow> Cluster \<Rightarrow> Cluster" where
  "cluster_set_status y x = y\<lparr>clu_Status := clu_Status x\<rparr>"

abbreviation clusters_cli :: "(clusters, Cluster) client" where
  "clusters_cli \<equiv> store_client (\<lambda>c. ([], clu_Name c)) cluster_set_status"

lemma UpdateClusterStatus_store:
  assumes "w ([], n) = Some y" and "clu_Name y = n" and "clu_Name (f c) = n"
  shows "run_state (UpdateClusterStatus clusters_cli c f) w = (None, w(([], n) \<mapsto> y\<lparr>clu_Status := clu_Status (f c)\<rparr>))"
  using assms
  by (simp add: UpdateClusterStatus_def Let_def DefaultRetry_def numeral_eq_Suc cluster_set_status_def)

definition last_beat :: "int option \<Rightarrow> scout_event list \<Rightarrow> int option" where
  "last_beat hb es = fold (\<lambda>e hb. case e of Heartbeat t \<Rightarrow> Some t | Tick t \<Rightarrow> hb) es hb"

text \<open>The store holds the watched cluster with a state, and a normal scout has seen a heartbeat.\<close>

definition watching :: "string \<Rightarrow> Scout \<Rightarrow> clusters \<Rightarrow> int option \<Rightarrow> bool" where
  "watching n s w hb \<longleftrightarrow> sc_Cluster s = n \<and>
     (\<exists>c. w ([], n) = Some c \<and> clu_Name c = n \<and> cs_State (clu_Status c) \<noteq> None \<and>
        cs_LastHeartbeat (clu_Status c) = hb \<and> (sc_clusterState s \<noteq> ClusterNormal \<or> hb \<noteq> None))"

lemma healthWarden_watching:
  assumes "watching n s w hb"
  shows "\<exists>s' w'. run_state (healthWarden clusters_cli now s) w = (s', w') \<and> watching n s' w' (Some now) \<and>
    sc_WaitTimeoutSeconds s' = sc_WaitTimeoutSeconds s \<and> sc_clusterState s' = ClusterNormal"
proof -
  from assms obtain c where c: "sc_Cluster s = n" "w ([], n) = Some c" "clu_Name c = n" by (auto simp: watching_def)
  then show ?thesis
    by (simp add: healthWarden_def Let_def UpdateClusterStatus_store [where n = n and y = c] watching_def)
qed

definition silent :: "int \<Rightarrow> int \<Rightarrow> int option \<Rightarrow> bool" where
  "silent wait now hb =
     (case hb of None \<Rightarrow> True | Some t \<Rightarrow> Milliseconds (wrap64 (wait * 10 ^ 9)) \<le> Milliseconds (now - t))"

lemma illWarden_watching:
  assumes "watching n s w hb"
  shows "\<exists>s' w'. run_state (illWarden clusters_cli now s) w = (Ret s', w') \<and> watching n s' w' hb \<and>
    sc_WaitTimeoutSeconds s' = sc_WaitTimeoutSeconds s \<and>
    sc_clusterState s' = (if silent (sc_WaitTimeoutSeconds s) now hb then ClusterAbnormal else ClusterNormal)"
proof -
  from assms obtain c st where c: "sc_Cluster s = n" "w ([], n) = Some c" "clu_Name c = n"
    "cs_State (clu_Status c) = Some st" "cs_LastHeartbeat (clu_Status c) = hb"
    "sc_clusterState s \<noteq> ClusterNormal \<or> hb \<noteq> None" by (auto simp: watching_def)
  then show ?thesis
    by (cases hb)
      (simp_all add: illWarden_def Let_def UpdateClusterStatus_store [where n = n and y = c] watching_def
        isDisconnected_def silent_def not_less)
qed

lemma Collect_watching:
  assumes "watching n s w hb"
  shows "\<exists>s' w'. run_state (Collect_scout clusters_cli es s) w = (Ret s', w') \<and> watching n s' w' (last_beat hb es) \<and>
    sc_WaitTimeoutSeconds s' = sc_WaitTimeoutSeconds s"
  using assms
proof (induction es arbitrary: s w hb)
  case Nil
  then show ?case by (simp add: last_beat_def)
next
  case (Cons ev es)
  show ?case
  proof (cases ev)
    case (Heartbeat now)
    from healthWarden_watching [OF Cons.prems, of now] obtain s1 w1 where
      h: "run_state (healthWarden clusters_cli now s) w = (s1, w1)" "watching n s1 w1 (Some now)"
        "sc_WaitTimeoutSeconds s1 = sc_WaitTimeoutSeconds s" by blast
    from Cons.IH [OF h(2)] h(1,3) Heartbeat show ?thesis by (simp add: last_beat_def)
  next
    case (Tick now)
    from illWarden_watching [OF Cons.prems, of now] obtain s1 w1 where
      h: "run_state (illWarden clusters_cli now s) w = (Ret s1, w1)" "watching n s1 w1 hb"
        "sc_WaitTimeoutSeconds s1 = sc_WaitTimeoutSeconds s" by blast
    from Cons.IH [OF h(2)] h(1,3) Tick show ?thesis by (simp add: last_beat_def)
  qed
qed

lemma Collect_append:
  "run_state (Collect_scout cli (es @ fs) s) w =
     (case run_state (Collect_scout cli es s) w of
        (Panic, w') \<Rightarrow> (Panic, w') | (Ret s', w') \<Rightarrow> run_state (Collect_scout cli fs s') w')"
proof (induction es arbitrary: s w)
  case (Cons ev es)
  then show ?case
    by (cases ev) (auto split: prod.splits go.splits)
qed simp


definition sample_cluster :: Cluster where
  "sample_cluster = \<lparr>clu_Name = ''m'', clu_KubeConfig = [], clu_KubernetesAPIEndpoint = [], clu_IsMemberCluster = True,
     clu_Description = [], clu_HarborAddr = [], clu_NetworkType = [], clu_IngressDomainSuffix = [], clu_IsWritable = True,
     clu_Labels = None, clu_Annotations = None, clu_CreationTimestamp = 0, clu_Finalizers = [], clu_DeletionTimestamp = None,
     clu_Status = \<lparr>cs_State = Some ClusterProcessing, cs_Reason = [], cs_LastHeartbeat = None\<rparr>\<rparr>"


text \<open>
  When the scout panics. A tick panics exactly when the cluster is read and either its
  status has no state, or the scout counts it as normal while its status has no heartbeat.
\<close>

lemma illWarden_Panic_iff:
  "fst (run_state (illWarden cli now s) w) = Panic \<longleftrightarrow>
   (case fst (run_state (cl_get cli ([], sc_Cluster s)) w) of
      Inl e \<Rightarrow> False
    | Inr c \<Rightarrow> cs_State (clu_Status c) = None \<or>
              sc_clusterState s = ClusterNormal \<and> cs_LastHeartbeat (clu_Status c) = None)"
  by (auto simp: illWarden_def isDisconnected_def Let_def split: prod.splits sum.splits option.splits if_splits go.splits bool.splits)

end
