(* ===== verification/MultiCluster.thy ===== *)
theory MultiCluster
  imports Scout
begin

section \<open>The multi cluster manager: pkg/multicluster\<close>

text \<open>
  \<open>manager.go\<close>, \<open>sync.go\<close> and \<open>convert.go\<close>: the table of internal clusters that the
  whole program looks clusters up in, kept in step with the cluster objects. Every operation
  holds the manager's lock, so each is one atomic step on the table. What is built from a
  kubeconfig (rest config, transport, clients) is an abstract value of type \<open>'c\<close>, and the
  builders are arguments. A stop channel is a number; the manager's state remembers which
  numbers are used and which channels are closed, as closing one twice panics.
\<close>

datatype clusterType = LocalClusterT | PivotClusterT | MemberClusterT | AllClusterT

definition LocalCluster :: string where
  "LocalCluster = ''_local_cluster''"

record 'c InternalCluster =
  ic_Name :: string
  ic_Type :: clusterType
  ic_Client :: 'c
  ic_Scout :: "Scout option"
  ic_Version :: string
  ic_RawCluster :: "Cluster option"
  ic_StopCh :: nat

record 'c MultiClustersMgr =
  mg_Clusters :: "(string \<times> 'c InternalCluster) list"
  mg_closed :: "nat list"
  mg_next :: nat

subsection \<open>Definitions\<close>

definition Add_mgr ::
  "'c MultiClustersMgr \<Rightarrow> string \<Rightarrow> 'c InternalCluster \<Rightarrow> err option \<times> 'c MultiClustersMgr" where
  "Add_mgr m cluster c =
     (case map_of (mg_Clusters m) cluster of
        Some _ \<Rightarrow> (Some (Err (''add: internal cluster '' @ cluster @ '' aready exist'')), m)
      | None \<Rightarrow> (None, m\<lparr>mg_Clusters := AList.update cluster c (mg_Clusters m)\<rparr>))"

definition Get_mgr :: "'c MultiClustersMgr \<Rightarrow> string \<Rightarrow> 'c InternalCluster option \<times> err option" where
  "Get_mgr m cluster =
     (case map_of (mg_Clusters m) cluster of
        None \<Rightarrow> (None, Some (Err (''get: internal cluster '' @ cluster @ '' not found'')))
      | Some c \<Rightarrow>
          (case ic_Scout c of
             None \<Rightarrow> (Some c, None)
           | Some sc \<Rightarrow>
               if ClusterHealth sc = ClusterAbnormal
               then (Some c, Some (Err (''internal cluster '' @ cluster @ '' is abnormal, wait for recover'')))
               else (Some c, None)))"

definition Del_mgr :: "'c MultiClustersMgr \<Rightarrow> string \<Rightarrow> (err option \<times> 'c MultiClustersMgr) go" where
  "Del_mgr m cluster =
     (case map_of (mg_Clusters m) cluster of
        None \<Rightarrow> Ret (Some (Err (''delete: internal cluster '' @ cluster @ '' not found'')), m)
      | Some c \<Rightarrow>
          if ic_StopCh c \<in> set (mg_closed m) then Panic
          else Ret (None, m\<lparr>mg_Clusters := AList.delete cluster (mg_Clusters m),
                           mg_closed := ic_StopCh c # mg_closed m\<rparr>))"

definition GetClient_mgr :: "'c MultiClustersMgr \<Rightarrow> string \<Rightarrow> 'c result" where
  "GetClient_mgr m cluster =
     (case Get_mgr m cluster of
        (_, Some e) \<Rightarrow> Inl e
      | (Some c, None) \<Rightarrow> Inr (ic_Client c)
      | (None, None) \<Rightarrow> Inl (Err []))"

text \<open>\<open>Kubernetes\<close> of \<open>pkg/clients\<close>: the client of a cluster, nil after an error, which is logged.\<close>

definition Kubernetes :: "'c MultiClustersMgr \<Rightarrow> string \<Rightarrow> 'c option" where
  "Kubernetes m cluster = (case GetClient_mgr m cluster of Inl e \<Rightarrow> None | Inr cli \<Rightarrow> Some cli)"

definition Version_mgr :: "'c MultiClustersMgr \<Rightarrow> string \<Rightarrow> string result" where
  "Version_mgr m cluster =
     (case Get_mgr m cluster of
        (_, Some e) \<Rightarrow> Inl e
      | (Some c, None) \<Rightarrow> Inr (ic_Version c)
      | (None, None) \<Rightarrow> Inl (Err []))"

text \<open>\<open>ScoutFor\<close> starts the scout at most once; the flag says whether this call did.\<close>

definition ScoutFor :: "'c MultiClustersMgr \<Rightarrow> string \<Rightarrow> (err option \<times> bool) \<times> 'c MultiClustersMgr" where
  "ScoutFor m cluster =
     (case Get_mgr m cluster of
        (_, Some e) \<Rightarrow> ((Some e, False), m)
      | (None, None) \<Rightarrow> ((None, False), m)
      | (Some c, None) \<Rightarrow>
          (case ic_Scout c of
             None \<Rightarrow> ((None, False), m)
           | Some sc \<Rightarrow>
               if sc_Once sc then ((None, False), m)
               else ((None, True),
                     m\<lparr>mg_Clusters := AList.update cluster (c\<lparr>ic_Scout := Some (sc\<lparr>sc_Once := True\<rparr>)\<rparr>) (mg_Clusters m)\<rparr>)))"

definition ListClustersByType :: "'c MultiClustersMgr \<Rightarrow> clusterType \<Rightarrow> 'c InternalCluster list" where
  "ListClustersByType m t =
     filter (\<lambda>v. ic_Type v = t \<or> t = AllClusterT \<and> ic_Type v \<noteq> LocalClusterT) (map snd (mg_Clusters m))"

definition ListClustersNameByType :: "'c MultiClustersMgr \<Rightarrow> clusterType \<Rightarrow> string list" where
  "ListClustersNameByType m t =
     map ic_Name (filter (\<lambda>v. ic_Type v = t \<or> t = AllClusterT \<and> ic_Type v \<noteq> LocalClusterT) (map snd (mg_Clusters m)))"

record 'c FuzzyCluster =
  fc_Name :: string
  fc_Client :: 'c
  fc_RawCluster :: Cluster

fun fuzzy_loop :: "(string \<times> 'c InternalCluster) list \<Rightarrow> (string \<times> 'c FuzzyCluster) list \<Rightarrow> (string \<times> 'c FuzzyCluster) list go" where
  "fuzzy_loop [] clusters = Ret clusters"
| "fuzzy_loop ((name, v) # rest) clusters =
     (if name = LocalCluster then fuzzy_loop rest clusters
      else (case ic_RawCluster v of
              None \<Rightarrow> Panic
            | Some raw \<Rightarrow>
                fuzzy_loop rest (AList.update name \<lparr>fc_Name = name, fc_Client = ic_Client v, fc_RawCluster = raw\<rparr> clusters)))"

definition FuzzyCopy :: "'c MultiClustersMgr \<Rightarrow> (string \<times> 'c FuzzyCluster) list go" where
  "FuzzyCopy m = fuzzy_loop (mg_Clusters m) []"

text \<open>
  \<open>NewInternalCluster\<close>: \<open>build\<close> makes the config, the clients and asks the server for its
  version; every call uses up one number for a stop channel.
\<close>

definition NewInternalCluster ::
  "(Cluster \<Rightarrow> ('c \<times> string) result) \<Rightarrow> Cluster \<Rightarrow> 'c MultiClustersMgr \<Rightarrow> 'c InternalCluster result \<times> 'c MultiClustersMgr" where
  "NewInternalCluster build cluster m =
     (let raw = cluster\<lparr>clu_Status := (clu_Status cluster)\<lparr>cs_State := Some []\<rparr>\<rparr>;
          t = (if clu_IsMemberCluster cluster then MemberClusterT else PivotClusterT)
      in (case build cluster of
            Inl e \<Rightarrow> Inl e
          | Inr (cli, ver) \<Rightarrow>
              Inr \<lparr>ic_Name = clu_Name cluster, ic_Type = t, ic_Client = cli, ic_Scout = None, ic_Version = ver,
                   ic_RawCluster = Some raw, ic_StopCh = mg_next m\<rparr>,
          m\<lparr>mg_next := Suc (mg_next m)\<rparr>))"

definition addInternalCluster ::
  "(Cluster \<Rightarrow> ('c \<times> string) result) \<Rightarrow> Cluster \<Rightarrow> bool \<Rightarrow> int \<Rightarrow> int \<Rightarrow> 'c MultiClustersMgr \<Rightarrow> err option \<times> 'c MultiClustersMgr" where
  "addInternalCluster build cluster withScout delay wait m =
     (case Get_mgr m (clu_Name cluster) of
        (_, None) \<Rightarrow> (None, m)
      | (_, Some _) \<Rightarrow>
          (case NewInternalCluster build cluster m of
             (Inl e, m) \<Rightarrow> (Some e, m)
           | (Inr c, m) \<Rightarrow>
               if withScout then
                 (case Get_mgr m LocalCluster of
                    (_, Some e) \<Rightarrow> (Some e, m)
                  | (_, None) \<Rightarrow>
                      (None, snd (Add_mgr m (clu_Name cluster)
                                    (c\<lparr>ic_Scout := Some (NewScout (clu_Name cluster) delay wait)\<rparr>))))
               else (None, snd (Add_mgr m (clu_Name cluster) c))))"

definition AddInternalClusterWithScout where
  "AddInternalClusterWithScout build cluster m = addInternalCluster build cluster True 0 0 m"

definition AddInternalClusterWithScoutOpts where
  "AddInternalClusterWithScoutOpts build cluster delay wait m = addInternalCluster build cluster True delay wait m"

definition AddInternalCluster where
  "AddInternalCluster build cluster m = addInternalCluster build cluster False 0 0 m"

record SyncMgr =
  sm_isWithScout :: bool
  sm_ScoutWaitTimeoutSeconds :: int
  sm_ScoutInitialDelaySeconds :: int

text \<open>\<open>ReconcileCluster\<close>; \<open>cached\<close> is what the informer cache returns for the key's name.\<close>

definition ReconcileCluster ::
  "SyncMgr \<Rightarrow> (Cluster \<Rightarrow> ('c \<times> string) result) \<Rightarrow> string \<Rightarrow> Cluster result \<Rightarrow> 'c MultiClustersMgr
     \<Rightarrow> (err option \<times> 'c MultiClustersMgr) go" where
  "ReconcileCluster sm build name cached m =
     (case cached of
        Inl e \<Rightarrow>
          if e = NotFound then go_bind (Del_mgr m name) (\<lambda>(_, m). Ret (None, m))
          else Ret (Some e, m)
      | Inr cluster \<Rightarrow>
          if sm_isWithScout sm then
            (case AddInternalClusterWithScoutOpts build cluster (sm_ScoutInitialDelaySeconds sm)
                    (sm_ScoutWaitTimeoutSeconds sm) m of
               (Some e, m) \<Rightarrow> Ret (Some e, m)
             | (None, m) \<Rightarrow>
                 (case ScoutFor m (clu_Name cluster) of
                    ((Some e, _), m) \<Rightarrow> Ret (Some e, m)
                  | ((None, _), m) \<Rightarrow> Ret (None, m)))
          else
            (case AddInternalCluster build cluster m of
               (Some e, m) \<Rightarrow> Ret (Some e, m)
             | (None, m) \<Rightarrow> Ret (None, m)))"

text \<open>
  \<open>GetVersionConvert\<close> of \<open>convert.go\<close>: one converter per cluster, made on first use by
  \<open>new_converter\<close> and then kept.
\<close>

definition GetVersionConvert ::
  "('c \<Rightarrow> 'v result) \<Rightarrow> 'c MultiClustersMgr \<Rightarrow> string \<Rightarrow> (string \<times> 'v) list \<Rightarrow> 'v result \<times> (string \<times> 'v) list" where
  "GetVersionConvert new_converter m cluster versionConverts =
     (case map_of versionConverts cluster of
        Some c \<Rightarrow> (Inr c, versionConverts)
      | None \<Rightarrow>
          (case Get_mgr m cluster of
             (_, Some e) \<Rightarrow> (Inl e, versionConverts)
           | (None, None) \<Rightarrow> (Inl (Err []), versionConverts)
           | (Some ic, None) \<Rightarrow>
               (case new_converter (ic_Client ic) of
                  Inl e \<Rightarrow> (Inl e, versionConverts)
                | Inr newc \<Rightarrow> (Inr newc, AList.update cluster newc versionConverts))))"

subsection \<open>The manager as a registry\<close>

text \<open>What the clients of the manager rely on: names are registered once and go when deleted.\<close>

locale registry =
  fixes lookup :: "'m \<Rightarrow> string \<Rightarrow> 'x option"
    and register :: "'m \<Rightarrow> string \<Rightarrow> 'x \<Rightarrow> 'm"
    and unregister :: "'m \<Rightarrow> string \<Rightarrow> 'm option"
  assumes lookup_register: "lookup (register m k x) = (if lookup m k = None then (lookup m)(k \<mapsto> x) else lookup m)"
    and lookup_unregister: "unregister m k = Some m' \<Longrightarrow> lookup m' = (lookup m)(k := None)"
begin

lemma first_wins: "lookup (register (register m k x) k y) = lookup (register m k x)"
  by (simp add: lookup_register)

lemma registered: "lookup (register m k x) k \<noteq> None"
  by (simp add: lookup_register)

lemma register_unregister:
  "lookup m k = None \<Longrightarrow> unregister (register m k x) k = Some m' \<Longrightarrow> lookup m' = lookup m"
  using lookup_unregister [of "register m k x" k m'] by (auto simp: lookup_register fun_eq_iff)

end

definition lookup_mgr :: "'c MultiClustersMgr \<Rightarrow> string \<Rightarrow> 'c InternalCluster option" where
  "lookup_mgr m = map_of (mg_Clusters m)"

definition del_result :: "'c MultiClustersMgr \<Rightarrow> string \<Rightarrow> 'c MultiClustersMgr option" where
  "del_result m k = (case Del_mgr m k of Ret (_, m') \<Rightarrow> Some m' | Panic \<Rightarrow> None)"

interpretation mgr_registry: registry lookup_mgr "\<lambda>m k c. snd (Add_mgr m k c)" del_result
proof unfold_locales
  show "lookup_mgr (snd (Add_mgr m k c)) =
      (if lookup_mgr m k = None then (lookup_mgr m)(k \<mapsto> c) else lookup_mgr m)" for m :: "'b MultiClustersMgr" and k c
    by (simp add: lookup_mgr_def Add_mgr_def split: option.splits)
  show "lookup_mgr m' = (lookup_mgr m)(k := None)" if "del_result m k = Some m'" for m m' :: "'b MultiClustersMgr" and k
    using that
    by (auto simp: lookup_mgr_def del_result_def Del_mgr_def delete_conv' fun_eq_iff split: option.splits if_splits)
qed

text \<open>
  Looking a cluster up. It fails for a name that is not registered, and for one whose
  scout counts it as abnormal, in which case the cluster is still handed out with the error;
  clusters without a scout, such as the local one, are always handed out.
\<close>

lemma Get_mgr_exact:
  "Get_mgr m n =
     (lookup_mgr m n,
      (case lookup_mgr m n of
         None \<Rightarrow> Some (Err (''get: internal cluster '' @ n @ '' not found''))
       | Some c \<Rightarrow>
           if map_option ClusterHealth (ic_Scout c) = Some ClusterAbnormal
           then Some (Err (''internal cluster '' @ n @ '' is abnormal, wait for recover'')) else None))"
  by (simp add: Get_mgr_def lookup_mgr_def split: option.splits)

lemma Get_mgr_None: "snd (Get_mgr m n) = None \<Longrightarrow> lookup_mgr m n \<noteq> None"
  by (auto simp: Get_mgr_def lookup_mgr_def split: option.splits if_splits)

lemma NewInternalCluster_Clusters:
  "NewInternalCluster build cl m = (r, m') \<Longrightarrow> mg_Clusters m' = mg_Clusters m \<and> mg_closed m' = mg_closed m \<and> mg_next m' = Suc (mg_next m)"
  by (auto simp: NewInternalCluster_def Let_def)

lemma NewInternalCluster_StopCh:
  "NewInternalCluster build cl m = (Inr c, m') \<Longrightarrow> ic_StopCh c = mg_next m \<and> ic_RawCluster c \<noteq> None \<and> ic_Name c = clu_Name cl"
  by (auto simp: NewInternalCluster_def Let_def split: sum.splits)

text \<open>The four ways in which adding an internal cluster can end.\<close>

lemma addInternalCluster_cases:
  assumes "addInternalCluster build cl ws d wt m = (e, m')"
  obtains (kept) "mg_Clusters m' = mg_Clusters m" "mg_closed m' = mg_closed m" "mg_next m \<le> mg_next m'"
      "e \<noteq> None \<or> lookup_mgr m (clu_Name cl) \<noteq> None"
    | (added) c where "e = None" "lookup_mgr m (clu_Name cl) = None"
      "mg_Clusters m' = AList.update (clu_Name cl) c (mg_Clusters m)" "mg_closed m' = mg_closed m"
      "ic_StopCh c = mg_next m" "mg_next m' = Suc (mg_next m)" "ic_RawCluster c \<noteq> None"
      "ic_Scout c = (if ws then Some (NewScout (clu_Name cl) d wt) else None)" "ic_Name c = clu_Name cl"
proof (cases "snd (Get_mgr m (clu_Name cl))")
  case None
  with assms have "m' = m" "e = None" by (auto simp: addInternalCluster_def split: prod.splits option.splits)
  with kept Get_mgr_None [OF None] show ?thesis by simp
next
  case (Some g)
  obtain r m1 where new: "NewInternalCluster build cl m = (r, m1)" by fastforce
  note n1 = NewInternalCluster_Clusters [OF new]
  have lk: "lookup_mgr m1 = lookup_mgr m" using n1 by (simp add: lookup_mgr_def)
  show ?thesis
  proof (cases "r")
    case (Inl er)
    with Some new assms n1 show ?thesis
      by (intro kept) (auto simp: addInternalCluster_def split: prod.splits)
  next
    case (Inr c)
    have sc: "ic_Scout c = None" using new Inr by (auto simp: NewInternalCluster_def Let_def split: sum.splits)
    note st = NewInternalCluster_StopCh [OF new [unfolded Inr]]
    let ?c = "if ws then c\<lparr>ic_Scout := Some (NewScout (clu_Name cl) d wt)\<rparr> else c"
    have "(e, m') = (if ws \<and> snd (Get_mgr m1 LocalCluster) \<noteq> None then (snd (Get_mgr m1 LocalCluster), m1)
        else (None, snd (Add_mgr m1 (clu_Name cl) ?c)))"
      using assms Some new Inr by (auto simp: addInternalCluster_def split: prod.splits option.splits if_splits)
    then consider "e \<noteq> None" "m' = m1" | "e = None" "m' = snd (Add_mgr m1 (clu_Name cl) ?c)"
      by (auto split: if_splits)
    then show ?thesis
    proof cases
      case 1
      with n1 show ?thesis by (intro kept) simp_all
    next
      case 2
      show ?thesis
      proof (cases "lookup_mgr m (clu_Name cl)")
        case None
        with 2 n1 lk st sc show ?thesis
          by (intro added [of ?c]) (simp_all add: Add_mgr_def lookup_mgr_def)
      next
        case (Some x)
        with 2 n1 lk show ?thesis by (intro kept) (auto simp: Add_mgr_def lookup_mgr_def)
      qed
    qed
  qed
qed

subsection \<open>The manager over its lifetime\<close>

text \<open>
  Stop channels of registered clusters are open and belong to one cluster each, so no
  operation closes one twice; every cluster but the local one has its raw object.
\<close>

definition stop_chs :: "'c MultiClustersMgr \<Rightarrow> nat list" where
  "stop_chs m = map (\<lambda>(_, c). ic_StopCh c) (mg_Clusters m)"

definition mgr_ok :: "'c MultiClustersMgr \<Rightarrow> bool" where
  "mgr_ok m \<longleftrightarrow> distinct (map fst (mg_Clusters m)) \<and> distinct (stop_chs m @ mg_closed m)
     \<and> (\<forall>ch \<in> set (stop_chs m @ mg_closed m). ch < mg_next m)
     \<and> (\<forall>(n, c) \<in> set (mg_Clusters m). n \<noteq> LocalCluster \<longrightarrow> ic_RawCluster c \<noteq> None)"

text \<open>
  \<open>newMultiClusterMgr\<close>, once the config and the clients of the local cluster are made: only
  the local cluster is in the table, without a name, a scout or a raw object of its own.
\<close>

definition mgr_init :: "'c \<Rightarrow> string \<Rightarrow> 'c MultiClustersMgr" where
  "mgr_init cli ver =
     snd (Add_mgr \<lparr>mg_Clusters = [], mg_closed = [], mg_next = 1\<rparr> LocalCluster
       \<lparr>ic_Name = [], ic_Type = LocalClusterT, ic_Client = cli, ic_Scout = None, ic_Version = ver,
        ic_RawCluster = None, ic_StopCh = 0\<rparr>)"

text \<open>
  What happens to a manager: the synchroniser handles an event, the cluster controller deletes
  a cluster, adds one with a scout or starts the scout, and a running scout moves on.
\<close>

inductive mgr_step :: "'c MultiClustersMgr \<Rightarrow> 'c MultiClustersMgr \<Rightarrow> bool" where
  sync: "ReconcileCluster sm build n cached m = Ret (e, m') \<Longrightarrow> mgr_step m m'"
| del: "Del_mgr m n = Ret (e, m') \<Longrightarrow> mgr_step m m'"
| add: "AddInternalClusterWithScoutOpts build cl d wt m = (e, m') \<Longrightarrow> mgr_step m m'"
| start: "ScoutFor m n = (r, m') \<Longrightarrow> mgr_step m m'"
| scouting: "map_of (mg_Clusters m) n = Some c \<Longrightarrow> ic_Scout c = Some sc \<Longrightarrow>
     mgr_step m (m\<lparr>mg_Clusters := AList.update n (c\<lparr>ic_Scout := Some sc'\<rparr>) (mg_Clusters m)\<rparr>)"

inductive_simps mgr_step_iff: "mgr_step m m'"

inductive mgr_reachable :: "'c MultiClustersMgr \<Rightarrow> bool" where
  init: "mgr_reachable (mgr_init cli ver)"
| step: "mgr_reachable m \<Longrightarrow> mgr_step m m' \<Longrightarrow> mgr_reachable m'"

lemma update_same_key:
  assumes "distinct (map fst xs)" and "map_of xs n = Some c"
  obtains us vs where "xs = us @ (n, c) # vs" and "AList.update n d xs = us @ (n, d) # vs"
proof -
  from assms(2) have "(n, c) \<in> set xs" by (rule map_of_SomeD)
  then obtain us vs where xs: "xs = us @ (n, c) # vs" by (auto simp: in_set_conv_decomp)
  with assms(1) have "n \<notin> fst ` set us" by auto
  then have "AList.update n d xs = us @ (n, d) # vs" unfolding xs by (induction us) auto
  with xs that show ?thesis by blast
qed

lemma update_new_key: "map_of xs n = None \<Longrightarrow> AList.update n d xs = xs @ [(n, d)]"
  by (induction xs) (auto split: if_splits)

lemma delete_key:
  assumes "distinct (map fst xs)" and "map_of xs n = Some c"
  obtains us vs where "xs = us @ (n, c) # vs" and "AList.delete n xs = us @ vs"
proof -
  from assms(2) have "(n, c) \<in> set xs" by (rule map_of_SomeD)
  then obtain us vs where xs: "xs = us @ (n, c) # vs" by (auto simp: in_set_conv_decomp)
  with assms(1) have "n \<notin> fst ` set us" "n \<notin> fst ` set vs" by auto
  then have "AList.delete n us = us" "AList.delete n vs = vs" by (auto intro: delete_idem)
  then have "AList.delete n xs = us @ vs" unfolding xs by (simp add: AList.delete_eq)
  with xs that show ?thesis by blast
qed

lemma mgr_ok_update:
  assumes ok: "mgr_ok m" and get: "map_of (mg_Clusters m) n = Some c"
    and "ic_StopCh d = ic_StopCh c" "ic_RawCluster d = ic_RawCluster c"
  shows "mgr_ok (m\<lparr>mg_Clusters := AList.update n d (mg_Clusters m)\<rparr>)"
proof -
  from ok have "distinct (map fst (mg_Clusters m))" by (simp add: mgr_ok_def)
  then obtain us vs where "mg_Clusters m = us @ (n, c) # vs" "AList.update n d (mg_Clusters m) = us @ (n, d) # vs"
    using get by (rule update_same_key)
  with ok assms(3,4) show ?thesis by (simp add: mgr_ok_def stop_chs_def)
qed

lemma mgr_ok_add:
  assumes ok: "mgr_ok m" and "map_of (mg_Clusters m) n = None" "ic_StopCh c = mg_next m" "ic_RawCluster c \<noteq> None"
    and m': "mg_Clusters m' = AList.update n c (mg_Clusters m)" "mg_closed m' = mg_closed m" "mg_next m' = Suc (mg_next m)"
  shows "mgr_ok m'"
  using assms by (auto simp: mgr_ok_def stop_chs_def update_new_key map_of_eq_None_iff less_Suc_eq)

lemma mgr_ok_kept:
  assumes "mgr_ok m" "mg_Clusters m' = mg_Clusters m" "mg_closed m' = mg_closed m" "mg_next m \<le> mg_next m'"
  shows "mgr_ok m'"
proof -
  from assms(1,4) have "\<forall>ch \<in> set (stop_chs m @ mg_closed m). ch < mg_next m'"
    unfolding mgr_ok_def by (meson order_less_le_trans)
  with assms(1-3) show ?thesis by (simp add: mgr_ok_def stop_chs_def)
qed

lemma mgr_ok_addInternalCluster:
  assumes "mgr_ok m" "addInternalCluster build cl ws d wt m = (e, m')"
  shows "mgr_ok m'"
  using assms(2)
proof (cases rule: addInternalCluster_cases)
  case kept
  with assms(1) show ?thesis by (blast intro: mgr_ok_kept)
next
  case (added c)
  with assms(1) show ?thesis by (intro mgr_ok_add [of m "clu_Name cl" c m']) (simp_all add: lookup_mgr_def)
qed

lemma mgr_ok_Del:
  assumes ok: "mgr_ok m" and del: "Del_mgr m n = Ret (e, m')"
  shows "mgr_ok m'"
proof (cases "map_of (mg_Clusters m) n")
  case None
  with del ok show ?thesis by (simp add: Del_mgr_def)
next
  case (Some c)
  from ok have "distinct (map fst (mg_Clusters m))" by (simp add: mgr_ok_def)
  then obtain us vs where "mg_Clusters m = us @ (n, c) # vs" "AList.delete n (mg_Clusters m) = us @ vs"
    using Some by (rule delete_key)
  then have cl: "mg_Clusters m = us @ (n, c) # vs" and m': "mg_Clusters m' = us @ vs" "mg_closed m' = ic_StopCh c # mg_closed m" "mg_next m' = mg_next m"
    using del Some by (auto simp: Del_mgr_def split: if_splits)
  from ok have "distinct (map fst (mg_Clusters m'))" "distinct (stop_chs m' @ mg_closed m')"
    unfolding mgr_ok_def stop_chs_def m' cl by (simp, auto)
  moreover from ok have "\<forall>ch \<in> set (stop_chs m' @ mg_closed m'). ch < mg_next m'"
    "\<forall>(n, c) \<in> set (mg_Clusters m'). n \<noteq> LocalCluster \<longrightarrow> ic_RawCluster c \<noteq> None"
    unfolding mgr_ok_def stop_chs_def m' cl by simp_all
  ultimately show ?thesis unfolding mgr_ok_def by blast
qed

lemma Del_mgr_no_Panic:
  assumes "mgr_ok m"
  shows "Del_mgr m n \<noteq> Panic"
proof
  assume "Del_mgr m n = Panic"
  then obtain c where "map_of (mg_Clusters m) n = Some c" "ic_StopCh c \<in> set (mg_closed m)"
    by (auto simp: Del_mgr_def split: option.splits if_splits)
  with assms map_of_SomeD [of "mg_Clusters m" n c] show False
    by (force simp: mgr_ok_def stop_chs_def disjoint_iff image_iff)
qed

lemma mgr_ok_ScoutFor:
  assumes ok: "mgr_ok m" and "ScoutFor m n = (r, m')"
  shows "mgr_ok m'"
proof (cases "m' = m")
  case False
  with assms(2) obtain c sc where "map_of (mg_Clusters m) n = Some c"
      "m' = m\<lparr>mg_Clusters := AList.update n (c\<lparr>ic_Scout := Some (sc\<lparr>sc_Once := True\<rparr>)\<rparr>) (mg_Clusters m)\<rparr>"
    by (auto simp: ScoutFor_def Get_mgr_def split: option.splits prod.splits if_splits)
  with mgr_ok_update [OF ok] show ?thesis by simp
qed (simp add: ok)

text \<open>How one reconciliation is put together from the operations above.\<close>

lemma ReconcileCluster_cases:
  assumes "ReconcileCluster sm build n cached m = Ret (e, m')"
  obtains (gone) e' where "cached = Inl NotFound" "Del_mgr m n = Ret (e', m')" "e = None"
    | (failed) "m' = m" "e \<noteq> None" "cached = Inl (the e)"
    | (added) cl d wt where "cached = Inr cl" "addInternalCluster build cl (sm_isWithScout sm) d wt m = (e, m')"
        "e = None \<longrightarrow> \<not> sm_isWithScout sm"
    | (started) cl d wt m1 b where "cached = Inr cl" "sm_isWithScout sm" "addInternalCluster build cl True d wt m = (None, m1)"
        "ScoutFor m1 (clu_Name cl) = ((e, b), m')"
proof (cases cached)
  case (Inl x)
  show ?thesis
  proof (cases "x = NotFound")
    case True
    with assms Inl obtain e' where "Del_mgr m n = Ret (e', m')" "e = None"
      by (cases "Del_mgr m n") (auto simp: ReconcileCluster_def)
    with Inl True gone show ?thesis by blast
  next
    case False
    with assms Inl show ?thesis by (intro failed) (auto simp: ReconcileCluster_def)
  qed
next
  case (Inr cl)
  let ?d = "sm_ScoutInitialDelaySeconds sm" and ?w = "sm_ScoutWaitTimeoutSeconds sm"
  show ?thesis
  proof (cases "sm_isWithScout sm")
    case False
    with assms Inr have "addInternalCluster build cl False 0 0 m = (e, m')"
      by (auto simp: ReconcileCluster_def AddInternalCluster_def split: prod.splits option.splits)
    with Inr False show ?thesis by (intro added) auto
  next
    case True
    obtain e1 m1 where a: "addInternalCluster build cl True ?d ?w m = (e1, m1)" by fastforce
    show ?thesis
    proof (cases e1)
      case None
      obtain e2 b m2 where s: "ScoutFor m1 (clu_Name cl) = ((e2, b), m2)" by (metis surj_pair)
      with assms Inr True a None have "e = e2 \<and> m' = m2"
        by (cases e2) (auto simp: ReconcileCluster_def AddInternalClusterWithScoutOpts_def)
      with a s None Inr True show ?thesis by (intro started) auto
    next
      case (Some e')
      with assms Inr True a have "e = e1 \<and> m' = m1"
        by (auto simp: ReconcileCluster_def AddInternalClusterWithScoutOpts_def)
      with a Inr True Some show ?thesis by (intro added) auto
    qed
  qed
qed

lemma ReconcileCluster_no_Panic:
  assumes "mgr_ok m"
  shows "ReconcileCluster sm build n cached m \<noteq> Panic"
  using Del_mgr_no_Panic [OF assms, of n]
  by (cases "Del_mgr m n") (auto simp: ReconcileCluster_def split: sum.splits prod.splits option.splits)

lemma mgr_ok_ReconcileCluster:
  assumes "mgr_ok m" "ReconcileCluster sm build n cached m = Ret (e, m')"
  shows "mgr_ok m'"
  using assms(2)
  by (cases rule: ReconcileCluster_cases)
    (use assms(1) in \<open>auto intro: mgr_ok_Del mgr_ok_addInternalCluster mgr_ok_ScoutFor\<close>)

lemma mgr_ok_step: "mgr_step m m' \<Longrightarrow> mgr_ok m \<Longrightarrow> mgr_ok m'"
proof (induction rule: mgr_step.induct)
  case (scouting m n c sc sc')
  then show ?case by (intro mgr_ok_update) simp_all
qed (auto intro: mgr_ok_ReconcileCluster mgr_ok_Del mgr_ok_ScoutFor mgr_ok_addInternalCluster
       simp: AddInternalClusterWithScoutOpts_def)

lemma mgr_ok_reachable: "mgr_reachable m \<Longrightarrow> mgr_ok m"
proof (induction rule: mgr_reachable.induct)
  case (init cli ver)
  show ?case by (simp add: mgr_init_def Add_mgr_def mgr_ok_def stop_chs_def)
qed (blast intro: mgr_ok_step)

lemma fuzzy_loop_Ret:
  assumes "\<forall>(n, c) \<in> set xs. n \<noteq> LocalCluster \<longrightarrow> ic_RawCluster c \<noteq> None"
  shows "\<exists>ys. fuzzy_loop xs acc = Ret ys \<and>
    map_of ys = (\<lambda>n. if n = LocalCluster then map_of acc n else
      (case map_of (rev xs) n of None \<Rightarrow> map_of acc n
       | Some c \<Rightarrow> Some \<lparr>fc_Name = n, fc_Client = ic_Client c, fc_RawCluster = the (ic_RawCluster c)\<rparr>))"
  using assms
proof (induction xs arbitrary: acc)
  case (Cons p xs)
  obtain n c where p: "p = (n, c)" by fastforce
  let ?a = "if n = LocalCluster then acc else
    AList.update n \<lparr>fc_Name = n, fc_Client = ic_Client c, fc_RawCluster = the (ic_RawCluster c)\<rparr> acc"
  from Cons.prems p have st: "fuzzy_loop (p # xs) acc = fuzzy_loop xs ?a" by (auto split: option.splits)
  from Cons.prems have prem: "\<forall>(n, c) \<in> set xs. n \<noteq> LocalCluster \<longrightarrow> ic_RawCluster c \<noteq> None" by simp
  show ?case
    using Cons.IH [OF prem, of ?a] unfolding st
    by (elim exE conjE) (auto simp: p fun_eq_iff update_conv' map_add_def split: option.splits)
qed (simp add: fun_eq_iff)

text \<open>
  C5: a manager never panics. Whatever the informer delivers and whichever of the
  synchroniser, the cluster controller and the scouts runs next, no stop channel is closed
  twice and no raw cluster is missing: deleting, reconciling and copying the table all return.
\<close>

theorem mgr_never_panics:
  assumes "mgr_reachable m"
  shows "Del_mgr m n \<noteq> Panic \<and> ReconcileCluster sm build n cached m \<noteq> Panic \<and> FuzzyCopy m \<noteq> Panic"
proof -
  note ok = mgr_ok_reachable [OF assms]
  then have "\<forall>(n, c) \<in> set (mg_Clusters m). n \<noteq> LocalCluster \<longrightarrow> ic_RawCluster c \<noteq> None" by (simp add: mgr_ok_def)
  from fuzzy_loop_Ret [OF this, of "[]"] have "FuzzyCopy m \<noteq> Panic" unfolding FuzzyCopy_def by fastforce
  with Del_mgr_no_Panic [OF ok] ReconcileCluster_no_Panic [OF ok] show ?thesis by blast
qed

definition member_build :: "Cluster \<Rightarrow> (nat \<times> string) result" where
  "member_build _ = Inr (7, ''v1.20'')"

definition member_obj :: "string \<Rightarrow> Cluster" where
  "member_obj n = \<lparr>clu_Name = n, clu_KubeConfig = ''kc'', clu_KubernetesAPIEndpoint = [], clu_IsMemberCluster = True,
     clu_Description = [], clu_HarborAddr = [], clu_NetworkType = [], clu_IngressDomainSuffix = [], clu_IsWritable = True,
     clu_Labels = None, clu_Annotations = None, clu_CreationTimestamp = 0, clu_Finalizers = [], clu_DeletionTimestamp = None,
     clu_Status = \<lparr>cs_State = None, cs_Reason = [], cs_LastHeartbeat = None\<rparr>\<rparr>"

definition scouted :: SyncMgr where
  "scouted = \<lparr>sm_isWithScout = True, sm_ScoutWaitTimeoutSeconds = 15, sm_ScoutInitialDelaySeconds = 10\<rparr>"

lemmas mgr_eval = ReconcileCluster_def AddInternalClusterWithScoutOpts_def addInternalCluster_def NewInternalCluster_def
  Get_mgr_def Add_mgr_def ScoutFor_def mgr_init_def LocalCluster_def member_build_def member_obj_def scouted_def
  NewScout_def ClusterHealth_def Let_def lookup_mgr_def Del_mgr_def

theorem mgr_never_panics_witness:
  "\<exists>m. ReconcileCluster scouted member_build ''m1'' (Inr (member_obj ''m1'')) (mgr_init 0 ''v1'') = Ret (None, m)
     \<and> lookup_mgr m ''m1'' \<noteq> None \<and> ReconcileCluster scouted member_build ''m1'' (Inl NotFound) m \<noteq> Panic"
proof -
  obtain m where m: "ReconcileCluster scouted member_build ''m1'' (Inr (member_obj ''m1'')) (mgr_init 0 ''v1'') = Ret (None, m)"
      "lookup_mgr m ''m1'' \<noteq> None"
    by (simp add: mgr_eval)
  then have "mgr_reachable m" by (blast intro: mgr_reachable.intros mgr_step.sync)
  from mgr_never_panics [OF this] m show ?thesis by blast
qed

subsection \<open>The table follows the cluster objects\<close>

lemma addInternalCluster_lookup:
  assumes "addInternalCluster build cl ws d wt m = (None, m')"
  shows "\<exists>c. lookup_mgr m' = (lookup_mgr m)(clu_Name cl \<mapsto> c) \<and>
    (case lookup_mgr m (clu_Name cl) of Some c0 \<Rightarrow> c = c0
     | None \<Rightarrow> build cl = Inr (ic_Client c, ic_Version c) \<and>
         ic_Scout c = (if ws then Some (NewScout (clu_Name cl) d wt) else None))"
  using assms
proof (cases rule: addInternalCluster_cases)
  case kept
  then show ?thesis by (auto simp: lookup_mgr_def fun_upd_idem)
next
  case (added c)
  from assms added(2,3) have "build cl = Inr (ic_Client c, ic_Version c)"
    by (auto simp: addInternalCluster_def NewInternalCluster_def Get_mgr_def Add_mgr_def lookup_mgr_def Let_def
          update_new_key split: option.splits if_splits sum.splits prod.splits)
  with added show ?thesis by (intro exI [of _ c]) (simp add: lookup_mgr_def update_conv')
qed

lemma ScoutFor_lookup:
  assumes "ScoutFor m n = ((None, b), m')"
  shows "\<exists>c. lookup_mgr m n = Some c \<and>
    lookup_mgr m' = (lookup_mgr m)(n \<mapsto> c\<lparr>ic_Scout := map_option (sc_Once_update (\<lambda>_. True)) (ic_Scout c)\<rparr>)
    \<and> map_option ClusterHealth (ic_Scout c) \<noteq> Some ClusterAbnormal \<and> (b \<longleftrightarrow> map_option sc_Once (ic_Scout c) = Some False)"
proof -
  from assms obtain c where c: "lookup_mgr m n = Some c" "map_option ClusterHealth (ic_Scout c) \<noteq> Some ClusterAbnormal"
    by (auto simp: ScoutFor_def Get_mgr_def lookup_mgr_def split: option.splits if_splits)
  have "sc\<lparr>sc_Once := True\<rparr> = sc" if "sc_Once sc" for sc using that by (cases sc) simp
  with c assms show ?thesis
    by (intro exI [of _ c])
      (auto simp: ScoutFor_def Get_mgr_def lookup_mgr_def update_conv' fun_upd_idem split: option.splits if_splits)
qed

text \<open>
  C11: one reconciliation that ends well puts the table in step with the informer cache. A
  cluster gone from the cache is gone from the table; one in the cache is registered, with the
  client built from its object when it is new and with the client it already had when not (so
  a changed kubeconfig is not picked up); with scouts on, its scout is started and does not
  count it as abnormal. No other entry changes.
\<close>

theorem ReconcileCluster_in_step:
  assumes "ReconcileCluster sm build n cached m = Ret (None, m')" and "\<And>cl. cached = Inr cl \<Longrightarrow> clu_Name cl = n"
  shows "(\<forall>k. k \<noteq> n \<longrightarrow> lookup_mgr m' k = lookup_mgr m k) \<and>
    (case cached of
       Inl e \<Rightarrow> e = NotFound \<and> lookup_mgr m' n = None
     | Inr cl \<Rightarrow> (\<exists>c. lookup_mgr m' n = Some c \<and>
         (case lookup_mgr m n of Some c0 \<Rightarrow> ic_Client c = ic_Client c0 | None \<Rightarrow> build cl = Inr (ic_Client c, ic_Version c)) \<and>
         (sm_isWithScout sm \<longrightarrow>
            (\<forall>sc. ic_Scout c = Some sc \<longrightarrow> sc_Once sc \<and> ClusterHealth sc \<noteq> ClusterAbnormal))))"
  using assms(1)
proof (cases rule: ReconcileCluster_cases)
  case (gone e')
  then have "del_result m n = Some m'" by (simp add: del_result_def)
  from mgr_registry.lookup_unregister [OF this] gone show ?thesis by simp
next
  case (started cl d wt m1 b)
  have n: "clu_Name cl = n" using started assms(2) by blast
  from addInternalCluster_lookup [OF started(3)] obtain c where
    c: "lookup_mgr m1 = (lookup_mgr m)(n \<mapsto> c)"
      "case lookup_mgr m n of Some c0 \<Rightarrow> c = c0 | None \<Rightarrow> build cl = Inr (ic_Client c, ic_Version c)"
    unfolding n by (auto split: option.splits)
  from ScoutFor_lookup [OF started(4)] c(1) n have
    "lookup_mgr m' = (lookup_mgr m1)(n \<mapsto> c\<lparr>ic_Scout := map_option (sc_Once_update (\<lambda>_. True)) (ic_Scout c)\<rparr>)"
    "map_option ClusterHealth (ic_Scout c) \<noteq> Some ClusterAbnormal"
    by auto
  with c started(1) show ?thesis by (auto simp: ClusterHealth_def split: option.splits)
next
  case (added cl d wt)
  have n: "clu_Name cl = n" using added assms(2) by blast
  from addInternalCluster_lookup [OF added(2)] added(1,3) n show ?thesis by (auto split: option.splits)
qed simp

theorem ReconcileCluster_in_step_witness:
  "\<exists>m. ReconcileCluster scouted member_build ''m1'' (Inr (member_obj ''m1'')) (mgr_init 0 ''v1'') = Ret (None, m)
     \<and> (\<exists>c. lookup_mgr m ''m1'' = Some c \<and> member_build (member_obj ''m1'') = Inr (ic_Client c, ic_Version c))"
proof -
  obtain m where m: "ReconcileCluster scouted member_build ''m1'' (Inr (member_obj ''m1'')) (mgr_init 0 ''v1'') = Ret (None, m)"
    by (simp add: mgr_eval)
  have "lookup_mgr (mgr_init (0::nat) ''v1'') ''m1'' = None" by (simp add: mgr_eval)
  with ReconcileCluster_in_step [OF m] m show ?thesis by (auto simp: member_obj_def)
qed

end
