(* ===== verification/UserScope.thy ===== *)
theory UserScope
  imports KubeApi ApiPath "HOL-Library.List_Lexorder" "HOL-Library.Char_ord" "HOL-Library.Product_Lexorder"
begin

section \<open>Users and their scopes: pkg/utils/transition, pkg/belongs\<close>

text \<open>
  A user object lists scope bindings (a tenant, a project or the platform, with a role). From
  them \<open>transition.go\<close> computes the status (the tenants and projects the user belongs to),
  and \<open>belongs.go\<close> and \<open>determine.go\<close> decide from the status whether a request for a
  namespace or a node concerns the user. \<open>helpers.go\<close> of the user API holds the tests on
  the status.
\<close>

type_synonym labels = "(string, string) gomap"

definition TenantScope :: string where "TenantScope = ''tenant''"
definition ProjectScope :: string where "ProjectScope = ''project''"
definition PlatformScope :: string where "PlatformScope = ''platform''"

definition TenantLabel :: string where "TenantLabel = ''kubecube.io/tenant''"
definition ProjectLabel :: string where "ProjectLabel = ''kubecube.io/project''"
definition PlatformLabel :: string where "PlatformLabel = ''kubecube.io/platform''"
definition HncTenantLabel :: string where "HncTenantLabel = ''kubecube.hnc.x-k8s.io/tenant''"
definition HncProjectLabel :: string where "HncProjectLabel = ''kubecube.hnc.x-k8s.io/project''"
definition TenantNsPrefix :: string where "TenantNsPrefix = ''kubecube-tenant-''"
definition ProjectNsPrefix :: string where "ProjectNsPrefix = ''kubecube-project-''"
definition PlatformAdminRole :: string where "PlatformAdminRole = ''platform-admin''"
definition LabelNodeTenant :: string where "LabelNodeTenant = ''node.kubecube.io/tenant''"
definition ValueNodeShare :: string where "ValueNodeShare = ''share''"

record ScopeBinding =
  sb_ScopeType :: string
  sb_ScopeName :: string
  sb_Role :: string

record ProjectInfo =
  pi_Project :: string
  pi_Tenant :: string

record UserStatus =
  us_BelongTenants :: "string list"
  us_BelongProjectInfos :: "ProjectInfo list"
  us_PlatformAdmin :: bool

record User =
  ur_Name :: string
  ur_Finalizers :: "string list"
  ur_DeletionTimestamp :: "int option"
  ur_ScopeBindings :: "ScopeBinding list"
  ur_Status :: UserStatus

record Project =
  pj_Name :: string
  pj_Labels :: labels
  pj_Annotations :: labels
  pj_Namespace :: string
  pj_IngressDomainSuffix :: "string list"

text \<open>Reading a missing key of a Go map gives the empty string.\<close>

definition label :: "labels \<Rightarrow> string \<Rightarrow> string" where
  "label m k = (case gm_get m k of None \<Rightarrow> [] | Some v \<Rightarrow> v)"

subsection \<open>Definitions: scope bindings\<close>

definition ScopeBindingUnique :: "ScopeBinding \<Rightarrow> string" where
  "ScopeBindingUnique b = sb_ScopeName b @ sb_ScopeType b @ sb_Role b"

definition AddUserScopeBindings :: "User \<Rightarrow> string \<Rightarrow> string \<Rightarrow> string \<Rightarrow> User" where
  "AddUserScopeBindings user scopeType scopeName role =
     (if scopeName @ scopeType @ role \<notin> set (map ScopeBindingUnique (ur_ScopeBindings user))
      then user\<lparr>ur_ScopeBindings := ur_ScopeBindings user @
             [\<lparr>sb_ScopeType = scopeType, sb_ScopeName = scopeName, sb_Role = role\<rparr>]\<rparr>
      else user)"

fun remove_loop :: "string \<Rightarrow> string \<Rightarrow> string \<Rightarrow> ScopeBinding list \<Rightarrow> ScopeBinding list \<Rightarrow> ScopeBinding list" where
  "remove_loop scopeType scopeName role [] newScopeBindings = newScopeBindings"
| "remove_loop scopeType scopeName role (b # bs) newScopeBindings =
     (if sb_ScopeName b = scopeName \<and> sb_ScopeType b = scopeType \<and> sb_Role b = role
      then remove_loop scopeType scopeName role bs newScopeBindings
      else remove_loop scopeType scopeName role bs (newScopeBindings @ [b]))"

definition RemoveUserScopeBindings :: "User \<Rightarrow> string \<Rightarrow> string \<Rightarrow> string \<Rightarrow> User" where
  "RemoveUserScopeBindings user scopeType scopeName role =
     user\<lparr>ur_ScopeBindings := remove_loop scopeType scopeName role (ur_ScopeBindings user) []\<rparr>"

definition TransBinding :: "labels \<Rightarrow> string \<Rightarrow> string \<Rightarrow> (string \<times> string \<times> string \<times> string) result" where
  "TransBinding labels subName refName =
     (if labels = None then Inl (Err ''empty labels'')
      else let tenant = label labels TenantLabel;
               project = label labels ProjectLabel;
               platform = label labels PlatformLabel
           in if tenant \<noteq> [] then Inr (''tenant'', tenant, refName, subName)
              else if project \<noteq> [] then Inr (''project'', project, refName, subName)
              else if platform \<noteq> [] then Inr (''platform'', ''platform'', refName, subName)
              else Inl (Err ''invalid labels''))"

definition UpdateUserSpec :: "('w, User) client \<Rightarrow> User \<Rightarrow> ('w, err option) state" where
  "UpdateUserSpec cli user = RetryOnConflict DefaultRetry (do {
     r \<leftarrow> cl_get cli ([], ur_Name user);
     case r of
       Inl e \<Rightarrow> State_Monad.return (Some e)
     | Inr newUser \<Rightarrow> cl_update cli (newUser\<lparr>ur_ScopeBindings := ur_ScopeBindings user\<rparr>)
   })"

subsection \<open>Definitions: the status\<close>

text \<open>
  \<open>sets.List\<close> sorts the elements of a set; the list of projects is sorted by tenant and
  then by project.
\<close>

definition addUserToTenant :: "UserStatus \<Rightarrow> string \<Rightarrow> UserStatus" where
  "addUserToTenant st tenant = st\<lparr>us_BelongTenants := sort (remdups (us_BelongTenants st @ [tenant]))\<rparr>"

definition addUserToProject :: "UserStatus \<Rightarrow> string \<Rightarrow> string \<Rightarrow> UserStatus" where
  "addUserToProject st project tenant =
     st\<lparr>us_BelongProjectInfos :=
       sort_key (\<lambda>i. (pi_Tenant i, pi_Project i))
         (remdups (us_BelongProjectInfos st @ [\<lparr>pi_Project = project, pi_Tenant = tenant\<rparr>]))\<rparr>"

definition appointUserAdmin :: "UserStatus \<Rightarrow> UserStatus" where
  "appointUserAdmin st = st\<lparr>us_PlatformAdmin := True\<rparr>"

fun refresh_status_loop :: "('w, Project) client \<Rightarrow> ScopeBinding list \<Rightarrow> UserStatus \<Rightarrow> ('w, UserStatus) state" where
  "refresh_status_loop cli [] st = State_Monad.return st"
| "refresh_status_loop cli (b # bs) st =
     (if sb_ScopeType b = TenantScope then refresh_status_loop cli bs (addUserToTenant st (sb_ScopeName b))
      else if sb_ScopeType b = ProjectScope then do {
        r \<leftarrow> cl_get cli ([], sb_ScopeName b);
        let tenant = (case r of Inl _ \<Rightarrow> [] | Inr project \<Rightarrow> label (pj_Labels project) TenantLabel);
        refresh_status_loop cli bs (addUserToProject st (sb_ScopeName b) tenant)
      }
      else if sb_ScopeType b = PlatformScope then
        refresh_status_loop cli bs (if sb_Role b = PlatformAdminRole then appointUserAdmin st else st)
      else refresh_status_loop cli bs st)"

definition RefreshUserStatus :: "('w, Project) client \<Rightarrow> User \<Rightarrow> ('w, User) state" where
  "RefreshUserStatus cli user = do {
     st \<leftarrow> refresh_status_loop cli (ur_ScopeBindings user)
            ((ur_Status user)\<lparr>us_BelongTenants := [], us_BelongProjectInfos := [], us_PlatformAdmin := False\<rparr>);
     State_Monad.return (user\<lparr>ur_Status := st\<rparr>)
   }"

definition UserBelongsToTenant :: "User \<Rightarrow> string \<Rightarrow> bool" where
  "UserBelongsToTenant user tenant \<longleftrightarrow> tenant \<in> set (us_BelongTenants (ur_Status user))"

fun belongs_loop :: "ProjectInfo list \<Rightarrow> string \<Rightarrow> bool" where
  "belongs_loop [] project = False"
| "belongs_loop (info # infos) project = (if pi_Project info = project then True else belongs_loop infos project)"

definition UserBelongsToProject :: "User \<Rightarrow> string \<Rightarrow> bool" where
  "UserBelongsToProject user project = belongs_loop (us_BelongProjectInfos (ur_Status user)) project"

fun platform_loop :: "ScopeBinding list \<Rightarrow> bool" where
  "platform_loop [] = False"
| "platform_loop (s # ss) = (if sb_ScopeType s = PlatformScope then True else platform_loop ss)"

definition IsUserPlatformScope :: "User \<Rightarrow> bool" where
  "IsUserPlatformScope u = platform_loop (ur_ScopeBindings u)"

subsection \<open>Definitions: does a request concern the user\<close>

definition IsPlatformAdmin :: "User \<Rightarrow> bool" where
  "IsPlatformAdmin user = us_PlatformAdmin (ur_Status user)"

fun tenant_loop :: "string list \<Rightarrow> string \<Rightarrow> bool" where
  "tenant_loop [] tenant = False"
| "tenant_loop (v # vs) tenant = (if v = tenant then True else tenant_loop vs tenant)"

definition BelongsToTenant :: "User \<Rightarrow> string \<Rightarrow> bool" where
  "BelongsToTenant user tenant = tenant_loop (us_BelongTenants (ur_Status user)) tenant"

definition BelongsToProject :: "User \<Rightarrow> string \<Rightarrow> bool" where
  "BelongsToProject user project = belongs_loop (us_BelongProjectInfos (ur_Status user)) project"

record meta =
  me_Name :: string
  me_Labels :: labels

definition nodeJudgment :: "User \<Rightarrow> meta \<Rightarrow> bool" where
  "nodeJudgment user obj =
     (if IsPlatformAdmin user then True
      else if me_Labels obj = None then False
      else (case gm_get (me_Labels obj) LabelNodeTenant of
              None \<Rightarrow> False
            | Some t \<Rightarrow> if t = ValueNodeShare then True else if BelongsToTenant user t then True else False))"

definition namespaceJudgement :: "User \<Rightarrow> meta \<Rightarrow> bool" where
  "namespaceJudgement user obj =
     (if IsPlatformAdmin user then True
      else if me_Labels obj = None then False
      else if (case gm_get (me_Labels obj) HncTenantLabel of None \<Rightarrow> False | Some t \<Rightarrow> BelongsToTenant user t) then True
      else if (case gm_get (me_Labels obj) HncProjectLabel of None \<Rightarrow> False | Some p \<Rightarrow> BelongsToProject user p) then True
      else if HasPrefix (me_Name obj) TenantNsPrefix \<and> BelongsToTenant user (TrimPrefix (me_Name obj) TenantNsPrefix) then True
      else False)"

text \<open>
  \<open>RelationshipDetermine\<close> with the two judgements that are registered; it answers whether
  the request may go on, and an error. The caches are read only.
\<close>

record belongs_cache =
  bc_user :: "string \<Rightarrow> User result"
  bc_namespace :: "string \<Rightarrow> meta result"
  bc_node :: "string \<Rightarrow> meta result"

definition core_v1 :: "string \<Rightarrow> gvr" where
  "core_v1 resource = \<lparr>gvr_Group = [], gvr_Version = ''v1'', gvr_Resource = resource\<rparr>"

definition RelationshipDetermine :: "belongs_cache \<Rightarrow> string \<Rightarrow> string \<Rightarrow> bool \<times> err option" where
  "RelationshipDetermine cli k8sPath userName =
     (case Parse k8sPath of
        Inl e \<Rightarrow> (True, Some (Err ''parse request url failed''))
      | Inr ri \<Rightarrow>
          if ri_Name ri = [] then (True, Some (Err ''list request will be pass through''))
          else if ri_Gvr ri = core_v1 ''namespaces'' \<or> ri_Gvr ri = core_v1 ''nodes'' then
            (case bc_user cli userName of
               Inl e \<Rightarrow> (True, Some e)
             | Inr user \<Rightarrow>
                 if gvr_Resource (ri_Gvr ri) = ''namespaces'' then
                   (case bc_namespace cli (ri_Name ri) of
                      Inl e \<Rightarrow> (True, Some e)
                    | Inr obj \<Rightarrow> (namespaceJudgement user obj, None))
                 else
                   (case bc_node cli (ri_Name ri) of
                      Inl e \<Rightarrow> (True, Some e)
                    | Inr obj \<Rightarrow> (nodeJudgment user obj, None)))
          else (True, None))"

subsection \<open>Scope bindings as a set\<close>

lemma remove_loop_filter:
  "remove_loop t n r bs acc = acc @ filter (\<lambda>b. \<not> (sb_ScopeName b = n \<and> sb_ScopeType b = t \<and> sb_Role b = r)) bs"
  by (induction bs arbitrary: acc) auto

lemma ScopeBindings_Remove [simp]:
  "set (ur_ScopeBindings (RemoveUserScopeBindings u t n r)) =
     set (ur_ScopeBindings u) - {\<lparr>sb_ScopeType = t, sb_ScopeName = n, sb_Role = r\<rparr>}"
  by (auto simp: RemoveUserScopeBindings_def remove_loop_filter)

lemma ScopeBindings_Add:
  "set (ur_ScopeBindings (AddUserScopeBindings u t n r)) =
     (if n @ t @ r \<in> ScopeBindingUnique ` set (ur_ScopeBindings u) then set (ur_ScopeBindings u)
      else insert \<lparr>sb_ScopeType = t, sb_ScopeName = n, sb_Role = r\<rparr> (set (ur_ScopeBindings u)))"
  by (auto simp: AddUserScopeBindings_def)

text \<open>
  The key that tells scope bindings apart is not one. Two bindings, of a tenant and of a
  project, with different roles, have the same concatenated key, so a user who has the first
  is never given the second, and the list stays as it was.
\<close>

lemma AddUserScopeBindings_collision:
  "let old = \<lparr>sb_ScopeType = ''tenant'', sb_ScopeName = ''dev'', sb_Role = ''project-admin''\<rparr>;
       new = \<lparr>sb_ScopeType = ''project'', sb_ScopeName = ''devtenant'', sb_Role = ''-admin''\<rparr>;
       user = u\<lparr>ur_ScopeBindings := bs @ [old] @ bs'\<rparr>
   in AddUserScopeBindings user (sb_ScopeType new) (sb_ScopeName new) (sb_Role new) = user"
  by (simp add: Let_def AddUserScopeBindings_def ScopeBindingUnique_def)

subsection \<open>The status is exact\<close>

lemma tenant_loop_iff [simp]: "tenant_loop vs t \<longleftrightarrow> t \<in> set vs"
  by (induction vs) auto

lemma belongs_loop_iff [simp]: "belongs_loop infos p \<longleftrightarrow> p \<in> pi_Project ` set infos"
  by (induction infos) auto

lemma platform_loop_iff [simp]: "platform_loop ss \<longleftrightarrow> (\<exists>s \<in> set ss. sb_ScopeType s = PlatformScope)"
  by (induction ss) auto

text \<open>A cache that answers with \<open>f\<close>, errors included, and does not change meanwhile.\<close>

definition steady :: "('w, 'o) client \<Rightarrow> (objkey \<Rightarrow> 'o result) \<Rightarrow> bool" where
  "steady cli f \<longleftrightarrow> (\<forall>k w. run_state (cl_get cli k) w = (f k, w))"

definition tenant_of :: "(objkey \<Rightarrow> Project result) \<Rightarrow> string \<Rightarrow> string" where
  "tenant_of f p = (case f ([], p) of Inl _ \<Rightarrow> [] | Inr pr \<Rightarrow> label (pj_Labels pr) TenantLabel)"

definition status_ok :: "UserStatus \<Rightarrow> bool" where
  "status_ok st \<longleftrightarrow> sorted (us_BelongTenants st) \<and> distinct (us_BelongTenants st) \<and>
     sorted (map (\<lambda>i. (pi_Tenant i, pi_Project i)) (us_BelongProjectInfos st)) \<and> distinct (us_BelongProjectInfos st)"

lemma status_ok_add:
  "status_ok st \<Longrightarrow> status_ok (addUserToTenant st t)"
  "status_ok st \<Longrightarrow> status_ok (addUserToProject st p t)"
  "status_ok st \<Longrightarrow> status_ok (appointUserAdmin st)"
  by (simp_all add: status_ok_def addUserToTenant_def addUserToProject_def appointUserAdmin_def)

lemma scope_types_distinct [simp]:
  "TenantScope \<noteq> ProjectScope" "TenantScope \<noteq> PlatformScope" "ProjectScope \<noteq> PlatformScope"
  "ProjectScope \<noteq> TenantScope" "PlatformScope \<noteq> TenantScope" "PlatformScope \<noteq> ProjectScope"
  by (simp_all add: TenantScope_def ProjectScope_def PlatformScope_def)

text \<open>Against such a cache the loop is a fold of one step per scope binding.\<close>

definition status_step :: "(objkey \<Rightarrow> Project result) \<Rightarrow> ScopeBinding \<Rightarrow> UserStatus \<Rightarrow> UserStatus" where
  "status_step f b st =
     (if sb_ScopeType b = TenantScope then addUserToTenant st (sb_ScopeName b)
      else if sb_ScopeType b = ProjectScope then addUserToProject st (sb_ScopeName b) (tenant_of f (sb_ScopeName b))
      else if sb_ScopeType b = PlatformScope \<and> sb_Role b = PlatformAdminRole then appointUserAdmin st
      else st)"

lemma refresh_status_loop_fold:
  "steady cli f \<Longrightarrow> run_state (refresh_status_loop cli bs st) w = (fold (status_step f) bs st, w)"
  by (induction bs arbitrary: st) (auto simp: steady_def tenant_of_def status_step_def)

lemma status_step_sets:
  "set (us_BelongTenants (status_step f b st)) =
     (if sb_ScopeType b = TenantScope then insert (sb_ScopeName b) else id) (set (us_BelongTenants st))"
  "set (us_BelongProjectInfos (status_step f b st)) =
     (if sb_ScopeType b = ProjectScope then insert \<lparr>pi_Project = sb_ScopeName b, pi_Tenant = tenant_of f (sb_ScopeName b)\<rparr> else id)
       (set (us_BelongProjectInfos st))"
  "us_PlatformAdmin (status_step f b st) \<longleftrightarrow>
     us_PlatformAdmin st \<or> sb_ScopeType b = PlatformScope \<and> sb_Role b = PlatformAdminRole"
  by (auto simp: status_step_def addUserToTenant_def addUserToProject_def appointUserAdmin_def)

lemma status_fold_sets:
  "set (us_BelongTenants (fold (status_step f) bs st)) =
     set (us_BelongTenants st) \<union> sb_ScopeName ` {b \<in> set bs. sb_ScopeType b = TenantScope}"
  "set (us_BelongProjectInfos (fold (status_step f) bs st)) = set (us_BelongProjectInfos st) \<union>
     (\<lambda>b. \<lparr>pi_Project = sb_ScopeName b, pi_Tenant = tenant_of f (sb_ScopeName b)\<rparr>) ` {b \<in> set bs. sb_ScopeType b = ProjectScope}"
  "us_PlatformAdmin (fold (status_step f) bs st) \<longleftrightarrow>
     us_PlatformAdmin st \<or> (\<exists>b \<in> set bs. sb_ScopeType b = PlatformScope \<and> sb_Role b = PlatformAdminRole)"
  by (induction bs arbitrary: st) (auto simp: status_step_sets)

lemma status_fold_ok: "status_ok st \<Longrightarrow> status_ok (fold (status_step f) bs st)"
  by (induction bs arbitrary: st) (auto simp: status_step_def status_ok_add)

text \<open>
  The status of a user is what the scope bindings say. The tenants are the scope names of
  the tenant bindings, sorted and without repetition; the projects are those of the project
  bindings, each with the tenant its label names (none when the project cannot be read), sorted
  by tenant and project without repetition; and the user is a platform administrator exactly
  with a platform binding to that role. Nothing of the old status survives.
\<close>

lemma RefreshUserStatus_exact:
  assumes "steady cli f"
  shows "\<exists>st. run_state (RefreshUserStatus cli u) w = (u\<lparr>ur_Status := st\<rparr>, w) \<and>
    sorted (us_BelongTenants st) \<and> distinct (us_BelongTenants st) \<and>
    set (us_BelongTenants st) = {n. \<exists>r. \<lparr>sb_ScopeType = TenantScope, sb_ScopeName = n, sb_Role = r\<rparr> \<in> set (ur_ScopeBindings u)} \<and>
    sorted (map (\<lambda>i. (pi_Tenant i, pi_Project i)) (us_BelongProjectInfos st)) \<and> distinct (us_BelongProjectInfos st) \<and>
    set (us_BelongProjectInfos st) =
      {\<lparr>pi_Project = n, pi_Tenant = tenant_of f n\<rparr> | n.
        \<exists>r. \<lparr>sb_ScopeType = ProjectScope, sb_ScopeName = n, sb_Role = r\<rparr> \<in> set (ur_ScopeBindings u)} \<and>
    (us_PlatformAdmin st \<longleftrightarrow>
      (\<exists>n. \<lparr>sb_ScopeType = PlatformScope, sb_ScopeName = n, sb_Role = PlatformAdminRole\<rparr> \<in> set (ur_ScopeBindings u)))"
proof -
  let ?st0 = "(ur_Status u)\<lparr>us_BelongTenants := [], us_BelongProjectInfos := [], us_PlatformAdmin := False\<rparr>"
  let ?st = "fold (status_step f) (ur_ScopeBindings u) ?st0"
  have run: "run_state (RefreshUserStatus cli u) w = (u\<lparr>ur_Status := ?st\<rparr>, w)"
    by (simp add: RefreshUserStatus_def refresh_status_loop_fold [OF assms])
  have bs: "sb_ScopeName ` {b \<in> S. sb_ScopeType b = t} = {n. \<exists>r. \<lparr>sb_ScopeType = t, sb_ScopeName = n, sb_Role = r\<rparr> \<in> S}"
    for S :: "ScopeBinding set" and t
    by (auto simp: image_iff) (metis ScopeBinding.surjective old.unit.exhaust, metis ScopeBinding.select_convs(1,2))
  have "status_ok ?st" by (rule status_fold_ok) (simp add: status_ok_def)
  moreover have "set (us_BelongTenants ?st) = {n. \<exists>r. \<lparr>sb_ScopeType = TenantScope, sb_ScopeName = n, sb_Role = r\<rparr> \<in> set (ur_ScopeBindings u)}"
    by (simp add: status_fold_sets bs)
  moreover have "set (us_BelongProjectInfos ?st) = (\<lambda>n. \<lparr>pi_Project = n, pi_Tenant = tenant_of f n\<rparr>) `
      sb_ScopeName ` {b \<in> set (ur_ScopeBindings u). sb_ScopeType b = ProjectScope}"
    by (auto simp: status_fold_sets)
  then have "set (us_BelongProjectInfos ?st) = {\<lparr>pi_Project = n, pi_Tenant = tenant_of f n\<rparr> | n.
        \<exists>r. \<lparr>sb_ScopeType = ProjectScope, sb_ScopeName = n, sb_Role = r\<rparr> \<in> set (ur_ScopeBindings u)}"
    unfolding bs by auto
  moreover have "us_PlatformAdmin ?st \<longleftrightarrow>
      (\<exists>n. \<lparr>sb_ScopeType = PlatformScope, sb_ScopeName = n, sb_Role = PlatformAdminRole\<rparr> \<in> set (ur_ScopeBindings u))"
    by (auto simp: status_fold_sets) (metis ScopeBinding.surjective old.unit.exhaust, metis ScopeBinding.select_convs(1,3))
  ultimately show ?thesis using run by (intro exI [of _ ?st]) (simp add: status_ok_def)
qed

definition cache_client :: "(objkey \<Rightarrow> 'o result) \<Rightarrow> ('w, 'o) client" where
  "cache_client f =
     \<lparr>cl_get = (\<lambda>k. State (\<lambda>w. (f k, w))), cl_create = (\<lambda>x. State (\<lambda>w. (None, w))), cl_update = (\<lambda>x. State (\<lambda>w. (None, w))),
      cl_status_update = (\<lambda>x. State (\<lambda>w. (None, w))), cl_delete = (\<lambda>x. State (\<lambda>w. (None, w)))\<rparr>"

lemma steady_cache_client: "steady (cache_client f) f"
  by (simp add: steady_def cache_client_def)

subsection \<open>Requests that are refused\<close>

definition ns_concerns :: "User \<Rightarrow> meta \<Rightarrow> bool" where
  "ns_concerns user ns \<longleftrightarrow> us_PlatformAdmin (ur_Status user) \<or>
     me_Labels ns \<noteq> None \<and>
       (gm_get (me_Labels ns) HncTenantLabel \<in> Some ` set (us_BelongTenants (ur_Status user)) \<or>
        gm_get (me_Labels ns) HncProjectLabel \<in> Some ` pi_Project ` set (us_BelongProjectInfos (ur_Status user)) \<or>
        me_Name ns \<in> append TenantNsPrefix ` set (us_BelongTenants (ur_Status user)))"

definition node_concerns :: "User \<Rightarrow> meta \<Rightarrow> bool" where
  "node_concerns user node \<longleftrightarrow> us_PlatformAdmin (ur_Status user) \<or>
     gm_get (me_Labels node) LabelNodeTenant \<in> Some ` insert ValueNodeShare (set (us_BelongTenants (ur_Status user)))"

lemma prefix_image: "HasPrefix s p \<and> TrimPrefix s p \<in> S \<longleftrightarrow> s \<in> append p ` S"
  by (auto simp: HasPrefix_iff)

lemma namespaceJudgement_iff: "namespaceJudgement user ns \<longleftrightarrow> ns_concerns user ns"
  using prefix_image [of "me_Name ns" TenantNsPrefix "set (us_BelongTenants (ur_Status user))"]
  by (auto simp: namespaceJudgement_def ns_concerns_def IsPlatformAdmin_def BelongsToTenant_def BelongsToProject_def
      split: option.splits)

lemma nodeJudgment_iff: "nodeJudgment user node \<longleftrightarrow> node_concerns user node"
  by (auto simp: nodeJudgment_def node_concerns_def IsPlatformAdmin_def BelongsToTenant_def gm_get_def split: option.splits)

text \<open>
  When a proxied request is refused. Exactly when its path is read as a request for one
  namespace or one node of the core group, the user and the object can be read, and the object
  does not concern the user: the user is no platform administrator and has no tenant or project
  among the labels (or, for a namespace, in the tenant prefix of the name). Every error lets the
  request through.
\<close>

lemma RelationshipDetermine_refuses_iff:
  "\<not> fst (RelationshipDetermine cli p u) \<longleftrightarrow>
     (\<exists>ri user obj. Parse p = Inr ri \<and> ri_Name ri \<noteq> [] \<and> bc_user cli u = Inr user \<and>
        (ri_Gvr ri = core_v1 ''namespaces'' \<and> bc_namespace cli (ri_Name ri) = Inr obj \<and> \<not> ns_concerns user obj \<or>
         ri_Gvr ri = core_v1 ''nodes'' \<and> bc_node cli (ri_Name ri) = Inr obj \<and> \<not> node_concerns user obj))"
  by (auto simp: RelationshipDetermine_def core_v1_def namespaceJudgement_iff nodeJudgment_iff split: sum.splits if_splits)

lemma segments_ns: "CHR ''/'' \<notin> set n \<Longrightarrow> url_segments (''/api/v1/namespaces/'' @ n) = [''api'', ''v1'', ''namespaces'', n]"
  using Split_Join_char [of "[''api'', ''v1'', ''namespaces'', n]" "CHR ''/''"]
  by (simp add: url_segments_def TrimPrefix_def HasPrefix_def)

lemma segments_ns_slash:
  "CHR ''/'' \<notin> set n \<Longrightarrow> url_segments (''/api/v1/namespaces/'' @ n @ ''/'') = [''api'', ''v1'', ''namespaces'', n, []]"
  using Split_Join_char [of "[''api'', ''v1'', ''namespaces'', n, []]" "CHR ''/''"]
  by (simp add: url_segments_def TrimPrefix_def HasPrefix_def)

text \<open>
  A slash at the end of the path of a namespace turns the check off. Without it the
  answer is the judgement on that namespace, with it the path is read as a list request,
  which is let through whoever the user is.
\<close>

lemma RelationshipDetermine_slash:
  assumes "CHR ''/'' \<notin> set n" and "n \<noteq> []" and "bc_user cli u = Inr user" and "bc_namespace cli n = Inr ns"
  shows "RelationshipDetermine cli (''/api/v1/namespaces/'' @ n) u = (ns_concerns user ns, None) \<and>
         fst (RelationshipDetermine cli (''/api/v1/namespaces/'' @ n @ ''/'') u)"
proof -
  define p1 p2 where "p1 = ''/api/v1/namespaces/'' @ n" and "p2 = ''/api/v1/namespaces/'' @ n @ ''/''"
  have seg: "url_segments p1 = [''api'', ''v1'', ''namespaces'', n]" "url_segments p2 = [''api'', ''v1'', ''namespaces'', n, []]"
    unfolding p1_def p2_def using assms(1) by (rule segments_ns, rule segments_ns_slash)
  have core: "url_is_core p1" "url_is_core p2" by (simp_all add: url_is_core_def p1_def p2_def HasPrefix_def)
  have "Contains p2 ''/namespaces/''"
    unfolding Contains_iff p2_def by (rule exI [of _ "''/api/v1''"], rule exI [of _ "n @ ''/''"]) simp
  then have ns: "\<not> url_is_namespaced p1" "url_is_namespaced p2" by (simp_all add: url_is_namespaced_def seg)
  have "RelationshipDetermine cli p1 u = (ns_concerns user ns, None) \<and> fst (RelationshipDetermine cli p2 u)"
    using assms(2-4) by (simp add: RelationshipDetermine_def Parse_def Let_def seg core ns core_v1_def namespaceJudgement_iff)
  then show ?thesis by (simp only: p1_def p2_def)
qed

end
