(* ===== verification/UserController.thy ===== *)
theory UserController
  imports UserScope RbacResolver
begin

section \<open>The user controller of the warden\<close>

text \<open>
  \<open>pkg/warden/localmgr/controllers/user\<close>: for every user object the controller computes
  the status, makes sure that the role bindings of its scope bindings exist in the cluster,
  removes those that are left over, and removes all of them when the user goes. The clients of
  the object kinds, the list calls, \<open>labels.Parse\<close> and the hash in the names of the bindings
  are arguments. \<open>ns_handler.go\<close> finds the users to look at again when a namespace changes.
\<close>

record rbac_binding = binding +
  bl_Labels :: labels

record 'w user_env =
  ue_Users :: "('w, User) client"
  ue_Projects :: "('w, Project) client"
  ue_Crbs :: "('w, rbac_binding) client"
  ue_Rbs :: "('w, rbac_binding) client"
  ue_ListCrbs :: "string \<times> string \<Rightarrow> ('w, rbac_binding list result) state"
  ue_ListRbs :: "string \<times> string \<Rightarrow> ('w, rbac_binding list result) state"
  ue_ListNs :: "string \<times> string \<Rightarrow> ('w, meta list result) state"
  ue_Parse :: "string \<Rightarrow> (string \<times> string) result"
  ue_hash :: "string \<Rightarrow> string"

definition finalizerUser :: string where "finalizerUser = ''user.finalizers.kubecube.io''"
definition RbacLabel :: string where "RbacLabel = ''kubecube.io/rbac''"
definition LabelRelationship :: string where "LabelRelationship = ''user.kubecube.io/relationship''"
definition K8sGroupRBAC :: string where "K8sGroupRBAC = ''rbac.authorization.k8s.io''"
definition TenantAdminCluster :: string where "TenantAdminCluster = ''tenant-admin-cluster''"
definition ProjectAdminCluster :: string where "ProjectAdminCluster = ''project-admin-cluster''"

subsection \<open>Definitions: bindings of a user\<close>

definition GenerateBindingName :: "(string \<Rightarrow> string) \<Rightarrow> string \<Rightarrow> string \<Rightarrow> string \<Rightarrow> string" where
  "GenerateBindingName h user role namespace =
     user @ ''-'' @ h (if namespace = [] then user @ ''-'' @ role else user @ ''-'' @ role @ ''-'' @ namespace)"

definition NewAggregate :: "err option list \<Rightarrow> err option" where
  "NewAggregate errs = (if list_all (\<lambda>e. e = None) errs then None else Some (Err ''aggregate''))"

definition ignoreAlreadyExistErr :: "err option \<Rightarrow> err option" where
  "ignoreAlreadyExistErr e = (if e = Some AlreadyExists then None else e)"

definition isGenBinding :: "string \<Rightarrow> bool" where
  "isGenBinding name = HasPrefix name ''gen-''"

definition user_subject :: "string \<Rightarrow> Subject" where
  "user_subject user = \<lparr>su_Kind = ''User'', su_Name = user, su_Namespace = []\<rparr>"

definition cluster_role_ref :: "string \<Rightarrow> RoleRef" where
  "cluster_role_ref role = \<lparr>rr_APIGroup = K8sGroupRBAC, rr_Kind = ''ClusterRole'', rr_Name = role\<rparr>"

definition platform_binding :: "(string \<Rightarrow> string) \<Rightarrow> string \<Rightarrow> string \<Rightarrow> rbac_binding" where
  "platform_binding h user role =
     \<lparr>bi_Name = GenerateBindingName h user role [], bi_Namespace = [], bi_Subjects = [user_subject user],
      bi_RoleRef = cluster_role_ref role,
      bl_Labels = Some [(RbacLabel, ''true''), (LabelRelationship, user), (PlatformLabel, ''platform'')]\<rparr>"

definition gen_binding :: "(string \<Rightarrow> string) \<Rightarrow> string \<Rightarrow> string \<Rightarrow> rbac_binding" where
  "gen_binding h user scopeType =
     (let role = (if scopeType = ProjectScope then ProjectAdminCluster
                  else if scopeType = TenantScope then TenantAdminCluster else [])
      in \<lparr>bi_Name = ''gen-'' @ GenerateBindingName h user role [], bi_Namespace = [], bi_Subjects = [user_subject user],
          bi_RoleRef = cluster_role_ref role,
          bl_Labels = Some [(RbacLabel, ''true''), (LabelRelationship, user), (PlatformLabel, ''platform'')]\<rparr>)"

definition ns_binding :: "(string \<Rightarrow> string) \<Rightarrow> string \<Rightarrow> ScopeBinding \<Rightarrow> string \<Rightarrow> rbac_binding" where
  "ns_binding h user b ns =
     \<lparr>bi_Name = GenerateBindingName h user (sb_Role b) ns, bi_Namespace = ns, bi_Subjects = [user_subject user],
      bi_RoleRef = cluster_role_ref (sb_Role b),
      bl_Labels = Some ([(RbacLabel, ''true''), (LabelRelationship, user)]
        @ (if sb_ScopeType b = TenantScope then [(TenantLabel, sb_ScopeName b)] else [])
        @ (if sb_ScopeType b = ProjectScope then [(ProjectLabel, sb_ScopeName b)] else []))\<rparr>"

subsection \<open>Definitions: the handlers\<close>

definition updateUserStatus :: "('w, User) client \<Rightarrow> User \<Rightarrow> ('w, err option) state" where
  "updateUserStatus cli user = RetryOnConflict DefaultRetry (do {
     r \<leftarrow> cl_get cli ([], ur_Name user);
     case r of
       Inl e \<Rightarrow> State_Monad.return (Some e)
     | Inr newUser \<Rightarrow> cl_status_update cli (newUser\<lparr>ur_Status := (ur_Status newUser)
         \<lparr>us_PlatformAdmin := us_PlatformAdmin (ur_Status user), us_BelongTenants := us_BelongTenants (ur_Status user),
          us_BelongProjectInfos := us_BelongProjectInfos (ur_Status user)\<rparr>\<rparr>)
   })"

definition refreshStatus :: "'w user_env \<Rightarrow> User \<Rightarrow> ('w, err option \<times> User) state" where
  "refreshStatus env user = do {
     user \<leftarrow> RefreshUserStatus (ue_Projects env) user;
     e \<leftarrow> updateUserStatus (ue_Users env) user;
     State_Monad.return (e, user)
   }"

definition toFindNamespacesByScopeBinding :: "'w user_env \<Rightarrow> ScopeBinding \<Rightarrow> ('w, meta list result) state" where
  "toFindNamespacesByScopeBinding env b =
     (let labelSelectorStr = (if sb_ScopeType b = ProjectScope then HncProjectLabel @ ''='' @ sb_ScopeName b
                              else if sb_ScopeType b = TenantScope then HncTenantLabel @ ''='' @ sb_ScopeName b
                              else [])
      in case ue_Parse env labelSelectorStr of
           Inl e \<Rightarrow> State_Monad.return (Inl e)
         | Inr ls \<Rightarrow> ue_ListNs env ls)"

fun create_ns_bindings :: "'w user_env \<Rightarrow> string \<Rightarrow> ScopeBinding \<Rightarrow> meta list \<Rightarrow> err option list \<Rightarrow> ('w, err option list) state" where
  "create_ns_bindings env user b [] errs = State_Monad.return errs"
| "create_ns_bindings env user b (ns # nss) errs = do {
     e \<leftarrow> cl_create (ue_Rbs env) (ns_binding (ue_hash env) user b (me_Name ns));
     create_ns_bindings env user b nss (errs @ [ignoreAlreadyExistErr e])
   }"

definition refreshNsBinding :: "'w user_env \<Rightarrow> string \<Rightarrow> ScopeBinding \<Rightarrow> ('w, err option) state" where
  "refreshNsBinding env user b = do {
     r \<leftarrow> toFindNamespacesByScopeBinding env b;
     case r of
       Inl e \<Rightarrow> State_Monad.return (Some e)
     | Inr namespaces \<Rightarrow> do {
         errs \<leftarrow> create_ns_bindings env user b namespaces [];
         State_Monad.return (NewAggregate errs)
       }
   }"

definition refreshPlatformBinding :: "'w user_env \<Rightarrow> string \<Rightarrow> ScopeBinding \<Rightarrow> ('w, err option) state" where
  "refreshPlatformBinding env user b = do {
     e \<leftarrow> cl_create (ue_Crbs env) (platform_binding (ue_hash env) user (sb_Role b));
     State_Monad.return (ignoreAlreadyExistErr e)
   }"

definition generateClusterRoleBinding :: "'w user_env \<Rightarrow> string \<Rightarrow> string \<Rightarrow> ('w, err option) state" where
  "generateClusterRoleBinding env user scopeType = do {
     e \<leftarrow> cl_create (ue_Crbs env) (gen_binding (ue_hash env) user scopeType);
     State_Monad.return (ignoreAlreadyExistErr e)
   }"

text \<open>The loop of \<open>refreshBindings\<close>; a scope has one type, so at most one of its tests holds.\<close>

fun refresh_bindings_loop :: "'w user_env \<Rightarrow> string \<Rightarrow> ScopeBinding list \<Rightarrow> err option list \<Rightarrow> ('w, err option list) state" where
  "refresh_bindings_loop env user [] errs = State_Monad.return errs"
| "refresh_bindings_loop env user (b # bs) errs =
     (if sb_ScopeType b = PlatformScope then do {
        e \<leftarrow> refreshPlatformBinding env user b;
        refresh_bindings_loop env user bs (errs @ [e])
      }
      else if sb_ScopeType b = TenantScope then do {
        e \<leftarrow> refreshNsBinding env user b;
        refresh_bindings_loop env user bs (errs @ [e])
      }
      else if sb_ScopeType b = ProjectScope then do {
        e \<leftarrow> refreshNsBinding env user b;
        refresh_bindings_loop env user bs (errs @ [e])
      }
      else refresh_bindings_loop env user bs errs)"

definition refreshBindings :: "'w user_env \<Rightarrow> User \<Rightarrow> ('w, err option) state" where
  "refreshBindings env user = do {
     errs \<leftarrow> refresh_bindings_loop env (ur_Name user) (ur_ScopeBindings user) [];
     errs \<leftarrow> (if list_ex (\<lambda>b. sb_ScopeType b = TenantScope) (ur_ScopeBindings user)
             then do {
               e \<leftarrow> generateClusterRoleBinding env (ur_Name user) TenantScope;
               State_Monad.return (errs @ [e])
             }
             else State_Monad.return errs);
     errs \<leftarrow> (if list_ex (\<lambda>b. sb_ScopeType b = ProjectScope) (ur_ScopeBindings user)
             then do {
               e \<leftarrow> generateClusterRoleBinding env (ur_Name user) ProjectScope;
               State_Monad.return (errs @ [e])
             }
             else State_Monad.return errs);
     State_Monad.return (NewAggregate errs)
   }"

text \<open>
  The two loops of \<open>cleanOrphanBindings\<close>, which differ in the client and in the bindings they
  keep without a look; the first subject of a binding is read without a test.
\<close>

fun clean_loop :: "('w, rbac_binding) client \<Rightarrow> (rbac_binding \<Rightarrow> bool) \<Rightarrow> string list \<Rightarrow> rbac_binding list \<Rightarrow> ('w, err option go) state" where
  "clean_loop cli skip bindingUnique [] = State_Monad.return (Ret None)"
| "clean_loop cli skip bindingUnique (x # xs) =
     (if skip x then clean_loop cli skip bindingUnique xs
      else case bi_Subjects x of
             [] \<Rightarrow> State_Monad.return Panic
           | sub # _ \<Rightarrow>
               (case TransBinding (bl_Labels x) (su_Name sub) (rr_Name (bi_RoleRef x)) of
                  Inl e \<Rightarrow> clean_loop cli skip bindingUnique xs
                | Inr (scopeType, scopeName, role, _) \<Rightarrow>
                    if scopeName @ scopeType @ role \<notin> set bindingUnique then do {
                      e \<leftarrow> cl_delete cli x;
                      if e = Some NotFound then State_Monad.return (Ret e)
                      else clean_loop cli skip bindingUnique xs
                    }
                    else clean_loop cli skip bindingUnique xs))"

definition cleanOrphanBindings :: "'w user_env \<Rightarrow> User \<Rightarrow> ('w, err option go) state" where
  "cleanOrphanBindings env user =
     (case ue_Parse env (LabelRelationship @ ''='' @ ur_Name user) of
        Inl e \<Rightarrow> State_Monad.return (Ret (Some e))
      | Inr ls \<Rightarrow>
          let bindingUnique = map ScopeBindingUnique (ur_ScopeBindings user);
              isTenantMember = us_BelongTenants (ur_Status user) \<noteq> [];
              isProjectMember = us_BelongProjectInfos (ur_Status user) \<noteq> []
          in do {
            r \<leftarrow> ue_ListCrbs env ls;
            case r of
              Inl e \<Rightarrow> State_Monad.return (Ret (Some e))
            | Inr crbs \<Rightarrow> do {
                g \<leftarrow> clean_loop (ue_Crbs env) (\<lambda>x. isGenBinding (bi_Name x) \<and> (isTenantMember \<or> isProjectMember)) bindingUnique crbs;
                case g of
                  Panic \<Rightarrow> State_Monad.return Panic
                | Ret (Some e) \<Rightarrow> State_Monad.return (Ret (Some e))
                | Ret None \<Rightarrow> do {
                    r \<leftarrow> ue_ListRbs env ls;
                    case r of
                      Inl e \<Rightarrow> State_Monad.return (Ret (Some e))
                    | Inr rbs \<Rightarrow> clean_loop (ue_Rbs env) (\<lambda>x. False) bindingUnique rbs
                  }
              }
          })"

definition syncUser :: "'w user_env \<Rightarrow> User \<Rightarrow> ('w, err option go) state" where
  "syncUser env user = do {
     (e, user) \<leftarrow> refreshStatus env user;
     if e \<noteq> None then State_Monad.return (Ret e)
     else do {
       e \<leftarrow> refreshBindings env user;
       if e \<noteq> None then State_Monad.return (Ret e)
       else cleanOrphanBindings env user
     }
   }"

fun gc_loop :: "('w, rbac_binding) client \<Rightarrow> rbac_binding list \<Rightarrow> ('w, err option) state" where
  "gc_loop cli [] = State_Monad.return None"
| "gc_loop cli (x # xs) = do {
     e \<leftarrow> cl_delete cli x;
     if e \<noteq> None \<and> e \<noteq> Some NotFound then State_Monad.return e else gc_loop cli xs
   }"

definition bindingsGc :: "'w user_env \<Rightarrow> string \<Rightarrow> ('w, err option) state" where
  "bindingsGc env user =
     (case ue_Parse env (LabelRelationship @ ''='' @ user) of
        Inl e \<Rightarrow> State_Monad.return (Some e)
      | Inr ls \<Rightarrow> do {
          r \<leftarrow> ue_ListCrbs env ls;
          case r of
            Inl e \<Rightarrow> State_Monad.return (Some e)
          | Inr crbs \<Rightarrow> do {
              e \<leftarrow> gc_loop (ue_Crbs env) crbs;
              if e \<noteq> None then State_Monad.return e
              else do {
                r \<leftarrow> ue_ListRbs env ls;
                case r of
                  Inl e \<Rightarrow> State_Monad.return (Some e)
                | Inr rbs \<Rightarrow> gc_loop (ue_Rbs env) rbs
              }
            }
        })"

definition ensureFinalizer_user :: "'w user_env \<Rightarrow> User \<Rightarrow> ('w, err option \<times> User) state" where
  "ensureFinalizer_user env user =
     (if \<not> ContainsFinalizer (ur_Finalizers user) finalizerUser then
        let user = user\<lparr>ur_Finalizers := AddFinalizer (ur_Finalizers user) finalizerUser\<rparr>
        in do {
          e \<leftarrow> cl_update (ue_Users env) user;
          State_Monad.return (e, user)
        }
      else State_Monad.return (None, user))"

definition removeFinalizer_user :: "'w user_env \<Rightarrow> User \<Rightarrow> ('w, err option) state" where
  "removeFinalizer_user env user =
     (if ContainsFinalizer (ur_Finalizers user) finalizerUser then do {
        e \<leftarrow> bindingsGc env (ur_Name user);
        if e \<noteq> None then State_Monad.return e
        else RetryOnConflict DefaultRetry (do {
          r \<leftarrow> cl_get (ue_Users env) ([], ur_Name user);
          case r of
            Inl e \<Rightarrow> State_Monad.return (Some e)
          | Inr newUser \<Rightarrow> cl_update (ue_Users env)
              (newUser\<lparr>ur_Finalizers := RemoveFinalizer (ur_Finalizers user) finalizerUser\<rparr>)
        })
      }
      else State_Monad.return None)"

definition Reconcile_user :: "'w user_env \<Rightarrow> string \<Rightarrow> ('w, err option go) state" where
  "Reconcile_user env name = do {
     r \<leftarrow> cl_get (ue_Users env) ([], name);
     case r of
       Inl e \<Rightarrow> State_Monad.return (Ret (if e = NotFound then None else Some e))
     | Inr user \<Rightarrow>
         if ur_DeletionTimestamp user = None then do {
           (e, user) \<leftarrow> ensureFinalizer_user env user;
           if e \<noteq> None then State_Monad.return (Ret e) else syncUser env user
         }
         else do {
           e \<leftarrow> removeFinalizer_user env user;
           State_Monad.return (Ret e)
         }
   }"

subsection \<open>Definitions: users to look at again\<close>

definition extraTenantAndProject :: "labels \<Rightarrow> string \<times> string" where
  "extraTenantAndProject ls = (if ls = None then ([], []) else (label ls HncTenantLabel, label ls HncProjectLabel))"

definition allowedPaas :: "labels \<Rightarrow> bool" where
  "allowedPaas ls = (case extraTenantAndProject ls of (tenant, project) \<Rightarrow> if tenant = [] \<or> project = [] then False else True)"

fun related_loop :: "string \<Rightarrow> string \<Rightarrow> User list \<Rightarrow> string list \<Rightarrow> string list" where
  "related_loop tenant project [] acc = acc"
| "related_loop tenant project (u # us) acc =
     (if tenant \<in> set (us_BelongTenants (ur_Status u)) then related_loop tenant project us (acc @ [ur_Name u])
      else related_loop tenant project us
             (acc @ map (\<lambda>_. ur_Name u) (filter (\<lambda>i. pi_Project i = project) (us_BelongProjectInfos (ur_Status u)))))"

definition namespaceHandleFunc :: "(User list result) \<Rightarrow> labels \<Rightarrow> string list" where
  "namespaceHandleFunc users ls =
     (case extraTenantAndProject ls of (tenant, project) \<Rightarrow>
        (case users of Inl e \<Rightarrow> [] | Inr us \<Rightarrow> related_loop tenant project us []))"

subsection \<open>What the controller relies on\<close>

record user_view =
  uv_crbs :: "objkey \<Rightarrow> rbac_binding option"
  uv_rbs :: "objkey \<Rightarrow> rbac_binding option"
  uv_nss :: "string \<Rightarrow> meta option"

definition binding_key :: "rbac_binding \<Rightarrow> objkey" where
  "binding_key x = (bi_Namespace x, bi_Name x)"

text \<open>
  \<open>get\<close> is the store of one kind of binding in the view and \<open>oth\<close> all the rest of it, which
  the operations on that kind leave alone.
\<close>

definition creates :: "('w, rbac_binding) client \<Rightarrow> ('w \<Rightarrow> 'v) \<Rightarrow> ('v \<Rightarrow> objkey \<Rightarrow> rbac_binding option) \<Rightarrow> ('v \<Rightarrow> 'o) \<Rightarrow> bool" where
  "creates cli view get oth \<longleftrightarrow> inserts cli binding_key view get oth"

definition deletes :: "('w, rbac_binding) client \<Rightarrow> ('w \<Rightarrow> 'v) \<Rightarrow> ('v \<Rightarrow> objkey \<Rightarrow> rbac_binding option) \<Rightarrow> ('v \<Rightarrow> 'o) \<Rightarrow> bool" where
  "deletes cli view get oth \<longleftrightarrow> removes cli binding_key view get oth"

definition user_world :: "'w user_env \<Rightarrow> ('w \<Rightarrow> user_view) \<Rightarrow> bool" where
  "user_world env view \<longleftrightarrow>
     creates (ue_Crbs env) view uv_crbs (\<lambda>v. (uv_rbs v, uv_nss v)) \<and> deletes (ue_Crbs env) view uv_crbs (\<lambda>v. (uv_rbs v, uv_nss v)) \<and>
     creates (ue_Rbs env) view uv_rbs (\<lambda>v. (uv_crbs v, uv_nss v)) \<and> deletes (ue_Rbs env) view uv_rbs (\<lambda>v. (uv_crbs v, uv_nss v)) \<and>
     lists_by (ue_ListCrbs env) view uv_crbs bl_Labels \<and> lists_by (ue_ListRbs env) view uv_rbs bl_Labels \<and>
     lists_by (ue_ListNs env) view uv_nss me_Labels \<and> parses_equality (ue_Parse env) \<and>
     (\<forall>k. keeps_view (cl_get (ue_Users env) k) view) \<and> (\<forall>k. keeps_view (cl_get (ue_Projects env) k) view) \<and>
     (\<forall>u. keeps_view (cl_status_update (ue_Users env) u) view) \<and> (\<forall>u. keeps_view (cl_update (ue_Users env) u) view)"

definition keyed :: "(objkey \<Rightarrow> rbac_binding option) \<Rightarrow> bool" where
  "keyed m \<longleftrightarrow> (\<forall>k x. m k = Some x \<longrightarrow> binding_key x = k)"

lemmas creates_run = inserts_run [where key_of = binding_key, folded creates_def]
lemmas deletes_run = removes_run [where key_of = binding_key, folded deletes_def]

subsection \<open>A deleted user leaves no bindings\<close>

lemma gc_loop_run:
  assumes "deletes cli view get oth" and "run_state (gc_loop cli xs) w = (None, w')"
  shows "oth (view w') = oth (view w) \<and> get (view w') = (\<lambda>k. if k \<in> binding_key ` set xs then None else get (view w) k)"
  using assms(2)
proof (induction xs arbitrary: w)
  case (Cons x xs)
  obtain e w1 where d: "run_state (cl_delete cli x) w = (e, w1)" by fastforce
  with Cons.prems have e: "e = None \<or> e = Some NotFound" and rest: "run_state (gc_loop cli xs) w1 = (None, w')"
    by (auto split: if_splits)
  note dr = deletes_run [OF assms(1) d]
  have "get (view w1) = (get (view w))(binding_key x := None)"
    using e dr(2-4) by (auto simp: fun_upd_idem)
  with Cons.IH [OF rest] dr(1) show ?case by (intro conjI ext) auto
qed simp

text \<open>The bindings of a user are those with the relationship label.\<close>

definition of_user :: "string \<Rightarrow> rbac_binding \<Rightarrow> bool" where
  "of_user u x \<longleftrightarrow> gm_get (bl_Labels x) LabelRelationship = Some u"

lemma parse_relationship:
  assumes "user_world env view" and "ue_Parse env (LabelRelationship @ ''='' @ u) = Inr ls"
  shows "ls = (LabelRelationship, u)"
proof -
  have "CHR ''='' \<notin> set LabelRelationship" by (simp add: LabelRelationship_def)
  with assms show ?thesis unfolding user_world_def parses_equality_def by blast
qed

lemma keyed_remove:
  assumes "keyed m"
  shows "(\<lambda>k. if k \<in> binding_key ` {x. \<exists>i. m i = Some x \<and> P x} then None else m k) =
    (\<lambda>k. case m k of Some x \<Rightarrow> if P x then None else Some x | None \<Rightarrow> None)"
proof
  fix k
  have "k \<in> binding_key ` {x. \<exists>i. m i = Some x \<and> P x} \<longleftrightarrow> (\<exists>x. m k = Some x \<and> P x)"
    using assms unfolding keyed_def by blast
  then show "(if k \<in> binding_key ` {x. \<exists>i. m i = Some x \<and> P x} then None else m k) =
    (case m k of Some x \<Rightarrow> if P x then None else Some x | None \<Rightarrow> None)"
    by (cases "m k") auto
qed

lemma bindingsGc_run:
  assumes world: "user_world env view" and keyed: "keyed (uv_crbs (view w))" "keyed (uv_rbs (view w))"
    and run: "run_state (bindingsGc env u) w = (None, w')"
  shows "uv_crbs (view w') = (\<lambda>k. case uv_crbs (view w) k of Some x \<Rightarrow> if of_user u x then None else Some x | None \<Rightarrow> None) \<and>
    uv_rbs (view w') = (\<lambda>k. case uv_rbs (view w) k of Some x \<Rightarrow> if of_user u x then None else Some x | None \<Rightarrow> None)"
proof -
  from run obtain ls where ls: "ue_Parse env (LabelRelationship @ ''='' @ u) = Inr ls"
    by (cases "ue_Parse env (LabelRelationship @ ''='' @ u)") (auto simp: bindingsGc_def)
  note lsv = parse_relationship [OF world ls]
  obtain r1 w1 where l1: "run_state (ue_ListCrbs env ls) w = (r1, w1)" by fastforce
  then obtain crbs where r1: "r1 = Inr crbs" using run ls by (cases r1) (auto simp: bindingsGc_def)
  obtain e2 w2 where g1: "run_state (gc_loop (ue_Crbs env) crbs) w1 = (e2, w2)" by fastforce
  then have e2: "e2 = None" using run ls l1 r1 by (cases e2) (auto simp: bindingsGc_def)
  obtain r3 w3 where l2: "run_state (ue_ListRbs env ls) w2 = (r3, w3)" by fastforce
  then obtain rbs where r3: "r3 = Inr rbs" using run ls l1 r1 g1 e2 by (cases r3) (auto simp: bindingsGc_def)
  then have g2: "run_state (gc_loop (ue_Rbs env) rbs) w3 = (None, w')" using run ls l1 r1 g1 e2 l2 by (simp add: bindingsGc_def)
  from world have c: "lists_by (ue_ListCrbs env) view uv_crbs bl_Labels" "lists_by (ue_ListRbs env) view uv_rbs bl_Labels"
    "deletes (ue_Crbs env) view uv_crbs (\<lambda>v. (uv_rbs v, uv_nss v))" "deletes (ue_Rbs env) view uv_rbs (\<lambda>v. (uv_crbs v, uv_nss v))"
    by (simp_all add: user_world_def)
  note L1 = lists_run [OF c(1) l1] and L2 = lists_run [OF c(2) l2]
  note G1 = gc_loop_run [OF c(3) g1 [unfolded e2]] and G2 = gc_loop_run [OF c(4) g2]
  have mem: "set crbs = {x. \<exists>i. uv_crbs (view w) i = Some x \<and> of_user u x}" "set rbs = {x. \<exists>i. uv_rbs (view w) i = Some x \<and> of_user u x}"
    using L1 L2 r1 r3 lsv G1 by (auto simp: of_user_def)
  have frame: "uv_crbs (view w') = uv_crbs (view w2)" "uv_rbs (view w3) = uv_rbs (view w)" "uv_crbs (view w1) = uv_crbs (view w)"
    using G1 G2 L1(1) L2(1) by auto
  have "uv_crbs (view w2) = (\<lambda>k. case uv_crbs (view w) k of Some x \<Rightarrow> if of_user u x then None else Some x | None \<Rightarrow> None)"
    unfolding conjunct2 [OF G1] mem(1) frame(3) by (rule keyed_remove [OF keyed(1)])
  moreover have "uv_rbs (view w') = (\<lambda>k. case uv_rbs (view w) k of Some x \<Rightarrow> if of_user u x then None else Some x | None \<Rightarrow> None)"
    unfolding conjunct2 [OF G2] mem(2) frame(2) by (rule keyed_remove [OF keyed(2)])
  ultimately show ?thesis unfolding frame(1) by blast
qed

definition without_user :: "string \<Rightarrow> (objkey \<Rightarrow> rbac_binding option) \<Rightarrow> objkey \<Rightarrow> rbac_binding option" where
  "without_user u m k = (case m k of Some x \<Rightarrow> if of_user u x then None else Some x | None \<Rightarrow> None)"

lemma user_world_keeps:
  assumes "user_world env view"
  shows "keeps_view (cl_get (ue_Users env) k) view" "keeps_view (cl_get (ue_Projects env) k) view"
    "keeps_view (cl_status_update (ue_Users env) u) view" "keeps_view (cl_update (ue_Users env) u) view"
  using assms unfolding user_world_def by blast+

subsection \<open>The bindings of a user are there after a reconciliation\<close>

text \<open>\<open>grown m m' X\<close>: the store only grew, by bindings of \<open>X\<close>.\<close>

definition grown :: "(objkey \<Rightarrow> rbac_binding option) \<Rightarrow> (objkey \<Rightarrow> rbac_binding option) \<Rightarrow> rbac_binding set \<Rightarrow> bool" where
  "grown m m' X \<longleftrightarrow> (\<forall>k. m' k = m k \<or> m k = None \<and> (\<exists>x \<in> X. binding_key x = k \<and> m' k = Some x))"

lemma grown_refl [simp]: "grown m m X"
  by (simp add: grown_def)

lemma grown_trans: "grown m m1 X \<Longrightarrow> grown m1 m2 X \<Longrightarrow> grown m m2 X"
  unfolding grown_def by metis

lemma grown_mono: "grown m m' X \<Longrightarrow> X \<subseteq> Y \<Longrightarrow> grown m m' Y"
  unfolding grown_def by blast

lemma grown_present: "grown m m' X \<Longrightarrow> m k \<noteq> None \<Longrightarrow> m' k \<noteq> None"
  unfolding grown_def by metis

lemma create_run:
  assumes "creates cli view get oth" and "run_state (cl_create cli x) w = (e, w')"
  shows "oth (view w') = oth (view w) \<and> grown (get (view w)) (get (view w')) {x} \<and>
    (ignoreAlreadyExistErr e = None \<longrightarrow> get (view w') (binding_key x) \<noteq> None)"
  using creates_run [OF assms] by (cases e) (auto simp: grown_def ignoreAlreadyExistErr_def split: if_splits)

lemma create_ns_bindings_run:
  assumes "creates (ue_Rbs env) view uv_rbs oth" and "run_state (create_ns_bindings env u b nss errs) w = (errs', w')"
  shows "oth (view w') = oth (view w) \<and>
    grown (uv_rbs (view w)) (uv_rbs (view w')) ((\<lambda>ns. ns_binding (ue_hash env) u b (me_Name ns)) ` set nss) \<and>
    (\<exists>es. errs' = errs @ es \<and> (NewAggregate es = None \<longrightarrow>
       (\<forall>ns \<in> set nss. uv_rbs (view w') (binding_key (ns_binding (ue_hash env) u b (me_Name ns))) \<noteq> None)))"
  using assms(2)
proof (induction nss arbitrary: w errs)
  case (Cons ns nss)
  let ?x = "ns_binding (ue_hash env) u b (me_Name ns)"
  obtain e w1 where c: "run_state (cl_create (ue_Rbs env) ?x) w = (e, w1)" by fastforce
  note cr = create_run [OF assms(1) c]
  from Cons.prems c have rest: "run_state (create_ns_bindings env u b nss (errs @ [ignoreAlreadyExistErr e])) w1 = (errs', w')" by simp
  let ?X = "(\<lambda>ns. ns_binding (ue_hash env) u b (me_Name ns)) ` set (ns # nss)"
  from Cons.IH [OF rest] obtain es where es: "oth (view w') = oth (view w1)"
      "grown (uv_rbs (view w1)) (uv_rbs (view w')) ((\<lambda>ns. ns_binding (ue_hash env) u b (me_Name ns)) ` set nss)"
      "errs' = (errs @ [ignoreAlreadyExistErr e]) @ es"
      "NewAggregate es = None \<longrightarrow> (\<forall>ns \<in> set nss. uv_rbs (view w') (binding_key (ns_binding (ue_hash env) u b (me_Name ns))) \<noteq> None)"
    by (elim conjE exE) (rule that)
  have "grown (uv_rbs (view w)) (uv_rbs (view w1)) ?X"
    by (rule grown_mono [OF conjunct1 [OF conjunct2 [OF cr]]]) simp
  moreover have "grown (uv_rbs (view w1)) (uv_rbs (view w')) ?X" using es(2) by (rule grown_mono) auto
  ultimately have "grown (uv_rbs (view w)) (uv_rbs (view w')) ?X" by (rule grown_trans)
  moreover have "\<forall>n \<in> set (ns # nss). uv_rbs (view w') (binding_key (ns_binding (ue_hash env) u b (me_Name n))) \<noteq> None"
    if "NewAggregate (ignoreAlreadyExistErr e # es) = None"
  proof -
    from that have "ignoreAlreadyExistErr e = None" "NewAggregate es = None" by (auto simp: NewAggregate_def split: if_splits)
    then show ?thesis using es(4) cr grown_present [OF es(2)] by simp
  qed
  ultimately show ?case using es(1,3) cr by (intro conjI exI [of _ "ignoreAlreadyExistErr e # es"]) simp_all
qed (simp add: NewAggregate_def)

text \<open>The namespaces a scope binding covers.\<close>

definition scope_covers :: "ScopeBinding \<Rightarrow> (string \<Rightarrow> meta option) \<Rightarrow> meta \<Rightarrow> bool" where
  "scope_covers b nss ns \<longleftrightarrow> (\<exists>i. nss i = Some ns) \<and>
     (sb_ScopeType b = TenantScope \<and> gm_get (me_Labels ns) HncTenantLabel = Some (sb_ScopeName b) \<or>
      sb_ScopeType b = ProjectScope \<and> gm_get (me_Labels ns) HncProjectLabel = Some (sb_ScopeName b))"

lemma toFindNamespaces_run:
  assumes world: "user_world env view" and b: "sb_ScopeType b = TenantScope \<or> sb_ScopeType b = ProjectScope"
    and run: "run_state (toFindNamespacesByScopeBinding env b) w = (r, w')"
  shows "view w' = view w \<and> (\<forall>nss. r = Inr nss \<longrightarrow> set nss = {ns. scope_covers b (uv_nss (view w)) ns})"
proof -
  let ?k = "if sb_ScopeType b = ProjectScope then HncProjectLabel else HncTenantLabel"
  have sel: "run_state (toFindNamespacesByScopeBinding env b) w =
      run_state (case ue_Parse env (?k @ ''='' @ sb_ScopeName b) of Inl e \<Rightarrow> State_Monad.return (Inl e) | Inr ls \<Rightarrow> ue_ListNs env ls) w"
    using b by (auto simp: toFindNamespacesByScopeBinding_def)
  have l: "lists_by (ue_ListNs env) view uv_nss me_Labels" using world by (simp add: user_world_def)
  show ?thesis
  proof (cases "ue_Parse env (?k @ ''='' @ sb_ScopeName b)")
    case (Inl e)
    with run show ?thesis unfolding sel by auto
  next
    case (Inr ls)
    have nk: "CHR ''='' \<notin> set ?k" by (simp add: HncProjectLabel_def HncTenantLabel_def)
    with Inr world have ls: "ls = (?k, sb_ScopeName b)" unfolding user_world_def parses_equality_def by blast
    from run Inr have "run_state (ue_ListNs env ls) w = (r, w')" unfolding sel by simp
    from lists_run [OF l this] show ?thesis using b by (auto simp: ls scope_covers_def)
  qed
qed

text \<open>
  What one scope binding may add to the two stores, and what has to be there afterwards.
\<close>

definition wanted_rbs :: "(string \<Rightarrow> string) \<Rightarrow> string \<Rightarrow> ScopeBinding \<Rightarrow> (string \<Rightarrow> meta option) \<Rightarrow> rbac_binding set" where
  "wanted_rbs h u b nss = (\<lambda>ns. ns_binding h u b (me_Name ns)) ` {ns. scope_covers b nss ns}"

definition wanted_crbs :: "(string \<Rightarrow> string) \<Rightarrow> string \<Rightarrow> ScopeBinding \<Rightarrow> rbac_binding set" where
  "wanted_crbs h u b =
     (if sb_ScopeType b = PlatformScope then {platform_binding h u (sb_Role b)}
      else if sb_ScopeType b = TenantScope \<or> sb_ScopeType b = ProjectScope then {gen_binding h u (sb_ScopeType b)} else {})"

definition present :: "(objkey \<Rightarrow> rbac_binding option) \<Rightarrow> rbac_binding set \<Rightarrow> bool" where
  "present m X \<longleftrightarrow> (\<forall>x \<in> X. m (binding_key x) \<noteq> None)"

lemma present_grown: "present m X \<Longrightarrow> grown m m' Y \<Longrightarrow> present m' X"
  unfolding present_def using grown_present by blast

lemma present_Un [simp]: "present m (X \<union> Y) \<longleftrightarrow> present m X \<and> present m Y" "present m {}"
  by (auto simp: present_def)

lemma refreshNsBinding_run:
  assumes world: "user_world env view" and b: "sb_ScopeType b = TenantScope \<or> sb_ScopeType b = ProjectScope"
    and run: "run_state (refreshNsBinding env u b) w = (e, w')"
  shows "uv_crbs (view w') = uv_crbs (view w) \<and> uv_nss (view w') = uv_nss (view w) \<and>
    grown (uv_rbs (view w)) (uv_rbs (view w')) (wanted_rbs (ue_hash env) u b (uv_nss (view w))) \<and>
    (e = None \<longrightarrow> present (uv_rbs (view w')) (wanted_rbs (ue_hash env) u b (uv_nss (view w))))"
proof -
  obtain r w1 where f: "run_state (toFindNamespacesByScopeBinding env b) w = (r, w1)" by fastforce
  note F = toFindNamespaces_run [OF world b f]
  show ?thesis
  proof (cases r)
    case (Inl er)
    with run f F show ?thesis by (auto simp: refreshNsBinding_def)
  next
    case (Inr nss)
    obtain errs w2 where c: "run_state (create_ns_bindings env u b nss []) w1 = (errs, w2)" by fastforce
    with run f Inr have e: "e = NewAggregate errs" "w' = w2" by (auto simp: refreshNsBinding_def)
    have cr: "creates (ue_Rbs env) view uv_rbs (\<lambda>v. (uv_crbs v, uv_nss v))" using world by (simp add: user_world_def)
    have X: "(\<lambda>ns. ns_binding (ue_hash env) u b (me_Name ns)) ` set nss = wanted_rbs (ue_hash env) u b (uv_nss (view w))"
      using F Inr by (simp add: wanted_rbs_def)
    from create_ns_bindings_run [OF cr c] F e show ?thesis
      unfolding X [symmetric] by (auto simp: present_def)
  qed
qed

lemma create_crb_run:
  assumes "user_world env view" and "run_state (cl_create (ue_Crbs env) x) w = (e, w')"
  shows "uv_rbs (view w') = uv_rbs (view w) \<and> uv_nss (view w') = uv_nss (view w) \<and>
    grown (uv_crbs (view w)) (uv_crbs (view w')) {x} \<and>
    (ignoreAlreadyExistErr e = None \<longrightarrow> present (uv_crbs (view w')) {x})"
proof -
  have "creates (ue_Crbs env) view uv_crbs (\<lambda>v. (uv_rbs v, uv_nss v))" using assms(1) by (simp add: user_world_def)
  from create_run [OF this assms(2)] show ?thesis by (simp add: present_def)
qed

text \<open>The effect of a step of \<open>refreshBindings\<close> on the view, composed along the loop.\<close>

definition adds :: "user_view \<Rightarrow> user_view \<Rightarrow> rbac_binding set \<Rightarrow> rbac_binding set \<Rightarrow> bool" where
  "adds v v' C R \<longleftrightarrow> uv_nss v' = uv_nss v \<and> grown (uv_crbs v) (uv_crbs v') C \<and> grown (uv_rbs v) (uv_rbs v') R"

lemma adds_trans: "adds v v1 C R \<Longrightarrow> adds v1 v2 C' R' \<Longrightarrow> adds v v2 (C \<union> C') (R \<union> R')"
  unfolding adds_def by (metis Un_upper1 Un_upper2 grown_mono grown_trans)

lemma adds_refl [simp]: "adds v v C R"
  by (simp add: adds_def)

lemma adds_present: "adds v v' C R \<Longrightarrow> present (uv_crbs v) X \<Longrightarrow> present (uv_crbs v') X"
  "adds v v' C R \<Longrightarrow> present (uv_rbs v) X \<Longrightarrow> present (uv_rbs v') X"
  unfolding adds_def by (blast intro: present_grown)+

lemma adds_nss: "adds v v' C R \<Longrightarrow> uv_nss v' = uv_nss v"
  by (simp add: adds_def)

text \<open>The cluster role bindings the loop itself makes; those for members come after it.\<close>

definition platform_crbs :: "(string \<Rightarrow> string) \<Rightarrow> string \<Rightarrow> ScopeBinding list \<Rightarrow> rbac_binding set" where
  "platform_crbs h u bs = (\<lambda>b. platform_binding h u (sb_Role b)) ` {b \<in> set bs. sb_ScopeType b = PlatformScope}"

definition ns_rbs :: "(string \<Rightarrow> string) \<Rightarrow> string \<Rightarrow> ScopeBinding list \<Rightarrow> (string \<Rightarrow> meta option) \<Rightarrow> rbac_binding set" where
  "ns_rbs h u bs nss = (\<Union>b \<in> set bs. wanted_rbs h u b nss)"

lemma wanted_rbs_other:
  "sb_ScopeType b \<noteq> TenantScope \<Longrightarrow> sb_ScopeType b \<noteq> ProjectScope \<Longrightarrow> wanted_rbs h u b nss = {}"
  by (simp add: wanted_rbs_def scope_covers_def)

lemma refresh_bindings_loop_run:
  assumes "user_world env view" and "run_state (refresh_bindings_loop env u bs errs) w = (errs', w')"
  shows "\<exists>es. errs' = errs @ es \<and>
    adds (view w) (view w') (platform_crbs (ue_hash env) u bs) (ns_rbs (ue_hash env) u bs (uv_nss (view w))) \<and>
    (NewAggregate es = None \<longrightarrow> present (uv_crbs (view w')) (platform_crbs (ue_hash env) u bs) \<and>
       present (uv_rbs (view w')) (ns_rbs (ue_hash env) u bs (uv_nss (view w))))"
  using assms(2)
proof (induction bs arbitrary: w errs)
  case Nil
  then show ?case by (simp add: platform_crbs_def ns_rbs_def)
next
  case (Cons b bs)
  let ?C = "platform_crbs (ue_hash env) u [b]" and ?R = "ns_rbs (ue_hash env) u [b] (uv_nss (view w))"
  have step: "\<exists>es1 w1. run_state (refresh_bindings_loop env u bs (errs @ es1)) w1 = (errs', w') \<and> adds (view w) (view w1) ?C ?R \<and>
    (NewAggregate es1 = None \<longrightarrow> present (uv_crbs (view w1)) ?C \<and> present (uv_rbs (view w1)) ?R)"
  proof (cases "sb_ScopeType b = PlatformScope")
    case True
    let ?x = "platform_binding (ue_hash env) u (sb_Role b)"
    obtain e w1 where c: "run_state (cl_create (ue_Crbs env) ?x) w = (e, w1)" by fastforce
    have CR: "?C = {?x}" "?R = {}" using True by (auto simp: platform_crbs_def ns_rbs_def wanted_rbs_other)
    from create_crb_run [OF assms(1) c] True c Cons.prems show ?thesis unfolding CR
      by (intro exI [of _ "[ignoreAlreadyExistErr e]"] exI [of _ w1])
        (auto simp: refreshPlatformBinding_def adds_def NewAggregate_def)
  next
    case notP: False
    show ?thesis
    proof (cases "sb_ScopeType b = TenantScope \<or> sb_ScopeType b = ProjectScope")
      case True
      obtain e w1 where c: "run_state (refreshNsBinding env u b) w = (e, w1)" by fastforce
      have CR: "?C = {}" "?R = wanted_rbs (ue_hash env) u b (uv_nss (view w))"
        using notP by (auto simp: platform_crbs_def ns_rbs_def)
      from refreshNsBinding_run [OF assms(1) True c] True notP c Cons.prems show ?thesis unfolding CR
        by (intro exI [of _ "[e]"] exI [of _ w1]) (auto simp: adds_def NewAggregate_def)
    next
      case False
      have CR: "?C = {}" "?R = {}" using notP False by (auto simp: platform_crbs_def ns_rbs_def wanted_rbs_other)
      from False notP Cons.prems show ?thesis unfolding CR
        by (intro exI [of _ "[]"] exI [of _ w]) simp
    qed
  qed
  from step obtain es1 w1 where s: "run_state (refresh_bindings_loop env u bs (errs @ es1)) w1 = (errs', w')"
      "adds (view w) (view w1) ?C ?R" "NewAggregate es1 = None \<longrightarrow> present (uv_crbs (view w1)) ?C \<and> present (uv_rbs (view w1)) ?R"
    by (elim exE conjE) (rule that)
  note nss = adds_nss [OF s(2)]
  let ?C' = "platform_crbs (ue_hash env) u bs" and ?R' = "ns_rbs (ue_hash env) u bs (uv_nss (view w))"
  from Cons.IH [OF s(1)] obtain es where es: "errs' = (errs @ es1) @ es" "adds (view w1) (view w') ?C' ?R'"
      "NewAggregate es = None \<longrightarrow> present (uv_crbs (view w')) ?C' \<and> present (uv_rbs (view w')) ?R'"
    unfolding nss by (elim exE conjE) (rule that)
  have CR: "platform_crbs (ue_hash env) u (b # bs) = ?C \<union> ?C'" "ns_rbs (ue_hash env) u (b # bs) (uv_nss (view w)) = ?R \<union> ?R'"
    by (auto simp: platform_crbs_def ns_rbs_def)
  have agg: "NewAggregate (es1 @ es) = None \<longleftrightarrow> NewAggregate es1 = None \<and> NewAggregate es = None"
    by (simp add: NewAggregate_def)
  show ?case
    unfolding CR using es adds_trans [OF s(2) es(2)] s(3) adds_present [OF es(2)]
    by (intro exI [of _ "es1 @ es"]) (simp add: agg)
qed

definition member_crbs :: "(string \<Rightarrow> string) \<Rightarrow> string \<Rightarrow> ScopeBinding list \<Rightarrow> rbac_binding set" where
  "member_crbs h u bs = gen_binding h u ` {t \<in> {TenantScope, ProjectScope}. \<exists>b \<in> set bs. sb_ScopeType b = t}"

lemma gen_step_run:
  assumes "user_world env view"
    and "run_state (if P then do { e \<leftarrow> generateClusterRoleBinding env u t; State_Monad.return (errs @ [e]) } else State_Monad.return errs) w = (errs', w')"
  shows "\<exists>es. errs' = errs @ es \<and> adds (view w) (view w') (if P then {gen_binding (ue_hash env) u t} else {}) {} \<and>
    (NewAggregate es = None \<longrightarrow> present (uv_crbs (view w')) (if P then {gen_binding (ue_hash env) u t} else {}))"
proof (cases P)
  case True
  obtain e w1 where c: "run_state (cl_create (ue_Crbs env) (gen_binding (ue_hash env) u t)) w = (e, w1)" by fastforce
  from create_crb_run [OF assms(1) c] True c assms(2) show ?thesis
    by (intro exI [of _ "[ignoreAlreadyExistErr e]"]) (auto simp: generateClusterRoleBinding_def adds_def NewAggregate_def)
qed (use assms(2) in \<open>simp add: NewAggregate_def\<close>)

lemma refreshBindings_run:
  assumes world: "user_world env view" and run: "run_state (refreshBindings env u) w = (None, w')"
  shows "adds (view w) (view w')
      (platform_crbs (ue_hash env) (ur_Name u) (ur_ScopeBindings u) \<union> member_crbs (ue_hash env) (ur_Name u) (ur_ScopeBindings u))
      (ns_rbs (ue_hash env) (ur_Name u) (ur_ScopeBindings u) (uv_nss (view w))) \<and>
    present (uv_crbs (view w')) (platform_crbs (ue_hash env) (ur_Name u) (ur_ScopeBindings u) \<union>
      member_crbs (ue_hash env) (ur_Name u) (ur_ScopeBindings u)) \<and>
    present (uv_rbs (view w')) (ns_rbs (ue_hash env) (ur_Name u) (ur_ScopeBindings u) (uv_nss (view w)))"
proof -
  let ?h = "ue_hash env" and ?n = "ur_Name u" and ?bs = "ur_ScopeBindings u"
  let ?T = "list_ex (\<lambda>b. sb_ScopeType b = TenantScope) ?bs" and ?P = "list_ex (\<lambda>b. sb_ScopeType b = ProjectScope) ?bs"
  let ?gT = "if ?T then {gen_binding ?h ?n TenantScope} else {}" and ?gP = "if ?P then {gen_binding ?h ?n ProjectScope} else {}"
  obtain errs1 w1 where l: "run_state (refresh_bindings_loop env ?n ?bs []) w = (errs1, w1)" by fastforce
  obtain errs2 w2 where t: "run_state (if ?T then do { e \<leftarrow> generateClusterRoleBinding env ?n TenantScope; State_Monad.return (errs1 @ [e]) }
      else State_Monad.return errs1) w1 = (errs2, w2)" by fastforce
  obtain errs3 w3 where p: "run_state (if ?P then do { e \<leftarrow> generateClusterRoleBinding env ?n ProjectScope; State_Monad.return (errs2 @ [e]) }
      else State_Monad.return errs2) w2 = (errs3, w3)" by fastforce
  have fin: "w' = w3" "NewAggregate errs3 = None" using run l t p by (simp_all add: refreshBindings_def)
  from refresh_bindings_loop_run [OF world l] gen_step_run [OF world t] gen_step_run [OF world p]
  obtain es1 es2 es3 where
    s: "errs1 = es1" "errs2 = errs1 @ es2" "errs3 = errs2 @ es3" and
    a: "adds (view w) (view w1) (platform_crbs ?h ?n ?bs) (ns_rbs ?h ?n ?bs (uv_nss (view w)))"
      "adds (view w1) (view w2) ?gT {}" "adds (view w2) (view w3) ?gP {}" and
    pr: "NewAggregate es1 = None \<longrightarrow> present (uv_crbs (view w1)) (platform_crbs ?h ?n ?bs) \<and>
        present (uv_rbs (view w1)) (ns_rbs ?h ?n ?bs (uv_nss (view w)))"
      "NewAggregate es2 = None \<longrightarrow> present (uv_crbs (view w2)) ?gT" "NewAggregate es3 = None \<longrightarrow> present (uv_crbs (view w3)) ?gP"
    unfolding append_Nil by (elim exE conjE) (rule that)
  have ok: "NewAggregate es1 = None" "NewAggregate es2 = None" "NewAggregate es3 = None"
    using fin(2) unfolding s by (auto simp: NewAggregate_def split: if_splits)
  have mem: "member_crbs ?h ?n ?bs = ?gT \<union> ?gP" by (auto simp: member_crbs_def list_ex_iff)
  have all: "adds (view w) (view w3) (platform_crbs ?h ?n ?bs \<union> member_crbs ?h ?n ?bs) (ns_rbs ?h ?n ?bs (uv_nss (view w)))"
    using adds_trans [OF adds_trans [OF a(1,2)] a(3)] unfolding mem by (simp only: Un_assoc Un_empty_right)
  have "present (uv_crbs (view w3)) (platform_crbs ?h ?n ?bs)" "present (uv_rbs (view w3)) (ns_rbs ?h ?n ?bs (uv_nss (view w)))"
    "present (uv_crbs (view w3)) ?gT" "present (uv_crbs (view w3)) ?gP"
    using pr ok adds_present [OF a(2)] adds_present [OF a(3)] by blast+
  with all show ?thesis unfolding fin(1) mem by simp
qed

subsection \<open>What is cleaned up\<close>

text \<open>The key of the scope that a binding stands for, by its labels.\<close>

definition scope_key :: "rbac_binding \<Rightarrow> string option" where
  "scope_key x =
     (case TransBinding (bl_Labels x) [] (rr_Name (bi_RoleRef x)) of
        Inl _ \<Rightarrow> None | Inr (scopeType, scopeName, role, _) \<Rightarrow> Some (scopeName @ scopeType @ role))"

definition orphan :: "string list \<Rightarrow> rbac_binding \<Rightarrow> bool" where
  "orphan uniq x \<longleftrightarrow> (\<exists>k. scope_key x = Some k \<and> k \<notin> set uniq)"

lemma TransBinding_key:
  "(case TransBinding ls s r of Inl _ \<Rightarrow> None | Inr (scopeType, scopeName, role, _) \<Rightarrow> Some (scopeName @ scopeType @ role)) =
   (case TransBinding ls [] r of Inl _ \<Rightarrow> None | Inr (scopeType, scopeName, role, _) \<Rightarrow> Some (scopeName @ scopeType @ role))"
  by (simp add: TransBinding_def Let_def)

lemma clean_loop_Cons:
  assumes "bi_Subjects x \<noteq> []"
  shows "clean_loop cli skip uniq (x # xs) =
    (if \<not> skip x \<and> orphan uniq x then do {
       e \<leftarrow> cl_delete cli x;
       if e = Some NotFound then State_Monad.return (Ret e) else clean_loop cli skip uniq xs
     }
     else clean_loop cli skip uniq xs)"
proof -
  obtain sub subs where "bi_Subjects x = sub # subs" using assms by (cases "bi_Subjects x") auto
  moreover have "orphan uniq x \<longleftrightarrow> (case TransBinding (bl_Labels x) (su_Name sub) (rr_Name (bi_RoleRef x)) of
      Inl _ \<Rightarrow> False | Inr (scopeType, scopeName, role, _) \<Rightarrow> scopeName @ scopeType @ role \<notin> set uniq)"
    unfolding orphan_def scope_key_def TransBinding_key [of _ "su_Name sub", symmetric] by (auto split: sum.splits)
  ultimately show ?thesis by (auto split: sum.splits prod.splits)
qed

text \<open>
  Cleaning removes nothing but listed orphans; when deletions are not refused and the loop
  returns no error, it removes all of them that it does not skip.
\<close>

definition deletes_surely :: "('w, rbac_binding) client \<Rightarrow> bool" where
  "deletes_surely cli \<longleftrightarrow> (\<forall>w x e w'. run_state (cl_delete cli x) w = (e, w') \<longrightarrow> e = None \<or> e = Some NotFound)"

lemma clean_loop_run:
  assumes "deletes cli view get oth" and "run_state (clean_loop cli skip uniq xs) w = (g, w')"
  shows "oth (view w') = oth (view w) \<and>
    (\<forall>k. get (view w') k = get (view w) k \<or> get (view w') k = None \<and> (\<exists>x \<in> set xs. binding_key x = k \<and> \<not> skip x \<and> orphan uniq x)) \<and>
    (g = Ret None \<longrightarrow> deletes_surely cli \<longrightarrow> (\<forall>x \<in> set xs. \<not> skip x \<and> orphan uniq x \<longrightarrow> get (view w') (binding_key x) = None))"
  using assms(2)
proof (induction xs arbitrary: w)
  case (Cons x xs)
  show ?case
  proof (cases "bi_Subjects x = [] \<and> \<not> skip x")
    case True
    with Cons.prems show ?thesis by simp
  next
    case False
    show ?thesis
    proof (cases "\<not> skip x \<and> orphan uniq x")
      case True
      with False have "bi_Subjects x \<noteq> []" by simp
      note eq = clean_loop_Cons [OF this, of cli skip uniq xs]
      obtain e w1 where d: "run_state (cl_delete cli x) w = (e, w1)" by fastforce
      note dr = deletes_run [OF assms(1) d]
      show ?thesis
      proof (cases "e = Some NotFound")
        case nf: True
        with Cons.prems True d have "g = Ret e" "w' = w1" unfolding eq by auto
        with nf dr show ?thesis by simp
      next
        case nnf: False
        with Cons.prems True d have "run_state (clean_loop cli skip uniq xs) w1 = (g, w')" unfolding eq by auto
        note IH = Cons.IH [OF this]
        have gone: "get (view w1) (binding_key x) = None" if "deletes_surely cli"
          using that d nnf dr(2) unfolding deletes_surely_def by (metis fun_upd_same)
        have mono: "get (view w1) k = get (view w) k \<or> get (view w1) k = None \<and> binding_key x = k" for k
          using dr(2,3) by (cases e) auto
        show ?thesis
        proof (intro conjI allI impI ballI)
          show "oth (view w') = oth (view w)" using IH dr(1) by simp
          show "get (view w') k = get (view w) k \<or> get (view w') k = None \<and> (\<exists>x \<in> set (x # xs). binding_key x = k \<and> \<not> skip x \<and> orphan uniq x)" for k
            using IH mono [of k] True by (metis list.set_intros(1,2))
          show "get (view w') (binding_key y) = None"
            if "g = Ret None" "deletes_surely cli" "y \<in> set (x # xs)" "\<not> skip y \<and> orphan uniq y" for y
            using IH gone that by (metis set_ConsD)
        qed
      qed
    next
      case keep: False
      have "clean_loop cli skip uniq (x # xs) = clean_loop cli skip uniq xs"
      proof (cases "bi_Subjects x = []")
        case True
        with False show ?thesis by simp
      next
        case ne: False
        show ?thesis unfolding clean_loop_Cons [OF ne] using keep by (simp only: if_False)
      qed
      with Cons.prems have "run_state (clean_loop cli skip uniq xs) w = (g, w')" by simp
      from Cons.IH [OF this] keep show ?thesis by auto
    qed
  qed
qed simp

end
