(* ===== verification/UserSystem.thy ===== *)
theory UserSystem
  imports UserController
begin

section \<open>From scope bindings to decisions\<close>

text \<open>
  What a whole run of \<open>syncUser\<close> does to the bindings of the cluster, and what the authorizer
  of \<open>pkg/authorizer/rbac\<close> then answers: a user may do in every namespace of its scopes what
  the role of the scope binding allows. A binding is named after user, role and namespace and
  not after the scope, which loses access when a role moves from one scope to another.
\<close>

subsection \<open>The effect of a whole run\<close>

lemma refresh_status_loop_keeps:
  assumes "\<And>k. keeps_view (cl_get cli k) view"
  shows "keeps_view (refresh_status_loop cli bs st) view"
  using assms by (induction bs arbitrary: st) (auto simp: Let_def intro!: keeps_view_bind)

lemma updateUserStatus_keeps:
  assumes "user_world env view"
  shows "keeps_view (updateUserStatus (ue_Users env) u) view"
  unfolding updateUserStatus_def
  by (rule keeps_view_retry) (auto intro!: keeps_view_bind user_world_keeps [OF assms] split: sum.splits)

lemma refreshStatus_run:
  assumes world: "user_world env view" and run: "run_state (refreshStatus env u) w = ((e, u'), w')"
  shows "view w' = view w \<and> ur_Name u' = ur_Name u \<and> ur_ScopeBindings u' = ur_ScopeBindings u"
proof -
  let ?loop = "refresh_status_loop (ue_Projects env) (ur_ScopeBindings u)
    ((ur_Status u)\<lparr>us_BelongTenants := [], us_BelongProjectInfos := [], us_PlatformAdmin := False\<rparr>)"
  obtain st w1 where l: "run_state ?loop w = (st, w1)" by fastforce
  obtain e' w2 where s: "run_state (updateUserStatus (ue_Users env) (u\<lparr>ur_Status := st\<rparr>)) w1 = (e', w2)" by fastforce
  have "view w1 = view w"
    using refresh_status_loop_keeps [OF user_world_keeps(2) [OF world]] l by (rule keeps_viewD)
  moreover have "view w2 = view w1" using updateUserStatus_keeps [OF world] s by (rule keeps_viewD)
  moreover have "u' = u\<lparr>ur_Status := st\<rparr>" "w' = w2"
    using run l s by (simp_all add: refreshStatus_def RefreshUserStatus_def)
  ultimately show ?thesis by simp
qed

text \<open>\<open>shrunk m m' P\<close>: the store only lost bindings, with \<open>P\<close>.\<close>

definition shrunk :: "(objkey \<Rightarrow> rbac_binding option) \<Rightarrow> (objkey \<Rightarrow> rbac_binding option) \<Rightarrow> (rbac_binding \<Rightarrow> bool) \<Rightarrow> bool" where
  "shrunk m m' P \<longleftrightarrow> (\<forall>k. m' k = m k \<or> m' k = None \<and> (\<exists>x. m k = Some x \<and> P x))"

lemma shrunk_refl [simp]: "shrunk m m P"
  by (simp add: shrunk_def)

lemma clean_all_run:
  assumes del: "deletes cli view get oth" and keyed: "keyed (get (view w))"
    and xs: "set xs = {x. \<exists>i. get (view w) i = Some x \<and> of_user u x}"
    and run: "run_state (clean_loop cli skip uniq xs) w = (g, w')"
  shows "oth (view w') = oth (view w)"
    and "shrunk (get (view w)) (get (view w')) (\<lambda>x. of_user u x \<and> \<not> skip x \<and> orphan uniq x)"
    and "g = Ret None \<Longrightarrow> deletes_surely cli \<Longrightarrow> get (view w') k = Some x \<Longrightarrow> of_user u x \<Longrightarrow> skip x \<or> \<not> orphan uniq x"
proof -
  note C = clean_loop_run [OF del run]
  from C show "oth (view w') = oth (view w)" by blast
  have key: "get (view w) (binding_key x) = Some x" if "x \<in> set xs" for x
    using that keyed unfolding xs keyed_def by fastforce
  show sh: "shrunk (get (view w)) (get (view w')) (\<lambda>x. of_user u x \<and> \<not> skip x \<and> orphan uniq x)"
    unfolding shrunk_def
  proof
    fix k
    from C consider "get (view w') k = get (view w) k"
      | x where "get (view w') k = None" "x \<in> set xs" "binding_key x = k" "\<not> skip x" "orphan uniq x" by blast
    then show "get (view w') k = get (view w) k \<or>
        get (view w') k = None \<and> (\<exists>x. get (view w) k = Some x \<and> of_user u x \<and> \<not> skip x \<and> orphan uniq x)"
    proof cases
      case 2
      then have "of_user u x" using xs by blast
      with 2 key [of x] show ?thesis by blast
    qed simp
  qed
  show "skip x \<or> \<not> orphan uniq x"
    if a: "g = Ret None" "deletes_surely cli" "get (view w') k = Some x" "of_user u x"
  proof (rule ccontr)
    assume b: "\<not> (skip x \<or> \<not> orphan uniq x)"
    from sh a(3) have old: "get (view w) k = Some x" unfolding shrunk_def by (metis option.distinct(1))
    then have "x \<in> set xs" and "binding_key x = k" using a(4) xs keyed unfolding keyed_def by blast+
    moreover have "\<forall>x \<in> set xs. \<not> skip x \<and> orphan uniq x \<longrightarrow> get (view w') (binding_key x) = None"
      using C a(1,2) by (elim conjE impE) assumption+
    ultimately have "get (view w') k = None" using b by auto
    with a(3) show False by simp
  qed
qed

text \<open>Which cluster role bindings \<open>cleanOrphanBindings\<close> keeps without a look.\<close>

definition keeps_gen :: "User \<Rightarrow> rbac_binding \<Rightarrow> bool" where
  "keeps_gen user x \<longleftrightarrow> isGenBinding (bi_Name x) \<and>
     (us_BelongTenants (ur_Status user) \<noteq> [] \<or> us_BelongProjectInfos (ur_Status user) \<noteq> [])"

definition uniques :: "User \<Rightarrow> string list" where
  "uniques user = map ScopeBindingUnique (ur_ScopeBindings user)"

lemma cleanOrphanBindings_run:
  assumes world: "user_world env view" and keyed: "keyed (uv_crbs (view w))" "keyed (uv_rbs (view w))"
    and run: "run_state (cleanOrphanBindings env u) w = (Ret None, w')"
  shows "shrunk (uv_crbs (view w)) (uv_crbs (view w')) (\<lambda>x. of_user (ur_Name u) x \<and> \<not> keeps_gen u x \<and> orphan (uniques u) x)"
    and "shrunk (uv_rbs (view w)) (uv_rbs (view w')) (\<lambda>x. of_user (ur_Name u) x \<and> orphan (uniques u) x)"
    and "deletes_surely (ue_Crbs env) \<Longrightarrow> uv_crbs (view w') k = Some x \<Longrightarrow> of_user (ur_Name u) x \<Longrightarrow> keeps_gen u x \<or> \<not> orphan (uniques u) x"
    and "deletes_surely (ue_Rbs env) \<Longrightarrow> uv_rbs (view w') k = Some x \<Longrightarrow> of_user (ur_Name u) x \<Longrightarrow> \<not> orphan (uniques u) x"
proof -
  let ?skip = "\<lambda>x. isGenBinding (bi_Name x) \<and>
     (us_BelongTenants (ur_Status u) \<noteq> [] \<or> us_BelongProjectInfos (ur_Status u) \<noteq> [])"
  from run obtain ls where ls: "ue_Parse env (LabelRelationship @ ''='' @ ur_Name u) = Inr ls"
    by (cases "ue_Parse env (LabelRelationship @ ''='' @ ur_Name u)") (auto simp: cleanOrphanBindings_def)
  note lsv = parse_relationship [OF world ls]
  obtain r1 w1 where l1: "run_state (ue_ListCrbs env ls) w = (r1, w1)" by fastforce
  then obtain crbs where r1: "r1 = Inr crbs" using run ls by (cases r1) (auto simp: cleanOrphanBindings_def Let_def)
  obtain g2 w2 where c1: "run_state (clean_loop (ue_Crbs env) ?skip (uniques u) crbs) w1 = (g2, w2)" by fastforce
  then have g2: "g2 = Ret None"
    using run ls l1 r1 by (cases g2) (auto simp: cleanOrphanBindings_def Let_def uniques_def split: option.splits)
  obtain r3 w3 where l2: "run_state (ue_ListRbs env ls) w2 = (r3, w3)" by fastforce
  then obtain rbs where r3: "r3 = Inr rbs"
    using run ls l1 r1 c1 g2 by (cases r3) (auto simp: cleanOrphanBindings_def Let_def uniques_def)
  have c2: "run_state (clean_loop (ue_Rbs env) (\<lambda>x. False) (uniques u) rbs) w3 = (Ret None, w')"
    using run ls l1 r1 c1 g2 l2 r3 by (simp add: cleanOrphanBindings_def Let_def uniques_def)
  from world have c: "lists_by (ue_ListCrbs env) view uv_crbs bl_Labels" "lists_by (ue_ListRbs env) view uv_rbs bl_Labels"
    "deletes (ue_Crbs env) view uv_crbs (\<lambda>v. (uv_rbs v, uv_nss v))" "deletes (ue_Rbs env) view uv_rbs (\<lambda>v. (uv_crbs v, uv_nss v))"
    by (simp_all add: user_world_def)
  note L1 = lists_run [OF c(1) l1] and L2 = lists_run [OF c(2) l2]
  have m1: "set crbs = {x. \<exists>i. uv_crbs (view w1) i = Some x \<and> of_user (ur_Name u) x}"
    and m2: "set rbs = {x. \<exists>i. uv_rbs (view w3) i = Some x \<and> of_user (ur_Name u) x}"
    using L1 L2 r1 r3 lsv by (auto simp: of_user_def)
  have k1: "keyed (uv_crbs (view w1))" using keyed L1(1) by simp
  note C1 = clean_all_run [OF c(3) k1 m1 c1]
  have v: "uv_rbs (view w3) = uv_rbs (view w)" using C1(1) L1(1) L2(1) by simp
  then have k2: "keyed (uv_rbs (view w3))" using keyed by simp
  note C2 = clean_all_run [OF c(4) k2 m2 c2]
  have v': "uv_crbs (view w') = uv_crbs (view w2)" using C2(1) L2(1) by simp
  show "shrunk (uv_crbs (view w)) (uv_crbs (view w')) (\<lambda>x. of_user (ur_Name u) x \<and> \<not> keeps_gen u x \<and> orphan (uniques u) x)"
    using C1(2) unfolding keeps_gen_def v' L1(1) .
  show "shrunk (uv_rbs (view w)) (uv_rbs (view w')) (\<lambda>x. of_user (ur_Name u) x \<and> orphan (uniques u) x)"
    using C2(2) unfolding v by simp
  show "keeps_gen u x \<or> \<not> orphan (uniques u) x"
    if "deletes_surely (ue_Crbs env)" "uv_crbs (view w') k = Some x" "of_user (ur_Name u) x"
    using C1(3) [OF g2 that(1)] that(2,3) unfolding keeps_gen_def v' .
  show "\<not> orphan (uniques u) x"
    if "deletes_surely (ue_Rbs env)" "uv_rbs (view w') k = Some x" "of_user (ur_Name u) x"
    using C2(3) [OF refl that(1)] that(2,3) by simp
qed

lemma grown_keyed: "keyed m \<Longrightarrow> grown m m' X \<Longrightarrow> keyed m'"
  unfolding keyed_def grown_def by (metis option.inject)

lemma syncUser_parts:
  assumes world: "user_world env view" and run: "run_state (syncUser env u) w = (Ret None, w')"
  obtains u' w1 where "ur_Name u' = ur_Name u" "ur_ScopeBindings u' = ur_ScopeBindings u"
    "adds (view w) (view w1)
      (platform_crbs (ue_hash env) (ur_Name u) (ur_ScopeBindings u) \<union> member_crbs (ue_hash env) (ur_Name u) (ur_ScopeBindings u))
      (ns_rbs (ue_hash env) (ur_Name u) (ur_ScopeBindings u) (uv_nss (view w)))"
    "present (uv_rbs (view w1)) (ns_rbs (ue_hash env) (ur_Name u) (ur_ScopeBindings u) (uv_nss (view w)))"
    "run_state (cleanOrphanBindings env u') w1 = (Ret None, w')"
proof -
  obtain e u' w0 where s: "run_state (refreshStatus env u) w = ((e, u'), w0)" by (metis surj_pair)
  note S = refreshStatus_run [OF world s]
  obtain e1 w1 where r: "run_state (refreshBindings env u') w0 = (e1, w1)" by fastforce
  have e: "e = None" "e1 = None" "run_state (cleanOrphanBindings env u') w1 = (Ret None, w')"
    using run s r by (auto simp: syncUser_def split: if_splits)
  from refreshBindings_run [OF world r [unfolded e(2)]] S e(3) show ?thesis
    by (intro that) auto
qed

lemma scope_key_ns_binding:
  assumes "sb_ScopeType b = TenantScope \<or> sb_ScopeType b = ProjectScope"
  shows "scope_key (ns_binding h u b ns) = None \<or> scope_key (ns_binding h u b ns) = Some (ScopeBindingUnique b)"
  using assms
  by (auto simp: scope_key_def ns_binding_def TransBinding_def label_def ScopeBindingUnique_def Let_def cluster_role_ref_def
      TenantScope_def ProjectScope_def RbacLabel_def LabelRelationship_def TenantLabel_def ProjectLabel_def PlatformLabel_def)

lemma ns_rbs_not_orphan:
  assumes "x \<in> ns_rbs h u bs nss"
  shows "\<not> orphan (map ScopeBindingUnique bs) x"
proof -
  from assms obtain b ns where b: "b \<in> set bs" "x = ns_binding h u b (me_Name ns)" "scope_covers b nss ns"
    by (auto simp: ns_rbs_def wanted_rbs_def)
  from b(3) have "sb_ScopeType b = TenantScope \<or> sb_ScopeType b = ProjectScope" by (auto simp: scope_covers_def)
  from scope_key_ns_binding [OF this, of h u "me_Name ns"] b(1,2) show ?thesis by (auto simp: orphan_def)
qed

text \<open>
  The bindings a run keeps or makes are the right ones: what stands under the name of a wanted
  binding was either made by the controller for this very role, or is new.
\<close>

definition stands_for :: "string \<Rightarrow> string \<Rightarrow> rbac_binding \<Rightarrow> bool" where
  "stands_for u role x \<longleftrightarrow> bi_Subjects x = [user_subject u] \<and> bi_RoleRef x = cluster_role_ref role"

lemma syncUser_binds:
  assumes world: "user_world env view" and keyed: "keyed (uv_crbs (view w))" "keyed (uv_rbs (view w))"
    and b: "b \<in> set (ur_ScopeBindings u)" and ns: "scope_covers b (uv_nss (view w)) ns"
    and inj: "inj_on (\<lambda>role. GenerateBindingName (ue_hash env) (ur_Name u) role (me_Name ns)) (sb_Role ` set (ur_ScopeBindings u))"
    and old: "pred_option (\<lambda>x. stands_for (ur_Name u) (sb_Role b) x \<and> \<not> orphan (uniques u) x)
      (uv_rbs (view w) (me_Name ns, GenerateBindingName (ue_hash env) (ur_Name u) (sb_Role b) (me_Name ns)))"
    and run: "run_state (syncUser env u) w = (Ret None, w')"
  shows "\<exists>x. uv_rbs (view w') (me_Name ns, GenerateBindingName (ue_hash env) (ur_Name u) (sb_Role b) (me_Name ns)) = Some x \<and>
    stands_for (ur_Name u) (sb_Role b) x"
proof -
  let ?h = "ue_hash env" and ?n = "ur_Name u" and ?bs = "ur_ScopeBindings u" and ?nss = "uv_nss (view w)"
  let ?k = "(me_Name ns, GenerateBindingName ?h ?n (sb_Role b) (me_Name ns))"
  from syncUser_parts [OF world run] obtain u' w1 where
    u': "ur_Name u' = ?n" "ur_ScopeBindings u' = ?bs"
    and a: "adds (view w) (view w1) (platform_crbs ?h ?n ?bs \<union> member_crbs ?h ?n ?bs) (ns_rbs ?h ?n ?bs ?nss)"
    and p: "present (uv_rbs (view w1)) (ns_rbs ?h ?n ?bs ?nss)"
    and c: "run_state (cleanOrphanBindings env u') w1 = (Ret None, w')" .
  have uq: "uniques u' = map ScopeBindingUnique ?bs" "uniques u = map ScopeBindingUnique ?bs" by (simp_all add: uniques_def u')
  have k1: "keyed (uv_crbs (view w1))" "keyed (uv_rbs (view w1))"
    using a keyed grown_keyed unfolding adds_def by blast+
  have "ns_binding ?h ?n b (me_Name ns) \<in> ns_rbs ?h ?n ?bs ?nss"
    using b ns by (auto simp: ns_rbs_def wanted_rbs_def)
  with p have "uv_rbs (view w1) (binding_key (ns_binding ?h ?n b (me_Name ns))) \<noteq> None"
    unfolding present_def by blast
  then obtain x where x: "uv_rbs (view w1) ?k = Some x" by (auto simp: binding_key_def ns_binding_def)
  have good: "stands_for ?n (sb_Role b) x \<and> \<not> orphan (uniques u') x"
  proof (cases "uv_rbs (view w) ?k")
    case None
    from a have "grown (uv_rbs (view w)) (uv_rbs (view w1)) (ns_rbs ?h ?n ?bs ?nss)" by (simp add: adds_def)
    with None x have "x \<in> ns_rbs ?h ?n ?bs ?nss" and key: "binding_key x = ?k" unfolding grown_def by (metis option.distinct(1) option.inject)+
    then have "\<not> orphan (uniques u') x" unfolding uq by (intro ns_rbs_not_orphan)
    moreover from \<open>x \<in> ns_rbs ?h ?n ?bs ?nss\<close> obtain b' and ns' :: meta where x': "b' \<in> set ?bs" "x = ns_binding ?h ?n b' (me_Name ns')"
      unfolding ns_rbs_def wanted_rbs_def by blast
    with key have "me_Name ns' = me_Name ns"
      "GenerateBindingName ?h ?n (sb_Role b') (me_Name ns) = GenerateBindingName ?h ?n (sb_Role b) (me_Name ns)"
      by (auto simp: binding_key_def ns_binding_def)
    with inj b x'(1) have "sb_Role b' = sb_Role b" by (meson imageI inj_onD)
    then have "stands_for ?n (sb_Role b) x" using x'(2) by (simp add: stands_for_def ns_binding_def)
    ultimately show ?thesis by blast
  next
    case (Some y)
    then have "x = y" using a x unfolding adds_def grown_def by (metis option.distinct(1) option.inject)
    with Some old show ?thesis unfolding uq by simp
  qed
  from cleanOrphanBindings_run(2) [OF world k1 c] x good have "uv_rbs (view w') ?k = Some x"
    unfolding shrunk_def by (metis option.inject)
  with good show ?thesis by blast
qed

subsection \<open>What the authorizer then answers\<close>

text \<open>The cache of the authorizer lists the role bindings of the cluster.\<close>

definition mirrors :: "cache \<Rightarrow> user_view \<Rightarrow> bool" where
  "mirrors r v \<longleftrightarrow> (\<forall>ns. \<exists>bs. ListRoleBindings r ns = Inr bs \<and> set bs = {binding.truncate x | x n. uv_rbs v (ns, n) = Some x})"

lemma Authorize_by_role_binding:
  assumes "ListRoleBindings r (at_Namespace a) = Inr bs" and "x \<in> set bs" and "names_user (at_User a) x"
    and "GetRoleReferenceRules r (bi_RoleRef x) (at_Namespace a) = Inr rules" and "rule \<in> set rules"
    and "RuleAllows a rule" and "at_Namespace a \<noteq> []"
  shows "fst (Authorize r a) = DecisionAllow"
proof -
  have "grants r (at_User a) (ListRoleBindings r (at_Namespace a)) (at_Namespace a) rule"
    unfolding grants_def using assms by blast
  then have "list_ex (allowing a) (rule_events r (at_User a) (at_Namespace a))"
    using assms(6,7) by (auto simp: rule_events_def allowing_list_events)
  then show ?thesis by (simp add: Authorize_def Let_def VisitRulesFor_until visit_auth_allowed)
qed

text \<open>
  Scope bindings take effect. When the user controller has handled a user without an
  error, then in every namespace that a tenant or project scope binding of the user covers,
  the authorizer allows the user every request that a rule of the bound cluster role allows.
  The names of the bindings must tell the user's roles apart, and what stood under the name of
  this binding before, if anything, must be the controller's own for a scope the user still has.
\<close>

lemma syncUser_authorizes:
  assumes "user_world env view" and "keyed (uv_crbs (view w))" and "keyed (uv_rbs (view w))"
    and "b \<in> set (ur_ScopeBindings u)" and "scope_covers b (uv_nss (view w)) ns"
    and "inj_on (\<lambda>role. GenerateBindingName (ue_hash env) (ur_Name u) role (me_Name ns)) (sb_Role ` set (ur_ScopeBindings u))"
    and "pred_option (\<lambda>x. stands_for (ur_Name u) (sb_Role b) x \<and> \<not> orphan (uniques u) x)
      (uv_rbs (view w) (me_Name ns, GenerateBindingName (ue_hash env) (ur_Name u) (sb_Role b) (me_Name ns)))"
    and "run_state (syncUser env u) w = (Ret None, w')"
    and "mirrors r (view w')" and "GetClusterRole r (sb_Role b) = Inr c" and "rule \<in> set (cr_Rules c)"
    and "at_User a = ur_Name u" and "at_Namespace a = me_Name ns" and "me_Name ns \<noteq> []" and "RuleAllows a rule"
  shows "fst (Authorize r a) = DecisionAllow"
proof -
  from syncUser_binds [OF assms(1-8)] obtain x where
    x: "uv_rbs (view w') (me_Name ns, GenerateBindingName (ue_hash env) (ur_Name u) (sb_Role b) (me_Name ns)) = Some x"
      "stands_for (ur_Name u) (sb_Role b) x" by blast
  from assms(9) obtain bs where bs: "ListRoleBindings r (at_Namespace a) = Inr bs"
    "set bs = {binding.truncate x | x n. uv_rbs (view w') (me_Name ns, n) = Some x}" unfolding mirrors_def assms(13) by blast
  have "binding.truncate x \<in> set bs" using x(1) bs(2) by blast
  moreover have "names_user (at_User a) (binding.truncate x)"
    using x(2) assms(12) by (simp add: names_user_def stands_for_def user_subject_def UserKind_def binding.truncate_def)
  moreover have "GetRoleReferenceRules r (bi_RoleRef (binding.truncate x)) (at_Namespace a) = Inr (cr_Rules c)"
    using x(2) assms(10) by (simp add: GetRoleReferenceRules_def stands_for_def cluster_role_ref_def binding.truncate_def)
  ultimately show ?thesis using bs(1) assms(11,13-15) by (intro Authorize_by_role_binding) simp_all
qed


subsection \<open>A deleted user\<close>

text \<open>
  A user that goes leaves nothing behind. When the controller has handled a user object
  that is being deleted and carries the finalizer without an error, no cluster role binding
  and no role binding with the relationship label of that user is left in the cluster, and all
  other bindings are as they were.
\<close>

lemma Reconcile_user_deleted:
  assumes "user_world env view" and "keyed (uv_crbs (view w))" and "keyed (uv_rbs (view w))"
    and "run_state (cl_get (ue_Users env) ([], n)) w = (Inr u, w1)"
    and "ur_DeletionTimestamp u \<noteq> None" and "finalizerUser \<in> set (ur_Finalizers u)"
    and "run_state (Reconcile_user env n) w = (Ret None, w')"
  shows "uv_crbs (view w') = without_user (ur_Name u) (uv_crbs (view w)) \<and>
         uv_rbs (view w') = without_user (ur_Name u) (uv_rbs (view w))"
proof -
  note keeps = user_world_keeps [OF assms(1)]
  have v1: "view w1 = view w" using keeps_viewD [OF keeps(1) assms(4)] .
  obtain e w2 where gc: "run_state (bindingsGc env (ur_Name u)) w1 = (e, w2)" by fastforce
  let ?fn = "do {
          r \<leftarrow> cl_get (ue_Users env) ([], ur_Name u);
          case r of
            Inl e \<Rightarrow> State_Monad.return (Some e)
          | Inr newUser \<Rightarrow> cl_update (ue_Users env)
              (newUser\<lparr>ur_Finalizers := RemoveFinalizer (ur_Finalizers u) finalizerUser\<rparr>)
        }"
  have k: "keeps_view (RetryOnConflict DefaultRetry ?fn) view"
    by (rule keeps_view_retry) (auto intro!: keeps_view_bind keeps split: sum.splits)
  have run: "run_state (removeFinalizer_user env u) w1 = (None, w')"
    using assms(4-7) by (auto simp: Reconcile_user_def split: prod.splits)
  then have e: "e = None" and "run_state (RetryOnConflict DefaultRetry ?fn) w2 = (None, w')"
    using assms(6) gc by (auto simp: removeFinalizer_user_def split: if_splits)
  with keeps_viewD [OF k] have "view w' = view w2" by blast
  moreover note bindingsGc_run [OF assms(1) _ _ gc [unfolded e], unfolded v1, OF assms(2,3)]
  ultimately show ?thesis unfolding without_user_def by simp
qed

subsection \<open>A concrete cluster\<close>

text \<open>
  A cluster as lists of objects, the first object with a key being the one that counts. Its
  clients keep every promise of \<open>user_world\<close>; the hash is the identity.
\<close>

record cluster =
  ku_users :: "User list"
  ku_projects :: "Project list"
  ku_crbs :: "rbac_binding list"
  ku_rbs :: "rbac_binding list"
  ku_nss :: "meta list"

definition cluster_env :: "cluster user_env" where
  "cluster_env =
     \<lparr>ue_Users = list_client ku_users (\<lambda>xs w. w\<lparr>ku_users := xs\<rparr>) (\<lambda>u. ([], ur_Name u)),
      ue_Projects = list_client ku_projects (\<lambda>xs w. w\<lparr>ku_projects := xs\<rparr>) (\<lambda>u. ([], pj_Name u)),
      ue_Crbs = list_client ku_crbs (\<lambda>xs w. w\<lparr>ku_crbs := xs\<rparr>) binding_key,
      ue_Rbs = list_client ku_rbs (\<lambda>xs w. w\<lparr>ku_rbs := xs\<rparr>) binding_key,
      ue_ListCrbs = list_select ku_crbs binding_key bl_Labels,
      ue_ListRbs = list_select ku_rbs binding_key bl_Labels,
      ue_ListNs = list_select ku_nss me_Name me_Labels,
      ue_Parse = parse_equality,
      ue_hash = (\<lambda>s. s)\<rparr>"

definition cluster_view :: "cluster \<Rightarrow> user_view" where
  "cluster_view w = \<lparr>uv_crbs = lookup_by binding_key (ku_crbs w), uv_rbs = lookup_by binding_key (ku_rbs w), uv_nss = lookup_by me_Name (ku_nss w)\<rparr>"

lemma cluster_keyed [simp]: "keyed (uv_crbs (cluster_view w))" "keyed (uv_rbs (cluster_view w))"
  by (auto simp: keyed_def cluster_view_def dest: lookup_by_key)

lemma list_client_creates:
  assumes "\<And>xs w. oth (view (s xs w)) = oth (view w)" and "\<And>w. get (view w) = lookup_by binding_key (g w)" and "\<And>xs w. g (s xs w) = xs"
  shows "creates (list_client g s binding_key) view get oth" and "deletes (list_client g s binding_key) view get oth"
  using assms by (simp_all add: creates_def deletes_def list_client_inserts list_client_removes)

lemma list_client_keeps:
  assumes "\<And>xs w. view (s xs w) = view w"
  shows "keeps_view (cl_get (list_client g s key) k) view" "keeps_view (cl_update (list_client g s key) x) view"
    "keeps_view (cl_status_update (list_client g s key) x) view"
  using assms by (auto simp: keeps_view_def list_client_def Let_def split: if_splits)

lemma cluster_view_simps [simp]:
  "uv_crbs (cluster_view w) = lookup_by binding_key (ku_crbs w)" "uv_rbs (cluster_view w) = lookup_by binding_key (ku_rbs w)"
  "uv_nss (cluster_view w) = lookup_by me_Name (ku_nss w)" "cluster_view (w\<lparr>ku_users := us\<rparr>) = cluster_view w"
  "cluster_view (w\<lparr>ku_projects := ps\<rparr>) = cluster_view w"
  by (simp_all add: cluster_view_def)

lemma cluster_env_simps:
  "ue_Users cluster_env = list_client ku_users (\<lambda>xs w. w\<lparr>ku_users := xs\<rparr>) (\<lambda>u. ([], ur_Name u))"
  "ue_Projects cluster_env = list_client ku_projects (\<lambda>xs w. w\<lparr>ku_projects := xs\<rparr>) (\<lambda>u. ([], pj_Name u))"
  "ue_Crbs cluster_env = list_client ku_crbs (\<lambda>xs w. w\<lparr>ku_crbs := xs\<rparr>) binding_key"
  "ue_Rbs cluster_env = list_client ku_rbs (\<lambda>xs w. w\<lparr>ku_rbs := xs\<rparr>) binding_key"
  "ue_ListCrbs cluster_env = list_select ku_crbs binding_key bl_Labels"
  "ue_ListRbs cluster_env = list_select ku_rbs binding_key bl_Labels"
  "ue_ListNs cluster_env = list_select ku_nss me_Name me_Labels"
  "ue_Parse cluster_env = parse_equality"
  by (simp_all add: cluster_env_def)

lemma cluster_world: "user_world cluster_env cluster_view"
  unfolding user_world_def cluster_env_simps
  by (intro conjI allI parse_equality_parses list_client_creates list_select_lists list_client_keeps) simp_all

lemma cluster_deletes: "deletes_surely (ue_Crbs cluster_env)" "deletes_surely (ue_Rbs cluster_env)"
  by (simp_all add: deletes_surely_def cluster_env_simps list_client_def Let_def)

definition ada :: "string \<Rightarrow> string \<Rightarrow> User" where
  "ada scopeType scopeName =
     \<lparr>ur_Name = ''ada'', ur_Finalizers = [finalizerUser], ur_DeletionTimestamp = None,
      ur_ScopeBindings = [\<lparr>sb_ScopeType = scopeType, sb_ScopeName = scopeName, sb_Role = ''reviewer''\<rparr>],
      ur_Status = \<lparr>us_BelongTenants = [], us_BelongProjectInfos = [], us_PlatformAdmin = False\<rparr>\<rparr>"

definition dev_ns :: meta where
  "dev_ns = \<lparr>me_Name = ''dev'', me_Labels = Some [(HncTenantLabel, ''t''), (HncProjectLabel, ''p'')]\<rparr>"

definition dev_cluster :: cluster where
  "dev_cluster =
     \<lparr>ku_users = [ada TenantScope ''t''],
      ku_projects = [\<lparr>pj_Name = ''p'', pj_Labels = Some [(TenantLabel, ''t'')], pj_Annotations = None, pj_Namespace = ''kubecube-project-p'', pj_IngressDomainSuffix = []\<rparr>],
      ku_crbs = [], ku_rbs = [], ku_nss = [dev_ns]\<rparr>"

definition sync_ada :: "string \<Rightarrow> string \<Rightarrow> cluster \<Rightarrow> err option go \<times> cluster" where
  "sync_ada scopeType scopeName w = run_state (syncUser cluster_env (ada scopeType scopeName)) w"

text \<open>
  A role that moves between scopes is lost. The namespace belongs to the tenant and to one
  of its projects. A first run for a user with a role in the tenant makes the role binding. The
  user's role is then moved to the project, which covers the same namespace: the run for that
  finds the binding under its name and makes none, then removes it since its label names the
  tenant, and reports no error. Only a further run makes the binding again.
\<close>

lemma syncUser_scope_switch:
  "let (r1, w1) = sync_ada TenantScope ''t'' dev_cluster;
       (r2, w2) = sync_ada ProjectScope ''p'' w1;
       (r3, w3) = sync_ada ProjectScope ''p'' w2
   in r1 = Ret None \<and> r2 = Ret None \<and> r3 = Ret None \<and>
      map binding_key (ku_rbs w1) = [(''dev'', ''ada-ada-reviewer-dev'')] \<and>
      ku_rbs w2 = [] \<and>
      map binding_key (ku_rbs w3) = [(''dev'', ''ada-ada-reviewer-dev'')]"
  by code_simp

subsection \<open>Witnesses\<close>

definition reviewer :: ClusterRole where
  "reviewer = \<lparr>cr_Name = ''reviewer'', cr_Rules = [\<lparr>pr_Verbs = [''get''], pr_APIGroups = [[]], pr_Resources = [''pods''], pr_ResourceNames = [], pr_NonResourceURLs = []\<rparr>]\<rparr>"

definition cluster_cache :: "cluster \<Rightarrow> cache" where
  "cluster_cache w =
     \<lparr>ca_user = (\<lambda>n. Inl NotFound), ca_users = Inr [], ca_role = (\<lambda>ns n. Inl NotFound),
      ca_cluster_role = (\<lambda>n. if n = ''reviewer'' then Inr reviewer else Inl NotFound),
      ca_role_bindings = (\<lambda>ns. Inr (map binding.truncate
        (filter (\<lambda>x. bi_Namespace x = ns \<and> lookup_by binding_key (ku_rbs w) (binding_key x) = Some x) (ku_rbs w)))),
      ca_cluster_role_bindings = Inr []\<rparr>"

lemma cluster_cache_mirrors: "mirrors (cluster_cache w) (cluster_view w)"
proof -
  have "lookup_by binding_key (ku_rbs w) (ns, n) = Some x \<longleftrightarrow>
     x \<in> set (ku_rbs w) \<and> bi_Namespace x = ns \<and> bi_Name x = n \<and> lookup_by binding_key (ku_rbs w) (binding_key x) = Some x" for ns n x
    using lookup_by_key [of binding_key "ku_rbs w" "(ns, n)" x] by (auto simp: binding_key_def)
  then show ?thesis unfolding mirrors_def by (auto simp: ListRoleBindings_def cluster_cache_def)
qed


end
