(* ===== verification/BindingController.thy ===== *)
theory BindingController
  imports UserController
begin

section \<open>The binding controllers of the control plane\<close>

text \<open>
  \<open>pkg/ctrlmgr/controllers/binding\<close>: a role binding or cluster role binding made by hand in
  the pivot cluster is read back into the scope bindings of a user. Which user and which scope
  it is about is taken from its name; the binding then gets the relationship label.
\<close>

record 'w binding_env =
  be_Users :: "('w, User) client"
  be_Crbs :: "('w, rbac_binding) client"
  be_Rbs :: "('w, rbac_binding) client"

subsection \<open>Definitions: names\<close>

definition in_tenant :: string where "in_tenant = ''-in-kubecube-tenant-''"
definition in_project :: string where "in_project = ''-in-kubecube-project-''"

definition parseUserInRoleBinding :: "string \<Rightarrow> string \<Rightarrow> (string \<times> string \<times> string) result" where
  "parseUserInRoleBinding name namespace =
     (let tenantInfos = Split name in_tenant;
          projectInfos = Split name in_project
      in if length tenantInfos \<noteq> 2 \<and> length projectInfos \<noteq> 2
         then Inl (Err (''parse user in RoleBinding ('' @ name @ ''/'' @ namespace @ '') failed''))
         else if length tenantInfos = 2 then
           let user = tenantInfos ! 0; tenant = tenantInfos ! 1
           in if HasPrefix namespace TenantNsPrefix \<and> tenant \<noteq> TrimPrefix namespace TenantNsPrefix
              then Inl (Err (''RoleBinding ('' @ name @ ''/'' @ namespace @ '') is not inconsistent with name and namespace''))
              else Inr (user, tenant, [])
         else
           let user = projectInfos ! 0; project = projectInfos ! 1
           in if HasPrefix namespace ProjectNsPrefix \<and> project \<noteq> TrimPrefix namespace ProjectNsPrefix
              then Inl (Err (''RoleBinding ('' @ name @ ''/'' @ namespace @ '') is not inconsistent with name and namespace''))
              else Inr (user, [], project))"

definition parseUserInClusterRoleBinding :: "string \<Rightarrow> string result" where
  "parseUserInClusterRoleBinding name =
     (if HasPrefix name ''gen-'' then Inr []
      else if \<not> HasSuffix name ''-in-cluster'' then Inl (Err (''parse user in ClusterRoleBinding '' @ name @ '' failed''))
      else Inr (TrimSuffix name ''-in-cluster''))"

definition parseUserNameWithID :: "string \<Rightarrow> string" where
  "parseUserNameWithID name = Split name ''-'' ! 0"

subsection \<open>Definitions: the handlers\<close>

definition updateRoleBinding :: "('w, rbac_binding) client \<Rightarrow> rbac_binding \<Rightarrow> ('w, err option) state" where
  "updateRoleBinding cli b = RetryOnConflict DefaultRetry (do {
     r \<leftarrow> cl_get cli (bi_Namespace b, bi_Name b);
     case r of
       Inl e \<Rightarrow> State_Monad.return (Some e)
     | Inr newBinding \<Rightarrow> cl_update cli (newBinding\<lparr>bl_Labels := bl_Labels b\<rparr>)
   })"

definition updateClusterRoleBinding :: "('w, rbac_binding) client \<Rightarrow> rbac_binding \<Rightarrow> ('w, err option) state" where
  "updateClusterRoleBinding cli b = RetryOnConflict DefaultRetry (do {
     r \<leftarrow> cl_get cli ([], bi_Name b);
     case r of
       Inl e \<Rightarrow> State_Monad.return (Some e)
     | Inr newBinding \<Rightarrow> cl_update cli (newBinding\<lparr>bl_Labels := bl_Labels b\<rparr>)
   })"

definition setBindingUserLabel :: "labels \<Rightarrow> string \<Rightarrow> labels" where
  "setBindingUserLabel ls user =
     Some (AList.update LabelRelationship user (case ls of None \<Rightarrow> [] | Some l \<Rightarrow> l))"

definition syncUserOnCreate_rb :: "'w binding_env \<Rightarrow> rbac_binding \<Rightarrow> ('w, err option) state" where
  "syncUserOnCreate_rb env rb =
     (case parseUserInRoleBinding (bi_Name rb) (bi_Namespace rb) of
        Inl e \<Rightarrow> State_Monad.return None
      | Inr (userName, tenant, project) \<Rightarrow>
          if userName @ tenant @ project = [] then State_Monad.return None
          else do {
            r \<leftarrow> cl_get (be_Users env) ([], userName);
            case r of
              Inl e \<Rightarrow> State_Monad.return (if e = NotFound then None else Some e)
            | Inr user \<Rightarrow>
                let user = (if length tenant > 0 then AddUserScopeBindings user TenantScope tenant (rr_Name (bi_RoleRef rb))
                            else if length project > 0 then AddUserScopeBindings user ProjectScope project (rr_Name (bi_RoleRef rb))
                            else user)
                in do {
                  e \<leftarrow> UpdateUserSpec (be_Users env) user;
                  if e \<noteq> None then State_Monad.return e
                  else updateRoleBinding (be_Rbs env) (rb\<lparr>bl_Labels := setBindingUserLabel (bl_Labels rb) (ur_Name user)\<rparr>)
                }
          })"

definition syncUserOnCreate_crb :: "'w binding_env \<Rightarrow> rbac_binding \<Rightarrow> ('w, err option) state" where
  "syncUserOnCreate_crb env crb =
     (case parseUserInClusterRoleBinding (bi_Name crb) of
        Inl e \<Rightarrow> State_Monad.return None
      | Inr userName \<Rightarrow>
          if userName = [] then State_Monad.return None
          else do {
            r \<leftarrow> cl_get (be_Users env) ([], userName);
            r \<leftarrow> (if r = Inl NotFound then do {
                    r \<leftarrow> cl_get (be_Users env) ([], parseUserNameWithID userName);
                    State_Monad.return (case r of Inl _ \<Rightarrow> Inl None | Inr user \<Rightarrow> Inr user)
                  }
                  else State_Monad.return (case r of Inl e \<Rightarrow> Inl (Some e) | Inr user \<Rightarrow> Inr user));
            case r of
              Inl e \<Rightarrow> State_Monad.return e
            | Inr user \<Rightarrow>
                let user = AddUserScopeBindings user PlatformScope ''platform'' (rr_Name (bi_RoleRef crb))
                in do {
                  e \<leftarrow> UpdateUserSpec (be_Users env) user;
                  if e \<noteq> None then State_Monad.return e
                  else updateClusterRoleBinding (be_Crbs env) (crb\<lparr>bl_Labels := setBindingUserLabel (bl_Labels crb) (ur_Name user)\<rparr>)
                }
          })"

definition Reconcile_role_binding :: "'w binding_env \<Rightarrow> objkey \<Rightarrow> ('w, err option) state" where
  "Reconcile_role_binding env k = do {
     r \<leftarrow> cl_get (be_Rbs env) k;
     case r of
       Inl e \<Rightarrow> State_Monad.return (if e = NotFound then None else Some e)
     | Inr rb \<Rightarrow> syncUserOnCreate_rb env rb
   }"

definition Reconcile_cluster_role_binding :: "'w binding_env \<Rightarrow> objkey \<Rightarrow> ('w, err option) state" where
  "Reconcile_cluster_role_binding env k = do {
     r \<leftarrow> cl_get (be_Crbs env) k;
     case r of
       Inl e \<Rightarrow> State_Monad.return (if e = NotFound then None else Some e)
     | Inr crb \<Rightarrow> syncUserOnCreate_crb env crb
   }"

text \<open>Both controllers see a binding when it is made and carries the label.\<close>

definition CreateFunc_binding :: "labels \<Rightarrow> bool" where
  "CreateFunc_binding ls = (case gm_get ls RbacLabel of Some v \<Rightarrow> v = ''true'' | None \<Rightarrow> False)"

subsection \<open>Which names are read\<close>

lemma split_from_first:
  assumes "\<not> Contains (u @ butlast sep) sep" and "sep \<noteq> []"
  shows "split_from sep acc (u @ sep @ t) = (rev acc @ u) # split_from sep [] t"
  using assms(1)
proof (induction u arbitrary: acc)
  case Nil
  show ?case using assms(2) by (cases sep) (auto simp: HasPrefix_iff)
next
  case (Cons c u)
  have "\<not> HasPrefix (c # u @ sep @ t) sep"
  proof
    assume "HasPrefix (c # u @ sep @ t) sep"
    then have "sep = take (length sep) ((c # u) @ sep @ t)" by (metis HasPrefix_iff append_Cons append_eq_conv_conj)
    also have "(c # u) @ sep @ t = ((c # u) @ butlast sep) @ last sep # t" using assms(2) by simp
    also have "take (length sep) \<dots> = take (length sep) ((c # u) @ butlast sep)" by (simp add: take_append take_Cons')
    finally have "(c # u) @ butlast sep = [] @ sep @ drop (length sep) ((c # u) @ butlast sep)" by (metis append_Nil append_take_drop_id)
    with Cons.prems show False unfolding Contains_iff by blast
  qed
  moreover have "\<not> Contains (u @ butlast sep) sep" using Cons.prems by (auto simp: Contains_iff) (metis append_Cons)
  ultimately show ?case using Cons.IH [of "c # acc"] by simp
qed

lemma split_from_none: "sep \<noteq> [] \<Longrightarrow> \<not> Contains t sep \<Longrightarrow> split_from sep acc t = [rev acc @ t]"
proof -
  assume a: "sep \<noteq> []" "\<not> Contains t sep"
  then have "length (split_from sep acc t) < 2" by (simp add: length_split_from)
  moreover have "split_from sep acc t \<noteq> []" by simp
  ultimately obtain x where "split_from sep acc t = [x]"
    by (cases "split_from sep acc t" rule: list.exhaust) (auto simp: less_Suc_eq numeral_2_eq_2)
  with Join_split_from [of sep acc t] show ?thesis by simp
qed

text \<open>\<open>u\<close>, the separator and \<open>t\<close> in one name can be told apart again.\<close>

definition splits_at :: "string \<Rightarrow> string \<Rightarrow> string \<Rightarrow> bool" where
  "splits_at sep u t \<longleftrightarrow> \<not> Contains (u @ butlast sep) sep \<and> \<not> Contains t sep"

lemma Split_two: "sep \<noteq> [] \<Longrightarrow> splits_at sep u t \<Longrightarrow> Split (u @ sep @ t) sep = [u, t]"
  by (simp add: splits_at_def Split_def split_from_first split_from_none)

text \<open>
  Which role bindings stand for a tenant role. From a name made of a user, the infix for
  tenants and a tenant, the user and the tenant are read back, in every namespace but those of
  other tenants. The comment in the code says that the namespace must be the tenant's own; a
  binding of that name in any namespace outside the tenants' namespaces is read just the same.
\<close>

lemma parseUserInRoleBinding_tenant:
  assumes "splits_at in_tenant u t"
  shows "case parseUserInRoleBinding (u @ in_tenant @ t) ns of
      Inr r \<Rightarrow> r = (u, t, []) \<and> ns \<notin> {TenantNsPrefix @ t' | t'. t' \<noteq> t}
    | Inl _ \<Rightarrow> ns \<in> {TenantNsPrefix @ t' | t'. t' \<noteq> t}"
proof -
  have "Split (u @ in_tenant @ t) in_tenant = [u, t]" by (rule Split_two [OF _ assms]) (simp add: in_tenant_def)
  moreover have "HasPrefix ns TenantNsPrefix \<and> t \<noteq> TrimPrefix ns TenantNsPrefix \<longleftrightarrow> ns \<in> {TenantNsPrefix @ t' | t'. t' \<noteq> t}"
    by (auto simp: HasPrefix_iff)
  ultimately show ?thesis by (simp add: parseUserInRoleBinding_def Let_def)
qed

subsection \<open>What the controllers write\<close>

record binding_view =
  bv_users :: "objkey \<Rightarrow> User option"
  bv_crbs :: "objkey \<Rightarrow> rbac_binding option"
  bv_rbs :: "objkey \<Rightarrow> rbac_binding option"

definition binding_world :: "'w binding_env \<Rightarrow> ('w \<Rightarrow> binding_view) \<Rightarrow> bool" where
  "binding_world env view \<longleftrightarrow>
     reads (be_Users env) view bv_users \<and> updates (be_Users env) (\<lambda>u. ([], ur_Name u)) view bv_users (\<lambda>v. (bv_crbs v, bv_rbs v)) \<and>
     reads (be_Crbs env) view bv_crbs \<and> updates (be_Crbs env) binding_key view bv_crbs (\<lambda>v. (bv_users v, bv_rbs v)) \<and>
     reads (be_Rbs env) view bv_rbs \<and> updates (be_Rbs env) binding_key view bv_rbs (\<lambda>v. (bv_users v, bv_crbs v))"

definition keyed_users :: "(objkey \<Rightarrow> User option) \<Rightarrow> bool" where
  "keyed_users m \<longleftrightarrow> (\<forall>k u. m k = Some u \<longrightarrow> k = ([], ur_Name u))"

lemma UpdateUserSpec_modify:
  "UpdateUserSpec cli user = retry_modify cli ([], ur_Name user) (\<lambda>n. n\<lparr>ur_ScopeBindings := ur_ScopeBindings user\<rparr>)"
  by (simp add: UpdateUserSpec_def retry_modify_def modify_once_def)

lemma updateRoleBinding_modify:
  "updateRoleBinding cli b = retry_modify cli (binding_key b) (\<lambda>n. n\<lparr>bl_Labels := bl_Labels b\<rparr>)"
  by (simp add: updateRoleBinding_def retry_modify_def modify_once_def binding_key_def)

lemma AddUserScopeBindings_same [simp]:
  "ur_Name (AddUserScopeBindings u t n r) = ur_Name u"
  "u\<lparr>ur_ScopeBindings := ur_ScopeBindings (AddUserScopeBindings u t n r)\<rparr> = AddUserScopeBindings u t n r"
  by (simp_all add: AddUserScopeBindings_def)

text \<open>The user and the binding after the handler, for either scope.\<close>

definition scope_added :: "User \<Rightarrow> string \<Rightarrow> string \<Rightarrow> string \<Rightarrow> User" where
  "scope_added u tenant project role =
     (if tenant \<noteq> [] then AddUserScopeBindings u TenantScope tenant role
      else if project \<noteq> [] then AddUserScopeBindings u ProjectScope project role else u)"

lemma scope_added_same [simp]:
  "ur_Name (scope_added u t p r) = ur_Name u"
  "u\<lparr>ur_ScopeBindings := ur_ScopeBindings (scope_added u t p r)\<rparr> = scope_added u t p r"
  by (simp_all add: scope_added_def)

text \<open>
  C18: a role binding made by hand becomes a scope binding. When the handler of a role binding
  whose name tells a user that exists returns without an error, the user has got the scope
  binding for the tenant or project of the name with the role the binding refers to, the role
  binding has got the relationship label with the name of the user, and nothing else has changed.
\<close>

theorem Reconcile_role_binding_exact:
  assumes "binding_world env view" and "keyed (bv_rbs (view w))" and "keyed_users (bv_users (view w))"
    and "bv_rbs (view w) k = Some rb" and "parseUserInRoleBinding (bi_Name rb) (bi_Namespace rb) = Inr (name, tenant, project)"
    and "bv_users (view w) ([], name) = Some u" and "name \<noteq> []"
    and "run_state (Reconcile_role_binding env k) w = (None, w')"
  shows "view w' = (view w)
    \<lparr>bv_users := (bv_users (view w))(([], name) \<mapsto> scope_added u tenant project (rr_Name (bi_RoleRef rb))),
     bv_rbs := (bv_rbs (view w))(k \<mapsto> rb\<lparr>bl_Labels := setBindingUserLabel (bl_Labels rb) name\<rparr>)\<rparr>"
proof -
  from assms(1) have c: "reads (be_Rbs env) view bv_rbs" "updates (be_Rbs env) binding_key view bv_rbs (\<lambda>v. (bv_users v, bv_crbs v))"
    "reads (be_Users env) view bv_users" "updates (be_Users env) (\<lambda>u. ([], ur_Name u)) view bv_users (\<lambda>v. (bv_crbs v, bv_rbs v))"
    by (simp_all add: binding_world_def)
  have k: "binding_key rb = k" and n: "ur_Name u = name" using assms(2,3,4,6) unfolding keyed_def keyed_users_def by blast+
  let ?u = "scope_added u tenant project (rr_Name (bi_RoleRef rb))" and ?rb = "rb\<lparr>bl_Labels := setBindingUserLabel (bl_Labels rb) name\<rparr>"
  obtain r0 w0 where g0: "run_state (cl_get (be_Rbs env) k) w = (r0, w0)" by fastforce
  note G0 = reads_run [OF c(1) g0]
  have r0: "r0 = Inr rb" using assms(4,8) g0 G0(2,3) by (cases r0) (auto simp: Reconcile_role_binding_def split: if_splits)
  obtain r1 w1 where g1: "run_state (cl_get (be_Users env) ([], name)) w0 = (r1, w1)" by fastforce
  note G1 = reads_run [OF c(3) g1]
  have run0: "run_state (syncUserOnCreate_rb env rb) w0 = (None, w')" using assms(8) g0 r0 by (simp add: Reconcile_role_binding_def)
  have r1: "r1 = Inr u"
    using run0 assms(5,6,7) g1 G1(2,3) G0(1) by (cases r1) (auto simp: syncUserOnCreate_rb_def split: if_splits)
  obtain e2 w2 where s2: "run_state (UpdateUserSpec (be_Users env) ?u) w1 = (e2, w2)" by fastforce
  have e2: "e2 = None" and s3: "run_state (updateRoleBinding (be_Rbs env) ?rb) w2 = (None, w')"
    using run0 assms(5,7) g1 r1 s2 n by (auto simp: syncUserOnCreate_rb_def scope_added_def Let_def split: if_splits)
  note S2 = retry_modify_run [OF c(3,4) s2 [unfolded UpdateUserSpec_modify]]
  note S3 = retry_modify_run [OF c(1,2) s3 [unfolded updateRoleBinding_modify]]
  have v1: "view w1 = view w" using G0(1) G1(1) by simp
  have "bv_users (view w2) = (bv_users (view w))(([], name) \<mapsto> ?u)" using S2(3) [OF e2] assms(6) n v1 by auto
  moreover have "bv_rbs (view w') = (bv_rbs (view w))(k \<mapsto> ?rb)"
    using S3(3) S2(1) v1 k assms(4) by (auto simp: binding_key_def)
  ultimately show ?thesis using S2(1) S3(1) v1 by (cases "view w'"; cases "view w") auto
qed

definition pivot_env :: "binding_view binding_env" where
  "pivot_env =
     \<lparr>be_Users = part_client bv_users (\<lambda>m v. v\<lparr>bv_users := m\<rparr>) (\<lambda>u. ([], ur_Name u)),
      be_Crbs = part_client bv_crbs (\<lambda>m v. v\<lparr>bv_crbs := m\<rparr>) binding_key,
      be_Rbs = part_client bv_rbs (\<lambda>m v. v\<lparr>bv_rbs := m\<rparr>) binding_key\<rparr>"

lemma pivot_world: "binding_world pivot_env (\<lambda>w. w)"
  unfolding binding_world_def pivot_env_def
  by (simp add: part_client_reads part_client_updates)

definition eve :: User where
  "eve = \<lparr>ur_Name = ''eve'', ur_Finalizers = [], ur_DeletionTimestamp = None, ur_ScopeBindings = [],
     ur_Status = \<lparr>us_BelongTenants = [], us_BelongProjectInfos = [], us_PlatformAdmin = False\<rparr>\<rparr>"

definition eve_binding :: rbac_binding where
  "eve_binding = \<lparr>bi_Name = ''eve-in-kubecube-tenant-bank'', bi_Namespace = ''eve-playground'', bi_Subjects = [],
     bi_RoleRef = cluster_role_ref ''tenant-admin'', bl_Labels = Some [(RbacLabel, ''true'')]\<rparr>"

definition eve_world :: binding_view where
  "eve_world = \<lparr>bv_users = [([], ''eve'') \<mapsto> eve], bv_crbs = (\<lambda>k. None), bv_rbs = [binding_key eve_binding \<mapsto> eve_binding]\<rparr>"

theorem Reconcile_role_binding_exact_witness:
  "\<exists>w'. run_state (Reconcile_role_binding pivot_env (binding_key eve_binding)) eve_world = (None, w') \<and>
     map_option ur_ScopeBindings (bv_users w' ([], ''eve'')) =
       Some [\<lparr>sb_ScopeType = ''tenant'', sb_ScopeName = ''bank'', sb_Role = ''tenant-admin''\<rparr>]"
proof -
  let ?s = "run_state (Reconcile_role_binding pivot_env (binding_key eve_binding)) eve_world"
  have "fst ?s = None" by code_simp
  then have run: "?s = (None, snd ?s)" by (simp add: prod_eq_iff)
  have p: "parseUserInRoleBinding (bi_Name eve_binding) (bi_Namespace eve_binding) = Inr (''eve'', ''bank'', [])" by code_simp
  have "keyed (bv_rbs eve_world)" "keyed_users (bv_users eve_world)" "bv_rbs eve_world (binding_key eve_binding) = Some eve_binding"
    "bv_users eve_world ([], ''eve'') = Some eve"
    by (auto simp: keyed_def keyed_users_def eve_world_def eve_def split: if_splits)
  from Reconcile_role_binding_exact [OF pivot_world this(1-3) p this(4) _ run] have "snd ?s = eve_world
    \<lparr>bv_users := (bv_users eve_world)(([], ''eve'') \<mapsto> scope_added eve ''bank'' [] (rr_Name (bi_RoleRef eve_binding))),
     bv_rbs := (bv_rbs eve_world)(binding_key eve_binding \<mapsto> eve_binding\<lparr>bl_Labels := setBindingUserLabel (bl_Labels eve_binding) ''eve''\<rparr>)\<rparr>"
    by simp
  with run show ?thesis
    by (intro exI [of _ "snd ?s"]) (simp add: scope_added_def AddUserScopeBindings_def eve_def eve_binding_def cluster_role_ref_def TenantScope_def)
qed

end
