(* ===== verification/Worker.thy ===== *)
theory Worker
  imports Prelude "HOL-Library.Multiset"
begin

section \<open>The rate limited worker\<close>

text \<open>
  \<open>pkg/utils/worker\<close>: goroutines take keys from the rate limited work queue of client-go,
  reconcile them, and put a failed key back until it has been tried too often. The queue is
  modelled as its source has it; the priority queue of delayed keys is a multiset, from which a
  key may come at any time. The goroutines take their steps in any order. Proved are that no key
  is reconciled by two goroutines at once, that a key is tried a bounded number of times, and
  that the queue runs empty when nothing is added.
\<close>

subsection \<open>Definitions: the work queue\<close>

record 'k workqueue =
  wq_queue :: "'k list"
  wq_dirty :: "'k set"
  wq_processing :: "'k set"
  wq_shuttingDown :: bool
  wq_failures :: "'k \<Rightarrow> nat"
  wq_waiting :: "'k multiset"

definition empty_workqueue :: "'k workqueue" where
  "empty_workqueue = \<lparr>wq_queue = [], wq_dirty = {}, wq_processing = {}, wq_shuttingDown = False,
     wq_failures = (\<lambda>_. 0), wq_waiting = {#}\<rparr>"

definition wq_Add :: "'k \<Rightarrow> 'k workqueue \<Rightarrow> 'k workqueue" where
  "wq_Add item q =
     (if wq_shuttingDown q then q
      else if item \<in> wq_dirty q then q
      else let q = q\<lparr>wq_dirty := insert item (wq_dirty q)\<rparr>
           in if item \<in> wq_processing q then q else q\<lparr>wq_queue := wq_queue q @ [item]\<rparr>)"

text \<open>\<open>Get\<close> waits while the queue is empty, which is \<open>None\<close> here.\<close>

definition wq_Get :: "'k workqueue \<Rightarrow> ('k \<times> 'k workqueue) option" where
  "wq_Get q =
     (case wq_queue q of
        [] \<Rightarrow> None
      | item # rest \<Rightarrow> Some (item, q\<lparr>wq_queue := rest, wq_processing := insert item (wq_processing q),
                                       wq_dirty := wq_dirty q - {item}\<rparr>))"

definition wq_Done :: "'k \<Rightarrow> 'k workqueue \<Rightarrow> 'k workqueue" where
  "wq_Done item q =
     (let q = q\<lparr>wq_processing := wq_processing q - {item}\<rparr>
      in if item \<in> wq_dirty q then q\<lparr>wq_queue := wq_queue q @ [item]\<rparr> else q)"

definition wq_ShutDown :: "'k workqueue \<Rightarrow> 'k workqueue" where
  "wq_ShutDown q = q\<lparr>wq_shuttingDown := True\<rparr>"

text \<open>
  The default rate limiter: five milliseconds doubled with each failure, at most a thousand
  seconds, in nanoseconds, or what the token bucket asks for if that is more.
\<close>

definition wq_delay :: "nat \<Rightarrow> int" where
  "wq_delay failures =
     (let backoff = 5000000 * 2 ^ failures
      in if backoff > 2 ^ 63 - 1 then 1000000000000
         else if backoff > 1000000000000 then 1000000000000 else backoff)"

definition wq_When :: "int \<Rightarrow> 'k \<Rightarrow> 'k workqueue \<Rightarrow> int \<times> 'k workqueue" where
  "wq_When bucket item q =
     (max (wq_delay (wq_failures q item)) bucket, q\<lparr>wq_failures := (wq_failures q)(item := wq_failures q item + 1)\<rparr>)"

definition wq_NumRequeues :: "'k \<Rightarrow> 'k workqueue \<Rightarrow> nat" where
  "wq_NumRequeues item q = wq_failures q item"

definition wq_Forget :: "'k \<Rightarrow> 'k workqueue \<Rightarrow> 'k workqueue" where
  "wq_Forget item q = q\<lparr>wq_failures := (wq_failures q)(item := 0)\<rparr>"

definition wq_AddAfter :: "'k \<Rightarrow> int \<Rightarrow> 'k workqueue \<Rightarrow> 'k workqueue" where
  "wq_AddAfter item duration q =
     (if wq_shuttingDown q then q
      else if duration \<le> 0 then wq_Add item q
      else q\<lparr>wq_waiting := add_mset item (wq_waiting q)\<rparr>)"

definition wq_AddRateLimited :: "int \<Rightarrow> 'k \<Rightarrow> 'k workqueue \<Rightarrow> 'k workqueue" where
  "wq_AddRateLimited bucket item q = (case wq_When bucket item q of (d, q) \<Rightarrow> wq_AddAfter item d q)"

subsection \<open>Definitions: the worker\<close>

definition maxRetries :: nat where "maxRetries = 15"

definition AddRateLimited :: "int \<Rightarrow> 'k option \<Rightarrow> 'k workqueue \<Rightarrow> 'k workqueue" where
  "AddRateLimited bucket item q = (case item of None \<Rightarrow> q | Some k \<Rightarrow> wq_AddRateLimited bucket k q)"

definition EnqueueRateLimited :: "('o \<Rightarrow> 'k option result) \<Rightarrow> int \<Rightarrow> 'o \<Rightarrow> 'k workqueue \<Rightarrow> 'k workqueue" where
  "EnqueueRateLimited keyFunc bucket obj q =
     (case keyFunc obj of Inl e \<Rightarrow> q | Inr key \<Rightarrow> AddRateLimited bucket key q)"

text \<open>\<open>terminating\<close> tells the errors with the cause of a namespace that is being deleted.\<close>

definition handleError :: "(err \<Rightarrow> bool) \<Rightarrow> int \<Rightarrow> err option \<Rightarrow> 'k \<Rightarrow> 'k workqueue \<Rightarrow> 'k workqueue" where
  "handleError terminating bucket e key q =
     (if (case e of None \<Rightarrow> True | Some er \<Rightarrow> terminating er) then wq_Forget key q
      else if wq_NumRequeues key q < maxRetries then wq_AddRateLimited bucket key q
      else wq_Forget key q)"

datatype phase = Reconciling | Handled

record 'k worker_state =
  ws_q :: "'k workqueue"
  ws_run :: "nat \<Rightarrow> ('k \<times> phase) option"

datatype 'k event =
    Enqueue int "'k option"
  | Deliver 'k
  | Merge 'k
  | Take nat
  | Finish nat 'k int "err option"
  | Finished nat
  | Stop

text \<open>
  One step of the system with \<open>n\<close> goroutines: a key is added, a delayed key becomes due, two
  delays of a key become one, a goroutine gets a key, has reconciled it and handles the error,
  is done with it, or the queue is shut down.
\<close>

inductive worker_step :: "nat \<Rightarrow> (err \<Rightarrow> bool) \<Rightarrow> 'k worker_state \<Rightarrow> 'k event \<Rightarrow> 'k worker_state \<Rightarrow> bool" for n terminating where
  enqueue: "worker_step n terminating s (Enqueue d item) (s\<lparr>ws_q := AddRateLimited d item (ws_q s)\<rparr>)"
| deliver: "k \<in># wq_waiting (ws_q s) \<Longrightarrow> \<not> wq_shuttingDown (ws_q s) \<Longrightarrow>
    worker_step n terminating s (Deliver k) (s\<lparr>ws_q := wq_Add k ((ws_q s)\<lparr>wq_waiting := wq_waiting (ws_q s) - {#k#}\<rparr>)\<rparr>)"
| merge: "2 \<le> count (wq_waiting (ws_q s)) k \<Longrightarrow>
    worker_step n terminating s (Merge k) (s\<lparr>ws_q := (ws_q s)\<lparr>wq_waiting := wq_waiting (ws_q s) - {#k#}\<rparr>\<rparr>)"
| take: "i < n \<Longrightarrow> ws_run s i = None \<Longrightarrow> wq_Get (ws_q s) = Some (k, q) \<Longrightarrow>
    worker_step n terminating s (Take i) (s\<lparr>ws_q := q, ws_run := (ws_run s)(i \<mapsto> (k, Reconciling))\<rparr>)"
| finish: "ws_run s i = Some (k, Reconciling) \<Longrightarrow>
    worker_step n terminating s (Finish i k d e)
      (s\<lparr>ws_q := handleError terminating d e k (ws_q s), ws_run := (ws_run s)(i \<mapsto> (k, Handled))\<rparr>)"
| finished: "ws_run s i = Some (k, Handled) \<Longrightarrow>
    worker_step n terminating s (Finished i) (s\<lparr>ws_q := wq_Done k (ws_q s), ws_run := (ws_run s)(i := None)\<rparr>)"
| stop: "\<not> wq_shuttingDown (ws_q s) \<Longrightarrow> worker_step n terminating s Stop (s\<lparr>ws_q := wq_ShutDown (ws_q s)\<rparr>)"

inductive worker_steps :: "nat \<Rightarrow> (err \<Rightarrow> bool) \<Rightarrow> 'k worker_state \<Rightarrow> 'k event list \<Rightarrow> 'k worker_state \<Rightarrow> bool" for n terminating where
  none: "worker_steps n terminating s [] s"
| more: "worker_step n terminating s e s' \<Longrightarrow> worker_steps n terminating s' es s'' \<Longrightarrow> worker_steps n terminating s (e # es) s''"

inductive_simps worker_step_simps:
  "worker_step n t s (Enqueue d k) s'" "worker_step n t s (Deliver k) s'" "worker_step n t s (Merge k) s'"
  "worker_step n t s (Take i) s'" "worker_step n t s (Finish i k d e) s'" "worker_step n t s (Finished i) s'" "worker_step n t s Stop s'"

inductive_simps worker_steps_simps: "worker_steps n t s [] s'" "worker_steps n t s (e # es) s'"

definition worker_init :: "'k worker_state" where
  "worker_init = \<lparr>ws_q = empty_workqueue, ws_run = (\<lambda>_. None)\<rparr>"

lemma worker_steps_invariant:
  assumes "\<And>s e s'. worker_step n t s e s' \<Longrightarrow> P e \<Longrightarrow> Q s \<Longrightarrow> Q s'" and "worker_steps n t s es s'"
  shows "Q s \<Longrightarrow> list_all P es \<Longrightarrow> Q s'"
  using assms(2) by (induction rule: worker_steps.induct) (auto dest: assms(1))

subsection \<open>No key is reconciled twice at once\<close>

text \<open>
  The invariant: the queue holds, without repetition, the dirty keys that are not being
  processed, and each key being processed is in the hands of exactly one goroutine.
\<close>

definition held :: "(nat \<Rightarrow> ('k \<times> phase) option) \<Rightarrow> 'k set" where
  "held run = {k. \<exists>i p. run i = Some (k, p)}"

definition exclusive :: "(nat \<Rightarrow> ('k \<times> phase) option) \<Rightarrow> bool" where
  "exclusive run \<longleftrightarrow> (\<forall>i j k p p'. run i = Some (k, p) \<and> run j = Some (k, p') \<longrightarrow> i = j)"

definition worker_ok :: "'k worker_state \<Rightarrow> bool" where
  "worker_ok s \<longleftrightarrow> distinct (wq_queue (ws_q s)) \<and> set (wq_queue (ws_q s)) = wq_dirty (ws_q s) - wq_processing (ws_q s) \<and>
     wq_processing (ws_q s) = held (ws_run s) \<and> exclusive (ws_run s)"

lemma held_take:
  assumes "run i = None"
  shows "held (run(i \<mapsto> (k, p))) = insert k (held run)" "exclusive run \<Longrightarrow> k \<notin> held run \<Longrightarrow> exclusive (run(i \<mapsto> (k, p)))"
  using assms by (auto simp: held_def exclusive_def split: if_splits) (metis option.distinct(1))

lemma held_finish:
  assumes "run i = Some (k, p)"
  shows "held (run(i \<mapsto> (k, p'))) = held run" "exclusive run \<Longrightarrow> exclusive (run(i \<mapsto> (k, p')))"
  using assms by (auto simp: held_def exclusive_def split: if_splits) (metis option.inject prod.inject)

lemma held_done:
  assumes "run i = Some (k, p)" and "exclusive run"
  shows "held (run(i := None)) = held run - {k}" "exclusive (run(i := None))"
  using assms by (auto simp: held_def exclusive_def split: if_splits) (metis option.inject prod.inject)

lemma wq_AddRateLimited_eq:
  "wq_AddRateLimited d k q = (let q = q\<lparr>wq_failures := (wq_failures q)(k := Suc (wq_failures q k))\<rparr>
     in if wq_shuttingDown q then q else q\<lparr>wq_waiting := add_mset k (wq_waiting q)\<rparr>)"
proof -
  have "\<not> max (wq_delay (wq_failures q k)) d \<le> 0" by (simp add: wq_delay_def Let_def)
  then show ?thesis by (simp add: wq_AddRateLimited_def wq_When_def wq_AddAfter_def Let_def del: max.bounded_iff)
qed

text \<open>Enqueueing and error handling touch only the failures and the delayed keys.\<close>

lemma rate_limited_frame [simp]:
  "wq_queue (wq_AddRateLimited d k q) = wq_queue q" "wq_dirty (wq_AddRateLimited d k q) = wq_dirty q"
  "wq_processing (wq_AddRateLimited d k q) = wq_processing q" "wq_shuttingDown (wq_AddRateLimited d k q) = wq_shuttingDown q"
  by (simp_all add: wq_AddRateLimited_eq Let_def)

lemma AddRateLimited_frame [simp]:
  "wq_queue (AddRateLimited d k q) = wq_queue q" "wq_dirty (AddRateLimited d k q) = wq_dirty q"
  "wq_processing (AddRateLimited d k q) = wq_processing q" "wq_shuttingDown (AddRateLimited d k q) = wq_shuttingDown q"
  by (simp_all add: AddRateLimited_def split: option.split)

lemma handleError_frame [simp]:
  "wq_queue (handleError t d e k q) = wq_queue q" "wq_dirty (handleError t d e k q) = wq_dirty q"
  "wq_processing (handleError t d e k q) = wq_processing q" "wq_shuttingDown (handleError t d e k q) = wq_shuttingDown q"
  by (simp_all add: handleError_def wq_Forget_def)

lemma wq_Done_frame [simp]:
  "wq_dirty (wq_Done k q) = wq_dirty q" "wq_waiting (wq_Done k q) = wq_waiting q" "wq_failures (wq_Done k q) = wq_failures q"
  "wq_shuttingDown (wq_Done k q) = wq_shuttingDown q"
  by (simp_all add: wq_Done_def Let_def)

lemma worker_ok_init: "worker_ok worker_init"
  by (simp add: worker_ok_def worker_init_def empty_workqueue_def held_def exclusive_def)

lemma worker_ok_step:
  assumes "worker_step n t s e s'" and "worker_ok s"
  shows "worker_ok s'"
  using assms(1)
proof cases
  case (take i k q)
  from take(5) obtain rest where q: "wq_queue (ws_q s) = k # rest"
    "q = (ws_q s)\<lparr>wq_queue := rest, wq_processing := insert k (wq_processing (ws_q s)), wq_dirty := wq_dirty (ws_q s) - {k}\<rparr>"
    by (auto simp: wq_Get_def split: list.splits)
  with assms(2) have "k \<notin> held (ws_run s)" unfolding worker_ok_def by auto
  with take(2) q assms(2) held_take [of "ws_run s" i, OF take(4)] show ?thesis unfolding worker_ok_def by auto
next
  case (finish i k d e)
  with assms(2) held_finish [of "ws_run s" i, OF finish(3)] show ?thesis unfolding worker_ok_def by auto
next
  case (finished i k)
  from assms(2) have "exclusive (ws_run s)" by (simp add: worker_ok_def)
  moreover have "k \<in> held (ws_run s)" using finished(3) by (auto simp: held_def)
  moreover note held_done [of "ws_run s" i, OF finished(3) \<open>exclusive (ws_run s)\<close>]
  ultimately show ?thesis
    using finished assms(2) unfolding worker_ok_def wq_Done_def Let_def by auto
qed (use assms(2) in \<open>auto simp: worker_ok_def wq_Add_def wq_ShutDown_def Let_def\<close>)

lemma worker_ok_steps: "worker_steps n t s es s' \<Longrightarrow> worker_ok s \<Longrightarrow> worker_ok s'"
  by (rule worker_steps_invariant [where P = "\<lambda>_. True"]) (auto simp: worker_ok_step list_all_iff)

text \<open>
  C14: a key is never in the hands of two goroutines. However many goroutines take their steps
  in whatever order, with keys being added, delayed and failing, two different goroutines never
  work on the same key at the same time; and no key that was added is forgotten while the other
  run goes on: a dirty key is in the queue or in the hands of a goroutine that will put it back.
\<close>

theorem worker_exclusive:
  assumes "worker_steps n t worker_init es s"
  shows "(\<forall>i j k p p'. ws_run s i = Some (k, p) \<and> ws_run s j = Some (k, p') \<longrightarrow> i = j) \<and>
    (\<forall>k \<in> wq_dirty (ws_q s). k \<in> set (wq_queue (ws_q s)) \<or> (\<exists>i p. ws_run s i = Some (k, p)))"
  using worker_ok_steps [OF assms worker_ok_init] unfolding worker_ok_def exclusive_def held_def by blast

subsection \<open>A key is tried a bounded number of times\<close>

definition reconciling :: "'k worker_state \<Rightarrow> 'k \<Rightarrow> bool" where
  "reconciling s k \<longleftrightarrow> (\<exists>i. ws_run s i = Some (k, Reconciling))"

text \<open>How many runs of a key are still to come, its retries apart.\<close>

definition tokens :: "'k worker_state \<Rightarrow> 'k \<Rightarrow> nat" where
  "tokens s k = count (wq_waiting (ws_q s)) k + of_bool (k \<in> wq_dirty (ws_q s)) + of_bool (reconciling s k)"

definition runs :: "'k \<Rightarrow> 'k event list \<Rightarrow> nat" where
  "runs k es = length (filter (\<lambda>e. case e of Finish _ k' _ _ \<Rightarrow> k' = k | _ \<Rightarrow> False) es)"

definition enqueues :: "'k \<Rightarrow> 'k event \<Rightarrow> bool" where
  "enqueues k e \<longleftrightarrow> (\<exists>d. e = Enqueue d (Some k))"

lemma reconciling_take:
  "ws_run s i = None \<Longrightarrow> reconciling (s\<lparr>ws_q := q, ws_run := (ws_run s)(i \<mapsto> (k, Reconciling))\<rparr>) x \<longleftrightarrow> x = k \<or> reconciling s x"
  by (auto simp: reconciling_def) (metis option.distinct(1))

lemma reconciling_finish:
  "ws_run s i = Some (k, Reconciling) \<Longrightarrow> exclusive (ws_run s) \<Longrightarrow>
     reconciling (s\<lparr>ws_q := q, ws_run := (ws_run s)(i \<mapsto> (k, Handled))\<rparr>) x \<longleftrightarrow> x \<noteq> k \<and> reconciling s x"
  by (auto simp: reconciling_def exclusive_def) (metis option.inject prod.inject phase.distinct(1))+

lemma reconciling_finished:
  "ws_run s i = Some (k, Handled) \<Longrightarrow> reconciling (s\<lparr>ws_q := q, ws_run := (ws_run s)(i := None)\<rparr>) x \<longleftrightarrow> reconciling s x"
  by (auto simp: reconciling_def) (metis option.inject prod.inject phase.distinct(1))

lemma reconciling_q [simp]: "reconciling (s\<lparr>ws_q := q\<rparr>) x \<longleftrightarrow> reconciling s x"
  by (simp add: reconciling_def)

text \<open>What each step does to the runs to come and to the failures of a key.\<close>

lemma tokens_enqueue:
  "tokens (s\<lparr>ws_q := AddRateLimited d item (ws_q s)\<rparr>) x =
     tokens s x + of_bool (item = Some x \<and> \<not> wq_shuttingDown (ws_q s))"
  "wq_failures (AddRateLimited d item (ws_q s)) x = wq_failures (ws_q s) x + of_bool (item = Some x)"
  by (auto simp: tokens_def AddRateLimited_def wq_AddRateLimited_eq Let_def split: option.split)

lemma tokens_deliver:
  assumes "k \<in># wq_waiting (ws_q s)" and "\<not> wq_shuttingDown (ws_q s)"
  shows "tokens (s\<lparr>ws_q := wq_Add k ((ws_q s)\<lparr>wq_waiting := wq_waiting (ws_q s) - {#k#}\<rparr>)\<rparr>) x =
     tokens s x - of_bool (x = k \<and> k \<in> wq_dirty (ws_q s))"
proof -
  from assms(1) have "0 < count (wq_waiting (ws_q s)) k" by simp
  then show ?thesis using assms(2) by (auto simp: tokens_def wq_Add_def Let_def)
qed

lemma tokens_merge:
  "2 \<le> count (wq_waiting (ws_q s)) k \<Longrightarrow>
     tokens (s\<lparr>ws_q := (ws_q s)\<lparr>wq_waiting := wq_waiting (ws_q s) - {#k#}\<rparr>\<rparr>) x = tokens s x - of_bool (x = k)"
  by (auto simp: tokens_def)

lemma tokens_take:
  assumes "worker_ok s" and "ws_run s i = None" and "wq_Get (ws_q s) = Some (k, q)"
  shows "tokens (s\<lparr>ws_q := q, ws_run := (ws_run s)(i \<mapsto> (k, Reconciling))\<rparr>) x = tokens s x" and "wq_failures q = wq_failures (ws_q s)"
proof -
  from assms(3) obtain rest where q: "wq_queue (ws_q s) = k # rest"
    "q = (ws_q s)\<lparr>wq_queue := rest, wq_processing := insert k (wq_processing (ws_q s)), wq_dirty := wq_dirty (ws_q s) - {k}\<rparr>"
    by (auto simp: wq_Get_def split: list.splits)
  with assms(1) have "k \<in> wq_dirty (ws_q s)" "k \<notin> held (ws_run s)" unfolding worker_ok_def by auto
  then have "\<not> reconciling s k" by (auto simp: reconciling_def held_def)
  with \<open>k \<in> wq_dirty (ws_q s)\<close> q(2) show "tokens (s\<lparr>ws_q := q, ws_run := (ws_run s)(i \<mapsto> (k, Reconciling))\<rparr>) x = tokens s x"
    by (auto simp: tokens_def reconciling_take [OF assms(2)])
  show "wq_failures q = wq_failures (ws_q s)" using q(2) by simp
qed

text \<open>A finished run is the end of a key, or a retry, or, when shutting down, a lost retry.\<close>

lemma tokens_finish:
  assumes "worker_ok s" and "ws_run s i = Some (k, Reconciling)"
    and s'_def: "s' = s\<lparr>ws_q := handleError t d e k (ws_q s), ws_run := (ws_run s)(i \<mapsto> (k, Handled))\<rparr>"
  shows "x \<noteq> k \<Longrightarrow> tokens s' x = tokens s x \<and> wq_failures (ws_q s') x = wq_failures (ws_q s) x"
    and "0 < tokens s k \<and> (tokens s' k = tokens s k - 1 \<and> wq_waiting (ws_q s') = wq_waiting (ws_q s) \<or>
      tokens s' k = tokens s k \<and> wq_waiting (ws_q s') = add_mset k (wq_waiting (ws_q s)) \<and>
      wq_failures (ws_q s) k < maxRetries \<and> wq_failures (ws_q s') k = Suc (wq_failures (ws_q s) k))"
proof -
  from assms(1) have ex: "exclusive (ws_run s)" by (simp add: worker_ok_def)
  note r = reconciling_finish [OF assms(2) ex]
  show "tokens s' x = tokens s x \<and> wq_failures (ws_q s') x = wq_failures (ws_q s) x" if "x \<noteq> k"
    using that by (auto simp: s'_def tokens_def r handleError_def wq_Forget_def wq_AddRateLimited_eq Let_def)
  have "reconciling s k" using assms(2) by (auto simp: reconciling_def)
  then show "0 < tokens s k \<and> (tokens s' k = tokens s k - 1 \<and> wq_waiting (ws_q s') = wq_waiting (ws_q s) \<or>
      tokens s' k = tokens s k \<and> wq_waiting (ws_q s') = add_mset k (wq_waiting (ws_q s)) \<and>
      wq_failures (ws_q s) k < maxRetries \<and> wq_failures (ws_q s') k = Suc (wq_failures (ws_q s) k))"
    by (auto simp: s'_def tokens_def r handleError_def wq_Forget_def wq_AddRateLimited_eq wq_NumRequeues_def Let_def)
qed

lemma tokens_finished:
  assumes "ws_run s i = Some (k, Handled)"
  shows "tokens (s\<lparr>ws_q := wq_Done k (ws_q s), ws_run := (ws_run s)(i := None)\<rparr>) x = tokens s x"
    and "wq_failures (wq_Done k (ws_q s)) = wq_failures (ws_q s)"
  by (auto simp: tokens_def reconciling_finished [OF assms] wq_Done_def Let_def)

text \<open>At most one run to come, and more failures on record than runs done.\<close>

definition retry_inv :: "'k \<Rightarrow> nat \<Rightarrow> 'k worker_state \<Rightarrow> bool" where
  "retry_inv k m s \<longleftrightarrow> worker_ok s \<and> m \<le> maxRetries \<and> tokens s k \<le> 1 \<and>
     (tokens s k = 1 \<longrightarrow> m < wq_failures (ws_q s) k \<and> wq_failures (ws_q s) k \<le> maxRetries)"

lemma retry_inv_step:
  assumes "worker_step n t s e s'" and "retry_inv k m s" and "\<not> enqueues k e"
  shows "retry_inv k (m + runs k [e]) s'"
proof -
  from assms(2) have ok: "worker_ok s" by (simp add: retry_inv_def)
  from assms(1) ok have ok': "worker_ok s'" by (rule worker_ok_step)
  from assms(1) show ?thesis
  proof cases
    case (enqueue d item)
    with assms(3) have "item \<noteq> Some k" by (auto simp: enqueues_def)
    with enqueue ok' assms(2) show ?thesis by (simp add: retry_inv_def runs_def tokens_enqueue)
  next
    case (deliver x)
    have "wq_failures (ws_q s') = wq_failures (ws_q s)" using deliver(2) by (simp add: wq_Add_def Let_def)
    with deliver ok' assms(2) show ?thesis by (auto simp: retry_inv_def runs_def tokens_deliver)
  next
    case (merge x)
    with ok' assms(2) show ?thesis by (auto simp: retry_inv_def runs_def tokens_merge)
  next
    case (take i x q)
    with ok' assms(2) tokens_take [OF ok take(4,5)] show ?thesis by (simp add: retry_inv_def runs_def)
  next
    case (finish i x d er)
    note F = tokens_finish [OF ok finish(3) finish(2)]
    show ?thesis
    proof (cases "x = k")
      case True
      with F(2) finish(1) ok' assms(2) show ?thesis by (auto simp: retry_inv_def runs_def)
    next
      case False
      with F(1) [of k] finish(1) ok' assms(2) show ?thesis by (auto simp: retry_inv_def runs_def)
    qed
  next
    case (finished i x)
    with ok' assms(2) tokens_finished [OF finished(3)] show ?thesis by (simp add: retry_inv_def runs_def)
  next
    case stop
    with ok' assms(2) show ?thesis by (simp add: retry_inv_def runs_def tokens_def wq_ShutDown_def)
  qed
qed

lemma runs_Cons: "runs k (e # es) = runs k [e] + runs k es"
  by (simp add: runs_def)

lemma retry_inv_steps:
  "worker_steps n t s es s' \<Longrightarrow> retry_inv k m s \<Longrightarrow> list_all (\<lambda>e. \<not> enqueues k e) es \<Longrightarrow> retry_inv k (m + runs k es) s'"
proof (induction arbitrary: m rule: worker_steps.induct)
  case (none s)
  then show ?case by (simp add: runs_def)
next
  case (more s e s' es s'')
  from more.prems have "\<not> enqueues k e" "list_all (\<lambda>e. \<not> enqueues k e) es" by simp_all
  from more.IH [OF retry_inv_step [OF more.hyps(1) more.prems(1) this(1)] this(2)] show ?case
    unfolding runs_Cons [of k e es] by (simp only: add.assoc)
qed

text \<open>
  C16: a key is given up after fifteen runs. From the moment a key with no run to come and no
  failure on record is enqueued, and as long as it is not enqueued from outside again, it is
  reconciled at most \<open>maxRetries\<close> times, whatever its runs return and whatever else happens
  in between.
\<close>

theorem worker_retries_bounded:
  assumes "worker_steps n t worker_init es\<^sub>0 s" and "tokens s k = 0" and "wq_failures (ws_q s) k = 0"
    and "worker_steps n t (s\<lparr>ws_q := AddRateLimited d (Some k) (ws_q s)\<rparr>) es s'"
    and "list_all (\<lambda>e. \<not> enqueues k e) es"
  shows "runs k es \<le> maxRetries"
proof -
  let ?s = "s\<lparr>ws_q := AddRateLimited d (Some k) (ws_q s)\<rparr>"
  have "worker_ok s" using assms(1) worker_ok_init by (rule worker_ok_steps)
  then have "worker_ok ?s" by (simp add: worker_ok_def)
  then have "retry_inv k 0 ?s"
    using assms(2,3) by (simp add: retry_inv_def tokens_enqueue maxRetries_def)
  from retry_inv_steps [OF assms(4) this assms(5)] show ?thesis by (simp add: retry_inv_def)
qed

text \<open>The bound is reached: a key that always fails is given up in its fifteenth run.\<close>

definition delayed :: "'k \<Rightarrow> nat \<Rightarrow> 'k worker_state" where
  "delayed k f = \<lparr>ws_q = empty_workqueue\<lparr>wq_failures := (\<lambda>_. 0)(k := f), wq_waiting := {#k#}\<rparr>, ws_run = (\<lambda>_. None)\<rparr>"

definition failing_round :: "'k \<Rightarrow> 'k event list" where
  "failing_round k = [Deliver k, Take 0, Finish 0 k 0 (Some Conflict), Finished 0]"

lemma no_failures [simp]: "(\<lambda>_. 0 :: nat)(k := 0) = (\<lambda>_. 0)"
  by auto

lemma failing_round_steps:
  "f < maxRetries \<Longrightarrow> worker_steps 1 (\<lambda>_. False) (delayed k f) (failing_round k) (delayed k (Suc f))"
  "worker_steps 1 (\<lambda>_. False) (delayed k maxRetries) (failing_round k) worker_init"
  by (simp_all add: failing_round_def worker_steps_simps worker_step_simps delayed_def empty_workqueue_def worker_init_def
      wq_Add_def wq_Get_def wq_Done_def handleError_def wq_Forget_def wq_NumRequeues_def wq_AddRateLimited_eq Let_def)

lemma worker_steps_append:
  "worker_steps n t s es s' \<Longrightarrow> worker_steps n t s' es' s'' \<Longrightarrow> worker_steps n t s (es @ es') s''"
  by (induction rule: worker_steps.induct) (auto intro: worker_steps.more)

lemma failing_rounds_steps:
  "f + m \<le> maxRetries \<Longrightarrow> worker_steps 1 (\<lambda>_. False) (delayed k f) (concat (replicate m (failing_round k))) (delayed k (f + m))"
proof (induction m arbitrary: f)
  case 0
  show ?case by (simp add: worker_steps.none)
next
  case (Suc m)
  from Suc.prems have "f < maxRetries" by simp
  from worker_steps_append [OF failing_round_steps(1) [OF this] Suc.IH] Suc.prems show ?case by simp
qed

lemma always_failing_run:
  "worker_steps 1 (\<lambda>_. False) (worker_init\<lparr>ws_q := AddRateLimited 0 (Some k) (ws_q worker_init)\<rparr>)
     (concat (replicate 15 (failing_round k))) worker_init"
proof -
  have "worker_init\<lparr>ws_q := AddRateLimited 0 (Some k) (ws_q worker_init)\<rparr> = delayed k 1"
    by (simp add: worker_init_def delayed_def AddRateLimited_def wq_AddRateLimited_eq empty_workqueue_def Let_def)
  moreover have "concat (replicate 15 (failing_round k)) = concat (replicate 14 (failing_round k)) @ failing_round k"
    by (simp add: numeral_eq_Suc replicate_append_same [symmetric])
  moreover have "worker_steps 1 (\<lambda>_. False) (delayed k 1) (concat (replicate 14 (failing_round k))) (delayed k maxRetries)"
    using failing_rounds_steps [of 1 14 k] by (simp add: maxRetries_def)
  ultimately show ?thesis using worker_steps_append failing_round_steps(2) by metis
qed

theorem worker_retries_bounded_witness:
  "worker_steps 1 (\<lambda>_. False) (worker_init\<lparr>ws_q := AddRateLimited 0 (Some ''k'') (ws_q worker_init)\<rparr>)
     (concat (replicate 15 (failing_round ''k''))) worker_init \<and>
   runs ''k'' (concat (replicate 15 (failing_round ''k''))) \<le> maxRetries \<and>
   runs ''k'' (concat (replicate 15 (failing_round ''k''))) = maxRetries"
proof -
  have "list_all (\<lambda>e. \<not> enqueues ''k'' e) (concat (replicate 15 (failing_round ''k'')))"
    by (simp add: failing_round_def enqueues_def numeral_eq_Suc)
  from worker_retries_bounded [OF worker_steps.none _ _ always_failing_run this]
  have "runs ''k'' (concat (replicate 15 (failing_round ''k''))) \<le> maxRetries"
    by (simp add: tokens_def reconciling_def worker_init_def empty_workqueue_def)
  moreover have "runs ''k'' (concat (replicate 15 (failing_round ''k''))) = maxRetries"
    by (simp add: failing_round_def runs_def numeral_eq_Suc maxRetries_def)
  ultimately show ?thesis using always_failing_run [of "''k''"] by (intro conjI)
qed

subsection \<open>The queue runs empty\<close>

text \<open>
  Every step but an addition makes the queue weigh less: a run to come weighs more than all the
  failures that may still be counted, and what is left of a run less with each of its stages.
\<close>

definition handled :: "'k worker_state \<Rightarrow> 'k \<Rightarrow> bool" where
  "handled s k \<longleftrightarrow> (\<exists>i. ws_run s i = Some (k, Handled))"

definition weight :: "'k worker_state \<Rightarrow> 'k \<Rightarrow> nat" where
  "weight s k = 8 * (16 * tokens s k + (15 - wq_failures (ws_q s) k)) + 4 * count (wq_waiting (ws_q s)) k +
     3 * of_bool (k \<in> wq_dirty (ws_q s)) + 2 * of_bool (reconciling s k) + of_bool (handled s k)"

definition active :: "'k worker_state \<Rightarrow> 'k set" where
  "active s = set_mset (wq_waiting (ws_q s)) \<union> wq_dirty (ws_q s) \<union> held (ws_run s)"

definition potential :: "'k set \<Rightarrow> 'k worker_state \<Rightarrow> nat" where
  "potential K s = (\<Sum>k \<in> K. weight s k) + of_bool (\<not> wq_shuttingDown (ws_q s))"

definition internal :: "'k event \<Rightarrow> bool" where
  "internal e \<longleftrightarrow> (\<forall>d k. e \<noteq> Enqueue d k)"

lemma handled_q [simp]: "handled (s\<lparr>ws_q := q\<rparr>) x \<longleftrightarrow> handled s x"
  by (simp add: handled_def)

lemma handled_take:
  "ws_run s i = None \<Longrightarrow> handled (s\<lparr>ws_q := q, ws_run := (ws_run s)(i \<mapsto> (k, Reconciling))\<rparr>) x \<longleftrightarrow> handled s x"
  by (auto simp: handled_def) (metis option.distinct(1))

lemma handled_finish:
  "ws_run s i = Some (k, Reconciling) \<Longrightarrow> handled (s\<lparr>ws_q := q, ws_run := (ws_run s)(i \<mapsto> (k, Handled))\<rparr>) x \<longleftrightarrow> x = k \<or> handled s x"
  by (auto simp: handled_def) (metis option.inject prod.inject phase.distinct(1))

lemma handled_finished:
  "ws_run s i = Some (k, Handled) \<Longrightarrow> exclusive (ws_run s) \<Longrightarrow>
     handled (s\<lparr>ws_q := q, ws_run := (ws_run s)(i := None)\<rparr>) x \<longleftrightarrow> x \<noteq> k \<and> handled s x"
  by (auto simp: handled_def exclusive_def) (metis option.inject prod.inject)+

lemma held_split: "k \<in> held (ws_run s) \<longleftrightarrow> reconciling s k \<or> handled s k"
  by (auto simp: held_def reconciling_def handled_def) (metis phase.exhaust)

text \<open>The step is about one active key, whose weight falls; that of the others stays.\<close>

lemma weight_step:
  assumes "worker_step n t s e s'" and "worker_ok s" and "internal e" and "e \<noteq> Stop"
  shows "\<exists>k \<in> active s. weight s' k < weight s k \<and> (\<forall>x. x \<noteq> k \<longrightarrow> weight s' x = weight s x)"
  using assms(1)
proof cases
  case (deliver k)
  from deliver(3) obtain c where c: "count (wq_waiting (ws_q s)) k = Suc c" by (metis count_greater_zero_iff gr0_implies_Suc)
  from deliver(4) c have "weight s' k < weight s k" "x \<noteq> k \<Longrightarrow> weight s' x = weight s x" for x
    by (auto simp: weight_def deliver(2) tokens_deliver [OF deliver(3,4)] wq_Add_def Let_def tokens_def)
  with deliver(3) show ?thesis by (intro bexI [of _ k]) (auto simp: active_def)
next
  case (merge k)
  then have "weight s' k < weight s k" "x \<noteq> k \<Longrightarrow> weight s' x = weight s x" for x
    by (auto simp: weight_def tokens_merge)
  moreover have "k \<in># wq_waiting (ws_q s)" using merge(3) by (simp add: count_inI)
  ultimately show ?thesis by (intro bexI [of _ k]) (auto simp: active_def)
next
  case (take i k q)
  from take(5) obtain rest where q: "wq_queue (ws_q s) = k # rest"
    "q = (ws_q s)\<lparr>wq_queue := rest, wq_processing := insert k (wq_processing (ws_q s)), wq_dirty := wq_dirty (ws_q s) - {k}\<rparr>"
    by (auto simp: wq_Get_def split: list.splits)
  with assms(2) have k: "k \<in> wq_dirty (ws_q s)" "k \<notin> held (ws_run s)" unfolding worker_ok_def by auto
  have fr: "tokens s' x = tokens s x" "reconciling s' x \<longleftrightarrow> x = k \<or> reconciling s x" "handled s' x \<longleftrightarrow> handled s x"
    "wq_dirty (ws_q s') = wq_dirty (ws_q s) - {k}" "wq_waiting (ws_q s') = wq_waiting (ws_q s)" "wq_failures (ws_q s') = wq_failures (ws_q s)" for x
    using tokens_take [OF assms(2) take(4,5)] reconciling_take [OF take(4)] handled_take [OF take(4)] q(2) by (simp_all add: take(2))
  have "weight s' k < weight s k" "x \<noteq> k \<Longrightarrow> weight s' x = weight s x" for x
    using k by (auto simp: weight_def fr held_split)
  with k(1) show ?thesis by (intro bexI [of _ k]) (auto simp: active_def)
next
  case (finish i k d er)
  from assms(2) have ex: "exclusive (ws_run s)" by (simp add: worker_ok_def)
  note F = tokens_finish [OF assms(2) finish(3,2)]
  have rec: "reconciling s k" "\<not> handled s k"
    using finish(3) ex by (auto simp: reconciling_def handled_def exclusive_def) (metis option.inject prod.inject phase.distinct(1))
  have fr: "reconciling s' x \<longleftrightarrow> x \<noteq> k \<and> reconciling s x" "handled s' x \<longleftrightarrow> x = k \<or> handled s x"
    "wq_dirty (ws_q s') = wq_dirty (ws_q s)" for x
    by (simp_all add: finish(2) reconciling_finish [OF finish(3) ex] handled_finish [OF finish(3)])
  have "weight s' k < weight s k"
    using F(2) rec by (auto simp: weight_def fr maxRetries_def)
  moreover have "weight s' x = weight s x" if "x \<noteq> k" for x
    using F(1) [OF that] F(2) that by (auto simp: weight_def fr)
  moreover have "k \<in> active s" using rec by (auto simp: active_def held_split)
  ultimately show ?thesis by (intro bexI [of _ k]) auto
next
  case (finished i k)
  from assms(2) have ex: "exclusive (ws_run s)" by (simp add: worker_ok_def)
  have "handled s k" using finished(3) by (auto simp: handled_def)
  then have "weight s' k < weight s k" "x \<noteq> k \<Longrightarrow> weight s' x = weight s x" for x
    by (auto simp: weight_def finished(2) tokens_finished [OF finished(3)] reconciling_finished [OF finished(3)]
        handled_finished [OF finished(3) ex])
  with \<open>handled s k\<close> show ?thesis by (intro bexI [of _ k]) (auto simp: active_def held_split)
qed (use assms(3,4) in \<open>auto simp: internal_def\<close>)

lemma active_internal:
  assumes "worker_step n t s e s'" and "worker_ok s" and "internal e"
  shows "active s' \<subseteq> active s \<and> (wq_shuttingDown (ws_q s) \<longrightarrow> wq_shuttingDown (ws_q s')) \<and>
    (e \<noteq> Stop \<longrightarrow> wq_shuttingDown (ws_q s') = wq_shuttingDown (ws_q s))"
  using assms(1)
proof cases
  case (take i k q)
  from take(5) obtain rest where q: "wq_queue (ws_q s) = k # rest"
    "q = (ws_q s)\<lparr>wq_queue := rest, wq_processing := insert k (wq_processing (ws_q s)), wq_dirty := wq_dirty (ws_q s) - {k}\<rparr>"
    by (auto simp: wq_Get_def split: list.splits)
  with assms(2) have "k \<in> wq_dirty (ws_q s)" unfolding worker_ok_def by auto
  with q(2) take(2,4) show ?thesis by (auto simp: active_def held_take)
next
  case (finish i k d er)
  from tokens_finish(2) [OF assms(2) finish(3,2)] have "set_mset (wq_waiting (ws_q s')) \<subseteq> insert k (set_mset (wq_waiting (ws_q s)))" by auto
  moreover have "k \<in> held (ws_run s)" using finish(3) by (auto simp: held_def)
  ultimately show ?thesis using finish(2) held_finish [of "ws_run s" i k Reconciling Handled, OF finish(3)] by (auto simp: active_def)
next
  case (finished i k)
  from assms(2) have "exclusive (ws_run s)" by (simp add: worker_ok_def)
  from held_done(1) [of "ws_run s" i, OF finished(3) this] finished(2) show ?thesis by (auto simp: active_def)
qed (use assms(3) in \<open>auto simp: internal_def active_def wq_Add_def wq_ShutDown_def Let_def dest: in_diffD\<close>)

lemma active_enqueue: "active (s\<lparr>ws_q := AddRateLimited d item (ws_q s)\<rparr>) \<subseteq> active s \<union> set_option item"
  by (auto simp: active_def AddRateLimited_def wq_AddRateLimited_eq Let_def split: option.splits if_splits)

lemma active_finite:
  assumes "worker_steps n t s es s'" and "worker_ok s" and "finite (active s)"
  shows "finite (active s')"
proof -
  have step: "worker_ok s' \<and> finite (active s')" if st: "worker_step n t s e s'" and ok: "worker_ok s \<and> finite (active s)" for s e and s' :: "'a worker_state"
  proof (cases "internal e")
    case True
    with st ok active_internal worker_ok_step show ?thesis by (meson finite_subset)
  next
    case False
    then obtain d item where e: "e = Enqueue d item" by (auto simp: internal_def)
    from st have "s' = s\<lparr>ws_q := AddRateLimited d item (ws_q s)\<rparr>" unfolding e by (simp add: worker_step_simps)
    with active_enqueue [where s = s and d = d and item = item] ok worker_ok_step [OF st] show ?thesis by (auto intro: finite_subset)
  qed
  from worker_steps_invariant [where P = "\<lambda>_. True" and Q = "\<lambda>s. worker_ok s \<and> finite (active s)", OF step assms(1)] assms(2,3)
  show ?thesis by (auto simp: list_all_iff)
qed

lemma potential_step:
  assumes "worker_step n t s e s'" and "worker_ok s" and "internal e" and "finite K" and "active s \<subseteq> K"
  shows "potential K s' < potential K s"
proof (cases "e = Stop")
  case True
  with assms(1) have "\<not> wq_shuttingDown (ws_q s)" "s' = s\<lparr>ws_q := wq_ShutDown (ws_q s)\<rparr>" by (auto simp: worker_step_simps)
  moreover from this(2) have "weight s' = weight s" by (auto simp: weight_def tokens_def wq_ShutDown_def)
  ultimately show ?thesis by (simp add: potential_def wq_ShutDown_def)
next
  case False
  from weight_step [OF assms(1-3) False] obtain k where k: "k \<in> active s" "weight s' k < weight s k" "\<And>x. x \<noteq> k \<Longrightarrow> weight s' x = weight s x"
    by blast
  have "(\<Sum>x \<in> K. weight s' x) < (\<Sum>x \<in> K. weight s x)"
    using k assms(4,5) by (intro sum_strict_mono_ex1) (force intro: less_imp_le)+
  moreover from active_internal [OF assms(1-3)] False have "wq_shuttingDown (ws_q s') = wq_shuttingDown (ws_q s)" by blast
  ultimately show ?thesis by (simp add: potential_def)
qed

lemma internal_steps_bounded:
  "worker_steps n t s es s' \<Longrightarrow> worker_ok s \<Longrightarrow> list_all internal es \<Longrightarrow> finite K \<Longrightarrow> active s \<subseteq> K \<Longrightarrow>
     length es + potential K s' \<le> potential K s"
proof (induction rule: worker_steps.induct)
  case (more s e s' es s'')
  from more.prems have "internal e" by simp
  note st = more.hyps(1) more.prems(1) this
  have "potential K s' < potential K s" using st more.prems(3,4) by (rule potential_step)
  moreover have "worker_ok s'" "active s' \<subseteq> K"
    using worker_ok_step [OF st(1,2)] active_internal [OF st] more.prems(4) by auto
  ultimately show ?case using more.IH more.prems(2,3) by simp
qed simp

text \<open>As long as a key is active, some goroutine or the delay can go on.\<close>

lemma worker_progress:
  assumes "worker_ok s" and "0 < n" and "active s \<noteq> {}" and "\<not> wq_shuttingDown (ws_q s)"
  shows "\<exists>e s'. worker_step n t s e s' \<and> internal e \<and> e \<noteq> Stop"
proof (cases "held (ws_run s) = {}")
  case False
  then obtain i k p where "ws_run s i = Some (k, p)" by (auto simp: held_def)
  then consider "ws_run s i = Some (k, Reconciling)" | "ws_run s i = Some (k, Handled)" by (cases p) auto
  then show ?thesis
  proof cases
    case 1
    from worker_step.finish [OF this, of n t 0 None] show ?thesis by (fastforce simp: internal_def)
  next
    case 2
    from worker_step.finished [OF this, of n t] show ?thesis by (fastforce simp: internal_def)
  qed
next
  case none: True
  show ?thesis
  proof (cases "wq_waiting (ws_q s) = {#}")
    case True
    with none assms(3) have "wq_dirty (ws_q s) \<noteq> {}" by (auto simp: active_def)
    with assms(1) none have "wq_queue (ws_q s) \<noteq> []" by (auto simp: worker_ok_def)
    then obtain k q where "wq_Get (ws_q s) = Some (k, q)" by (cases "wq_queue (ws_q s)") (auto simp: wq_Get_def)
    have "ws_run s 0 = None" using none by (cases "ws_run s 0") (auto simp: held_def)
    note worker_step.take [OF assms(2) this \<open>wq_Get (ws_q s) = Some (k, q)\<close>, of t]
    then show ?thesis by (fastforce simp: internal_def)
  next
    case False
    then obtain k where "k \<in># wq_waiting (ws_q s)" by blast
    from worker_step.deliver [OF this assms(4), of n t] show ?thesis by (fastforce simp: internal_def)
  qed
qed

text \<open>
  C15: the queue runs empty. From every state that can come about there is a bound on how many
  steps can follow while nothing is added; and where no such step is left, with at least one
  goroutine and the queue not shut down, no key is delayed, queued or being worked on. So every
  key that was added is taken, reconciled, retried and finally let go.
\<close>

theorem worker_drains:
  assumes "worker_steps n t worker_init es\<^sub>0 s"
  shows "\<exists>N. \<forall>es s'. worker_steps n t s es s' \<and> list_all internal es \<longrightarrow>
    length es \<le> N \<and> (0 < n \<and> \<not> wq_shuttingDown (ws_q s') \<and> (\<nexists>e s''. worker_step n t s' e s'' \<and> internal e \<and> e \<noteq> Stop) \<longrightarrow> active s' = {})"
proof (intro exI [of _ "potential (active s) s"] allI impI)
  fix es s'
  assume a: "worker_steps n t s es s' \<and> list_all internal es"
  have ok: "worker_ok s" using assms worker_ok_init by (rule worker_ok_steps)
  have "finite (active s)"
    by (rule active_finite [OF assms worker_ok_init]) (simp add: active_def worker_init_def empty_workqueue_def held_def)
  from internal_steps_bounded [OF _ ok _ this order_refl] a have "length es \<le> potential (active s) s" by fastforce
  moreover have "worker_ok s'" using a ok worker_ok_steps by blast
  ultimately show "length es \<le> potential (active s) s \<and>
      (0 < n \<and> \<not> wq_shuttingDown (ws_q s') \<and> (\<nexists>e s''. worker_step n t s' e s'' \<and> internal e \<and> e \<noteq> Stop) \<longrightarrow> active s' = {})"
    using worker_progress by blast
qed

subsection \<open>Witnesses\<close>

definition busy :: "string worker_state" where
  "busy = \<lparr>ws_q = \<lparr>wq_queue = [], wq_dirty = {''k''}, wq_processing = {''k''}, wq_shuttingDown = False,
       wq_failures = (\<lambda>_. 0)(''k'' := 2), wq_waiting = {#}\<rparr>, ws_run = [0 \<mapsto> (''k'', Reconciling)]\<rparr>"

lemma busy_steps:
  "worker_steps 2 (\<lambda>_. False) worker_init
     [Enqueue 0 (Some ''k''), Deliver ''k'', Take 0, Enqueue 0 (Some ''k''), Deliver ''k''] busy"
  by (auto simp: worker_steps_simps worker_step_simps worker_init_def busy_def empty_workqueue_def AddRateLimited_def
      wq_AddRateLimited_eq wq_Add_def wq_Get_def Let_def fun_upd_def numeral_2_eq_2)

theorem worker_exclusive_witness:
  "''k'' \<in> wq_dirty (ws_q busy) \<and> {j. \<exists>p. ws_run busy j = Some (''k'', p)} = {0}"
proof -
  have b: "ws_run busy 0 = Some (''k'', Reconciling)" "''k'' \<in> wq_dirty (ws_q busy)" by (simp_all add: busy_def)
  with worker_exclusive [OF busy_steps] show ?thesis by blast
qed

lemma delayed_steps: "worker_steps 1 (\<lambda>_. False) worker_init [Enqueue 0 (Some ''k'')] (delayed ''k'' 1)"
  by (simp add: worker_steps_simps worker_step_simps worker_init_def delayed_def empty_workqueue_def AddRateLimited_def
      wq_AddRateLimited_eq Let_def)

lemma quiet_init: "\<not> (worker_step 1 (\<lambda>_. False) worker_init e s \<and> internal e \<and> e \<noteq> Stop)"
  by (auto simp: worker_init_def empty_workqueue_def wq_Get_def internal_def elim!: worker_step.cases)

theorem worker_drains_witness:
  "active (delayed ''k'' 1) \<noteq> {} \<and> active (worker_init :: string worker_state) = {} \<and>
   (\<exists>N. length (concat (replicate 15 (failing_round ''k''))) \<le> N)"
proof -
  have "active (delayed ''k'' 1) \<noteq> {}" by (simp add: active_def delayed_def)
  moreover have "delayed ''k'' 1 = worker_init\<lparr>ws_q := AddRateLimited 0 (Some ''k'') (ws_q worker_init)\<rparr>"
    by (simp add: worker_init_def delayed_def AddRateLimited_def wq_AddRateLimited_eq empty_workqueue_def Let_def)
  then have run: "worker_steps 1 (\<lambda>_. False) (delayed ''k'' 1) (concat (replicate 15 (failing_round ''k''))) worker_init"
    using always_failing_run [of "''k''"] by simp
  have "list_all internal (concat (replicate 15 (failing_round ''k'')))"
    by (simp add: failing_round_def internal_def numeral_eq_Suc)
  note int = this
  have on: "\<not> wq_shuttingDown (ws_q (worker_init :: string worker_state))" by (simp add: worker_init_def empty_workqueue_def)
  from worker_drains [OF delayed_steps] obtain N where N:
    "\<And>es s'. worker_steps 1 (\<lambda>_. False) (delayed ''k'' 1) es s' \<and> list_all internal es \<Longrightarrow> length es \<le> N \<and>
       (0 < (1 :: nat) \<and> \<not> wq_shuttingDown (ws_q s') \<and> (\<nexists>e s''. worker_step 1 (\<lambda>_. False) s' e s'' \<and> internal e \<and> e \<noteq> Stop) \<longrightarrow> active s' = {})"
    by blast
  from N [OF conjI [OF run int]] on quiet_init
  have "length (concat (replicate 15 (failing_round ''k''))) \<le> N" "active (worker_init :: string worker_state) = {}" by blast+
  ultimately show ?thesis by blast
qed

end
