(* ===== verification/TenantProject.thy ===== *)
theory TenantProject
  imports UserController
begin

section \<open>The tenant and project controllers of the warden\<close>

text \<open>
  \<open>pkg/warden/localmgr/controllers/tenant\<close> and \<open>project\<close>: each tenant and each project gets
  its namespace, with the labels from which the user controller tells which scopes cover it, and
  the namespaces go when the object goes. The selector parser, the listing of namespaces and
  the deletion of quotas by label are arguments.
\<close>

record Namespace = meta +
  nm_Annotations :: labels

record Tenant =
  tn_Name :: string
  tn_Labels :: labels
  tn_Annotations :: labels
  tn_Namespace :: string

record 'w tenant_env =
  te_Tenants :: "('w, Tenant) client"
  te_Projects :: "('w, Project) client"
  te_Nss :: "('w, Namespace) client"
  te_ListNs :: "string \<times> string \<Rightarrow> ('w, Namespace list result) state"
  te_DeleteQuotas :: "string \<times> string \<Rightarrow> ('w, err option) state"
  te_Parse :: "string \<Rightarrow> (string \<times> string) result"
  te_CreateHNCNs :: bool

definition SyncAnnotation :: string where "SyncAnnotation = ''kubecube.io/sync''"
definition HncAnnotation :: string where "HncAnnotation = ''hnc.x-k8s.io/subnamespace-of''"
definition HncIncludedNsLabel :: string where "HncIncludedNsLabel = ''hnc.x-k8s.io/included-namespace''"
definition depth_suffix :: string where "depth_suffix = ''.tree.hnc.x-k8s.io/depth''"

definition ns_key :: "Namespace \<Rightarrow> objkey" where
  "ns_key ns = ([], me_Name ns)"

definition bare_ns :: "string \<Rightarrow> Namespace" where
  "bare_ns name = \<lparr>me_Name = name, me_Labels = None, nm_Annotations = None\<rparr>"

subsection \<open>Definitions: tenants\<close>

definition add_sync :: "labels \<Rightarrow> labels" where
  "add_sync ano = Some (AList.update SyncAnnotation ''1'' (case ano of None \<Rightarrow> [] | Some l \<Rightarrow> l))"

definition tenant_namespace :: "string \<Rightarrow> Namespace" where
  "tenant_namespace tenant =
     \<lparr>me_Name = ''kubecube-tenant-'' @ tenant,
      me_Labels = Some [(HncIncludedNsLabel, ''true''), (''kubecube-tenant-'' @ tenant @ depth_suffix, ''0'')],
      nm_Annotations = Some [(''hnc.x-k8s.io/ns'', ''true'')]\<rparr>"

definition create_ns :: "'w tenant_env \<Rightarrow> Namespace \<Rightarrow> ('w, err option) state" where
  "create_ns env ns = do {
     e \<leftarrow> cl_create (te_Nss env) ns;
     State_Monad.return (if e \<noteq> None \<and> e \<noteq> Some AlreadyExists then e else None)
   }"

definition crateTenantNamespace :: "'w tenant_env \<Rightarrow> string \<Rightarrow> ('w, err option) state" where
  "crateTenantNamespace env tenant = create_ns env (tenant_namespace tenant)"

text \<open>
  \<open>PollUntilContextTimeout\<close> asks every two seconds for two minutes: sixty times at most, after
  which it returns the error of the expired context.
\<close>

definition waitPolls :: nat where
  "waitPolls = 120 div 2"

fun poll_deleted :: "('w, Namespace) client \<Rightarrow> string \<Rightarrow> nat \<Rightarrow> ('w, err option) state" where
  "poll_deleted cli name 0 = State_Monad.return (Some (Err ''context deadline exceeded''))"
| "poll_deleted cli name (Suc n) = do {
     r \<leftarrow> cl_get cli ([], name);
     if r = Inl NotFound then State_Monad.return None else poll_deleted cli name n
   }"

definition deleteNSofTenant :: "'w tenant_env \<Rightarrow> string \<Rightarrow> ('w, err option) state" where
  "deleteNSofTenant env tenantName =
     (let name = TenantNsPrefix @ tenantName
      in do {
        r \<leftarrow> cl_get (te_Nss env) ([], name);
        case r of
          Inl e \<Rightarrow> State_Monad.return (if e = NotFound then None else Some (Err ''get namespace of tenant err''))
        | Inr ns \<Rightarrow> do {
            e \<leftarrow> cl_delete (te_Nss env) ns;
            if e \<noteq> None then State_Monad.return e else poll_deleted (te_Nss env) name waitPolls
          }
      })"

definition deleteCubeResourceQuotaOfTenant :: "'w tenant_env \<Rightarrow> string \<Rightarrow> ('w, err option) state" where
  "deleteCubeResourceQuotaOfTenant env tenantName = do {
     e \<leftarrow> te_DeleteQuotas env (TenantLabel, tenantName);
     State_Monad.return (IgnoreNotFound e)
   }"

definition deleteTenant :: "'w tenant_env \<Rightarrow> string \<Rightarrow> ('w, err option) state" where
  "deleteTenant env tenantName = do {
     e \<leftarrow> deleteNSofTenant env tenantName;
     if e \<noteq> None then State_Monad.return e else deleteCubeResourceQuotaOfTenant env tenantName
   }"

definition normal_tenant :: "string \<Rightarrow> Tenant \<Rightarrow> Tenant" where
  "normal_tenant name t =
     (let t = t\<lparr>tn_Namespace := TenantNsPrefix @ name\<rparr>
      in if gm_has (tn_Annotations t) SyncAnnotation then t else t\<lparr>tn_Annotations := add_sync (tn_Annotations t)\<rparr>)"

definition Reconcile_tenant :: "'w tenant_env \<Rightarrow> string \<Rightarrow> ('w, err option) state" where
  "Reconcile_tenant env name = do {
     r \<leftarrow> cl_get (te_Tenants env) ([], name);
     case r of
       Inl e \<Rightarrow> if e = NotFound then deleteTenant env name else State_Monad.return None
     | Inr tenant \<Rightarrow>
         let needUpdate = (tn_Namespace tenant \<noteq> TenantNsPrefix @ name \<or> \<not> gm_has (tn_Annotations tenant) SyncAnnotation);
             tenant = normal_tenant name tenant
         in do {
           e \<leftarrow> (if needUpdate then cl_update (te_Tenants env) tenant else State_Monad.return None);
           if e \<noteq> None then State_Monad.return e
           else if te_CreateHNCNs env then crateTenantNamespace env (tn_Name tenant)
           else State_Monad.return None
         }
   }"

subsection \<open>Definitions: projects\<close>

definition project_namespace :: "string \<Rightarrow> string \<Rightarrow> Namespace" where
  "project_namespace tenant project =
     \<lparr>me_Name = ''kubecube-project-'' @ project,
      me_Labels = Some [(HncIncludedNsLabel, ''true''), (''kubecube-project-'' @ project @ depth_suffix, ''0''),
        (''kubecube-tenant-'' @ tenant @ depth_suffix, ''1''), (HncProjectLabel, project), (HncTenantLabel, tenant)],
      nm_Annotations = Some [(HncAnnotation, ''kubecube-tenant-'' @ tenant)]\<rparr>"

definition crateProjectNamespace :: "'w tenant_env \<Rightarrow> string \<Rightarrow> string \<Rightarrow> ('w, err option) state" where
  "crateProjectNamespace env tenant project = create_ns env (project_namespace tenant project)"

fun delete_nss :: "('w, Namespace) client \<Rightarrow> Namespace list \<Rightarrow> err option list \<Rightarrow> ('w, err option list) state" where
  "delete_nss cli [] errs = State_Monad.return errs"
| "delete_nss cli (ns # nss) errs = do {
     e \<leftarrow> cl_delete cli ns;
     delete_nss cli nss (if e \<noteq> None \<and> e \<noteq> Some NotFound then errs @ [Some (Err ''delete ns'')] else errs)
   }"

definition deleteSubNSOfProject :: "'w tenant_env \<Rightarrow> string \<Rightarrow> ('w, err option) state" where
  "deleteSubNSOfProject env projectName =
     (case te_Parse env ((ProjectNsPrefix @ projectName @ depth_suffix) @ ''='' @ ''1'') of
        Inl e \<Rightarrow> State_Monad.return (Some e)
      | Inr ls \<Rightarrow> do {
          r \<leftarrow> te_ListNs env ls;
          case r of
            Inl e \<Rightarrow> State_Monad.return (Some e)
          | Inr nss \<Rightarrow> do {
              errs \<leftarrow> delete_nss (te_Nss env) nss [];
              State_Monad.return (NewAggregate errs)
            }
        })"

definition deleteProject :: "'w tenant_env \<Rightarrow> string \<Rightarrow> ('w, err option) state" where
  "deleteProject env projectName = do {
     e \<leftarrow> deleteSubNSOfProject env projectName;
     if e \<noteq> None then State_Monad.return e
     else do {
       e \<leftarrow> cl_delete (te_Nss env) (bare_ns (ProjectNsPrefix @ projectName));
       State_Monad.return (if e = Some NotFound then e else None)
     }
   }"

definition normal_project :: "string \<Rightarrow> Project \<Rightarrow> Project" where
  "normal_project name p =
     (let p = p\<lparr>pj_Namespace := ProjectNsPrefix @ name\<rparr>
      in if gm_has (pj_Annotations p) SyncAnnotation then p else p\<lparr>pj_Annotations := add_sync (pj_Annotations p)\<rparr>)"

definition Reconcile_project :: "'w tenant_env \<Rightarrow> string \<Rightarrow> ('w, err option) state" where
  "Reconcile_project env name = do {
     r \<leftarrow> cl_get (te_Projects env) ([], name);
     case r of
       Inl e \<Rightarrow> if e = NotFound then deleteProject env name else State_Monad.return None
     | Inr project \<Rightarrow>
         let needUpdate = (pj_Namespace project \<noteq> ProjectNsPrefix @ name \<or> \<not> gm_has (pj_Annotations project) SyncAnnotation);
             project = normal_project name project
         in do {
           e \<leftarrow> (if needUpdate then cl_update (te_Projects env) project else State_Monad.return None);
           if e \<noteq> None then State_Monad.return e
           else (case gm_get (pj_Labels project) TenantLabel of
                   None \<Rightarrow> State_Monad.return (Some (Err ''do not content tenant label''))
                 | Some tenantName \<Rightarrow> do {
                     r \<leftarrow> cl_get (te_Tenants env) ([], tenantName);
                     case r of
                       Inl e \<Rightarrow> State_Monad.return (Some e)
                     | Inr tenant \<Rightarrow>
                         if tn_Namespace tenant = [] then State_Monad.return (Some (Err ''the tenant do not content .spec.namespace''))
                         else if te_CreateHNCNs env then crateProjectNamespace env tenantName (pj_Name project)
                         else State_Monad.return None
                   })
         }
   }"

subsection \<open>What the controllers rely on\<close>

record tenant_view =
  tv_tenants :: "objkey \<Rightarrow> Tenant option"
  tv_projects :: "objkey \<Rightarrow> Project option"
  tv_nss :: "objkey \<Rightarrow> Namespace option"

definition tenant_world :: "'w tenant_env \<Rightarrow> ('w \<Rightarrow> tenant_view) \<Rightarrow> bool" where
  "tenant_world env view \<longleftrightarrow>
     reads (te_Tenants env) view tv_tenants \<and>
     reads (te_Projects env) view tv_projects \<and>
     updates (te_Projects env) (\<lambda>p. ([], pj_Name p)) view tv_projects (\<lambda>v. (tv_tenants v, tv_nss v)) \<and>
     inserts (te_Nss env) ns_key view tv_nss (\<lambda>v. (tv_tenants v, tv_projects v)) \<and>
     removes (te_Nss env) ns_key view tv_nss (\<lambda>v. (tv_tenants v, tv_projects v)) \<and>
     lists_by (te_ListNs env) view tv_nss me_Labels \<and> parses_equality (te_Parse env)"

subsection \<open>A project has a namespace that its scopes cover\<close>

lemma labels_distinct [simp]:
  "HncIncludedNsLabel \<noteq> HncProjectLabel" "HncIncludedNsLabel \<noteq> HncTenantLabel" "HncProjectLabel \<noteq> HncTenantLabel"
  "HncProjectLabel \<noteq> HncIncludedNsLabel" "HncTenantLabel \<noteq> HncIncludedNsLabel" "HncTenantLabel \<noteq> HncProjectLabel"
  by (simp_all add: HncIncludedNsLabel_def HncProjectLabel_def HncTenantLabel_def)

lemma create_ns_run:
  assumes "inserts (te_Nss env) ns_key view tv_nss oth" and "run_state (create_ns env ns) w = (None, w')"
  shows "oth (view w') = oth (view w) \<and>
    (tv_nss (view w) (ns_key ns) = None \<and> tv_nss (view w') = (tv_nss (view w))(ns_key ns \<mapsto> ns) \<or>
     tv_nss (view w) (ns_key ns) \<noteq> None \<and> tv_nss (view w') = tv_nss (view w))"
proof -
  obtain e w1 where c: "run_state (cl_create (te_Nss env) ns) w = (e, w1)" by fastforce
  with assms(2) have "w' = w1" "e = None \<or> e = Some AlreadyExists" by (auto simp: create_ns_def split: if_splits)
  with inserts_run [OF assms(1) c] show ?thesis by auto
qed

lemma project_namespace_labels:
  "gm_get (me_Labels (project_namespace tenant project)) HncProjectLabel = Some project"
  "gm_get (me_Labels (project_namespace tenant project)) HncTenantLabel = Some tenant"
  by (simp_all add: project_namespace_def HncIncludedNsLabel_def HncProjectLabel_def HncTenantLabel_def)

lemma normal_project_simps [simp]:
  "pj_Name (normal_project n p) = pj_Name p" "pj_Labels (normal_project n p) = pj_Labels p"
  "pj_Namespace (normal_project n p) = ProjectNsPrefix @ n"
  "pj_IngressDomainSuffix (normal_project n p) = pj_IngressDomainSuffix p"
  by (simp_all add: normal_project_def Let_def)

lemma normal_project_id:
  "pj_Namespace p = ProjectNsPrefix @ n \<Longrightarrow> gm_has (pj_Annotations p) SyncAnnotation \<Longrightarrow> normal_project n p = p"
  by (simp add: normal_project_def Let_def)

lemma gm_has_add_sync [simp]: "gm_has (add_sync ano) SyncAnnotation"
  by (simp add: gm_has_def add_sync_def)

lemma normal_project_sync: "gm_has (pj_Annotations (normal_project n p)) SyncAnnotation"
  by (simp add: normal_project_def Let_def)

text \<open>The update of the project, when there is one, leaves the store with the normal project.\<close>

lemma project_update_run:
  assumes "updates cli (\<lambda>p. ([], pj_Name p)) view tv_projects oth" and "tv_projects (view w) ([], n) = Some p" and "pj_Name p = n"
    and "run_state (if pj_Namespace p \<noteq> ProjectNsPrefix @ n \<or> \<not> gm_has (pj_Annotations p) SyncAnnotation
       then cl_update cli (normal_project n p) else State_Monad.return None) w = (None, w')"
  shows "oth (view w') = oth (view w) \<and> tv_projects (view w') = (tv_projects (view w))(([], n) \<mapsto> normal_project n p)"
proof (cases "pj_Namespace p \<noteq> ProjectNsPrefix @ n \<or> \<not> gm_has (pj_Annotations p) SyncAnnotation")
  case True
  with assms(4) have "run_state (cl_update cli (normal_project n p)) w = (None, w')" by simp
  with assms(1,3) show ?thesis unfolding updates_def by fastforce
next
  case False
  with assms(4) have "w' = w" by simp
  with False assms(2) show ?thesis by (auto simp: normal_project_id)
qed

text \<open>
  A project gets its namespace. When the controller has read a project, handled it without an
  error and creates namespaces, the project names its namespace and carries the annotation for the
  synchronisation, its tenant label names a tenant that exists, the namespace of the project is
  there, and if it was not there before, the scope bindings for the project and for its tenant,
  whatever their roles, cover it. Nothing else has changed.
\<close>

lemma Reconcile_project_provides:
  assumes "tenant_world env view" and "te_CreateHNCNs env"
    and "run_state (cl_get (te_Projects env) ([], n)) w = (Inr p, w0)" and "pj_Name p = n"
    and "run_state (Reconcile_project env n) w = (None, w')"
  shows "\<exists>tenant ns. gm_get (pj_Labels p) TenantLabel = Some tenant \<and> tv_tenants (view w) ([], tenant) \<noteq> None \<and>
    view w' = (view w)\<lparr>tv_projects := (tv_projects (view w))(([], n) \<mapsto> normal_project n p),
                       tv_nss := (tv_nss (view w))(([], ProjectNsPrefix @ n) \<mapsto> ns)\<rparr> \<and>
    (case tv_nss (view w) ([], ProjectNsPrefix @ n) of
       Some old \<Rightarrow> ns = old
     | None \<Rightarrow> scope_covers \<lparr>sb_ScopeType = ProjectScope, sb_ScopeName = n, sb_Role = role\<rparr> [me_Name ns \<mapsto> meta.truncate ns] (meta.truncate ns) \<and>
               scope_covers \<lparr>sb_ScopeType = TenantScope, sb_ScopeName = tenant, sb_Role = role\<rparr> [me_Name ns \<mapsto> meta.truncate ns] (meta.truncate ns))"
proof -
  from assms(1) have c: "reads (te_Projects env) view tv_projects" "reads (te_Tenants env) view tv_tenants"
    "updates (te_Projects env) (\<lambda>p. ([], pj_Name p)) view tv_projects (\<lambda>v. (tv_tenants v, tv_nss v))"
    "inserts (te_Nss env) ns_key view tv_nss (\<lambda>v. (tv_tenants v, tv_projects v))"
    by (simp_all add: tenant_world_def)
  note G = reads_run [OF c(1) assms(3)]
  let ?P = "pj_Namespace p \<noteq> ProjectNsPrefix @ n \<or> \<not> gm_has (pj_Annotations p) SyncAnnotation"
  obtain e1 w1 where u: "run_state (if ?P then cl_update (te_Projects env) (normal_project n p) else State_Monad.return None) w0 = (e1, w1)"
    by fastforce
  have e1: "e1 = None" using assms(3,5) u by (auto simp: Reconcile_project_def Let_def split: if_splits)
  have "tv_projects (view w0) ([], n) = Some p" using G by simp
  note U = project_update_run [OF c(3) this assms(4) u [unfolded e1]]
  obtain tenant where t: "gm_get (pj_Labels p) TenantLabel = Some tenant"
    using assms(3,5) u e1 by (cases "gm_get (pj_Labels p) TenantLabel") (auto simp: Reconcile_project_def Let_def)
  obtain r2 w2 where gt: "run_state (cl_get (te_Tenants env) ([], tenant)) w1 = (r2, w2)" by fastforce
  note T = reads_run [OF c(2) gt]
  obtain tn where r2: "r2 = Inr tn" and ne: "tn_Namespace tn \<noteq> []"
    using assms(3,5) u e1 t gt by (cases r2) (auto simp: Reconcile_project_def Let_def split: if_splits)
  have cr: "run_state (create_ns env (project_namespace tenant n)) w2 = (None, w')"
    using assms(2-5) u e1 t gt r2 ne by (auto simp: Reconcile_project_def Let_def crateProjectNamespace_def split: if_splits)
  have key: "ns_key (project_namespace tenant n) = ([], ProjectNsPrefix @ n)" by (simp add: ns_key_def project_namespace_def ProjectNsPrefix_def)
  note C = create_ns_run [OF c(4) cr, unfolded key]
  have v: "view w2 = (view w)\<lparr>tv_projects := (tv_projects (view w))(([], n) \<mapsto> normal_project n p)\<rparr>"
    using U G(1) T(1) by (cases "view w2"; cases "view w") auto
  obtain ns where ns: "tv_nss (view w') = (tv_nss (view w))(([], ProjectNsPrefix @ n) \<mapsto> ns)"
    "case tv_nss (view w) ([], ProjectNsPrefix @ n) of Some old \<Rightarrow> ns = old | None \<Rightarrow> ns = project_namespace tenant n"
  proof (cases "tv_nss (view w) ([], ProjectNsPrefix @ n)")
    case None
    with C v show ?thesis by (intro that [of "project_namespace tenant n"]) auto
  next
    case (Some old)
    with C v show ?thesis by (intro that [of old]) auto
  qed
  have "view w' = (view w)\<lparr>tv_projects := (tv_projects (view w))(([], n) \<mapsto> normal_project n p),
                       tv_nss := (tv_nss (view w))(([], ProjectNsPrefix @ n) \<mapsto> ns)\<rparr>"
    using C v ns(1) by (cases "view w'"; cases "view w") auto
  moreover have "tv_tenants (view w) ([], tenant) \<noteq> None" using T(2) [OF r2] v T(1) by simp
  ultimately show ?thesis
    using t ns(2) project_namespace_labels [of tenant n]
    by (intro exI [of _ tenant] exI [of _ ns] conjI)
      (auto simp: scope_covers_def meta.truncate_def split: option.splits)
qed

subsection \<open>A project that is gone\<close>

text \<open>An API server that answers: deletions fail for missing objects and no others, lists do not fail.\<close>

definition healthy :: "'w tenant_env \<Rightarrow> ('w \<Rightarrow> tenant_view) \<Rightarrow> bool" where
  "healthy env view \<longleftrightarrow>
     (\<forall>w x e w'. run_state (cl_delete (te_Nss env) x) w = (e, w') \<longrightarrow>
        e = (if tv_nss (view w) (ns_key x) = None then Some NotFound else None)) \<and>
     (\<forall>ls w r w'. run_state (te_ListNs env ls) w = (r, w') \<longrightarrow> (\<exists>nss. r = Inr nss)) \<and> (\<forall>s. \<exists>ls. te_Parse env s = Inr ls)"

lemma delete_nss_run:
  assumes "removes cli ns_key view tv_nss oth" and "\<And>w x e w'. run_state (cl_delete cli x) w = (e, w') \<Longrightarrow> e = None \<or> e = Some NotFound"
    and "run_state (delete_nss cli nss errs) w = (errs', w')"
  shows "errs' = errs \<and> oth (view w') = oth (view w) \<and>
    tv_nss (view w') = (\<lambda>k. if k \<in> ns_key ` set nss then None else tv_nss (view w) k)"
  using assms(3)
proof (induction nss arbitrary: w errs)
  case (Cons ns nss)
  obtain e w1 where d: "run_state (cl_delete cli ns) w = (e, w1)" by fastforce
  note R = removes_run [OF assms(1) d]
  have e: "e = None \<or> e = Some NotFound" using assms(2) d by blast
  then have "tv_nss (view w1) = (tv_nss (view w))(ns_key ns := None)" using R(2-4) by (auto simp: fun_upd_idem)
  moreover have "run_state (delete_nss cli nss errs) w1 = (errs', w')" using Cons.prems d e by auto
  note IH = Cons.IH [OF this]
  ultimately show ?case using R(1) by (intro conjI ext) auto
qed simp

definition keyed_nss :: "(objkey \<Rightarrow> Namespace option) \<Rightarrow> bool" where
  "keyed_nss m \<longleftrightarrow> (\<forall>k ns. m k = Some ns \<longrightarrow> k = ns_key ns)"

text \<open>The namespaces directly below a project.\<close>

definition below :: "string \<Rightarrow> Namespace option \<Rightarrow> bool" where
  "below n x \<longleftrightarrow> (\<exists>ns. x = Some ns \<and> gm_get (me_Labels ns) (ProjectNsPrefix @ n @ depth_suffix) = Some ''1'')"

lemma deleteSubNS_run:
  assumes world: "tenant_world env view" and h: "healthy env view" and k: "keyed_nss (tv_nss (view w))" and n: "CHR ''='' \<notin> set n"
    and run: "run_state (deleteSubNSOfProject env n) w = (e, w')"
  shows "e = None \<and> tv_nss (view w') = (\<lambda>k. if below n (tv_nss (view w) k) then None else tv_nss (view w) k)"
proof -
  let ?key = "ProjectNsPrefix @ n @ depth_suffix"
  have nk: "CHR ''='' \<notin> set ?key" using n by (simp add: ProjectNsPrefix_def depth_suffix_def)
  from h obtain ls where p: "te_Parse env (?key @ ''='' @ ''1'') = Inr ls" unfolding healthy_def by blast
  with world nk have ls: "ls = (?key, ''1'')" unfolding tenant_world_def parses_equality_def by blast
  obtain r w1 where l: "run_state (te_ListNs env ls) w = (r, w1)" by fastforce
  with h obtain nss where r: "r = Inr nss" unfolding healthy_def by blast
  have c: "lists_by (te_ListNs env) view tv_nss me_Labels" "removes (te_Nss env) ns_key view tv_nss (\<lambda>v. (tv_tenants v, tv_projects v))"
    using world by (simp_all add: tenant_world_def)
  note L = lists_run [OF c(1) l]
  obtain errs w2 where d: "run_state (delete_nss (te_Nss env) nss []) w1 = (errs, w2)" by fastforce
  have hd: "\<And>w x e w'. run_state (cl_delete (te_Nss env) x) w = (e, w') \<Longrightarrow> e = None \<or> e = Some NotFound"
    using h unfolding healthy_def by metis
  have D: "errs = []" "tv_nss (view w2) = (\<lambda>k. if k \<in> ns_key ` set nss then None else tv_nss (view w1) k)"
    using delete_nss_run [OF c(2) _ d] hd by blast+
  have res: "e = None" "w' = w2" using run p l r d D by (auto simp: deleteSubNSOfProject_def NewAggregate_def)
  have "k \<in> ns_key ` set nss \<longleftrightarrow> below n (tv_nss (view w) k)" for k
  proof -
    from L(2) [OF r] ls have "x \<in> set nss \<longleftrightarrow> (\<exists>i. tv_nss (view w) i = Some x \<and> gm_get (me_Labels x) ?key = Some ''1'')" for x by simp
    then show ?thesis using assms(3) unfolding below_def keyed_nss_def image_iff by blast
  qed
  then show ?thesis unfolding res D(2) L(1) by simp
qed

text \<open>
  The end of a project. With an API server that answers, the handler of a project that is
  gone deletes the namespaces directly below it and its own namespace, and no others. The test
  for the error of the last deletion is the wrong way round: the handler reports an error, and
  is run again, exactly when the namespace of the project is already gone.
\<close>

lemma Reconcile_project_gone:
  assumes "tenant_world env view" and "healthy env view" and "keyed_nss (tv_nss (view w))" and "CHR ''='' \<notin> set n"
    and "run_state (cl_get (te_Projects env) ([], n)) w = (Inl NotFound, w0)"
    and "run_state (Reconcile_project env n) w = (e, w')"
  shows "tv_nss (view w') = (\<lambda>k. if below n (tv_nss (view w) k) \<or> k = ([], ProjectNsPrefix @ n) then None else tv_nss (view w) k) \<and>
    (e \<noteq> None \<longleftrightarrow> tv_nss (view w) ([], ProjectNsPrefix @ n) = None \<or> below n (tv_nss (view w) ([], ProjectNsPrefix @ n)))"
proof -
  have c: "reads (te_Projects env) view tv_projects" "removes (te_Nss env) ns_key view tv_nss (\<lambda>v. (tv_tenants v, tv_projects v))"
    using assms(1) by (simp_all add: tenant_world_def)
  have v0: "view w0 = view w" by (rule reads_run(1) [OF c(1) assms(5)])
  obtain e1 w1 where s: "run_state (deleteSubNSOfProject env n) w0 = (e1, w1)" by fastforce
  have S: "e1 = None" "tv_nss (view w1) = (\<lambda>k. if below n (tv_nss (view w) k) then None else tv_nss (view w) k)"
    using deleteSubNS_run [OF assms(1,2) _ assms(4) s, unfolded v0, OF assms(3)] by blast+
  obtain e2 w2 where d: "run_state (cl_delete (te_Nss env) (bare_ns (ProjectNsPrefix @ n))) w1 = (e2, w2)" by fastforce
  note R = removes_run [OF c(2) d]
  have key: "ns_key (bare_ns (ProjectNsPrefix @ n)) = ([], ProjectNsPrefix @ n)" by (simp add: ns_key_def bare_ns_def)
  have e2: "e2 = (if tv_nss (view w1) ([], ProjectNsPrefix @ n) = None then Some NotFound else None)"
    using assms(2) d unfolding healthy_def key [symmetric] by blast
  have res: "w' = w2" "e = e2" using assms(5,6) s S(1) d e2 by (auto simp: Reconcile_project_def deleteProject_def)
  have gone: "tv_nss (view w2) = (tv_nss (view w1))(([], ProjectNsPrefix @ n) := None)"
  proof (cases "tv_nss (view w1) ([], ProjectNsPrefix @ n)")
    case None
    then show ?thesis using R(3) e2 by (simp add: fun_upd_idem)
  next
    case (Some x)
    then show ?thesis using R(2) e2 key by simp
  qed
  have "e2 \<noteq> None \<longleftrightarrow> tv_nss (view w1) ([], ProjectNsPrefix @ n) = None" using e2 by simp
  with gone show ?thesis unfolding res S(2) by (simp add: fun_upd_def) (rule ext, simp)
qed

subsection \<open>Witnesses\<close>

record shop =
  sh_tenants :: "Tenant list"
  sh_projects :: "Project list"
  sh_nss :: "Namespace list"

definition shop_env :: "shop tenant_env" where
  "shop_env =
     \<lparr>te_Tenants = list_client sh_tenants (\<lambda>xs w. w\<lparr>sh_tenants := xs\<rparr>) (\<lambda>t. ([], tn_Name t)),
      te_Projects = list_client sh_projects (\<lambda>xs w. w\<lparr>sh_projects := xs\<rparr>) (\<lambda>p. ([], pj_Name p)),
      te_Nss = list_client sh_nss (\<lambda>xs w. w\<lparr>sh_nss := xs\<rparr>) ns_key,
      te_ListNs = list_select sh_nss ns_key me_Labels,
      te_DeleteQuotas = (\<lambda>ls. State_Monad.return None),
      te_Parse = parse_equality, te_CreateHNCNs = True\<rparr>"

definition shop_view :: "shop \<Rightarrow> tenant_view" where
  "shop_view w = \<lparr>tv_tenants = lookup_by (\<lambda>t. ([], tn_Name t)) (sh_tenants w), tv_projects = lookup_by (\<lambda>p. ([], pj_Name p)) (sh_projects w),
     tv_nss = lookup_by ns_key (sh_nss w)\<rparr>"

lemma shop_view_simps [simp]:
  "tv_tenants (shop_view w) = lookup_by (\<lambda>t. ([], tn_Name t)) (sh_tenants w)"
  "tv_projects (shop_view w) = lookup_by (\<lambda>p. ([], pj_Name p)) (sh_projects w)" "tv_nss (shop_view w) = lookup_by ns_key (sh_nss w)"
  by (simp_all add: shop_view_def)

lemma shop_env_simps:
  "te_Tenants shop_env = list_client sh_tenants (\<lambda>xs w. w\<lparr>sh_tenants := xs\<rparr>) (\<lambda>t. ([], tn_Name t))"
  "te_Projects shop_env = list_client sh_projects (\<lambda>xs w. w\<lparr>sh_projects := xs\<rparr>) (\<lambda>p. ([], pj_Name p))"
  "te_Nss shop_env = list_client sh_nss (\<lambda>xs w. w\<lparr>sh_nss := xs\<rparr>) ns_key"
  "te_ListNs shop_env = list_select sh_nss ns_key me_Labels" "te_Parse shop_env = parse_equality" "te_CreateHNCNs shop_env"
  by (simp_all add: shop_env_def)

lemma shop_world: "tenant_world shop_env shop_view"
  unfolding tenant_world_def shop_env_simps
  by (intro conjI parse_equality_parses list_client_reads list_client_updates list_client_inserts list_client_removes list_select_lists) simp_all

lemma shop_healthy: "healthy shop_env shop_view"
  unfolding healthy_def shop_env_simps by (auto simp: list_client_def list_select_def parse_equality_def Let_def)

lemma shop_keyed: "keyed_nss (tv_nss (shop_view w))"
  by (auto simp: keyed_nss_def dest: lookup_by_key)

definition web :: Project where
  "web = \<lparr>pj_Name = ''web'', pj_Labels = Some [(TenantLabel, ''acme'')], pj_Annotations = None, pj_Namespace = [], pj_IngressDomainSuffix = []\<rparr>"

end
