(* ===== verification/Admission.thy ===== *)
theory Admission
  imports TenantProject MultiCluster StringUtils Hotplug
begin

section \<open>The admission webhooks for tenants, projects, clusters and hotplugs\<close>

text \<open>
  \<open>pkg/ctrlmgr/webhooks\<close> and \<open>pkg/warden/localmgr/webhooks\<close> without the quotas. Decoding is an
  argument, as is what the cache of a cluster lists under a label; the clusters come from the
  multi cluster manager. Names with Chinese characters are lists of code points.
\<close>

datatype admission_cause =
    BadRequest err
  | NoTenantLabel
  | TenantNotExist
  | BadSuffix domain_err
  | CannotList
  | StillThere
  | MemberCluster string
  | ClusterNotExist string
  | ServerError err
  | RepeatedComponent
  | NameTooLong
  | NameMalformed

definition ForceDeleteAnnotation :: string where "ForceDeleteAnnotation = ''kubecube.io/force-delete''"
definition CubeCnAnnotation :: string where "CubeCnAnnotation = ''cluster.kubecube.io/cn-name''"

subsection \<open>Definitions: tenants and projects in the control plane\<close>

definition ValidateCreate_project :: "('w, Tenant) client \<Rightarrow> Project \<Rightarrow> ('w, admission_cause option) state" where
  "ValidateCreate_project cli project =
     (let tenantName = label (pj_Labels project) TenantLabel
      in if tenantName = [] then State_Monad.return (Some NoTenantLabel)
         else do {
           r \<leftarrow> cl_get cli ([], tenantName);
           case r of
             Inl e \<Rightarrow> State_Monad.return (Some TenantNotExist)
           | Inr tenant \<Rightarrow> State_Monad.return (map_option BadSuffix (ValidatorDomainSuffix (pj_IngressDomainSuffix project)))
         })"

definition ValidateUpdate_project :: "('w, Tenant) client \<Rightarrow> Project \<Rightarrow> Project \<Rightarrow> ('w, admission_cause option) state" where
  "ValidateUpdate_project cli oldProject currentProject =
     (let tenantName = label (pj_Labels currentProject) TenantLabel
      in if tenantName = [] then State_Monad.return (Some NoTenantLabel)
         else do {
           r \<leftarrow> cl_get cli ([], tenantName);
           case r of
             Inl e \<Rightarrow> State_Monad.return (Some TenantNotExist)
           | Inr tenant \<Rightarrow> State_Monad.return (map_option BadSuffix (ValidatorDomainSuffix (pj_IngressDomainSuffix currentProject)))
         })"

text \<open>The loop over the clusters; \<open>items\<close> is what the cache of a cluster lists.\<close>

fun children_loop :: "('c \<Rightarrow> 'x list result) \<Rightarrow> (string \<times> 'c FuzzyCluster) list \<Rightarrow> admission_cause option" where
  "children_loop items [] = None"
| "children_loop items ((name, c) # cs) =
     (case items (fc_Client c) of
        Inl e \<Rightarrow> Some CannotList
      | Inr xs \<Rightarrow> if length xs > 0 then Some StillThere else children_loop items cs)"

definition ValidateDelete_project ::
  "'c MultiClustersMgr \<Rightarrow> (string \<Rightarrow> (string \<times> string) result) \<Rightarrow> ('c \<Rightarrow> string \<times> string \<Rightarrow> Namespace list result)
     \<Rightarrow> Project \<Rightarrow> admission_cause option go" where
  "ValidateDelete_project m parse nss project =
     go_bind (FuzzyCopy m) (\<lambda>clusters.
       case parse ((ProjectNsPrefix @ pj_Name project @ depth_suffix) @ ''='' @ ''1'') of
         Inl e \<Rightarrow> Ret (Some (BadRequest e))
       | Inr lbSelector \<Rightarrow> Ret (children_loop (\<lambda>c. nss c lbSelector) clusters))"

definition ValidateDelete_tenant ::
  "'c MultiClustersMgr \<Rightarrow> ('c \<Rightarrow> string \<times> string \<Rightarrow> Project list result) \<Rightarrow> Tenant \<Rightarrow> admission_cause option go" where
  "ValidateDelete_tenant m projects tenant =
     go_bind (FuzzyCopy m) (\<lambda>clusters. Ret (children_loop (\<lambda>c. projects c (TenantLabel, tn_Name tenant)) clusters))"

definition verdict :: "admission_cause option \<Rightarrow> admission_cause response" where
  "verdict e = (case e of None \<Rightarrow> Allowed | Some c \<Rightarrow> Errored StatusBadRequest c)"

definition Handle_project ::
  "('w, Tenant) client \<Rightarrow> 'c MultiClustersMgr \<Rightarrow> (string \<Rightarrow> (string \<times> string) result) \<Rightarrow> ('c \<Rightarrow> string \<times> string \<Rightarrow> Namespace list result)
     \<Rightarrow> operation \<Rightarrow> Project result \<Rightarrow> Project result \<Rightarrow> ('w, admission_cause response go) state" where
  "Handle_project cli m parse nss operation decode decodeRaw =
     (case operation of
        Create \<Rightarrow>
          (case decode of
             Inl e \<Rightarrow> State_Monad.return (Ret (verdict (Some (BadRequest e))))
           | Inr currentProject \<Rightarrow> do {
               e \<leftarrow> ValidateCreate_project cli currentProject;
               State_Monad.return (Ret (verdict e))
             })
      | Update \<Rightarrow>
          (case decode of
             Inl e \<Rightarrow> State_Monad.return (Ret (verdict (Some (BadRequest e))))
           | Inr currentProject \<Rightarrow>
               (case decodeRaw of
                  Inl e \<Rightarrow> State_Monad.return (Ret (verdict (Some (BadRequest e))))
                | Inr oldProject \<Rightarrow> do {
                    e \<leftarrow> ValidateUpdate_project cli oldProject currentProject;
                    State_Monad.return (Ret (verdict e))
                  }))
      | Delete \<Rightarrow>
          (case decodeRaw of
             Inl e \<Rightarrow> State_Monad.return (Ret (verdict (Some (BadRequest e))))
           | Inr oldProject \<Rightarrow> State_Monad.return (go_bind (ValidateDelete_project m parse nss oldProject) (\<lambda>e. Ret (verdict e))))
      | Connect \<Rightarrow> State_Monad.return (Ret Allowed))"

definition Handle_tenant ::
  "'c MultiClustersMgr \<Rightarrow> ('c \<Rightarrow> string \<times> string \<Rightarrow> Project list result) \<Rightarrow> operation \<Rightarrow> Tenant result \<Rightarrow> admission_cause response go" where
  "Handle_tenant m projects operation decodeRaw =
     (case operation of
        Delete \<Rightarrow>
          (case decodeRaw of
             Inl e \<Rightarrow> Ret (verdict (Some (BadRequest e)))
           | Inr tenant \<Rightarrow> go_bind (ValidateDelete_tenant m projects tenant) (\<lambda>e. Ret (verdict e)))
      | _ \<Rightarrow> Ret Allowed)"

subsection \<open>Definitions: tenants and projects in the warden\<close>

definition Handle_tenant_warden :: "bool \<Rightarrow> operation \<Rightarrow> Tenant result \<Rightarrow> admission_cause response" where
  "Handle_tenant_warden isMember operation decodeRaw =
     (case operation of
        Delete \<Rightarrow>
          (case decodeRaw of
             Inl e \<Rightarrow> verdict (Some (BadRequest e))
           | Inr tenant \<Rightarrow>
               if isMember \<and> label (tn_Annotations tenant) ForceDeleteAnnotation \<noteq> ''true''
               then verdict (Some (MemberCluster (tn_Name tenant))) else Allowed)
      | _ \<Rightarrow> Allowed)"

definition Handle_project_warden :: "bool \<Rightarrow> operation \<Rightarrow> Project result \<Rightarrow> admission_cause response" where
  "Handle_project_warden isMember operation decodeRaw =
     (case operation of
        Delete \<Rightarrow>
          (case decodeRaw of
             Inl e \<Rightarrow> verdict (Some (BadRequest e))
           | Inr project \<Rightarrow>
               if isMember \<and> label (pj_Annotations project) ForceDeleteAnnotation \<noteq> ''true''
               then verdict (Some (MemberCluster (pj_Name project))) else Allowed)
      | _ \<Rightarrow> Allowed)"

subsection \<open>Definitions: hotplugs\<close>

fun repeat_loop :: "ComponentConfig list \<Rightarrow> string list \<Rightarrow> bool" where
  "repeat_loop [] m = False"
| "repeat_loop (c # cs) m = (if cc_Name c \<in> set m then True else repeat_loop cs (cc_Name c # m))"

definition ValidateCreate_hotplug :: "('w, Cluster) client \<Rightarrow> Hotplug \<Rightarrow> ('w, admission_cause option) state" where
  "ValidateCreate_hotplug cli t = do {
     r \<leftarrow> (if hp_Name t \<noteq> ''common'' then do {
             r \<leftarrow> cl_get cli ([], hp_Name t);
             State_Monad.return (case r of
                Inl e \<Rightarrow> Some (if e = NotFound then ClusterNotExist (hp_Name t) else ServerError e)
              | Inr cluster \<Rightarrow> None)
           }
           else State_Monad.return None);
     State_Monad.return (if r \<noteq> None then r else if repeat_loop (hp_Component t) [] then Some RepeatedComponent else None)
   }"

definition ValidateUpdate_hotplug :: "('w, Cluster) client \<Rightarrow> Hotplug \<Rightarrow> Hotplug \<Rightarrow> ('w, admission_cause option) state" where
  "ValidateUpdate_hotplug cli old t = ValidateCreate_hotplug cli t"

definition ValidateCreate_hotplug_warden :: "bool \<Rightarrow> Hotplug \<Rightarrow> admission_cause option" where
  "ValidateCreate_hotplug_warden isMemberCluster t =
     (if gm_get (hp_Annotations t) ''kubecube.io/sync'' = Some ''true'' then None
      else if isMemberCluster then Some (MemberCluster (hp_Name t)) else None)"

definition ValidateDelete_hotplug_warden :: "bool \<Rightarrow> Hotplug \<Rightarrow> admission_cause option" where
  "ValidateDelete_hotplug_warden isMemberCluster t = (if isMemberCluster then Some (MemberCluster (hp_Name t)) else None)"

subsection \<open>Definitions: clusters\<close>

type_synonym rune = nat

definition qnameChar :: "rune \<Rightarrow> bool" where
  "qnameChar c \<longleftrightarrow> 65 \<le> c \<and> c \<le> 90 \<or> 97 \<le> c \<and> c \<le> 122 \<or> 48 \<le> c \<and> c \<le> 57 \<or> 19968 \<le> c \<and> c \<le> 40869"

definition qnameExtChar :: "rune \<Rightarrow> bool" where
  "qnameExtChar c \<longleftrightarrow> c = 45 \<or> c = 95 \<or> qnameChar c"

text \<open>Matching \<open>C E* C\<close>: the state after the first character is whether the last one read may end.\<close>

fun qname_rest :: "bool \<Rightarrow> rune list \<Rightarrow> bool" where
  "qname_rest may_end [] = may_end"
| "qname_rest may_end (c # cs) = (qnameExtChar c \<and> qname_rest (qnameChar c) cs)"

fun annotationCnValue_match :: "rune list \<Rightarrow> bool" where
  "annotationCnValue_match [] = True"
| "annotationCnValue_match (c # cs) = (qnameChar c \<and> qname_rest True cs)"

definition annotationCnValueLength :: nat where "annotationCnValueLength = 100"

definition isValidCnName :: "rune list \<Rightarrow> admission_cause option" where
  "isValidCnName v =
     (if length v > annotationCnValueLength then Some NameTooLong
      else if \<not> annotationCnValue_match v then Some NameMalformed else None)"

definition generateValidate :: "(string, rune list) gomap \<Rightarrow> admission_cause option" where
  "generateValidate annotations = (case gm_get annotations CubeCnAnnotation of Some cnName \<Rightarrow> isValidCnName cnName | None \<Rightarrow> None)"

text \<open>The same for a creation and an update; a deletion is always admitted.\<close>

definition Validate_cluster :: "(string, rune list) gomap \<Rightarrow> Cluster \<Rightarrow> admission_cause option" where
  "Validate_cluster annotations c =
     (case generateValidate annotations of
        Some e \<Rightarrow> Some e
      | None \<Rightarrow> map_option BadSuffix (ValidatorDomainSuffix [clu_IngressDomainSuffix c]))"

subsection \<open>What is admitted\<close>

lemma verdict_Allowed [simp]: "verdict e = Allowed \<longleftrightarrow> e = None"
  by (simp add: verdict_def split: option.split)

lemma repeat_loop_iff: "repeat_loop cs m \<longleftrightarrow> \<not> distinct (map cc_Name cs) \<or> set (map cc_Name cs) \<inter> set m \<noteq> {}"
  by (induction cs arbitrary: m) auto

text \<open>The components of an admitted hotplug have different names, and its cluster exists.\<close>

lemma ValidateCreate_hotplug_admits:
  assumes "reads cli view clusters" and "run_state (ValidateCreate_hotplug cli t) w = (None, w')"
  shows "distinct (map cc_Name (hp_Component t)) \<and> (hp_Name t = ''common'' \<or> clusters (view w) ([], hp_Name t) \<noteq> None)"
proof (cases "hp_Name t = ''common''")
  case True
  with assms(2) show ?thesis by (auto simp: ValidateCreate_hotplug_def repeat_loop_iff split: if_splits)
next
  case False
  obtain r w1 where g: "run_state (cl_get cli ([], hp_Name t)) w = (r, w1)" by fastforce
  from reads_run(2) [OF assms(1) g] False assms(2) g show ?thesis
    by (cases r) (auto simp: ValidateCreate_hotplug_def repeat_loop_iff split: if_splits)
qed

lemma qname_rest_iff:
  "qname_rest m v \<longleftrightarrow> list_all qnameExtChar v \<and> (if v = [] then m else qnameChar (last v))"
  by (induction m v rule: qname_rest.induct) auto

lemma annotationCnValue_match_iff:
  "annotationCnValue_match v \<longleftrightarrow> v = [] \<or> qnameChar (hd v) \<and> qnameChar (last v) \<and> list_all qnameExtChar v"
  by (cases v) (auto simp: qname_rest_iff qnameExtChar_def)

text \<open>A created or updated project names a tenant that can be read and has proper suffixes.\<close>

lemma ValidateCreate_project_admits:
  assumes "reads cli view tenants" and "run_state (ValidateCreate_project cli p) w = (None, w')"
  shows "label (pj_Labels p) TenantLabel \<noteq> [] \<and> tenants (view w) ([], label (pj_Labels p) TenantLabel) \<noteq> None \<and>
    list_all (\<lambda>d. IsDNS1123Subdomain d \<or> d = []) (pj_IngressDomainSuffix p) \<and> distinct (pj_IngressDomainSuffix p)"
proof -
  obtain r w1 where g: "run_state (cl_get cli ([], label (pj_Labels p) TenantLabel)) w = (r, w1)" by fastforce
  from reads_run(2) [OF assms(1) g] assms(2) g show ?thesis
    by (cases r) (auto simp: ValidateCreate_project_def Let_def ValidatorDomainSuffix_accepts split: if_splits)
qed

lemma children_loop_None:
  "children_loop items cs = None \<longleftrightarrow> (\<forall>(name, c) \<in> set cs. items (fc_Client c) = Inr [])"
  by (induction items cs rule: children_loop.induct) (auto split: sum.splits)

lemma fuzzy_loop_distinct: "fuzzy_loop xs acc = Ret ys \<Longrightarrow> distinct (map fst acc) \<Longrightarrow> distinct (map fst ys)"
  by (induction xs acc rule: fuzzy_loop.induct) (auto split: if_splits option.splits intro: distinct_update)

text \<open>The clusters asked are those of the table but the local one.\<close>

lemma FuzzyCopy_clients:
  assumes "mgr_reachable m"
  obtains ys where "FuzzyCopy m = Ret ys"
    "(\<forall>(name, c) \<in> set ys. P (fc_Client c)) \<longleftrightarrow> (\<forall>(name, c) \<in> set (mg_Clusters m). name \<noteq> LocalCluster \<longrightarrow> P (ic_Client c))"
proof -
  have ok: "\<forall>(n, c) \<in> set (mg_Clusters m). n \<noteq> LocalCluster \<longrightarrow> ic_RawCluster c \<noteq> None" "distinct (map fst (mg_Clusters m))"
    using mgr_ok_reachable [OF assms] by (simp_all add: mgr_ok_def)
  from fuzzy_loop_Ret [OF ok(1), of "[]"] obtain ys where f: "fuzzy_loop (mg_Clusters m) [] = Ret ys" and
    mo: "map_of ys = (\<lambda>n. if n = LocalCluster then map_of [] n else (case map_of (rev (mg_Clusters m)) n of None \<Rightarrow> map_of [] n
       | Some c \<Rightarrow> Some \<lparr>fc_Name = n, fc_Client = ic_Client c, fc_RawCluster = the (ic_RawCluster c)\<rparr>))"
    by (elim exE conjE) (rule that)
  from f have y: "FuzzyCopy m = Ret ys" by (simp add: FuzzyCopy_def)
  have d: "distinct (map fst ys)" using fuzzy_loop_distinct y unfolding FuzzyCopy_def by fastforce
  have rv: "map_of (rev (mg_Clusters m)) n = Some c \<longleftrightarrow> (n, c) \<in> set (mg_Clusters m)" for n c
    using ok(2) by (metis distinct_map distinct_rev map_of_eq_Some_iff rev_map set_rev)
  have "(name, fc) \<in> set ys \<longleftrightarrow> name \<noteq> LocalCluster \<and> (\<exists>c. (name, c) \<in> set (mg_Clusters m) \<and>
      fc = \<lparr>fc_Name = name, fc_Client = ic_Client c, fc_RawCluster = the (ic_RawCluster c)\<rparr>)" for name fc
    unfolding map_of_eq_Some_iff [OF d, symmetric] mo rv [symmetric] by (auto split: option.splits)
  then show ?thesis by (intro that [OF y]) fastforce
qed


definition acme :: Tenant where
  "acme = \<lparr>tn_Name = ''acme'', tn_Labels = None, tn_Annotations = None, tn_Namespace = []\<rparr>"


end
