(* ===== verification/ClusterController.thy ===== *)
theory ClusterController
  imports MultiCluster
begin

section \<open>The cluster controller of the control plane\<close>

text \<open>
  \<open>pkg/ctrlmgr/controllers/cluster\<close>: a cluster object is connected, the warden and what it
  needs are deployed to it, it is put into the table of the multi cluster manager, and its
  heartbeats are watched; a cluster that cannot be connected is retried in the background, and
  a deleted one is taken out again. What the manifests of the deployed resources say is left out:
  a resource is what the controller creates in which order. Building clients from a kubeconfig
  and the API server of the member cluster are arguments.
\<close>

datatype cluster_resource =
    Crd string
  | CubeNamespace
  | WardenClusterRole
  | WardenClusterRoleBinding
  | TLSSecret
  | KubeConfigCM
  | PrevJob
  | KubeConfigSecret
  | WardenDeployment
  | WardenSvc
  | WardenWebhook

text \<open>A condition of a job is its type and its status.\<close>

record 'w member_client =
  mc_Create :: "cluster_resource \<Rightarrow> ('w, err option) state"
  mc_GetWarden :: "('w, unit result) state"
  mc_GetJob :: "('w, (string \<times> string) list result) state"
  mc_DeleteNs :: "('w, err option) state"

record ('w, 'c) cluster_env =
  ce_Clusters :: "('w, Cluster) client"
  ce_ExpiredClusters :: "('w, Cluster) client"
  ce_Connect :: "Cluster \<Rightarrow> 'c result"
  ce_Member :: "'c \<Rightarrow> 'w member_client"
  ce_Build :: "Cluster \<Rightarrow> ('c \<times> string) result"
  ce_Crds :: "string list"
  ce_WardenRegisterMode :: bool
  ce_RetainMemberClusterResource :: bool
  ce_ScoutInitialDelaySeconds :: int
  ce_ScoutWaitTimeoutSeconds :: int

text \<open>
  The state of the controller: the pivot cluster, the retry queue with whether the task has been
  cancelled, and the multi cluster manager, over the world of the API servers.
\<close>

record ('w, 'c) ClusterReconciler =
  cr_world :: 'w
  cr_pivotCluster :: "Cluster option"
  cr_retryQueue :: "string \<Rightarrow> bool option"
  cr_mgr :: "'c MultiClustersMgr"

definition on_world :: "('w, 'a) state \<Rightarrow> (('w, 'c) ClusterReconciler, 'a) state" where
  "on_world m = State (\<lambda>s. case run_state m (cr_world s) of (a, w) \<Rightarrow> (a, s\<lparr>cr_world := w\<rparr>))"

lemma run_on_world [simp]:
  "run_state (on_world m) s = (case run_state m (cr_world s) of (a, w) \<Rightarrow> (a, s\<lparr>cr_world := w\<rparr>))"
  by (simp add: on_world_def)

definition clusterFinalizer :: string where "clusterFinalizer = ''cluster.finalizers.kubecube.io''"

subsection \<open>Definitions: deployment\<close>

definition createResource :: "'w member_client \<Rightarrow> cluster_resource \<Rightarrow> ('w, err option) state" where
  "createResource cli obj = do {
     e \<leftarrow> mc_Create cli obj;
     State_Monad.return (case e of
        None \<Rightarrow> None
      | Some er \<Rightarrow> if er = AlreadyExists then None else Some (Err ''deploy resource failed''))
   }"

fun isJobCompleted :: "(string \<times> string) list \<Rightarrow> bool" where
  "isJobCompleted [] = False"
| "isJobCompleted ((typ, status) # cs) = (if status = ''True'' \<and> typ = ''Complete'' then True else isJobCompleted cs)"

text \<open>The job is looked at every three seconds for five minutes.\<close>

definition jobPolls :: nat where "jobPolls = 300 div 3"

fun waitForJobComplete :: "'w member_client \<Rightarrow> nat \<Rightarrow> ('w, err option) state" where
  "waitForJobComplete cli 0 = State_Monad.return (Some (Err ''context deadline exceeded''))"
| "waitForJobComplete cli (Suc n) = do {
     r \<leftarrow> mc_GetJob cli;
     case r of
       Inl e \<Rightarrow> State_Monad.return (Some e)
     | Inr j \<Rightarrow> if isJobCompleted j then State_Monad.return None else waitForJobComplete cli n
   }"

fun create_resources :: "'w member_client \<Rightarrow> cluster_resource list \<Rightarrow> ('w, err option) state" where
  "create_resources cli [] = State_Monad.return None"
| "create_resources cli (x # xs) = do {
     e \<leftarrow> createResource cli x;
     if e \<noteq> None then State_Monad.return e else create_resources cli xs
   }"

definition isDatingCluster :: "'w member_client \<Rightarrow> ('w, bool) state" where
  "isDatingCluster cli = do {
     r \<leftarrow> mc_GetWarden cli;
     State_Monad.return (case r of Inl e \<Rightarrow> False | Inr warden \<Rightarrow> True)
   }"

definition member_resources :: "string list \<Rightarrow> cluster_resource list" where
  "member_resources crds =
     map Crd crds @ [CubeNamespace, WardenClusterRole, WardenClusterRoleBinding, TLSSecret, KubeConfigCM, PrevJob]"

definition deployResources :: "('w, 'c) cluster_env \<Rightarrow> 'w member_client \<Rightarrow> Cluster \<Rightarrow> Cluster option \<Rightarrow> ('w, err option) state" where
  "deployResources env cli memberCluster pivotCluster = do {
     dating \<leftarrow> isDatingCluster cli;
     if dating \<or> ce_WardenRegisterMode env then State_Monad.return None
     else do {
       e \<leftarrow> (if clu_IsMemberCluster memberCluster then
               (if pivotCluster = None then State_Monad.return (Some (Err ''pivot cluster not ready''))
                else do {
                  e \<leftarrow> create_resources cli (member_resources (ce_Crds env));
                  if e \<noteq> None then State_Monad.return e else waitForJobComplete cli jobPolls
                })
             else State_Monad.return None);
       if e \<noteq> None then State_Monad.return e
       else do {
         e \<leftarrow> create_resources cli [KubeConfigSecret, WardenDeployment];
         if e \<noteq> None then State_Monad.return e
         else do {
           e \<leftarrow> createResource cli WardenSvc;
           createResource cli WardenWebhook
         }
       }
     }
   }"

subsection \<open>Definitions: deletion\<close>

text \<open>
  The first test of the function compares the address of a field with that of a local variable,
  which are never the same, so it is left out.
\<close>

definition deleteExternalResources :: "('w, 'c) cluster_env \<Rightarrow> Cluster \<Rightarrow> (('w, 'c) ClusterReconciler, err option go) state" where
  "deleteExternalResources env cluster = do {
     s \<leftarrow> State_Monad.get;
     case cr_retryQueue s (clu_Name cluster) of
       Some cancelled \<Rightarrow> do {
         State_Monad.set (s\<lparr>cr_retryQueue := (cr_retryQueue s)(clu_Name cluster \<mapsto> True)\<rparr>);
         State_Monad.return (Ret None)
       }
     | None \<Rightarrow>
         (case Get_mgr (cr_mgr s) (clu_Name cluster) of
            (Some c, Some e) \<Rightarrow> State_Monad.return (Ret (Some e))
          | (None, _) \<Rightarrow> State_Monad.return (Ret None)
          | (Some c, None) \<Rightarrow> do {
              e \<leftarrow> (if \<not> ce_RetainMemberClusterResource env then on_world (mc_DeleteNs (ce_Member env (ic_Client c)))
                   else State_Monad.return None);
              if e \<noteq> None then State_Monad.return (Ret e)
              else do {
                s \<leftarrow> State_Monad.get;
                case Del_mgr (cr_mgr s) (clu_Name cluster) of
                  Panic \<Rightarrow> State_Monad.return Panic
                | Ret (e, m) \<Rightarrow> do {
                    State_Monad.set (s\<lparr>cr_mgr := m\<rparr>);
                    State_Monad.return (Ret None)
                  }
              }
            })
   }"

definition ensureFinalizer_cluster :: "('w, 'c) cluster_env \<Rightarrow> Cluster \<Rightarrow> ('w, err option \<times> Cluster) state" where
  "ensureFinalizer_cluster env cluster =
     (if \<not> ContainsFinalizer (clu_Finalizers cluster) clusterFinalizer then
        let cluster = cluster\<lparr>clu_Finalizers := AddFinalizer (clu_Finalizers cluster) clusterFinalizer\<rparr>
        in do {
          e \<leftarrow> cl_update (ce_Clusters env) cluster;
          State_Monad.return (e, cluster)
        }
      else State_Monad.return (None, cluster))"

definition removeFinalizer_cluster :: "('w, 'c) cluster_env \<Rightarrow> Cluster \<Rightarrow> (('w, 'c) ClusterReconciler, err option go) state" where
  "removeFinalizer_cluster env cluster =
     (if ContainsFinalizer (clu_Finalizers cluster) clusterFinalizer then do {
        e \<leftarrow> on_world (UpdateClusterStatusByState (ce_Clusters env) cluster ClusterDeleting);
        if e \<noteq> None then State_Monad.return (Ret e)
        else do {
          g \<leftarrow> deleteExternalResources env cluster;
          case g of
            Panic \<Rightarrow> State_Monad.return Panic
          | Ret (Some e) \<Rightarrow> State_Monad.return (Ret (Some e))
          | Ret None \<Rightarrow> do {
              e \<leftarrow> on_world (RetryOnConflict DefaultRetry (do {
                     r \<leftarrow> cl_get (ce_Clusters env) ([], clu_Name cluster);
                     case r of
                       Inl e \<Rightarrow> State_Monad.return (Some e)
                     | Inr newCluster \<Rightarrow> cl_update (ce_Clusters env)
                         (newCluster\<lparr>clu_Finalizers := RemoveFinalizer (clu_Finalizers cluster) clusterFinalizer\<rparr>)
                   }));
              State_Monad.return (Ret e)
            }
        }
      }
      else State_Monad.return (Ret None))"

subsection \<open>Definitions: connection\<close>

text \<open>\<open>enqueue\<close> starts one retry task per cluster; the kubeconfig is read again without a test.\<close>

definition enqueue :: "Cluster \<Rightarrow> (('w, 'c) ClusterReconciler, unit) state" where
  "enqueue cluster = do {
     s \<leftarrow> State_Monad.get;
     case cr_retryQueue s (clu_Name cluster) of
       Some _ \<Rightarrow> State_Monad.return ()
     | None \<Rightarrow> State_Monad.set (s\<lparr>cr_retryQueue := (cr_retryQueue s)(clu_Name cluster \<mapsto> False)\<rparr>)
   }"

definition syncCluster :: "('w, 'c) cluster_env \<Rightarrow> Cluster \<Rightarrow> (('w, 'c) ClusterReconciler, err option) state" where
  "syncCluster env cluster =
     (let failed = on_world (UpdateClusterStatusByState (ce_Clusters env) cluster ClusterInitFailed)
      in do {
        e \<leftarrow> on_world (UpdateClusterStatusByState (ce_Clusters env) cluster ClusterProcessing);
        if e \<noteq> None then State_Monad.return e
        else (case ce_Connect env cluster of
          Inl e \<Rightarrow> do {
            _ \<leftarrow> failed;
            _ \<leftarrow> enqueue cluster;
            State_Monad.return None
          }
        | Inr tempClient \<Rightarrow> do {
            s \<leftarrow> State_Monad.get;
            e \<leftarrow> on_world (deployResources env (ce_Member env tempClient) cluster (cr_pivotCluster s));
            if e \<noteq> None then do {
              _ \<leftarrow> failed;
              State_Monad.return e
            }
            else do {
              s \<leftarrow> State_Monad.get;
              let (e, m) = AddInternalClusterWithScoutOpts (ce_Build env) cluster (ce_ScoutInitialDelaySeconds env)
                             (ce_ScoutWaitTimeoutSeconds env) (cr_mgr s);
              _ \<leftarrow> State_Monad.set (s\<lparr>cr_mgr := m\<rparr>);
              if e \<noteq> None then do {
                _ \<leftarrow> failed;
                _ \<leftarrow> enqueue cluster;
                State_Monad.return None
              }
              else do {
                s \<leftarrow> State_Monad.get;
                let ((e, started), m) = ScoutFor (cr_mgr s) (clu_Name cluster);
                _ \<leftarrow> State_Monad.set (s\<lparr>cr_mgr := m\<rparr>);
                if e \<noteq> None then do {
                  _ \<leftarrow> failed;
                  State_Monad.return e
                }
                else State_Monad.return None
              }
            }
          })
      })"

definition Reconcile_cluster :: "('w, 'c) cluster_env \<Rightarrow> string \<Rightarrow> (('w, 'c) ClusterReconciler, err option go) state" where
  "Reconcile_cluster env name = do {
     r \<leftarrow> on_world (cl_get (ce_Clusters env) ([], name));
     case r of
       Inl e \<Rightarrow> State_Monad.return (Ret (if e = NotFound then None else Some e))
     | Inr cluster \<Rightarrow> do {
         s \<leftarrow> State_Monad.get;
         _ \<leftarrow> State_Monad.set (if \<not> clu_IsMemberCluster cluster then s\<lparr>cr_pivotCluster := Some cluster\<rparr> else s);
         if clu_DeletionTimestamp cluster = None then do {
           (e, cluster) \<leftarrow> on_world (ensureFinalizer_cluster env cluster);
           if e \<noteq> None then State_Monad.return (Ret e)
           else do {
             e \<leftarrow> syncCluster env cluster;
             State_Monad.return (Ret e)
           }
         }
         else removeFinalizer_cluster env cluster
       }
   }"

text \<open>
  The retry task of a cluster in the background: at a tick it tries to build a client, and ends
  with an event when it can; it ends when it is cancelled, or when its time is up, and then
  writes the status through the context that has just expired. The answer tells whether the
  cluster is enqueued for a reconciliation.
\<close>

datatype retry_event = Tick | Deadline

definition retry_task :: "('w, 'c) cluster_env \<Rightarrow> Cluster \<Rightarrow> retry_event \<Rightarrow> (('w, 'c) ClusterReconciler, bool) state" where
  "retry_task env cluster ev = do {
     s \<leftarrow> State_Monad.get;
     case cr_retryQueue s (clu_Name cluster) of
       None \<Rightarrow> State_Monad.return False
     | Some True \<Rightarrow> do {
         _ \<leftarrow> State_Monad.set (s\<lparr>cr_retryQueue := (cr_retryQueue s)(clu_Name cluster := None)\<rparr>);
         State_Monad.return False
       }
     | Some False \<Rightarrow>
         (case ev of
            Tick \<Rightarrow>
              (case ce_Connect env cluster of
                 Inl e \<Rightarrow> State_Monad.return False
               | Inr _ \<Rightarrow> do {
                   _ \<leftarrow> State_Monad.set (s\<lparr>cr_retryQueue := (cr_retryQueue s)(clu_Name cluster := None)\<rparr>);
                   State_Monad.return True
                 })
          | Deadline \<Rightarrow> do {
              _ \<leftarrow> on_world (UpdateClusterStatusByState (ce_ExpiredClusters env) cluster ClusterReconnectedFailed);
              s \<leftarrow> State_Monad.get;
              _ \<leftarrow> State_Monad.set (s\<lparr>cr_retryQueue := (cr_retryQueue s)(clu_Name cluster := None)\<rparr>);
              State_Monad.return False
            })
   }"

definition UpdateFunc_cluster :: "Cluster \<Rightarrow> bool" where
  "UpdateFunc_cluster new = (if clu_DeletionTimestamp new \<noteq> None then True else False)"

subsection \<open>What the controller relies on\<close>

text \<open>
  \<open>view\<close> is the cluster objects of the control plane by name. Reading reports what is there; an
  update replaces the object, or removes it when it is being deleted and has no finalizer left;
  a status update changes the status alone; a call that fails has changed nothing. The calls to
  a member cluster change nothing of the control plane.
\<close>

definition cluster_api :: "('w, Cluster) client \<Rightarrow> ('w \<Rightarrow> string \<Rightarrow> Cluster option) \<Rightarrow> bool" where
  "cluster_api cli view \<longleftrightarrow>
     (\<forall>w n r w'. run_state (cl_get cli ([], n)) w = (r, w') \<longrightarrow> view w' = view w \<and>
        (case r of Inr x \<Rightarrow> view w n = Some x | Inl e \<Rightarrow> e = NotFound \<longrightarrow> view w n = None)) \<and>
     (\<forall>w x e w'. run_state (cl_update cli x) w = (e, w') \<longrightarrow>
        view w' = (if e = None then (view w)(clu_Name x :=
            if clu_DeletionTimestamp x \<noteq> None \<and> clu_Finalizers x = [] then None else Some x) else view w)) \<and>
     (\<forall>w x e w'. run_state (cl_status_update cli x) w = (e, w') \<longrightarrow>
        (if e = None then \<exists>y. view w (clu_Name x) = Some y \<and> view w' = (view w)(clu_Name x \<mapsto> y\<lparr>clu_Status := clu_Status x\<rparr>)
         else view w' = view w))"

definition member_apart :: "'w member_client \<Rightarrow> ('w \<Rightarrow> 'v) \<Rightarrow> bool" where
  "member_apart cli view \<longleftrightarrow>
     (\<forall>x. keeps_view (mc_Create cli x) view) \<and> keeps_view (mc_GetWarden cli) view \<and>
     keeps_view (mc_GetJob cli) view \<and> keeps_view (mc_DeleteNs cli) view"

definition cluster_world :: "('w, 'c) cluster_env \<Rightarrow> ('w \<Rightarrow> string \<Rightarrow> Cluster option) \<Rightarrow> bool" where
  "cluster_world env view \<longleftrightarrow> cluster_api (ce_Clusters env) view \<and> (\<forall>c. member_apart (ce_Member env c) view)"

lemma cluster_api_get:
  assumes "cluster_api cli view" and "run_state (cl_get cli ([], n)) w = (r, w')"
  shows "view w' = view w" and "r = Inr x \<Longrightarrow> view w n = Some x" and "r = Inl NotFound \<Longrightarrow> view w n = None"
  using assms unfolding cluster_api_def by fastforce+

lemma cluster_api_update:
  assumes "cluster_api cli view" and "run_state (cl_update cli x) w = (e, w')"
  shows "e = None \<Longrightarrow> view w' = (view w)(clu_Name x := if clu_DeletionTimestamp x \<noteq> None \<and> clu_Finalizers x = [] then None else Some x)"
    and "e \<noteq> None \<Longrightarrow> view w' = view w"
  using assms unfolding cluster_api_def by fastforce+

text \<open>The cluster objects without their status, which is all that the status writes change.\<close>

definition bare :: "Cluster \<Rightarrow> Cluster" where
  "bare c = c\<lparr>clu_Status := \<lparr>cs_State = None, cs_Reason = [], cs_LastHeartbeat = None\<rparr>\<rparr>"

definition bare_view :: "('w \<Rightarrow> string \<Rightarrow> Cluster option) \<Rightarrow> 'w \<Rightarrow> string \<Rightarrow> Cluster option" where
  "bare_view view w = (\<lambda>n. map_option bare (view w n))"

lemma bare_fields [simp]:
  "clu_Name (bare c) = clu_Name c" "clu_Finalizers (bare c) = clu_Finalizers c"
  "clu_DeletionTimestamp (bare c) = clu_DeletionTimestamp c" "bare (c\<lparr>clu_Status := s\<rparr>) = bare c"
  by (simp_all add: bare_def)

lemma keeps_bare: "keeps_view m view \<Longrightarrow> keeps_view m (bare_view view)"
  by (fastforce simp: keeps_view_def bare_view_def)

lemma bare_view_same:
  assumes "bare_view view w' = bare_view view w" and "view w n = Some c"
  shows "\<exists>c'. view w' n = Some c' \<and> bare c' = bare c"
  using fun_cong [OF assms(1), of n] assms(2) by (auto simp: bare_view_def)

lemma get_keeps: "cluster_api cli view \<Longrightarrow> keeps_view (cl_get cli ([], n)) view"
  unfolding keeps_view_def by (metis cluster_api_get(1))

lemma status_update_keeps:
  assumes "cluster_api cli view"
  shows "keeps_view (cl_status_update cli x) (bare_view view)"
  unfolding keeps_view_def
proof (intro allI impI)
  fix w r w' assume "run_state (cl_status_update cli x) w = (r, w')"
  with assms have "if r = None then \<exists>y. view w (clu_Name x) = Some y \<and> view w' = (view w)(clu_Name x \<mapsto> y\<lparr>clu_Status := clu_Status x\<rparr>)
         else view w' = view w" unfolding cluster_api_def by blast
  then show "bare_view view w' = bare_view view w"
    by (cases "r = None") (auto simp only: bare_view_def if_True if_False fun_upd_apply option.map bare_fields(4) simp_thms intro!: ext split: if_splits)
qed

lemma UpdateClusterStatusByState_keeps:
  assumes "cluster_api cli view"
  shows "keeps_view (UpdateClusterStatusByState cli cl st) (bare_view view)"
proof -
  have "keeps_view (UpdateClusterStatus cli cl f) (bare_view view)" for f
    unfolding UpdateClusterStatus_def Let_def
    by (intro keeps_view_retry keeps_view_bind keeps_bare [OF get_keeps [OF assms]])
      (simp add: status_update_keeps [OF assms] split: sum.splits)
  then show ?thesis unfolding UpdateClusterStatusByState_def by blast
qed

lemma keeps_bare_member: "member_apart cli view \<Longrightarrow> member_apart cli (bare_view view)"
  by (simp add: member_apart_def keeps_bare)

lemma deploy_keeps:
  assumes "member_apart cli view"
  shows "keeps_view (deployResources env cli m p) view"
proof -
  from assms have c: "keeps_view (createResource cli x) view" for x
    by (auto simp: createResource_def member_apart_def intro!: keeps_view_bind)
  have cs: "keeps_view (create_resources cli xs) view" for xs
    by (induction xs) (auto intro!: keeps_view_bind c)
  have j: "keeps_view (waitForJobComplete cli n) view" for n
    using assms by (induction n) (auto simp: member_apart_def intro!: keeps_view_bind split: sum.splits)
  have d: "keeps_view (isDatingCluster cli) view"
    using assms by (auto simp: isDatingCluster_def member_apart_def intro!: keeps_view_bind)
  show ?thesis unfolding deployResources_def
    by (intro keeps_view_bind d) (auto intro!: keeps_view_bind c cs j)
qed

subsection \<open>Deletion\<close>

lemma deleteExternalResources_run:
  assumes mem: "\<And>c. member_apart (ce_Member env c) view"
    and run: "run_state (deleteExternalResources env cl) s = (Ret None, s')"
  shows "view (cr_world s') = view (cr_world s)"
    and "cr_retryQueue s (clu_Name cl) = None \<Longrightarrow>
           cr_retryQueue s' = cr_retryQueue s \<and> lookup_mgr (cr_mgr s') = (lookup_mgr (cr_mgr s))(clu_Name cl := None)"
    and "cr_retryQueue s (clu_Name cl) \<noteq> None \<Longrightarrow>
           cr_retryQueue s' = (cr_retryQueue s)(clu_Name cl \<mapsto> True) \<and> cr_mgr s' = cr_mgr s"
proof -
  let ?n = "clu_Name cl"
  have "view (cr_world s') = view (cr_world s) \<and>
    (case cr_retryQueue s ?n of
       None \<Rightarrow> cr_retryQueue s' = cr_retryQueue s \<and> lookup_mgr (cr_mgr s') = (lookup_mgr (cr_mgr s))(?n := None)
     | Some _ \<Rightarrow> cr_retryQueue s' = (cr_retryQueue s)(?n \<mapsto> True) \<and> cr_mgr s' = cr_mgr s)"
  proof (cases "cr_retryQueue s ?n")
    case (Some b)
    with run show ?thesis by (auto simp: deleteExternalResources_def)
  next
    case queue: None
    show ?thesis
    proof (cases "lookup_mgr (cr_mgr s) ?n")
      case None
      with queue run have "s' = s" by (auto simp: deleteExternalResources_def Get_mgr_exact)
      with None queue show ?thesis by (simp add: fun_upd_idem)
    next
      case (Some c)
      obtain g where g: "Get_mgr (cr_mgr s) ?n = (Some c, g)" using Some by (simp add: Get_mgr_exact)
      let ?d = "if \<not> ce_RetainMemberClusterResource env then on_world (mc_DeleteNs (ce_Member env (ic_Client c)))
                   else State_Monad.return None"
      obtain e s1 where d: "run_state ?d s = (e, s1)" by fastforce
      with mem [of "ic_Client c"] have s1: "view (cr_world s1) = view (cr_world s)" "cr_mgr s1 = cr_mgr s" "cr_retryQueue s1 = cr_retryQueue s"
        by (auto simp: member_apart_def keeps_view_def split: if_splits prod.splits)
      from run queue g d obtain e' m where m: "Del_mgr (cr_mgr s1) ?n = Ret (e', m)" "s' = s1\<lparr>cr_mgr := m\<rparr>"
        by (auto simp: deleteExternalResources_def split: option.splits go.splits if_splits prod.splits)
      then have "del_result (cr_mgr s) ?n = Some m" by (simp add: del_result_def s1)
      from mgr_registry.lookup_unregister [OF this] m(2) s1 queue show ?thesis by simp
    qed
  qed
  then show "view (cr_world s') = view (cr_world s)"
    and "cr_retryQueue s ?n = None \<Longrightarrow> cr_retryQueue s' = cr_retryQueue s \<and> lookup_mgr (cr_mgr s') = (lookup_mgr (cr_mgr s))(?n := None)"
    and "cr_retryQueue s ?n \<noteq> None \<Longrightarrow> cr_retryQueue s' = (cr_retryQueue s)(?n \<mapsto> True) \<and> cr_mgr s' = cr_mgr s"
    by (auto split: option.splits)
qed

text \<open>The write that takes the finalizer away, and what it leaves of the object.\<close>

definition drop_finalizer :: "('w, 'c) cluster_env \<Rightarrow> Cluster \<Rightarrow> ('w, err option) state" where
  "drop_finalizer env cluster = modify_once (ce_Clusters env) ([], clu_Name cluster)
     (\<lambda>newCluster. newCluster\<lparr>clu_Finalizers := RemoveFinalizer (clu_Finalizers cluster) clusterFinalizer\<rparr>)"

definition without_finalizer :: "Cluster option \<Rightarrow> bool" where
  "without_finalizer r \<longleftrightarrow> (\<forall>c. r = Some c \<longrightarrow> clusterFinalizer \<notin> set (clu_Finalizers c))"

lemma drop_finalizer_run:
  assumes api: "cluster_api (ce_Clusters env) view" and named: "\<And>w c. view w (clu_Name cl) = Some c \<Longrightarrow> clu_Name c = clu_Name cl"
    and run: "run_state (RetryOnConflict DefaultRetry (drop_finalizer env cl)) w = (None, w')"
  shows "without_finalizer (view w' (clu_Name cl))"
proof -
  obtain v where v: "run_state (drop_finalizer env cl) v = (None, w')"
    using RetryOnConflict_success [OF run DefaultRetry_pos, of "\<lambda>_. True"] by blast
  obtain r v1 where g: "run_state (cl_get (ce_Clusters env) ([], clu_Name cl)) v = (r, v1)" by fastforce
  with v obtain x where x: "r = Inr x"
      "run_state (cl_update (ce_Clusters env) (x\<lparr>clu_Finalizers := RemoveFinalizer (clu_Finalizers cl) clusterFinalizer\<rparr>)) v1 = (None, w')"
    by (cases r) (auto simp: drop_finalizer_def modify_once_def)
  have "clu_Name x = clu_Name cl" using cluster_api_get(2) [OF api g x(1)] named by blast
  with cluster_api_update(1) [OF api x(2)] show ?thesis by (auto simp: without_finalizer_def)
qed

text \<open>A read of a cluster object being deleted leads straight to the removal of its finalizer.\<close>

lemma Reconcile_cluster_deleting:
  assumes api: "cluster_api (ce_Clusters env) view" and cl: "view (cr_world s) n = Some cl" "clu_DeletionTimestamp cl \<noteq> None"
    and run: "run_state (Reconcile_cluster env n) s = (r, s')"
  obtains (unread) e where "r = Ret (Some e)" "view (cr_world s') = view (cr_world s)" "cr_mgr s' = cr_mgr s" "cr_retryQueue s' = cr_retryQueue s"
    | (read) s1 where "cr_retryQueue s1 = cr_retryQueue s" "cr_mgr s1 = cr_mgr s" "view (cr_world s1) = view (cr_world s)"
        "run_state (removeFinalizer_cluster env cl) s1 = (r, s')"
proof -
  obtain g w1 where g: "run_state (cl_get (ce_Clusters env) ([], n)) (cr_world s) = (g, w1)" by fastforce
  note G = cluster_api_get [OF api g]
  show ?thesis
  proof (cases g)
    case (Inl e)
    with G(3) cl(1) have "e \<noteq> NotFound" by auto
    with Inl g run G(1) show ?thesis by (intro unread [of e]) (auto simp: Reconcile_cluster_def)
  next
    case (Inr x)
    with G(2) cl(1) have "x = cl" by simp
    with Inr g run cl(2) G(1) show ?thesis
      by (intro read [of "if \<not> clu_IsMemberCluster cl then s\<lparr>cr_world := w1, cr_pivotCluster := Some cl\<rparr> else s\<lparr>cr_world := w1\<rparr>"])
        (auto simp: Reconcile_cluster_def split: if_splits)
  qed
qed

text \<open>
  C21: a cluster that goes is let go of. When the controller has handled a cluster object that is
  being deleted and carries its finalizer without an error, the finalizer is off the stored
  object; a cluster that was waiting in the retry queue has its retry task cancelled, any
  other is out of the table of the multi cluster manager; and no other cluster is touched in
  the queue or in the table.
\<close>

theorem Reconcile_cluster_deleted:
  assumes "cluster_world env view" and "\<And>w k c. view w k = Some c \<Longrightarrow> clu_Name c = k"
    and "view (cr_world s) n = Some cl" and "clu_DeletionTimestamp cl \<noteq> None" and "clusterFinalizer \<in> set (clu_Finalizers cl)"
    and "run_state (Reconcile_cluster env n) s = (Ret None, s')"
  shows "without_finalizer (view (cr_world s') n) \<and>
    (if cr_retryQueue s n = None
     then cr_retryQueue s' = cr_retryQueue s \<and> lookup_mgr (cr_mgr s') = (lookup_mgr (cr_mgr s))(n := None)
     else cr_retryQueue s' = (cr_retryQueue s)(n \<mapsto> True) \<and> cr_mgr s' = cr_mgr s)"
proof -
  from assms(1) have api: "cluster_api (ce_Clusters env) view" and mem: "\<And>c. member_apart (ce_Member env c) view"
    by (auto simp: cluster_world_def)
  have n: "clu_Name cl = n" using assms(2,3) by blast
  obtain s1 where s1: "cr_retryQueue s1 = cr_retryQueue s" "cr_mgr s1 = cr_mgr s"
      "run_state (removeFinalizer_cluster env cl) s1 = (Ret None, s')"
    using Reconcile_cluster_deleting [OF api assms(3,4,6)] by auto
  obtain e w2 where u: "run_state (UpdateClusterStatusByState (ce_Clusters env) cl ClusterDeleting) (cr_world s1) = (e, w2)" by fastforce
  let ?s2 = "s1\<lparr>cr_world := w2\<rparr>"
  obtain d s3 where d: "run_state (deleteExternalResources env cl) ?s2 = (d, s3)" by fastforce
  from s1(3) u d assms(5) have ed: "e = None" "d = Ret None"
    by (auto simp: removeFinalizer_cluster_def split: if_splits go.splits option.splits prod.splits)
  obtain e4 w4 where f: "run_state (RetryOnConflict DefaultRetry (drop_finalizer env cl)) (cr_world s3) = (e4, w4)" by fastforce
  from s1(3) u d assms(5) ed f have "e4 = None" "s' = s3\<lparr>cr_world := w4\<rparr>"
    by (auto simp: removeFinalizer_cluster_def drop_finalizer_def modify_once_def split: prod.splits)
  with drop_finalizer_run [OF api, of cl] f n assms(2) have "without_finalizer (view (cr_world s') n)" by force
  moreover from deleteExternalResources_run [OF mem d [unfolded ed(2)]] n s1 \<open>s' = _\<close>
  have "if cr_retryQueue s n = None
     then cr_retryQueue s' = cr_retryQueue s \<and> lookup_mgr (cr_mgr s') = (lookup_mgr (cr_mgr s))(n := None)
     else cr_retryQueue s' = (cr_retryQueue s)(n \<mapsto> True) \<and> cr_mgr s' = cr_mgr s" by simp
  ultimately show ?thesis by blast
qed

text \<open>
  The member cluster answers well, but the namespace of the program is not there any more.
\<close>

definition namespace_gone :: "('w, 'c) cluster_env \<Rightarrow> string \<Rightarrow> ('w, 'c) ClusterReconciler \<Rightarrow> bool" where
  "namespace_gone env n s \<longleftrightarrow> \<not> ce_RetainMemberClusterResource env \<and> cr_retryQueue s n = None \<and>
     (\<exists>c. Get_mgr (cr_mgr s) n = (Some c, None) \<and>
       (\<forall>w. fst (run_state (mc_DeleteNs (ce_Member env (ic_Client c))) w) = Some NotFound))"

lemma deleteExternalResources_namespace_gone:
  assumes "namespace_gone env (clu_Name cl) s" and mem: "\<And>c. member_apart (ce_Member env c) view"
  shows "\<exists>s'. run_state (deleteExternalResources env cl) s = (Ret (Some NotFound), s') \<and>
    view (cr_world s') = view (cr_world s) \<and> cr_mgr s' = cr_mgr s \<and> cr_retryQueue s' = cr_retryQueue s"
proof -
  from assms(1) obtain c where c: "cr_retryQueue s (clu_Name cl) = None" "Get_mgr (cr_mgr s) (clu_Name cl) = (Some c, None)"
      "\<not> ce_RetainMemberClusterResource env" "fst (run_state (mc_DeleteNs (ce_Member env (ic_Client c))) (cr_world s)) = Some NotFound"
    unfolding namespace_gone_def by blast
  moreover obtain w' where w': "run_state (mc_DeleteNs (ce_Member env (ic_Client c))) (cr_world s) = (Some NotFound, w')"
    using c(4) by (metis prod.collapse)
  moreover have "view w' = view (cr_world s)"
    using mem [of "ic_Client c"] keeps_viewD [OF _ w'] by (auto simp: member_apart_def)
  ultimately show ?thesis by (intro exI [of _ "s\<lparr>cr_world := w'\<rparr>"]) (simp add: deleteExternalResources_def)
qed

lemma Reconcile_cluster_namespace_gone:
  assumes world: "cluster_world env view" and named: "\<And>w k c. view w k = Some c \<Longrightarrow> clu_Name c = k"
    and cl: "view (cr_world s) n = Some cl" "clu_DeletionTimestamp cl \<noteq> None" "clusterFinalizer \<in> set (clu_Finalizers cl)"
    and gone: "namespace_gone env n s" and run: "run_state (Reconcile_cluster env n) s = (r, s')"
  shows "(\<exists>e. r = Ret (Some e)) \<and> bare_view view (cr_world s') = bare_view view (cr_world s) \<and>
    cr_mgr s' = cr_mgr s \<and> cr_retryQueue s' = cr_retryQueue s"
proof -
  from world have api: "cluster_api (ce_Clusters env) view" and mem: "\<And>c. member_apart (ce_Member env c) view"
    by (auto simp: cluster_world_def)
  have n: "clu_Name cl = n" using named cl(1) by blast
  from api cl(1,2) run show ?thesis
  proof (cases rule: Reconcile_cluster_deleting)
    case unread
    then show ?thesis by (simp add: bare_view_def)
  next
    case (read s1)
    obtain e w2 where u: "run_state (UpdateClusterStatusByState (ce_Clusters env) cl ClusterDeleting) (cr_world s1) = (e, w2)" by fastforce
    have b: "bare_view view w2 = bare_view view (cr_world s)"
      using keeps_viewD [OF UpdateClusterStatusByState_keeps [OF api] u] read(3) by (simp add: bare_view_def)
    from gone read(1,2) n have "namespace_gone env (clu_Name cl) (s1\<lparr>cr_world := w2\<rparr>)" by (simp add: namespace_gone_def)
    from deleteExternalResources_namespace_gone [OF this mem] obtain s3 where
      s3: "run_state (deleteExternalResources env cl) (s1\<lparr>cr_world := w2\<rparr>) = (Ret (Some NotFound), s3)"
        "view (cr_world s3) = view w2" "cr_mgr s3 = cr_mgr s1" "cr_retryQueue s3 = cr_retryQueue s1"
      by auto
    from s3(2) b have "bare_view view (cr_world s3) = bare_view view (cr_world s)" by (simp add: bare_view_def)
    with read u s3 b cl(3) show ?thesis
      by (cases e) (auto simp: removeFinalizer_cluster_def)
  qed
qed

text \<open>The states that such reconciliations go through agree in all but the status.\<close>

lemma Reconcile_cluster_stuck_step:
  assumes world: "cluster_world env view" "\<And>w k c. view w k = Some c \<Longrightarrow> clu_Name c = k"
    and cl: "view (cr_world s) n = Some cl" "clu_DeletionTimestamp cl \<noteq> None" "clusterFinalizer \<in> set (clu_Finalizers cl)"
    and gone: "namespace_gone env n s"
    and u: "bare_view view (cr_world u) = bare_view view (cr_world s)" "cr_mgr u = cr_mgr s" "cr_retryQueue u = cr_retryQueue s"
    and run: "run_state (Reconcile_cluster env n) u = (r, u')"
  shows "(\<exists>e. r = Ret (Some e)) \<and> (bare_view view (cr_world u') = bare_view view (cr_world s) \<and> cr_mgr u' = cr_mgr s \<and> cr_retryQueue u' = cr_retryQueue s)"
proof -
  from bare_view_same [OF u(1) cl(1)] obtain cl' where cl': "view (cr_world u) n = Some cl'" "bare cl' = bare cl" by blast
  then have "clu_DeletionTimestamp cl' \<noteq> None" "clusterFinalizer \<in> set (clu_Finalizers cl')"
    using cl(2,3) bare_fields(2,3) by metis+
  moreover have "namespace_gone env n u" using gone u(2,3) by (simp add: namespace_gone_def)
  ultimately show ?thesis
    using Reconcile_cluster_namespace_gone [OF world cl'(1) _ _ _ run] u by simp
qed

text \<open>
  A cluster whose namespace of the program is already gone can not be deleted. When the
  member cluster answers the deletion of the namespace with \<open>NotFound\<close>, which the log
  calls a skip, every reconciliation of the deleted cluster object ends with an error, however
  often it is repeated: the finalizer stays on the object and the cluster stays in the table of
  the manager.
\<close>

lemma Reconcile_cluster_stuck:
  assumes "cluster_world env view" and "\<And>w k c. view w k = Some c \<Longrightarrow> clu_Name c = k"
    and "view (cr_world s) n = Some cl" and "clu_DeletionTimestamp cl \<noteq> None" and "clusterFinalizer \<in> set (clu_Finalizers cl)"
    and "namespace_gone env n s"
  shows "let s' = ((\<lambda>s. snd (run_state (Reconcile_cluster env n) s)) ^^ k) s
    in (\<exists>e. fst (run_state (Reconcile_cluster env n) s') = Ret (Some e)) \<and>
       (\<exists>cl'. view (cr_world s') n = Some cl' \<and> clusterFinalizer \<in> set (clu_Finalizers cl')) \<and> cr_mgr s' = cr_mgr s"
proof -
  let ?step = "\<lambda>s. snd (run_state (Reconcile_cluster env n) s)"
  have run: "run_state (Reconcile_cluster env n) u = (fst (run_state (Reconcile_cluster env n) u), ?step u)" for u by simp
  note step = Reconcile_cluster_stuck_step [OF assms _ _ _ run]
  have kept: "bare_view view (cr_world ((?step ^^ k) s)) = bare_view view (cr_world s) \<and> cr_mgr ((?step ^^ k) s) = cr_mgr s \<and>
      cr_retryQueue ((?step ^^ k) s) = cr_retryQueue s"
    by (induction k) (simp_all add: step [THEN conjunct2])
  with bare_view_same [where view = view and w = "cr_world s" and n = n, OF _ assms(3)] have "\<exists>cl'. view (cr_world ((?step ^^ k) s)) n = Some cl' \<and> bare cl' = bare cl" by blast
  with assms(5) have "\<exists>cl'. view (cr_world ((?step ^^ k) s)) n = Some cl' \<and> clusterFinalizer \<in> set (clu_Finalizers cl')"
    by (metis bare_fields(2))
  with kept step show ?thesis by (simp add: Let_def)
qed

subsection \<open>Connection\<close>

text \<open>A cluster under control: it waits in the retry queue, or it is in the table and scouted.\<close>

definition scouted_by :: "'c MultiClustersMgr \<Rightarrow> string \<Rightarrow> bool" where
  "scouted_by m n \<longleftrightarrow> (\<exists>c. lookup_mgr m n = Some c \<and>
     (\<forall>sc. ic_Scout c = Some sc \<longrightarrow> sc_Once sc \<and> ClusterHealth sc \<noteq> ClusterAbnormal))"

lemma ScoutFor_scouted: "ScoutFor m n = ((None, b), m') \<Longrightarrow> scouted_by m' n"
  using ScoutFor_lookup [of m n b m'] by (auto simp: scouted_by_def ClusterHealth_def)

lemma enqueue_run [simp]:
  "run_state (enqueue cl) s = ((), s\<lparr>cr_retryQueue := (cr_retryQueue s)(clu_Name cl := Some (cr_retryQueue s (clu_Name cl) = Some True))\<rparr>)"
proof (cases "cr_retryQueue s (clu_Name cl)")
  case (Some b)
  then have "(cr_retryQueue s)(clu_Name cl := Some (cr_retryQueue s (clu_Name cl) = Some True)) = cr_retryQueue s" by (simp add: fun_upd_idem)
  with Some show ?thesis by (simp add: enqueue_def)
qed (simp add: enqueue_def)

lemma syncCluster_run:
  assumes world: "cluster_world env view" and run: "run_state (syncCluster env cl) s = (None, s')"
  shows "(cr_retryQueue s' (clu_Name cl) \<noteq> None \<or> scouted_by (cr_mgr s') (clu_Name cl)) \<and>
     bare_view view (cr_world s') = bare_view view (cr_world s)"
proof -
  from world have api: "cluster_api (ce_Clusters env) view" and mem: "\<And>c. member_apart (ce_Member env c) view"
    by (auto simp: cluster_world_def)
  note st = keeps_viewD [OF UpdateClusterStatusByState_keeps [OF api]]
  obtain e w1 where p: "run_state (UpdateClusterStatusByState (ce_Clusters env) cl ClusterProcessing) (cr_world s) = (e, w1)" by fastforce
  have failed: "\<exists>e v'. run_state (UpdateClusterStatusByState (ce_Clusters env) cl ClusterInitFailed) v = (e, v') \<and> bare_view view v' = bare_view view v" for v
    using st [of cl ClusterInitFailed v] by (metis surj_pair)
  have e: "e = None" using run p by (auto simp: syncCluster_def Let_def split: if_splits)
  show ?thesis
  proof (cases "ce_Connect env cl")
    case (Inl er)
    from failed [of w1] obtain e2 w2 where "run_state (UpdateClusterStatusByState (ce_Clusters env) cl ClusterInitFailed) w1 = (e2, w2)"
      "bare_view view w2 = bare_view view w1" by blast
    with run p e Inl st [OF p] show ?thesis by (auto simp: syncCluster_def Let_def)
  next
    case (Inr tc)
    obtain e2 w2 where d: "run_state (deployResources env (ce_Member env tc) cl (cr_pivotCluster s)) w1 = (e2, w2)" by fastforce
    have e2: "e2 = None" using run p e Inr d by (auto simp: syncCluster_def Let_def split: if_splits prod.splits)
    have b2: "bare_view view w2 = bare_view view (cr_world s)"
      using keeps_viewD [OF deploy_keeps [OF keeps_bare_member [OF mem]] d] st [OF p] by simp
    obtain e3 m where a: "AddInternalClusterWithScoutOpts (ce_Build env) cl (ce_ScoutInitialDelaySeconds env)
        (ce_ScoutWaitTimeoutSeconds env) (cr_mgr s) = (e3, m)" by fastforce
    from failed [of w2] obtain e4 w4 where f: "run_state (UpdateClusterStatusByState (ce_Clusters env) cl ClusterInitFailed) w2 = (e4, w4)"
      "bare_view view w4 = bare_view view w2" by blast
    show ?thesis
    proof (cases e3)
      case (Some er)
      with run p e Inr d e2 a f b2 show ?thesis by (auto simp: syncCluster_def Let_def)
    next
      case None
      obtain e5 b m' where sc: "ScoutFor m (clu_Name cl) = ((e5, b), m')" by (metis surj_pair)
      with run p e Inr d e2 a f None have "e5 = None" "s' = s\<lparr>cr_world := w2, cr_mgr := m'\<rparr>"
        by (auto simp: syncCluster_def Let_def split: if_splits)
      with ScoutFor_scouted [of m "clu_Name cl" b m'] sc b2 show ?thesis by simp
    qed
  qed
qed


subsection \<open>Witnesses\<close>

text \<open>
  A control plane that is a map of cluster objects, and member clusters that accept everything
  but the deletion of the namespace, whose answer is an argument.
\<close>

definition plane_view :: "(string \<Rightarrow> Cluster option) \<Rightarrow> string \<Rightarrow> Cluster option" where
  "plane_view w n = (case w n of None \<Rightarrow> None | Some c \<Rightarrow> if clu_Name c = n then Some c else None)"

definition plane_client :: "(string \<Rightarrow> Cluster option, Cluster) client" where
  "plane_client =
     \<lparr>cl_get = (\<lambda>k. State (\<lambda>w. (case plane_view w (snd k) of None \<Rightarrow> Inl NotFound | Some x \<Rightarrow> Inr x, w))),
      cl_create = (\<lambda>x. State (\<lambda>w. (None, w(clu_Name x \<mapsto> x)))),
      cl_update = (\<lambda>x. State (\<lambda>w. (None, w(clu_Name x := if clu_DeletionTimestamp x \<noteq> None \<and> clu_Finalizers x = [] then None else Some x)))),
      cl_status_update = (\<lambda>x. State (\<lambda>w. case plane_view w (clu_Name x) of None \<Rightarrow> (Some NotFound, w)
          | Some y \<Rightarrow> (None, w(clu_Name x \<mapsto> y\<lparr>clu_Status := clu_Status x\<rparr>)))),
      cl_delete = (\<lambda>x. State (\<lambda>w. (None, w(clu_Name x := None))))\<rparr>"

definition plane_env :: "err option \<Rightarrow> (string \<Rightarrow> Cluster option, nat) cluster_env" where
  "plane_env ns =
     \<lparr>ce_Clusters = plane_client, ce_ExpiredClusters = plane_client, ce_Connect = (\<lambda>_. Inr 0),
      ce_Member = (\<lambda>_. \<lparr>mc_Create = (\<lambda>_. State_Monad.return None), mc_GetWarden = State_Monad.return (Inl NotFound),
         mc_GetJob = State_Monad.return (Inr [(''Complete'', ''True'')]), mc_DeleteNs = State_Monad.return ns\<rparr>),
      ce_Build = member_build, ce_Crds = [], ce_WardenRegisterMode = False, ce_RetainMemberClusterResource = False,
      ce_ScoutInitialDelaySeconds = 0, ce_ScoutWaitTimeoutSeconds = 0\<rparr>"

lemma plane_view_upd [simp]:
  "clu_Name x = n \<Longrightarrow> plane_view (w(n \<mapsto> x)) = (plane_view w)(n \<mapsto> x)" "plane_view (w(n := None)) = (plane_view w)(n := None)"
  by (auto simp: plane_view_def)

lemma plane_view_named: "plane_view w n = Some c \<Longrightarrow> clu_Name c = n"
  by (auto simp: plane_view_def split: option.splits if_splits)

lemma plane_world: "cluster_world (plane_env ns) plane_view"
proof -
  have "cluster_api plane_client plane_view"
    unfolding cluster_api_def by (auto simp: plane_client_def split: option.splits dest: plane_view_named)
  then show ?thesis by (simp add: cluster_world_def plane_env_def member_apart_def)
qed

definition plane :: "string list \<Rightarrow> int option \<Rightarrow> (string \<Rightarrow> Cluster option, nat) ClusterReconciler" where
  "plane fins del =
     \<lparr>cr_world = [''m1'' \<mapsto> (member_obj ''m1'')\<lparr>clu_Finalizers := fins, clu_DeletionTimestamp := del\<rparr>],
      cr_pivotCluster = Some (member_obj ''p''), cr_retryQueue = (\<lambda>_. None), cr_mgr = mgr_init 0 ''v1''\<rparr>"

definition connected :: "string list \<Rightarrow> int option \<Rightarrow> (string \<Rightarrow> Cluster option, nat) ClusterReconciler" where
  "connected fins del = (plane fins del)\<lparr>cr_mgr := snd (AddInternalCluster member_build (member_obj ''m1'') (mgr_init 0 ''v1''))\<rparr>"

lemma plane_m1 [simp]:
  "plane_view (cr_world (plane fins del)) ''m1'' = Some ((member_obj ''m1'')\<lparr>clu_Finalizers := fins, clu_DeletionTimestamp := del\<rparr>)"
  "cr_world (connected fins del) = cr_world (plane fins del)" "cr_retryQueue (connected fins del) = (\<lambda>_. None)"
  by (simp_all add: plane_def connected_def plane_view_def member_obj_def)


theorem Reconcile_cluster_deleted_witness:
  "let s = connected [clusterFinalizer] (Some 1); r = run_state (Reconcile_cluster (plane_env None) ''m1'') s
   in lookup_mgr (cr_mgr s) ''m1'' \<noteq> None \<and> fst r = Ret None \<and> lookup_mgr (cr_mgr (snd r)) ''m1'' = None"
proof -
  let ?s = "connected [clusterFinalizer] (Some 1)"
  let ?r = "run_state (Reconcile_cluster (plane_env None) ''m1'') ?s"
  have r: "fst ?r = Ret None" and l: "lookup_mgr (cr_mgr ?s) ''m1'' \<noteq> None" by code_simp+
  have "?r = (Ret None, snd ?r)" using r by (simp add: prod_eq_iff)
  from Reconcile_cluster_deleted [OF plane_world plane_view_named _ _ _ this] r l show ?thesis by (simp add: Let_def)
qed

end
