(* ===== verification/Authn.thy ===== *)
theory Authn
  imports UserScope RbacResolver
begin

section \<open>Authentication: tokens, login and the proxies behind it\<close>

text \<open>
  The tokens of \<open>pkg/authentication/authenticators\<close>, the login handlers of
  \<open>pkg/apiserver/cubeapi/user/auth.go\<close>, the middleware of \<open>pkg/apiserver/middlewares/auth\<close>
  that every request to the API server passes, and the proxy of \<open>pkg/warden/server/authproxy\<close>
  that forwards requests to the API server of a cluster in the name of the user. Signing and parsing
  of tokens, the salted hash of passwords, LDAP and GitHub are arguments; the clock is an argument
  of each call that reads it. Texts are ASCII.
\<close>

subsection \<open>Definitions: tokens\<close>

definition AuthorizationHeader :: string where "AuthorizationHeader = ''Authorization''"
definition ImpersonateUserKey :: string where "ImpersonateUserKey = ''Impersonate-User''"
definition FieldManager :: string where "FieldManager = ''fieldManager''"
definition BearerTokenPrefix :: string where "BearerTokenPrefix = ''Bearer''"
definition DefaultTokenExpireDuration :: int where "DefaultTokenExpireDuration = 3600"
definition ApiPathRoot :: string where "ApiPathRoot = ''/api/v1/cube''"

record Claims =
  jc_Username :: string
  jc_Groups :: "string list"
  jc_ExpiresAt :: int
  jc_Issuer :: string

record AuthJwt =
  aj_JwtSecret :: string
  aj_TokenExpireDuration :: int
  aj_JwtIssuer :: string

text \<open>The library of tokens: signing with a secret, and parsing at a time, which also tells validity.\<close>

record jwt_lib =
  jl_Sign :: "string \<Rightarrow> Claims \<Rightarrow> string result"
  jl_Parse :: "string \<Rightarrow> int \<Rightarrow> string \<Rightarrow> (Claims \<times> bool) result"

definition GenerateTokenWithExpired :: "jwt_lib \<Rightarrow> AuthJwt \<Rightarrow> int \<Rightarrow> string \<Rightarrow> int \<Rightarrow> string result" where
  "GenerateTokenWithExpired lib a now username expireDuration =
     (let tokenExpireDuration = DefaultTokenExpireDuration;
          tokenExpireDuration = (if aj_TokenExpireDuration a > 0 then aj_TokenExpireDuration a else tokenExpireDuration);
          tokenExpireDuration = (if expireDuration > 0 then expireDuration else tokenExpireDuration);
          claims = \<lparr>jc_Username = username, jc_Groups = [''kubecube''], jc_ExpiresAt = now + tokenExpireDuration,
                    jc_Issuer = aj_JwtIssuer a\<rparr>
      in (case jl_Sign lib (aj_JwtSecret a) claims of
            Inl e \<Rightarrow> Inl (Err ''sign token with jwt secret error'')
          | Inr signedToken \<Rightarrow> Inr signedToken))"

definition GenerateToken :: "jwt_lib \<Rightarrow> AuthJwt \<Rightarrow> int \<Rightarrow> string \<Rightarrow> string result" where
  "GenerateToken lib a now username = GenerateTokenWithExpired lib a now username DefaultTokenExpireDuration"

definition Authentication :: "jwt_lib \<Rightarrow> AuthJwt \<Rightarrow> int \<Rightarrow> string \<Rightarrow> string result" where
  "Authentication lib a now token =
     (if length token = 0 then Inl (Err ''invaild token'')
      else (case jl_Parse lib (aj_JwtSecret a) now token of
              Inl e \<Rightarrow> Inl (Err ''parse token error'')
            | Inr (claims, valid) \<Rightarrow> if valid then Inr (jc_Username claims) else Inl (Err ''invaild token'')))"

definition RefreshToken :: "jwt_lib \<Rightarrow> AuthJwt \<Rightarrow> int \<Rightarrow> string \<Rightarrow> (string \<times> string) result" where
  "RefreshToken lib a now token =
     (case Authentication lib a now token of
        Inl e \<Rightarrow> Inl e
      | Inr userInfo \<Rightarrow>
          (case GenerateToken lib a now userInfo of
             Inl e \<Rightarrow> Inl e
           | Inr newToken \<Rightarrow> Inr (userInfo, newToken)))"

subsection \<open>Definitions: requests\<close>

text \<open>
  A header maps a canonical key to its values. The query is kept as \<open>url.ParseQuery\<close> reads it, with
  an error for a text that it refuses.
\<close>

type_synonym http_header = "(string \<times> string list) list"

record http_request =
  hr_Method :: string
  hr_Path :: string
  hr_Header :: http_header
  hr_Cookies :: "(string \<times> string) list"
  hr_Query :: "(string \<times> string list) list result"

definition header_get :: "http_header \<Rightarrow> string \<Rightarrow> string" where
  "header_get h k = (case map_of h k of Some (v # _) \<Rightarrow> v | _ \<Rightarrow> [])"

definition header_set :: "http_header \<Rightarrow> string \<Rightarrow> string \<Rightarrow> http_header" where
  "header_set h k v = AList.update k [v] h"

definition header_del :: "http_header \<Rightarrow> string \<Rightarrow> http_header" where
  "header_del h k = AList.delete k h"

definition parse_bearer :: "string \<Rightarrow> string result" where
  "parse_bearer bearerToken =
     (let parts = (if Contains bearerToken '' '' then Split bearerToken '' '' else Split bearerToken ''+'')
      in if length parts < 2 \<or> \<not> EqualFold (parts ! 0) BearerTokenPrefix
         then Inl (Err (''bearer token: '' @ bearerToken @ '' format is wrong''))
         else Inr (parts ! 1))"

definition GetTokenFromReq :: "http_request \<Rightarrow> string result" where
  "GetTokenFromReq req =
     (let bearerToken = header_get (hr_Header req) AuthorizationHeader
      in if bearerToken = [] then
           (case map_of (hr_Cookies req) AuthorizationHeader of
              None \<Rightarrow> Inl (Err ''http: named cookie not present'')
            | Some cookie \<Rightarrow> if cookie = [] then Inr [] else parse_bearer cookie)
         else parse_bearer bearerToken)"

definition GetUserFromReq :: "jwt_lib \<Rightarrow> AuthJwt \<Rightarrow> int \<Rightarrow> http_request \<Rightarrow> string result" where
  "GetUserFromReq lib a now req =
     (case GetTokenFromReq req of
        Inl e \<Rightarrow> Inl e
      | Inr token \<Rightarrow> Authentication lib a now token)"

definition IsSelf :: "jwt_lib \<Rightarrow> AuthJwt \<Rightarrow> int \<Rightarrow> http_request \<Rightarrow> string \<Rightarrow> bool" where
  "IsSelf lib a now r username =
     (case GetUserFromReq lib a now r of
        Inl e \<Rightarrow> False
      | Inr requestUser \<Rightarrow> username = requestUser)"

subsection \<open>Definitions: the middleware\<close>

datatype errinfo =
    InvalidBodyFormat | MissingParamNameOrPwdOrLoginType | AuthenticateError | UserIsDisabled
  | CreateResourceError string | UpdateResourceError string | GetResourceError string | ForbiddenErr | UserNotExist
  | MissingParamUserName | UserNameDuplicated string | MissingParamPassword | InvalidParameterPassword
  | InvalidParameterPhone | InvalidParameterEmail | MissingParamFile | InvalidFileType | PasswordWrong
  | KeyNotExistErr | BadRequest err | NotMatchErr | MaxKeyErr | SecretNotMatchErr | UserNotExistErr
  | ClusterNotFoundError string | InvalidHttpMethod | InvalidResourceTypeErr | ParamsInvalid err | CustomReturn int err

text \<open>
  What the middleware does to a request: the changed request, the values put into the context, the
  cookie and the headers of the answer, and the error the request was refused with, if any. A request
  that is not refused is handed to the next handler.
\<close>

record gin_ctx =
  gc_Request :: http_request
  gc_Keys :: "(string \<times> string) list"
  gc_Cookie :: "string option"
  gc_RespHeader :: "(string \<times> string) list"
  gc_Fail :: "errinfo option"

definition AuthWhiteList :: "(string \<times> string) list" where
  "AuthWhiteList =
     [(ApiPathRoot @ ''/login'', ''POST''), (ApiPathRoot @ ''/audit'', ''POST''), (ApiPathRoot @ ''/key/token'', ''GET''),
      (ApiPathRoot @ ''/authorization/access'', ''POST''), (ApiPathRoot @ ''/oauth/redirect'', ''GET''),
      (ApiPathRoot @ ''/user/pwd'', ''PUT''), (ApiPathRoot @ ''/user/valid/:username'', ''GET''),
      (ApiPathRoot @ ''/clusters/register'', ''POST'')]"

text \<open>None of the patterns holds a character with a meaning in a regular expression, and none is anchored.\<close>

fun WithinWhiteList :: "string \<Rightarrow> string \<Rightarrow> (string \<times> string) list \<Rightarrow> bool" where
  "WithinWhiteList queryUrl meth [] = False"
| "WithinWhiteList queryUrl meth ((k, v) # whiteList) =
     (if Contains queryUrl k \<and> meth = v then True else WithinWhiteList queryUrl meth whiteList)"

definition set_token :: "string \<Rightarrow> string \<Rightarrow> gin_ctx \<Rightarrow> gin_ctx" where
  "set_token username newToken c =
     (let v = BearerTokenPrefix @ '' '' @ newToken; req = gc_Request c
      in c\<lparr>gc_Request := req\<lparr>hr_Header := header_set (header_set (hr_Header req) AuthorizationHeader v) ImpersonateUserKey username\<rparr>,
           gc_Cookie := Some v, gc_Keys := AList.update ''userName'' username (gc_Keys c)\<rparr>)"

definition defaultAuth :: "jwt_lib \<Rightarrow> AuthJwt \<Rightarrow> int \<Rightarrow> gin_ctx \<Rightarrow> gin_ctx" where
  "defaultAuth lib a now c =
     (case GetTokenFromReq (gc_Request c) of
        Inl e \<Rightarrow> c\<lparr>gc_Fail := Some AuthenticateError\<rparr>
      | Inr userToken \<Rightarrow>
          (case RefreshToken lib a now userToken of
             Inl e \<Rightarrow> c\<lparr>gc_Fail := Some AuthenticateError\<rparr>
           | Inr (user, newToken) \<Rightarrow> set_token user newToken c))"

record GenericIdentity =
  gi_Username :: string
  gi_Header :: http_header
  gi_AccountId :: string

text \<open>What the third party answers: the status, the fields of the body that are read, if it is JSON.\<close>

datatype json_field = JMissing | JText string | JOther

record generic_answer =
  ga_Status :: int
  ga_Body :: "(json_field \<times> json_field) option"
  ga_Header :: http_header

definition Authenticate_generic :: "(http_header \<Rightarrow> generic_answer result) \<Rightarrow> http_header \<Rightarrow> GenericIdentity result" where
  "Authenticate_generic call headers =
     (case call headers of
        Inl e \<Rightarrow> Inl (Err ''request to generic auth error'')
      | Inr resp \<Rightarrow>
          if ga_Status resp \<noteq> 200 then Inl (Err ''response from the third party is not ok'')
          else (case ga_Body resp of
            None \<Rightarrow> Inl (Err ''json unmarshal error'')
          | Some (username, account) \<Rightarrow>
              (case username of
                 JOther \<Rightarrow> Inl (Err ''username is not string type'')
               | _ \<Rightarrow>
                 (let name = (case username of JText n \<Rightarrow> n | _ \<Rightarrow> [])
                  in case account of
                       JOther \<Rightarrow> Inl (Err ''accountId is not string type'')
                     | _ \<Rightarrow> Inr \<lparr>gi_Username = name, gi_Header = ga_Header resp,
                               gi_AccountId = (case account of JText n \<Rightarrow> n | _ \<Rightarrow> [])\<rparr>))))"

definition genericAuth :: "jwt_lib \<Rightarrow> AuthJwt \<Rightarrow> int \<Rightarrow> (http_header \<Rightarrow> generic_answer result) \<Rightarrow> gin_ctx \<Rightarrow> gin_ctx" where
  "genericAuth lib a now call c =
     (case Authenticate_generic call (hr_Header (gc_Request c)) of
        Inl e \<Rightarrow> c\<lparr>gc_Fail := Some AuthenticateError\<rparr>
      | Inr user \<Rightarrow>
          (case GenerateToken lib a now (gi_Username user) of
             Inl e \<Rightarrow> c\<lparr>gc_Fail := Some AuthenticateError\<rparr>
           | Inr newToken \<Rightarrow>
               (let c = set_token (gi_Username user) newToken c;
                    c = (case map_of (gi_Header user) ''Cookie'' of
                           Some (v # _ # _) \<Rightarrow> c\<lparr>gc_RespHeader := AList.update ''Cookie'' v (gc_RespHeader c)\<rparr>
                         | _ \<Rightarrow> c)
                in c\<lparr>gc_Keys := AList.update ''accountId'' (gi_AccountId user) (gc_Keys c)\<rparr>)))"

definition Auth :: "jwt_lib \<Rightarrow> AuthJwt \<Rightarrow> int \<Rightarrow> (http_header \<Rightarrow> generic_answer result) option \<Rightarrow> gin_ctx \<Rightarrow> gin_ctx" where
  "Auth lib a now generic c =
     (if WithinWhiteList (hr_Path (gc_Request c)) (hr_Method (gc_Request c)) AuthWhiteList then c
      else (case generic of
              Some call \<Rightarrow> genericAuth lib a now call c
            | None \<Rightarrow> defaultAuth lib a now c))"

subsection \<open>Definitions: the proxy of the warden\<close>

definition IsPrint :: "char \<Rightarrow> bool" where
  "IsPrint c \<longleftrightarrow> 32 \<le> (of_char c :: nat) \<and> (of_char c :: nat) < 127"

definition AddQuery :: "http_request \<Rightarrow> string \<Rightarrow> string \<Rightarrow> err option \<times> http_request" where
  "AddQuery req key value =
     (case hr_Query req of
        Inl e \<Rightarrow> (Some e, req)
      | Inr query \<Rightarrow> (None, req\<lparr>hr_Query := Inr (AList.update key [value] query)\<rparr>))"

definition AddFieldManager :: "http_request \<Rightarrow> string \<Rightarrow> err option \<times> http_request" where
  "AddFieldManager req username =
     (if \<not> list_all IsPrint username then (Some (Err ''username not printable''), req)
      else let username = ''cube-'' @ username
           in if length username > 128 then (Some (Err ''username should not be longer than 128''), req)
              else AddQuery req FieldManager username)"

datatype proxy_result = WriteHeader int | Forward http_request

definition ServeHTTP_authproxy :: "jwt_lib \<Rightarrow> AuthJwt \<Rightarrow> int \<Rightarrow> belongs_cache \<Rightarrow> http_request \<Rightarrow> proxy_result" where
  "ServeHTTP_authproxy lib a now cli r =
     (case GetUserFromReq lib a now r of
        Inl e \<Rightarrow> WriteHeader 401
      | Inr username \<Rightarrow>
          (case RelationshipDetermine cli (hr_Path r) username of
             (allowed, e) \<Rightarrow>
               if e = None \<and> \<not> allowed then WriteHeader 403
               else (case AddFieldManager r username of
                       (_, r) \<Rightarrow> Forward (r\<lparr>hr_Header := header_del (header_set (hr_Header r) ImpersonateUserKey username) AuthorizationHeader\<rparr>))))"

subsection \<open>Definitions: accounts and login\<close>

definition NormalState :: string where "NormalState = ''normal''"
definition ForbiddenState :: string where "ForbiddenState = ''forbidden''"
definition NormalLogin :: string where "NormalLogin = ''normal''"
definition LDAPLogin :: string where "LDAPLogin = ''ldap''"
definition GitHubLogin_type :: string where "GitHubLogin_type = ''github''"
definition English :: string where "English = ''en''"
definition Chinese :: string where "Chinese = ''zh''"
definition ldapUserNamePrefix :: string where "ldapUserNamePrefix = ''ldap-''"
definition gitHubUserNamePrefix :: string where "gitHubUserNamePrefix = ''github-''"
definition resourceTypeUser :: string where "resourceTypeUser = ''user''"

text \<open>The rest of the user object, beside the scopes and the status that the controllers work on.\<close>

record Account = User +
  ac_Labels :: labels
  ac_Annotations :: labels
  ac_Password :: string
  ac_DisplayName :: string
  ac_Email :: string
  ac_Phone :: string
  ac_Language :: string
  ac_LoginType :: string
  ac_State :: string
  ac_LastLoginTime :: "int option"
  ac_LastLoginIP :: string

definition empty_account :: Account where
  "empty_account = \<lparr>ur_Name = [], ur_Finalizers = [], ur_DeletionTimestamp = None, ur_ScopeBindings = [],
     ur_Status = \<lparr>us_BelongTenants = [], us_BelongProjectInfos = [], us_PlatformAdmin = False\<rparr>,
     ac_Labels = None, ac_Annotations = None, ac_Password = [], ac_DisplayName = [], ac_Email = [], ac_Phone = [],
     ac_Language = [], ac_LoginType = [], ac_State = [], ac_LastLoginTime = None, ac_LastLoginIP = []\<rparr>"

text \<open>
  What the handlers call: the cache and the API server, the hash of passwords with its salt, the
  identity providers, and fresh identifiers, given by a number that a call uses up.
\<close>

record 'w authn_env =
  ae_Jwt :: jwt_lib
  ae_AuthJwt :: AuthJwt
  ae_CacheUsers :: "('w, Account) client"
  ae_Users :: "('w, Account) client"
  ae_Md5Salt :: "string \<Rightarrow> string"
  ae_NewUuid :: "('w, string) state"
  ae_IsLdapOpen :: bool
  ae_LdapAuthenticate :: "string \<Rightarrow> string \<Rightarrow> err option"
  ae_GitHubIsEnable :: bool
  ae_IdentityExchange :: "string \<Rightarrow> string result"

datatype 'a answer = Fail errinfo | Success 'a

definition hex_digit :: "nat \<Rightarrow> char" where
  "hex_digit n = char_of (if n < 10 then 48 + n else 87 + n)"

definition EncodeToString :: "string \<Rightarrow> string" where
  "EncodeToString s = concat (map (\<lambda>c. [hex_digit (of_char c div 16), hex_digit (of_char c mod 16)]) s)"

definition GetUserByName :: "'w authn_env \<Rightarrow> string \<Rightarrow> ('w, errinfo + Account option) state" where
  "GetUserByName env name = do {
     r \<leftarrow> cl_get (ae_CacheUsers env) ([], name);
     State_Monad.return (case r of
        Inl e \<Rightarrow> if e = NotFound then Inr None else Inl (GetResourceError resourceTypeUser)
      | Inr user \<Rightarrow> Inr (Some user))
   }"

definition CreateUserImpl :: "'w authn_env \<Rightarrow> Account \<Rightarrow> ('w, errinfo option) state" where
  "CreateUserImpl env user = do {
     e \<leftarrow> cl_create (ae_Users env) user;
     State_Monad.return (if e \<noteq> None then Some (CreateResourceError resourceTypeUser) else None)
   }"

definition UpdateUserSpecImpl :: "'w authn_env \<Rightarrow> Account \<Rightarrow> ('w, errinfo option) state" where
  "UpdateUserSpecImpl env newUser = do {
     e \<leftarrow> cl_update (ae_Users env) newUser;
     State_Monad.return (if e \<noteq> None then Some (UpdateResourceError resourceTypeUser) else None)
   }"

definition UpdateUserStatusImpl :: "'w authn_env \<Rightarrow> Account \<Rightarrow> ('w, errinfo option) state" where
  "UpdateUserStatusImpl env newUser = do {
     e \<leftarrow> cl_status_update (ae_Users env) newUser;
     State_Monad.return (if e \<noteq> None then Some (UpdateResourceError resourceTypeUser) else None)
   }"

definition normalLogin :: "'w authn_env \<Rightarrow> string \<Rightarrow> string \<Rightarrow> ('w, errinfo + Account) state" where
  "normalLogin env name password = do {
     r \<leftarrow> GetUserByName env name;
     State_Monad.return (case r of
        Inl respInfo \<Rightarrow> Inl respInfo
      | Inr None \<Rightarrow> Inl AuthenticateError
      | Inr (Some user) \<Rightarrow>
          if ac_Password user \<noteq> ae_Md5Salt env password then Inl AuthenticateError
          else if ac_State user = ForbiddenState then Inl UserIsDisabled
          else Inr user)
   }"

definition ldapLogin :: "'w authn_env \<Rightarrow> string \<Rightarrow> string \<Rightarrow> ('w, errinfo + Account) state" where
  "ldapLogin env name password =
     (let baseName = EncodeToString name in do {
        r \<leftarrow> GetUserByName env (ldapUserNamePrefix @ baseName);
        case r of
          Inl respInfo \<Rightarrow> State_Monad.return (Inl respInfo)
        | Inr user \<Rightarrow>
            if (case user of Some u \<Rightarrow> ac_State u = ForbiddenState | None \<Rightarrow> False) then State_Monad.return (Inl UserIsDisabled)
            else if ae_LdapAuthenticate env name password \<noteq> None then State_Monad.return (Inl AuthenticateError)
            else (case user of
              Some u \<Rightarrow> State_Monad.return (Inr u)
            | None \<Rightarrow> do {
                uuid \<leftarrow> ae_NewUuid env;
                let user = empty_account\<lparr>ur_Name := ldapUserNamePrefix @ baseName, ac_LoginType := LDAPLogin,
                       ac_Password := ae_Md5Salt env uuid, ac_Labels := Some [(''name'', name)]\<rparr>;
                respInfo \<leftarrow> CreateUserImpl env user;
                State_Monad.return (case respInfo of Some e \<Rightarrow> Inl e | None \<Rightarrow> Inr user)
              })
      })"

text \<open>
  A successful login answers with the user, the password taken out, and sets the token as a
  cookie.
\<close>

definition Login :: "'w authn_env \<Rightarrow> int \<Rightarrow> string \<Rightarrow> (string \<times> string \<times> string) option \<Rightarrow> ('w, (Account \<times> string) answer) state" where
  "Login env now clientIP body =
     (case body of
        None \<Rightarrow> State_Monad.return (Fail InvalidBodyFormat)
      | Some (name, password, loginType) \<Rightarrow>
          if name = [] \<or> password = [] \<or> loginType = [] then State_Monad.return (Fail MissingParamNameOrPwdOrLoginType)
          else do {
            r \<leftarrow> (if loginType = LDAPLogin \<and> ae_IsLdapOpen env then ldapLogin env name password
                  else if loginType = NormalLogin then normalLogin env name password
                  else State_Monad.return (Inl AuthenticateError));
            case r of
              Inl errInfo \<Rightarrow> State_Monad.return (Fail errInfo)
            | Inr user \<Rightarrow> do {
                let user = user\<lparr>ac_LastLoginIP := clientIP, ac_LastLoginTime := Some now\<rparr>;
                respInfo \<leftarrow> UpdateUserStatusImpl env user;
                State_Monad.return (case respInfo of
                   Some e \<Rightarrow> Fail e
                 | None \<Rightarrow>
                     (case GenerateToken (ae_Jwt env) (ae_AuthJwt env) now name of
                        Inl e \<Rightarrow> Fail AuthenticateError
                      | Inr token \<Rightarrow> Success (user\<lparr>ac_Password := []\<rparr>, BearerTokenPrefix @ '' '' @ token)))
              }
          })"

definition GitHubLogin :: "'w authn_env \<Rightarrow> int \<Rightarrow> string \<Rightarrow> string \<Rightarrow> ('w, (Account \<times> string) answer) state" where
  "GitHubLogin env now clientIP code =
     (if code = [] then State_Monad.return (Fail AuthenticateError)
      else if \<not> ae_GitHubIsEnable env then State_Monad.return (Fail AuthenticateError)
      else (case ae_IdentityExchange env code of
        Inl e \<Rightarrow> State_Monad.return (Fail AuthenticateError)
      | Inr login \<Rightarrow>
          (let userName = EncodeToString login in do {
             r \<leftarrow> GetUserByName env (gitHubUserNamePrefix @ userName);
             case r of
               Inl respInfo \<Rightarrow> State_Monad.return (Fail respInfo)
             | Inr userFind \<Rightarrow>
                 if (case userFind of Some u \<Rightarrow> ac_State u = ForbiddenState | None \<Rightarrow> False) then State_Monad.return (Fail UserIsDisabled)
                 else do {
                   r \<leftarrow> (case userFind of
                          Some u \<Rightarrow> State_Monad.return (Inr u)
                        | None \<Rightarrow> do {
                            uuid \<leftarrow> ae_NewUuid env;
                            let user = empty_account\<lparr>ur_Name := gitHubUserNamePrefix @ userName,
                                   ac_DisplayName := gitHubUserNamePrefix @ login, ac_LoginType := GitHubLogin_type,
                                   ac_Password := ae_Md5Salt env uuid, ac_Labels := Some [(''name'', login)]\<rparr>;
                            respInfo \<leftarrow> CreateUserImpl env user;
                            State_Monad.return (case respInfo of Some e \<Rightarrow> Inl e | None \<Rightarrow> Inr user)
                          });
                   case r of
                     Inl respInfo \<Rightarrow> State_Monad.return (Fail respInfo)
                   | Inr user \<Rightarrow> do {
                       let user = user\<lparr>ac_LastLoginIP := clientIP, ac_LastLoginTime := Some now\<rparr>;
                       respInfo \<leftarrow> UpdateUserStatusImpl env user;
                       State_Monad.return (case respInfo of
                          Some e \<Rightarrow> Fail e
                        | None \<Rightarrow>
                            (case GenerateToken (ae_Jwt env) (ae_AuthJwt env) now userName of
                               Inl e \<Rightarrow> Fail AuthenticateError
                             | Inr token \<Rightarrow> Success (user, BearerTokenPrefix @ '' '' @ token)))
                     }
                 }
           })))"

text \<open>How a cookie is written: unreserved characters stay, a blank becomes a plus sign, the rest is a percent code.\<close>

definition unreserved :: "char \<Rightarrow> bool" where
  "unreserved c \<longleftrightarrow> (let n = of_char c :: nat in
     97 \<le> n \<and> n \<le> 122 \<or> 65 \<le> n \<and> n \<le> 90 \<or> 48 \<le> n \<and> n \<le> 57 \<or> c \<in> {CHR ''-'', CHR ''_'', CHR ''.'', CHR ''~''})"

definition hex_upper :: "nat \<Rightarrow> char" where
  "hex_upper n = char_of (if n < 10 then 48 + n else 55 + n)"

definition QueryEscape :: "string \<Rightarrow> string" where
  "QueryEscape s = concat (map (\<lambda>c. if unreserved c then [c] else if c = CHR '' '' then [CHR ''+'']
     else [CHR ''%'', hex_upper (of_char c div 16), hex_upper (of_char c mod 16)]) s)"

subsection \<open>Tokens\<close>

text \<open>
  What the token library promises: a signed token is a text of unreserved characters that parses with
  the same secret to the claims it was made of, until the time that they name has passed.
\<close>

definition jwt_sound :: "jwt_lib \<Rightarrow> bool" where
  "jwt_sound lib \<longleftrightarrow> (\<forall>s c t. jl_Sign lib s c = Inr t \<and> jc_ExpiresAt c \<noteq> 0 \<longrightarrow>
     t \<noteq> [] \<and> list_all unreserved t \<and>
     (\<forall>now. if now \<le> jc_ExpiresAt c then jl_Parse lib s now t = Inr (c, True) else \<exists>e. jl_Parse lib s now t = Inl e))"

lemma GenerateToken_iff:
  "GenerateToken lib a now u = Inr t \<longleftrightarrow>
     jl_Sign lib (aj_JwtSecret a) \<lparr>jc_Username = u, jc_Groups = [''kubecube''], jc_ExpiresAt = now + 3600, jc_Issuer = aj_JwtIssuer a\<rparr> = Inr t"
  by (auto simp: GenerateToken_def GenerateTokenWithExpired_def DefaultTokenExpireDuration_def Let_def split: sum.splits)

lemma Authentication_generated:
  assumes "jwt_sound lib" and "0 \<le> now" and "GenerateToken lib a now u = Inr t"
  shows "Authentication lib a now' t = Inr u \<longleftrightarrow> now' \<le> now + 3600" and "t \<noteq> []" and "list_all unreserved t"
proof -
  let ?c = "\<lparr>jc_Username = u, jc_Groups = [''kubecube''], jc_ExpiresAt = now + 3600, jc_Issuer = aj_JwtIssuer a\<rparr>"
  from assms(3) have "jl_Sign lib (aj_JwtSecret a) ?c = Inr t" by (simp add: GenerateToken_iff)
  with assms(1,2) have "t \<noteq> [] \<and> list_all unreserved t \<and>
      (if now' \<le> now + 3600 then jl_Parse lib (aj_JwtSecret a) now' t = Inr (?c, True) else \<exists>e. jl_Parse lib (aj_JwtSecret a) now' t = Inl e)"
    unfolding jwt_sound_def by fastforce
  then show "Authentication lib a now' t = Inr u \<longleftrightarrow> now' \<le> now + 3600" and "t \<noteq> []" and "list_all unreserved t"
    by (auto simp: Authentication_def split: if_splits)
qed

lemma unreserved_plain: "list_all unreserved t \<Longrightarrow> CHR ''+'' \<notin> set t \<and> CHR '' '' \<notin> set t"
  by (auto simp: list_all_iff unreserved_def Let_def)

lemma QueryEscape_unreserved: "list_all unreserved t \<Longrightarrow> QueryEscape t = t"
  by (induction t) (auto simp: QueryEscape_def)

lemma QueryEscape_append: "QueryEscape (s @ t) = QueryEscape s @ QueryEscape t"
  by (simp add: QueryEscape_def)

lemma Split_char_two: "c \<notin> set x \<Longrightarrow> c \<notin> set y \<Longrightarrow> Split (x @ c # y) [c] = [x, y]"
  using Split_Join_char [of "[x, y]" c] by simp

lemma Contains_char: "Contains s [c] \<longleftrightarrow> c \<in> set s"
  by (auto simp: Contains_iff in_set_conv_decomp)

lemma cookie_text:
  assumes "list_all unreserved t"
  shows "QueryEscape (BearerTokenPrefix @ '' '' @ t) = ''Bearer'' @ CHR ''+'' # t"
    and "parse_bearer (''Bearer'' @ CHR ''+'' # t) = Inr t"
    and "parse_bearer (BearerTokenPrefix @ '' '' @ t) = Inr t"
proof -
  note p = unreserved_plain [OF assms]
  have "QueryEscape ''Bearer'' = ''Bearer''" "QueryEscape '' '' = ''+''" by code_simp+
  then show "QueryEscape (BearerTokenPrefix @ '' '' @ t) = ''Bearer'' @ CHR ''+'' # t"
    by (simp add: QueryEscape_append QueryEscape_unreserved [OF assms] BearerTokenPrefix_def flip: append.simps(2))
  have f: "EqualFold ''Bearer'' ''Bearer''" by (simp add: EqualFold_def)
  have "Split (''Bearer'' @ CHR ''+'' # t) ''+'' = [''Bearer'', t]" using p by (intro Split_char_two) auto
  moreover have "\<not> Contains (''Bearer'' @ CHR ''+'' # t) '' ''" using p by (simp add: Contains_char)
  ultimately show "parse_bearer (''Bearer'' @ CHR ''+'' # t) = Inr t"
    using f unfolding parse_bearer_def BearerTokenPrefix_def Let_def by simp
  have "Split (''Bearer'' @ CHR '' '' # t) '' '' = [''Bearer'', t]" using p by (intro Split_char_two) auto
  moreover have "Contains (''Bearer'' @ CHR '' '' # t) '' ''" by (simp add: Contains_char)
  ultimately show "parse_bearer (BearerTokenPrefix @ '' '' @ t) = Inr t"
    using f unfolding parse_bearer_def BearerTokenPrefix_def Let_def by simp
qed

text \<open>
  C25: a session lasts an hour. A request that brings back the cookie with a token made for a user at
  some time is taken as that user's exactly until an hour has passed, whatever duration has been
  configured.
\<close>

theorem session_roundtrip:
  assumes "jwt_sound lib" and "0 \<le> now" and "GenerateToken lib a now u = Inr t"
    and "header_get (hr_Header req) AuthorizationHeader = []"
    and "map_of (hr_Cookies req) AuthorizationHeader = Some (QueryEscape (BearerTokenPrefix @ '' '' @ t))"
  shows "GetUserFromReq lib a now' req = Inr u \<longleftrightarrow> now' \<le> now + 3600"
proof -
  note T = Authentication_generated [OF assms(1-3)]
  have "GetTokenFromReq req = Inr t"
    unfolding GetTokenFromReq_def assms(4,5) cookie_text(1) [OF T(3)] Let_def using cookie_text(2) [OF T(3)] by simp
  with T(1) show ?thesis by (simp add: GetUserFromReq_def)
qed

subsection \<open>The middleware\<close>

text \<open>The requests that need no token: the pattern may stand anywhere in the path.\<close>

definition open_request :: "http_request \<Rightarrow> bool" where
  "open_request req \<longleftrightarrow> (\<exists>k x y. (k, hr_Method req) \<in> set AuthWhiteList \<and> hr_Path req = x @ k @ y)"

lemma WithinWhiteList_iff: "WithinWhiteList p m l \<longleftrightarrow> (\<exists>k. (k, m) \<in> set l \<and> Contains p k)"
  by (induction p m l rule: WithinWhiteList.induct) auto

text \<open>
  C26: whom the middleware lets in. Without a third party, a request is handed on exactly when its method
  goes with a pattern of the white list that occurs anywhere in its path, or when it brings a token
  that a user can be read from. In the second case the next handlers find that user in the context
  and in the header for impersonation, and a fresh token; every other header is as the client sent
  it.
\<close>

theorem Auth_exact:
  assumes "gc_Fail c = None" and "\<And>u. GetUserFromReq lib a now (gc_Request c) = Inr u \<Longrightarrow> \<exists>t. GenerateToken lib a now u = Inr t"
  shows "let req = gc_Request c; c' = Auth lib a now None c
         in (gc_Fail c' = None \<longleftrightarrow> open_request req \<or> (\<exists>u. GetUserFromReq lib a now req = Inr u)) \<and>
            (open_request req \<longrightarrow> c' = c) \<and>
            (\<forall>u. \<not> open_request req \<and> GetUserFromReq lib a now req = Inr u \<longrightarrow>
               map_of (gc_Keys c') ''userName'' = Some u \<and>
               (\<exists>t. GenerateToken lib a now u = Inr t \<and>
                 map_of (hr_Header (gc_Request c')) =
                   (map_of (hr_Header req))(AuthorizationHeader \<mapsto> [BearerTokenPrefix @ '' '' @ t], ImpersonateUserKey \<mapsto> [u])))"
proof -
  let ?req = "gc_Request c"
  have o: "WithinWhiteList (hr_Path ?req) (hr_Method ?req) AuthWhiteList \<longleftrightarrow> open_request ?req"
    by (auto simp: WithinWhiteList_iff Contains_iff open_request_def)
  show ?thesis
  proof (cases "WithinWhiteList (hr_Path ?req) (hr_Method ?req) AuthWhiteList")
    case True
    then have "Auth lib a now None c = c" by (simp add: Auth_def)
    then show ?thesis using assms(1) o True unfolding Let_def by auto
  next
    case w: False
    show ?thesis
    proof (cases "GetUserFromReq lib a now ?req")
      case (Inl e)
      with w o show ?thesis
        by (auto simp: Auth_def Let_def defaultAuth_def GetUserFromReq_def RefreshToken_def split: sum.splits)
    next
      case (Inr u)
      obtain t where t: "GenerateToken lib a now u = Inr t" using assms(2) Inr by blast
      from Inr obtain tok where tok: "GetTokenFromReq ?req = Inr tok" "Authentication lib a now tok = Inr u"
        by (auto simp: GetUserFromReq_def split: sum.splits)
      with t w have "Auth lib a now None c = set_token u t c" by (simp add: Auth_def defaultAuth_def RefreshToken_def)
      with t w o Inr assms(1) show ?thesis by (simp add: set_token_def Let_def header_set_def)
    qed
  qed
qed

text \<open>
  C27: in whose name the warden forwards. A request is forwarded exactly when a user can be read from its
  token and the test on namespaces and nodes does not refuse it, where an error of that test counts
  as a pass. What is forwarded names that user for impersonation and has no token any more; every
  other header is passed on as the client sent it, those that impersonate a group included.
\<close>

theorem ServeHTTP_authproxy_exact:
  "case GetUserFromReq lib a now r of
     Inl e \<Rightarrow> ServeHTTP_authproxy lib a now cli r = WriteHeader 401
   | Inr u \<Rightarrow>
       if RelationshipDetermine cli (hr_Path r) u = (False, None) then ServeHTTP_authproxy lib a now cli r = WriteHeader 403
       else \<exists>r'. ServeHTTP_authproxy lib a now cli r = Forward r' \<and>
              hr_Method r' = hr_Method r \<and> hr_Path r' = hr_Path r \<and>
              map_of (hr_Header r') = (map_of (hr_Header r))(ImpersonateUserKey \<mapsto> [u], AuthorizationHeader := None)"
proof (cases "GetUserFromReq lib a now r")
  case (Inr u)
  obtain e r1 where r1: "AddFieldManager r u = (e, r1)" by fastforce
  then have same: "hr_Method r1 = hr_Method r" "hr_Path r1 = hr_Path r" "hr_Header r1 = hr_Header r"
    by (auto simp: AddFieldManager_def AddQuery_def Let_def split: if_splits sum.splits)
  obtain b e' where b: "RelationshipDetermine cli (hr_Path r) u = (b, e')" by fastforce
  show ?thesis
    using Inr r1 same b by (auto simp: ServeHTTP_authproxy_def header_set_def header_del_def delete_conv' fun_eq_iff)
qed (simp add: ServeHTTP_authproxy_def)

subsection \<open>Login\<close>

text \<open>What was read from the cache at the time of a request.\<close>

definition cached :: "('w, Account) client \<Rightarrow> 'w \<Rightarrow> string \<Rightarrow> Account result" where
  "cached cli w n = fst (run_state (cl_get cli ([], n)) w)"

definition enabled :: "Account \<Rightarrow> bool" where
  "enabled u \<longleftrightarrow> ac_State u \<noteq> ForbiddenState"

lemma normalLogin_run:
  assumes "run_state (normalLogin env n p) w = (Inr user, w1)"
  shows "cached (ae_CacheUsers env) w n = Inr user" and "ac_Password user = ae_Md5Salt env p" and "enabled user"
  using assms
  by (auto simp: normalLogin_def GetUserByName_def cached_def enabled_def split: prod.splits sum.splits if_splits option.splits)

lemma ldapLogin_run:
  assumes "run_state (ldapLogin env n p) w = (Inr user, w1)"
  shows "ae_LdapAuthenticate env n p = None"
    and "case cached (ae_CacheUsers env) w (ldapUserNamePrefix @ EncodeToString n) of
           Inr u \<Rightarrow> user = u \<and> enabled u
         | Inl e \<Rightarrow> e = NotFound \<and> ur_Name user = ldapUserNamePrefix @ EncodeToString n"
  using assms
  by (auto simp: ldapLogin_def GetUserByName_def cached_def enabled_def Let_def split: prod.splits sum.splits if_splits option.splits)

lemma Login_run:
  assumes "run_state (Login env now ip (Some (n, p, lt))) w = (Success (user, cookie), w')"
  shows "\<exists>acc t w1. GenerateToken (ae_Jwt env) (ae_AuthJwt env) now n = Inr t \<and> cookie = BearerTokenPrefix @ '' '' @ t \<and>
    user = acc\<lparr>ac_LastLoginIP := ip, ac_LastLoginTime := Some now, ac_Password := []\<rparr> \<and>
    (if lt = LDAPLogin \<and> ae_IsLdapOpen env then run_state (ldapLogin env n p) w = (Inr acc, w1)
     else lt = NormalLogin \<and> run_state (normalLogin env n p) w = (Inr acc, w1))"
proof -
  let ?l = "if lt = LDAPLogin \<and> ae_IsLdapOpen env then ldapLogin env n p
            else if lt = NormalLogin then normalLogin env n p else State_Monad.return (Inl AuthenticateError)"
  obtain r w1 where l: "run_state ?l w = (r, w1)" by fastforce
  with assms obtain acc where r: "r = Inr acc" by (cases r) (auto simp: Login_def split: if_splits)
  let ?u = "acc\<lparr>ac_LastLoginIP := ip, ac_LastLoginTime := Some now\<rparr>"
  obtain e w2 where u: "run_state (UpdateUserStatusImpl env ?u) w1 = (e, w2)" by fastforce
  from assms l r u obtain t where "e = None" "GenerateToken (ae_Jwt env) (ae_AuthJwt env) now n = Inr t"
      "user = ?u\<lparr>ac_Password := []\<rparr>" "cookie = BearerTokenPrefix @ '' '' @ t"
    by (auto simp: Login_def Let_def split: if_splits option.splits sum.splits)
  with l r show ?thesis by (intro exI [of _ acc] exI [of _ t] exI [of _ w1]) (auto split: if_splits)
qed

text \<open>
  C28: what a login has checked. The token that a login hands out speaks for the name that was typed in.
  With a password, the account of that name is stored with the hash of the password and is not
  disabled. With LDAP, the directory accepts name and password, and the account that is looked at
  for being disabled is the one under the prefixed and encoded name: the account of the typed name,
  for which the token speaks, is not looked at.
\<close>

theorem Login_checks:
  assumes "jwt_sound (ae_Jwt env)" and "0 \<le> now"
    and "run_state (Login env now ip (Some (n, p, lt))) w = (Success (user, cookie), w')"
  shows "(\<exists>t. cookie = BearerTokenPrefix @ '' '' @ t \<and> Authentication (ae_Jwt env) (ae_AuthJwt env) now t = Inr n) \<and>
    (if lt = LDAPLogin \<and> ae_IsLdapOpen env
     then ae_LdapAuthenticate env n p = None \<and>
       (case cached (ae_CacheUsers env) w (ldapUserNamePrefix @ EncodeToString n) of
          Inr u \<Rightarrow> enabled u \<and> ur_Name user = ur_Name u
        | Inl e \<Rightarrow> e = NotFound \<and> ur_Name user = ldapUserNamePrefix @ EncodeToString n)
     else lt = NormalLogin \<and>
       (\<exists>u. cached (ae_CacheUsers env) w n = Inr u \<and> ac_Password u = ae_Md5Salt env p \<and> enabled u))"
proof -
  from Login_run [OF assms(3)] obtain acc t w1 where
    l: "GenerateToken (ae_Jwt env) (ae_AuthJwt env) now n = Inr t" "cookie = BearerTokenPrefix @ '' '' @ t"
      "ur_Name user = ur_Name acc"
      "if lt = LDAPLogin \<and> ae_IsLdapOpen env then run_state (ldapLogin env n p) w = (Inr acc, w1)
       else lt = NormalLogin \<and> run_state (normalLogin env n p) w = (Inr acc, w1)" by auto
  have "Authentication (ae_Jwt env) (ae_AuthJwt env) now t = Inr n"
    using Authentication_generated(1) [OF assms(1,2) l(1), of now] by simp
  moreover have "if lt = LDAPLogin \<and> ae_IsLdapOpen env
     then ae_LdapAuthenticate env n p = None \<and>
       (case cached (ae_CacheUsers env) w (ldapUserNamePrefix @ EncodeToString n) of
          Inr u \<Rightarrow> enabled u \<and> ur_Name user = ur_Name u
        | Inl e \<Rightarrow> e = NotFound \<and> ur_Name user = ldapUserNamePrefix @ EncodeToString n)
     else lt = NormalLogin \<and>
       (\<exists>u. cached (ae_CacheUsers env) w n = Inr u \<and> ac_Password u = ae_Md5Salt env p \<and> enabled u)"
    using l(3,4) ldapLogin_run [of env n p w acc w1] normalLogin_run [of env n p w acc w1]
    by (auto split: if_splits sum.splits)
  ultimately show ?thesis using l(2) by blast
qed

subsection \<open>Witnesses\<close>

text \<open>
  A token library that signs the claims of an hour's session at time zero for a name of unreserved
  characters, with that name as the token; and a control plane with a disabled administrator.
\<close>

definition plain_claims :: "string \<Rightarrow> Claims" where
  "plain_claims u = \<lparr>jc_Username = u, jc_Groups = [''kubecube''], jc_ExpiresAt = 3600, jc_Issuer = []\<rparr>"

definition plain_jwt :: jwt_lib where
  "plain_jwt = \<lparr>jl_Sign = (\<lambda>s c. let u = jc_Username c in
       if u \<noteq> [] \<and> list_all unreserved u \<and> c = plain_claims u then Inr u else Inl (Err ''claims'')),
     jl_Parse = (\<lambda>s now t. if now \<le> 3600 then Inr (plain_claims t, True) else Inl (Err ''expired''))\<rparr>"

definition plain_auth :: AuthJwt where
  "plain_auth = \<lparr>aj_JwtSecret = ''s'', aj_TokenExpireDuration = 60, aj_JwtIssuer = []\<rparr>"

lemma plain_jwt_sound: "jwt_sound plain_jwt"
proof -
  have sign: "t \<noteq> [] \<and> list_all unreserved t \<and> c = plain_claims t" if "jl_Sign plain_jwt s c = Inr t" for s c t
    using that by (auto simp: plain_jwt_def Let_def split: if_splits)
  have parse: "if now \<le> jc_ExpiresAt (plain_claims t) then jl_Parse plain_jwt s now t = Inr (plain_claims t, True)
      else \<exists>e. jl_Parse plain_jwt s now t = Inl e" for s t now
    by (simp add: plain_jwt_def plain_claims_def)
  show ?thesis unfolding jwt_sound_def using sign parse by (metis (no_types))
qed

definition disabled_admin :: Account where
  "disabled_admin = empty_account\<lparr>ur_Name := ''admin'', ac_Password := ''hash'', ac_State := ForbiddenState, ac_LoginType := NormalLogin\<rparr>"

definition directory_env :: "(objkey \<Rightarrow> Account option) authn_env" where
  "directory_env = \<lparr>ae_Jwt = plain_jwt, ae_AuthJwt = plain_auth,
     ae_CacheUsers = store_client (\<lambda>u. ([], ur_Name u)) (\<lambda>y x. x), ae_Users = store_client (\<lambda>u. ([], ur_Name u)) (\<lambda>y x. x),
     ae_Md5Salt = (\<lambda>s. ''salt'' @ s), ae_NewUuid = State_Monad.return ''uuid'', ae_IsLdapOpen = True,
     ae_LdapAuthenticate = (\<lambda>n p. if p = ''secret'' then None else Some (Err ''refused'')),
     ae_GitHubIsEnable = False, ae_IdentityExchange = (\<lambda>_. Inl (Err ''off''))\<rparr>"

text \<open>Whoever the directory knows as \<open>admin\<close> becomes the disabled local administrator.\<close>

theorem Login_checks_witness:
  "let w = [([], ''admin'') \<mapsto> disabled_admin];
       r = fst (run_state (Login directory_env 0 ''ip'' (Some (''admin'', ''secret'', LDAPLogin))) w)
   in (\<exists>user t. r = Success (user, BearerTokenPrefix @ '' '' @ t) \<and> Authentication plain_jwt plain_auth 0 t = Inr ''admin'') \<and>
      \<not> enabled disabled_admin"
proof -
  let ?w = "[([], ''admin'') \<mapsto> disabled_admin]"
  let ?l = "run_state (Login directory_env 0 ''ip'' (Some (''admin'', ''secret'', LDAPLogin))) ?w"
  have "case fst ?l of Success _ \<Rightarrow> True | Fail _ \<Rightarrow> False" by code_simp
  then obtain user cookie where "fst ?l = Success (user, cookie)" by (auto split: answer.splits)
  then have run: "?l = (Success (user, cookie), snd ?l)" by (simp add: prod_eq_iff)
  have "jwt_sound (ae_Jwt directory_env)" by (simp add: directory_env_def plain_jwt_sound)
  from Login_checks [OF this order.refl run] have
    "\<exists>t. cookie = BearerTokenPrefix @ '' '' @ t \<and> Authentication plain_jwt plain_auth 0 t = Inr ''admin''"
    by (simp add: directory_env_def)
  with run show ?thesis by (auto simp: Let_def enabled_def disabled_admin_def prod_eq_iff)
qed

definition browser :: "string \<Rightarrow> http_request" where
  "browser cookie = \<lparr>hr_Method = ''GET'', hr_Path = ''/api/v1/cube/user'', hr_Header = [(''Impersonate-Group'', [''system:masters''])],
     hr_Cookies = [(AuthorizationHeader, cookie)], hr_Query = Inr []\<rparr>"

lemma plain_token: "u \<noteq> [] \<Longrightarrow> list_all unreserved u \<Longrightarrow> GenerateToken plain_jwt plain_auth 0 u = Inr u"
  by (simp add: GenerateToken_iff plain_jwt_def plain_claims_def plain_auth_def)

theorem session_roundtrip_witness:
  "GetUserFromReq plain_jwt plain_auth 3600 (browser (QueryEscape (''Bearer ada''))) = Inr ''ada'' \<and>
   GetUserFromReq plain_jwt plain_auth 3601 (browser (QueryEscape (''Bearer ada''))) \<noteq> Inr ''ada''"
proof -
  have "GenerateToken plain_jwt plain_auth 0 ''ada'' = Inr ''ada''" by (rule plain_token) code_simp+
  from session_roundtrip [OF plain_jwt_sound order.refl this, of "browser (QueryEscape (''Bearer ada''))"]
  show ?thesis by (simp add: browser_def header_get_def AuthorizationHeader_def BearerTokenPrefix_def)
qed

definition fresh_ctx :: "http_request \<Rightarrow> gin_ctx" where
  "fresh_ctx req = \<lparr>gc_Request = req, gc_Keys = [], gc_Cookie = None, gc_RespHeader = [], gc_Fail = None\<rparr>"

text \<open>A user with a session is let in as that user, with the header for a group that the client made up.\<close>

theorem Auth_exact_witness:
  "let c = Auth plain_jwt plain_auth 0 None (fresh_ctx (browser ''Bearer+ada''))
   in gc_Fail c = None \<and> map_of (gc_Keys c) ''userName'' = Some ''ada'' \<and>
      map_of (hr_Header (gc_Request c)) ImpersonateUserKey = Some [''ada''] \<and>
      map_of (hr_Header (gc_Request c)) ''Impersonate-Group'' = Some [''system:masters'']"
proof -
  let ?c = "fresh_ctx (browser ''Bearer+ada'')"
  have u: "GetUserFromReq plain_jwt plain_auth 0 (gc_Request ?c) = Inr ''ada''" by code_simp
  have t: "GenerateToken plain_jwt plain_auth 0 ''ada'' = Inr ''ada''" by (rule plain_token) code_simp+
  have "\<not> WithinWhiteList (hr_Path (gc_Request ?c)) (hr_Method (gc_Request ?c)) AuthWhiteList" by code_simp
  then have o: "\<not> open_request (gc_Request ?c)" by (auto simp: WithinWhiteList_iff Contains_iff open_request_def)
  have "gc_Fail ?c = None" by (simp add: fresh_ctx_def)
  from Auth_exact [OF this, of plain_jwt plain_auth 0] u t o show ?thesis
    by (simp add: Let_def fresh_ctx_def browser_def AuthorizationHeader_def ImpersonateUserKey_def)
qed

end
