(* ===== verification/Accounts.thy ===== *)
theory Accounts
  imports Authn UserController MultiCluster
begin

section \<open>Users and keys at the API server\<close>

text \<open>
  The handlers of \<open>pkg/apiserver/cubeapi/user/user.go\<close> and \<open>pkg/apiserver/cubeapi/key/handle.go\<close>
  with the checks of \<open>pkg/utils/access\<close>. The request is the http request with its parsed body, the
  answer a value of \<open>answer\<close>; a handler that panics is \<open>Panic\<close>. Audit notes are left out.
\<close>

subsection \<open>Definitions: access\<close>

definition CreateVerb :: string where "CreateVerb = ''create''"
definition ListVerb :: string where "ListVerb = ''list''"

text \<open>
  The kind of the object and the mapping from kinds to resources are arguments: the outer option is
  a missing mapper, the error a kind that is not known.
\<close>

definition AllowAccess :: "'w authn_env \<Rightarrow> int \<Rightarrow> cache \<Rightarrow> (string \<times> string) result option \<Rightarrow> http_request \<Rightarrow> string \<Rightarrow> string \<Rightarrow> bool" where
  "AllowAccess env now rbac mapping r operator namespace =
     (case mapping of
        None \<Rightarrow> True
      | Some (Inl e) \<Rightarrow> False
      | Some (Inr (grp, resource)) \<Rightarrow>
          (case GetUserFromReq (ae_Jwt env) (ae_AuthJwt env) now r of
             Inl e \<Rightarrow> False
           | Inr user \<Rightarrow>
               let auth = \<lparr>at_User = user, at_Verb = operator, at_Namespace = namespace, at_APIGroup = grp,
                     at_Resource = resource, at_Subresource = [], at_Name = [], at_Path = [], at_ResourceRequest = True\<rparr>
               in fst (Authorize rbac auth) = DecisionAllow))"

fun role_loop :: "string list \<Rightarrow> string list \<Rightarrow> bool" where
  "role_loop [] accessMap = False"
| "role_loop (role # roleList) accessMap = (if role \<in> set accessMap then True else role_loop roleList accessMap)"

definition CheckClusterRole :: "cache \<Rightarrow> string \<Rightarrow> string list \<Rightarrow> bool" where
  "CheckClusterRole rbac username accessMap =
     role_loop (case User2UserRole rbac username of None \<Rightarrow> [] | Some roles \<Rightarrow> roles) accessMap"

subsection \<open>Definitions: checks of the parameters\<close>

definition is_digit :: "char \<Rightarrow> bool" where
  "is_digit c \<longleftrightarrow> 48 \<le> (of_char c :: nat) \<and> (of_char c :: nat) \<le> 57"

definition is_lower :: "char \<Rightarrow> bool" where
  "is_lower c \<longleftrightarrow> 97 \<le> (of_char c :: nat) \<and> (of_char c :: nat) \<le> 122"

definition is_letter :: "char \<Rightarrow> bool" where
  "is_letter c \<longleftrightarrow> is_lower c \<or> 65 \<le> (of_char c :: nat) \<and> (of_char c :: nat) \<le> 90"

definition is_word :: "char \<Rightarrow> bool" where
  "is_word c \<longleftrightarrow> is_letter c \<or> is_digit c \<or> c = CHR ''_''"

definition is_space :: "char \<Rightarrow> bool" where
  "is_space c \<longleftrightarrow> (of_char c :: nat) \<in> {9, 10, 11, 12, 13, 32}"

definition TrimSpace :: "string \<Rightarrow> string" where
  "TrimSpace s = rev (dropWhile is_space (rev (dropWhile is_space s)))"

text \<open>The classes of characters of a password, as the loop collects them.\<close>

fun pwd_loop :: "string \<Rightarrow> bool \<times> bool \<times> bool \<Rightarrow> bool \<times> bool \<times> bool" where
  "pwd_loop [] acc = acc"
| "pwd_loop (s # pwd) (isLetter, isNumber, isSpecial) =
     (if is_letter s then pwd_loop pwd (True, isNumber, isSpecial)
      else if is_digit s then pwd_loop pwd (isLetter, True, isSpecial)
      else pwd_loop pwd (isLetter, isNumber, True))"

definition checkPwd :: "string \<Rightarrow> bool" where
  "checkPwd pwd =
     (if length pwd < 8 \<or> length pwd > 20 then False
      else case pwd_loop pwd (False, False, False) of (isLetter, isNumber, isSpecial) \<Rightarrow>
             if isLetter \<and> isNumber \<or> isLetter \<and> isSpecial \<or> isNumber \<and> isSpecial then True else False)"

text \<open>
  The alternatives of the pattern for phone numbers after the leading one, each with what has to
  follow; and the pattern for mail addresses, which may match anywhere in the text.
\<close>

fun eight_digits :: "string \<Rightarrow> bool" where
  "eight_digits s \<longleftrightarrow> length s = 8 \<and> list_all is_digit s"

fun phone_match :: "string \<Rightarrow> bool" where
  "phone_match (one # a # b # s) \<longleftrightarrow> one = CHR ''1'' \<and>
     (a \<in> {CHR ''3'', CHR ''8''} \<and> is_digit b \<and> eight_digits s
      \<or> a = CHR ''1'' \<and> b = CHR ''4'' \<and> s \<noteq> [] \<and> hd s \<in> {CHR ''5'', CHR ''7'', CHR ''9''} \<and> eight_digits (tl s)
      \<or> a = CHR ''5'' \<and> b \<noteq> CHR ''4'' \<and> eight_digits s
      \<or> a = CHR ''1'' \<and> b = CHR ''6'' \<and> s \<noteq> [] \<and> hd s = CHR ''6'' \<and> eight_digits (tl s)
      \<or> a = CHR ''7'' \<and> b \<in> {CHR ''1'', CHR ''2'', CHR ''3'', CHR ''5'', CHR ''6'', CHR ''7'', CHR ''8''} \<and> eight_digits s
      \<or> a = CHR ''9'' \<and> b \<in> {CHR ''1'', CHR ''8'', CHR ''9''} \<and> eight_digits s)"
| "phone_match _ \<longleftrightarrow> False"

definition domain_match :: "string \<Rightarrow> bool" where
  "domain_match s \<longleftrightarrow> takeWhile is_word s \<noteq> [] \<and>
     (case dropWhile is_word s of
        d # x # y # _ \<Rightarrow> d = CHR ''.'' \<and> is_lower x \<and> is_lower y
      | _ \<Rightarrow> False)"

fun email_match :: "string \<Rightarrow> bool" where
  "email_match (c # at # s) \<longleftrightarrow> (is_word c \<or> c = CHR ''.'') \<and> at = CHR ''@'' \<and> domain_match s \<or> email_match (at # s)"
| "email_match _ \<longleftrightarrow> False"

subsection \<open>Definitions: users\<close>

definition check_phone :: "string \<Rightarrow> Account \<Rightarrow> errinfo + Account" where
  "check_phone phone user =
     (if phone \<noteq> [] then
        (if \<not> phone_match (TrimSpace phone) then Inl InvalidParameterPhone else Inr (user\<lparr>ac_Phone := TrimSpace phone\<rparr>))
      else Inr user)"

definition check_email :: "string \<Rightarrow> Account \<Rightarrow> errinfo + Account" where
  "check_email email user =
     (if email \<noteq> [] then
        (if \<not> email_match (TrimSpace email) then Inl InvalidParameterEmail else Inr (user\<lparr>ac_Email := TrimSpace email\<rparr>))
      else Inr user)"

definition CheckAndCompleteCreateParam :: "'w authn_env \<Rightarrow> Account option \<Rightarrow> ('w, errinfo + Account) state" where
  "CheckAndCompleteCreateParam env body =
     (case body of
        None \<Rightarrow> State_Monad.return (Inl InvalidBodyFormat)
      | Some user \<Rightarrow>
          (let name = ur_Name user in
           if name = [] then State_Monad.return (Inl MissingParamUserName)
           else do {
             userFind \<leftarrow> GetUserByName env name;
             State_Monad.return (case userFind of
               Inl errInfo \<Rightarrow> Inl errInfo
             | Inr (Some _) \<Rightarrow> Inl (UserNameDuplicated name)
             | Inr None \<Rightarrow>
                 (let user = user\<lparr>ur_Name := TrimSpace name\<rparr>;
                      password = TrimSpace (ac_Password user)
                  in if password = [] then Inl MissingParamPassword
                     else if \<not> checkPwd password then Inl InvalidParameterPassword
                     else let user = user\<lparr>ac_Password := ae_Md5Salt env password\<rparr>;
                              user = (if ac_DisplayName user = [] then user\<lparr>ac_DisplayName := ur_Name user\<rparr> else user)
                          in case check_phone (ac_Phone user) user of
                               Inl e \<Rightarrow> Inl e
                             | Inr user \<Rightarrow>
                                 (case check_email (ac_Email user) user of
                                    Inl e \<Rightarrow> Inl e
                                  | Inr user \<Rightarrow>
                                      (let user = (if ac_Language user \<noteq> Chinese \<and> ac_Language user \<noteq> English
                                                   then user\<lparr>ac_Language := Chinese\<rparr> else user)
                                       in Inr (user\<lparr>ac_LoginType := NormalLogin, ac_State := NormalState,
                                            ac_Annotations := Some [(''kubecube.io/sync'', ''true'')]\<rparr>)))))
           }))"

definition CreateUser :: "'w authn_env \<Rightarrow> int \<Rightarrow> cache \<Rightarrow> (string \<times> string) result option \<Rightarrow> http_request \<Rightarrow> Account option \<Rightarrow> ('w, unit answer) state" where
  "CreateUser env now rbac mapping r body = do {
     p \<leftarrow> CheckAndCompleteCreateParam env body;
     case p of
       Inl errInfo \<Rightarrow> State_Monad.return (Fail errInfo)
     | Inr user \<Rightarrow>
         if \<not> AllowAccess env now rbac mapping r CreateVerb [] then State_Monad.return (Fail ForbiddenErr)
         else do {
           e \<leftarrow> CreateUserImpl env user;
           State_Monad.return (case e of Some errInfo \<Rightarrow> Fail errInfo | None \<Rightarrow> Success ())
         }
   }"

definition CheckUpdateParam :: "'w authn_env \<Rightarrow> Account \<Rightarrow> Account \<Rightarrow> errinfo + Account" where
  "CheckUpdateParam env newUser originUser =
     (let newState = ac_State newUser in
      if ac_LoginType originUser \<noteq> NormalLogin \<and> (newState = NormalState \<or> newState = ForbiddenState)
      then Inr (originUser\<lparr>ac_State := newState\<rparr>)
      else
        let originUser = (if ac_DisplayName newUser \<noteq> [] then originUser\<lparr>ac_DisplayName := ac_DisplayName newUser\<rparr> else originUser);
            newPassword = TrimSpace (ac_Password newUser)
        in if newPassword \<noteq> [] \<and> \<not> checkPwd newPassword then Inl InvalidParameterPassword
           else
             let originUser = (if newPassword \<noteq> [] then originUser\<lparr>ac_Password := ae_Md5Salt env newPassword\<rparr> else originUser);
                 newLanguage = ac_Language newUser;
                 originUser = (if newLanguage = Chinese \<or> newLanguage = English then originUser\<lparr>ac_Language := newLanguage\<rparr> else originUser)
             in case check_email (ac_Email newUser) originUser of
                  Inl e \<Rightarrow> Inl e
                | Inr originUser \<Rightarrow>
                    (case check_phone (ac_Phone newUser) originUser of
                       Inl e \<Rightarrow> Inl e
                     | Inr originUser \<Rightarrow>
                         Inr (if ac_State newUser = NormalState \<or> ac_State newUser = ForbiddenState
                              then originUser\<lparr>ac_State := ac_State newUser\<rparr> else originUser)))"

definition UpdateUser :: "'w authn_env \<Rightarrow> int \<Rightarrow> cache \<Rightarrow> (string \<times> string) result option \<Rightarrow> http_request \<Rightarrow> string \<Rightarrow> Account option \<Rightarrow> ('w, unit answer) state" where
  "UpdateUser env now rbac mapping r name body =
     (case body of
        None \<Rightarrow> State_Monad.return (Fail InvalidBodyFormat)
      | Some newUser \<Rightarrow> do {
          orig \<leftarrow> GetUserByName env name;
          case orig of
            Inl errInfo \<Rightarrow> State_Monad.return (Fail errInfo)
          | Inr None \<Rightarrow> State_Monad.return (Fail UserNotExist)
          | Inr (Some originUser) \<Rightarrow>
              if ur_Name originUser = [] then State_Monad.return (Fail UserNotExist)
              else if \<not> IsSelf (ae_Jwt env) (ae_AuthJwt env) now r name \<and> \<not> AllowAccess env now rbac mapping r ListVerb []
              then State_Monad.return (Fail ForbiddenErr)
              else (case CheckUpdateParam env newUser originUser of
                Inl errInfo \<Rightarrow> State_Monad.return (Fail errInfo)
              | Inr user \<Rightarrow> do {
                  e \<leftarrow> UpdateUserSpecImpl env user;
                  State_Monad.return (case e of Some _ \<Rightarrow> Fail (UpdateResourceError resourceTypeUser) | None \<Rightarrow> Success ())
                })
        })"

definition CheckUserValid :: "'w authn_env \<Rightarrow> string \<Rightarrow> ('w, bool answer) state" where
  "CheckUserValid env name = do {
     r \<leftarrow> GetUserByName env name;
     State_Monad.return (case r of
        Inl errInfo \<Rightarrow> Fail errInfo
      | Inr None \<Rightarrow> Success False
      | Inr (Some user) \<Rightarrow> Success (if ur_Name user = [] then False else True))
   }"

text \<open>The user read by name is dereferenced without a test.\<close>

definition UpdatePwd :: "'w authn_env \<Rightarrow> (string \<times> string \<times> string) option \<Rightarrow> ('w, unit answer go) state" where
  "UpdatePwd env body =
     (case body of
        None \<Rightarrow> State_Monad.return (Ret (Fail InvalidBodyFormat))
      | Some (userName, oldPwd, newPwd) \<Rightarrow>
          (let oldPwdMd5 = ae_Md5Salt env oldPwd in do {
             r \<leftarrow> GetUserByName env userName;
             case r of
               Inl errInfo \<Rightarrow> State_Monad.return (Ret (Fail errInfo))
             | Inr None \<Rightarrow> State_Monad.return Panic
             | Inr (Some user) \<Rightarrow>
                 if ac_Password user \<noteq> oldPwdMd5 then State_Monad.return (Ret (Fail PasswordWrong))
                 else if \<not> checkPwd newPwd then State_Monad.return (Ret (Fail InvalidParameterPassword))
                 else do {
                   e \<leftarrow> UpdateUserSpecImpl env (user\<lparr>ac_Password := ae_Md5Salt env newPwd\<rparr>);
                   State_Monad.return (Ret (case e of Some _ \<Rightarrow> Fail (UpdateResourceError resourceTypeUser) | None \<Rightarrow> Success ()))
                 }
           }))"

text \<open>The record of a line is split at its commas and its first five columns are read.\<close>

fun csv_user :: "string \<Rightarrow> Account go" where
  "csv_user line =
     (case Split line '','' of
        name # password # displayName # email # phone # _ \<Rightarrow>
          Ret (empty_account\<lparr>ur_Name := name, ac_Password := password, ac_DisplayName := displayName, ac_Email := email,
                 ac_Phone := phone, ac_LoginType := NormalLogin\<rparr>)
      | _ \<Rightarrow> Panic)"

text \<open>The loop counts the users created and keeps the names of those that were not.\<close>

fun batch_loop :: "'w authn_env \<Rightarrow> string list list \<Rightarrow> nat \<times> string list \<Rightarrow> ('w, (nat \<times> string list) go) state" where
  "batch_loop env [] acc = State_Monad.return (Ret acc)"
| "batch_loop env (row # rows) (successCount, failed) =
     (case row of
        [] \<Rightarrow> State_Monad.return Panic
      | line # _ \<Rightarrow>
          (case csv_user line of
             Panic \<Rightarrow> State_Monad.return Panic
           | Ret user \<Rightarrow> do {
               e \<leftarrow> CreateUserImpl env user;
               if e \<noteq> None then batch_loop env rows (successCount, failed @ [ur_Name user])
               else batch_loop env rows (Suc successCount, failed)
             }))"

definition BatchCreateUser ::
  "'w authn_env \<Rightarrow> int \<Rightarrow> cache \<Rightarrow> (string \<times> string) result option \<Rightarrow> http_request \<Rightarrow> (string \<times> string list list result) option \<Rightarrow>
     ('w, (nat \<times> string list) answer go) state" where
  "BatchCreateUser env now rbac mapping r file =
     (if \<not> AllowAccess env now rbac mapping r CreateVerb [] then State_Monad.return (Ret (Fail ForbiddenErr))
      else (case file of
        None \<Rightarrow> State_Monad.return (Ret (Fail MissingParamFile))
      | Some (filename, userList) \<Rightarrow>
          if \<not> HasSuffix filename ''.csv'' then State_Monad.return (Ret (Fail InvalidFileType))
          else (case userList of
            Inl e \<Rightarrow> State_Monad.return (Ret (Fail InvalidBodyFormat))
          | Inr rows \<Rightarrow> do {
              g \<leftarrow> batch_loop env (drop 1 rows) (0, []);
              State_Monad.return (case g of Panic \<Rightarrow> Panic | Ret x \<Rightarrow> Ret (Success x))
            })))"

definition user_matches :: "string \<Rightarrow> Account \<Rightarrow> bool" where
  "user_matches query user \<longleftrightarrow> query = [] \<or> Contains (ac_DisplayName user) query \<or> Contains (ur_Name user) query"

definition list_access :: "string list" where
  "list_access = [''platform-admin'', ''tenant-admin'', ''tenant-admin-cluster'', ''project-admin'', ''project-admin-cluster'']"

text \<open>\<open>Filter\<close> is the filter chain run on the list; it is an argument here.\<close>

definition ListUsers ::
  "('w, Account list result) state \<Rightarrow> cache \<Rightarrow> (Account list \<Rightarrow> (nat \<times> Account list) result) \<Rightarrow> string \<Rightarrow> string \<Rightarrow> ('w, (nat \<times> Account list) answer) state" where
  "ListUsers list rbac Filter username query =
     (if \<not> CheckClusterRole rbac username list_access then State_Monad.return (Fail ForbiddenErr)
      else do {
        r \<leftarrow> list;
        State_Monad.return (case r of
          Inl e \<Rightarrow> Fail (GetResourceError resourceTypeUser)
        | Inr items \<Rightarrow>
            (case Filter (map (\<lambda>u. u\<lparr>ac_Password := []\<rparr>) (filter (user_matches query) items)) of
               Inl e \<Rightarrow> Fail (BadRequest e)
             | Inr (n, page) \<Rightarrow>
                 Success (n, map (\<lambda>u. u\<lparr>ac_Password := []\<rparr>) (filter (user_matches query) page))))
      })"

fun members_loop :: "rbac_binding list \<Rightarrow> string list \<Rightarrow> string list" where
  "members_loop [] acc = acc"
| "members_loop (rb # rbs) acc =
     (case gm_get (bl_Labels rb) RbacLabel of
        None \<Rightarrow> members_loop rbs acc
      | Some v \<Rightarrow>
          (case ParseBool v of
             None \<Rightarrow> members_loop rbs acc
           | Some t \<Rightarrow>
               if t then members_loop rbs (acc @ map su_Name (filter (\<lambda>s. su_Kind s = ''User'') (bi_Subjects rb)))
               else members_loop rbs acc))"

definition getMembers :: "rbac_binding list \<Rightarrow> string list" where
  "getMembers rbs = sort (remdups (members_loop rbs []))"

definition GetMembersByNS :: "(string \<Rightarrow> ('w, rbac_binding list result) state) \<Rightarrow> string \<Rightarrow> ('w, string list answer) state" where
  "GetMembersByNS list ns =
     (if ns = [] then State_Monad.return (Fail InvalidBodyFormat)
      else do {
        r \<leftarrow> list ns;
        State_Monad.return (case r of Inl e \<Rightarrow> Fail (BadRequest e) | Inr rbs \<Rightarrow> Success (getMembers rbs))
      })"

subsection \<open>Definitions: kubeconfigs\<close>

definition tokenExpiredTime :: int where "tokenExpiredTime = 3600 * 24 * 365 * 10"

fun Replace1 :: "string \<Rightarrow> string \<Rightarrow> string \<Rightarrow> string" where
  "Replace1 [] old new = (if old = [] then new else [])"
| "Replace1 (c # s) old new = (if HasPrefix (c # s) old then new @ drop (length old) (c # s) else c # Replace1 s old new)"

record ConfigMeta =
  cm_Cluster :: string
  cm_Host :: string
  cm_User :: string
  cm_Token :: string

text \<open>
  The kubeconfig is the list of what it holds for each cluster; \<open>host\<close> gives the address of a cluster's
  API server. Whether the caller asks for itself is tested after the token has been made.
\<close>

definition GetKubeConfig :: "'w authn_env \<Rightarrow> int \<Rightarrow> ('c \<Rightarrow> string) \<Rightarrow> 'c MultiClustersMgr \<Rightarrow> http_request \<Rightarrow> string \<Rightarrow> string \<Rightarrow> ConfigMeta list answer go" where
  "GetKubeConfig env now host m r queryUser ctxUser =
     (let user = (if length queryUser = 0 then ctxUser else queryUser)
      in case GenerateTokenWithExpired (ae_Jwt env) (ae_AuthJwt env) now user tokenExpiredTime of
           Inl e \<Rightarrow> Ret (Fail AuthenticateError)
         | Inr token \<Rightarrow>
             if \<not> IsSelf (ae_Jwt env) (ae_AuthJwt env) now r user then Ret (Fail ForbiddenErr)
             else (case FuzzyCopy m of
               Panic \<Rightarrow> Panic
             | Ret clusters \<Rightarrow>
                 Ret (Success (map (\<lambda>(name, c). \<lparr>cm_Cluster = fc_Name c, cm_Host = Replace1 (host (fc_Client c)) ''6443'' ''31443'',
                    cm_User = user, cm_Token = token\<rparr>) clusters))))"

subsection \<open>Definitions: keys\<close>

definition UserLabel :: string where "UserLabel = ''kubecube.io/user''"

record Key =
  ky_Name :: string
  ky_Labels :: labels
  ky_SecretKey :: string
  ky_User :: string

record 'w key_env =
  ke_Authn :: "'w authn_env"
  ke_CacheKeys :: "('w, Key) client"
  ke_Keys :: "('w, Key) client"
  ke_ListKeys :: "string \<times> string \<Rightarrow> ('w, Key list result) state"
  ke_DirectUsers :: "('w, Account) client"

definition requester :: "'w key_env \<Rightarrow> int \<Rightarrow> http_request \<Rightarrow> string result" where
  "requester env now r = GetUserFromReq (ae_Jwt (ke_Authn env)) (ae_AuthJwt (ke_Authn env)) now r"

definition GetUUID :: "'w key_env \<Rightarrow> ('w, string) state" where
  "GetUUID env = do {
     s \<leftarrow> ae_NewUuid (ke_Authn env);
     State_Monad.return (filter (\<lambda>c. c \<noteq> CHR ''-'') s)
   }"

definition CreateKey :: "'w key_env \<Rightarrow> int \<Rightarrow> http_request \<Rightarrow> ('w, (string \<times> string) answer) state" where
  "CreateKey env now r =
     (case requester env now r of
        Inl e \<Rightarrow> State_Monad.return (Fail AuthenticateError)
      | Inr username \<Rightarrow> do {
          l \<leftarrow> ke_ListKeys env (UserLabel, username);
          case l of
            Inl e \<Rightarrow> State_Monad.return (Fail (BadRequest e))
          | Inr keyList \<Rightarrow>
              if length keyList \<ge> 5 then State_Monad.return (Fail MaxKeyErr)
              else do {
                accessKey \<leftarrow> GetUUID env;
                secretKey \<leftarrow> GetUUID env;
                e \<leftarrow> cl_create (ke_Keys env) \<lparr>ky_Name = accessKey, ky_Labels = Some [(UserLabel, username)],
                      ky_SecretKey = secretKey, ky_User = username\<rparr>;
                State_Monad.return (case e of Some er \<Rightarrow> Fail (BadRequest er) | None \<Rightarrow> Success (accessKey, secretKey))
              }
        })"

definition DeleteKey :: "'w key_env \<Rightarrow> int \<Rightarrow> http_request \<Rightarrow> string \<Rightarrow> ('w, unit answer) state" where
  "DeleteKey env now r accessKey =
     (case requester env now r of
        Inl e \<Rightarrow> State_Monad.return (Fail AuthenticateError)
      | Inr username \<Rightarrow> do {
          k \<leftarrow> cl_get (ke_CacheKeys env) ([], accessKey);
          case k of
            Inl e \<Rightarrow> State_Monad.return (Fail (if e = NotFound then KeyNotExistErr else BadRequest e))
          | Inr keyInfo \<Rightarrow>
              if username \<noteq> ky_User keyInfo then State_Monad.return (Fail NotMatchErr)
              else do {
                e \<leftarrow> cl_delete (ke_Keys env) keyInfo;
                State_Monad.return (case e of Some er \<Rightarrow> Fail (BadRequest er) | None \<Rightarrow> Success ())
              }
        })"

definition ListKey :: "'w key_env \<Rightarrow> int \<Rightarrow> http_request \<Rightarrow> ('w, Key list answer) state" where
  "ListKey env now r =
     (case requester env now r of
        Inl e \<Rightarrow> State_Monad.return (Fail AuthenticateError)
      | Inr username \<Rightarrow> do {
          l \<leftarrow> ke_ListKeys env (UserLabel, username);
          State_Monad.return (case l of Inl e \<Rightarrow> Fail (BadRequest e) | Inr keyList \<Rightarrow> Success keyList)
        })"

text \<open>The token is not made when signing fails, and then the answer carries the text of the error of the read before, which is empty.\<close>

definition GetTokenByKey :: "'w key_env \<Rightarrow> int \<Rightarrow> string \<Rightarrow> string \<Rightarrow> ('w, string answer) state" where
  "GetTokenByKey env now accessKey secretKey = do {
     k \<leftarrow> cl_get (ke_Keys env) ([], accessKey);
     case k of
       Inl e \<Rightarrow> State_Monad.return (Fail (if e = NotFound then KeyNotExistErr else BadRequest e))
     | Inr keyInfo \<Rightarrow>
         if secretKey \<noteq> ky_SecretKey keyInfo then State_Monad.return (Fail SecretNotMatchErr)
         else do {
           u \<leftarrow> cl_get (ke_DirectUsers env) ([], ky_User keyInfo);
           State_Monad.return (case u of
             Inl e \<Rightarrow> Fail (if e = NotFound then UserNotExistErr else BadRequest e)
           | Inr user \<Rightarrow>
               (case GenerateToken (ae_Jwt (ke_Authn env)) (ae_AuthJwt (ke_Authn env)) now (ur_Name user) of
                  Inl e \<Rightarrow> Fail (BadRequest (Err []))
                | Inr token \<Rightarrow> Success token))
         }
   }"

subsection \<open>Passwords\<close>

text \<open>
  The accounts by key, a cache that is up to date and answers, and an API server that creates and
  replaces accounts.
\<close>

definition account_key :: "Account \<Rightarrow> objkey" where
  "account_key a = ([], ur_Name a)"

definition account_world :: "'w authn_env \<Rightarrow> ('w \<Rightarrow> objkey \<Rightarrow> Account option) \<Rightarrow> bool" where
  "account_world env view \<longleftrightarrow>
     (\<forall>w n. \<exists>w'. run_state (cl_get (ae_CacheUsers env) ([], n)) w =
        (case view w ([], n) of None \<Rightarrow> Inl NotFound | Some a \<Rightarrow> Inr a, w') \<and> view w' = view w) \<and>
     inserts (ae_Users env) account_key view (\<lambda>v. v) (\<lambda>_. ()) \<and> updates (ae_Users env) account_key view (\<lambda>v. v) (\<lambda>_. ())"

lemma GetUserByName_world:
  assumes "account_world env view"
  shows "\<exists>w'. run_state (GetUserByName env n) w = (Inr (view w ([], n)), w') \<and> view w' = view w"
proof -
  from assms obtain w' where "run_state (cl_get (ae_CacheUsers env) ([], n)) w =
      (case view w ([], n) of None \<Rightarrow> Inl NotFound | Some a \<Rightarrow> Inr a, w')" "view w' = view w"
    unfolding account_world_def by blast
  then show ?thesis by (auto simp: GetUserByName_def split: option.splits)
qed

text \<open>When a password opens an account.\<close>

definition opens :: "'w authn_env \<Rightarrow> 'w \<Rightarrow> string \<Rightarrow> string \<Rightarrow> bool" where
  "opens env w n q \<longleftrightarrow> (\<exists>a. fst (run_state (normalLogin env n q) w) = Inr a)"

lemma opens_iff:
  assumes "account_world env view"
  shows "opens env w n q \<longleftrightarrow> (\<exists>a. view w ([], n) = Some a \<and> ac_Password a = ae_Md5Salt env q \<and> enabled a)"
proof -
  from GetUserByName_world [OF assms] obtain w' where "run_state (GetUserByName env n) w = (Inr (view w ([], n)), w')" by blast
  then show ?thesis by (auto simp: opens_def normalLogin_def enabled_def split: option.splits)
qed

lemma check_phone_fields: "check_phone p u = Inr u' \<Longrightarrow> \<exists>x. u' = u\<lparr>ac_Phone := x\<rparr>"
  by (cases "p = []") (auto simp: check_phone_def split: if_splits intro: exI [of _ "ac_Phone u"])

lemma check_email_fields: "check_email p u = Inr u' \<Longrightarrow> \<exists>x. u' = u\<lparr>ac_Email := x\<rparr>"
  by (cases "p = []") (auto simp: check_email_def split: if_splits intro: exI [of _ "ac_Email u"])

lemma CheckAndCompleteCreateParam_run:
  assumes "account_world env view" and "run_state (CheckAndCompleteCreateParam env (Some u)) w = (Inr a, w1)"
  shows "view w1 = view w" and "view w ([], ur_Name u) = None" and "ur_Name a = TrimSpace (ur_Name u)"
    and "ac_Password a = ae_Md5Salt env (TrimSpace (ac_Password u))" and "ac_State a = NormalState"
    and "checkPwd (TrimSpace (ac_Password u))"
proof -
  obtain w' where w': "run_state (GetUserByName env (ur_Name u)) w = (Inr (view w ([], ur_Name u)), w')" "view w' = view w"
    using GetUserByName_world [OF assms(1)] by blast
  have n: "view w ([], ur_Name u) = None" and w1: "w1 = w'" and pw: "checkPwd (TrimSpace (ac_Password u))"
    using assms(2) w'(1) by (auto simp: CheckAndCompleteCreateParam_def Let_def split: if_splits option.splits sum.splits)
  show "view w1 = view w" "view w ([], ur_Name u) = None" "checkPwd (TrimSpace (ac_Password u))" using w' w1 n pw by simp_all
  show "ur_Name a = TrimSpace (ur_Name u)" "ac_Password a = ae_Md5Salt env (TrimSpace (ac_Password u))" "ac_State a = NormalState"
    using assms(2) w'(1) n
    by (auto simp: CheckAndCompleteCreateParam_def Let_def split: if_splits sum.splits dest!: check_phone_fields check_email_fields)
qed

lemma CreateUserImpl_run:
  assumes "account_world env view" and "run_state (CreateUserImpl env a) w = (e, w')"
  shows "e = None \<Longrightarrow> view w (account_key a) = None \<and> view w' = (view w)(account_key a \<mapsto> a)"
    and "e \<noteq> None \<Longrightarrow> view w' = view w"
proof -
  obtain x where c: "run_state (cl_create (ae_Users env) a) w = (x, w')" "e = None \<longleftrightarrow> x = None"
    using assms(2) by (auto simp: CreateUserImpl_def split: prod.splits if_splits)
  from assms(1) have "inserts (ae_Users env) account_key view (\<lambda>v. v) (\<lambda>_. ())" by (simp add: account_world_def)
  from inserts_run [OF this c(1)] c(2)
  show "e = None \<Longrightarrow> view w (account_key a) = None \<and> view w' = (view w)(account_key a \<mapsto> a)"
    and "e \<noteq> None \<Longrightarrow> view w' = view w" by auto
qed

text \<open>
  C29: a created user can log in. When the handler has created a user, the account with the name
  stripped of blanks is new, and a password opens it exactly when its hash is that of the password
  in the request stripped of blanks; that password meets the rules.
\<close>

theorem CreateUser_opens:
  assumes "account_world env view" and "run_state (CreateUser env now rbac mapping r (Some u)) w = (Success (), w')"
  shows "view w ([], TrimSpace (ur_Name u)) = None \<and> checkPwd (TrimSpace (ac_Password u)) \<and>
    (opens env w' (TrimSpace (ur_Name u)) q \<longleftrightarrow> ae_Md5Salt env q = ae_Md5Salt env (TrimSpace (ac_Password u)))"
proof -
  obtain p w1 where p: "run_state (CheckAndCompleteCreateParam env (Some u)) w = (p, w1)" by fastforce
  with assms(2) obtain a where a: "p = Inr a" by (cases p) (auto simp: CreateUser_def)
  note C = CheckAndCompleteCreateParam_run [OF assms(1) p [unfolded a]]
  obtain e w2 where c: "run_state (CreateUserImpl env a) w1 = (e, w2)" by fastforce
  with assms(2) p a have "e = None" "w2 = w'" by (auto simp: CreateUser_def split: if_splits option.splits)
  with CreateUserImpl_run(1) [OF assms(1) c] C show ?thesis
    by (auto simp: opens_iff [OF assms(1)] account_key_def enabled_def NormalState_def ForbiddenState_def)
qed

lemma batch_loop_run:
  assumes "account_world env view" and "run_state (batch_loop env rows (k, failed)) w = (Ret (k', failed'), w')"
  shows "k' + length failed' = k + length failed + length rows \<and> (\<exists>more. failed' = failed @ more) \<and>
    (\<forall>key a. view w key = Some a \<longrightarrow> view w' key = Some a) \<and>
    (\<forall>row \<in> set rows. \<forall>u. csv_user (hd row) = Ret u \<and> ur_Name u \<notin> set failed' \<longrightarrow> view w' (account_key u) = Some u)"
  using assms(2)
proof (induction rows arbitrary: k failed w)
  case (Cons row rows)
  from Cons.prems obtain line rest u where u: "row = line # rest" "csv_user line = Ret u"
    by (auto split: list.splits go.splits simp del: csv_user.simps)
  obtain e w1 where c: "run_state (CreateUserImpl env u) w = (e, w1)" by fastforce
  note C = CreateUserImpl_run [OF assms(1) c]
  show ?case
  proof (cases e)
    case None
    with Cons.prems u c have "run_state (batch_loop env rows (Suc k, failed)) w1 = (Ret (k', failed'), w')"
      by (simp del: csv_user.simps)
    note IH = Cons.IH [OF this]
    have v: "view w (account_key u) = None" "view w1 = (view w)(account_key u \<mapsto> u)" using C(1) [OF None] by blast+
    from v have mono: "view w1 key = Some a" if "view w key = Some a" for key a using that by auto
    from v(2) have "view w1 (account_key u) = Some u" by simp
    with IH have here: "view w' (account_key u) = Some u" by blast
    show ?thesis
    proof (intro conjI ballI allI impI)
      show "view w' (account_key x) = Some x"
        if "ro \<in> set (row # rows)" "csv_user (hd ro) = Ret x \<and> ur_Name x \<notin> set failed'" for ro x
      proof (cases "ro = row")
        case True
        with that(2) u have "x = u" by (simp del: csv_user.simps)
        with here show ?thesis by simp
      qed (use IH that in auto)
    qed (use IH mono in auto)
  next
    case (Some er)
    with Cons.prems u c have "run_state (batch_loop env rows (k, failed @ [ur_Name u])) w1 = (Ret (k', failed'), w')"
      by (simp del: csv_user.simps)
    note IH = Cons.IH [OF this]
    have v: "view w1 = view w" using C(2) Some by simp
    have "ur_Name u \<in> set failed'" using IH by auto
    then have "x = u \<longrightarrow> ur_Name x \<in> set failed'" for x by simp
    then show ?thesis using IH v u by (auto simp del: csv_user.simps)
  qed
qed simp

text \<open>
  An imported user is locked out. The import creates each line whose name it does not report as
  failed, and every line is either created or reported; but it stores the password as it stands in the
  file, so a password opens such an account exactly when its hash is that text: the password of the
  file does so only if it is its own hash.
\<close>

lemma BatchCreateUser_locks_out:
  assumes "account_world env view"
    and "run_state (BatchCreateUser env now rbac mapping r (Some (file, Inr rows))) w = (Ret (Success (k, failed)), w')"
    and "row \<in> set (drop 1 rows)" and "csv_user (hd row) = Ret u" and "ur_Name u \<notin> set failed"
  shows "k + length failed = length rows - 1 \<and> (opens env w' (ur_Name u) q \<longleftrightarrow> ae_Md5Salt env q = ac_Password u)"
proof -
  from assms(2) have "run_state (batch_loop env (drop 1 rows) (0, [])) w = (Ret (k, failed), w')"
    by (auto simp: BatchCreateUser_def split: if_splits go.splits prod.splits)
  note B = batch_loop_run [OF assms(1) this]
  from B assms(3-5) have "view w' (account_key u) = Some u" by blast
  moreover have "enabled u"
    using assms(4) by (auto simp: enabled_def empty_account_def ForbiddenState_def split: list.splits)
  ultimately show ?thesis using B by (auto simp: opens_iff [OF assms(1)] account_key_def)
qed

lemma CheckUpdateParam_Inr:
  assumes "CheckUpdateParam env nu u = Inr u'" and "ac_LoginType u = NormalLogin"
  shows "ur_Name u' = ur_Name u"
    and "ac_Password u' = (if TrimSpace (ac_Password nu) = [] then ac_Password u else ae_Md5Salt env (TrimSpace (ac_Password nu)))"
    and "ac_State u' = (if ac_State nu \<in> {NormalState, ForbiddenState} then ac_State nu else ac_State u)"
  using assms
  by (auto simp: CheckUpdateParam_def Let_def split: if_splits sum.splits dest!: check_phone_fields check_email_fields)

text \<open>
  Who may change whose password. An update of an account with a password that succeeds was asked
  for by the user itself or by one who may list users; no right to update is asked for. After it, a
  password opens the account exactly when it has the hash of the new password, where the request
  gives one, and the account is not disabled, where the request may say so too.
\<close>

lemma UpdateUser_opens:
  assumes "account_world env view" and "view w ([], n) = Some u" and "ur_Name u = n" and "ac_LoginType u = NormalLogin"
    and "run_state (UpdateUser env now rbac mapping r n (Some nu)) w = (Success (), w')"
  shows "(IsSelf (ae_Jwt env) (ae_AuthJwt env) now r n \<or> AllowAccess env now rbac mapping r ListVerb []) \<and>
    (opens env w' n q \<longleftrightarrow>
       ae_Md5Salt env q = (if TrimSpace (ac_Password nu) = [] then ac_Password u else ae_Md5Salt env (TrimSpace (ac_Password nu))) \<and>
       (if ac_State nu = NormalState then True else if ac_State nu = ForbiddenState then False else enabled u))"
proof -
  obtain w1 where g: "run_state (GetUserByName env n) w = (Inr (Some u), w1)" "view w1 = view w"
    using GetUserByName_world [OF assms(1), of n w] assms(2) by auto
  from assms(5) g have auth: "IsSelf (ae_Jwt env) (ae_AuthJwt env) now r n \<or> AllowAccess env now rbac mapping r ListVerb []"
    by (auto simp: UpdateUser_def split: if_splits)
  obtain u' where u': "CheckUpdateParam env nu u = Inr u'"
    using assms(5) g by (auto simp: UpdateUser_def split: if_splits sum.splits)
  obtain e w2 where up: "run_state (cl_update (ae_Users env) u') w1 = (e, w2)" by fastforce
  have "e = None" "w2 = w'"
    using assms(5) g u' up by (auto simp: UpdateUser_def UpdateUserSpecImpl_def split: if_splits option.splits)
  moreover have "updates (ae_Users env) account_key view (\<lambda>v. v) (\<lambda>_. ())" using assms(1) by (simp add: account_world_def)
  ultimately have "view w' = (view w1)(account_key u' \<mapsto> u')" using up unfolding updates_def by fastforce
  moreover note C = CheckUpdateParam_Inr [OF u' assms(4)]
  ultimately have v: "view w' ([], n) = Some u'" using assms(3) by (simp add: account_key_def)
  have "enabled u' \<longleftrightarrow> (if ac_State nu = NormalState then True else if ac_State nu = ForbiddenState then False else enabled u)"
    using C(3) by (auto simp: enabled_def NormalState_def ForbiddenState_def)
  with auth v C(2) show ?thesis by (auto simp: opens_iff [OF assms(1)])
qed

subsection \<open>Keys\<close>

definition key_key :: "Key \<Rightarrow> objkey" where
  "key_key k = ([], ky_Name k)"

definition key_world :: "'w key_env \<Rightarrow> ('w \<Rightarrow> objkey \<Rightarrow> Key option) \<Rightarrow> bool" where
  "key_world env view \<longleftrightarrow>
     lists_by (ke_ListKeys env) view (\<lambda>v. v) ky_Labels \<and> reads (ke_CacheKeys env) view (\<lambda>v. v) \<and>
     inserts (ke_Keys env) key_key view (\<lambda>v. v) (\<lambda>_. ()) \<and> removes (ke_Keys env) key_key view (\<lambda>v. v) (\<lambda>_. ()) \<and>
     keeps_view (ae_NewUuid (ke_Authn env)) view \<and> (\<forall>k. keeps_view (cl_get (ke_Keys env) k) view) \<and>
     (\<forall>k. keeps_view (cl_get (ke_DirectUsers env) k) view)"

text \<open>The keys with the label of a user.\<close>

definition owned :: "(objkey \<Rightarrow> Key option) \<Rightarrow> string \<Rightarrow> Key set" where
  "owned v u = {k. \<exists>i. v i = Some k \<and> gm_get (ky_Labels k) UserLabel = Some u}"

definition few_keys :: "(objkey \<Rightarrow> Key option) \<Rightarrow> bool" where
  "few_keys v \<longleftrightarrow> (\<forall>u. finite (owned v u) \<and> card (owned v u) \<le> 5)"

lemma owned_delete: "owned (v(i := None)) u \<subseteq> owned v u"
  by (auto simp: owned_def split: if_splits)

lemma owned_insert:
  "owned (v(i \<mapsto> k)) u \<subseteq> (if gm_get (ky_Labels k) UserLabel = Some u then insert k (owned v u) else owned v u)"
  by (auto simp: owned_def split: if_splits)

lemma few_keys_delete: "few_keys v \<Longrightarrow> few_keys (v(i := None))"
  unfolding few_keys_def by (meson owned_delete card_mono finite_subset order_trans)

lemma few_keys_insert:
  assumes "few_keys v" and "\<And>u. gm_get (ky_Labels k) UserLabel = Some u \<Longrightarrow> card (owned v u) < 5"
  shows "few_keys (v(i \<mapsto> k))"
  unfolding few_keys_def
proof
  fix u
  let ?s = "if gm_get (ky_Labels k) UserLabel = Some u then insert k (owned v u) else owned v u"
  have f: "finite (owned v u)" "card (owned v u) \<le> 5" using assms(1) by (auto simp: few_keys_def)
  then have "finite ?s" by simp
  moreover have "card ?s \<le> 5" using f assms(2) [of u] by (auto simp: card_insert_if)
  ultimately show "finite (owned (v(i \<mapsto> k)) u) \<and> card (owned (v(i \<mapsto> k)) u) \<le> 5"
    using owned_insert [of v i k u] by (meson card_mono finite_subset order_trans)
qed

lemma GetUUID_keeps: "key_world env view \<Longrightarrow> keeps_view (GetUUID env) view"
  by (auto simp: GetUUID_def key_world_def intro!: keeps_view_bind)

text \<open>How the creation of a key can end.\<close>

lemma CreateKey_run:
  assumes world: "key_world env view" and run: "run_state (CreateKey env now r) w = (a, w')"
  obtains (kept) "view w' = view w" "\<forall>x. a \<noteq> Success x"
    | (made) u k where "requester env now r = Inr u" "a = Success (ky_Name k, ky_SecretKey k)" "ky_User k = u"
        "gm_get (ky_Labels k) = [UserLabel \<mapsto> u]" "card (owned (view w) u) < 5"
        "view w (key_key k) = None" "view w' = (view w)(key_key k \<mapsto> k)"
proof (cases "requester env now r")
  case (Inl e)
  with run show ?thesis by (intro kept) (auto simp: CreateKey_def)
next
  case (Inr u)
  from world have L: "lists_by (ke_ListKeys env) view (\<lambda>v. v) ky_Labels"
    and I: "inserts (ke_Keys env) key_key view (\<lambda>v. v) (\<lambda>_. ())" by (simp_all add: key_world_def)
  obtain l w1 where l: "run_state (ke_ListKeys env (UserLabel, u)) w = (l, w1)" by fastforce
  with L have v1: "view w1 = view w" and xs: "\<And>ks. l = Inr ks \<Longrightarrow> set ks = owned (view w) u"
    unfolding lists_by_def owned_def by blast+
  show ?thesis
  proof (cases "\<exists>ks. l = Inr ks \<and> length ks < 5")
    case False
    with run Inr l v1 show ?thesis by (intro kept) (auto simp: CreateKey_def split: sum.splits if_splits)
  next
    case True
    then obtain ks where ks: "l = Inr ks" "length ks < 5" by blast
    obtain ak w2 where ak: "run_state (GetUUID env) w1 = (ak, w2)" by fastforce
    obtain sk w3 where sk: "run_state (GetUUID env) w2 = (sk, w3)" by fastforce
    let ?k = "\<lparr>ky_Name = ak, ky_Labels = Some [(UserLabel, u)], ky_SecretKey = sk, ky_User = u\<rparr>"
    obtain e w4 where e: "run_state (cl_create (ke_Keys env) ?k) w3 = (e, w4)" by fastforce
    have v3: "view w3 = view w"
      using keeps_viewD [OF GetUUID_keeps [OF world] ak] keeps_viewD [OF GetUUID_keeps [OF world] sk] v1 by simp
    have w': "w' = w4" "a = (case e of Some er \<Rightarrow> Fail (BadRequest er) | None \<Rightarrow> Success (ak, sk))"
      using run Inr l ks ak sk e by (auto simp: CreateKey_def split: option.splits)
    have "card (owned (view w) u) < 5"
      using xs [OF ks(1)] ks(2) card_length [of ks] by (simp add: order_le_less_trans)
    then show ?thesis
      using inserts_run [OF I e] w' v3 Inr made [of u ?k]
      by (cases e) (auto intro: kept simp: fun_eq_iff)
  qed
qed

lemma DeleteKey_run:
  assumes world: "key_world env view" and run: "run_state (DeleteKey env now r ak) w = (a, w')"
  shows "if a = Success () then \<exists>k. requester env now r = Inr (ky_User k) \<and> view w ([], ak) = Some k \<and> view w' = (view w)(key_key k := None)
         else view w' = view w"
proof -
  from world have R: "reads (ke_CacheKeys env) view (\<lambda>v. v)"
    and D: "removes (ke_Keys env) key_key view (\<lambda>v. v) (\<lambda>_. ())" by (simp_all add: key_world_def)
  obtain g w1 where g: "run_state (cl_get (ke_CacheKeys env) ([], ak)) w = (g, w1)" by fastforce
  note G = reads_run [OF R g]
  show ?thesis
  proof (cases "\<exists>k. g = Inr k \<and> requester env now r = Inr (ky_User k)")
    case False
    with run g G(1) show ?thesis by (auto simp: DeleteKey_def split: sum.splits if_splits)
  next
    case True
    then obtain k where k: "g = Inr k" "requester env now r = Inr (ky_User k)" by blast
    obtain e w2 where e: "run_state (cl_delete (ke_Keys env) k) w1 = (e, w2)" by fastforce
    from run g k e have "w' = w2" "a = (case e of Some er \<Rightarrow> Fail (BadRequest er) | None \<Rightarrow> Success ())"
      by (auto simp: DeleteKey_def split: option.splits)
    with removes_run [OF D e] G(1) G(2) [OF k(1)] k show ?thesis by (cases e) auto
  qed
qed

text \<open>Any sequence of requests for keys, of any users and at any times.\<close>

inductive key_requests :: "'w key_env \<Rightarrow> 'w \<Rightarrow> 'w \<Rightarrow> bool" for env where
  none: "key_requests env w w"
| create: "key_requests env w v \<Longrightarrow> run_state (CreateKey env now r) v = (a, v') \<Longrightarrow> key_requests env w v'"
| delete: "key_requests env w v \<Longrightarrow> run_state (DeleteKey env now r ak) v = (b, v') \<Longrightarrow> key_requests env w v'"
| token: "key_requests env w v \<Longrightarrow> run_state (GetTokenByKey env now ak sk) v = (t, v') \<Longrightarrow> key_requests env w v'"

lemma GetTokenByKey_keeps: "key_world env view \<Longrightarrow> keeps_view (GetTokenByKey env now ak sk) view"
  by (auto simp: GetTokenByKey_def key_world_def intro!: keeps_view_bind split: sum.splits)

text \<open>
  No user ever has more than five keys. As long as the list of keys is up to date, every
  sequence of requests that create and delete keys, from a state in which nobody has more than
  five, keeps it so.
\<close>

lemma keys_bounded:
  assumes "key_requests env w w'" and "key_world env view" and "few_keys (view w)"
  shows "few_keys (view w')"
  using assms(1,3)
proof (induction rule: key_requests.induct)
  case (create w v now r a v')
  from assms(2) create.hyps(2) show ?case
  proof (cases rule: CreateKey_run)
    case (made u k)
    have "few_keys ((view v)(key_key k \<mapsto> k))"
      by (rule few_keys_insert) (use made create in \<open>auto split: if_splits\<close>)
    then show ?thesis unfolding made(7) .
  qed (use create in simp)
next
  case (delete w v now r ak b v')
  from DeleteKey_run [OF assms(2) delete.hyps(2)] delete.IH [OF delete.prems] show ?case
    by (metis few_keys_delete)
next
  case (token w v now ak sk t v')
  with keeps_viewD [OF GetTokenByKey_keeps [OF assms(2)] token.hyps(2)] show ?case by simp
qed

text \<open>
  A key stands for its user. The pair that the creation of a key answers with is exchanged for a
  token that speaks for the user who asked for the key, as long as the key and the account are
  there: also when the account has been disabled, which a login with the password refuses.
\<close>

lemma key_roundtrip:
  assumes "key_world env view" and "jwt_sound (ae_Jwt (ke_Authn env))" and "0 \<le> now'"
    and "requester env now r = Inr u" and "run_state (CreateKey env now r) w = (Success (ak, sk), w')"
    and "run_state (cl_get (ke_Keys env) ([], ak)) w' = (Inr k, w1)" and "view w' ([], ak) = Some k"
    and "run_state (cl_get (ke_DirectUsers env) ([], u)) w1 = (Inr acc, w2)" and "ur_Name acc = u"
    and "GenerateToken (ae_Jwt (ke_Authn env)) (ae_AuthJwt (ke_Authn env)) now' u = Inr t"
  shows "run_state (GetTokenByKey env now' ak sk) w' = (Success t, w2) \<and>
    Authentication (ae_Jwt (ke_Authn env)) (ae_AuthJwt (ke_Authn env)) now' t = Inr u"
proof -
  from assms(1,5) have "ky_User k = u \<and> ky_SecretKey k = sk"
  proof (cases rule: CreateKey_run)
    case (made u' k')
    have "view w' (key_key k') = Some k'" unfolding made(7) by simp
    moreover have "key_key k' = ([], ak)" using made(2) by (simp add: key_key_def)
    ultimately have "k' = k" using assms(7) by simp
    with made assms(4) show ?thesis by simp
  qed simp
  with assms(6,8-10) have "run_state (GetTokenByKey env now' ak sk) w' = (Success t, w2)" by (simp add: GetTokenByKey_def)
  moreover have "Authentication (ae_Jwt (ke_Authn env)) (ae_AuthJwt (ke_Authn env)) now' t = Inr u"
    using Authentication_generated(1) [OF assms(2,3,10), of now'] by simp
  ultimately show ?thesis by blast
qed

subsection \<open>Witnesses\<close>

text \<open>A control plane of accounts and keys, and a supply of identifiers.\<close>

record plane_state =
  ps_accounts :: "Account list"
  ps_keys :: "Key list"
  ps_uuids :: "string list"

definition plane_accounts :: "(plane_state, Account) client" where
  "plane_accounts = list_client ps_accounts (\<lambda>x s. s\<lparr>ps_accounts := x\<rparr>) account_key"

definition plane_keys :: "(plane_state, Key) client" where
  "plane_keys = list_client ps_keys (\<lambda>x s. s\<lparr>ps_keys := x\<rparr>) key_key"

definition plane_authn :: "plane_state authn_env" where
  "plane_authn = \<lparr>ae_Jwt = plain_jwt, ae_AuthJwt = plain_auth, ae_CacheUsers = plane_accounts, ae_Users = plane_accounts,
     ae_Md5Salt = (\<lambda>s. ''salt'' @ s),
     ae_NewUuid = State (\<lambda>s. case ps_uuids s of [] \<Rightarrow> ([], s) | x # xs \<Rightarrow> (x, s\<lparr>ps_uuids := xs\<rparr>)),
     ae_IsLdapOpen = False, ae_LdapAuthenticate = (\<lambda>_ _. Some NotFound),
     ae_GitHubIsEnable = False, ae_IdentityExchange = (\<lambda>_. Inl (Err ''off''))\<rparr>"

definition plane_key_env :: "plane_state key_env" where
  "plane_key_env = \<lparr>ke_Authn = plane_authn, ke_CacheKeys = plane_keys, ke_Keys = plane_keys,
     ke_ListKeys = list_select ps_keys key_key ky_Labels, ke_DirectUsers = plane_accounts\<rparr>"

definition account_view :: "plane_state \<Rightarrow> objkey \<Rightarrow> Account option" where
  "account_view s = lookup_by account_key (ps_accounts s)"

definition key_view :: "plane_state \<Rightarrow> objkey \<Rightarrow> Key option" where
  "key_view s = lookup_by key_key (ps_keys s)"

lemma plane_account_world: "account_world plane_authn account_view"
proof -
  have "\<exists>w'. run_state (cl_get plane_accounts ([], n)) w =
      (case account_view w ([], n) of None \<Rightarrow> Inl NotFound | Some a \<Rightarrow> Inr a, w') \<and> account_view w' = account_view w" for w n
    by (simp add: plane_accounts_def list_client_def Let_def account_view_def split: option.splits)
  moreover have "inserts plane_accounts account_key account_view (\<lambda>v. v) (\<lambda>_. ())"
    unfolding plane_accounts_def by (rule list_client_inserts) (simp_all add: account_view_def fun_eq_iff)
  moreover have "updates plane_accounts account_key account_view (\<lambda>v. v) (\<lambda>_. ())"
    unfolding plane_accounts_def by (rule list_client_updates) (simp_all add: account_view_def fun_eq_iff)
  ultimately show ?thesis by (simp add: account_world_def plane_authn_def)
qed

lemma plane_key_world: "key_world plane_key_env key_view"
proof -
  have "lists_by (list_select ps_keys key_key ky_Labels) key_view (\<lambda>v. v) ky_Labels"
    by (rule list_select_lists) (simp add: key_view_def fun_eq_iff)
  moreover have "reads plane_keys key_view (\<lambda>v. v)" "inserts plane_keys key_key key_view (\<lambda>v. v) (\<lambda>_. ())"
    "removes plane_keys key_key key_view (\<lambda>v. v) (\<lambda>_. ())"
    unfolding plane_keys_def
    by (rule list_client_reads list_client_inserts list_client_removes; simp add: key_view_def fun_eq_iff)+
  moreover have "keeps_view (ae_NewUuid plane_authn) key_view" "keeps_view (cl_get plane_keys k) key_view"
    "keeps_view (cl_get plane_accounts k) key_view" for k
    by (auto simp: keeps_view_def plane_authn_def plane_keys_def plane_accounts_def list_client_def key_view_def Let_def split: list.splits)
  ultimately show ?thesis by (simp add: key_world_def plane_key_env_def)
qed

definition empty_plane :: plane_state where
  "empty_plane = \<lparr>ps_accounts = [], ps_keys = [], ps_uuids = [''a-1'', ''s-1'']\<rparr>"

definition no_cache :: cache where
  "no_cache = \<lparr>ca_user = (\<lambda>_. Inl NotFound), ca_users = Inr [], ca_role = (\<lambda>_ _. Inl NotFound), ca_cluster_role = (\<lambda>_. Inl NotFound),
     ca_role_bindings = (\<lambda>_. Inr []), ca_cluster_role_bindings = Inr []\<rparr>"

definition new_bob :: Account where
  "new_bob = empty_account\<lparr>ur_Name := ''bob '', ac_Password := '' passw0rd''\<rparr>"

definition bob_created :: "unit answer \<times> plane_state" where
  "bob_created = run_state (CreateUser plane_authn 0 no_cache None (browser []) (Some new_bob)) empty_plane"

lemma bob_created_ok: "fst bob_created = Success ()"
  by code_simp

theorem CreateUser_opens_witness:
  "opens plane_authn (snd bob_created) ''bob'' ''passw0rd'' \<and> \<not> opens plane_authn (snd bob_created) ''bob'' ''password''"
proof -
  have "run_state (CreateUser plane_authn 0 no_cache None (browser []) (Some new_bob)) empty_plane = (Success (), snd bob_created)"
    using bob_created_ok by (simp add: bob_created_def prod_eq_iff)
  note O = CreateUser_opens [OF plane_account_world this]
  have t: "TrimSpace (ur_Name new_bob) = ''bob''" "TrimSpace (ac_Password new_bob) = ''passw0rd''" by code_simp+
  from O [of "''passw0rd''"] O [of "''password''"] show ?thesis unfolding t by (simp add: plane_authn_def)
qed

definition import_file :: "string list list" where
  "import_file = [[''name,password,displayName,email,phone''], [''bob,passw0rd,Bob,b@x.org,'']]"

definition imported :: "(nat \<times> string list) answer go \<times> plane_state" where
  "imported = run_state (BatchCreateUser plane_authn 0 no_cache None (browser []) (Some (''u.csv'', Inr import_file))) empty_plane"

lemma imported_ok: "fst imported = Ret (Success (1, []))"
  by code_simp

text \<open>A user whose only right is to list users gives another user's account a password of its own.\<close>

definition lister :: cache where
  "lister = no_cache\<lparr>
     ca_cluster_role_bindings := Inr [\<lparr>bi_Name = ''b'', bi_Namespace = [],
        bi_Subjects = [\<lparr>su_Kind = ''User'', su_Name = ''mallory'', su_Namespace = []\<rparr>],
        bi_RoleRef = \<lparr>rr_APIGroup = [], rr_Kind = ''ClusterRole'', rr_Name = ''lister''\<rparr>\<rparr>],
     ca_cluster_role := (\<lambda>_. Inr \<lparr>cr_Name = ''lister'', cr_Rules = [\<lparr>pr_Verbs = [''list''], pr_APIGroups = [''user.kubecube.io''],
        pr_Resources = [''users''], pr_ResourceNames = [], pr_NonResourceURLs = []\<rparr>]\<rparr>)\<rparr>"

definition taken_over :: "unit answer \<times> plane_state" where
  "taken_over = run_state (UpdateUser plane_authn 0 lister (Some (Inr (''user.kubecube.io'', ''users''))) (browser ''Bearer+mallory'') ''bob''
     (Some (empty_account\<lparr>ac_Password := ''mallory1''\<rparr>))) (snd bob_created)"

lemma taken_over_ok: "fst taken_over = Success ()"
  by code_simp

definition key_plane :: plane_state where
  "key_plane = empty_plane\<lparr>ps_accounts := [empty_account\<lparr>ur_Name := ''ada'', ac_State := ForbiddenState\<rparr>]\<rparr>"

definition key_made :: "(string \<times> string) answer \<times> plane_state" where
  "key_made = run_state (CreateKey plane_key_env 0 (browser ''Bearer+ada'')) key_plane"

lemma key_made_ok: "fst key_made = Success (''a1'', ''s1'')"
  by code_simp

end
