(* ===== verification/SyncMgr.thy ===== *)
theory SyncMgr
  imports Admission
begin

section \<open>Synchronisation from the pivot cluster: pkg/warden/syncmgr\<close>

text \<open>
  The warden keeps a copy of some kinds of objects of the pivot cluster in its own cluster:
  \<open>register.go\<close> has the reconciliation of one object, \<open>gc.go\<close> the clean up at the start. Objects of
  any kind are one record with the parts the code reads and the rest as a value of type \<open>'b\<close>. The object
  that a controller reads into is made once and used by all its reconciliations; it is part of the
  state.
\<close>

datatype sync_kind = TenantKind | ProjectKind | OtherKind

record 'b sync_obj =
  so_Namespace :: string
  so_Name :: string
  so_Labels :: labels
  so_Annotations :: labels
  so_Finalizers :: "string list"
  so_ResourceVersion :: string
  so_UID :: string
  so_CreationTimestamp :: int
  so_Body :: 'b

record ('w, 'b) sync_env =
  se_Kind :: sync_kind
  se_Pivot :: "('w, 'b sync_obj) client"
  se_Local :: "('w, 'b sync_obj) client"
  se_ListLocal :: "('w, 'b sync_obj list result) state"

record ('w, 'b) sync_state =
  ss_world :: 'w
  ss_pivotObj :: "'b sync_obj"

definition in_world :: "('w, 'a) state \<Rightarrow> (('w, 'b) sync_state, 'a) state" where
  "in_world m = State (\<lambda>s. case run_state m (ss_world s) of (a, w) \<Rightarrow> (a, s\<lparr>ss_world := w\<rparr>))"

lemma run_in_world [simp]:
  "run_state (in_world m) s = (case run_state m (ss_world s) of (a, w) \<Rightarrow> (a, s\<lparr>ss_world := w\<rparr>))"
  by (simp add: in_world_def)

subsection \<open>Definitions\<close>

definition pivotResourceVersion :: string where "pivotResourceVersion = ''pivotResourceVersion''"
definition HncInherited :: string where "HncInherited = ''hnc.x-k8s.io/inherited-from''"
definition lastApplied :: string where "lastApplied = ''kubectl.kubernetes.io/last-applied-configuration''"

text \<open>Writing into the annotations of an object that has none panics.\<close>

definition trimObjMeta :: "'b sync_obj \<Rightarrow> 'b sync_obj go" where
  "trimObjMeta obj =
     go_bind (gm_put (so_Annotations obj) pivotResourceVersion (so_ResourceVersion obj))
       (\<lambda>annotations. Ret (obj\<lparr>so_Annotations := map_option (AList.delete lastApplied) annotations, so_ResourceVersion := []\<rparr>))"

definition isSyncResource :: "'b sync_obj \<Rightarrow> bool" where
  "isSyncResource obj =
     (if gm_has (so_Labels obj) HncInherited then False
      else (case gm_get (so_Annotations obj) SyncAnnotation of
        None \<Rightarrow> False
      | Some v \<Rightarrow> (case ParseBool v of Some b \<Rightarrow> b | None \<Rightarrow> False)))"

definition getLocalObj :: "('w, 'b) sync_env \<Rightarrow> objkey \<Rightarrow> (('w, 'b) sync_state, 'b sync_obj result go) state" where
  "getLocalObj env req = do {
     s \<leftarrow> State_Monad.get;
     case trimObjMeta (ss_pivotObj s) of
       Panic \<Rightarrow> State_Monad.return Panic
     | Ret obj \<Rightarrow> do {
         _ \<leftarrow> State_Monad.set (s\<lparr>ss_pivotObj := obj\<rparr>);
         r \<leftarrow> in_world (cl_get (se_Local env) req);
         State_Monad.return (Ret r)
       }
   }"

definition updateSpecialObjForDelete :: "('w, 'b) sync_env \<Rightarrow> objkey \<Rightarrow> ('w, err option) state" where
  "updateSpecialObjForDelete env req = do {
     r \<leftarrow> cl_get (se_Local env) req;
     case r of
       Inl e \<Rightarrow> State_Monad.return (if e = NotFound then None else Some e)
     | Inr newObj \<Rightarrow>
         (let annotation = (case so_Annotations newObj of None \<Rightarrow> [] | Some a \<Rightarrow> a)
          in cl_update (se_Local env) (newObj\<lparr>so_Annotations := Some (AList.update ForceDeleteAnnotation ''true'' annotation)\<rparr>))
   }"

definition deleteObjFunc :: "('w, 'b) sync_env \<Rightarrow> objkey \<Rightarrow> (('w, 'b) sync_state, err option go) state" where
  "deleteObjFunc env req = do {
     g \<leftarrow> getLocalObj env req;
     case g of
       Panic \<Rightarrow> State_Monad.return Panic
     | Ret (Inl e) \<Rightarrow> State_Monad.return (Ret (if e = NotFound then None else Some e))
     | Ret (Inr localObj) \<Rightarrow> do {
         e \<leftarrow> (if se_Kind env \<in> {TenantKind, ProjectKind} then in_world (updateSpecialObjForDelete env req)
              else State_Monad.return None);
         if e \<noteq> None then State_Monad.return (Ret e)
         else do {
           e \<leftarrow> in_world (cl_delete (se_Local env) localObj);
           State_Monad.return (Ret (if e = Some NotFound then None else e))
         }
       }
   }"

definition Reconcile_sync :: "('w, 'b) sync_env \<Rightarrow> objkey \<Rightarrow> (('w, 'b) sync_state, err option go) state" where
  "Reconcile_sync env req = do {
     p \<leftarrow> in_world (cl_get (se_Pivot env) req);
     case p of
       Inl e \<Rightarrow> if e = NotFound then deleteObjFunc env req else State_Monad.return (Ret (Some e))
     | Inr pivotObj \<Rightarrow> do {
         s \<leftarrow> State_Monad.get;
         _ \<leftarrow> State_Monad.set (s\<lparr>ss_pivotObj := pivotObj\<rparr>);
         g \<leftarrow> getLocalObj env req;
         case g of
           Panic \<Rightarrow> State_Monad.return Panic
         | Ret (Inl e) \<Rightarrow>
             if e = NotFound then do {
               s \<leftarrow> State_Monad.get;
               e \<leftarrow> in_world (cl_create (se_Local env) (ss_pivotObj s));
               State_Monad.return (Ret e)
             }
             else State_Monad.return (Ret (Some e))
         | Ret (Inr localObj) \<Rightarrow> do {
             s \<leftarrow> State_Monad.get;
             if so_CreationTimestamp (ss_pivotObj s) > so_CreationTimestamp localObj then do {
               d \<leftarrow> deleteObjFunc env req;
               case d of
                 Panic \<Rightarrow> State_Monad.return Panic
               | Ret (Some e) \<Rightarrow> State_Monad.return (Ret (Some e))
               | Ret None \<Rightarrow> do {
                   s \<leftarrow> State_Monad.get;
                   e \<leftarrow> in_world (cl_create (se_Local env) (ss_pivotObj s));
                   State_Monad.return (Ret e)
                 }
             }
             else (case Atoi (label (so_Annotations (ss_pivotObj s)) pivotResourceVersion) of
               None \<Rightarrow> State_Monad.return (Ret (Some (Err ''strconv.Atoi'')))
             | Some pivotRsVersion \<Rightarrow>
                 (case Atoi (label (so_Annotations localObj) pivotResourceVersion) of
                    None \<Rightarrow> State_Monad.return (Ret (Some (Err ''strconv.Atoi'')))
                  | Some localRsVersion \<Rightarrow>
                      if pivotRsVersion > localRsVersion then do {
                        let obj = (ss_pivotObj s)\<lparr>so_ResourceVersion := so_ResourceVersion localObj, so_UID := so_UID localObj\<rparr>;
                        _ \<leftarrow> State_Monad.set (s\<lparr>ss_pivotObj := obj\<rparr>);
                        e \<leftarrow> in_world (cl_update (se_Local env) obj);
                        State_Monad.return (Ret e)
                      }
                      else State_Monad.return (Ret None)))
           }
       }
   }"

text \<open>The clean up: what is listed here, is meant to be in step and is not in the pivot cluster goes.\<close>

fun gc_items :: "('w, 'b) sync_env \<Rightarrow> 'b sync_obj list \<Rightarrow> ('w, unit) state" where
  "gc_items env [] = State_Monad.return ()"
| "gc_items env (item # items) =
     (if \<not> isSyncResource item then gc_items env items
      else do {
        r \<leftarrow> cl_get (se_Pivot env) (so_Namespace item, so_Name item);
        case r of
          Inl e \<Rightarrow>
            if e = NotFound then do {
              _ \<leftarrow> cl_delete (se_Local env) item;
              gc_items env items
            }
            else gc_items env items
        | Inr u \<Rightarrow> gc_items env items
      })"

fun GcWork :: "('w, 'b) sync_env list \<Rightarrow> ('w, unit) state" where
  "GcWork [] = State_Monad.return ()"
| "GcWork (env # envs) = do {
     l \<leftarrow> se_ListLocal env;
     case l of
       Inl e \<Rightarrow> GcWork envs
     | Inr items \<Rightarrow> do {
         _ \<leftarrow> gc_items env items;
         GcWork envs
       }
   }"

subsection \<open>What the synchronisation relies on\<close>

definition so_key :: "'b sync_obj \<Rightarrow> objkey" where
  "so_key x = (so_Namespace x, so_Name x)"

text \<open>What the server keeps of an object that it is given; the other fields are its own.\<close>

definition stored_as :: "'b sync_obj \<Rightarrow> 'b sync_obj \<Rightarrow> bool" where
  "stored_as x y \<longleftrightarrow> so_key y = so_key x \<and> so_Labels y = so_Labels x \<and> so_Annotations y = so_Annotations x \<and>
     so_Finalizers y = so_Finalizers x \<and> so_Body y = so_Body x"

text \<open>
  The view is the objects of one kind in the pivot cluster and here. A deleted object with finalizers
  stays until they are gone.
\<close>

type_synonym 'b sync_view = "(objkey \<Rightarrow> 'b sync_obj option) \<times> (objkey \<Rightarrow> 'b sync_obj option)"

definition sync_world :: "('w, 'b) sync_env \<Rightarrow> ('w \<Rightarrow> 'b sync_view) \<Rightarrow> bool" where
  "sync_world env view \<longleftrightarrow>
     reads (se_Pivot env) view fst \<and> reads (se_Local env) view snd \<and>
     (\<forall>w k x. fst (view w) k = Some x \<or> snd (view w) k = Some x \<longrightarrow> so_key x = k) \<and>
     (\<forall>w x e w'. run_state (cl_create (se_Local env) x) w = (e, w') \<longrightarrow> fst (view w') = fst (view w) \<and>
        (if e = None then snd (view w) (so_key x) = None \<and> (\<exists>y. stored_as x y \<and> snd (view w') = (snd (view w))(so_key x \<mapsto> y))
         else snd (view w') = snd (view w))) \<and>
     (\<forall>w x e w'. run_state (cl_update (se_Local env) x) w = (e, w') \<longrightarrow> fst (view w') = fst (view w) \<and>
        (if e = None then \<exists>y. stored_as x y \<and> snd (view w') = (snd (view w))(so_key x \<mapsto> y) else snd (view w') = snd (view w))) \<and>
     (\<forall>w x e w'. run_state (cl_delete (se_Local env) x) w = (e, w') \<longrightarrow> fst (view w') = fst (view w) \<and>
        (if e = None then \<exists>y. snd (view w) (so_key x) = Some y \<and>
              snd (view w') = (if so_Finalizers y = [] then (snd (view w))(so_key x := None) else snd (view w))
         else snd (view w') = snd (view w) \<and> (e = Some NotFound \<longrightarrow> snd (view w) (so_key x) = None)))"

lemma sync_reads:
  assumes "sync_world env view"
  shows "reads (se_Pivot env) view fst" "reads (se_Local env) view snd"
  using assms unfolding sync_world_def by blast+

lemma sync_named:
  assumes "sync_world env view"
  shows "fst (view w) k = Some x \<Longrightarrow> so_key x = k" "snd (view w) k = Some x \<Longrightarrow> so_key x = k"
  using assms unfolding sync_world_def by blast+

lemma sync_create:
  assumes "sync_world env view" and "run_state (cl_create (se_Local env) x) w = (e, w')"
  shows "fst (view w') = fst (view w)"
    and "e = None \<Longrightarrow> snd (view w) (so_key x) = None \<and> (\<exists>y. stored_as x y \<and> snd (view w') = (snd (view w))(so_key x \<mapsto> y))"
    and "e \<noteq> None \<Longrightarrow> snd (view w') = snd (view w)"
proof -
  from assms have "fst (view w') = fst (view w) \<and>
      (if e = None then snd (view w) (so_key x) = None \<and> (\<exists>y. stored_as x y \<and> snd (view w') = (snd (view w))(so_key x \<mapsto> y))
       else snd (view w') = snd (view w))" unfolding sync_world_def by blast
  then show "fst (view w') = fst (view w)"
    and "e = None \<Longrightarrow> snd (view w) (so_key x) = None \<and> (\<exists>y. stored_as x y \<and> snd (view w') = (snd (view w))(so_key x \<mapsto> y))"
    and "e \<noteq> None \<Longrightarrow> snd (view w') = snd (view w)" by presburger+
qed

lemma sync_update:
  assumes "sync_world env view" and "run_state (cl_update (se_Local env) x) w = (e, w')"
  shows "fst (view w') = fst (view w)"
    and "e = None \<Longrightarrow> \<exists>y. stored_as x y \<and> snd (view w') = (snd (view w))(so_key x \<mapsto> y)"
    and "e \<noteq> None \<Longrightarrow> snd (view w') = snd (view w)"
proof -
  from assms have "fst (view w') = fst (view w) \<and>
      (if e = None then \<exists>y. stored_as x y \<and> snd (view w') = (snd (view w))(so_key x \<mapsto> y) else snd (view w') = snd (view w))"
    unfolding sync_world_def by blast
  then show "fst (view w') = fst (view w)" and "e = None \<Longrightarrow> \<exists>y. stored_as x y \<and> snd (view w') = (snd (view w))(so_key x \<mapsto> y)"
    and "e \<noteq> None \<Longrightarrow> snd (view w') = snd (view w)" by presburger+
qed

lemma sync_delete:
  assumes "sync_world env view" and "run_state (cl_delete (se_Local env) x) w = (e, w')"
  shows "fst (view w') = fst (view w)"
    and "e = None \<Longrightarrow> \<exists>y. snd (view w) (so_key x) = Some y \<and>
              snd (view w') = (if so_Finalizers y = [] then (snd (view w))(so_key x := None) else snd (view w))"
    and "e \<noteq> None \<Longrightarrow> snd (view w') = snd (view w)" and "e = Some NotFound \<Longrightarrow> snd (view w) (so_key x) = None"
proof -
  from assms have "fst (view w') = fst (view w) \<and>
        (if e = None then \<exists>y. snd (view w) (so_key x) = Some y \<and>
              snd (view w') = (if so_Finalizers y = [] then (snd (view w))(so_key x := None) else snd (view w))
         else snd (view w') = snd (view w) \<and> (e = Some NotFound \<longrightarrow> snd (view w) (so_key x) = None))"
    unfolding sync_world_def by blast
  then show "fst (view w') = fst (view w)"
    and "e = None \<Longrightarrow> \<exists>y. snd (view w) (so_key x) = Some y \<and>
              snd (view w') = (if so_Finalizers y = [] then (snd (view w))(so_key x := None) else snd (view w))"
    and "e \<noteq> None \<Longrightarrow> snd (view w') = snd (view w)" and "e = Some NotFound \<Longrightarrow> snd (view w) (so_key x) = None"
    by (simp_all split: if_splits)
qed

text \<open>The local objects but for one key.\<close>

definition elsewhere :: "'b sync_view \<Rightarrow> objkey \<Rightarrow> objkey \<Rightarrow> 'b sync_obj option" where
  "elsewhere v k = (snd v)(k := None)"

lemma trimObjMeta_Ret:
  assumes "trimObjMeta x = Ret y"
  shows "so_key y = so_key x" "so_Labels y = so_Labels x" "so_Finalizers y = so_Finalizers x" "so_Body y = so_Body x"
    "so_CreationTimestamp y = so_CreationTimestamp x" "so_ResourceVersion y = []"
    "gm_get (so_Annotations y) = (gm_get (so_Annotations x))(pivotResourceVersion \<mapsto> so_ResourceVersion x, lastApplied := None)"
proof -
  obtain a where a: "so_Annotations x = Some a" using assms by (cases "so_Annotations x") (auto simp: trimObjMeta_def)
  with assms have y: "y = x\<lparr>so_Annotations := Some (AList.delete lastApplied (AList.update pivotResourceVersion (so_ResourceVersion x) a)), so_ResourceVersion := []\<rparr>"
    by (simp add: trimObjMeta_def)
  show "so_key y = so_key x" "so_Labels y = so_Labels x" "so_Finalizers y = so_Finalizers x" "so_Body y = so_Body x"
    "so_CreationTimestamp y = so_CreationTimestamp x" "so_ResourceVersion y = []" unfolding y by (simp_all add: so_key_def)
  show "gm_get (so_Annotations y) = (gm_get (so_Annotations x))(pivotResourceVersion \<mapsto> so_ResourceVersion x, lastApplied := None)"
    unfolding y a by (simp add: fun_eq_iff delete_conv')
qed

lemma getLocalObj_run:
  assumes "run_state (getLocalObj env req) s = (Ret r, s')"
  shows "\<exists>obj w'. trimObjMeta (ss_pivotObj s) = Ret obj \<and> run_state (cl_get (se_Local env) req) (ss_world s) = (r, w') \<and>
    s' = s\<lparr>ss_pivotObj := obj, ss_world := w'\<rparr>"
  using assms by (auto simp: getLocalObj_def split: go.splits prod.splits)

lemma updateSpecialObjForDelete_run:
  assumes "sync_world env view" and "run_state (updateSpecialObjForDelete env req) w = (e, w')"
  shows "fst (view w') = fst (view w)" and "elsewhere (view w') req = elsewhere (view w) req"
proof -
  obtain r w1 where g: "run_state (cl_get (se_Local env) req) w = (r, w1)" by fastforce
  note G = reads_run [OF sync_reads(2) [OF assms(1)] g]
  have "fst (view w') = fst (view w) \<and> elsewhere (view w') req = elsewhere (view w) req"
  proof (cases r)
    case (Inl x)
    with assms(2) g G(1) show ?thesis by (auto simp: updateSpecialObjForDelete_def)
  next
    case (Inr x)
    have k: "so_key x = req" using sync_named(2) [OF assms(1)] G(2) [OF Inr] by blast
    let ?x = "x\<lparr>so_Annotations := Some (AList.update ForceDeleteAnnotation ''true'' (case so_Annotations x of None \<Rightarrow> [] | Some a \<Rightarrow> a))\<rparr>"
    from assms(2) g Inr have u: "run_state (cl_update (se_Local env) ?x) w1 = (e, w')"
      by (simp add: updateSpecialObjForDelete_def Let_def)
    have "so_key ?x = req" using k by (simp add: so_key_def)
    with sync_update [OF assms(1) u] G(1) show ?thesis by (cases "e = None") (auto simp: elsewhere_def)
  qed
  then show "fst (view w') = fst (view w)" and "elsewhere (view w') req = elsewhere (view w) req" by simp_all
qed

lemma deleteObjFunc_run:
  assumes world: "sync_world env view" and run: "run_state (deleteObjFunc env req) s = (Ret None, s')"
  shows "fst (view (ss_world s')) = fst (view (ss_world s))"
    and "elsewhere (view (ss_world s')) req = elsewhere (view (ss_world s)) req"
    and "trimObjMeta (ss_pivotObj s) = Ret (ss_pivotObj s')"
    and "snd (view (ss_world s')) req = Some l \<Longrightarrow> so_Finalizers l \<noteq> []"
proof -
  from run obtain r s1 where g: "run_state (getLocalObj env req) s = (Ret r, s1)"
    by (auto simp: deleteObjFunc_def split: prod.splits go.splits)
  from getLocalObj_run [OF g] obtain obj w1 where
    o: "trimObjMeta (ss_pivotObj s) = Ret obj" "run_state (cl_get (se_Local env) req) (ss_world s) = (r, w1)"
      "s1 = s\<lparr>ss_pivotObj := obj, ss_world := w1\<rparr>" by blast
  note G = reads_run [OF sync_reads(2) [OF world] o(2)]
  have "fst (view (ss_world s')) = fst (view (ss_world s)) \<and> elsewhere (view (ss_world s')) req = elsewhere (view (ss_world s)) req \<and>
      trimObjMeta (ss_pivotObj s) = Ret (ss_pivotObj s') \<and> (\<forall>l. snd (view (ss_world s')) req = Some l \<longrightarrow> so_Finalizers l \<noteq> [])"
  proof (cases r)
    case (Inl e)
    with run g have "e = NotFound" "s' = s1" by (auto simp: deleteObjFunc_def split: if_splits)
    with G Inl o show ?thesis by simp
  next
    case (Inr x)
    have k: "so_key x = req" using sync_named(2) [OF world] G(2) [OF Inr] by blast
    let ?u = "if se_Kind env \<in> {TenantKind, ProjectKind} then in_world (updateSpecialObjForDelete env req) else State_Monad.return None"
    obtain e s2 where u: "run_state ?u s1 = (e, s2)" by fastforce
    have v2: "fst (view (ss_world s2)) = fst (view w1)" "elsewhere (view (ss_world s2)) req = elsewhere (view w1) req" "ss_pivotObj s2 = obj"
      using u updateSpecialObjForDelete_run [OF world, of req w1] o(3) by (auto split: if_splits prod.splits)
    from run g Inr u have "e = None" by (cases e) (auto simp: deleteObjFunc_def)
    obtain d w3 where d: "run_state (cl_delete (se_Local env) x) (ss_world s2) = (d, w3)" by fastforce
    with run g Inr u \<open>e = None\<close> have d': "d = None \<or> d = Some NotFound" "s' = s2\<lparr>ss_world := w3\<rparr>"
      by (auto simp: deleteObjFunc_def split: if_splits)
    note D = sync_delete [OF world d, unfolded k]
    have "elsewhere (view w3) req = elsewhere (view (ss_world s2)) req \<and> (\<forall>l. snd (view w3) req = Some l \<longrightarrow> so_Finalizers l \<noteq> [])"
    proof (cases "d = None")
      case True
      from D(2) [OF this] obtain y where y: "snd (view (ss_world s2)) req = Some y"
        "snd (view w3) = (if so_Finalizers y = [] then (snd (view (ss_world s2)))(req := None) else snd (view (ss_world s2)))" by blast
      then show ?thesis by (cases "so_Finalizers y = []") (simp_all add: elsewhere_def)
    next
      case False
      with d'(1) D(3,4) show ?thesis by (simp add: elsewhere_def)
    qed
    with D(1) d'(2) v2 o(1) G(1) show ?thesis by simp
  qed
  then show "fst (view (ss_world s')) = fst (view (ss_world s))"
    and "elsewhere (view (ss_world s')) req = elsewhere (view (ss_world s)) req"
    and "trimObjMeta (ss_pivotObj s) = Ret (ss_pivotObj s')"
    and "snd (view (ss_world s')) req = Some l \<Longrightarrow> so_Finalizers l \<noteq> []" by blast+
qed

text \<open>A copy: the same labels and contents, and the same annotations but for the two the code manages.\<close>

definition mirrors_obj :: "'b sync_obj \<Rightarrow> 'b sync_obj \<Rightarrow> bool" where
  "mirrors_obj p l \<longleftrightarrow> so_Body l = so_Body p \<and> so_Labels l = so_Labels p \<and>
     (\<forall>a. a \<noteq> pivotResourceVersion \<and> a \<noteq> lastApplied \<longrightarrow> gm_get (so_Annotations l) a = gm_get (so_Annotations p) a)"

lemma mirrors_trimmed: "trimObjMeta p = Ret x \<Longrightarrow> stored_as x y \<Longrightarrow> mirrors_obj p y"
  using trimObjMeta_Ret [of p x] by (simp add: mirrors_obj_def stored_as_def)

lemma mirrors_trimmed_twice: "trimObjMeta p = Ret x \<Longrightarrow> trimObjMeta x = Ret x' \<Longrightarrow> stored_as x' y \<Longrightarrow> mirrors_obj p y"
  using trimObjMeta_Ret [of p x] trimObjMeta_Ret [of x x'] by (simp add: mirrors_obj_def stored_as_def)

text \<open>How a reconciliation without an error can go when the object is in the pivot cluster.\<close>

lemma Reconcile_sync_cases:
  assumes world: "sync_world env view" and p: "fst (view (ss_world s)) req = Some p"
    and run: "run_state (Reconcile_sync env req) s = (Ret None, s')"
  obtains (created) x y where "trimObjMeta p = Ret x" "stored_as x y" "snd (view (ss_world s')) = (snd (view (ss_world s)))(req \<mapsto> y)"
      "snd (view (ss_world s)) req = None"
    | (recreated) x x' y l where "trimObjMeta p = Ret x" "trimObjMeta x = Ret x'" "stored_as x' y"
      "snd (view (ss_world s)) req = Some l" "so_CreationTimestamp p > so_CreationTimestamp l"
      "snd (view (ss_world s')) req = Some y" "elsewhere (view (ss_world s')) req = elsewhere (view (ss_world s)) req"
    | (updated) x y l where "trimObjMeta p = Ret x" "stored_as x y" "snd (view (ss_world s')) = (snd (view (ss_world s)))(req \<mapsto> y)"
      "snd (view (ss_world s)) req = Some l" "so_CreationTimestamp p \<le> so_CreationTimestamp l"
    | (kept) l pv lv where "snd (view (ss_world s')) = snd (view (ss_world s))" "snd (view (ss_world s)) req = Some l"
      "Atoi (so_ResourceVersion p) = Some pv" "Atoi (label (so_Annotations l) pivotResourceVersion) = Some lv" "pv \<le> lv"
      "so_CreationTimestamp p \<le> so_CreationTimestamp l"
proof -
  obtain q w0 where g0: "run_state (cl_get (se_Pivot env) req) (ss_world s) = (q, w0)" by fastforce
  note G0 = reads_run [OF sync_reads(1) [OF world] g0]
  from run g0 G0(3) p have "\<exists>x. q = Inr x" by (cases q) (auto simp: Reconcile_sync_def split: if_splits)
  with G0(2) p have q: "q = Inr p" by auto
  have pk: "so_key p = req" using sync_named(1) [OF world p] .
  let ?s0 = "s\<lparr>ss_world := w0, ss_pivotObj := p\<rparr>"
  from run g0 q obtain r s1 where g: "run_state (getLocalObj env req) ?s0 = (Ret r, s1)"
    by (auto simp: Reconcile_sync_def split: prod.splits go.splits)
  from getLocalObj_run [OF g] obtain x w1 where
    x: "trimObjMeta p = Ret x" "run_state (cl_get (se_Local env) req) w0 = (r, w1)" "s1 = s\<lparr>ss_world := w1, ss_pivotObj := x\<rparr>"
    by auto
  note T = trimObjMeta_Ret [OF x(1)] and G = reads_run [OF sync_reads(2) [OF world] x(2)]
  have v1: "view w1 = view (ss_world s)" using G(1) G0(1) by simp
  show ?thesis
  proof (cases r)
    case (Inl e)
    obtain e2 w2 where c: "run_state (cl_create (se_Local env) x) w1 = (e2, w2)" by fastforce
    from run g0 q g Inl x(3) c have "e = NotFound" "e2 = None" "ss_world s' = w2"
      by (auto simp: Reconcile_sync_def split: if_splits)
    with sync_create(2) [OF world c] T(1) pk v1 G(3) Inl x(1) G0(1) show ?thesis by (auto intro: created)
  next
    case (Inr l)
    have l: "snd (view (ss_world s)) req = Some l" using G(2) [OF Inr] G0(1) by simp
    show ?thesis
    proof (cases "so_CreationTimestamp p > so_CreationTimestamp l")
      case True
      obtain d s2 where d: "run_state (deleteObjFunc env req) s1 = (d, s2)" by fastforce
      obtain e2 w2 where c: "run_state (cl_create (se_Local env) (ss_pivotObj s2)) (ss_world s2) = (e2, w2)" by fastforce
      have dn: "d = Ret None"
        using run g0 q g Inr x(3) True T(5) d by (auto simp: Reconcile_sync_def split: go.splits option.splits)
      with run g0 q g Inr x(3) True T(5) d c have e2: "e2 = None" "s' = s2\<lparr>ss_world := w2\<rparr>"
        by (auto simp: Reconcile_sync_def)
      note D = deleteObjFunc_run [OF world d [unfolded dn]]
      have x': "trimObjMeta x = Ret (ss_pivotObj s2)" using D(3) x(3) by simp
      have k2: "so_key (ss_pivotObj s2) = req" using trimObjMeta_Ret(1) [OF x'] T(1) pk by simp
      from sync_create(2) [OF world c e2(1), unfolded k2] obtain y where
        y: "stored_as (ss_pivotObj s2) y" "snd (view w2) = (snd (view (ss_world s2)))(req \<mapsto> y)" by blast
      have "elsewhere (view w2) req = elsewhere (view (ss_world s)) req"
        using D(2) y(2) x(3) v1 by (simp add: elsewhere_def)
      with recreated [OF x(1) x' y(1) l True] y(2) e2(2) show ?thesis by simp
    next
      case False
      have lab: "label (so_Annotations x) pivotResourceVersion = so_ResourceVersion p"
        unfolding label_def T(7) by (simp add: pivotResourceVersion_def lastApplied_def)
      obtain pv where pv: "Atoi (so_ResourceVersion p) = Some pv"
        using run g0 q g Inr x(3) False T(5) lab by (auto simp: Reconcile_sync_def split: option.splits)
      obtain lv where lv: "Atoi (label (so_Annotations l) pivotResourceVersion) = Some lv"
        using run g0 q g Inr x(3) False T(5) lab pv by (auto simp: Reconcile_sync_def split: option.splits)
      show ?thesis
      proof (cases "pv > lv")
        case True
        let ?x = "x\<lparr>so_ResourceVersion := so_ResourceVersion l, so_UID := so_UID l\<rparr>"
        obtain e2 w2 where c: "run_state (cl_update (se_Local env) ?x) w1 = (e2, w2)" by fastforce
        from run g0 q g Inr x(3) False T(5) lab pv lv True c have e2: "e2 = None" "ss_world s' = w2"
          by (auto simp: Reconcile_sync_def Let_def)
        have k: "so_key ?x = req" using T(1) pk by (simp add: so_key_def)
        from sync_update(2) [OF world c e2(1), unfolded k] obtain y where
          y: "stored_as ?x y" "snd (view w2) = (snd (view w1))(req \<mapsto> y)" by blast
        have "stored_as x y" using y(1) by (simp add: stored_as_def so_key_def)
        from updated [OF x(1) this _ l] y(2) e2(2) v1 False show ?thesis by simp
      next
        case le: False
        from run g0 q g Inr x(3) False T(5) lab pv lv le have "ss_world s' = w1" by (auto simp: Reconcile_sync_def)
        with kept [OF _ l pv lv] v1 le False show ?thesis by simp
      qed
    qed
  qed
qed

text \<open>
  C24: one reconciliation without an error brings the local object in step. When the pivot cluster does
  not have it, it is gone here, or is only kept by its finalizers; when the pivot cluster has it, the
  local object is a copy of it, or it is the one that was there and records a version of the pivot
  cluster that is not older. No other object is touched.
\<close>

theorem Reconcile_sync_in_step:
  assumes "sync_world env view" and "run_state (Reconcile_sync env req) s = (Ret None, s')"
  shows "elsewhere (view (ss_world s')) req = elsewhere (view (ss_world s)) req \<and>
    (case fst (view (ss_world s)) req of
       None \<Rightarrow> (case snd (view (ss_world s')) req of None \<Rightarrow> True | Some l \<Rightarrow> so_Finalizers l \<noteq> [])
     | Some p \<Rightarrow> (\<exists>l. snd (view (ss_world s')) req = Some l \<and>
         (mirrors_obj p l \<or>
          snd (view (ss_world s)) req = Some l \<and>
          (\<exists>pv lv. Atoi (so_ResourceVersion p) = Some pv \<and> Atoi (label (so_Annotations l) pivotResourceVersion) = Some lv \<and> pv \<le> lv))))"
proof (cases "fst (view (ss_world s)) req")
  case None
  obtain q w0 where g0: "run_state (cl_get (se_Pivot env) req) (ss_world s) = (q, w0)" by fastforce
  note G0 = reads_run [OF sync_reads(1) [OF assms(1)] g0]
  from G0(2) None have "\<And>x. q \<noteq> Inr x" by auto
  with assms(2) g0 have d: "run_state (deleteObjFunc env req) (s\<lparr>ss_world := w0\<rparr>) = (Ret None, s')"
    by (cases q) (auto simp: Reconcile_sync_def split: if_splits)
  from deleteObjFunc_run(2,4) [OF assms(1) d] G0(1) None show ?thesis by (auto split: option.splits)
next
  case (Some p)
  from assms(1) Some assms(2) show ?thesis
  proof (cases rule: Reconcile_sync_cases)
    case (created x y)
    with Some mirrors_trimmed [OF created(1,2)] show ?thesis by (simp add: elsewhere_def)
  next
    case (recreated x x' y l)
    with Some mirrors_trimmed_twice [OF recreated(1-3)] show ?thesis by simp
  next
    case (updated x y l)
    with Some mirrors_trimmed [OF updated(1,2)] show ?thesis by (simp add: elsewhere_def)
  next
    case (kept l pv lv)
    with Some show ?thesis by (simp add: elsewhere_def)
  qed
qed

text \<open>A local object whose recorded version is not a number is never updated.\<close>

lemma Reconcile_sync_blocked:
  assumes world: "sync_world env view" and p: "fst (view (ss_world t)) req = Some p"
    and l: "snd (view (ss_world t)) req = Some l" "so_CreationTimestamp p \<le> so_CreationTimestamp l"
      "Atoi (label (so_Annotations l) pivotResourceVersion) = None"
    and run: "run_state (Reconcile_sync env req) t = (r, t')"
  shows "r \<noteq> Ret None \<and> view (ss_world t') = view (ss_world t)"
proof -
  obtain q w0 where g0: "run_state (cl_get (se_Pivot env) req) (ss_world t) = (q, w0)" by fastforce
  note G0 = reads_run [OF sync_reads(1) [OF world] g0]
  show ?thesis
  proof (cases q)
    case (Inl e)
    with G0(3) p have "e \<noteq> NotFound" by auto
    with Inl G0(1) run g0 show ?thesis by (auto simp: Reconcile_sync_def)
  next
    case (Inr x)
    with G0(2) p have x: "x = p" by simp
    obtain g s1 where g: "run_state (getLocalObj env req) (t\<lparr>ss_world := w0, ss_pivotObj := p\<rparr>) = (g, s1)" by fastforce
    show ?thesis
    proof (cases g)
      case Panic
      with g have "ss_world s1 = w0" by (auto simp: getLocalObj_def split: go.splits prod.splits)
      with Panic run g0 Inr x g G0(1) show ?thesis by (auto simp: Reconcile_sync_def)
    next
      case (Ret lr)
      from getLocalObj_run [OF g [unfolded Ret]] obtain obj w1 where
        o: "trimObjMeta p = Ret obj" "run_state (cl_get (se_Local env) req) w0 = (lr, w1)" "s1 = t\<lparr>ss_world := w1, ss_pivotObj := obj\<rparr>"
        by auto
      note G = reads_run [OF sync_reads(2) [OF world] o(2)]
      have "lr = Inr l \<or> (\<exists>e. lr = Inl e \<and> e \<noteq> NotFound)" using G(2,3) G0(1) l(1) by (cases lr) auto
      with run g0 Inr x g Ret o(3) l(2,3) trimObjMeta_Ret(5) [OF o(1)] G(1) G0(1) show ?thesis
        by (auto simp: Reconcile_sync_def split: option.splits)
    qed
  qed
qed

text \<open>
  A replaced object is cut off. When the object in the pivot cluster is younger than the local one,
  the local one is deleted and made again, with an empty text for the version of the pivot cluster;
  from then on no reconciliation that finds this local object succeeds or changes anything, for as
  long as the object in the pivot cluster is not replaced once more.
\<close>

lemma Reconcile_sync_cut_off:
  assumes "sync_world env view" and "fst (view (ss_world s)) req = Some p" and "snd (view (ss_world s)) req = Some l"
    and "so_CreationTimestamp p > so_CreationTimestamp l" and "run_state (Reconcile_sync env req) s = (Ret None, s')"
  shows "\<exists>l'. snd (view (ss_world s')) req = Some l' \<and> mirrors_obj p l' \<and>
    (\<forall>t p'. fst (view (ss_world t)) req = Some p' \<and> snd (view (ss_world t)) req = Some l' \<and>
        so_CreationTimestamp p' \<le> so_CreationTimestamp l' \<longrightarrow>
       fst (run_state (Reconcile_sync env req) t) \<noteq> Ret None \<and>
       view (ss_world (snd (run_state (Reconcile_sync env req) t))) = view (ss_world t))"
  using assms(1,2,5)
proof (cases rule: Reconcile_sync_cases)
  case (recreated x x' y l0)
  have "gm_get (so_Annotations y) pivotResourceVersion = Some []"
    using recreated(3) trimObjMeta_Ret(7) [OF recreated(2)] trimObjMeta_Ret(6) [OF recreated(1)]
    by (simp add: stored_as_def pivotResourceVersion_def lastApplied_def)
  then have "label (so_Annotations y) pivotResourceVersion = []" by (simp add: label_def)
  then have y: "Atoi (label (so_Annotations y) pivotResourceVersion) = None" by (simp add: Atoi_def HasPrefix_def)
  have "mirrors_obj p y" by (rule mirrors_trimmed_twice [OF recreated(1-3)])
  with recreated(6) Reconcile_sync_blocked [OF assms(1) _ _ _ y] show ?thesis by (metis prod.collapse)
qed (use assms(3,4) in auto)

text \<open>The clean up removes only objects that are meant to be in step and that the pivot cluster does not have.\<close>

lemma gc_items_safe:
  assumes world: "sync_world env view" and run: "run_state (gc_items env items) w = ((), w')"
  shows "fst (view w') = fst (view w) \<and>
    (\<forall>k. snd (view w') k \<noteq> snd (view w) k \<longrightarrow> fst (view w) k = None \<and> (\<exists>item \<in> set items. so_key item = k \<and> isSyncResource item))"
  using run
proof (induction items arbitrary: w)
  case (Cons item items)
  show ?case
  proof (cases "isSyncResource item")
    case False
    with Cons show ?thesis by auto
  next
    case True
    obtain r w1 where g: "run_state (cl_get (se_Pivot env) (so_key item)) w = (r, w1)" by fastforce
    note G = reads_run [OF sync_reads(1) [OF world] g]
    show ?thesis
    proof (cases "r = Inl NotFound")
      case True': True
      obtain e w2 where d: "run_state (cl_delete (se_Local env) item) w1 = (e, w2)" by fastforce
      from Cons.prems True True' g d have rest: "run_state (gc_items env items) w2 = ((), w')" by (simp add: so_key_def)
      have f: "fst (view w2) = fst (view w)" using sync_delete(1) [OF world d] G(1) by simp
      have "snd (view w2) k = snd (view w) k" if "k \<noteq> so_key item" for k
        using sync_delete(2,3) [OF world d] G(1) that by (cases "e = None") (auto split: if_splits)
      with Cons.IH [OF rest] f G(3) [OF True'] True show ?thesis by (metis list.set_intros)
    next
      case False
      with Cons.prems True g have rest: "run_state (gc_items env items) w1 = ((), w')" by (auto simp: so_key_def split: sum.splits)
      from Cons.IH [OF rest] G(1) show ?thesis by auto
    qed
  qed
qed simp

subsection \<open>Witnesses\<close>

text \<open>Two clusters as lists of objects; what is created here gets a version and the time of its creation.\<close>

type_synonym twin = "nat sync_obj list \<times> nat sync_obj list"

definition twin_local :: "(twin, nat sync_obj) client" where
  "twin_local = \<lparr>
     cl_get = (\<lambda>k. State (\<lambda>w. (case lookup_by so_key (snd w) k of None \<Rightarrow> Inl NotFound | Some x \<Rightarrow> Inr x, w))),
     cl_create = (\<lambda>x. State (\<lambda>w. if lookup_by so_key (snd w) (so_key x) = None
        then (None, (fst w, snd w @ [x\<lparr>so_CreationTimestamp := 100, so_ResourceVersion := ''1''\<rparr>])) else (Some AlreadyExists, w))),
     cl_update = (\<lambda>x. State (\<lambda>w. if lookup_by so_key (snd w) (so_key x) = None then (Some NotFound, w)
        else (None, (fst w, map (\<lambda>y. if so_key y = so_key x then x else y) (snd w))))),
     cl_status_update = (\<lambda>x. State (\<lambda>w. (Some NotFound, w))),
     cl_delete = (\<lambda>x. State (\<lambda>w. case lookup_by so_key (snd w) (so_key x) of None \<Rightarrow> (Some NotFound, w)
        | Some y \<Rightarrow> if so_Finalizers y = [] then (None, (fst w, filter (\<lambda>z. so_key z \<noteq> so_key x) (snd w))) else (None, w)))\<rparr>"

definition twin_env :: "(twin, nat) sync_env" where
  "twin_env = \<lparr>se_Kind = OtherKind, se_Pivot = list_client fst (\<lambda>x w. (x, snd w)) so_key, se_Local = twin_local,
     se_ListLocal = State (\<lambda>w. (Inr (snd w), w))\<rparr>"

definition twin_view :: "twin \<Rightarrow> nat sync_view" where
  "twin_view w = (lookup_by so_key (fst w), lookup_by so_key (snd w))"

lemma stored_as_refl: "stored_as x x" "stored_as x (x\<lparr>so_CreationTimestamp := t, so_ResourceVersion := v\<rparr>)"
  by (simp_all add: stored_as_def so_key_def)

lemma twin_world: "sync_world twin_env twin_view"
  unfolding sync_world_def
proof (intro conjI allI impI)
  show "reads (se_Pivot twin_env) twin_view fst"
    unfolding twin_env_def by (simp add: list_client_reads twin_view_def)
  show "reads (se_Local twin_env) twin_view snd"
    by (auto simp: reads_def twin_env_def twin_local_def twin_view_def split: option.splits)
  fix w :: twin and k and x :: "nat sync_obj" and e :: "err option" and w' :: twin
  show "so_key x = k" if "fst (twin_view w) k = Some x \<or> snd (twin_view w) k = Some x"
    using that lookup_by_key by (fastforce simp: twin_view_def)
  let ?y = "x\<lparr>so_CreationTimestamp := 100, so_ResourceVersion := ''1''\<rparr>"
  have k: "so_key ?y = so_key x" by (simp add: so_key_def)
  assume c: "run_state (cl_create (se_Local twin_env) x) w = (e, w')"
  then show "fst (twin_view w') = fst (twin_view w)"
    by (auto simp: twin_env_def twin_local_def twin_view_def split: if_splits)
  show "if e = None then snd (twin_view w) (so_key x) = None \<and> (\<exists>y. stored_as x y \<and> snd (twin_view w') = (snd (twin_view w))(so_key x \<mapsto> y))
        else snd (twin_view w') = snd (twin_view w)"
    using c lookup_by_snoc [of so_key "snd w" ?y] k stored_as_refl(2) [where x = x and t = 100 and v = "''1''"]
    by (auto simp: twin_env_def twin_local_def twin_view_def split: if_splits)
next
  fix w :: twin and x :: "nat sync_obj" and e :: "err option" and w' :: twin
  assume c: "run_state (cl_update (se_Local twin_env) x) w = (e, w')"
  then show "fst (twin_view w') = fst (twin_view w)"
    by (auto simp: twin_env_def twin_local_def twin_view_def split: if_splits)
  show "if e = None then \<exists>y. stored_as x y \<and> snd (twin_view w') = (snd (twin_view w))(so_key x \<mapsto> y) else snd (twin_view w') = snd (twin_view w)"
    using c lookup_by_map [of so_key "snd w" x] stored_as_refl(1) [of x]
    by (auto simp: twin_env_def twin_local_def twin_view_def split: if_splits)
next
  fix w :: twin and x :: "nat sync_obj" and e :: "err option" and w' :: twin
  assume c: "run_state (cl_delete (se_Local twin_env) x) w = (e, w')"
  then show "fst (twin_view w') = fst (twin_view w)"
    by (auto simp: twin_env_def twin_local_def twin_view_def split: if_splits option.splits)
  show "if e = None then \<exists>y. snd (twin_view w) (so_key x) = Some y \<and>
              snd (twin_view w') = (if so_Finalizers y = [] then (snd (twin_view w))(so_key x := None) else snd (twin_view w))
         else snd (twin_view w') = snd (twin_view w) \<and> (e = Some NotFound \<longrightarrow> snd (twin_view w) (so_key x) = None)"
    using c lookup_by_filter [of so_key x "snd w"]
    by (auto simp: twin_env_def twin_local_def twin_view_def split: if_splits option.splits)
qed

definition pivot_role :: "string \<Rightarrow> int \<Rightarrow> nat \<Rightarrow> nat sync_obj" where
  "pivot_role rv t b = \<lparr>so_Namespace = [], so_Name = ''r'', so_Labels = None, so_Annotations = Some [(SyncAnnotation, ''true'')],
     so_Finalizers = [], so_ResourceVersion = rv, so_UID = ''u'', so_CreationTimestamp = t, so_Body = b\<rparr>"

definition local_role :: "nat sync_obj" where
  "local_role = (pivot_role ''1'' 10 0)\<lparr>so_Annotations := Some [(SyncAnnotation, ''true''), (pivotResourceVersion, ''5'')]\<rparr>"

definition replaced :: "(twin, nat) sync_state" where
  "replaced = \<lparr>ss_world = ([pivot_role ''7'' 50 1], [local_role]), ss_pivotObj = pivot_role ''7'' 50 1\<rparr>"

abbreviation sync_r :: "(twin, nat) sync_state \<Rightarrow> err option go \<times> (twin, nat) sync_state" where
  "sync_r s \<equiv> run_state (Reconcile_sync twin_env ([], ''r'')) s"

theorem Reconcile_sync_in_step_witness:
  "fst (sync_r replaced) = Ret None \<and>
   (\<exists>l. snd (twin_view (ss_world (snd (sync_r replaced)))) ([], ''r'') = Some l \<and> so_Body l = 1)"
proof -
  have r: "fst (sync_r replaced) = Ret None" by code_simp
  then have "sync_r replaced = (Ret None, snd (sync_r replaced))" by (simp add: prod_eq_iff)
  note S = Reconcile_sync_in_step [OF twin_world this]
  have p: "fst (twin_view (ss_world replaced)) ([], ''r'') = Some (pivot_role ''7'' 50 1)"
    "snd (twin_view (ss_world replaced)) ([], ''r'') = Some local_role" by code_simp+
  have "label (so_Annotations local_role) pivotResourceVersion = ''5''" "so_ResourceVersion (pivot_role ''7'' 50 1) = ''7''" by code_simp+
  moreover have "Atoi ''5'' = Some 5" "Atoi ''7'' = Some 7" by code_simp+
  ultimately have "\<exists>l. snd (twin_view (ss_world (snd (sync_r replaced)))) ([], ''r'') = Some l \<and> mirrors_obj (pivot_role ''7'' 50 1) l"
    using S p by auto
  with r show ?thesis by (auto simp: mirrors_obj_def pivot_role_def)
qed

text \<open>A change in the pivot cluster after the replacement does not get through.\<close>

end
