(* ===== verification/ExternalAccess.thy ===== *)
theory ExternalAccess
  imports Authn "HOL-Library.Word"
begin

section \<open>External access to services\<close>

text \<open>
  \<open>pkg/apiserver/cubeapi/resourcemanage/resources/service/externalaccess.go\<close> keeps two config maps of
  the ingress controller, one for TCP and one for UDP, in which an external port leads to a service
  port: \<open>2456: demo-ns/demo-service:8893\<close>. The service controller of the warden,
  \<open>pkg/warden/localmgr/controllers/service\<close>, changes them when a service changes and clears them when
  it goes. A port of a service is an \<open>int32\<close>, here a \<open>32 word\<close>; the numbers of the requests are Go
  ints. The client of the cluster is an argument, with the dry run of a creation apart.
\<close>

subsection \<open>Definitions\<close>

definition TCP :: string where "TCP = ''TCP''"
definition UDP :: string where "UDP = ''UDP''"

text \<open>The Go conversion \<open>int(x)\<close> of an \<open>int32\<close>: the upper half of the bit patterns stands for negative numbers.\<close>

definition int32_value :: "32 word \<Rightarrow> int" where
  "int32_value x = (let n = uint x in if n < 2147483648 then n else n - 4294967296)"

lemma int32_value_range: "- (2 ^ 31) \<le> int32_value x" "int32_value x < 2 ^ 31"
proof -
  have "0 \<le> uint x" by simp
  then have "- 2147483648 \<le> uint x" by linarith
  moreover have "uint x < 2 ^ 32" using uint_lt2p [of x] by simp
  ultimately show "- (2 ^ 31) \<le> int32_value x" "int32_value x < 2 ^ 31" by (simp_all add: int32_value_def Let_def)
qed

record ServicePort =
  sp_Name :: string
  sp_Protocol :: string
  sp_Port :: "32 word"
  sp_NodePort :: "32 word"
  sp_TargetPort :: "32 word"

record Service =
  sv_Namespace :: string
  sv_Name :: string
  sv_ResourceVersion :: string
  sv_UID :: string
  sv_Type :: string
  sv_Ports :: "ServicePort list"

record ConfigMap =
  cm_Namespace :: string
  cm_Name :: string
  cm_Data :: "(string, string) gomap"

record ExternalAccessInfo =
  ei_ServicePort :: int
  ei_Protocol :: string
  ei_ExternalPort :: "int option"
  ei_ServicePortName :: string

record 'w ExternalAccess =
  ea_Services :: "('w, Service) client"
  ea_DryCreate :: "Service \<Rightarrow> ('w, err option) state"
  ea_ConfigMaps :: "('w, ConfigMap) client"
  ea_namespace :: string
  ea_name :: string
  ea_NginxNamespace :: string
  ea_NginxTcpServiceConfigMap :: string
  ea_NginxUdpServiceConfigMap :: string

definition updateErr :: err where "updateErr = Err ''update fail''"

definition tcp_cm :: "'w ExternalAccess \<Rightarrow> objkey" where
  "tcp_cm s = (ea_NginxNamespace s, ea_NginxTcpServiceConfigMap s)"

definition udp_cm :: "'w ExternalAccess \<Rightarrow> objkey" where
  "udp_cm s = (ea_NginxNamespace s, ea_NginxUdpServiceConfigMap s)"

text \<open>The ports of the service that is created for a try.\<close>

fun test_ports :: "string \<Rightarrow> int \<Rightarrow> ExternalAccessInfo list \<Rightarrow> ServicePort list" where
  "test_ports service_name i [] = []"
| "test_ports service_name i (info # externalServices) =
     (case ei_ExternalPort info of
        None \<Rightarrow> test_ports service_name i externalServices
      | Some ep \<Rightarrow>
          \<lparr>sp_Name = service_name @ ''--'' @ Itoa i, sp_Protocol = [], sp_Port = word_of_int (ei_ServicePort info),
           sp_NodePort = word_of_int ep, sp_TargetPort = word_of_int (ei_ServicePort info)\<rparr>
          # test_ports service_name (i + 1) externalServices)"

definition data_of :: "ConfigMap \<Rightarrow> (string \<times> string) list" where
  "data_of cm = (case cm_Data cm of None \<Rightarrow> [] | Some d \<Rightarrow> d)"

text \<open>What the entries of the service itself begin with, and the removal of them.\<close>

definition own_prefix :: "'w ExternalAccess \<Rightarrow> string" where
  "own_prefix s = ea_namespace s @ ''/'' @ ea_name s @ '':''"

definition clear_own :: "'w ExternalAccess \<Rightarrow> (string \<times> string) list \<Rightarrow> (string \<times> string) list" where
  "clear_own s data = filter (\<lambda>(k, v). \<not> HasPrefix v (own_prefix s)) data"

fun valid_port :: "ServicePort list \<Rightarrow> ExternalAccessInfo \<Rightarrow> bool" where
  "valid_port [] es = False"
| "valid_port (items # ports) es =
     (if sp_Protocol items = ei_Protocol es \<and> int32_value (sp_Port items) = ei_ServicePort es then True else valid_port ports es)"

fun set_ports ::
  "'w ExternalAccess \<Rightarrow> Service \<Rightarrow> ExternalAccessInfo list \<Rightarrow> (string \<times> string) list \<times> (string \<times> string) list
     \<Rightarrow> ((string \<times> string) list \<times> (string \<times> string) list) result" where
  "set_ports s service [] (tcp, udp) = Inr (tcp, udp)"
| "set_ports s service (es # externalServices) (tcp, udp) =
     (case ei_ExternalPort es of
        None \<Rightarrow> set_ports s service externalServices (tcp, udp)
      | Some ep \<Rightarrow>
          if \<not> valid_port (sv_Ports service) es then Inl (Err ''the service port is not exist'')
          else let dumpTest = ([] :: (int \<times> int) list) in
          if ep < 1 \<or> ep > 65535 \<or> ep = 80 \<or> ep = 443 then Inl (Err ''the external port is invalid'')
          else if map_of dumpTest ep \<noteq> None then Inl (Err ''dump external ports'')
          else let dumpTest = AList.update ep 0 dumpTest in
          if map_of tcp (Itoa ep) \<noteq> None then Inl (Err ''the external port conflict'')
          else if map_of udp (Itoa ep) \<noteq> None then Inl (Err ''the external port conflict'')
          else let v = ea_namespace s @ ''/'' @ ea_name s @ '':'' @ Itoa (ei_ServicePort es) in
          if EqualFold (ei_Protocol es) TCP then set_ports s service externalServices (AList.update (Itoa ep) v tcp, udp)
          else if EqualFold (ei_Protocol es) UDP then set_ports s service externalServices (tcp, AList.update (Itoa ep) v udp)
          else Inl (Err ''not support protocol''))"

definition write_maps ::
  "'w ExternalAccess \<Rightarrow> ConfigMap \<Rightarrow> ConfigMap \<Rightarrow> ('w, err option) state" where
  "write_maps s tcpcm udpcm = do {
     e1 \<leftarrow> cl_update (ea_ConfigMaps s) tcpcm;
     if e1 \<noteq> None then State_Monad.return (Some updateErr)
     else do {
       e2 \<leftarrow> cl_update (ea_ConfigMaps s) udpcm;
       State_Monad.return (if e2 \<noteq> None then Some updateErr else None)
     }
   }"

definition try_ports :: "'w ExternalAccess \<Rightarrow> Service \<Rightarrow> ExternalAccessInfo list \<Rightarrow> ('w, err option) state" where
  "try_ports s service externalServices =
     (let ports = test_ports (sv_Name service) 0 externalServices
      in if ports \<noteq> []
         then do {
           e \<leftarrow> ea_DryCreate s (service\<lparr>sv_Name := sv_Name service @ ''-test'', sv_ResourceVersion := [], sv_UID := [],
                                   sv_Ports := ports, sv_Type := ''NodePort''\<rparr>);
           State_Monad.return (if e \<noteq> None \<and> e \<noteq> Some AlreadyExists then Some (Err ''this externalPort is already in use'') else None)
         }
         else State_Monad.return None)"

definition SetExternalAccess :: "'w ExternalAccess \<Rightarrow> ExternalAccessInfo list \<Rightarrow> ('w, err option) state" where
  "SetExternalAccess s externalServices = do {
     r \<leftarrow> cl_get (ea_Services s) (ea_namespace s, ea_name s);
     case r of
       Inl e \<Rightarrow> State_Monad.return (Some e)
     | Inr service \<Rightarrow> do {
         e \<leftarrow> try_ports s service externalServices;
         if e \<noteq> None then State_Monad.return e
         else do {
           r1 \<leftarrow> cl_get (ea_ConfigMaps s) (tcp_cm s);
           case r1 of
             Inl e \<Rightarrow> State_Monad.return (Some (Err ''can not find tcp configmap''))
           | Inr tcpcm \<Rightarrow> do {
               r2 \<leftarrow> cl_get (ea_ConfigMaps s) (udp_cm s);
               case r2 of
                 Inl e \<Rightarrow> State_Monad.return (Some (Err ''can not find udp configmap''))
               | Inr udpcm \<Rightarrow>
                   (case set_ports s service externalServices (clear_own s (data_of tcpcm), clear_own s (data_of udpcm)) of
                      Inl e \<Rightarrow> State_Monad.return (Some e)
                    | Inr (tcp, udp) \<Rightarrow> write_maps s (tcpcm\<lparr>cm_Data := Some tcp\<rparr>) (udpcm\<lparr>cm_Data := Some udp\<rparr>))
             }
         }
       }
   }"

text \<open>
  What is set, read back. A result map leads from the service port to the pointer of its info; where
  two external ports lead to the same service port, the later one in the order of the map stays.
\<close>

type_synonym info_map = "(int \<times> ExternalAccessInfo) list"

fun read_ports :: "'w ExternalAccess \<Rightarrow> string \<Rightarrow> (string \<times> string) list \<Rightarrow> info_map \<Rightarrow> info_map" where
  "read_ports s protocol [] res = res"
| "read_ports s protocol ((k, v) # data) res =
     (let split = Split v '':'' in
      if length split \<noteq> 2 then read_ports s protocol data res
      else if \<not> EqualFold (split ! 0) (ea_namespace s @ ''/'' @ ea_name s) then read_ports s protocol data res
      else case Atoi (split ! 1) of
          None \<Rightarrow> read_ports s protocol data res
        | Some servicePort \<Rightarrow>
            (case Atoi k of
               None \<Rightarrow> read_ports s protocol data res
             | Some externalPort \<Rightarrow>
                 read_ports s protocol data
                   (AList.update servicePort \<lparr>ei_ServicePort = servicePort, ei_Protocol = protocol,
                      ei_ExternalPort = Some externalPort, ei_ServicePortName = []\<rparr> res)))"

definition GetExternalAccessConfigMap :: "'w ExternalAccess \<Rightarrow> ('w, (info_map \<times> info_map) result) state" where
  "GetExternalAccessConfigMap s = do {
     r1 \<leftarrow> cl_get (ea_ConfigMaps s) (tcp_cm s);
     case r1 of
       Inl e \<Rightarrow> State_Monad.return (Inl (Err ''can not find tcp configmap''))
     | Inr tcpcm \<Rightarrow> do {
         r2 \<leftarrow> cl_get (ea_ConfigMaps s) (udp_cm s);
         case r2 of
           Inl e \<Rightarrow> State_Monad.return (Inl (Err ''can not find udp configmap''))
         | Inr udpcm \<Rightarrow>
             State_Monad.return (Inr (read_ports s TCP (data_of tcpcm) [], read_ports s UDP (data_of udpcm) []))
       }
   }"

definition name_port :: "string \<Rightarrow> ServicePort \<Rightarrow> info_map \<Rightarrow> info_map" where
  "name_port protocol items res =
     (let p = int32_value (sp_Port items) in
      case map_of res p of
        None \<Rightarrow> AList.update p \<lparr>ei_ServicePort = p, ei_Protocol = protocol, ei_ExternalPort = None, ei_ServicePortName = sp_Name items\<rparr> res
      | Some info \<Rightarrow> AList.update p (info\<lparr>ei_ServicePortName := sp_Name items\<rparr>) res)"

fun name_ports :: "ServicePort list \<Rightarrow> info_map \<times> info_map \<Rightarrow> info_map \<times> info_map" where
  "name_ports [] (tcp, udp) = (tcp, udp)"
| "name_ports (items # ports) (tcp, udp) =
     (if sp_Protocol items = TCP then name_ports ports (name_port TCP items tcp, udp)
      else if sp_Protocol items = UDP then name_ports ports (tcp, name_port UDP items udp)
      else name_ports ports (tcp, udp))"

definition getExternalAccess :: "'w ExternalAccess \<Rightarrow> ('w, ExternalAccessInfo list answer) state" where
  "getExternalAccess s = do {
     r \<leftarrow> GetExternalAccessConfigMap s;
     case r of
       Inl e \<Rightarrow> State_Monad.return (Fail (BadRequest e))
     | Inr (tcpResultMap, udpResultMap) \<Rightarrow> do {
         r \<leftarrow> cl_get (ea_Services s) (ea_namespace s, ea_name s);
         case r of
           Inl e \<Rightarrow> State_Monad.return (Fail (BadRequest e))
         | Inr service \<Rightarrow>
             let (tcp, udp) = name_ports (sv_Ports service) (tcpResultMap, udpResultMap)
             in State_Monad.return (Success (map snd tcp @ map snd udp))
       }
   }"

definition DeleteExternalAccess :: "'w ExternalAccess \<Rightarrow> ('w, err option) state" where
  "DeleteExternalAccess s = do {
     r1 \<leftarrow> cl_get (ea_ConfigMaps s) (tcp_cm s);
     case r1 of
       Inl e \<Rightarrow> State_Monad.return (if e = NotFound then None else Some (Err ''can not get tcp configmap''))
     | Inr tcpcm \<Rightarrow> do {
         r2 \<leftarrow> cl_get (ea_ConfigMaps s) (udp_cm s);
         case r2 of
           Inl e \<Rightarrow> State_Monad.return (if e = NotFound then None else Some (Err ''can not get udp configmap''))
         | Inr udpcm \<Rightarrow>
             write_maps s (tcpcm\<lparr>cm_Data := map_option (clear_own s) (cm_Data tcpcm)\<rparr>)
               (udpcm\<lparr>cm_Data := map_option (clear_own s) (cm_Data udpcm)\<rparr>)
       }
   }"

text \<open>The handler of the extended API; \<open>body\<close> is the parsed body, where it parses.\<close>

definition AccessAllow :: "cache \<Rightarrow> string \<Rightarrow> string \<Rightarrow> string \<Rightarrow> string \<Rightarrow> string \<Rightarrow> bool" where
  "AccessAllow rbac name namespace apiGroup resource operator =
     (fst (Authorize rbac \<lparr>at_User = name, at_Verb = operator, at_Namespace = namespace, at_APIGroup = apiGroup,
        at_Resource = resource, at_Subresource = [], at_Name = [], at_Path = [], at_ResourceRequest = True\<rparr>) = DecisionAllow)"

datatype external_answer = Listed "ExternalAccessInfo list" | SetDone

definition ExternalHandle ::
  "'w ExternalAccess option \<Rightarrow> cache \<Rightarrow> string \<Rightarrow> string \<Rightarrow> string \<Rightarrow> ExternalAccessInfo list option \<Rightarrow> ('w, external_answer answer) state" where
  "ExternalHandle externalAccess rbac cluster username action body =
     (case externalAccess of
        None \<Rightarrow> State_Monad.return (Fail (ClusterNotFoundError cluster))
      | Some s \<Rightarrow>
          if action = ''GET''
          then (if \<not> AccessAllow rbac username (ea_namespace s) [] ''services'' ''list'' then State_Monad.return (Fail ForbiddenErr)
                else do {
                  r \<leftarrow> getExternalAccess s;
                  State_Monad.return (case r of Fail e \<Rightarrow> Fail e | Success l \<Rightarrow> Success (Listed l))
                })
          else if action = ''POST''
          then (if \<not> AccessAllow rbac username (ea_namespace s) [] ''services'' ''create'' then State_Monad.return (Fail ForbiddenErr)
                else case body of
                    None \<Rightarrow> State_Monad.return (Fail InvalidBodyFormat)
                  | Some externalServices \<Rightarrow> do {
                      e \<leftarrow> SetExternalAccess s externalServices;
                      State_Monad.return (case e of Some er \<Rightarrow> Fail (BadRequest er) | None \<Rightarrow> Success SetDone)
                    })
          else State_Monad.return (Fail InvalidHttpMethod))"

subsection \<open>Definitions: the service controller of the warden\<close>

text \<open>
  The infos are shared: what one loop writes through the pointer the other sees. A loop over the
  info map therefore gives back the map with the infos changed.
\<close>

fun new_ports :: "string \<Rightarrow> string \<Rightarrow> ServicePort list \<Rightarrow> ExternalAccessInfo \<times> ExternalAccessInfo list \<Rightarrow> ExternalAccessInfo \<times> ExternalAccessInfo list" where
  "new_ports protocol name [] (value, res) = (value, res)"
| "new_ports protocol name (newServicePort # ports) (value, res) =
     (if sp_Name newServicePort = name \<and> sp_Protocol newServicePort = protocol
      then let value' = value\<lparr>ei_ServicePort := int32_value (sp_Port newServicePort)\<rparr>
           in new_ports protocol name ports (value', res @ [value'])
      else new_ports protocol name ports (value, res))"

fun old_ports :: "string \<Rightarrow> int \<Rightarrow> ServicePort list \<Rightarrow> ServicePort list \<Rightarrow> ExternalAccessInfo \<times> ExternalAccessInfo list \<Rightarrow> ExternalAccessInfo \<times> ExternalAccessInfo list" where
  "old_ports protocol oldPort [] newPorts vr = vr"
| "old_ports protocol oldPort (servicePort # ports) newPorts vr =
     (if sp_Port servicePort = word_of_int oldPort \<and> sp_Protocol servicePort = protocol
      then old_ports protocol oldPort ports newPorts (new_ports protocol (sp_Name servicePort) newPorts vr)
      else old_ports protocol oldPort ports newPorts vr)"

fun handle_info :: "string \<Rightarrow> Service \<Rightarrow> Service \<Rightarrow> info_map \<Rightarrow> ExternalAccessInfo list \<Rightarrow> info_map \<times> ExternalAccessInfo list" where
  "handle_info protocol oldService newService [] res = ([], res)"
| "handle_info protocol oldService newService ((oldPort, value) # info) res =
     (let (value', res') = old_ports protocol oldPort (sv_Ports oldService) (sv_Ports newService) (value, res);
          (info', res'') = handle_info protocol oldService newService info res'
      in ((oldPort, value') # info', res''))"

definition handleTcpInfo :: "Service \<Rightarrow> Service \<Rightarrow> info_map \<Rightarrow> ExternalAccessInfo list \<Rightarrow> info_map \<times> ExternalAccessInfo list" where
  "handleTcpInfo = handle_info TCP"

definition handleUdpInfo :: "Service \<Rightarrow> Service \<Rightarrow> info_map \<Rightarrow> ExternalAccessInfo list \<Rightarrow> info_map \<times> ExternalAccessInfo list" where
  "handleUdpInfo = handle_info UDP"

text \<open>
  \<open>OnServiceUpdate\<close> and \<open>OnServiceDelete\<close> answer nothing; here they answer the error they log. The
  handler is made for the namespace and the name of the old service.
\<close>

definition for_service :: "'w ExternalAccess \<Rightarrow> Service \<Rightarrow> 'w ExternalAccess" where
  "for_service s service = s\<lparr>ea_namespace := sv_Namespace service, ea_name := sv_Name service\<rparr>"

definition OnServiceUpdate :: "'w ExternalAccess \<Rightarrow> Service \<Rightarrow> Service \<Rightarrow> ('w, err option) state" where
  "OnServiceUpdate c oldService newService = (let s = for_service c oldService in do {
     r \<leftarrow> GetExternalAccessConfigMap s;
     case r of
       Inl e \<Rightarrow> State_Monad.return (Some e)
     | Inr (tcpInfo, udpInfo) \<Rightarrow>
         if tcpInfo = [] \<and> udpInfo = [] then State_Monad.return None
         else let (tcpInfo, result) = handleTcpInfo oldService newService tcpInfo [];
                  (tcpInfo, result) = handleUdpInfo oldService newService tcpInfo result
              in SetExternalAccess s result
   })"

definition OnServiceDelete :: "'w ExternalAccess \<Rightarrow> Service \<Rightarrow> ('w, err option) state" where
  "OnServiceDelete c deleteService = DeleteExternalAccess (for_service c deleteService)"

subsection \<open>What is relied on\<close>

type_synonym external_view = "(objkey \<Rightarrow> Service option) \<times> (objkey \<Rightarrow> ConfigMap option)"

definition cm_key :: "ConfigMap \<Rightarrow> objkey" where
  "cm_key cm = (cm_Namespace cm, cm_Name cm)"

text \<open>
  The client serves services and config maps, a dry run changes nothing, objects are found under their
  own keys, and the two config maps are different ones.
\<close>

definition external_world :: "'w ExternalAccess \<Rightarrow> ('w \<Rightarrow> external_view) \<Rightarrow> bool" where
  "external_world s view \<longleftrightarrow>
     reads (ea_Services s) view fst \<and> reads (ea_ConfigMaps s) view snd \<and>
     updates (ea_ConfigMaps s) cm_key view snd fst \<and>
     (\<forall>x. keeps_view (ea_DryCreate s x) view) \<and>
     (\<forall>w k x. snd (view w) k = Some x \<longrightarrow> cm_key x = k) \<and> tcp_cm s \<noteq> udp_cm s"

text \<open>The entries of a config map, and that its data is a map: no key twice.\<close>

definition entries :: "external_view \<Rightarrow> objkey \<Rightarrow> string \<rightharpoonup> string" where
  "entries v k = (case snd v k of None \<Rightarrow> Map.empty | Some cm \<Rightarrow> map_of (data_of cm))"

definition proper_maps :: "external_view \<Rightarrow> bool" where
  "proper_maps v \<longleftrightarrow> (\<forall>k cm. snd v k = Some cm \<longrightarrow> distinct (map fst (data_of cm)))"

definition foreign :: "'w ExternalAccess \<Rightarrow> (string \<rightharpoonup> string) \<Rightarrow> string \<rightharpoonup> string" where
  "foreign s m k = (case m k of None \<Rightarrow> None | Some v \<Rightarrow> if HasPrefix v (own_prefix s) then None else Some v)"

text \<open>The external ports a request asks for, and the entries it makes for one protocol.\<close>

definition asked :: "ExternalAccessInfo list \<Rightarrow> (int \<times> ExternalAccessInfo) list" where
  "asked infos = List.map_filter (\<lambda>es. map_option (\<lambda>ep. (ep, es)) (ei_ExternalPort es)) infos"

definition ports_for :: "'w ExternalAccess \<Rightarrow> string \<Rightarrow> ExternalAccessInfo list \<Rightarrow> (string \<times> string) list" where
  "ports_for s protocol infos =
     map (\<lambda>(ep, es). (Itoa ep, own_prefix s @ Itoa (ei_ServicePort es)))
       (filter (\<lambda>(ep, es). EqualFold (ei_Protocol es) protocol) (asked infos))"

lemma asked_simps [simp]:
  "asked [] = []"
  "ei_ExternalPort es = None \<Longrightarrow> asked (es # infos) = asked infos"
  "ei_ExternalPort es = Some ep \<Longrightarrow> asked (es # infos) = (ep, es) # asked infos"
  by (simp_all add: asked_def List.map_filter_def)

lemma set_asked: "(ep, es) \<in> set (asked infos) \<longleftrightarrow> es \<in> set infos \<and> ei_ExternalPort es = Some ep"
  by (induction infos) (auto simp: asked_def List.map_filter_def split: option.splits)

lemma map_of_filter_values:
  "distinct (map fst l) \<Longrightarrow> map_of (filter (\<lambda>(k, v). P v) l) k = (case map_of l k of None \<Rightarrow> None | Some v \<Rightarrow> if P v then Some v else None)"
proof (induction l)
  case (Cons a l)
  then show ?case by (cases a) (auto simp: map_of_eq_None_iff split: option.splits)
qed simp

lemma map_of_clear_own: "distinct (map fst l) \<Longrightarrow> map_of (clear_own s l) = foreign s (map_of l)"
  by (rule ext) (simp add: clear_own_def map_of_filter_values [where P = "\<lambda>v. \<not> HasPrefix v (own_prefix s)"] foreign_def split: option.splits)

lemma valid_port_iff: "valid_port ports es \<longleftrightarrow> (\<exists>p \<in> set ports. sp_Protocol p = ei_Protocol es \<and> int32_value (sp_Port p) = ei_ServicePort es)"
  by (induction ports) auto

definition usable_port :: "int \<Rightarrow> bool" where
  "usable_port ep \<longleftrightarrow> 1 \<le> ep \<and> ep \<le> 65535 \<and> ep \<noteq> 80 \<and> ep \<noteq> 443"

lemma Atoi_Itoa_port: "usable_port a \<Longrightarrow> Atoi (Itoa a) = Some a"
  by (rule Atoi_Itoa) (simp_all add: usable_port_def)

lemma Itoa_inj_port: "usable_port a \<Longrightarrow> usable_port b \<Longrightarrow> Itoa a = Itoa b \<longleftrightarrow> a = b"
  by (metis Atoi_Itoa_port option.inject)

lemma TCP_not_UDP: "EqualFold p TCP \<Longrightarrow> \<not> EqualFold p UDP"
proof -
  have "fold_case TCP \<noteq> fold_case UDP" by code_simp
  then show "EqualFold p TCP \<Longrightarrow> \<not> EqualFold p UDP" by (simp add: EqualFold_def)
qed

text \<open>What the loop over the requested ports has checked and made when it comes to its end.\<close>

definition port_ok :: "Service \<Rightarrow> (string \<rightharpoonup> string) \<Rightarrow> (string \<rightharpoonup> string) \<Rightarrow> int \<Rightarrow> ExternalAccessInfo \<Rightarrow> bool" where
  "port_ok service tcp udp ep es \<longleftrightarrow> usable_port ep \<and> (EqualFold (ei_Protocol es) TCP \<or> EqualFold (ei_Protocol es) UDP) \<and>
     (\<exists>p \<in> set (sv_Ports service). sp_Protocol p = ei_Protocol es \<and> int32_value (sp_Port p) = ei_ServicePort es) \<and>
     tcp (Itoa ep) = None \<and> udp (Itoa ep) = None"

lemma port_ok_fresh:
  "port_ok service (tcp(Itoa ep \<mapsto> v)) udp ep' es \<Longrightarrow> port_ok service tcp udp ep' es \<and> Itoa ep' \<noteq> Itoa ep"
  "port_ok service tcp (udp(Itoa ep \<mapsto> v)) ep' es \<Longrightarrow> port_ok service tcp udp ep' es \<and> Itoa ep' \<noteq> Itoa ep"
  by (auto simp: port_ok_def split: if_splits)

lemma ports_for_Cons:
  assumes "ei_ExternalPort es = Some ep"
  shows "ports_for s protocol (es # infos) =
    (if EqualFold (ei_Protocol es) protocol then [(Itoa ep, own_prefix s @ Itoa (ei_ServicePort es))] else []) @ ports_for s protocol infos"
  using assms by (simp add: ports_for_def)

lemma ports_for_fresh:
  assumes "\<And>ep' es'. (ep', es') \<in> set (asked infos) \<Longrightarrow> Itoa ep' \<noteq> Itoa ep"
  shows "map_of (ports_for s protocol infos) (Itoa ep) = None"
  using assms by (force simp: ports_for_def map_of_eq_None_iff)

lemma ports_for_mem:
  "(ep, es) \<in> set (asked infos) \<Longrightarrow> EqualFold (ei_Protocol es) protocol \<Longrightarrow>
   (Itoa ep, own_prefix s @ Itoa (ei_ServicePort es)) \<in> set (ports_for s protocol infos)"
  unfolding ports_for_def by (force intro: rev_image_eqI)

lemma ports_for_distinct:
  assumes "distinct (map fst (asked infos))" and "\<And>ep es. (ep, es) \<in> set (asked infos) \<Longrightarrow> usable_port ep"
  shows "distinct (map fst (ports_for s protocol infos))"
proof -
  let ?f = "filter (\<lambda>(ep, es). EqualFold (ei_Protocol es) protocol) (asked infos)"
  have "distinct (map fst ?f)" using assms(1) by (rule distinct_map_filter)
  moreover have "inj_on Itoa (set (map fst ?f))"
  proof (rule inj_onI)
    fix a b assume "a \<in> set (map fst ?f)" "b \<in> set (map fst ?f)" "Itoa a = Itoa b"
    moreover from this have "usable_port a" "usable_port b" using assms(2) by auto
    ultimately show "a = b" using Itoa_inj_port by blast
  qed
  ultimately have "distinct (map Itoa (map fst ?f))" by (simp only: distinct_map [of Itoa])
  then show ?thesis by (simp add: ports_for_def case_prod_beta comp_def)
qed

lemma set_ports_step:
  assumes "ei_ExternalPort es = Some ep" and "set_ports s service (es # infos) (tcp, udp) = Inr out"
  shows "port_ok service (map_of tcp) (map_of udp) ep es"
    and "set_ports s service infos
      (if EqualFold (ei_Protocol es) TCP then (AList.update (Itoa ep) (own_prefix s @ Itoa (ei_ServicePort es)) tcp, udp)
       else (tcp, AList.update (Itoa ep) (own_prefix s @ Itoa (ei_ServicePort es)) udp)) = Inr out"
  using assms by (auto simp: port_ok_def usable_port_def Let_def own_prefix_def valid_port_iff split: if_splits)

lemma set_ports_Inr:
  assumes "set_ports s service infos (tcp, udp) = Inr (tcp', udp')"
  shows "distinct (map fst (asked infos)) \<and> (\<forall>(ep, es) \<in> set (asked infos). port_ok service (map_of tcp) (map_of udp) ep es) \<and>
    map_of tcp' = map_of tcp ++ map_of (ports_for s TCP infos) \<and> map_of udp' = map_of udp ++ map_of (ports_for s UDP infos)"
  using assms
proof (induction infos arbitrary: tcp udp)
  case (Cons es infos)
  show ?case
  proof (cases "ei_ExternalPort es")
    case None
    with Cons show ?thesis by (simp add: ports_for_def)
  next
    case (Some ep)
    let ?v = "own_prefix s @ Itoa (ei_ServicePort es)"
    note step = set_ports_step [OF Some Cons.prems]
    have up: "m(Itoa ep \<mapsto> ?v) ++ map_of (ports_for s protocol infos) = m ++ map_of ((Itoa ep, ?v) # ports_for s protocol infos)"
      if "map_of (ports_for s protocol infos) (Itoa ep) = None" for m protocol
      using that by (auto simp: fun_eq_iff map_add_def split: option.splits)
    show ?thesis
    proof (cases "EqualFold (ei_Protocol es) TCP")
      case True
      with step(2) have "set_ports s service infos (AList.update (Itoa ep) ?v tcp, udp) = Inr (tcp', udp')" by simp
      note IH = Cons.IH [OF this, unfolded map_of_alist_update]
      then have new: "\<And>ep' es'. (ep', es') \<in> set (asked infos) \<Longrightarrow> port_ok service (map_of tcp) (map_of udp) ep' es' \<and> Itoa ep' \<noteq> Itoa ep"
        using port_ok_fresh(1) by fast
      then have "ep \<notin> fst ` set (asked infos)" by fastforce
      moreover from new have "map_of (ports_for s TCP infos) (Itoa ep) = None" using ports_for_fresh by blast
      then have "map_of tcp' = map_of tcp ++ map_of (ports_for s TCP (es # infos))"
        using IH True by (simp only: up ports_for_Cons [OF Some] if_True append.simps)
      moreover have "map_of udp' = map_of udp ++ map_of (ports_for s UDP (es # infos))"
        using IH TCP_not_UDP [OF True] by (simp add: ports_for_Cons [OF Some])
      ultimately show ?thesis using IH new step(1) Some by auto
    next
      case False
      then have u: "EqualFold (ei_Protocol es) UDP" using step(1) by (simp add: port_ok_def)
      from False step(2) have "set_ports s service infos (tcp, AList.update (Itoa ep) ?v udp) = Inr (tcp', udp')" by simp
      note IH = Cons.IH [OF this, unfolded map_of_alist_update]
      then have new: "\<And>ep' es'. (ep', es') \<in> set (asked infos) \<Longrightarrow> port_ok service (map_of tcp) (map_of udp) ep' es' \<and> Itoa ep' \<noteq> Itoa ep"
        using port_ok_fresh(2) by fast
      then have "ep \<notin> fst ` set (asked infos)" by fastforce
      moreover from new have "map_of (ports_for s UDP infos) (Itoa ep) = None" using ports_for_fresh by blast
      then have "map_of udp' = map_of udp ++ map_of (ports_for s UDP (es # infos))"
        using IH u by (simp only: up ports_for_Cons [OF Some] if_True append.simps)
      moreover have "map_of tcp' = map_of tcp ++ map_of (ports_for s TCP (es # infos))"
        using IH False by (simp add: ports_for_Cons [OF Some])
      ultimately show ?thesis using IH new step(1) Some by auto
    qed
  qed
qed (simp add: ports_for_def)

subsection \<open>Setting, reading and clearing\<close>

lemma write_maps_run:
  assumes "external_world s view" and "run_state (write_maps s t u) w = (e, w')" and "cm_key t = tcp_cm s" and "cm_key u = udp_cm s"
  shows "e = None \<Longrightarrow> snd (view w') = (snd (view w))(tcp_cm s \<mapsto> t, udp_cm s \<mapsto> u)"
    and "fst (view w') = fst (view w)"
    and "e \<noteq> None \<Longrightarrow> e = Some updateErr"
    and "snd (view w') (udp_cm s) = snd (view w) (udp_cm s) \<or> snd (view w') (udp_cm s) = Some u"
proof -
  have U: "fst (view v') = fst (view v) \<and> snd (view v') = (if e = None then (snd (view v))(cm_key x \<mapsto> x) else snd (view v))"
    if "run_state (cl_update (ea_ConfigMaps s) x) v = (e, v')" for x v e v'
    using assms(1) that unfolding external_world_def updates_def by blast
  obtain e1 w1 where r1: "run_state (cl_update (ea_ConfigMaps s) t) w = (e1, w1)" by fastforce
  obtain e2 w2 where r2: "run_state (cl_update (ea_ConfigMaps s) u) w1 = (e2, w2)" by fastforce
  have ne: "tcp_cm s \<noteq> udp_cm s" using assms(1) by (simp add: external_world_def)
  note eq = assms(2) [unfolded write_maps_def] and facts = U [OF r1] U [OF r2] assms(3,4) ne r1 r2
  show "e = None \<Longrightarrow> snd (view w') = (snd (view w))(tcp_cm s \<mapsto> t, udp_cm s \<mapsto> u)"
    "fst (view w') = fst (view w)" "e \<noteq> None \<Longrightarrow> e = Some updateErr"
    "snd (view w') (udp_cm s) = snd (view w) (udp_cm s) \<or> snd (view w') (udp_cm s) = Some u"
    using eq facts by (auto split: if_splits)
qed

lemma external_reads:
  assumes "external_world s view"
  shows "run_state (cl_get (ea_Services s) k) w = (r, w') \<Longrightarrow> view w' = view w \<and> (\<forall>x. r = Inr x \<longrightarrow> fst (view w) k = Some x)"
    and "run_state (cl_get (ea_ConfigMaps s) k) w = (rc, w') \<Longrightarrow> view w' = view w \<and> (\<forall>x. rc = Inr x \<longrightarrow> snd (view w) k = Some x \<and> cm_key x = k)"
    and "run_state (try_ports s service infos) w = (e, w') \<Longrightarrow> view w' = view w"
proof -
  have W: "reads (ea_Services s) view fst" "reads (ea_ConfigMaps s) view snd" "\<And>x. keeps_view (ea_DryCreate s x) view"
      "\<And>w k x. snd (view w) k = Some x \<Longrightarrow> cm_key x = k"
    using assms unfolding external_world_def by blast+
  show "run_state (cl_get (ea_Services s) k) w = (r, w') \<Longrightarrow> view w' = view w \<and> (\<forall>x. r = Inr x \<longrightarrow> fst (view w) k = Some x)"
    using reads_run [OF W(1)] by blast
  show "run_state (cl_get (ea_ConfigMaps s) k) w = (rc, w') \<Longrightarrow> view w' = view w \<and> (\<forall>x. rc = Inr x \<longrightarrow> snd (view w) k = Some x \<and> cm_key x = k)"
    using reads_run [OF W(2)] W(4) by blast
  show "run_state (try_ports s service infos) w = (e, w') \<Longrightarrow> view w' = view w"
    using keeps_viewD [OF W(3)] by (auto simp: try_ports_def Let_def split: if_splits prod.splits)
qed

text \<open>A run of \<open>SetExternalAccess\<close> either stops before the first write or comes down to writing both maps.\<close>

lemma SetExternalAccess_run:
  assumes W: "external_world s view" and run: "run_state (SetExternalAccess s infos) w = (e, w')"
  obtains (stopped) "e \<noteq> None" "view w' = view w"
  | (written) service t u tcp udp w1 where "fst (view w) (ea_namespace s, ea_name s) = Some service"
      "snd (view w) (tcp_cm s) = Some t" "snd (view w) (udp_cm s) = Some u" "cm_key t = tcp_cm s" "cm_key u = udp_cm s"
      "set_ports s service infos (clear_own s (data_of t), clear_own s (data_of u)) = Inr (tcp, udp)" "view w1 = view w"
      "run_state (write_maps s (t\<lparr>cm_Data := Some tcp\<rparr>) (u\<lparr>cm_Data := Some udp\<rparr>)) w1 = (e, w')"
proof -
  note R = external_reads [OF W] and run' = run [unfolded SetExternalAccess_def]
  obtain r1 w1 where r1: "run_state (cl_get (ea_Services s) (ea_namespace s, ea_name s)) w = (r1, w1)" by fastforce
  note R1 = R(1) [OF r1]
  show thesis
  proof (cases r1)
    case (Inl er)
    with run' r1 R1 show ?thesis by (auto intro: stopped)
  next
    case service: (Inr service)
    obtain e2 w2 where r2: "run_state (try_ports s service infos) w1 = (e2, w2)" by fastforce
    note R2 = R(3) [OF r2]
    obtain r3 w3 where r3: "run_state (cl_get (ea_ConfigMaps s) (tcp_cm s)) w2 = (r3, w3)" by fastforce
    note R3 = R(2) [OF r3]
    obtain r4 w4 where r4: "run_state (cl_get (ea_ConfigMaps s) (udp_cm s)) w3 = (r4, w4)" by fastforce
    note R4 = R(2) [OF r4]
    note steps = run' r1 service r2 r3 r4
    show ?thesis
    proof (cases "e2 = None \<and> (\<exists>t u. r3 = Inr t \<and> r4 = Inr u)")
      case False
      then have "e \<noteq> None \<and> view w' = view w" using steps R1 R2 R3 R4 by (cases r3; cases r4) (auto split: if_splits)
      then show ?thesis using stopped by blast
    next
      case True
      then obtain t u where tu: "e2 = None" "r3 = Inr t" "r4 = Inr u" by blast
      show ?thesis
      proof (cases "set_ports s service infos (clear_own s (data_of t), clear_own s (data_of u))")
        case (Inl er)
        with steps tu R1 R2 R3 R4 show ?thesis by (auto intro!: stopped)
      next
        case (Inr out)
        obtain tcp udp where out: "out = (tcp, udp)" by fastforce
        show ?thesis
          by (rule written [of service t u tcp udp w4])
            (use steps tu R1 R2 R3 R4 Inr out in auto)
      qed
    qed
  qed
qed

lemma SetExternalAccess_effect:
  assumes "external_world s view" and "proper_maps (view w)" and "run_state (SetExternalAccess s infos) w = (e, w')"
  shows "let tcp = foreign s (entries (view w) (tcp_cm s)); udp = foreign s (entries (view w) (udp_cm s))
    in case e of
         None \<Rightarrow> \<exists>service. fst (view w) (ea_namespace s, ea_name s) = Some service \<and>
           distinct (map fst (asked infos)) \<and> (\<forall>(ep, es) \<in> set (asked infos). port_ok service tcp udp ep es) \<and>
           entries (view w') (tcp_cm s) = tcp ++ map_of (ports_for s TCP infos) \<and>
           entries (view w') (udp_cm s) = udp ++ map_of (ports_for s UDP infos) \<and>
           (\<forall>k. k \<notin> {tcp_cm s, udp_cm s} \<longrightarrow> snd (view w') k = snd (view w) k)
       | Some er \<Rightarrow> er \<noteq> updateErr \<longrightarrow> view w' = view w"
  using assms(1,3)
proof (cases rule: SetExternalAccess_run)
  case stopped
  then show ?thesis by (auto simp: Let_def)
next
  case (written service t u tcp udp w1)
  have key: "cm_key (t\<lparr>cm_Data := Some tcp\<rparr>) = tcp_cm s" "cm_key (u\<lparr>cm_Data := Some udp\<rparr>) = udp_cm s"
    using written(4,5) by (simp_all add: cm_key_def)
  note P = write_maps_run [OF assms(1) written(8) key]
  have d: "distinct (map fst (data_of t))" "distinct (map fst (data_of u))" using assms(2) written(2,3) unfolding proper_maps_def by blast+
  have ent: "entries (view w) (tcp_cm s) = map_of (data_of t)" "entries (view w) (udp_cm s) = map_of (data_of u)"
    using written(2,3) by (simp_all add: entries_def)
  note S = set_ports_Inr [OF written(6), unfolded map_of_clear_own [OF d(1)] map_of_clear_own [OF d(2)]]
  have ne: "tcp_cm s \<noteq> udp_cm s" using assms(1) by (simp add: external_world_def)
  show ?thesis
  proof (cases e)
    case None
    with P(1) written(7) ne have "entries (view w') (tcp_cm s) = map_of tcp" "entries (view w') (udp_cm s) = map_of udp"
        "\<forall>k. k \<notin> {tcp_cm s, udp_cm s} \<longrightarrow> snd (view w') k = snd (view w) k"
      by (auto simp: entries_def data_of_def)
    with None S ent written(1) show ?thesis by (simp add: Let_def)
  next
    case (Some er)
    with P(3) show ?thesis by (simp add: Let_def)
  qed
qed

text \<open>
  C30: what a request for external ports does. A request that succeeds replaces the entries of the
  service, and only those, by the ports it asks for: each of them is asked for once, lies between 1
  and 65535, is neither 80 nor 443, belongs to a port of the service with that protocol, and was used by no
  other service in either map. A request that is refused changes nothing, unless the refusal is a
  failed write.
\<close>

theorem SetExternalAccess_exact:
  assumes "external_world s view" and "proper_maps (view w)" and "run_state (SetExternalAccess s infos) w = (e, w')"
  shows "let tcp = foreign s (entries (view w) (tcp_cm s)); udp = foreign s (entries (view w) (udp_cm s))
    in case e of
         None \<Rightarrow> \<exists>service. fst (view w) (ea_namespace s, ea_name s) = Some service \<and>
           distinct (map fst (asked infos)) \<and> (\<forall>(ep, es) \<in> set (asked infos). port_ok service tcp udp ep es) \<and>
           entries (view w') (tcp_cm s) = tcp ++ map_of (ports_for s TCP infos) \<and>
           entries (view w') (udp_cm s) = udp ++ map_of (ports_for s UDP infos) \<and>
           (\<forall>k. k \<notin> {tcp_cm s, udp_cm s} \<longrightarrow> snd (view w') k = snd (view w) k)
       | Some er \<Rightarrow> er \<noteq> updateErr \<longrightarrow> view w' = view w"
  using assms by (rule SetExternalAccess_effect)

lemma GetExternalAccessConfigMap_run:
  assumes "external_world s view" and "run_state (GetExternalAccessConfigMap s) w = (r, w')"
  shows "view w' = view w"
    and "r = Inr (ti, ui) \<Longrightarrow> \<exists>t u. snd (view w) (tcp_cm s) = Some t \<and> snd (view w) (udp_cm s) = Some u \<and>
      ti = read_ports s TCP (data_of t) [] \<and> ui = read_ports s UDP (data_of u) []"
proof -
  note R = external_reads(2) [OF assms(1)]
  obtain r3 w3 where r3: "run_state (cl_get (ea_ConfigMaps s) (tcp_cm s)) w = (r3, w3)" by fastforce
  obtain r4 w4 where r4: "run_state (cl_get (ea_ConfigMaps s) (udp_cm s)) w3 = (r4, w4)" by fastforce
  note eq = assms(2) [unfolded GetExternalAccessConfigMap_def] r3 r4 R [OF r3] R [OF r4]
  show "view w' = view w" using eq by (auto split: sum.splits)
  show "r = Inr (ti, ui) \<Longrightarrow> \<exists>t u. snd (view w) (tcp_cm s) = Some t \<and> snd (view w) (udp_cm s) = Some u \<and>
      ti = read_ports s TCP (data_of t) [] \<and> ui = read_ports s UDP (data_of u) []"
    using eq by (auto split: sum.splits)
qed

text \<open>
  What is set is read back: as long as no two external ports of the service lead to the same service
  port, the answer has every one of them.
\<close>

definition own_entry :: "'w ExternalAccess \<Rightarrow> string \<times> string \<Rightarrow> (int \<times> int) option" where
  "own_entry s kv =
     (let split = Split (snd kv) '':'' in
      if length split = 2 \<and> EqualFold (split ! 0) (ea_namespace s @ ''/'' @ ea_name s)
      then (case (Atoi (split ! 1), Atoi (fst kv)) of (Some p, Some ep) \<Rightarrow> Some (p, ep) | _ \<Rightarrow> None) else None)"

definition port_info :: "string \<Rightarrow> int \<Rightarrow> int \<Rightarrow> ExternalAccessInfo" where
  "port_info protocol p ep = \<lparr>ei_ServicePort = p, ei_Protocol = protocol, ei_ExternalPort = Some ep, ei_ServicePortName = []\<rparr>"

lemma read_ports_Cons:
  "read_ports s protocol (kv # data) res =
     read_ports s protocol data (case own_entry s kv of None \<Rightarrow> res | Some (p, ep) \<Rightarrow> AList.update p (port_info protocol p ep) res)"
  by (cases kv) (simp add: own_entry_def port_info_def Let_def split: option.splits)

lemma read_ports_keeps:
  assumes "\<And>kv. kv \<in> set data \<Longrightarrow> map_option fst (own_entry s kv) \<noteq> Some p"
  shows "map_of (read_ports s protocol data res) p = map_of res p"
  using assms
proof (induction data arbitrary: res)
  case (Cons kv data)
  then have "map_option fst (own_entry s kv) \<noteq> Some p" by simp
  with Cons show ?case by (auto simp: read_ports_Cons split: option.splits)
qed simp

lemma set_alist_update: "set (AList.update k v l) \<subseteq> insert (k, v) (set l)"
  by (induction l) auto

lemma read_ports_values:
  "(\<forall>(p, i) \<in> set res. ei_Protocol i = protocol \<and> ei_ExternalPort i \<noteq> None) \<Longrightarrow>
   \<forall>(p, i) \<in> set (read_ports s protocol data res). ei_Protocol i = protocol \<and> ei_ExternalPort i \<noteq> None"
proof (induction data arbitrary: res)
  case (Cons kv data)
  have "\<forall>(p, i) \<in> set (AList.update q (port_info protocol q ep) res). ei_Protocol i = protocol \<and> ei_ExternalPort i \<noteq> None" for q ep
    using Cons.prems set_alist_update [of q "port_info protocol q ep" res] by (fastforce simp: port_info_def)
  with Cons.prems have "\<forall>(p, i) \<in> set (case own_entry s kv of None \<Rightarrow> res | Some (p, ep) \<Rightarrow> AList.update p (port_info protocol p ep) res).
      ei_Protocol i = protocol \<and> ei_ExternalPort i \<noteq> None" by (cases "own_entry s kv") (simp_all add: case_prod_beta)
  from Cons.IH [OF this] show ?case unfolding read_ports_Cons .
qed simp

lemma read_ports_hit:
  assumes "kv \<in> set data" and "own_entry s kv = Some (p, ep)"
    and "\<And>kv' ep'. kv' \<in> set data \<Longrightarrow> own_entry s kv' = Some (p, ep') \<Longrightarrow> ep' = ep"
  shows "map_of (read_ports s protocol data res) p = Some (port_info protocol p ep)"
  using assms
proof (induction data arbitrary: res kv)
  case (Cons x data)
  show ?case
  proof (cases "\<exists>y \<in> set data. map_option fst (own_entry s y) = Some p")
    case True
    then obtain y q where y: "y \<in> set data" "own_entry s y = Some (p, q)" by auto
    with Cons.prems(3) have "q = ep" by (metis list.set_intros(2))
    with y have "own_entry s y = Some (p, ep)" by simp
    then show ?thesis unfolding read_ports_Cons
      by (rule Cons.IH [OF y(1)]) (rule Cons.prems(3), simp_all)
  next
    case False
    with Cons.prems have "x = kv" by force
    with False Cons.prems(2) show ?thesis by (simp add: read_ports_Cons read_ports_keeps)
  qed
qed simp

subsection \<open>The service controller\<close>

lemma new_ports_run:
  assumes "new_ports protocol name ports (v, res) = (v', res')"
  shows "set res' = set res \<union> {v\<lparr>ei_ServicePort := int32_value (sp_Port n)\<rparr> | n. n \<in> set ports \<and> sp_Name n = name \<and> sp_Protocol n = protocol}"
    and "v'\<lparr>ei_ServicePort := x\<rparr> = v\<lparr>ei_ServicePort := x\<rparr>"
  using assms by (induction ports arbitrary: v res) (auto simp: Let_def split: if_splits)

definition follows :: "string \<Rightarrow> Service \<Rightarrow> Service \<Rightarrow> int \<Rightarrow> int \<Rightarrow> bool" where
  "follows protocol oldService newService p q \<longleftrightarrow>
     (\<exists>old \<in> set (sv_Ports oldService). \<exists>new \<in> set (sv_Ports newService). sp_Port old = word_of_int p \<and> sp_Protocol old = protocol \<and>
        sp_Name new = sp_Name old \<and> sp_Protocol new = protocol \<and> int32_value (sp_Port new) = q)"

lemma old_ports_run:
  assumes "old_ports protocol p olds news (v, res) = (v', res')"
  shows "set res' = set res \<union> {v\<lparr>ei_ServicePort := int32_value (sp_Port n)\<rparr> | old n. old \<in> set olds \<and> n \<in> set news \<and>
           sp_Port old = word_of_int p \<and> sp_Protocol old = protocol \<and> sp_Name n = sp_Name old \<and> sp_Protocol n = protocol}"
    and "v'\<lparr>ei_ServicePort := x\<rparr> = v\<lparr>ei_ServicePort := x\<rparr>"
proof -
  have "set res' = set res \<union> {v\<lparr>ei_ServicePort := int32_value (sp_Port n)\<rparr> | old n. old \<in> set olds \<and> n \<in> set news \<and>
           sp_Port old = word_of_int p \<and> sp_Protocol old = protocol \<and> sp_Name n = sp_Name old \<and> sp_Protocol n = protocol} \<and>
         (\<forall>x. v'\<lparr>ei_ServicePort := x\<rparr> = v\<lparr>ei_ServicePort := x\<rparr>)"
    using assms
  proof (induction olds arbitrary: v res)
    case (Cons old olds)
    show ?case
    proof (cases "sp_Port old = word_of_int p \<and> sp_Protocol old = protocol")
      case True
      obtain v1 res1 where n: "new_ports protocol (sp_Name old) news (v, res) = (v1, res1)" by fastforce
      with True Cons.prems have "old_ports protocol p olds news (v1, res1) = (v', res')" by simp
      note IH = Cons.IH [OF this] and N = new_ports_run [OF n]
      from IH have "set res' = set res1 \<union> {v\<lparr>ei_ServicePort := int32_value (sp_Port n)\<rparr> | old n. old \<in> set olds \<and> n \<in> set news \<and>
           sp_Port old = word_of_int p \<and> sp_Protocol old = protocol \<and> sp_Name n = sp_Name old \<and> sp_Protocol n = protocol}"
        using N(2) by simp
      with N IH True show ?thesis by auto
    next
      case False
      with Cons.prems have "old_ports protocol p olds news (v, res) = (v', res')" by auto
      with Cons.IH False show ?thesis unfolding list.set by blast
    qed
  qed auto
  then show "set res' = set res \<union> {v\<lparr>ei_ServicePort := int32_value (sp_Port n)\<rparr> | old n. old \<in> set olds \<and> n \<in> set news \<and>
           sp_Port old = word_of_int p \<and> sp_Protocol old = protocol \<and> sp_Name n = sp_Name old \<and> sp_Protocol n = protocol}"
    "v'\<lparr>ei_ServicePort := x\<rparr> = v\<lparr>ei_ServicePort := x\<rparr>" by blast+
qed

lemma handle_info_run:
  assumes "handle_info protocol old new info res = (info', res')"
  shows "set res' = set res \<union> {v\<lparr>ei_ServicePort := q\<rparr> | p v q. (p, v) \<in> set info \<and> follows protocol old new p q} \<and>
    map (\<lambda>(p, v). (p, v\<lparr>ei_ServicePort := 0\<rparr>)) info' = map (\<lambda>(p, v). (p, v\<lparr>ei_ServicePort := 0\<rparr>)) info"
  using assms
proof (induction info arbitrary: res info')
  case (Cons pv info)
  obtain p v where pv: "pv = (p, v)" by fastforce
  obtain v1 res1 where o1: "old_ports protocol p (sv_Ports old) (sv_Ports new) (v, res) = (v1, res1)" by fastforce
  obtain i2 res2 where h: "handle_info protocol old new info res1 = (i2, res2)" by fastforce
  from Cons.prems pv o1 h have e: "info' = (p, v1) # i2" "res2 = res'" by auto
  note N = old_ports_run [OF o1] and IH = Cons.IH [OF h [unfolded e(2)]]
  have "set res1 = set res \<union> {v\<lparr>ei_ServicePort := q\<rparr> | q. follows protocol old new p q}"
    using N(1) by (auto simp: follows_def)
  with IH N(2) [of 0] e pv show ?case by auto
qed simp

definition listed :: "'w ExternalAccess \<Rightarrow> external_view \<Rightarrow> string \<Rightarrow> objkey \<Rightarrow> info_map" where
  "listed s v protocol k = (case snd v k of None \<Rightarrow> [] | Some cm \<Rightarrow> read_ports s protocol (data_of cm) [])"

lemma listed_values: "(p, i) \<in> set (listed s v protocol k) \<Longrightarrow> ei_Protocol i = protocol \<and> ei_ExternalPort i \<noteq> None"
  using read_ports_values [of "[]" protocol s] by (fastforce simp: listed_def split: option.splits)

text \<open>The infos of UDP are never looked at: what both passes collect are infos of TCP.\<close>

lemma handled_tcp:
  assumes "\<And>p v. (p, v) \<in> set ti \<Longrightarrow> ei_Protocol v = TCP"
    and h1: "handleTcpInfo old new ti [] = (ti1, res1)" and h2: "handleUdpInfo old new ti1 res1 = (ti2, res2)" and "i \<in> set res2"
  shows "ei_Protocol i = TCP"
proof -
  note H1 = handle_info_run [OF h1 [unfolded handleTcpInfo_def]] and H2 = handle_info_run [OF h2 [unfolded handleUdpInfo_def]]
  have "ei_Protocol v = TCP" if "(p, v) \<in> set ti1" for p v
  proof -
    from that have "(p, v\<lparr>ei_ServicePort := 0\<rparr>) \<in> set (map (\<lambda>(p, v). (p, v\<lparr>ei_ServicePort := 0\<rparr>)) ti1)" by force
    then obtain v' where "(p, v') \<in> set ti" "v'\<lparr>ei_ServicePort := 0\<rparr> = v\<lparr>ei_ServicePort := 0\<rparr>" using H1 by auto
    moreover from this(2) have "ei_Protocol v' = ei_Protocol v" by (cases v; cases v') simp
    ultimately show ?thesis using assms(1) by metis
  qed
  with assms(1) show ?thesis using assms(4) H1 H2 by auto
qed

text \<open>
  What a changed service keeps of its external ports. When an update of the service has been
  handled without an error and the service had any external port, each TCP entry leads to the
  port that now has the name of the old one; but every UDP entry of the service is gone, since the
  infos of TCP are handed to both loops.
\<close>

lemma OnServiceUpdate_drops_udp:
  assumes "external_world (for_service c old) view" and "proper_maps (view w)" and "run_state (OnServiceUpdate c old new) w = (None, w')"
  shows "let s = for_service c old; ti = listed s (view w) TCP (tcp_cm s); ui = listed s (view w) UDP (udp_cm s)
    in if ti = [] \<and> ui = [] then view w' = view w
       else entries (view w') (udp_cm s) = foreign s (entries (view w) (udp_cm s)) \<and>
         (\<forall>p i ep q. (p, i) \<in> set ti \<and> ei_ExternalPort i = Some ep \<and> follows TCP old new p q \<longrightarrow>
            entries (view w') (tcp_cm s) (Itoa ep) = Some (own_prefix s @ Itoa q))"
proof -
  let ?s = "for_service c old"
  obtain r w1 where g: "run_state (GetExternalAccessConfigMap ?s) w = (r, w1)" by fastforce
  note G = GetExternalAccessConfigMap_run [OF assms(1) g]
  from assms(3) g obtain ti ui where r: "r = Inr (ti, ui)" by (cases r) (auto simp: OnServiceUpdate_def Let_def)
  have l: "ti = listed ?s (view w) TCP (tcp_cm ?s)" "ui = listed ?s (view w) UDP (udp_cm ?s)"
    using G(2) [OF r] by (auto simp: listed_def)
  obtain ti1 res1 where h1: "handleTcpInfo old new ti [] = (ti1, res1)" by fastforce
  obtain ti2 res2 where h2: "handleUdpInfo old new ti1 res1 = (ti2, res2)" by fastforce
  show ?thesis
  proof (cases "ti = [] \<and> ui = []")
    case True
    with assms(3) g r G(1) have "view w' = view w" by (simp add: OnServiceUpdate_def Let_def)
    with True l show ?thesis by (simp add: Let_def)
  next
    case False
    from assms(3) g r h1 h2 False have run: "run_state (SetExternalAccess ?s res2) w1 = (None, w')"
      by (auto simp: OnServiceUpdate_def Let_def)
    note H1 = handle_info_run [OF h1 [unfolded handleTcpInfo_def]] and H2 = handle_info_run [OF h2 [unfolded handleUdpInfo_def]]
    have infos: "ei_Protocol i = TCP" if "i \<in> set res2" for i
      using handled_tcp [OF _ h1 h2 that] listed_values l(1) by blast
    have noudp: "\<not> EqualFold TCP UDP" using TCP_not_UDP by (simp add: EqualFold_def)
    have "ports_for ?s UDP res2 = []"
      using infos noudp by (auto simp: ports_for_def filter_empty_conv set_asked)
    moreover have "(Itoa ep, own_prefix ?s @ Itoa q) \<in> set (ports_for ?s TCP res2)"
      if "(p, i) \<in> set ti" "ei_ExternalPort i = Some ep" "follows TCP old new p q" for p i ep q
    proof -
      have "i\<lparr>ei_ServicePort := q\<rparr> \<in> set res2" using that H1 H2 by blast
      with that(2) have "(ep, i\<lparr>ei_ServicePort := q\<rparr>) \<in> set (asked res2)" by (simp add: set_asked)
      moreover have "EqualFold (ei_Protocol i) TCP" using listed_values that(1) l(1) by (fastforce simp: EqualFold_def)
      ultimately show ?thesis using ports_for_mem by fastforce
    qed
    moreover note E = SetExternalAccess_effect [OF assms(1) assms(2) [folded G(1)] run, unfolded G(1) Let_def option.case]
    moreover have "distinct (map fst (ports_for ?s TCP res2))"
    proof -
      from E have d: "distinct (map fst (asked res2))" and ok: "\<And>ep es. (ep, es) \<in> set (asked res2) \<Longrightarrow> usable_port ep"
        by (auto simp: port_ok_def)
      from ports_for_distinct [OF d ok] show ?thesis .
    qed
    ultimately show ?thesis using False l by (auto simp: Let_def map_add_Some_iff)
  qed
qed

lemma own_entry_made:
  assumes "CHR '':'' \<notin> set (ea_namespace s)" and "CHR '':'' \<notin> set (ea_name s)"
    and "usable_port ep" and "- (2 ^ 63) \<le> p" and "p < 2 ^ 63"
  shows "own_entry s (Itoa ep, own_prefix s @ Itoa p) = Some (p, ep)"
proof -
  let ?n = "ea_namespace s @ ''/'' @ ea_name s"
  have d: "CHR '':'' \<notin> set (Itoa p)" using int_digits_plain [of p "CHR '':''"] int_digits_plain [of "- p" "CHR '':''"] by (auto simp: Itoa_def)
  have "Split (own_prefix s @ Itoa p) '':'' = [?n, Itoa p]"
    using assms(1,2) split_from_char [of "CHR '':''" ?n "[]" "Itoa p"] split_from_char_end [OF d] by (simp add: Split_def own_prefix_def)
  with assms(3-5) show ?thesis by (simp add: own_entry_def EqualFold_def Atoi_Itoa Atoi_Itoa_port)
qed

text \<open>
  What is set is read back. After a request for external ports that succeeded, the list of
  external ports names for each TCP port of the request the external port that was asked for, as long as
  no other service's entry reads as one of this service and the request asks for one external port
  only.
\<close>

lemma external_access_roundtrip:
  assumes W: "external_world s view" and "proper_maps (view w)" and proper: "proper_maps (view w')"
    and run: "run_state (SetExternalAccess s infos) w = (None, w')"
    and colon: "CHR '':'' \<notin> set (ea_namespace s)" "CHR '':'' \<notin> set (ea_name s)"
    and others: "\<And>k v. foreign s (entries (view w) (tcp_cm s)) k = Some v \<Longrightarrow> own_entry s (k, v) = None"
    and es: "(ep, es) \<in> set (asked infos)" "EqualFold (ei_Protocol es) TCP"
    and one: "\<And>ep' es'. (ep', es') \<in> set (asked infos) \<Longrightarrow> EqualFold (ei_Protocol es') TCP \<Longrightarrow> ei_ServicePort es' = ei_ServicePort es \<Longrightarrow> ep' = ep"
  shows "map_of (listed s (view w') TCP (tcp_cm s)) (ei_ServicePort es) = Some (port_info TCP (ei_ServicePort es) ep)"
proof -
  let ?m = "foreign s (entries (view w) (tcp_cm s))"
  from SetExternalAccess_effect [OF W assms(2) run] obtain service where
    E: "\<And>ep es. (ep, es) \<in> set (asked infos) \<Longrightarrow> port_ok service ?m (foreign s (entries (view w) (udp_cm s))) ep es"
      "entries (view w') (tcp_cm s) = ?m ++ map_of (ports_for s TCP infos)" by (auto simp: Let_def)
  have made: "own_entry s (Itoa ep, own_prefix s @ Itoa (ei_ServicePort es)) = Some (ei_ServicePort es, ep)"
    if "(ep, es) \<in> set (asked infos)" for ep es
  proof -
    from E(1) [OF that] obtain p :: "32 word" where "int32_value p = ei_ServicePort es" "usable_port ep" by (auto simp: port_ok_def)
    then show ?thesis using int32_value_range [of p] by (intro own_entry_made colon) auto
  qed
  have dist: "map_of (ports_for s TCP infos) (Itoa ep) \<noteq> None"
    using weak_map_of_SomeI [OF ports_for_mem [OF es]] by blast
  have from_list: "\<exists>ep' es'. (ep', es') \<in> set (asked infos) \<and> EqualFold (ei_Protocol es') TCP \<and> k = Itoa ep' \<and> v = own_prefix s @ Itoa (ei_ServicePort es')"
    if "map_of (ports_for s TCP infos) k = Some v" for k v
    using map_of_SomeD [OF that] by (auto simp: ports_for_def)
  from dist E(2) obtain cm where cm: "snd (view w') (tcp_cm s) = Some cm" by (fastforce simp: entries_def split: option.splits)
  have d: "distinct (map fst (data_of cm))" using proper cm unfolding proper_maps_def by blast
  have ent: "map_of (data_of cm) = ?m ++ map_of (ports_for s TCP infos)" using E(2) cm by (simp add: entries_def)
  from dist obtain v where v: "map_of (ports_for s TCP infos) (Itoa ep) = Some v" by blast
  from from_list [OF v] obtain ep' es' where f: "(ep', es') \<in> set (asked infos)" "Itoa ep = Itoa ep'"
    "v = own_prefix s @ Itoa (ei_ServicePort es')" by blast
  have "ep' = ep" using f E(1) [OF f(1)] E(1) [OF es(1)] Itoa_inj_port by (auto simp: port_ok_def)
  have "es' = es"
  proof -
    from SetExternalAccess_effect [OF W assms(2) run] have "distinct (map fst (asked infos))" by (auto simp: Let_def)
    with f(1) es(1) \<open>ep' = ep\<close> show ?thesis by (metis map_of_is_SomeI option.inject)
  qed
  with f v ent have "map_of (data_of cm) (Itoa ep) = Some (own_prefix s @ Itoa (ei_ServicePort es))" by (simp add: map_add_def)
  then have inl: "(Itoa ep, own_prefix s @ Itoa (ei_ServicePort es)) \<in> set (data_of cm)" by (rule map_of_SomeD)
  have "ep'' = ep" if kv: "kv \<in> set (data_of cm)" "own_entry s kv = Some (ei_ServicePort es, ep'')" for kv ep''
  proof -
    from kv(1) d have "map_of (data_of cm) (fst kv) = Some (snd kv)" by (simp add: map_of_is_SomeI)
    then consider "?m (fst kv) = Some (snd kv)" | "map_of (ports_for s TCP infos) (fst kv) = Some (snd kv)"
      unfolding ent by (auto simp: map_add_def split: option.splits)
    then show ?thesis
    proof cases
      case 1
      with others [OF this] kv(2) show ?thesis by simp
    next
      case 2
      from from_list [OF this] obtain e1 s1 where "(e1, s1) \<in> set (asked infos)" "EqualFold (ei_Protocol s1) TCP"
        "kv = (Itoa e1, own_prefix s @ Itoa (ei_ServicePort s1))" by (metis prod.collapse)
      with made [of e1 s1] kv(2) one [of e1 s1] show ?thesis by simp
    qed
  qed
  from read_ports_hit [OF inl made [OF es(1)] this, where res = "[]" and protocol = TCP] show ?thesis by (simp add: listed_def cm)
qed

subsection \<open>Witnesses\<close>

text \<open>A cluster with a service of one TCP and one UDP port, and another service that has taken a port.\<close>

type_synonym port_lab = "Service list \<times> ConfigMap list"

definition lab_view :: "port_lab \<Rightarrow> external_view" where
  "lab_view w = (lookup_by (\<lambda>sv. (sv_Namespace sv, sv_Name sv)) (fst w), lookup_by cm_key (snd w))"

definition lab_access :: "port_lab ExternalAccess" where
  "lab_access = \<lparr>ea_Services = list_client fst (\<lambda>x w. (x, snd w)) (\<lambda>sv. (sv_Namespace sv, sv_Name sv)),
     ea_DryCreate = (\<lambda>x. State_Monad.return None), ea_ConfigMaps = list_client snd (\<lambda>x w. (fst w, x)) cm_key,
     ea_namespace = ''demo'', ea_name = ''web'', ea_NginxNamespace = ''nginx'', ea_NginxTcpServiceConfigMap = ''tcp'', ea_NginxUdpServiceConfigMap = ''udp''\<rparr>"

definition web :: Service where
  "web = \<lparr>sv_Namespace = ''demo'', sv_Name = ''web'', sv_ResourceVersion = ''1'', sv_UID = ''u'', sv_Type = ''ClusterIP'', sv_Ports =
     [\<lparr>sp_Name = ''http'', sp_Protocol = TCP, sp_Port = 80, sp_NodePort = 0, sp_TargetPort = 80\<rparr>,
      \<lparr>sp_Name = ''dns'', sp_Protocol = UDP, sp_Port = 53, sp_NodePort = 0, sp_TargetPort = 53\<rparr>]\<rparr>"

definition lab_maps :: "(string \<times> string) list \<Rightarrow> (string \<times> string) list \<Rightarrow> port_lab" where
  "lab_maps tcp udp = ([web], [\<lparr>cm_Namespace = ''nginx'', cm_Name = ''tcp'', cm_Data = Some tcp\<rparr>, \<lparr>cm_Namespace = ''nginx'', cm_Name = ''udp'', cm_Data = Some udp\<rparr>])"

lemma lab_world: "external_world lab_access lab_view"
  unfolding external_world_def
proof (intro conjI allI impI)
  show "reads (ea_Services lab_access) lab_view fst"
    unfolding lab_access_def by (simp add: list_client_reads lab_view_def)
  show "reads (ea_ConfigMaps lab_access) lab_view snd"
    unfolding lab_access_def by (simp add: list_client_reads lab_view_def)
  show "updates (ea_ConfigMaps lab_access) cm_key lab_view snd fst"
    unfolding lab_access_def by (simp add: list_client_updates lab_view_def)
  show "keeps_view (ea_DryCreate lab_access x) lab_view" for x by (simp add: lab_access_def)
  show "cm_key x = k" if "snd (lab_view w) k = Some x" for w k x
    using that lookup_by_key by (fastforce simp: lab_view_def)
  show "tcp_cm lab_access \<noteq> udp_cm lab_access" by (simp add: tcp_cm_def udp_cm_def lab_access_def)
qed

lemma lab_proper: "distinct (map fst tcp) \<Longrightarrow> distinct (map fst udp) \<Longrightarrow> proper_maps (lab_view (lab_maps tcp udp))"
  using lookup_by_key by (fastforce simp: proper_maps_def lab_view_def lab_maps_def data_of_def)

definition ask_http :: "ExternalAccessInfo list" where
  "ask_http = [\<lparr>ei_ServicePort = 80, ei_Protocol = TCP, ei_ExternalPort = Some 8080, ei_ServicePortName = ''http''\<rparr>]"

abbreviation lab_before :: port_lab where
  "lab_before \<equiv> lab_maps [(''9000'', ''demo/other:1''), (''7000'', ''demo/web:80'')] []"

abbreviation lab_set :: "err option \<times> port_lab" where
  "lab_set \<equiv> run_state (SetExternalAccess lab_access ask_http) lab_before"

theorem SetExternalAccess_exact_witness:
  "fst lab_set = None \<and>
   entries (lab_view (snd lab_set)) (tcp_cm lab_access) = [''9000'' \<mapsto> ''demo/other:1'', ''8080'' \<mapsto> ''demo/web:80'']"
proof -
  have r: "fst lab_set = None" by code_simp
  have p: "proper_maps (lab_view lab_before)" by (rule lab_proper) auto
  have "lab_set = (None, snd lab_set)" using r by (simp add: prod_eq_iff)
  note S = SetExternalAccess_exact [OF lab_world p this]
  have "ports_for lab_access TCP ask_http = [(''8080'', ''demo/web:80'')]" by code_simp
  moreover have "entries (lab_view lab_before) (tcp_cm lab_access) = [''9000'' \<mapsto> ''demo/other:1'', ''7000'' \<mapsto> ''demo/web:80'']"
    by (auto simp: entries_def lab_view_def lab_maps_def tcp_cm_def lab_access_def cm_key_def data_of_def)
  moreover have "foreign lab_access [''9000'' \<mapsto> ''demo/other:1'', ''7000'' \<mapsto> ''demo/web:80''] = [''9000'' \<mapsto> ''demo/other:1'']"
    by (auto simp: foreign_def own_prefix_def lab_access_def HasPrefix_def fun_eq_iff)
  ultimately have "entries (lab_view (snd lab_set)) (tcp_cm lab_access) = [''9000'' \<mapsto> ''demo/other:1''] ++ map_of [(''8080'', ''demo/web:80'')]"
    using S by (auto simp: Let_def)
  with r show ?thesis by simp
qed

abbreviation lab_exposed :: port_lab where
  "lab_exposed \<equiv> lab_maps [(''8080'', ''demo/web:80'')] [(''5353'', ''demo/web:53'')]"

abbreviation lab_updated :: "err option \<times> port_lab" where
  "lab_updated \<equiv> run_state (OnServiceUpdate lab_access web web) lab_exposed"

lemma lab_updated_ok: "fst lab_updated = None"
  by code_simp

end
