(* ===== verification/RoleControllers.thy ===== *)
theory RoleControllers
  imports UserScope RbacResolver
begin

section \<open>The controllers that keep cluster roles\<close>

text \<open>
  Two controllers of the warden: \<open>pkg/warden/localmgr/controllers/crds\<close> gives the aggregated roles of
  the pivot cluster a rule for each custom resource, and \<open>pkg/warden/localmgr/controllers/olm\<close> mirrors the
  admin role of an operator group into a role that is aggregated to the admins of platform,
  tenants and projects. The clients are arguments; \<open>controllerutil.CreateOrUpdate\<close> is modelled here.
\<close>

subsection \<open>Definitions\<close>

definition AggPlatformAdmin :: string where "AggPlatformAdmin = ''aggregate-to-platform-admin''"
definition AggReviewer :: string where "AggReviewer = ''aggregate-to-reviewer''"
definition AggProjectAdminCluster :: string where "AggProjectAdminCluster = ''aggregate-to-project-admin-cluster''"
definition AggTenantAdminCluster :: string where "AggTenantAdminCluster = ''aggregate-to-tenant-admin-cluster''"
definition AggProjectAdmin :: string where "AggProjectAdmin = ''aggregate-to-project-admin''"
definition AggTenantAdmin :: string where "AggTenantAdmin = ''aggregate-to-tenant-admin''"
definition PlatformAdminAgLabel :: string where "PlatformAdminAgLabel = ''rbac.authorization.k8s.io/aggregate-to-platform-admin''"
definition TenantAdminAgLabel :: string where "TenantAdminAgLabel = ''rbac.authorization.k8s.io/aggregate-to-tenant-admin''"
definition ProjectAdminAgLabel :: string where "ProjectAdminAgLabel = ''rbac.authorization.k8s.io/aggregate-to-project-admin''"

definition GetVerb :: string where "GetVerb = ''get''"
definition WatchVerb :: string where "WatchVerb = ''watch''"
definition UpdateVerb :: string where "UpdateVerb = ''update''"
definition DeleteVerb :: string where "DeleteVerb = ''delete''"
definition DeleteCollectionVerb :: string where "DeleteCollectionVerb = ''deletecollection''"

text \<open>A constant without a value repeats the expression before it.\<close>

definition PatchVerb :: string where "PatchVerb = DeleteCollectionVerb"

text \<open>The verbs of the admins and of the others in the order of the source.\<close>

definition admin_verbs :: "string list" where
  "admin_verbs = [GetVerb, ''list'', WatchVerb, ''create'', DeleteVerb, DeleteCollectionVerb, UpdateVerb, PatchVerb]"

definition read_verbs :: "string list" where
  "read_verbs = [GetVerb, ''list'', WatchVerb]"

text \<open>A cluster role with its metadata; an aggregation rule is kept as it is.\<close>

record RoleObject = ClusterRole +
  rl_Labels :: labels
  rl_Annotations :: labels
  rl_AggregationRule :: "string list option"

record CustomResourceDefinition =
  crd_Plural :: string
  crd_Scope :: string

record 'w CrdReconciler =
  cd_Crds :: "('w, CustomResourceDefinition) client"
  cd_pivotClient :: "('w, RoleObject) client"

definition makePolicyRule :: "string list \<Rightarrow> string list \<Rightarrow> string list \<Rightarrow> PolicyRule" where
  "makePolicyRule resources resourceNames verbs =
     \<lparr>pr_Verbs = verbs, pr_APIGroups = [''*''], pr_Resources = resources, pr_ResourceNames = resourceNames, pr_NonResourceURLs = []\<rparr>"

fun mentions_loop :: "PolicyRule list \<Rightarrow> PolicyRule \<Rightarrow> bool" where
  "mentions_loop [] newRule = False"
| "mentions_loop (rule # rules) newRule =
     (if \<exists>resource \<in> set (pr_Resources rule). length (pr_Resources newRule) = 1 \<and> pr_Resources newRule ! 0 = resource
      then True else mentions_loop rules newRule)"

definition insertRules :: "PolicyRule list \<Rightarrow> PolicyRule \<Rightarrow> PolicyRule list" where
  "insertRules rules newRule = (if mentions_loop rules newRule then rules else rules @ [newRule])"

definition role_verbs :: "string \<Rightarrow> string list \<Rightarrow> string list" where
  "role_verbs name verbs =
     (let verbs = (if name = AggPlatformAdmin \<or> name = AggProjectAdmin \<or> name = AggTenantAdmin then admin_verbs else verbs)
      in if name = AggReviewer \<or> name = AggProjectAdminCluster \<or> name = AggTenantAdminCluster then read_verbs else verbs)"

text \<open>\<open>verbs\<close> is the variable outside the loop that each round may set.\<close>

fun mutate_roles :: "('w, RoleObject) client \<Rightarrow> string list \<Rightarrow> string list \<Rightarrow> string list \<Rightarrow> ('w, RoleObject list result) state" where
  "mutate_roles cli resources verbs [] = State_Monad.return (Inr [])"
| "mutate_roles cli resources verbs (name # names) = do {
     r \<leftarrow> cl_get cli ([], name);
     case r of
       Inl e \<Rightarrow> State_Monad.return (Inl e)
     | Inr role \<Rightarrow>
         let verbs = role_verbs name verbs;
             role = role\<lparr>cr_Rules := insertRules (cr_Rules role) (makePolicyRule resources [] verbs)\<rparr>
         in do {
           rest \<leftarrow> mutate_roles cli resources verbs names;
           State_Monad.return (case rest of Inl e \<Rightarrow> Inl e | Inr roles \<Rightarrow> Inr (role # roles))
         }
   }"

definition crd_roles :: "CustomResourceDefinition \<Rightarrow> string list" where
  "crd_roles crd =
     (if crd_Scope crd = ''Cluster'' then [AggPlatformAdmin, AggReviewer, AggProjectAdminCluster, AggTenantAdminCluster]
      else [AggPlatformAdmin, AggReviewer, AggProjectAdmin, AggTenantAdmin])"

definition mutateClusterRole :: "'w CrdReconciler \<Rightarrow> CustomResourceDefinition \<Rightarrow> ('w, RoleObject list result) state" where
  "mutateClusterRole r crd = mutate_roles (cd_pivotClient r) [crd_Plural crd] [] (crd_roles crd)"

fun updateClusterRoles :: "('w, RoleObject) client \<Rightarrow> RoleObject list \<Rightarrow> ('w, err option) state" where
  "updateClusterRoles cli [] = State_Monad.return None"
| "updateClusterRoles cli (clusterRole # clusterRoles) = do {
     e \<leftarrow> cl_update cli clusterRole;
     if e \<noteq> None then State_Monad.return e else updateClusterRoles cli clusterRoles
   }"

definition syncCrd :: "'w CrdReconciler \<Rightarrow> CustomResourceDefinition \<Rightarrow> ('w, err option) state" where
  "syncCrd r crd = do {
     res \<leftarrow> mutateClusterRole r crd;
     case res of Inl e \<Rightarrow> State_Monad.return (Some e) | Inr roles \<Rightarrow> updateClusterRoles (cd_pivotClient r) roles
   }"

definition Reconcile_crd :: "'w CrdReconciler \<Rightarrow> objkey \<Rightarrow> ('w, err option) state" where
  "Reconcile_crd r req = do {
     res \<leftarrow> cl_get (cd_Crds r) req;
     case res of
       Inl e \<Rightarrow> State_Monad.return (if e = NotFound then None else Some e)
     | Inr crd \<Rightarrow> syncCrd r crd
   }"

subsection \<open>Definitions: mirrored roles\<close>

text \<open>\<open>controllerutil.CreateOrUpdate\<close> with a change that keeps the key of the object.\<close>

definition CreateOrUpdate :: "('w, 'o) client \<Rightarrow> ('o \<Rightarrow> objkey) \<Rightarrow> 'o \<Rightarrow> ('o \<Rightarrow> 'o) \<Rightarrow> ('w, err option) state" where
  "CreateOrUpdate cli key_of obj f = do {
     r \<leftarrow> cl_get cli (key_of obj);
     case r of
       Inl e \<Rightarrow>
         if e \<noteq> NotFound then State_Monad.return (Some e)
         else if key_of (f obj) \<noteq> key_of obj then State_Monad.return (Some (Err ''MutateFn cannot mutate object name and/or object namespace''))
         else cl_create cli (f obj)
     | Inr existing \<Rightarrow>
         if key_of (f existing) \<noteq> key_of obj then State_Monad.return (Some (Err ''MutateFn cannot mutate object name and/or object namespace''))
         else if f existing = existing then State_Monad.return None
         else cl_update cli (f existing)
   }"

definition role_key :: "'a ClusterRole_scheme \<Rightarrow> objkey" where
  "role_key r = ([], cr_Name r)"

definition nameFromOg :: "string \<Rightarrow> string" where
  "nameFromOg name = ''mirror.'' @ name"

definition isPassedFilter :: "RoleObject \<Rightarrow> bool" where
  "isPassedFilter obj =
     (case gm_get (rl_Labels obj) ''olm.owner.kind'' of
        None \<Rightarrow> False
      | Some v \<Rightarrow> if v \<noteq> ''OperatorGroup'' then False else Contains (cr_Name obj) ''-admin'')"

text \<open>The events the controller reacts to.\<close>

datatype role_event = CreateEvent RoleObject | UpdateEvent RoleObject RoleObject | DeleteEvent RoleObject | GenericEvent RoleObject

fun og_predicate :: "role_event \<Rightarrow> bool" where
  "og_predicate (CreateEvent obj) = isPassedFilter obj"
| "og_predicate (UpdateEvent old new) = (isPassedFilter old \<and> isPassedFilter new)"
| "og_predicate (DeleteEvent obj) = isPassedFilter obj"
| "og_predicate (GenericEvent obj) = False"

definition createOrUpdateClusterRole :: "('w, RoleObject) client \<Rightarrow> RoleObject \<Rightarrow> ('w, err option) state" where
  "createOrUpdateClusterRole cli obj =
     CreateOrUpdate cli role_key obj
       (\<lambda>c. c\<lparr>rl_Labels := rl_Labels obj, rl_Annotations := rl_Annotations obj, cr_Rules := cr_Rules obj,
             rl_AggregationRule := rl_AggregationRule obj\<rparr>)"

definition mirror_labels :: "(string \<times> string) list" where
  "mirror_labels = [(PlatformAdminAgLabel, ''true''), (TenantAdminAgLabel, ''true''), (ProjectAdminAgLabel, ''true'')]"

definition mirror_role :: "string \<Rightarrow> PolicyRule list \<Rightarrow> RoleObject" where
  "mirror_role name rules = \<lparr>cr_Name = nameFromOg name, cr_Rules = rules, rl_Labels = Some mirror_labels, rl_Annotations = None, rl_AggregationRule = None\<rparr>"

definition sync_og :: "('w, RoleObject) client \<Rightarrow> RoleObject \<Rightarrow> ('w, err option) state" where
  "sync_og cli ogClusterRole = createOrUpdateClusterRole cli (mirror_role (cr_Name ogClusterRole) (cr_Rules ogClusterRole))"

definition tryDeleteClusterRole :: "('w, RoleObject) client \<Rightarrow> string \<Rightarrow> ('w, err option) state" where
  "tryDeleteClusterRole cli name = do {
     e \<leftarrow> cl_delete cli \<lparr>cr_Name = nameFromOg name, cr_Rules = [], rl_Labels = None, rl_Annotations = None, rl_AggregationRule = None\<rparr>;
     State_Monad.return (if e = Some NotFound then None else e)
   }"

definition Reconcile_og :: "('w, RoleObject) client \<Rightarrow> objkey \<Rightarrow> ('w, err option) state" where
  "Reconcile_og cli req = do {
     r \<leftarrow> cl_get cli req;
     case r of
       Inl e \<Rightarrow> if e = NotFound then tryDeleteClusterRole cli (snd req) else State_Monad.return (Some e)
     | Inr ogClusterRole \<Rightarrow> sync_og cli ogClusterRole
   }"

subsection \<open>Rules for custom resources\<close>

type_synonym role_view = "objkey \<Rightarrow> RoleObject option"

definition role_world :: "('w, RoleObject) client \<Rightarrow> ('w \<Rightarrow> role_view) \<Rightarrow> bool" where
  "role_world cli view \<longleftrightarrow>
     reads cli view (\<lambda>v. v) \<and> updates cli role_key view (\<lambda>v. v) (\<lambda>_. ()) \<and> inserts cli role_key view (\<lambda>v. v) (\<lambda>_. ()) \<and>
     removes cli role_key view (\<lambda>v. v) (\<lambda>_. ()) \<and> (\<forall>w k x. view w k = Some x \<longrightarrow> role_key x = k)"

lemma role_worldD:
  assumes "role_world cli view"
  shows "run_state (cl_get cli k) w = (r, w') \<Longrightarrow> view w' = view w \<and> (\<forall>x. r = Inr x \<longrightarrow> view w k = Some x) \<and> (r = Inl NotFound \<longrightarrow> view w k = None)"
    and "run_state (cl_update cli x) w = (e, w') \<Longrightarrow> view w' = (if e = None then (view w)(role_key x \<mapsto> x) else view w)"
    and "run_state (cl_create cli x) w = (e, w') \<Longrightarrow> e = None \<Longrightarrow> view w' = (view w)(role_key x \<mapsto> x)"
    and "run_state (cl_delete cli x) w = (e, w') \<Longrightarrow> e = None \<or> e = Some NotFound \<Longrightarrow> view w' = (view w)(role_key x := None)"
    and "view w k = Some x \<Longrightarrow> role_key x = k"
proof -
  have W: "reads cli view (\<lambda>v. v)" "updates cli role_key view (\<lambda>v. v) (\<lambda>_. ())" "inserts cli role_key view (\<lambda>v. v) (\<lambda>_. ())"
      "removes cli role_key view (\<lambda>v. v) (\<lambda>_. ())" "\<And>w k x. view w k = Some x \<Longrightarrow> role_key x = k"
    using assms unfolding role_world_def by blast+
  show "run_state (cl_get cli k) w = (r, w') \<Longrightarrow> view w' = view w \<and> (\<forall>x. r = Inr x \<longrightarrow> view w k = Some x) \<and> (r = Inl NotFound \<longrightarrow> view w k = None)"
    using reads_run [OF W(1)] by blast
  show "run_state (cl_update cli x) w = (e, w') \<Longrightarrow> view w' = (if e = None then (view w)(role_key x \<mapsto> x) else view w)"
    using W(2) unfolding updates_def by blast
  show "run_state (cl_create cli x) w = (e, w') \<Longrightarrow> e = None \<Longrightarrow> view w' = (view w)(role_key x \<mapsto> x)"
    using inserts_run(2) [OF W(3)] by blast
  show "run_state (cl_delete cli x) w = (e, w') \<Longrightarrow> e = None \<or> e = Some NotFound \<Longrightarrow> view w' = (view w)(role_key x := None)"
    using removes_run(2-4) [OF W(4)] by fastforce
  show "view w k = Some x \<Longrightarrow> role_key x = k" by (rule W(5))
qed

definition lists_resource :: "PolicyRule list \<Rightarrow> string \<Rightarrow> bool" where
  "lists_resource rules plural \<longleftrightarrow> (\<exists>rule \<in> set rules. plural \<in> set (pr_Resources rule))"

lemma mentions_iff: "mentions_loop rules (makePolicyRule [plural] names verbs) \<longleftrightarrow> lists_resource rules plural"
  by (induction rules) (auto simp: lists_resource_def makePolicyRule_def)

text \<open>The rule that a role is given for a resource.\<close>

definition crd_rule :: "string \<Rightarrow> string \<Rightarrow> PolicyRule" where
  "crd_rule name plural = makePolicyRule [plural] [] (if name \<in> {AggReviewer, AggProjectAdminCluster, AggTenantAdminCluster} then read_verbs else admin_verbs)"

definition with_crd :: "string \<Rightarrow> RoleObject \<Rightarrow> RoleObject" where
  "with_crd plural role =
     role\<lparr>cr_Rules := (if lists_resource (cr_Rules role) plural then cr_Rules role else cr_Rules role @ [crd_rule (cr_Name role) plural])\<rparr>"

lemmas role_names = AggPlatformAdmin_def AggReviewer_def AggProjectAdminCluster_def AggTenantAdminCluster_def AggProjectAdmin_def AggTenantAdmin_def

lemma crd_verbs:
  assumes "name \<in> {AggPlatformAdmin, AggReviewer, AggProjectAdminCluster, AggTenantAdminCluster, AggProjectAdmin, AggTenantAdmin}"
  shows "role_verbs name verbs = (if name \<in> {AggReviewer, AggProjectAdminCluster, AggTenantAdminCluster} then read_verbs else admin_verbs)"
  using assms by (auto simp: role_verbs_def Let_def)

lemma mutate_roles_run:
  assumes "role_world cli view" and "run_state (mutate_roles cli [plural] verbs names) w = (Inr roles, w')"
    and "set names \<subseteq> {AggPlatformAdmin, AggReviewer, AggProjectAdminCluster, AggTenantAdminCluster, AggProjectAdmin, AggTenantAdmin}"
  shows "view w' = view w \<and> map cr_Name roles = names \<and>
    (\<forall>role \<in> set roles. \<exists>x. view w ([], cr_Name role) = Some x \<and> role = with_crd plural x)"
  using assms(2,3)
proof (induction names arbitrary: verbs w roles)
  case (Cons name names)
  obtain r w1 where g: "run_state (cl_get cli ([], name)) w = (r, w1)" by fastforce
  note G = role_worldD(1) [OF assms(1) g]
  from Cons.prems(1) g obtain x where x: "r = Inr x" by (cases r) auto
  with G have v: "view w ([], name) = Some x" by blast
  then have nm: "cr_Name x = name" using role_worldD(5) [OF assms(1)] by (fastforce simp: role_key_def)
  let ?verbs = "role_verbs name verbs"
  have role: "x\<lparr>cr_Rules := insertRules (cr_Rules x) (makePolicyRule [plural] [] ?verbs)\<rparr> = with_crd plural x"
    using crd_verbs [of name verbs] Cons.prems(2) by (simp add: with_crd_def insertRules_def mentions_iff crd_rule_def nm del: insert_iff)
  obtain rest w2 where m: "run_state (mutate_roles cli [plural] ?verbs names) w1 = (rest, w2)" by fastforce
  have "run_state (mutate_roles cli [plural] verbs (name # names)) w =
      ((case rest of Inl e \<Rightarrow> Inl e | Inr roles \<Rightarrow> Inr (with_crd plural x # roles)), w2)"
    unfolding role [symmetric] using g x m by (simp add: Let_def)
  with Cons.prems(1) obtain roles' where rest: "rest = Inr roles'" "roles = with_crd plural x # roles'" "w2 = w'"
    by (cases rest) auto
  from Cons.IH [OF m [unfolded rest]] Cons.prems(2) G v nm rest(2) show ?case by (auto simp: with_crd_def)
qed simp

lemma updateClusterRoles_run:
  assumes "role_world cli view" and "run_state (updateClusterRoles cli roles) w = (None, w')"
  shows "view w' = view w ++ map_of (rev (map (\<lambda>r. (role_key r, r)) roles))"
  using assms(2)
proof (induction roles arbitrary: w)
  case (Cons role roles)
  obtain e w1 where u: "run_state (cl_update cli role) w = (e, w1)" by fastforce
  with Cons.prems have e: "e = None" "run_state (updateClusterRoles cli roles) w1 = (None, w')" by (auto split: if_splits)
  from role_worldD(2) [OF assms(1) u] e(1) have "view w1 = view w ++ [role_key role \<mapsto> role]" by simp
  moreover have "map_of (rev (map (\<lambda>r. (role_key r, r)) (role # roles))) = [role_key role \<mapsto> role] ++ map_of (rev (map (\<lambda>r. (role_key r, r)) roles))"
    by simp
  ultimately show ?case using Cons.IH [OF e(2)] by (simp only: map_add_assoc)
qed simp

lemma map_of_names:
  assumes "distinct (map cr_Name roles)"
  shows "map_of (rev (map (\<lambda>r. (role_key r, r)) roles)) ([], n) = Some x \<longleftrightarrow> x \<in> set roles \<and> cr_Name x = n"
proof -
  have "distinct (map fst (rev (map (\<lambda>r. (role_key r, r)) roles)))"
    using assms by (auto simp: distinct_map inj_on_def role_key_def)
  then show ?thesis by (auto simp: map_of_eq_Some_iff role_key_def)
qed

lemma map_of_names_None:
  "k \<notin> Pair [] ` set (map cr_Name roles) \<Longrightarrow> map_of (rev (map (\<lambda>r. (role_key r, r)) roles)) k = None"
  by (force simp: map_of_eq_None_iff role_key_def)

lemma crd_roles_distinct: "distinct (crd_roles crd)"
  by (simp add: crd_roles_def role_names)

lemma crd_rule_no_patch: "at_ResourceRequest a \<Longrightarrow> at_Verb a = ''patch'' \<Longrightarrow> \<not> RuleAllows a (crd_rule name plural)"
  by (simp add: RuleAllows_def VerbMatches_def crd_rule_def makePolicyRule_def verb_loop_iff read_verbs_def admin_verbs_def
      GetVerb_def WatchVerb_def UpdateVerb_def DeleteVerb_def DeleteCollectionVerb_def PatchVerb_def)

text \<open>
  What a custom resource adds to the roles. After the controller handled a custom resource without an
  error, each of the four aggregated roles for its scope has kept its rules, and has got one more,
  for exactly this resource, unless a rule named the resource already: the admins all verbs of the
  list, the others those for reading; no other role changes. Who may patch objects is the same
  as before, since the constant for that verb repeats the one for deleting collections.
\<close>

lemma Reconcile_crd_grants:
  assumes "role_world (cd_pivotClient r) view" and "run_state (cl_get (cd_Crds r) req) w = (Inr crd, w1)" and "view w1 = view w"
    and "run_state (Reconcile_crd r req) w = (None, w')"
  shows "(\<forall>name \<in> set (crd_roles crd). \<exists>role. view w ([], name) = Some role \<and> cr_Name role = name \<and>
           view w' ([], name) = Some (with_crd (crd_Plural crd) role)) \<and>
    (\<forall>k. k \<notin> Pair [] ` set (crd_roles crd) \<longrightarrow> view w' k = view w k) \<and>
    (\<forall>a k role role'. at_ResourceRequest a \<and> at_Verb a = ''patch'' \<and> view w k = Some role \<and> view w' k = Some role' \<longrightarrow>
       (\<exists>rule \<in> set (cr_Rules role'). RuleAllows a rule) = (\<exists>rule \<in> set (cr_Rules role). RuleAllows a rule))"
proof -
  let ?cli = "cd_pivotClient r"
  obtain m w2 where m: "run_state (mutateClusterRole r crd) w1 = (m, w2)" by fastforce
  with assms(2,4) obtain roles where roles: "m = Inr roles" "run_state (updateClusterRoles ?cli roles) w2 = (None, w')"
    by (cases m) (auto simp: Reconcile_crd_def syncCrd_def)
  have "set (crd_roles crd) \<subseteq> {AggPlatformAdmin, AggReviewer, AggProjectAdminCluster, AggTenantAdminCluster, AggProjectAdmin, AggTenantAdmin}"
    by (auto simp: crd_roles_def)
  note M = mutate_roles_run [OF assms(1) m [unfolded mutateClusterRole_def roles(1)] this]
  then have v: "view w' = view w ++ map_of (rev (map (\<lambda>r. (role_key r, r)) roles))"
    using updateClusterRoles_run [OF assms(1) roles(2)] assms(3) by simp
  have d: "distinct (map cr_Name roles)" using M crd_roles_distinct by simp
  have in_roles: "\<exists>role. view w ([], name) = Some role \<and> cr_Name role = name \<and> view w' ([], name) = Some (with_crd (crd_Plural crd) role)"
    if "name \<in> set (crd_roles crd)" for name
  proof -
    from that M obtain x where "x \<in> set roles" "cr_Name x = name" by (metis imageE list.set_map)
    then obtain y where y: "view w ([], name) = Some y" "x = with_crd (crd_Plural crd) y" using M assms(3) by auto
    have "view w' ([], name) = Some x" using \<open>x \<in> set roles\<close> \<open>cr_Name x = name\<close> map_of_names [OF d] v by (simp add: map_add_Some_iff)
    moreover have "cr_Name y = name" using role_worldD(5) [OF assms(1) y(1)] by (simp add: role_key_def)
    ultimately show ?thesis using y by simp
  qed
  have others: "view w' k = view w k" if "k \<notin> Pair [] ` set (crd_roles crd)" for k
    using that M map_of_names_None [of k roles] v by (simp add: map_add_def)
  have "(\<exists>rule \<in> set (cr_Rules role'). RuleAllows a rule) = (\<exists>rule \<in> set (cr_Rules role). RuleAllows a rule)"
    if "at_ResourceRequest a" "at_Verb a = ''patch''" "view w k = Some role" "view w' k = Some role'" for a k role role'
  proof (cases "k \<in> Pair [] ` set (crd_roles crd)")
    case True
    then obtain name where "k = ([], name)" "name \<in> set (crd_roles crd)" by blast
    with in_roles [of name] that have "role' = with_crd (crd_Plural crd) role" by simp
    then show ?thesis using crd_rule_no_patch [OF that(1,2)] by (auto simp: with_crd_def)
  next
    case False
    with others that show ?thesis by auto
  qed
  with in_roles others show ?thesis by blast
qed

text \<open>
  Mirrored roles follow their origins. After the controller handled a role without an error, the
  mirror of a role that is there has its rules and is aggregated to the admins of platform,
  tenants and projects; the mirror of a role that is gone is gone; no other role changes.
\<close>

lemma Reconcile_og_mirrors:
  assumes "role_world cli view" and "run_state (Reconcile_og cli ([], n)) w = (None, w')"
  shows "case view w ([], n) of
      None \<Rightarrow> view w' = (view w)(([], nameFromOg n) := None)
    | Some role \<Rightarrow> view w' = (view w)(([], nameFromOg n) \<mapsto> mirror_role n (cr_Rules role))"
proof -
  obtain r w1 where g: "run_state (cl_get cli ([], n)) w = (r, w1)" by fastforce
  note G = role_worldD(1) [OF assms(1) g]
  show ?thesis
  proof (cases r)
    case (Inl e)
    obtain e' w2 where d: "run_state (cl_delete cli \<lparr>cr_Name = nameFromOg n, cr_Rules = [], rl_Labels = None, rl_Annotations = None, rl_AggregationRule = None\<rparr>) w1 = (e', w2)"
      by fastforce
    from assms(2) g Inl d have e: "e = NotFound" "e' = None \<or> e' = Some NotFound" "w2 = w'"
      by (auto simp: Reconcile_og_def tryDeleteClusterRole_def split: if_splits)
    from role_worldD(4) [OF assms(1) d e(2)] have "view w' = (view w)(([], nameFromOg n) := None)"
      using G e(3) by (simp add: role_key_def)
    then show ?thesis using G Inl e(1) by simp
  next
    case (Inr role)
    with G have role: "view w ([], n) = Some role" "cr_Name role = n" "view w1 = view w"
      using role_worldD(5) [OF assms(1)] by (fastforce simp: role_key_def)+
    let ?m = "mirror_role n (cr_Rules role)"
    let ?f = "\<lambda>c. c\<lparr>rl_Labels := rl_Labels ?m, rl_Annotations := rl_Annotations ?m, cr_Rules := cr_Rules ?m, rl_AggregationRule := rl_AggregationRule ?m\<rparr>"
    have k: "role_key ?m = ([], nameFromOg n)" "?f ?m = ?m" by (simp_all add: role_key_def mirror_role_def)
    have f: "?f c = ?m" if "cr_Name c = nameFromOg n" for c using that by (cases c) (simp add: mirror_role_def)
    have run: "run_state (CreateOrUpdate cli role_key ?m ?f) w1 = (None, w')"
      using assms(2) g Inr role(2) by (simp add: Reconcile_og_def sync_og_def createOrUpdateClusterRole_def)
    obtain r2 w2 where g2: "run_state (cl_get cli (role_key ?m)) w1 = (r2, w2)" by fastforce
    note G2 = role_worldD(1) [OF assms(1) g2]
    have "view w' = (view w)(([], nameFromOg n) \<mapsto> ?m)"
    proof (cases r2)
      case (Inl e)
      obtain e3 w3 where c: "run_state (cl_create cli ?m) w2 = (e3, w3)" by fastforce
      with run g2 Inl k(2) have "e = NotFound" "e3 = None" "w3 = w'" by (auto simp: CreateOrUpdate_def split: if_splits)
      with role_worldD(3) [OF assms(1) c] G2 role(3) k(1) show ?thesis by simp
    next
      case (Inr existing)
      with G2 have ex: "view w ([], nameFromOg n) = Some existing" "cr_Name existing = nameFromOg n"
        using role_worldD(5) [OF assms(1)] role(3) k(1) by (fastforce simp: role_key_def)+
      obtain e3 w3 where c: "run_state (cl_update cli ?m) w2 = (e3, w3)" by fastforce
      show ?thesis
      proof (cases "existing = ?m")
        case True
        with run g2 Inr f [OF ex(2)] have "w' = w2" by (auto simp: CreateOrUpdate_def)
        with G2 ex(1) True role(3) show ?thesis by (simp add: fun_upd_idem)
      next
        case False
        with run g2 Inr f [OF ex(2)] c have "e3 = None" "w3 = w'" by (auto simp: CreateOrUpdate_def)
        with role_worldD(2) [OF assms(1) c] G2 role(3) k(1) show ?thesis by simp
      qed
    qed
    with role(1) show ?thesis by simp
  qed
qed

subsection \<open>Witnesses\<close>

type_synonym role_lab = "CustomResourceDefinition list \<times> RoleObject list"

definition lab_roles :: "(role_lab, RoleObject) client" where
  "lab_roles = list_client snd (\<lambda>x w. (fst w, x)) role_key"

definition lab_crds :: "role_lab CrdReconciler" where
  "lab_crds = \<lparr>cd_Crds = list_client fst (\<lambda>x w. (x, snd w)) (\<lambda>c. ([], crd_Plural c)), cd_pivotClient = lab_roles\<rparr>"

definition roles_of :: "role_lab \<Rightarrow> role_view" where
  "roles_of w = lookup_by role_key (snd w)"

lemma lab_roles_world: "role_world lab_roles roles_of"
  unfolding role_world_def
proof (intro conjI allI impI)
  show "reads lab_roles roles_of (\<lambda>v. v)" unfolding lab_roles_def by (rule list_client_reads) (simp add: roles_of_def)
  show "updates lab_roles role_key roles_of (\<lambda>v. v) (\<lambda>_. ())" unfolding lab_roles_def by (rule list_client_updates) (simp_all add: roles_of_def)
  show "inserts lab_roles role_key roles_of (\<lambda>v. v) (\<lambda>_. ())" unfolding lab_roles_def by (rule list_client_inserts) (simp_all add: roles_of_def)
  show "removes lab_roles role_key roles_of (\<lambda>v. v) (\<lambda>_. ())" unfolding lab_roles_def by (rule list_client_removes) (simp_all add: roles_of_def)
  show "role_key x = k" if "roles_of w k = Some x" for w k x using that lookup_by_key unfolding roles_of_def by fast
qed

definition bare_role :: "string \<Rightarrow> RoleObject" where
  "bare_role name = \<lparr>cr_Name = name, cr_Rules = [], rl_Labels = None, rl_Annotations = None, rl_AggregationRule = None\<rparr>"

definition widgets :: CustomResourceDefinition where
  "widgets = \<lparr>crd_Plural = ''widgets'', crd_Scope = ''Namespaced''\<rparr>"

definition role_lab :: role_lab where
  "role_lab = ([widgets], map bare_role [AggPlatformAdmin, AggReviewer, AggProjectAdmin, AggTenantAdmin])"

abbreviation crd_done :: "err option \<times> role_lab" where
  "crd_done \<equiv> run_state (Reconcile_crd lab_crds ([], ''widgets'')) role_lab"

lemma crd_done_ok: "fst crd_done = None" "map_option (length \<circ> cr_Rules) (roles_of (snd crd_done) ([], AggReviewer)) = Some 1"
  by code_simp+

definition og_lab :: role_lab where
  "og_lab = ([], [(bare_role ''og-admin'')\<lparr>cr_Rules := [makePolicyRule [''widgets''] [] [''*'']]\<rparr>])"

abbreviation og_done :: "err option \<times> role_lab" where
  "og_done \<equiv> run_state (Reconcile_og lab_roles ([], ''og-admin'')) og_lab"

lemma og_done_ok: "fst og_done = None"
  by code_simp

end
