(* ===== verification/AuthzApi.thy ===== *)
theory AuthzApi
  imports RoleControllers RoleMapping Authn TenantProject BindingController MultiCluster
begin

section \<open>Authorization at the API server\<close>

text \<open>
  The handlers of \<open>pkg/apiserver/cubeapi/authorization\<close>: roles and permission items, the tenants
  and projects a user sees, and the bindings that give a user a role. The parameters of a request are
  arguments; the name of the user who asks comes from the context, where the middleware put it. The
  clients, the lists and the parser of selectors are arguments too.
\<close>

subsection \<open>Definitions\<close>

definition Reviewer :: string where "Reviewer = ''reviewer''"
definition TenantAdmin :: string where "TenantAdmin = ''tenant-admin''"
definition ProjectAdmin :: string where "ProjectAdmin = ''project-admin''"
definition RoleLabel :: string where "RoleLabel = ''kubecube.io/role''"
definition ClusterRolePlatform :: string where "ClusterRolePlatform = ''platform''"
definition ClusterRoleTenant :: string where "ClusterRoleTenant = ''tenant''"
definition ClusterRoleProject :: string where "ClusterRoleProject = ''project''"
definition ResourceDaemonSets :: string where "ResourceDaemonSets = ''daemonsets''"

record TenantItem = Tenant +
  ti_DisplayName :: string
  ti_CreationTimestamp :: int

record ProjectItem = Project +
  pt_CreationTimestamp :: int

text \<open>
  The state of the handler: the resolver of the local cluster, the clients through the cache and direct,
  the two config maps with the permission items, and the clusters with their caches.
\<close>

record ('w, 's) authz_env =
  az_Rbac :: cache
  az_Clusters :: "string \<Rightarrow> cache option"
  az_cmData :: "(string, string) gomap"
  az_platformCmData :: "(string, string) gomap"
  az_CacheUsers :: "('w, User) client"
  az_DirectUsers :: "('w, User) client"
  az_CacheProjects :: "('w, ProjectItem) client"
  az_CacheRoleBindings :: "('w, rbac_binding) client"
  az_CacheClusterRoles :: "('w, RoleObject) client"
  az_DirectClusterRoles :: "('w, RoleObject) client"
  az_ListTenants :: "('w, TenantItem list result) state"
  az_ListProjects :: "('w, ProjectItem list result) state"
  az_ListClusterRoles :: "'s \<Rightarrow> ('w, RoleObject list result) state"
  az_DirectListClusterRoles :: "'s \<Rightarrow> ('w, RoleObject list result) state"
  az_ListRoles :: "string \<Rightarrow> 's \<Rightarrow> ('w, Role list result) state"
  az_Parse :: "string \<Rightarrow> 's result"

definition NewDefaultResolver :: "('w, 's) authz_env \<Rightarrow> string \<Rightarrow> cache" where
  "NewDefaultResolver env cluster = (case az_Clusters env cluster of None \<Rightarrow> az_Rbac env | Some c \<Rightarrow> c)"

subsection \<open>Definitions: helpers\<close>

definition makeRoleNames :: "'a Role_scheme list \<Rightarrow> 'b ClusterRole_scheme list \<Rightarrow> string list \<times> string list" where
  "makeRoleNames roles clusterRoles = (map ro_Name roles, map cr_Name clusterRoles)"

definition makeUserNames :: "cube_user list \<Rightarrow> string list" where
  "makeUserNames users = map us_Name users"

definition getAllRoles :: "('w, 's) authz_env \<Rightarrow> ('w, (string list \<times> string list) result) state" where
  "getAllRoles env =
     (case az_Parse env (RbacLabel @ ''=true'') of
        Inl e \<Rightarrow> State_Monad.return (Inl e)
      | Inr sel \<Rightarrow> do {
          r \<leftarrow> az_ListClusterRoles env sel;
          case r of
            Inl e \<Rightarrow> State_Monad.return (Inl e)
          | Inr clusterRoles \<Rightarrow> do {
              r \<leftarrow> az_ListRoles env [] sel;
              State_Monad.return (case r of Inl e \<Rightarrow> Inl e | Inr roles \<Rightarrow> Inr (makeRoleNames roles clusterRoles))
            }
        })"

definition listClusterRoleFn :: "('w, 's) authz_env \<Rightarrow> string \<Rightarrow> ('w, string list result) state" where
  "listClusterRoleFn env labelStr =
     (case az_Parse env labelStr of
        Inl e \<Rightarrow> State_Monad.return (Inl e)
      | Inr sel \<Rightarrow> do {
          r \<leftarrow> az_ListClusterRoles env sel;
          State_Monad.return (case r of Inl e \<Rightarrow> Inl e | Inr l \<Rightarrow> Inr (map cr_Name l))
        })"

definition getRolesByNs :: "('w, 's) authz_env \<Rightarrow> string \<Rightarrow> ('w, (string list \<times> string list) result) state" where
  "getRolesByNs env ns =
     (let strs = Split ns ''-'' in
      if length strs < 3 then State_Monad.return (Inl (Err ''unknown namespace format''))
      else let prefix = strs ! 0 @ ''-'' @ strs ! 1 in
      if prefix = ''kubecube-tenant'' \<or> prefix = ''kubecube-project''
      then do {
        r \<leftarrow> listClusterRoleFn env (RoleLabel @ ''='' @ (if prefix = ''kubecube-tenant'' then ''tenant'' else ''project''));
        case r of
          Inl e \<Rightarrow> State_Monad.return (Inl e)
        | Inr res \<Rightarrow>
            (case az_Parse env (RbacLabel @ ''=true'') of
               Inl e \<Rightarrow> State_Monad.return (Inl e)
             | Inr sel \<Rightarrow> do {
                 r \<leftarrow> az_ListRoles env ns sel;
                 State_Monad.return (case r of Inl e \<Rightarrow> Inl e | Inr roles \<Rightarrow> Inr (map ro_Name roles, res @ [Reviewer]))
               })
      }
      else State_Monad.return (Inl (Err ''unknown prefix of namespace'')))"

definition isPlatformAdmin :: "User \<Rightarrow> bool" where
  "isPlatformAdmin user = us_PlatformAdmin (ur_Status user)"

fun role_seen :: "string \<Rightarrow> ScopeBinding list \<Rightarrow> bool \<Rightarrow> bool" where
  "role_seen role [] res = res"
| "role_seen role (binding # bindings) res = role_seen role bindings (if sb_Role binding = role then True else res)"

definition isTenantAdmin :: "User \<Rightarrow> bool" where
  "isTenantAdmin user = role_seen TenantAdmin (ur_ScopeBindings user) False"

definition isProjectAdmin :: "User \<Rightarrow> bool" where
  "isProjectAdmin user = role_seen ProjectAdmin (ur_ScopeBindings user) False"

definition access_record :: "string \<Rightarrow> string \<Rightarrow> string \<Rightarrow> string \<Rightarrow> Attributes" where
  "access_record user verb namespace resource =
     \<lparr>at_User = user, at_Verb = verb, at_Namespace = namespace, at_APIGroup = [], at_Resource = resource,
      at_Subresource = [], at_Name = [], at_Path = [], at_ResourceRequest = True\<rparr>"

definition isAllowedAccess :: "cache \<Rightarrow> string \<Rightarrow> string \<Rightarrow> string \<Rightarrow> VerbRepresent \<Rightarrow> bool" where
  "isAllowedAccess rbac user resource namespace auth =
     (let read = (auth = Read_v \<or> auth = All_v); write = (auth = Write_v \<or> auth = All_v);
          res1 = (if read then fst (Authorize rbac (access_record user ''get'' namespace resource)) = DecisionAllow else True);
          res2 = (if write then fst (Authorize rbac (access_record user ''create'' namespace resource)) = DecisionAllow else True)
      in res1 \<and> res2)"

definition isPlatformRole :: "labels \<Rightarrow> bool" where
  "isPlatformRole l = (if l = None then False else label l RoleLabel = ClusterRolePlatform)"

text \<open>The tenants a user sees; an info without a tenant is completed from its project.\<close>

fun info_tenants :: "('w, 's) authz_env \<Rightarrow> ProjectInfo list \<Rightarrow> string list \<Rightarrow> ('w, string list result) state" where
  "info_tenants env [] tenantSet = State_Monad.return (Inr tenantSet)"
| "info_tenants env (info # infos) tenantSet =
     (if length (pi_Tenant info) = 0 \<and> length (pi_Project info) \<noteq> 0
      then do {
        r \<leftarrow> cl_get (az_CacheProjects env) ([], pi_Project info);
        case r of
          Inl e \<Rightarrow> State_Monad.return (Inl e)
        | Inr project \<Rightarrow> info_tenants env infos (label (pj_Labels project) TenantLabel # tenantSet)
      }
      else info_tenants env infos (pi_Tenant info # tenantSet))"

definition GetVisibleTenants :: "('w, 's) authz_env \<Rightarrow> string \<Rightarrow> ('w, TenantItem list result) state" where
  "GetVisibleTenants env username = do {
     r \<leftarrow> cl_get (az_CacheUsers env) ([], username);
     case r of
       Inl e \<Rightarrow> State_Monad.return (Inl e)
     | Inr user \<Rightarrow> do {
         r \<leftarrow> az_ListTenants env;
         case r of
           Inl e \<Rightarrow> State_Monad.return (Inl e)
         | Inr tenants \<Rightarrow>
             if us_PlatformAdmin (ur_Status user) \<or> IsUserPlatformScope user then State_Monad.return (Inr tenants)
             else do {
               r \<leftarrow> info_tenants env (us_BelongProjectInfos (ur_Status user)) (us_BelongTenants (ur_Status user));
               State_Monad.return (case r of
                 Inl e \<Rightarrow> Inl e
               | Inr tenantSet \<Rightarrow> Inr (filter (\<lambda>t. tn_Name t \<in> set tenantSet) tenants))
             }
       }
   }"

subsection \<open>Definitions: handlers that read\<close>

definition role_cm :: "('w, 's) authz_env \<Rightarrow> RoleObject \<Rightarrow> (string, string) gomap" where
  "role_cm env clusterRole = (if isPlatformRole (rl_Labels clusterRole) then az_platformCmData env else az_cmData env)"

definition getAuthItemsByLabelSelector :: "('w, 's) authz_env \<Rightarrow> string \<Rightarrow> string \<Rightarrow> ('w, RoleAuthBody option list answer) state" where
  "getAuthItemsByLabelSelector env labelSelector verbose =
     (case az_Parse env labelSelector of
        Inl e \<Rightarrow> State_Monad.return (Fail (ParamsInvalid e))
      | Inr sel \<Rightarrow> do {
          r \<leftarrow> az_DirectListClusterRoles env sel;
          State_Monad.return (case r of
            Inl e \<Rightarrow> Fail (BadRequest e)
          | Inr items \<Rightarrow> Success (map (\<lambda>cr. ClusterRoleMapping (Some (ClusterRole.truncate cr)) (role_cm env cr) (verbose = ''true'')) items))
        })"

definition getAuthItems :: "('w, 's) authz_env \<Rightarrow> string \<Rightarrow> string \<Rightarrow> ('w, RoleAuthBody option answer) state" where
  "getAuthItems env clusterRoleName verbose = do {
     r \<leftarrow> cl_get (az_DirectClusterRoles env) ([], clusterRoleName);
     State_Monad.return (case r of
       Inl e \<Rightarrow> if e = NotFound then Fail (CustomReturn 404 e) else Fail (BadRequest e)
     | Inr cr \<Rightarrow> Success (ClusterRoleMapping (Some (ClusterRole.truncate cr)) (role_cm env cr) (verbose = ''true'')))
   }"

fun all_allowed :: "cache \<Rightarrow> string \<Rightarrow> string \<Rightarrow> VerbRepresent \<Rightarrow> string list \<Rightarrow> bool \<Rightarrow> bool" where
  "all_allowed r user namespace auth [] allowed = allowed"
| "all_allowed r user namespace auth (resource # resources) allowed =
     (let allowed = isAllowedAccess r user resource namespace auth
      in if \<not> allowed then allowed else all_allowed r user namespace auth resources allowed)"

fun permission_loop :: "(string, string) gomap \<Rightarrow> cache \<Rightarrow> string \<Rightarrow> (string \<times> string) list \<Rightarrow> (string \<times> VerbRepresent) list \<Rightarrow> (string \<times> VerbRepresent) list" where
  "permission_loop cm r user [] res = res"
| "permission_loop cm r user ((authItem, namespace) # infos) res =
     (if authItem = [] then permission_loop cm r user infos res
      else case gm_get cm authItem of
          None \<Rightarrow> permission_loop cm r user infos (AList.update authItem Null_v res)
        | Some resources \<Rightarrow>
            let allowedRead = all_allowed r user namespace Read_v (Split resources '';'') True;
                allowedWrite = all_allowed r user namespace Write_v (Split resources '';'') True;
                verb = Null_v;
                verb = (if allowedWrite then Write_v else verb);
                verb = (if allowedRead then Read_v else verb);
                verb = (if allowedRead \<and> allowedWrite then All_v else verb)
            in permission_loop cm r user infos (AList.update authItem verb res))"

text \<open>The body of the request: the cluster, the user, where one is given, and pairs of an item and a namespace.\<close>

definition getPermissions ::
  "('w, 's) authz_env \<Rightarrow> string \<Rightarrow> (string \<times> string \<times> (string \<times> string) list) option \<Rightarrow> (string \<times> VerbRepresent) list answer" where
  "getPermissions env asker body =
     (case body of
        None \<Rightarrow> Fail InvalidBodyFormat
      | Some (cluster, user, infos) \<Rightarrow>
          let user = (if length user = 0 then asker else user)
          in if cluster = [] then Fail InvalidBodyFormat
             else Success (permission_loop (az_platformCmData env) (NewDefaultResolver env cluster) user infos []))"

definition daemonSetAccess :: "cache \<Rightarrow> string \<Rightarrow> string \<Rightarrow> string \<Rightarrow> bool" where
  "daemonSetAccess r username verb namespace = (fst (Authorize r (access_record username verb namespace ResourceDaemonSets)) = DecisionAllow)"

definition access_level :: "bool \<Rightarrow> bool \<Rightarrow> VerbRepresent" where
  "access_level writable readable =
     (let a = Null_v; a = (if writable then Write_v else a); a = (if readable then Read_v else a)
      in if writable \<and> readable then All_v else a)"

definition getDaemonSetsLevel :: "('w, 's) authz_env \<Rightarrow> string \<Rightarrow> string \<Rightarrow> VerbRepresent \<times> VerbRepresent" where
  "getDaemonSetsLevel env asker tenant =
     (let r = az_Rbac env; tenantNamespace = TenantNsPrefix @ tenant
      in (access_level (daemonSetAccess r asker ''create'' []) (daemonSetAccess r asker GetVerb []),
          access_level (daemonSetAccess r asker ''create'' tenantNamespace) (daemonSetAccess r asker GetVerb tenantNamespace)))"

datatype roles_answer = RoleObjects "Role list" "ClusterRole list" | RoleNames "string list" "string list"

text \<open>The first error stands for the aggregate of the errors.\<close>

definition getRolesByUser :: "('w, 's) authz_env \<Rightarrow> string \<Rightarrow> string \<Rightarrow> string \<Rightarrow> string \<Rightarrow> string \<Rightarrow> ('w, roles_answer answer) state" where
  "getRolesByUser env asker userName ns details byUser =
     (let userName = (if byUser = ''true'' \<and> userName = [] then asker else userName) in
      if userName = []
      then do {
        r \<leftarrow> (if ns \<noteq> [] then getRolesByNs env ns else getAllRoles env);
        State_Monad.return (case r of Inl e \<Rightarrow> Fail (BadRequest e) | Inr (roles, clusterRoles) \<Rightarrow> Success (RoleNames roles clusterRoles))
      }
      else State_Monad.return
        (case GetUser (az_Rbac env) userName of
           Inl e \<Rightarrow> Fail (BadRequest e)
         | Inr user \<Rightarrow>
             (case RolesFor (az_Rbac env) (us_Name user) ns of
                (roles, clusterRoles, errs) \<Rightarrow>
                  if errs \<noteq> [] then Fail (BadRequest (hd errs))
                  else if details = ''true'' then Success (RoleObjects roles clusterRoles)
                  else let (roleNames, clusterRoleNames) = makeRoleNames roles clusterRoles in Success (RoleNames roleNames clusterRoleNames))))"

datatype users_answer = UserObjects "cube_user list" | UserNames "string list"

definition getUsersByRole :: "('w, 's) authz_env \<Rightarrow> string \<Rightarrow> string \<Rightarrow> string \<Rightarrow> users_answer answer" where
  "getUsersByRole env roleName ns details =
     (let role = \<lparr>rr_APIGroup = K8sGroupRBAC, rr_Kind = (if length ns > 0 then ''Role'' else ''ClusterRole''), rr_Name = roleName\<rparr>
      in case UsersFor (az_Rbac env) role ns of
           (users, errs) \<Rightarrow>
             if errs \<noteq> [] then Fail (BadRequest (hd errs))
             else Success (if details = ''true'' then UserObjects users else UserNames (makeUserNames users)))"

text \<open>\<open>sort.SliceStable\<close> with the newest first.\<close>

definition getTenantByUser :: "('w, 's) authz_env \<Rightarrow> string \<Rightarrow> string \<Rightarrow> ('w, TenantItem list answer) state" where
  "getTenantByUser env asker userName = do {
     r \<leftarrow> GetVisibleTenants env (if length userName = 0 then asker else userName);
     State_Monad.return (case r of
       Inl e \<Rightarrow> Fail (CustomReturn 404 e)
     | Inr res \<Rightarrow> Success (sort_key (\<lambda>t. - ti_CreationTimestamp t) res))
   }"

fun project_loop :: "User \<Rightarrow> string list option \<Rightarrow> ProjectItem list \<Rightarrow> ProjectItem list \<Rightarrow> ProjectItem list" where
  "project_loop user tenants [] res = res"
| "project_loop user tenants (p # ps) res =
     (case gm_get (pj_Labels p) TenantLabel of
        None \<Rightarrow> project_loop user tenants ps res
      | Some t \<Rightarrow>
          if \<not> IsUserPlatformScope user \<and> \<not> us_PlatformAdmin (ur_Status user) \<and>
             pj_Name p \<notin> pi_Project ` set (us_BelongProjectInfos (ur_Status user)) \<and> t \<notin> set (us_BelongTenants (ur_Status user))
          then project_loop user tenants ps res
          else case tenants of
              None \<Rightarrow> project_loop user tenants ps (res @ [p])
            | Some ts \<Rightarrow> project_loop user tenants ps (if t \<in> set ts then res @ [p] else res))"

definition getUserProjects :: "User \<Rightarrow> ProjectItem list \<Rightarrow> string \<Rightarrow> ProjectItem list" where
  "getUserProjects user projectList tenantArray =
     project_loop user (if length tenantArray = 0 then None else Some (Split tenantArray ''|'')) projectList []"

definition getProjectByUser :: "('w, 's) authz_env \<Rightarrow> string \<Rightarrow> string \<Rightarrow> string \<Rightarrow> ('w, ProjectItem list answer) state" where
  "getProjectByUser env asker userName tenantArray = do {
     r \<leftarrow> cl_get (az_CacheUsers env) ([], if length userName = 0 then asker else userName);
     case r of
       Inl e \<Rightarrow> State_Monad.return (Fail (BadRequest e))
     | Inr user \<Rightarrow> do {
         r \<leftarrow> az_ListProjects env;
         State_Monad.return (case r of
           Inl e \<Rightarrow> Fail (BadRequest e)
         | Inr projectList \<Rightarrow> Success (sort_key (\<lambda>p. - pt_CreationTimestamp p) (getUserProjects user projectList tenantArray)))
       }
   }"

definition getIdentity :: "('w, 's) authz_env \<Rightarrow> string \<Rightarrow> string \<Rightarrow> ('w, (bool \<times> bool \<times> bool) answer) state" where
  "getIdentity env asker userName = do {
     r \<leftarrow> cl_get (az_CacheUsers env) ([], if length userName = 0 then asker else userName);
     State_Monad.return (case r of
       Inl e \<Rightarrow> Fail (BadRequest e)
     | Inr u \<Rightarrow> Success (isPlatformAdmin u, isTenantAdmin u, isProjectAdmin u))
   }"

text \<open>Where the level does not parse, the handler returns without an answer: \<open>None\<close>.\<close>

definition getClusterRolesByLevel :: "('w, 's) authz_env \<Rightarrow> string \<Rightarrow> ('w, RoleObject list answer option) state" where
  "getClusterRolesByLevel env level =
     (case az_Parse env (RoleLabel @ ''='' @ level) of
        Inl e \<Rightarrow> State_Monad.return None
      | Inr sel \<Rightarrow> do {
          r \<leftarrow> az_ListClusterRoles env sel;
          State_Monad.return (Some (case r of Inl e \<Rightarrow> Fail (BadRequest e) | Inr l \<Rightarrow> Success l))
        })"

text \<open>The body is the name of the cluster with the attributes of the request that is asked about.\<close>

definition authorization :: "('w, 's) authz_env \<Rightarrow> (string \<times> Attributes) option \<Rightarrow> bool answer" where
  "authorization env body =
     (case body of
        None \<Rightarrow> Fail InvalidBodyFormat
      | Some (cluster, a) \<Rightarrow>
          let cluster = (if length cluster = 0 then LocalCluster else cluster)
          in case az_Clusters env cluster of
               None \<Rightarrow> Fail (ClusterNotFoundError cluster)
             | Some r \<Rightarrow> Success (fst (Authorize r a) = DecisionAllow))"

fun gate_loop :: "cache \<Rightarrow> string \<Rightarrow> (string \<times> string \<times> string) list \<Rightarrow> (string \<times> bool) list \<Rightarrow> (string \<times> bool) list" where
  "gate_loop r user [] result = result"
| "gate_loop r user ((resource, operator, namespace) # infos) result =
     (if resource = [] \<or> operator = [] then gate_loop r user infos result
      else let verb = []; verb = (if operator = ''write'' then ''create'' else verb); verb = (if operator = ''read'' then ''get'' else verb)
           in gate_loop r user infos
                (AList.update resource (fst (Authorize r (access_record user verb namespace resource)) = DecisionAllow) result))"

definition resourcesGate :: "('w, 's) authz_env \<Rightarrow> string \<Rightarrow> (string \<times> (string \<times> string \<times> string) list) option \<Rightarrow> (string \<times> bool) list answer" where
  "resourcesGate env asker body =
     (case body of
        None \<Rightarrow> Fail InvalidBodyFormat
      | Some (cluster, infos) \<Rightarrow>
          if cluster = [] then Fail InvalidBodyFormat
          else Success (gate_loop (NewDefaultResolver env cluster) asker infos []))"

subsection \<open>Definitions: handlers that write\<close>

text \<open>
  None of them asks who sent the request: the name \<open>asker\<close> in the context is not used.
\<close>

definition put_role :: "('w, 's) authz_env \<Rightarrow> RoleAuthBody \<Rightarrow> (string, string) gomap \<Rightarrow> labels \<Rightarrow> ('w, unit answer go) state" where
  "put_role env body cm lab =
     (case RoleAuthMapping (Some body) cm of
        Panic \<Rightarrow> State_Monad.return Panic
      | Ret role \<Rightarrow> do {
          let newClusterRole = ClusterRole.extend role \<lparr>rl_Labels = lab, rl_Annotations = Some [(SyncAnnotation, ''true'')], rl_AggregationRule = None\<rparr>;
          e \<leftarrow> CreateOrUpdate (az_DirectClusterRoles env) role_key newClusterRole (\<lambda>c. c\<lparr>cr_Rules := cr_Rules role\<rparr>);
          State_Monad.return (Ret (case e of Some er \<Rightarrow> Fail (BadRequest er) | None \<Rightarrow> Success ()))
        })"

definition setAuthItems :: "('w, 's) authz_env \<Rightarrow> string \<Rightarrow> RoleAuthBody option \<Rightarrow> ('w, unit answer go) state" where
  "setAuthItems env asker body =
     (case body of
        None \<Rightarrow> State_Monad.return (Ret (Fail InvalidBodyFormat))
      | Some b \<Rightarrow>
          if length (rab_ClusterRoleName b) = 0 \<or> gm_keys (rab_AuthItems b) = [] then State_Monad.return (Ret (Fail InvalidBodyFormat))
          else do {
            r \<leftarrow> cl_get (az_CacheClusterRoles env) ([], rab_ClusterRoleName b);
            case r of
              Inl e \<Rightarrow>
                if e \<noteq> NotFound then State_Monad.return (Ret (Fail (BadRequest e)))
                else let scope = rab_Scope b;
                         lab = [(RbacLabel, ''true'')] @ (if scope \<in> {ClusterRolePlatform, ClusterRoleTenant, ClusterRoleProject} then [(RoleLabel, scope)] else []);
                         cm = (if scope = ClusterRolePlatform then az_platformCmData env
                               else if scope = ClusterRoleTenant \<or> scope = ClusterRoleProject then az_cmData env else None)
                     in put_role env b cm (Some lab)
            | Inr clusterRole \<Rightarrow> put_role env b (role_cm env clusterRole) (Some [(RbacLabel, ''true'')])
          })"

text \<open>The body is the role binding of the request, where it parses.\<close>

definition createBinds :: "('w, 's) authz_env \<Rightarrow> string \<Rightarrow> rbac_binding option \<Rightarrow> ('w, unit answer) state" where
  "createBinds env asker body =
     (case body of
        None \<Rightarrow> State_Monad.return (Fail InvalidBodyFormat)
      | Some roleBinding \<Rightarrow>
          if length (bi_Subjects roleBinding) \<noteq> 1 then State_Monad.return (Fail InvalidBodyFormat)
          else case TransBinding (bl_Labels roleBinding) (su_Name (bi_Subjects roleBinding ! 0)) (rr_Name (bi_RoleRef roleBinding)) of
              Inl e \<Rightarrow> State_Monad.return (Fail InvalidBodyFormat)
            | Inr (scopeType, scopeName, role, userName) \<Rightarrow> do {
                r \<leftarrow> cl_get (az_CacheUsers env) ([], userName);
                case r of
                  Inl e \<Rightarrow> State_Monad.return (Fail (BadRequest e))
                | Inr u \<Rightarrow> do {
                    e \<leftarrow> UpdateUserSpec (az_DirectUsers env) (AddUserScopeBindings u scopeType scopeName role);
                    State_Monad.return (case e of Some er \<Rightarrow> Fail (BadRequest er) | None \<Rightarrow> Success ())
                  }
              })"

definition deleteBinds :: "('w, 's) authz_env \<Rightarrow> string \<Rightarrow> objkey \<Rightarrow> ('w, unit answer go) state" where
  "deleteBinds env asker key = do {
     r \<leftarrow> cl_get (az_CacheRoleBindings env) key;
     case r of
       Inl e \<Rightarrow> State_Monad.return (Ret (if e = NotFound then Success () else Fail (BadRequest e)))
     | Inr roleBinding \<Rightarrow>
         (case bi_Subjects roleBinding of
            [] \<Rightarrow> State_Monad.return Panic
          | subject # _ \<Rightarrow>
              (case TransBinding (bl_Labels roleBinding) (su_Name subject) (rr_Name (bi_RoleRef roleBinding)) of
                 Inl e \<Rightarrow> State_Monad.return (Ret (Fail InvalidBodyFormat))
               | Inr (scopeType, scopeName, role, userName) \<Rightarrow> do {
                   r \<leftarrow> cl_get (az_CacheUsers env) ([], userName);
                   case r of
                     Inl e \<Rightarrow> State_Monad.return (Ret (Fail (BadRequest e)))
                   | Inr u \<Rightarrow> do {
                       e \<leftarrow> UpdateUserSpec (az_DirectUsers env) (RemoveUserScopeBindings u scopeType scopeName role);
                       State_Monad.return (Ret (case e of Some er \<Rightarrow> Fail (BadRequest er) | None \<Rightarrow> Success ()))
                     }
                 }))
   }"

subsection \<open>Permission items\<close>

text \<open>What a user may do with every resource of a permission item.\<close>

definition item_level :: "(string, string) gomap \<Rightarrow> cache \<Rightarrow> string \<Rightarrow> string \<Rightarrow> string \<Rightarrow> VerbRepresent" where
  "item_level cm r user item namespace =
     (case gm_get cm item of
        None \<Rightarrow> Null_v
      | Some resources \<Rightarrow>
          let may = (\<lambda>verb. \<forall>resource \<in> set (Split resources '';''). fst (Authorize r (access_record user verb namespace resource)) = DecisionAllow)
          in if may ''get'' \<and> may ''create'' then All_v else if may ''get'' then Read_v else if may ''create'' then Write_v else Null_v)"

lemma all_allowed_iff:
  "resources \<noteq> [] \<Longrightarrow> all_allowed r user namespace auth resources b \<longleftrightarrow> (\<forall>x \<in> set resources. isAllowedAccess r user x namespace auth)"
proof (induction resources arbitrary: b)
  case (Cons x xs)
  then show ?case by (cases "xs = []") (auto simp: Let_def)
qed simp

lemma isAllowedAccess_single:
  "isAllowedAccess r user x namespace Read_v \<longleftrightarrow> fst (Authorize r (access_record user ''get'' namespace x)) = DecisionAllow"
  "isAllowedAccess r user x namespace Write_v \<longleftrightarrow> fst (Authorize r (access_record user ''create'' namespace x)) = DecisionAllow"
  by (simp_all add: isAllowedAccess_def Let_def)

lemma permission_step:
  "item \<noteq> [] \<Longrightarrow> permission_loop cm r user ((item, ns) # infos) res = permission_loop cm r user infos (AList.update item (item_level cm r user item ns) res)"
  by (simp add: item_level_def Let_def all_allowed_iff isAllowedAccess_single split: option.splits)

lemma permission_loop_other: "k \<notin> fst ` set infos \<Longrightarrow> map_of (permission_loop cm r user infos res) k = map_of res k"
proof (induction infos arbitrary: res)
  case (Cons x infos)
  obtain item ns where x: "x = (item, ns)" by fastforce
  with Cons show ?case by (cases "item = []") (simp_all add: permission_step del: permission_loop.simps(2), simp)
qed simp

text \<open>
  C40: what is said of a permission item is what the authorizer says of its resources. The answer for an
  item that is asked about once is: all, where the user may get and create every resource of the item
  in the namespace; read or write, where the user may do the one with every resource and not the
  other; and null, where neither holds or the item is not known.
\<close>

theorem getPermissions_exact:
  assumes "cluster \<noteq> []" and "distinct (map fst infos)" and "(item, namespace) \<in> set infos" and "item \<noteq> []"
  shows "\<exists>res. getPermissions env asker (Some (cluster, user, infos)) = Success res \<and>
    map_of res item = Some (item_level (az_platformCmData env) (NewDefaultResolver env cluster) (if user = [] then asker else user) item namespace)"
proof -
  let ?cm = "az_platformCmData env" and ?r = "NewDefaultResolver env cluster" and ?u = "if user = [] then asker else user"
  have "map_of (permission_loop ?cm ?r ?u infos res) item = Some (item_level ?cm ?r ?u item namespace)" for res
    using assms(2,3)
  proof (induction infos arbitrary: res)
    case (Cons x infos)
    show ?case
    proof (cases "x = (item, namespace)")
      case True
      with Cons.prems(1) have "item \<notin> fst ` set infos" by simp
      with True show ?thesis by (simp add: permission_step [OF assms(4)] permission_loop_other del: permission_loop.simps)
    next
      case False
      obtain i n where x: "x = (i, n)" by fastforce
      from False Cons.prems have "(item, namespace) \<in> set infos" "distinct (map fst infos)" by auto
      note IH = Cons.IH [OF this(2,1)]
      show ?thesis using IH x by (cases "i = []") (simp, simp add: permission_step del: permission_loop.simps)
    qed
  qed simp
  then show ?thesis using assms(1) by (simp add: getPermissions_def Let_def)
qed

subsection \<open>Tenants and projects a user sees\<close>

definition sees :: "User \<Rightarrow> ProjectItem \<Rightarrow> string \<Rightarrow> bool" where
  "sees user p t \<longleftrightarrow> IsUserPlatformScope user \<or> us_PlatformAdmin (ur_Status user) \<or>
     pj_Name p \<in> pi_Project ` set (us_BelongProjectInfos (ur_Status user)) \<or> t \<in> set (us_BelongTenants (ur_Status user))"

lemma project_loop_set:
  "set (project_loop user tenants ps res) = set res \<union>
     {p \<in> set ps. \<exists>t. gm_get (pj_Labels p) TenantLabel = Some t \<and> sees user p t \<and> (case tenants of None \<Rightarrow> True | Some ts \<Rightarrow> t \<in> set ts)}"
  by (induction user tenants ps res rule: project_loop.induct) (auto simp: sees_def split: option.splits)

lemma info_tenants_run:
  assumes "run_state (info_tenants env infos acc) w = (Inr res, w')"
  shows "set acc \<subseteq> set res \<and> (\<forall>i \<in> set infos. pi_Tenant i \<noteq> [] \<longrightarrow> pi_Tenant i \<in> set res)"
  using assms
proof (induction infos arbitrary: acc w)
  case (Cons i infos)
  show ?case
  proof (cases "length (pi_Tenant i) = 0 \<and> length (pi_Project i) \<noteq> 0")
    case True
    obtain r w1 where g: "run_state (cl_get (az_CacheProjects env) ([], pi_Project i)) w = (r, w1)" by fastforce
    with Cons.prems True obtain p where "r = Inr p" by (cases r) auto
    with Cons.prems True g have "run_state (info_tenants env infos (label (pj_Labels p) TenantLabel # acc)) w1 = (Inr res, w')" by simp
    from Cons.IH [OF this] True show ?thesis by auto
  next
    case False
    with Cons.prems have "run_state (info_tenants env infos (pi_Tenant i # acc)) w = (Inr res, w')" by auto
    from Cons.IH [OF this] show ?thesis by auto
  qed
qed simp

text \<open>
  Whoever sees a project sees its tenant. The projects a user is shown are those with a label of a
  tenant, asked for if any tenant is asked for, that the user sees as a member of the platform, of the
  project or of the tenant. If the infos in the status of the user name the tenants the
  projects are labelled with, then the tenant of each such project, if there is one with that name, is
  among the tenants the user is shown.
\<close>

lemma visible_projects_tenants:
  assumes "run_state (cl_get (az_CacheUsers env) ([], n)) w = (Inr u, w)" and "run_state (az_ListTenants env) w = (Inr tenants, w)"
    and "run_state (az_ListProjects env) w = (Inr projects, w)"
    and "run_state (getProjectByUser env n n ta) w = (Success ps, w1)" and "run_state (getTenantByUser env n n) w = (Success ts, w2)"
    and "\<And>i p. i \<in> set (us_BelongProjectInfos (ur_Status u)) \<Longrightarrow> p \<in> set projects \<Longrightarrow> pj_Name p = pi_Project i \<Longrightarrow>
      gm_get (pj_Labels p) TenantLabel = Some (pi_Tenant i) \<and> pi_Tenant i \<noteq> []"
  shows "set ps = {p \<in> set projects. \<exists>t. gm_get (pj_Labels p) TenantLabel = Some t \<and> sees u p t \<and> (ta \<noteq> [] \<longrightarrow> t \<in> set (Split ta ''|''))} \<and>
    (\<forall>p t. p \<in> set ps \<and> gm_get (pj_Labels p) TenantLabel = Some (tn_Name t) \<and> t \<in> set tenants \<longrightarrow> t \<in> set ts)"
proof -
  have "ps = sort_key (\<lambda>p. - pt_CreationTimestamp p) (getUserProjects u projects ta)"
    using assms(1,3,4) by (auto simp: getProjectByUser_def)
  then have ps: "set ps = {p \<in> set projects. \<exists>t. gm_get (pj_Labels p) TenantLabel = Some t \<and> sees u p t \<and> (ta \<noteq> [] \<longrightarrow> t \<in> set (Split ta ''|''))}"
    by (cases ta) (auto simp: getUserProjects_def project_loop_set)
  have "t \<in> set ts" if p: "p \<in> set ps" "gm_get (pj_Labels p) TenantLabel = Some (tn_Name t)" "t \<in> set tenants" for p t
  proof (cases "us_PlatformAdmin (ur_Status u) \<or> IsUserPlatformScope u")
    case True
    then show ?thesis using assms(1,2,5) p(3) by (auto simp: getTenantByUser_def GetVisibleTenants_def)
  next
    case False
    obtain res w3 where i: "run_state (info_tenants env (us_BelongProjectInfos (ur_Status u)) (us_BelongTenants (ur_Status u))) w = (res, w3)" by fastforce
    with False assms(1,2,5) obtain set' where s: "res = Inr set'" "set ts = {t \<in> set tenants. tn_Name t \<in> set set'}"
      by (cases res) (auto simp: getTenantByUser_def GetVisibleTenants_def)
    note I = info_tenants_run [OF i [unfolded s(1)]]
    from p(1,2) ps have sees: "sees u p (tn_Name t)" and pm: "p \<in> set projects" by auto
    have "tn_Name t \<in> set set'"
    proof (cases "tn_Name t \<in> set (us_BelongTenants (ur_Status u))")
      case False
      with sees \<open>\<not> (us_PlatformAdmin (ur_Status u) \<or> IsUserPlatformScope u)\<close> obtain j where
        j: "j \<in> set (us_BelongProjectInfos (ur_Status u))" "pj_Name p = pi_Project j" by (auto simp: sees_def)
      from assms(6) [OF j(1) pm j(2)] p(2) have "pi_Tenant j = tn_Name t" "pi_Tenant j \<noteq> []" by simp_all
      with I j(1) show ?thesis by auto
    qed (use I in auto)
    with s(2) p(3) show ?thesis by simp
  qed
  with ps show ?thesis by blast
qed

subsection \<open>Bindings\<close>

definition authz_world :: "('w, 's) authz_env \<Rightarrow> ('w \<Rightarrow> objkey \<Rightarrow> User option) \<Rightarrow> bool" where
  "authz_world env view \<longleftrightarrow>
     reads (az_CacheUsers env) view (\<lambda>v. v) \<and> reads (az_DirectUsers env) view (\<lambda>v. v) \<and>
     updates (az_DirectUsers env) (\<lambda>u. ([], ur_Name u)) view (\<lambda>v. v) (\<lambda>_. ()) \<and>
     (\<forall>k. keeps_view (cl_get (az_CacheRoleBindings env) k) view) \<and> (\<forall>w. keyed_users (view w))"

lemma update_spec_run:
  assumes "authz_world env view" and "run_state (UpdateUserSpec (az_DirectUsers env) u') w = (None, w')"
    and "view w ([], ur_Name u') = Some u"
  shows "view w' = (view w)(([], ur_Name u') \<mapsto> u\<lparr>ur_ScopeBindings := ur_ScopeBindings u'\<rparr>)"
proof -
  have c: "reads (az_DirectUsers env) view (\<lambda>v. v)" "updates (az_DirectUsers env) (\<lambda>u. ([], ur_Name u)) view (\<lambda>v. v) (\<lambda>_. ())" "\<And>w. keyed_users (view w)"
    using assms(1) by (simp_all add: authz_world_def)
  have "ur_Name u = ur_Name u'" using c(3) assms(3) unfolding keyed_users_def by (metis prod.inject)
  with retry_modify_run(3) [OF c(1,2) assms(2) [unfolded UpdateUserSpec_modify] refl] assms(3) show ?thesis by auto
qed

text \<open>The user, and only the user, that a binding names gets the scope of the binding.\<close>

lemma createBinds_run:
  assumes "authz_world env view" and "run_state (createBinds env asker (Some rb)) w = (Success (), w')"
  obtains st sn role n u where "TransBinding (bl_Labels rb) (su_Name (hd (bi_Subjects rb))) (rr_Name (bi_RoleRef rb)) = Inr (st, sn, role, n)"
    "view w ([], n) = Some u" "ur_Name u = n" "view w' = (view w)(([], n) \<mapsto> AddUserScopeBindings u st sn role)"
proof -
  from assms(2) have len: "length (bi_Subjects rb) = 1" by (simp add: createBinds_def split: if_splits)
  then have hd: "bi_Subjects rb ! 0 = hd (bi_Subjects rb)" by (cases "bi_Subjects rb") auto
  from assms(2) len hd obtain st sn role n where t: "TransBinding (bl_Labels rb) (su_Name (hd (bi_Subjects rb))) (rr_Name (bi_RoleRef rb)) = Inr (st, sn, role, n)"
    by (auto simp: createBinds_def split: sum.splits)
  obtain r w1 where g: "run_state (cl_get (az_CacheUsers env) ([], n)) w = (r, w1)" by fastforce
  have c: "reads (az_CacheUsers env) view (\<lambda>v. v)" "\<And>w. keyed_users (view w)" using assms(1) by (simp_all add: authz_world_def)
  note G = reads_run [OF c(1) g]
  from assms(2) len hd t g obtain u where u: "r = Inr u" by (cases r) (auto simp: createBinds_def)
  with G(2) have v: "view w ([], n) = Some u" by simp
  then have nm: "ur_Name u = n" using c(2) unfolding keyed_users_def by blast
  have "run_state (UpdateUserSpec (az_DirectUsers env) (AddUserScopeBindings u st sn role)) w1 = (None, w')"
    using assms(2) len hd t g u by (auto simp: createBinds_def split: prod.splits option.splits)
  from update_spec_run [OF assms(1) this, of u] v nm G(1) have "view w' = (view w)(([], n) \<mapsto> AddUserScopeBindings u st sn role)" by simp
  with t v nm show thesis by (rule that)
qed

lemma remove_loop_eq:
  "remove_loop st sn role bs acc = acc @ filter (\<lambda>b. \<not> (sb_ScopeName b = sn \<and> sb_ScopeType b = st \<and> sb_Role b = role)) bs"
  by (induction bs arbitrary: acc) auto

lemma remove_added:
  assumes "\<lparr>sb_ScopeType = st, sb_ScopeName = sn, sb_Role = role\<rparr> \<notin> set (ur_ScopeBindings u)"
  shows "RemoveUserScopeBindings (AddUserScopeBindings u st sn role) st sn role = u"
proof -
  have "filter (\<lambda>b. \<not> (sb_ScopeName b = sn \<and> sb_ScopeType b = st \<and> sb_Role b = role)) (ur_ScopeBindings u) = ur_ScopeBindings u"
  proof (intro filter_True ballI)
    fix b assume "b \<in> set (ur_ScopeBindings u)"
    with assms show "\<not> (sb_ScopeName b = sn \<and> sb_ScopeType b = st \<and> sb_Role b = role)" by (cases b) auto
  qed
  then show ?thesis by (auto simp: RemoveUserScopeBindings_def AddUserScopeBindings_def remove_loop_eq)
qed

lemma deleteBinds_run:
  assumes "authz_world env view" and "run_state (cl_get (az_CacheRoleBindings env) key) w = (Inr rb, w1)"
    and "run_state (deleteBinds env asker key) w = (Ret (Success ()), w')"
    and "TransBinding (bl_Labels rb) (su_Name (hd (bi_Subjects rb))) (rr_Name (bi_RoleRef rb)) = Inr (st, sn, role, n)"
  shows "\<exists>u. view w ([], n) = Some u \<and> view w' = (view w)(([], n) \<mapsto> RemoveUserScopeBindings u st sn role)"
proof -
  have c: "reads (az_CacheUsers env) view (\<lambda>v. v)" "\<And>w. keyed_users (view w)" "\<And>k. keeps_view (cl_get (az_CacheRoleBindings env) k) view"
    using assms(1) unfolding authz_world_def by blast+
  have v1: "view w1 = view w" using keeps_viewD [OF c(3) assms(2)] .
  obtain s ss where ss: "bi_Subjects rb = s # ss" using assms(2,3) by (cases "bi_Subjects rb") (auto simp: deleteBinds_def)
  obtain r w2 where g: "run_state (cl_get (az_CacheUsers env) ([], n)) w1 = (r, w2)" by fastforce
  note G = reads_run [OF c(1) g]
  from assms(2-4) ss g obtain u where u: "r = Inr u" by (cases r) (auto simp: deleteBinds_def)
  with G(2) v1 have v: "view w ([], n) = Some u" by simp
  then have nm: "ur_Name u = n" using c(2) unfolding keyed_users_def by (metis prod.inject)
  have "run_state (UpdateUserSpec (az_DirectUsers env) (RemoveUserScopeBindings u st sn role)) w2 = (None, w')"
    using assms(2-4) ss g u by (auto simp: deleteBinds_def split: prod.splits option.splits)
  from update_spec_run [OF assms(1) this, of u] v nm G(1) v1
  have "view w' = (view w)(([], n) \<mapsto> RemoveUserScopeBindings u st sn role)" by (simp add: RemoveUserScopeBindings_def)
  with v show ?thesis by blast
qed

text \<open>
  Deleting takes back what creating gave. If a binding was posted by anybody for a user that did not
  have the scope of the binding, and a stored binding with the same labels, subject and role is deleted
  next, again by anybody, all users are as they were.
\<close>

lemma binds_roundtrip:
  assumes "authz_world env view" and "run_state (createBinds env asker (Some rb)) w = (Success (), w1)"
    and "run_state (cl_get (az_CacheRoleBindings env) key) w1 = (Inr rb', v)" and "bl_Labels rb' = bl_Labels rb"
    and "hd (bi_Subjects rb') = hd (bi_Subjects rb)" and "bi_RoleRef rb' = bi_RoleRef rb"
    and "run_state (deleteBinds env asker' key) w1 = (Ret (Success ()), w2)"
    and "\<And>st sn role n u. TransBinding (bl_Labels rb) (su_Name (hd (bi_Subjects rb))) (rr_Name (bi_RoleRef rb)) = Inr (st, sn, role, n) \<Longrightarrow>
      view w ([], n) = Some u \<Longrightarrow> \<lparr>sb_ScopeType = st, sb_ScopeName = sn, sb_Role = role\<rparr> \<notin> set (ur_ScopeBindings u)"
  shows "view w2 = view w"
  using assms(1,2)
proof (rule createBinds_run)
  fix st sn role n u
  assume t: "TransBinding (bl_Labels rb) (su_Name (hd (bi_Subjects rb))) (rr_Name (bi_RoleRef rb)) = Inr (st, sn, role, n)"
    and u: "view w ([], n) = Some u" "ur_Name u = n" and v: "view w1 = (view w)(([], n) \<mapsto> AddUserScopeBindings u st sn role)"
  from t assms(4-6) have t': "TransBinding (bl_Labels rb') (su_Name (hd (bi_Subjects rb'))) (rr_Name (bi_RoleRef rb')) = Inr (st, sn, role, n)" by simp
  from deleteBinds_run [OF assms(1,3,7) t'] v remove_added [OF assms(8) [OF t u(1)]]
  have "view w2 = (view w)(([], n) \<mapsto> u)" by auto
  with u(1) show ?thesis by (simp add: fun_upd_idem)
qed

subsection \<open>Witnesses\<close>

type_synonym authz_lab = "User list \<times> rbac_binding list"

definition empty_rbac :: cache where
  "empty_rbac = \<lparr>ca_user = (\<lambda>n. Inl NotFound), ca_users = Inr [], ca_role = (\<lambda>ns n. Inl NotFound),
     ca_cluster_role = (\<lambda>n. if n = ''viewer'' then Inr \<lparr>cr_Name = ''viewer'', cr_Rules =
        [\<lparr>pr_Verbs = [''get''], pr_APIGroups = [''*''], pr_Resources = [''pods''], pr_ResourceNames = [], pr_NonResourceURLs = []\<rparr>]\<rparr> else Inl NotFound),
     ca_role_bindings = (\<lambda>ns. Inr []),
     ca_cluster_role_bindings = Inr [\<lparr>bi_Name = ''b'', bi_Namespace = [], bi_Subjects = [\<lparr>su_Kind = ''User'', su_Name = ''bob'', su_Namespace = []\<rparr>],
        bi_RoleRef = \<lparr>rr_APIGroup = [], rr_Kind = ''ClusterRole'', rr_Name = ''viewer''\<rparr>\<rparr>]\<rparr>"

definition tenant_a :: TenantItem where
  "tenant_a = \<lparr>tn_Name = ''a'', tn_Labels = None, tn_Annotations = None, tn_Namespace = [], ti_DisplayName = ''A'', ti_CreationTimestamp = 1\<rparr>"

definition project_p :: ProjectItem where
  "project_p = \<lparr>pj_Name = ''p'', pj_Labels = Some [(TenantLabel, ''a'')], pj_Annotations = None, pj_Namespace = [],
     pj_IngressDomainSuffix = [], pt_CreationTimestamp = 2\<rparr>"

definition authz_lab :: "(authz_lab, unit) authz_env" where
  "authz_lab = \<lparr>az_Rbac = empty_rbac, az_Clusters = (\<lambda>c. None), az_cmData = None, az_platformCmData = Some [(''pod.view'', ''pods'')],
     az_CacheUsers = list_client fst (\<lambda>x w. (x, snd w)) (\<lambda>u. ([], ur_Name u)), az_DirectUsers = list_client fst (\<lambda>x w. (x, snd w)) (\<lambda>u. ([], ur_Name u)),
     az_CacheProjects = list_client (\<lambda>w. []) (\<lambda>x w. w) (\<lambda>p. ([], [])), az_CacheRoleBindings = list_client snd (\<lambda>x w. (fst w, x)) binding_key,
     az_CacheClusterRoles = list_client (\<lambda>w. []) (\<lambda>x w. w) role_key, az_DirectClusterRoles = list_client (\<lambda>w. []) (\<lambda>x w. w) role_key,
     az_ListTenants = State_Monad.return (Inr [tenant_a]), az_ListProjects = State_Monad.return (Inr [project_p]),
     az_ListClusterRoles = (\<lambda>s. State_Monad.return (Inr [])), az_DirectListClusterRoles = (\<lambda>s. State_Monad.return (Inr [])),
     az_ListRoles = (\<lambda>ns s. State_Monad.return (Inr [])), az_Parse = (\<lambda>s. Inr ())\<rparr>"

definition users_of :: "authz_lab \<Rightarrow> objkey \<Rightarrow> User option" where
  "users_of w = lookup_by (\<lambda>u. ([], ur_Name u)) (fst w)"

lemma authz_lab_world: "authz_world authz_lab users_of"
  unfolding authz_world_def
proof (intro conjI allI)
  show "reads (az_CacheUsers authz_lab) users_of (\<lambda>v. v)" "reads (az_DirectUsers authz_lab) users_of (\<lambda>v. v)"
    unfolding authz_lab_def by (simp_all add: list_client_reads users_of_def)
  show "updates (az_DirectUsers authz_lab) (\<lambda>u. ([], ur_Name u)) users_of (\<lambda>v. v) (\<lambda>_. ())"
    unfolding authz_lab_def by (simp add: list_client_updates users_of_def)
  show "keeps_view (cl_get (az_CacheRoleBindings authz_lab) k) users_of" for k
    by (auto simp: keeps_view_def authz_lab_def list_client_def Let_def)
  show "keyed_users (users_of w)" for w unfolding keyed_users_def users_of_def using lookup_by_key by fast
qed

definition lab_bob :: User where
  "lab_bob = \<lparr>ur_Name = ''bob'', ur_Finalizers = [], ur_DeletionTimestamp = None, ur_ScopeBindings = [],
     ur_Status = \<lparr>us_BelongTenants = [], us_BelongProjectInfos = [\<lparr>pi_Project = ''p'', pi_Tenant = ''a''\<rparr>], us_PlatformAdmin = False\<rparr>\<rparr>"

definition lab_binding :: rbac_binding where
  "lab_binding = \<lparr>bi_Name = ''x'', bi_Namespace = ''n'', bi_Subjects = [\<lparr>su_Kind = ''User'', su_Name = ''bob'', su_Namespace = []\<rparr>],
     bi_RoleRef = \<lparr>rr_APIGroup = [], rr_Kind = ''ClusterRole'', rr_Name = ''platform-admin''\<rparr>, bl_Labels = Some [(PlatformLabel, ''x'')]\<rparr>"

theorem getPermissions_exact_witness:
  "\<exists>res. getPermissions authz_lab ''bob'' (Some (''c'', [], [(''pod.view'', ''n''), (''other'', ''n'')])) = Success res \<and> map_of res ''pod.view'' = Some Read_v"
proof -
  have "item_level (az_platformCmData authz_lab) (NewDefaultResolver authz_lab ''c'') ''bob'' ''pod.view'' ''n'' = Read_v" by code_simp
  then show ?thesis
    using getPermissions_exact [of "''c''" "[(''pod.view'', ''n''), (''other'', ''n'')]" "''pod.view''" "''n''" authz_lab "''bob''" "[]"] by simp
qed

abbreviation lab_bound :: authz_lab where
  "lab_bound \<equiv> snd (run_state (createBinds authz_lab ''eve'' (Some lab_binding)) ([lab_bob], [lab_binding]))"

abbreviation lab_unbound :: "unit answer go \<times> authz_lab" where
  "lab_unbound \<equiv> run_state (deleteBinds authz_lab ''eve'' (''n'', ''x'')) lab_bound"

lemma lab_unbound_ok: "fst lab_unbound = Ret (Success ())"
  by code_simp

end
