(* ===== verification/ClusterApi.thy ===== *)
theory ClusterApi
  imports AuthzApi Accounts Admission QuotaK8s "HOL-Library.Product_Lexorder"
begin

section \<open>Clusters, namespaces and quotas at the API server\<close>

text \<open>
  The handlers of \<open>pkg/apiserver/cubeapi/cluster\<close> (\<open>handler.go\<close> and \<open>helper.go\<close>), the unit conversion of
  \<open>pkg/utils/strproc\<close> and \<open>SubNs2Ns\<close> of \<open>pkg/utils/transition\<close>. The parameters of a request are
  arguments; the table of clusters is that of the multi cluster manager, and the client of each
  cluster is a record of the lists and clients the handlers use. The goroutines that fetch the live data
  of different clusters write to different places of the answer and only read otherwise: they are run
  one after the other.
\<close>

subsection \<open>Definitions: objects and clients\<close>

definition ClusterLabel :: string where "ClusterLabel = ''kubecube.io/cluster''"
definition GpuNvidia :: string where "GpuNvidia = ''nvidia.com/gpu''"
definition ResourceNvidiaGPU :: string where "ResourceNvidiaGPU = ''requests.nvidia.com/gpu''"
definition HncSuffix :: string where "HncSuffix = ''.tree.hnc.x-k8s.io/depth''"
definition HncCurrentDepth :: string where "HncCurrentDepth = ''0''"
definition HncProjectDepth :: string where "HncProjectDepth = ''1''"
definition HncTenantDepth :: string where "HncTenantDepth = ''2''"
definition PodSucceeded :: string where "PodSucceeded = ''Succeeded''"
definition PodFailed :: string where "PodFailed = ''Failed''"

record NamespaceItem = Namespace +
  ni_CreationTimestamp :: int
  ni_DeletionTimestamp :: "int option"

record Node =
  nd_Name :: string
  nd_Capacity :: resource_list

record NodeMetrics =
  nx_Usage :: resource_list

record Container =
  ct_Requests :: resource_list
  ct_Limits :: resource_list

record Pod =
  pd_NodeName :: string
  pd_Phase :: string
  pd_Containers :: "Container list"
  pd_InitContainers :: "Container list"
  pd_Overhead :: resource_list

record ('w, 's) cluster_client =
  cx_Nodes :: "'s \<Rightarrow> ('w, Node list result) state"
  cx_NodeMetrics :: "'s \<Rightarrow> ('w, NodeMetrics list result) state"
  cx_ListNs :: "'s option \<Rightarrow> ('w, NamespaceItem list result) state"
  cx_Pods :: "('w, Pod list result) state"
  cx_DirectQuotas :: "'s \<Rightarrow> ('w, CubeResourceQuota list result) state"
  cx_RoleBindings :: "string \<Rightarrow> ('w, rbac_binding list result) state"
  cx_Namespaces :: "('w, NamespaceItem) client"
  cx_ResourceQuotas :: "('w, ResourceQuota) client"

text \<open>
  The handler: the table of clusters, the handler's own client and resolver, and the constructor of
  selectors for sets of values. \<open>cv_RoleLabels\<close> gives the labels of a cluster role, which the
  resolver's record of it leaves out.
\<close>

record ('w, 's) cluster_env =
  cv_Mgr :: "('w, 's) cluster_client MultiClustersMgr"
  cv_Authz :: "('w, 's) authz_env"
  cv_DirectClusters :: "('w, Cluster) client"
  cv_DirectListClusters :: "('w, Cluster list result) state"
  cv_CacheListClusters :: "('w, Cluster list result) state"
  cv_CacheQuotas :: "'s \<Rightarrow> ('w, CubeResourceQuota list result) state"
  cv_Requirements :: "(string \<times> string list) list \<Rightarrow> 's result"
  cv_RoleLabels :: "ClusterRole \<Rightarrow> labels"

subsection \<open>Definitions: quantities and units\<close>

text \<open>
  A quantity counts nano units. \<open>Value\<close> and \<open>MilliValue\<close> round away from zero. Printing and parsing a quantity
  again does not change its rounded value.
\<close>

definition round_away :: "int \<Rightarrow> int \<Rightarrow> int" where
  "round_away q d = sgn q * ((\<bar>q\<bar> + d - 1) div d)"

definition Value :: "quantity \<Rightarrow> int" where
  "Value q = round_away q (10 ^ 9)"

definition MilliValue :: "quantity \<Rightarrow> int" where
  "MilliValue q = round_away q (10 ^ 6)"

text \<open>
  The nearest \<open>float64\<close> of an integer, ties to even: numbers of more than 53 bits lose their last bits.
\<close>

function float_exp :: "int \<Rightarrow> nat" where
  "float_exp a = (if a < 2 ^ 53 then 0 else Suc (float_exp (a div 2)))"
  by auto
termination
  by (relation "measure nat") auto

declare float_exp.simps [simp del]

definition float64 :: "int \<Rightarrow> int" where
  "float64 v =
     (let a = \<bar>v\<bar>; e = float_exp a; q = a div 2 ^ e; r = a mod 2 ^ e;
          up = (2 ^ e < 2 * r \<or> 2 * r = 2 ^ e \<and> odd q)
      in sgn v * ((if up then q + 1 else q) * 2 ^ e))"

text \<open>The result \<open>(m, k)\<close> of the conversion stands for the number \<open>m / 2 ^ k\<close>, which is a \<open>float64\<close> again.\<close>

definition BinaryUnitConvert :: "quantity \<Rightarrow> string \<Rightarrow> (int \<times> nat) result" where
  "BinaryUnitConvert q expectUnit =
     (let v = float64 (Value q)
      in if expectUnit = ''Ki'' then Inr (v, 10)
         else if expectUnit = ''Mi'' then Inr (v, 20)
         else if expectUnit = ''Gi'' then Inr (v, 30)
         else if expectUnit = ''Ti'' then Inr (v, 40)
         else if expectUnit = ''Pi'' then Inr (v, 50)
         else if expectUnit = ''Ei'' then Inr (v, 60)
         else Inl (Err (''not support binary unit '' @ expectUnit)))"

definition convertUnit :: "quantity \<Rightarrow> string \<Rightarrow> int" where
  "convertUnit data expectedUnit =
     (case BinaryUnitConvert data expectedUnit of
        Inl e \<Rightarrow> 0
      | Inr (m, k) \<Rightarrow> sgn m * (\<bar>m\<bar> div 2 ^ k))"

definition res_of :: "resource_list \<Rightarrow> string \<Rightarrow> quantity" where
  "res_of l name = (case gm_get l name of None \<Rightarrow> 0 | Some q \<Rightarrow> q)"

subsection \<open>Definitions: what a pod asks for\<close>

fun addResourceList :: "(string \<times> quantity) list \<Rightarrow> (string \<times> quantity) list \<Rightarrow> (string \<times> quantity) list" where
  "addResourceList list [] = list"
| "addResourceList list ((name, quantity) # new) =
     addResourceList (case map_of list name of
         None \<Rightarrow> AList.update name quantity list
       | Some value \<Rightarrow> AList.update name (value + quantity) list) new"

fun maxResourceList :: "(string \<times> quantity) list \<Rightarrow> (string \<times> quantity) list \<Rightarrow> (string \<times> quantity) list" where
  "maxResourceList list [] = list"
| "maxResourceList list ((name, quantity) # new) =
     maxResourceList (case map_of list name of
         None \<Rightarrow> AList.update name quantity list
       | Some value \<Rightarrow> if Cmp quantity value > 0 then AList.update name quantity list else list) new"

fun overhead_limits :: "(string \<times> quantity) list \<Rightarrow> (string \<times> quantity) list \<Rightarrow> (string \<times> quantity) list" where
  "overhead_limits limits [] = limits"
| "overhead_limits limits ((name, quantity) # overhead) =
     overhead_limits (case map_of limits name of
         None \<Rightarrow> limits
       | Some value \<Rightarrow> if value \<noteq> 0 then AList.update name (value + quantity) limits else limits) overhead"

definition gm_entries :: "('k, 'v) gomap \<Rightarrow> ('k \<times> 'v) list" where
  "gm_entries m = (case m of None \<Rightarrow> [] | Some l \<Rightarrow> l)"

definition podRequestsAndLimits :: "Pod \<Rightarrow> (string \<times> quantity) list \<times> (string \<times> quantity) list" where
  "podRequestsAndLimits pod =
     (let reqs = fold (\<lambda>c reqs. addResourceList reqs (gm_entries (ct_Requests c))) (pd_Containers pod) [];
          limits = fold (\<lambda>c limits. addResourceList limits (gm_entries (ct_Limits c))) (pd_Containers pod) [];
          reqs = fold (\<lambda>c reqs. maxResourceList reqs (gm_entries (ct_Requests c))) (pd_InitContainers pod) reqs;
          limits = fold (\<lambda>c limits. maxResourceList limits (gm_entries (ct_Limits c))) (pd_InitContainers pod) limits
      in case pd_Overhead pod of
           None \<Rightarrow> (reqs, limits)
         | Some overhead \<Rightarrow> (addResourceList reqs overhead, overhead_limits limits overhead))"

subsection \<open>Definitions: what is shown of a cluster\<close>

record clusterMetaInfo =
  mi_ClusterName :: string
  mi_ClusterDescription :: string
  mi_NetworkType :: string
  mi_HarborAddr :: string
  mi_IsMemberCluster :: bool
  mi_IsWritable :: bool
  mi_CreateTime :: int
  mi_KubeApiServer :: string
  mi_Status :: string
  mi_IngressDomainSuffix :: string
  mi_Labels :: labels
  mi_Annotations :: labels

record clusterLivedataInfo =
  lv_NodeCount :: int
  lv_NamespaceCount :: int
  lv_UsedCPU :: int
  lv_TotalCPU :: int
  lv_UsedMem :: int
  lv_TotalMem :: int
  lv_TotalStorage :: int
  lv_UsedStorage :: int
  lv_TotalStorageEphemeral :: int
  lv_UsedStorageEphemeral :: int
  lv_TotalGpu :: int
  lv_UsedGpu :: int
  lv_UsedCPURequest :: int
  lv_UsedCPULimit :: int
  lv_UsedMemRequest :: int
  lv_UsedMemLimit :: int

record clusterInfo = clusterMetaInfo +
  in_Livedata :: clusterLivedataInfo

record 's clusterInfoOpts =
  io_statusFilter :: string
  io_nodeLabelSelector :: 's
  io_pruneInfo :: bool
  io_pageNum :: int
  io_pageSize :: int

definition no_livedata :: clusterLivedataInfo where
  "no_livedata =
     \<lparr>lv_NodeCount = 0, lv_NamespaceCount = 0, lv_UsedCPU = 0, lv_TotalCPU = 0, lv_UsedMem = 0, lv_TotalMem = 0,
      lv_TotalStorage = 0, lv_UsedStorage = 0, lv_TotalStorageEphemeral = 0, lv_UsedStorageEphemeral = 0,
      lv_TotalGpu = 0, lv_UsedGpu = 0, lv_UsedCPURequest = 0, lv_UsedCPULimit = 0, lv_UsedMemRequest = 0, lv_UsedMemLimit = 0\<rparr>"

definition makeMetadataInfo :: "Cluster \<Rightarrow> clusterMetaInfo" where
  "makeMetadataInfo cluster =
     (let state = (case cs_State (clu_Status cluster) of None \<Rightarrow> ClusterProcessing | Some s \<Rightarrow> s);
          annotations = (case clu_Annotations cluster of None \<Rightarrow> [] | Some l \<Rightarrow> l);
          annotations = (if map_of annotations CubeCnAnnotation = None
                         then AList.update CubeCnAnnotation (clu_Name cluster) annotations else annotations)
      in \<lparr>mi_ClusterName = clu_Name cluster, mi_ClusterDescription = clu_Description cluster,
          mi_NetworkType = clu_NetworkType cluster, mi_HarborAddr = clu_HarborAddr cluster,
          mi_IsMemberCluster = clu_IsMemberCluster cluster, mi_IsWritable = clu_IsWritable cluster,
          mi_CreateTime = clu_CreationTimestamp cluster, mi_KubeApiServer = clu_KubernetesAPIEndpoint cluster,
          mi_Status = state, mi_IngressDomainSuffix = clu_IngressDomainSuffix cluster,
          mi_Labels = clu_Labels cluster, mi_Annotations = Some annotations\<rparr>)"

fun usage_loop :: "NodeMetrics list \<Rightarrow> clusterLivedataInfo \<Rightarrow> clusterLivedataInfo" where
  "usage_loop [] info = info"
| "usage_loop (m # ms) info =
     usage_loop ms (info
       \<lparr>lv_UsedCPU := wrap64 (lv_UsedCPU info + MilliValue (res_of (nx_Usage m) ''cpu'')),
        lv_UsedMem := wrap64 (lv_UsedMem info + convertUnit (res_of (nx_Usage m) ''memory'') ''Mi''),
        lv_UsedStorage := wrap64 (lv_UsedStorage info + convertUnit (res_of (nx_Usage m) ''storage'') ''Mi''),
        lv_UsedStorageEphemeral := wrap64 (lv_UsedStorageEphemeral info + convertUnit (res_of (nx_Usage m) ''ephemeral-storage'') ''Mi'')\<rparr>)"

fun capacity_loop :: "Node list \<Rightarrow> clusterLivedataInfo \<Rightarrow> clusterLivedataInfo" where
  "capacity_loop [] info = info"
| "capacity_loop (n # ns) info =
     capacity_loop ns (info
       \<lparr>lv_TotalCPU := wrap64 (lv_TotalCPU info + MilliValue (res_of (nd_Capacity n) ''cpu'')),
        lv_TotalMem := wrap64 (lv_TotalMem info + convertUnit (res_of (nd_Capacity n) ''memory'') ''Mi''),
        lv_TotalStorage := wrap64 (lv_TotalStorage info + convertUnit (res_of (nd_Capacity n) ''storage'') ''Mi''),
        lv_TotalStorageEphemeral := wrap64 (lv_TotalStorageEphemeral info + convertUnit (res_of (nd_Capacity n) ''ephemeral-storage'') ''Mi'')\<rparr>)"

fun pods_loop :: "string list \<Rightarrow> Pod list \<Rightarrow> clusterLivedataInfo \<Rightarrow> clusterLivedataInfo" where
  "pods_loop nodesName [] info = info"
| "pods_loop nodesName (pod # pods) info =
     (if pd_NodeName pod \<in> set nodesName \<and> pd_Phase pod \<noteq> PodSucceeded \<and> pd_Phase pod \<noteq> PodFailed
      then let (req, limit) = podRequestsAndLimits pod
           in pods_loop nodesName pods (info
                \<lparr>lv_UsedCPURequest := wrap64 (lv_UsedCPURequest info + MilliValue (res_of (Some req) ''cpu'')),
                 lv_UsedCPULimit := wrap64 (lv_UsedCPULimit info + MilliValue (res_of (Some limit) ''cpu'')),
                 lv_UsedMemRequest := wrap64 (lv_UsedMemRequest info + convertUnit (res_of (Some req) ''memory'') ''Mi''),
                 lv_UsedMemLimit := wrap64 (lv_UsedMemLimit info + convertUnit (res_of (Some limit) ''memory'') ''Mi'')\<rparr>)
      else pods_loop nodesName pods info)"

definition makeLivedataInfo :: "('w, 's) cluster_client \<Rightarrow> 's \<Rightarrow> ('w, clusterLivedataInfo result) state" where
  "makeLivedataInfo cli selector = do {
     nodesMc \<leftarrow> cx_NodeMetrics cli selector;
     let info = (case nodesMc of Inl e \<Rightarrow> no_livedata | Inr ms \<Rightarrow> usage_loop ms no_livedata);
     r \<leftarrow> cx_Nodes cli selector;
     case r of
       Inl e \<Rightarrow> State_Monad.return (Inl e)
     | Inr nodes \<Rightarrow> do {
         let info = capacity_loop nodes (info\<lparr>lv_NodeCount := int (length nodes)\<rparr>);
         r \<leftarrow> cx_ListNs cli None;
         case r of
           Inl e \<Rightarrow> State_Monad.return (Inl e)
         | Inr ns \<Rightarrow> do {
             let info = info\<lparr>lv_NamespaceCount := int (length ns)\<rparr>;
             r \<leftarrow> cx_Pods cli;
             State_Monad.return (case r of
               Inl e \<Rightarrow> Inl e
             | Inr podList \<Rightarrow> Inr (pods_loop (map nd_Name nodes) podList info))
           }
       }
   }"

definition paginateClusterInfos :: "clusterInfo list \<Rightarrow> int \<Rightarrow> int \<Rightarrow> clusterInfo list go" where
  "paginateClusterInfos infos pageNum pageSize =
     (let start = wrap64 (wrap64 (pageNum - 1) * pageSize); fin = wrap64 (pageNum * pageSize)
      in if start > int (length infos) then Ret []
         else let fin = (if fin > int (length infos) then int (length infos) else fin)
              in if start < 0 \<or> fin < start then Panic
                 else Ret (take (nat (fin - start)) (drop (nat start) infos)))"

text \<open>The infos of the pivot clusters and those of the member clusters, in the order of the list.\<close>

fun infos_loop :: "('w, 's) cluster_client MultiClustersMgr \<Rightarrow> string \<Rightarrow> Cluster list \<Rightarrow> clusterInfo list \<times> clusterInfo list \<Rightarrow>
     clusterInfo list \<times> clusterInfo list" where
  "infos_loop m statusFilter [] acc = acc"
| "infos_loop m statusFilter (item # items) (infos, memberClusterInfos) =
     (let info = clusterMetaInfo.extend (makeMetadataInfo item) \<lparr>in_Livedata = no_livedata\<rparr>;
          info = (case Get_mgr m (clu_Name item) of (Some internalCluster, None) \<Rightarrow> info | _ \<Rightarrow> info\<lparr>mi_Status := ClusterAbnormal\<rparr>)
      in if length statusFilter = 0 \<or> mi_Status info = statusFilter
         then infos_loop m statusFilter items
                (if clu_IsMemberCluster item then (infos, memberClusterInfos @ [info]) else (infos @ [info], memberClusterInfos))
         else infos_loop m statusFilter items (infos, memberClusterInfos))"

fun livedata_loop :: "('w, 's) cluster_client MultiClustersMgr \<Rightarrow> 's \<Rightarrow> clusterInfo list \<Rightarrow> ('w, clusterInfo list) state" where
  "livedata_loop m selector [] = State_Monad.return []"
| "livedata_loop m selector (info # infos) = do {
     info \<leftarrow> (if mi_Status info = ClusterAbnormal then State_Monad.return info
             else case Get_mgr m (mi_ClusterName info) of
                 (Some internalCluster, None) \<Rightarrow> do {
                   r \<leftarrow> makeLivedataInfo (ic_Client internalCluster) selector;
                   State_Monad.return (case r of Inl e \<Rightarrow> info | Inr livedata \<Rightarrow> info\<lparr>in_Livedata := livedata\<rparr>)
                 }
               | _ \<Rightarrow> State_Monad.return info);
     infos \<leftarrow> livedata_loop m selector infos;
     State_Monad.return (info # infos)
   }"

definition makeClusterInfos :: "('w, 's) cluster_client MultiClustersMgr \<Rightarrow> Cluster list \<Rightarrow> 's clusterInfoOpts \<Rightarrow> ('w, clusterInfo list go) state" where
  "makeClusterInfos m clusters opts =
     (let (infos, memberClusterInfos) = infos_loop m (io_statusFilter opts) clusters ([], []);
          infos = sort_key (\<lambda>i. - mi_CreateTime i) infos;
          memberClusterInfos = sort_key (\<lambda>i. - mi_CreateTime i) memberClusterInfos;
          infos = infos @ memberClusterInfos
      in case (if io_pageNum opts > 0 \<and> io_pageSize opts > 0
               then paginateClusterInfos infos (io_pageNum opts) (io_pageSize opts) else Ret infos) of
           Panic \<Rightarrow> State_Monad.return Panic
         | Ret infos \<Rightarrow>
             if io_pruneInfo opts then State_Monad.return (Ret infos)
             else do {
               infos \<leftarrow> livedata_loop m (io_nodeLabelSelector opts) infos;
               State_Monad.return (Ret infos)
             })"

subsection \<open>Definitions: clusters of a namespace or a project\<close>

definition listClusterNames :: "'c MultiClustersMgr \<Rightarrow> string list go" where
  "listClusterNames m = go_bind (FuzzyCopy m) (\<lambda>clusters. Ret (map (fc_Name \<circ> snd) clusters))"

fun related_clusters :: "'s \<Rightarrow> ('w, 's) cluster_client FuzzyCluster list \<Rightarrow> string list \<Rightarrow> ('w, string list) state" where
  "related_clusters lbSelector [] clusterNames = State_Monad.return clusterNames"
| "related_clusters lbSelector (cluster # clusters) clusterNames = do {
     r \<leftarrow> cx_ListNs (fc_Client cluster) (Some lbSelector);
     case r of
       Inl e \<Rightarrow> related_clusters lbSelector clusters clusterNames
     | Inr nsList \<Rightarrow> related_clusters lbSelector clusters (if length nsList = 0 then clusterNames else clusterNames @ [fc_Name cluster])
   }"

definition getClustersByNamespace :: "('w, 's) cluster_env \<Rightarrow> string \<Rightarrow> ('w, string list result go) state" where
  "getClustersByNamespace env namespace =
     (case FuzzyCopy (cv_Mgr env) of
        Panic \<Rightarrow> State_Monad.return Panic
      | Ret clusters \<Rightarrow>
          let isTenant = HasPrefix namespace TenantNsPrefix; isProject = HasPrefix namespace ProjectNsPrefix;
              lbSelector =
                (if isTenant then az_Parse (cv_Authz env) (HncTenantLabel @ ''='' @ TrimPrefix namespace TenantNsPrefix)
                 else if isProject then az_Parse (cv_Authz env) (HncProjectLabel @ ''='' @ TrimPrefix namespace ProjectNsPrefix)
                 else Inl (Err (''unspport namespace sopce: '' @ namespace)))
          in case lbSelector of
               Inl e \<Rightarrow> State_Monad.return (Ret (Inl e))
             | Inr sel \<Rightarrow> do {
                 names \<leftarrow> related_clusters sel (map snd clusters) [];
                 State_Monad.return (Ret (Inr names))
               })"

fun project_clusters :: "('w, 's) cluster_client MultiClustersMgr \<Rightarrow> 's \<Rightarrow> Cluster list \<Rightarrow> Cluster list \<Rightarrow> ('w, Cluster list result) state" where
  "project_clusters m labelSelector [] clusterItem = State_Monad.return (Inr clusterItem)"
| "project_clusters m labelSelector (cluster # clusters) clusterItem =
     (case GetClient_mgr m (clu_Name cluster) of
        Inl e \<Rightarrow> project_clusters m labelSelector clusters clusterItem
      | Inr cli \<Rightarrow> do {
          r \<leftarrow> cx_ListNs cli (Some labelSelector);
          case r of
            Inl e \<Rightarrow> State_Monad.return (Inl e)
          | Inr nsList \<Rightarrow> project_clusters m labelSelector clusters (if length nsList > 0 then clusterItem @ [cluster] else clusterItem)
        })"

definition filterClustersByProject :: "('w, 's) cluster_env \<Rightarrow> Cluster list \<Rightarrow> string \<Rightarrow> ('w, Cluster list result) state" where
  "filterClustersByProject env clusterList project =
     (case az_Parse (cv_Authz env) (ProjectNsPrefix @ project @ HncSuffix @ ''=1'') of
        Inl e \<Rightarrow> State_Monad.return (Inl e)
      | Inr labelSelector \<Rightarrow> project_clusters (cv_Mgr env) labelSelector clusterList [])"

subsection \<open>Definitions: handlers that read\<close>

text \<open>The parameters of the query; a missing one is empty.\<close>

record cluster_query =
  qr_cluster :: string
  qr_status :: string
  qr_project :: string
  qr_nodeLabelSelector :: string
  qr_prune :: string
  qr_pageNum :: string
  qr_pageSize :: string

definition query_page :: "cluster_query \<Rightarrow> (int \<times> int) result" where
  "query_page q =
     (if qr_pageNum q \<noteq> [] \<and> qr_pageSize q \<noteq> []
      then (case Atoi (qr_pageNum q) of
              None \<Rightarrow> Inl (Err ''invalid syntax'')
            | Some pageNum \<Rightarrow> (case Atoi (qr_pageSize q) of None \<Rightarrow> Inl (Err ''invalid syntax'') | Some pageSize \<Rightarrow> Inr (pageNum, pageSize)))
      else Inr (0, 0))"

definition query_clusters :: "('w, 's) cluster_env \<Rightarrow> string \<Rightarrow> ('w, Cluster list result) state" where
  "query_clusters env clusterName =
     (if length clusterName > 0
      then do {
        r \<leftarrow> cl_get (cv_DirectClusters env) ([], clusterName);
        State_Monad.return (case r of Inl e \<Rightarrow> Inl e | Inr cluster \<Rightarrow> Inr [cluster])
      }
      else cv_DirectListClusters env)"

definition getClusterInfo :: "('w, 's) cluster_env \<Rightarrow> cluster_query \<Rightarrow> ('w, (nat \<times> clusterInfo list) answer go) state" where
  "getClusterInfo env q =
     (case query_page q of
        Inl e \<Rightarrow> State_Monad.return (Ret (Fail (errinfo.BadRequest e)))
      | Inr (pageNum, pageSize) \<Rightarrow> do {
          r \<leftarrow> query_clusters env (qr_cluster q);
          r \<leftarrow> (case r of
                 Inl e \<Rightarrow> State_Monad.return (Inl e)
               | Inr clusterList \<Rightarrow>
                   if length (qr_project q) > 0 then filterClustersByProject env clusterList (qr_project q)
                   else State_Monad.return (Inr clusterList));
          case r of
            Inl e \<Rightarrow> State_Monad.return (Ret (Fail (CustomReturn StatusBadRequest e)))
          | Inr clusterList \<Rightarrow>
              (case az_Parse (cv_Authz env) (qr_nodeLabelSelector q) of
                 Inl e \<Rightarrow> State_Monad.return (Ret (Fail (ParamsInvalid e)))
               | Inr selector \<Rightarrow> do {
                   infos \<leftarrow> makeClusterInfos (cv_Mgr env) clusterList
                     \<lparr>io_statusFilter = qr_status q, io_nodeLabelSelector = selector, io_pruneInfo = (qr_prune q = ''true''),
                      io_pageNum = pageNum, io_pageSize = pageSize\<rparr>;
                   State_Monad.return (go_bind infos (\<lambda>infos. Ret (Success (length clusterList, infos))))
                 })
        })"

definition getClusterLivedata :: "('w, 's) cluster_env \<Rightarrow> string \<Rightarrow> string \<Rightarrow> ('w, clusterLivedataInfo answer) state" where
  "getClusterLivedata env nodeLabelSelector cluster =
     (if length cluster = 0 then State_Monad.return (Fail InvalidBodyFormat)
      else case az_Parse (cv_Authz env) nodeLabelSelector of
          Inl e \<Rightarrow> State_Monad.return (Fail (ParamsInvalid e))
        | Inr selector \<Rightarrow>
            (case Kubernetes (cv_Mgr env) cluster of
               None \<Rightarrow> State_Monad.return (Fail (CustomReturn StatusBadRequest (Err (''cluster '' @ cluster @ '' abnormal''))))
             | Some cli \<Rightarrow> do {
                 r \<leftarrow> makeLivedataInfo cli selector;
                 State_Monad.return (case r of Inl e \<Rightarrow> Fail (CustomReturn StatusBadRequest e) | Inr info \<Rightarrow> Success info)
               }))"

definition getClusterNames :: "('w, 's) cluster_env \<Rightarrow> string \<Rightarrow> ('w, string list answer go) state" where
  "getClusterNames env namespace = do {
     r \<leftarrow> (if length namespace > 0 then getClustersByNamespace env namespace
          else State_Monad.return (go_bind (listClusterNames (cv_Mgr env)) (\<lambda>names. Ret (Inr names))));
     State_Monad.return (go_bind r (\<lambda>r. Ret (case r of
       Inl e \<Rightarrow> Fail (CustomReturn StatusBadRequest e)
     | Inr clusterNames \<Rightarrow> Success (sort clusterNames))))
   }"

definition getAssignedResource :: "('w, 's) cluster_env \<Rightarrow> ('w, 's) cluster_client \<Rightarrow> string \<Rightarrow> ('w, (quantity \<times> quantity \<times> quantity) result) state" where
  "getAssignedResource env cli cluster =
     (case az_Parse (cv_Authz env) (ClusterLabel @ ''='' @ cluster) of
        Inl e \<Rightarrow> State_Monad.return (Inl e)
      | Inr labelSelector \<Rightarrow> do {
          r \<leftarrow> cx_DirectQuotas cli labelSelector;
          State_Monad.return (case r of
            Inl e \<Rightarrow> Inl e
          | Inr listObjs \<Rightarrow> Inr
              (fold (\<lambda>obj cpu. cpu + res_of (cq_Hard obj) ''requests.cpu'') listObjs 0,
               fold (\<lambda>obj mem. mem + res_of (cq_Hard obj) ''requests.memory'') listObjs 0,
               fold (\<lambda>obj gpu. gpu + res_of (cq_Hard obj) ResourceNvidiaGPU) listObjs 0))
        })"

record clusterResource =
  rs_capacityCpu :: quantity
  rs_assignedCpu :: quantity
  rs_capacityMem :: quantity
  rs_assignedMem :: quantity
  rs_capacityGpu :: quantity
  rs_assignedGpu :: quantity

text \<open>
  The answers in the order they are written: an error of the list of nodes is answered and the handler
  goes on with an empty list.
\<close>

definition getClusterResource :: "('w, 's) cluster_env \<Rightarrow> string \<Rightarrow> string \<Rightarrow> ('w, clusterResource answer list) state" where
  "getClusterResource env cluster nodeLabelSelector =
     (case Kubernetes (cv_Mgr env) cluster of
        None \<Rightarrow> State_Monad.return [Fail (ClusterNotFoundError cluster)]
      | Some cli \<Rightarrow>
          (case az_Parse (cv_Authz env) nodeLabelSelector of
             Inl e \<Rightarrow> State_Monad.return [Fail (ParamsInvalid e)]
           | Inr selector \<Rightarrow> do {
               r \<leftarrow> cx_Nodes cli selector;
               let (answers, nodes) = (case r of Inl e \<Rightarrow> ([Fail (CustomReturn StatusBadRequest e)], []) | Inr nodes \<Rightarrow> ([], nodes));
               let capacity = (\<lambda>name. fold (\<lambda>v q. q + res_of (nd_Capacity v) name) nodes ZeroQ);
               a \<leftarrow> getAssignedResource env cli cluster;
               State_Monad.return (answers @ [case a of
                 Inl e \<Rightarrow> Fail (CustomReturn StatusBadRequest e)
               | Inr (assignedCpu, assignedMem, assignedGpu) \<Rightarrow> Success
                   \<lparr>rs_capacityCpu = capacity ''cpu'', rs_assignedCpu = assignedCpu, rs_capacityMem = capacity ''memory'',
                    rs_assignedMem = assignedMem, rs_capacityGpu = capacity GpuNvidia, rs_assignedGpu = assignedGpu\<rparr>])
             }))"

record respBody =
  sn_Namespace :: string
  sn_Cluster :: string
  sn_ClusterName :: string
  sn_Project :: string
  sn_Tenant :: string
  sn_NamespaceBody :: NamespaceItem

definition listAllHncNsFunc :: "('w, 's) cluster_env \<Rightarrow> ('w, 's) cluster_client \<Rightarrow> ('w, NamespaceItem list result) state" where
  "listAllHncNsFunc env cli =
     (case az_Parse (cv_Authz env) HncTenantLabel of
        Inl e \<Rightarrow> State_Monad.return (Inl e)
      | Inr labelSelector \<Rightarrow> cx_ListNs cli (Some labelSelector))"

fun listHncNsByTenantsFunc :: "('w, 's) cluster_env \<Rightarrow> string list \<Rightarrow> NamespaceItem list \<Rightarrow> ('w, 's) cluster_client \<Rightarrow> ('w, NamespaceItem list result) state" where
  "listHncNsByTenantsFunc env [] nsList cli = State_Monad.return (Inr nsList)"
| "listHncNsByTenantsFunc env (tenant # tenantList) nsList cli =
     (case az_Parse (cv_Authz env) (HncTenantLabel @ ''='' @ tenant) of
        Inl e \<Rightarrow> State_Monad.return (Inl e)
      | Inr labelSelector \<Rightarrow> do {
          r \<leftarrow> cx_ListNs cli (Some labelSelector);
          case r of
            Inl e \<Rightarrow> State_Monad.return (Inl e)
          | Inr tempNsList \<Rightarrow> listHncNsByTenantsFunc env tenantList (nsList @ tempNsList) cli
        })"

fun subns_items :: "User \<Rightarrow> string \<Rightarrow> ('w, 's) cluster_client FuzzyCluster \<Rightarrow> NamespaceItem list \<Rightarrow> respBody list \<Rightarrow> respBody list" where
  "subns_items user fuzzyName cluster [] items = items"
| "subns_items user fuzzyName cluster (ns # nss) items =
     (case (gm_get (me_Labels ns) HncProjectLabel, gm_get (me_Labels ns) HncTenantLabel, ni_DeletionTimestamp ns) of
        (Some project, Some tenant, None) \<Rightarrow>
          if label (me_Labels ns) (ProjectNsPrefix @ project @ HncSuffix) \<noteq> HncProjectDepth then subns_items user fuzzyName cluster nss items
          else if fuzzyName \<noteq> [] \<and> \<not> Contains (me_Name ns) fuzzyName then subns_items user fuzzyName cluster nss items
          else if \<not> UserBelongsToTenant user tenant \<and> \<not> UserBelongsToProject user project then subns_items user fuzzyName cluster nss items
          else let clusterName = label (clu_Annotations (fc_RawCluster cluster)) CubeCnAnnotation;
                   clusterName = (if length clusterName = 0 then fc_Name cluster else clusterName)
               in subns_items user fuzzyName cluster nss
                    (items @ [\<lparr>sn_Namespace = me_Name ns, sn_Cluster = fc_Name cluster, sn_ClusterName = clusterName,
                       sn_Project = project, sn_Tenant = tenant, sn_NamespaceBody = ns\<rparr>])
      | _ \<Rightarrow> subns_items user fuzzyName cluster nss items)"

fun subns_clusters :: "(('w, 's) cluster_client \<Rightarrow> ('w, NamespaceItem list result) state) \<Rightarrow> User \<Rightarrow> string \<Rightarrow>
     ('w, 's) cluster_client FuzzyCluster list \<Rightarrow> respBody list \<Rightarrow> ('w, respBody list result) state" where
  "subns_clusters listFunc user fuzzyName [] items = State_Monad.return (Inr items)"
| "subns_clusters listFunc user fuzzyName (cluster # clusters) items = do {
     r \<leftarrow> listFunc (fc_Client cluster);
     case r of
       Inl e \<Rightarrow> State_Monad.return (Inl e)
     | Inr nsList \<Rightarrow> subns_clusters listFunc user fuzzyName clusters (subns_items user fuzzyName cluster nsList items)
   }"

text \<open>The user asked about comes with the query; without one it is the user who asks.\<close>

definition getSubNamespaces :: "('w, 's) cluster_env \<Rightarrow> string \<Rightarrow> string \<Rightarrow> string \<Rightarrow> string \<Rightarrow> ('w, respBody list answer go) state" where
  "getSubNamespaces env asker userName fuzzyName tenantArray =
     (let tenantList = (if length tenantArray = 0 then [] else Split tenantArray ''|'')
      in case FuzzyCopy (cv_Mgr env) of
           Panic \<Rightarrow> State_Monad.return Panic
         | Ret clusters \<Rightarrow> do {
             r \<leftarrow> cl_get (az_CacheUsers (cv_Authz env)) ([], if length userName = 0 then asker else userName);
             case r of
               Inl e \<Rightarrow> State_Monad.return (Ret (Fail (CustomReturn StatusBadRequest e)))
             | Inr user \<Rightarrow> do {
                 let listFunc = (if length tenantList > 0 then listHncNsByTenantsFunc env tenantList [] else listAllHncNsFunc env);
                 r \<leftarrow> subns_clusters listFunc user fuzzyName (map snd clusters) [];
                 State_Monad.return (Ret (case r of
                   Inl e \<Rightarrow> Fail (CustomReturn StatusBadRequest e)
                 | Inr items \<Rightarrow> Success (sort_key (\<lambda>i. - ni_CreationTimestamp (sn_NamespaceBody i)) items)))
               }
           })"

subsection \<open>Definitions: quotas of the tenants\<close>

record cubeResourceQuotaData =
  qd_ClusterName :: string
  qd_ClusterIdentity :: string
  qd_Tenant :: string
  qd_TenantName :: string
  qd_CubeResourceQuota :: "CubeResourceQuota option"
  qd_ExclusiveNodeHard :: "(string \<times> resource_list) list"
  qd_ClusterState :: "ClusterState option"

definition getVisibleTenants :: "('w, 's) cluster_env \<Rightarrow> string \<Rightarrow> string list \<Rightarrow> ('w, (string list \<times> TenantItem list) result) state" where
  "getVisibleTenants env userName tenants = do {
     r \<leftarrow> GetVisibleTenants (cv_Authz env) userName;
     State_Monad.return (case r of
       Inl e \<Rightarrow> Inl e
     | Inr visibleTenants \<Rightarrow>
         let visibleTenantsSet = remdups (map tn_Name visibleTenants)
         in if length tenants = 0 then Inr (visibleTenantsSet, visibleTenants)
            else if \<not> set tenants \<subseteq> set visibleTenantsSet
            then Inl (Err (''query tenants is not visible for user '' @ userName))
            else Inr (remdups tenants, filter (\<lambda>t. tn_Name t \<in> set tenants) visibleTenants))
   }"

definition getExclusiveNodeHard :: "('w, 's) cluster_env \<Rightarrow> ('w, 's) cluster_client \<Rightarrow> string \<Rightarrow> ('w, (string \<times> resource_list) list result) state" where
  "getExclusiveNodeHard env cli tenant =
     (case az_Parse (cv_Authz env) (LabelNodeTenant @ ''='' @ tenant) of
        Inl e \<Rightarrow> State_Monad.return (Inl e)
      | Inr ls \<Rightarrow> do {
          r \<leftarrow> cx_Nodes cli ls;
          State_Monad.return (case r of
            Inl e \<Rightarrow> Inl e
          | Inr nodeList \<Rightarrow> Inr (fold (\<lambda>v ex. AList.update (nd_Name v) (nd_Capacity v) ex) nodeList []))
        })"

text \<open>Of the metadata that \<open>TrimObjectMeta\<close> clears, the finalizers are the part that the record of a quota has.\<close>

definition TrimObjectMeta :: "CubeResourceQuota \<Rightarrow> CubeResourceQuota" where
  "TrimObjectMeta obj = obj\<lparr>cq_Finalizers := []\<rparr>"

definition quota_map :: "CubeResourceQuota list \<Rightarrow> (string \<times> CubeResourceQuota) list" where
  "quota_map items = fold (\<lambda>v m. AList.update (cq_Name v) (TrimObjectMeta v) m) items []"

definition cluster_map :: "Cluster list \<Rightarrow> (string \<times> string \<times> ClusterState option) list" where
  "cluster_map items = fold (\<lambda>v m. AList.update (clu_Name v) (label (clu_Annotations v) CubeCnAnnotation, cs_State (clu_Status v)) m) items []"

definition quota_data :: "(string \<times> CubeResourceQuota) list \<Rightarrow> (string \<times> string \<times> ClusterState option) list \<Rightarrow> TenantItem \<Rightarrow> string \<Rightarrow>
     (string \<times> resource_list) list \<Rightarrow> cubeResourceQuotaData" where
  "quota_data quotaMap clusterMap tenant cluster exclusive =
     \<lparr>qd_ClusterName = (case map_of clusterMap cluster of
          Some (cnName, state) \<Rightarrow> if length cnName > 0 then cnName else cluster | None \<Rightarrow> cluster),
      qd_ClusterIdentity = cluster, qd_Tenant = tn_Name tenant, qd_TenantName = ti_DisplayName tenant,
      qd_CubeResourceQuota = map_of quotaMap (Join [cluster, tn_Name tenant] ''.''),
      qd_ExclusiveNodeHard = exclusive,
      qd_ClusterState = (case map_of clusterMap cluster of Some (cnName, state) \<Rightarrow> state | None \<Rightarrow> None)\<rparr>"

text \<open>The two nested loops over tenants and clusters are one loop over the pairs.\<close>

fun quota_loop :: "('w, 's) cluster_env \<Rightarrow> (string \<times> CubeResourceQuota) list \<Rightarrow> (string \<times> string \<times> ClusterState option) list \<Rightarrow>
     (TenantItem \<times> string) list \<Rightarrow> cubeResourceQuotaData list \<Rightarrow> ('w, cubeResourceQuotaData list result) state" where
  "quota_loop env quotaMap clusterMap [] res = State_Monad.return (Inr res)"
| "quota_loop env quotaMap clusterMap ((tenant, cluster) # pairs) res =
     (case Kubernetes (cv_Mgr env) cluster of
        None \<Rightarrow> State_Monad.return (Inl (Err (''cluster '' @ cluster @ '' not found'')))
      | Some clusterCli \<Rightarrow> do {
          r \<leftarrow> getExclusiveNodeHard env clusterCli (tn_Name tenant);
          case r of
            Inl e \<Rightarrow> State_Monad.return (Inl e)
          | Inr exclusive \<Rightarrow> quota_loop env quotaMap clusterMap pairs (res @ [quota_data quotaMap clusterMap tenant cluster exclusive])
        })"

definition listCubeResourceQuota :: "('w, 's) cluster_env \<Rightarrow> string list \<Rightarrow> TenantItem list \<Rightarrow> string list \<Rightarrow> ('w, cubeResourceQuotaData list result) state" where
  "listCubeResourceQuota env tenants tenantsCr clusters =
     (case cv_Requirements env [(ClusterLabel, clusters), (TenantLabel, tenants)] of
        Inl e \<Rightarrow> State_Monad.return (Inl e)
      | Inr ls \<Rightarrow> do {
          r \<leftarrow> cv_CacheQuotas env ls;
          case r of
            Inl e \<Rightarrow> State_Monad.return (Inl e)
          | Inr list \<Rightarrow> do {
              r \<leftarrow> cv_CacheListClusters env;
              case r of
                Inl e \<Rightarrow> State_Monad.return (Inl e)
              | Inr clusterList \<Rightarrow>
                  quota_loop env (quota_map list) (cluster_map clusterList)
                    (concat (map (\<lambda>tenant. map (Pair tenant) clusters) tenantsCr)) []
            }
        })"

fun split_unset :: "cubeResourceQuotaData list \<Rightarrow>
     cubeResourceQuotaData list \<times> cubeResourceQuotaData list \<times> cubeResourceQuotaData list \<Rightarrow>
     cubeResourceQuotaData list \<times> cubeResourceQuotaData list \<times> cubeResourceQuotaData list" where
  "split_unset [] acc = acc"
| "split_unset (v # qs) (res, oneUnsetted, bothUnsetted) =
     (if length (qd_ExclusiveNodeHard v) = 0 \<and> qd_CubeResourceQuota v = None then split_unset qs (res, oneUnsetted, bothUnsetted @ [v])
      else if length (qd_ExclusiveNodeHard v) = 0 \<or> qd_CubeResourceQuota v = None then split_unset qs (res, oneUnsetted @ [v], bothUnsetted)
      else split_unset qs (res @ [v], oneUnsetted, bothUnsetted))"

definition sortCubeResourceQuotas :: "cubeResourceQuotaData list \<Rightarrow> cubeResourceQuotaData list" where
  "sortCubeResourceQuotas qs =
     (let qs = sort_key (\<lambda>q. qd_Tenant q @ qd_ClusterName q) qs; (res, oneUnsetted, bothUnsetted) = split_unset qs ([], [], [])
      in (res @ oneUnsetted) @ bothUnsetted)"

definition getCubeResourceQuota_api :: "('w, 's) cluster_env \<Rightarrow> string \<Rightarrow> string \<Rightarrow> string \<Rightarrow> string \<Rightarrow> ('w, cubeResourceQuotaData list answer) state" where
  "getCubeResourceQuota_api env asker ts cs userName =
     (let tenants = (if length ts = 0 then [] else Split ts '';'');
          clusters = (if length cs = 0 then ListClustersNameByType (cv_Mgr env) AllClusterT else Split cs '';'')
      in do {
        r \<leftarrow> getVisibleTenants env (if length userName = 0 then asker else userName) tenants;
        case r of
          Inl e \<Rightarrow> State_Monad.return (Fail (CustomReturn StatusBadRequest e))
        | Inr (visibleTenants, visibleTenantsCr) \<Rightarrow> do {
            r \<leftarrow> listCubeResourceQuota env visibleTenants visibleTenantsCr clusters;
            State_Monad.return (case r of
              Inl e \<Rightarrow> Fail (CustomReturn StatusBadRequest e)
            | Inr res \<Rightarrow> Success (sortCubeResourceQuotas res))
          }
      })"

subsection \<open>Definitions: handlers that write\<close>

text \<open>\<open>base64.StdEncoding.DecodeString\<close>: line ends are skipped, padding only ends the last group of four.\<close>

definition b64_digit :: "char \<Rightarrow> nat option" where
  "b64_digit c =
     (let n = (of_char c :: nat)
      in if 65 \<le> n \<and> n \<le> 90 then Some (n - 65)
         else if 97 \<le> n \<and> n \<le> 122 then Some (n - 71)
         else if 48 \<le> n \<and> n \<le> 57 then Some (n + 4)
         else if c = CHR ''+'' then Some 62 else if c = CHR ''/'' then Some 63 else None)"

fun b64_groups :: "string \<Rightarrow> string option" where
  "b64_groups [] = Some []"
| "b64_groups (a # b # c # d # rest) =
     (case (b64_digit a, b64_digit b) of
        (Some x, Some y) \<Rightarrow>
          let byte1 = char_of (x * 4 + y div 16)
          in if c = CHR ''='' then (if d = CHR ''='' \<and> rest = [] then Some [byte1] else None)
             else (case b64_digit c of
                None \<Rightarrow> None
              | Some z \<Rightarrow>
                  let byte2 = char_of (y mod 16 * 16 + z div 4)
                  in if d = CHR ''='' then (if rest = [] then Some [byte1, byte2] else None)
                     else (case (b64_digit d, b64_groups rest) of
                        (Some u, Some l) \<Rightarrow> Some (byte1 # byte2 # char_of (z mod 4 * 64 + u) # l)
                      | _ \<Rightarrow> None))
      | _ \<Rightarrow> None)"
| "b64_groups _ = None"

definition DecodeString :: "string \<Rightarrow> string result" where
  "DecodeString s =
     (case b64_groups (filter (\<lambda>c. c \<noteq> CHR 0x0A \<and> c \<noteq> CHR 0x0D) s) of
        None \<Rightarrow> Inl (Err ''illegal base64 data'')
      | Some l \<Rightarrow> Inr l)"

record scriptData =
  sd_ClusterName :: string
  sd_KubeConfig :: string
  sd_K8sEndpoint :: string
  sd_NetworkType :: string
  sd_Description :: string
  sd_HarborAddr :: string

definition created :: "err option \<Rightarrow> unit answer" where
  "created e = (case e of
     None \<Rightarrow> Success ()
   | Some er \<Rightarrow> if er = AlreadyExists then Success () else Fail (CustomReturn StatusBadRequest er))"

definition new_cluster :: "scriptData \<Rightarrow> string \<Rightarrow> string \<Rightarrow> Cluster" where
  "new_cluster d kubeConfig host =
     \<lparr>clu_Name = sd_ClusterName d, clu_KubeConfig = kubeConfig, clu_KubernetesAPIEndpoint = host, clu_IsMemberCluster = True,
      clu_Description = (if length (sd_Description d) = 0 then ''this is member cluster'' else sd_Description d),
      clu_HarborAddr = sd_HarborAddr d,
      clu_NetworkType = (if length (sd_NetworkType d) = 0 then ''calico'' else sd_NetworkType d),
      clu_IngressDomainSuffix = [], clu_IsWritable = False, clu_Labels = None, clu_Annotations = None,
      clu_CreationTimestamp = 0, clu_Finalizers = [], clu_DeletionTimestamp = None,
      clu_Status = \<lparr>cs_State = None, cs_Reason = [], cs_LastHeartbeat = None\<rparr>\<rparr>"

text \<open>
  \<open>load\<close> reads the host out of a kubeconfig; \<open>allowed\<close> is the answer of \<open>AllowAccess\<close> for creating the
  cluster. The endpoint of the request gets a default and is not used further.
\<close>

definition addCluster :: "('w, 's) cluster_env \<Rightarrow> (string \<Rightarrow> string result) \<Rightarrow> (Cluster \<Rightarrow> bool) \<Rightarrow> scriptData result \<Rightarrow> ('w, unit answer) state" where
  "addCluster env load allowed body =
     (case body of
        Inl e \<Rightarrow> State_Monad.return (Fail (CustomReturn StatusBadRequest e))
      | Inr d \<Rightarrow>
          (case DecodeString (sd_KubeConfig d) of
             Inl e \<Rightarrow> State_Monad.return (Fail (CustomReturn StatusBadRequest e))
           | Inr kubeConfig \<Rightarrow>
               (case load kubeConfig of
                  Inl e \<Rightarrow> State_Monad.return (Fail (CustomReturn StatusBadRequest e))
                | Inr host \<Rightarrow>
                    let cluster = new_cluster d kubeConfig host
                    in if \<not> allowed cluster then State_Monad.return (Fail ForbiddenErr)
                       else do {
                         e \<leftarrow> cl_create (cv_DirectClusters env) cluster;
                         State_Monad.return (created e)
                       })))"

definition registerCluster :: "('w, 's) cluster_env \<Rightarrow> Cluster result \<Rightarrow> ('w, unit answer) state" where
  "registerCluster env body =
     (case body of
        Inl e \<Rightarrow> State_Monad.return (Fail (CustomReturn StatusBadRequest e))
      | Inr cluster \<Rightarrow> do {
          e \<leftarrow> cl_create (cv_DirectClusters env) cluster;
          State_Monad.return (created e)
        })"

record SubnamespaceAnchor =
  sa_Name :: string
  sa_Namespace :: string
  sa_Labels :: labels

definition make_map :: "('k \<times> 'v) list \<Rightarrow> ('k \<times> 'v) list" where
  "make_map l = fold (\<lambda>(k, v). AList.update k v) l []"

text \<open>A nil anchor panics; one without labels gives a nil namespace.\<close>

definition SubNs2Ns :: "SubnamespaceAnchor option \<Rightarrow> NamespaceItem option go" where
  "SubNs2Ns anchor =
     (case anchor of
        None \<Rightarrow> Panic
      | Some subNs \<Rightarrow>
          if sa_Labels subNs = None then Ret None
          else let tenant = label (sa_Labels subNs) TenantLabel; project = label (sa_Labels subNs) ProjectLabel
               in Ret (Some
                 \<lparr>me_Name = sa_Name subNs,
                  me_Labels = Some (make_map
                    [(HncIncludedNsLabel, ''true''),
                     (ProjectNsPrefix @ project @ HncSuffix, HncProjectDepth),
                     (TenantNsPrefix @ tenant @ HncSuffix, HncTenantDepth),
                     (sa_Name subNs @ HncSuffix, HncCurrentDepth),
                     (HncProjectLabel, project), (HncTenantLabel, tenant)]),
                  nm_Annotations = Some [(HncAnnotation, sa_Namespace subNs)],
                  ni_CreationTimestamp = 0, ni_DeletionTimestamp = None\<rparr>))"

record nsAndQuota =
  nq_Cluster :: string
  nq_SubNamespaceAnchor :: "SubnamespaceAnchor option"
  nq_ResourceQuota :: "ResourceQuota option"

definition retryCount :: nat where "retryCount = 20"

fun platform_seen :: "(ClusterRole \<Rightarrow> labels) \<Rightarrow> ClusterRole list \<Rightarrow> bool \<Rightarrow> bool" where
  "platform_seen lab [] toWait = toWait"
| "platform_seen lab (r # rs) toWait =
     platform_seen lab rs (if gm_get (lab r) RoleLabel = Some ''platform'' then False else toWait)"

text \<open>The error of the list that failed, if one did; after \<open>retryCount\<close> empty lists the handler goes on.\<close>

fun wait_rbac :: "('w, 's) cluster_client \<Rightarrow> string \<Rightarrow> nat \<Rightarrow> ('w, err option) state" where
  "wait_rbac cli ns 0 = State_Monad.return None"
| "wait_rbac cli ns (Suc n) = do {
     r \<leftarrow> cx_RoleBindings cli ns;
     case r of
       Inl e \<Rightarrow> State_Monad.return (Some e)
     | Inr items \<Rightarrow> if length items > 0 then State_Monad.return None else wait_rbac cli ns n
   }"

definition rollback :: "('w, 's) cluster_client \<Rightarrow> NamespaceItem \<Rightarrow> err \<Rightarrow> ('w, unit answer go) state" where
  "rollback cli ns er = do {
     _ \<leftarrow> cl_delete (cx_Namespaces cli) ns;
     State_Monad.return (Ret (Fail (CustomReturn StatusBadRequest er)))
   }"

text \<open>
  The client of an unknown or abnormal cluster is nil, and using it panics; so does the creation of a
  quota that the body leaves out.
\<close>

definition createNsAndQuota :: "('w, 's) cluster_env \<Rightarrow> string \<Rightarrow> nsAndQuota result \<Rightarrow> ('w, unit answer go) state" where
  "createNsAndQuota env username body =
     (case body of
        Inl e \<Rightarrow> State_Monad.return (Ret (Fail (CustomReturn StatusBadRequest e)))
      | Inr data \<Rightarrow>
          (case SubNs2Ns (nq_SubNamespaceAnchor data) of
             Panic \<Rightarrow> State_Monad.return Panic
           | Ret None \<Rightarrow> State_Monad.return (Ret (Fail InvalidBodyFormat))
           | Ret (Some ns) \<Rightarrow>
               (case Kubernetes (cv_Mgr env) (nq_Cluster data) of
                  None \<Rightarrow> State_Monad.return Panic
                | Some cli \<Rightarrow> do {
                    e \<leftarrow> cl_create (cx_Namespaces cli) ns;
                    case e of
                      Some er \<Rightarrow> State_Monad.return (Ret (Fail (errinfo.BadRequest er)))
                    | None \<Rightarrow>
                        (case RolesFor (az_Rbac (cv_Authz env)) username [] of
                           (roles, clusterRoles, errs) \<Rightarrow>
                             if errs \<noteq> [] then rollback cli ns (hd errs)
                             else do {
                               w \<leftarrow> (if platform_seen (cv_RoleLabels env) clusterRoles True
                                    then wait_rbac cli (me_Name ns) retryCount else State_Monad.return None);
                               case w of
                                 Some er \<Rightarrow> rollback cli ns er
                               | None \<Rightarrow>
                                   (case nq_ResourceQuota data of
                                      None \<Rightarrow> State_Monad.return Panic
                                    | Some q \<Rightarrow> do {
                                        e \<leftarrow> cl_create (cx_ResourceQuotas cli) q;
                                        case e of
                                          Some er \<Rightarrow> rollback cli ns er
                                        | None \<Rightarrow> State_Monad.return (Ret (Success ()))
                                      })
                             })
                  })))"

subsection \<open>Stable sorting by class and key\<close>

text \<open>
  The handlers sort a list, cut it into classes and put the classes one after the other. This is one
  stable sort by the pair of class and key.
\<close>

lemma sort_key_split:
  assumes "\<And>x y. x \<in> set xs \<Longrightarrow> y \<in> set xs \<Longrightarrow> P x \<Longrightarrow> \<not> P y \<Longrightarrow> f x < f y"
  shows "sort_key f xs = sort_key f (filter P xs) @ sort_key f (filter (\<lambda>x. \<not> P x) xs)"
proof (rule properties_for_sort_key)
  show "mset (sort_key f (filter P xs) @ sort_key f (filter (\<lambda>x. \<not> P x) xs)) = mset xs" by simp
  show "filter (\<lambda>x. f k = f x) (sort_key f (filter P xs) @ sort_key f (filter (\<lambda>x. \<not> P x) xs)) = filter (\<lambda>x. f k = f x) xs"
    if "k \<in> set (sort_key f (filter P xs) @ sort_key f (filter (\<lambda>x. \<not> P x) xs))" for k
  proof -
    have stable: "filter (\<lambda>x. f k = f x) (sort_key f l) = filter (\<lambda>x. f k = f x) l" for l
      using sort_key_stable [of f "f k" l] by (simp add: eq_commute)
    from that have k: "k \<in> set xs" by auto
    have "f k = f x \<Longrightarrow> P x = P k" if "x \<in> set xs" for x
      using assms [of x k] assms [of k x] k that by (cases "P x"; cases "P k") auto
    then have "filter (\<lambda>x. f k = f x) xs = filter (\<lambda>x. f k = f x \<and> P x = P k) xs" by (auto intro: filter_cong)
    moreover have "filter (\<lambda>x. f k = f x \<and> P x \<noteq> P k) xs = []"
      using \<open>\<And>x. x \<in> set xs \<Longrightarrow> f k = f x \<Longrightarrow> P x = P k\<close> by (auto simp: filter_empty_conv)
    ultimately show ?thesis by (cases "P k") (simp_all add: stable conj_commute)
  qed
  show "sorted (map f (sort_key f (filter P xs) @ sort_key f (filter (\<lambda>x. \<not> P x) xs)))"
    using assms by (auto simp: sorted_append intro: less_imp_le)
qed

lemma sort_key_same_class:
  assumes "\<And>x. x \<in> set xs \<Longrightarrow> c x = k"
  shows "sort_key (\<lambda>x. (c x, g x)) xs = sort_key g xs"
proof (rule properties_for_sort_key)
  show "filter (\<lambda>x. (c y, g y) = (c x, g x)) (sort_key g xs) = filter (\<lambda>x. (c y, g y) = (c x, g x)) xs" if "y \<in> set (sort_key g xs)" for y
  proof -
    have "filter (\<lambda>x. (c y, g y) = (c x, g x)) l = filter (\<lambda>x. g x = g y) l" if "set l \<subseteq> set xs" for l
      using that assms \<open>y \<in> set (sort_key g xs)\<close> by (intro filter_cong) auto
    from this [of xs] this [of "sort_key g xs"] show ?thesis by (simp add: sort_key_stable)
  qed
  have "sorted (map (\<lambda>x. (k, g x)) (sort_key g xs))" 
    using sorted_sort_key [of g xs] by (simp add: sorted_map less_eq_prod_simp)
  moreover have "map (\<lambda>x. (c x, g x)) (sort_key g xs) = map (\<lambda>x. (k, g x)) (sort_key g xs)" using assms by auto
  ultimately show "sorted (map (\<lambda>x. (c x, g x)) (sort_key g xs))" by metis
qed simp

definition unset_class :: "cubeResourceQuotaData \<Rightarrow> nat" where
  "unset_class v = of_bool (qd_ExclusiveNodeHard v = []) + of_bool (qd_CubeResourceQuota v = None)"

lemma split_unset_eq:
  "split_unset qs (r, one, both) =
     (r @ filter (\<lambda>v. unset_class v = 0) qs, one @ filter (\<lambda>v. unset_class v = 1) qs, both @ filter (\<lambda>v. unset_class v = 2) qs)"
  by (induction qs arbitrary: r one both) (auto simp: unset_class_def)

text \<open>
  C37: the order of the quotas shown to a user. The answer is one stable sort of all quotas: first
  those where both a quota is set and the tenant has nodes of its own, then those with one of the two, then
  those with none, and within each of these by the tenant and the cluster.
\<close>

theorem sortCubeResourceQuotas_stable:
  "sortCubeResourceQuotas qs = sort_key (\<lambda>v. (unset_class v, qd_Tenant v @ qd_ClusterName v)) qs"
proof -
  let ?g = "\<lambda>v. qd_Tenant v @ qd_ClusterName v" and ?f = "\<lambda>v. (unset_class v, qd_Tenant v @ qd_ClusterName v)"
  let ?part = "\<lambda>i. filter (\<lambda>v. unset_class v = i) qs"
  have le: "unset_class v \<le> 2" for v by (simp add: unset_class_def)
  have "sort_key ?f qs = sort_key ?f (?part 0) @ sort_key ?f (filter (\<lambda>v. unset_class v \<noteq> 0) qs)"
    by (rule sort_key_split) (simp add: less_prod_def)
  also have "sort_key ?f (filter (\<lambda>v. unset_class v \<noteq> 0) qs) =
      sort_key ?f (filter (\<lambda>v. unset_class v = 1) (filter (\<lambda>v. unset_class v \<noteq> 0) qs)) @
      sort_key ?f (filter (\<lambda>v. \<not> unset_class v = 1) (filter (\<lambda>v. unset_class v \<noteq> 0) qs))"
    by (rule sort_key_split) (simp add: less_prod_def)
  also have "filter (\<lambda>v. unset_class v = 1) (filter (\<lambda>v. unset_class v \<noteq> 0) qs) = ?part 1" by (auto intro: filter_cong)
  also have "filter (\<lambda>v. \<not> unset_class v = 1) (filter (\<lambda>v. unset_class v \<noteq> 0) qs) = ?part 2"
    unfolding filter_filter
  proof (rule filter_cong)
    show "(unset_class v \<noteq> 0 \<and> unset_class v \<noteq> 1) = (unset_class v = 2)" for v using le [of v] by linarith
  qed simp
  finally have "sort_key ?f qs = sort_key ?f (?part 0) @ sort_key ?f (?part 1) @ sort_key ?f (?part 2)" .
  moreover have "sort_key ?f (?part i) = sort_key ?g (?part i)" for i by (rule sort_key_same_class) simp
  ultimately show ?thesis by (simp only: sortCubeResourceQuotas_def Let_def split_unset_eq filter_sort prod.case append_Nil append_assoc)
qed

subsection \<open>What a pod asks for\<close>

definition proper_resources :: "resource_list \<Rightarrow> bool" where
  "proper_resources l \<longleftrightarrow> distinct (map fst (gm_entries l)) \<and> (\<forall>(k, q) \<in> set (gm_entries l). 0 \<le> q)"

definition proper_pod :: "Pod \<Rightarrow> bool" where
  "proper_pod pod \<longleftrightarrow> proper_resources (pd_Overhead pod) \<and>
     (\<forall>c \<in> set (pd_Containers pod) \<union> set (pd_InitContainers pod). proper_resources (ct_Requests c) \<and> proper_resources (ct_Limits c))"

lemma res_of_simps [simp]:
  "res_of None k = 0"
  "res_of (Some []) k = 0"
  "res_of (Some ((n, q) # l)) k = (if k = n then q else res_of (Some l) k)"
  "res_of (Some (AList.update n q l)) k = (if k = n then q else res_of (Some l) k)"
  by (auto simp: res_of_def update_conv')

lemma res_of_entries: "res_of l k = res_of (Some (gm_entries l)) k"
  by (cases l) (simp_all add: gm_entries_def)

lemma res_of_map_of: "map_of l n = Some v \<Longrightarrow> res_of (Some l) n = v" "map_of l n = None \<Longrightarrow> res_of (Some l) n = 0"
  by (simp_all add: res_of_def)

lemma res_of_notin: "k \<notin> fst ` set l \<Longrightarrow> res_of (Some l) k = 0"
  by (simp add: res_of_def map_of_eq_None_iff [THEN iffD2])

lemma res_of_nonneg: "proper_resources l \<Longrightarrow> 0 \<le> res_of l k"
  by (cases "gm_get l k") (auto simp: proper_resources_def res_of_def gm_entries_def gm_get_def split: option.splits dest!: map_of_SomeD)

lemma res_of_add: "distinct (map fst new) \<Longrightarrow> res_of (Some (addResourceList l new)) k = res_of (Some l) k + res_of (Some new) k"
  by (induction l new rule: addResourceList.induct) (auto simp: res_of_notin res_of_map_of split: option.splits)

lemma res_of_max:
  assumes "distinct (map fst new)" and "\<forall>(n, q) \<in> set new. 0 \<le> q" and "\<And>k. 0 \<le> res_of (Some l) k"
  shows "res_of (Some (maxResourceList l new)) k = max (res_of (Some l) k) (res_of (Some new) k)"
  using assms
proof (induction l new rule: maxResourceList.induct)
  case (2 l n q new)
  define l' where "l' = (case map_of l n of None \<Rightarrow> AList.update n q l | Some v \<Rightarrow> if Cmp q v > 0 then AList.update n q l else l)"
  have l': "res_of (Some l') k = (if k = n then max (res_of (Some l) n) q else res_of (Some l) k)" for k
    using 2(3) by (auto simp: l'_def Cmp_def res_of_map_of split: option.splits)
  have "0 \<le> res_of (Some l') k" for k using 2(4) [of k] 2(4) [of n] by (simp add: l' le_max_iff_disj)
  with 2(2,3) have "res_of (Some (maxResourceList l' new)) k = max (res_of (Some l') k) (res_of (Some new) k)"
    by (intro 2(1) [folded l'_def]) auto
  moreover have "k = n \<Longrightarrow> res_of (Some new) k = 0" using 2(2) by (simp add: res_of_notin)
  moreover have "maxResourceList l ((n, q) # new) = maxResourceList l' new" by (simp add: l'_def)
  ultimately show ?case using 2(3) 2(4) [of n] by (simp add: l')
qed (simp add: max_absorb1)

lemma res_of_overhead:
  "distinct (map fst new) \<Longrightarrow>
   res_of (Some (overhead_limits l new)) k = (if res_of (Some l) k = 0 then 0 else res_of (Some l) k + res_of (Some new) k)"
  by (induction l new rule: overhead_limits.induct) (auto simp: res_of_notin res_of_map_of split: option.splits)

lemma res_of_add_proper: "proper_resources m \<Longrightarrow> res_of (Some (addResourceList l (gm_entries m))) k = res_of (Some l) k + res_of m k"
  by (subst (2) res_of_entries) (simp add: res_of_add proper_resources_def)

lemma res_of_max_proper:
  "proper_resources m \<Longrightarrow> (\<And>k. 0 \<le> res_of (Some l) k) \<Longrightarrow>
   res_of (Some (maxResourceList l (gm_entries m))) k = max (res_of (Some l) k) (res_of m k)"
  by (subst (2) res_of_entries) (simp add: res_of_max proper_resources_def)

lemma res_of_sums:
  assumes "\<And>c. c \<in> set cs \<Longrightarrow> proper_resources (F c)"
  shows "res_of (Some (fold (\<lambda>c l. addResourceList l (gm_entries (F c))) cs l)) k = res_of (Some l) k + sum_list (map (\<lambda>c. res_of (F c) k) cs)"
  using assms by (induction cs arbitrary: l) (auto simp: res_of_add_proper)

lemma res_of_maxs:
  assumes "\<And>c. c \<in> set cs \<Longrightarrow> proper_resources (F c)" and "\<And>k. 0 \<le> res_of (Some l) k"
  shows "res_of (Some (fold (\<lambda>c l. maxResourceList l (gm_entries (F c))) cs l)) k = Max (insert (res_of (Some l) k) ((\<lambda>c. res_of (F c) k) ` set cs))"
  using assms
proof (induction cs arbitrary: l)
  case (Cons c cs)
  let ?l = "maxResourceList l (gm_entries (F c))"
  have l: "res_of (Some ?l) k = max (res_of (Some l) k) (res_of (F c) k)" for k
    using Cons.prems by (simp add: res_of_max_proper)
  have "0 \<le> res_of (Some ?l) k" for k using Cons.prems(2) by (simp add: l le_max_iff_disj)
  with Cons.prems have "res_of (Some (fold (\<lambda>c l. maxResourceList l (gm_entries (F c))) cs ?l)) k =
      Max (insert (res_of (Some ?l) k) ((\<lambda>c. res_of (F c) k) ` set cs))"
    by (intro Cons.IH) auto
  then show ?case by (simp add: l) (cases cs; simp add: max.assoc)
qed simp

text \<open>
  What a pod counts for. For each resource, a pod counts with the sum of its containers or with
  the greatest of its init containers, whichever is more; the overhead of the pod is added to the
  requests, and to the limits that are not zero.
\<close>

definition pod_base :: "(Container \<Rightarrow> resource_list) \<Rightarrow> Pod \<Rightarrow> string \<Rightarrow> quantity" where
  "pod_base F pod k =
     Max (insert (sum_list (map (\<lambda>c. res_of (F c) k) (pd_Containers pod))) ((\<lambda>c. res_of (F c) k) ` set (pd_InitContainers pod)))"

lemma pod_base_run:
  assumes "\<And>c. c \<in> set (pd_Containers pod) \<union> set (pd_InitContainers pod) \<Longrightarrow> proper_resources (F c)"
  shows "res_of (Some (fold (\<lambda>c l. maxResourceList l (gm_entries (F c))) (pd_InitContainers pod)
           (fold (\<lambda>c l. addResourceList l (gm_entries (F c))) (pd_Containers pod) []))) k = pod_base F pod k"
proof -
  have sum: "res_of (Some (fold (\<lambda>c l. addResourceList l (gm_entries (F c))) (pd_Containers pod) [])) k = sum_list (map (\<lambda>c. res_of (F c) k) (pd_Containers pod))" for k
    using assms by (simp add: res_of_sums)
  have "0 \<le> sum_list (map (\<lambda>c. res_of (F c) k) (pd_Containers pod))" for k
    by (rule sum_list_nonneg) (auto intro: res_of_nonneg assms)
  with sum assms show ?thesis by (simp add: res_of_maxs pod_base_def)
qed

lemma podRequestsAndLimits_exact:
  assumes "proper_pod pod" and "podRequestsAndLimits pod = (reqs, limits)"
  shows "res_of (Some reqs) k = pod_base ct_Requests pod k + res_of (pd_Overhead pod) k"
    and "res_of (Some limits) k = (let base = pod_base ct_Limits pod k in if base = 0 then 0 else base + res_of (pd_Overhead pod) k)"
proof -
  have R: "\<And>c. c \<in> set (pd_Containers pod) \<union> set (pd_InitContainers pod) \<Longrightarrow> proper_resources (ct_Requests c)"
    and L: "\<And>c. c \<in> set (pd_Containers pod) \<union> set (pd_InitContainers pod) \<Longrightarrow> proper_resources (ct_Limits c)"
    and d: "distinct (map fst (gm_entries (pd_Overhead pod)))"
    using assms(1) by (auto simp: proper_pod_def proper_resources_def)
  show "res_of (Some reqs) k = pod_base ct_Requests pod k + res_of (pd_Overhead pod) k"
    using assms(2) d pod_base_run [OF R, where k = k]
    by (auto simp: podRequestsAndLimits_def Let_def gm_entries_def res_of_add split: option.splits)
  show "res_of (Some limits) k = (let base = pod_base ct_Limits pod k in if base = 0 then 0 else base + res_of (pd_Overhead pod) k)"
    using assms(2) d pod_base_run [OF L, where k = k]
    by (auto simp: podRequestsAndLimits_def Let_def gm_entries_def res_of_overhead split: option.splits)
qed

subsection \<open>The list of clusters\<close>

definition shown_info :: "('w, 's) cluster_client MultiClustersMgr \<Rightarrow> Cluster \<Rightarrow> clusterInfo" where
  "shown_info m item =
     (let info = clusterMetaInfo.extend (makeMetadataInfo item) \<lparr>in_Livedata = no_livedata\<rparr>
      in case Get_mgr m (clu_Name item) of (Some c, None) \<Rightarrow> info | _ \<Rightarrow> info\<lparr>mi_Status := ClusterAbnormal\<rparr>)"

text \<open>The whole list as one stable sort: pivot clusters before member clusters, the newest first.\<close>

definition cluster_order :: "('w, 's) cluster_client MultiClustersMgr \<Rightarrow> string \<Rightarrow> Cluster list \<Rightarrow> clusterInfo list" where
  "cluster_order m statusFilter clusters =
     sort_key (\<lambda>i. (mi_IsMemberCluster i, - mi_CreateTime i))
       (filter (\<lambda>i. statusFilter = [] \<or> mi_Status i = statusFilter) (map (shown_info m) clusters))"

lemma shown_info_simps [simp]:
  "mi_IsMemberCluster (shown_info m item) = clu_IsMemberCluster item"
  "mi_ClusterName (shown_info m item) = clu_Name item"
  "in_Livedata (shown_info m item) = no_livedata"
  by (auto simp: shown_info_def makeMetadataInfo_def clusterMetaInfo.defs Let_def split: option.splits prod.splits)

lemma infos_loop_eq:
  "infos_loop m f items (infos, members) =
     (let l = filter (\<lambda>i. f = [] \<or> mi_Status i = f) (map (shown_info m) items)
      in (infos @ filter (\<lambda>i. \<not> mi_IsMemberCluster i) l, members @ filter mi_IsMemberCluster l))"
proof (induction items arbitrary: infos members)
  case (Cons item items)
  have step: "infos_loop m f (item # items) (infos, members) =
    (if f = [] \<or> mi_Status (shown_info m item) = f
     then if clu_IsMemberCluster item then infos_loop m f items (infos, members @ [shown_info m item])
          else infos_loop m f items (infos @ [shown_info m item], members)
     else infos_loop m f items (infos, members))"
    by (simp add: shown_info_def Let_def)
  show ?case unfolding step Cons.IH by (simp add: Let_def)
qed simp

lemma infos_loop_sorted:
  assumes "infos_loop m f clusters ([], []) = (infos, members)"
  shows "sort_key (\<lambda>i. - mi_CreateTime i) infos @ sort_key (\<lambda>i. - mi_CreateTime i) members = cluster_order m f clusters"
proof -
  define l where "l = filter (\<lambda>i. f = [] \<or> mi_Status i = f) (map (shown_info m) clusters)"
  let ?g = "\<lambda>i. - mi_CreateTime i"
  have "sort_key (\<lambda>i. (mi_IsMemberCluster i, ?g i)) l =
      sort_key (\<lambda>i. (mi_IsMemberCluster i, ?g i)) (filter (\<lambda>i. \<not> mi_IsMemberCluster i) l) @
      sort_key (\<lambda>i. (mi_IsMemberCluster i, ?g i)) (filter (\<lambda>i. \<not> \<not> mi_IsMemberCluster i) l)"
    by (rule sort_key_split) (simp add: less_prod_simp)
  moreover have "sort_key (\<lambda>i. (mi_IsMemberCluster i, ?g i)) (filter (\<lambda>i. \<not> mi_IsMemberCluster i) l) = sort_key ?g (filter (\<lambda>i. \<not> mi_IsMemberCluster i) l)"
    by (rule sort_key_same_class [where k = False]) simp
  moreover have "sort_key (\<lambda>i. (mi_IsMemberCluster i, ?g i)) (filter mi_IsMemberCluster l) = sort_key ?g (filter mi_IsMemberCluster l)"
    by (rule sort_key_same_class [where k = True]) simp
  ultimately show ?thesis using assms by (simp add: infos_loop_eq Let_def cluster_order_def flip: l_def)
qed

lemma paginate_page:
  assumes "0 < pn" and "0 < ps" and "pn * ps < 2 ^ 63"
  shows "paginateClusterInfos infos pn ps = Ret (take (nat ps) (drop (nat ((pn - 1) * ps)) infos))"
proof -
  have b: "pn \<le> pn * ps" using assms by simp
  have n: "0 \<le> (pn - 1) * ps" using assms by simp
  have e: "pn * ps = (pn - 1) * ps + ps" by (simp add: algebra_simps)
  have "- (2 ^ 63) \<le> pn - 1" "pn - 1 < 2 ^ 63" "- (2 ^ 63) \<le> (pn - 1) * ps" "(pn - 1) * ps < 2 ^ 63" "- (2 ^ 63) \<le> pn * ps"
    using assms b n e by linarith+
  then have w: "wrap64 (pn - 1) = pn - 1" "wrap64 ((pn - 1) * ps) = (pn - 1) * ps" "wrap64 (pn * ps) = pn * ps"
    using assms(3) by (auto intro: wrap64_id)
  show ?thesis
  proof (cases "int (length infos) < pn * ps")
    case True
    have "nat (int (length infos) - (pn - 1) * ps) = length infos - nat ((pn - 1) * ps)" using n by linarith
    moreover have "length (drop (nat ((pn - 1) * ps)) infos) \<le> nat ps" using True n assms(2) e by (simp add: nat_le_iff)
    ultimately show ?thesis using True n by (auto simp: paginateClusterInfos_def w Let_def)
  next
    case False
    with n e assms(2) show ?thesis unfolding paginateClusterInfos_def w Let_def by auto
  qed
qed

text \<open>The product of page and size is not checked: a query can make the start of the slice negative.\<close>

lemma paginate_overflow: "paginateClusterInfos infos (2 ^ 62) 4 = Panic"
  by (simp add: paginateClusterInfos_def wrap64_def)

lemma livedata_loop_run:
  "\<exists>l w'. run_state (livedata_loop m sel infos) w = (l, w') \<and>
     map (\<lambda>i. i\<lparr>in_Livedata := no_livedata\<rparr>) l = map (\<lambda>i. i\<lparr>in_Livedata := no_livedata\<rparr>) infos"
proof (induction infos arbitrary: w)
  case (Cons info infos)
  let ?one = "if mi_Status info = ClusterAbnormal then State_Monad.return info
     else case Get_mgr m (mi_ClusterName info) of
         (Some c, None) \<Rightarrow> State_Monad.bind (makeLivedataInfo (ic_Client c) sel)
           (\<lambda>r. State_Monad.return (case r of Inl e \<Rightarrow> info | Inr livedata \<Rightarrow> info\<lparr>in_Livedata := livedata\<rparr>))
       | _ \<Rightarrow> State_Monad.return info"
  obtain i w1 where one: "run_state ?one w = (i, w1)" by fastforce
  then have "i\<lparr>in_Livedata := no_livedata\<rparr> = info\<lparr>in_Livedata := no_livedata\<rparr>"
    by (auto split: if_splits prod.splits option.splits sum.splits)
  moreover obtain l w' where "run_state (livedata_loop m sel infos) w1 = (l, w')"
    "map (\<lambda>i. i\<lparr>in_Livedata := no_livedata\<rparr>) l = map (\<lambda>i. i\<lparr>in_Livedata := no_livedata\<rparr>) infos"
    using Cons.IH by blast
  ultimately show ?case using one by simp
qed simp

text \<open>
  A page of clusters. When page and size are positive and their product stays below the bound of a
  64-bit integer, the list of clusters is answered and is that page of one stable sort of the clusters with the wanted
  status: the pivot clusters first, then the newest first. Only the live data of the clusters on the
  page may be filled in besides.
\<close>

lemma makeClusterInfos_page:
  assumes "0 < io_pageNum opts" and "0 < io_pageSize opts" and "io_pageNum opts * io_pageSize opts < 2 ^ 63"
  shows "\<exists>infos w'. run_state (makeClusterInfos m clusters opts) w = (Ret infos, w') \<and>
    map (\<lambda>i. i\<lparr>in_Livedata := no_livedata\<rparr>) infos =
      take (nat (io_pageSize opts)) (drop (nat ((io_pageNum opts - 1) * io_pageSize opts)) (cluster_order m (io_statusFilter opts) clusters))"
proof -
  let ?page = "take (nat (io_pageSize opts)) (drop (nat ((io_pageNum opts - 1) * io_pageSize opts)) (cluster_order m (io_statusFilter opts) clusters))"
  obtain infos members where l: "infos_loop m (io_statusFilter opts) clusters ([], []) = (infos, members)" by fastforce
  have bare: "map (\<lambda>i. i\<lparr>in_Livedata := no_livedata\<rparr>) ?page = ?page"
  proof (rule map_idI)
    fix i
    assume "i \<in> set ?page"
    then have "i \<in> set (cluster_order m (io_statusFilter opts) clusters)" by (meson in_set_dropD in_set_takeD)
    then show "i\<lparr>in_Livedata := no_livedata\<rparr> = i" by (auto simp: cluster_order_def intro: clusterInfo.equality)
  qed
  obtain live w' where "run_state (livedata_loop m (io_nodeLabelSelector opts) ?page) w = (live, w')"
    "map (\<lambda>i. i\<lparr>in_Livedata := no_livedata\<rparr>) live = ?page"
    using livedata_loop_run [of m "io_nodeLabelSelector opts" ?page w] bare by auto
  with l assms bare show ?thesis
    by (simp add: makeClusterInfos_def infos_loop_sorted paginate_page Let_def)
qed

text \<open>What every shown cluster is like, whatever the clusters answer.\<close>

definition int64 :: "int \<Rightarrow> bool" where
  "int64 x \<longleftrightarrow> - (2 ^ 63) \<le> x \<and> x < 2 ^ 63"

definition int64_livedata :: "clusterLivedataInfo \<Rightarrow> bool" where
  "int64_livedata info \<longleftrightarrow> 0 \<le> lv_NodeCount info \<and> 0 \<le> lv_NamespaceCount info \<and>
     list_all (\<lambda>f. int64 (f info))
       [lv_UsedCPU, lv_TotalCPU, lv_UsedMem, lv_TotalMem, lv_TotalStorage, lv_UsedStorage, lv_TotalStorageEphemeral,
        lv_UsedStorageEphemeral, lv_TotalGpu, lv_UsedGpu, lv_UsedCPURequest, lv_UsedCPULimit, lv_UsedMemRequest, lv_UsedMemLimit]"

definition healthy :: "('w, 's) cluster_client MultiClustersMgr \<Rightarrow> string \<Rightarrow> bool" where
  "healthy m name \<longleftrightarrow> (\<exists>c. Get_mgr m name = (Some c, None))"

definition proper_info :: "('w, 's) cluster_client MultiClustersMgr \<Rightarrow> clusterInfo \<Rightarrow> bool" where
  "proper_info m i \<longleftrightarrow> gm_has (mi_Annotations i) CubeCnAnnotation \<and> int64_livedata (in_Livedata i) \<and>
     (healthy m (mi_ClusterName i) \<or> mi_Status i = ClusterAbnormal) \<and>
     (mi_Status i = ClusterAbnormal \<longrightarrow> in_Livedata i = no_livedata)"

lemma int64_wrap64 [simp]: "int64 (wrap64 x)" "int64 0"
  using wrap64_range by (auto simp: int64_def)

lemma usage_int64: "int64_livedata info \<Longrightarrow> int64_livedata (usage_loop ms info)"
  by (induction ms arbitrary: info) (auto simp: int64_livedata_def)

lemma capacity_int64: "int64_livedata info \<Longrightarrow> int64_livedata (capacity_loop ns info)"
  by (induction ns arbitrary: info) (auto simp: int64_livedata_def)

lemma pods_int64: "int64_livedata info \<Longrightarrow> int64_livedata (pods_loop names pods info)"
  by (induction pods arbitrary: info) (auto simp: int64_livedata_def split: prod.splits)

lemma no_livedata_int64: "int64_livedata no_livedata"
  by (simp add: int64_livedata_def no_livedata_def)

lemma makeLivedataInfo_int64:
  assumes "run_state (makeLivedataInfo cli sel) w = (Inr live, w')"
  shows "int64_livedata live"
proof -
  have counts: "int64_livedata (i\<lparr>lv_NodeCount := int n\<rparr>)" "int64_livedata (i\<lparr>lv_NamespaceCount := int n\<rparr>)" if "int64_livedata i" for i n
    using that by (auto simp: int64_livedata_def)
  from assms show ?thesis
    by (auto simp: makeLivedataInfo_def Let_def intro!: pods_int64 capacity_int64 usage_int64 no_livedata_int64 counts split: prod.splits sum.splits)
qed

lemma shown_info_proper: "proper_info m (shown_info m item)"
  by (auto simp: proper_info_def healthy_def shown_info_def makeMetadataInfo_def clusterMetaInfo.defs no_livedata_int64 gm_has_def
      update_conv' Let_def split: option.splits prod.splits)

lemma livedata_loop_proper:
  assumes "run_state (livedata_loop m sel infos) w = (l, w')" and "list_all (proper_info m) infos"
  shows "list_all (proper_info m) l"
  using assms
proof (induction infos arbitrary: w l)
  case (Cons info infos)
  from Cons.prems(1) obtain i w1 l1 where l: "l = i # l1" "run_state (livedata_loop m sel infos) w1 = (l1, w')"
    and i: "i = info \<or> mi_Status info \<noteq> ClusterAbnormal \<and> (\<exists>cli live w2. run_state (makeLivedataInfo cli sel) w = (Inr live, w2) \<and> i = info\<lparr>in_Livedata := live\<rparr>)"
    by (fastforce split: if_splits prod.splits option.splits sum.splits)
  have "proper_info m i" using i Cons.prems(2) makeLivedataInfo_int64 by (auto simp: proper_info_def)
  with l Cons.IH Cons.prems(2) show ?case by auto
qed simp

lemma paginate_subset: "paginateClusterInfos infos pn ps = Ret page \<Longrightarrow> set page \<subseteq> set infos"
  by (auto simp: paginateClusterInfos_def Let_def split: if_splits dest!: in_set_takeD in_set_dropD)


subsection \<open>A namespace and its quota\<close>

record nsq_view =
  nv_nss :: "objkey \<Rightarrow> NamespaceItem option"
  nv_quotas :: "objkey \<Rightarrow> ResourceQuota option"

definition item_key :: "NamespaceItem \<Rightarrow> objkey" where
  "item_key ns = ([], me_Name ns)"

definition rquota_key :: "ResourceQuota \<Rightarrow> objkey" where
  "rquota_key q = (rq_Namespace q, rq_Name q)"

text \<open>The deletion of a namespace takes the quotas in it along.\<close>

definition drop_ns :: "string \<Rightarrow> nsq_view \<Rightarrow> nsq_view" where
  "drop_ns n v = v\<lparr>nv_nss := (nv_nss v)(([], n) := None), nv_quotas := (\<lambda>k. if fst k = n then None else nv_quotas v k)\<rparr>"

definition nsq_world :: "('w, 's) cluster_client \<Rightarrow> ('w \<Rightarrow> nsq_view) \<Rightarrow> bool" where
  "nsq_world cli view \<longleftrightarrow>
     inserts (cx_Namespaces cli) item_key view nv_nss nv_quotas \<and>
     inserts (cx_ResourceQuotas cli) rquota_key view nv_quotas nv_nss \<and>
     (\<forall>w x e w'. run_state (cl_delete (cx_Namespaces cli) x) w = (e, w') \<longrightarrow>
        view w' = (if e = None then drop_ns (me_Name x) (view w) else view w)) \<and>
     (\<forall>ns. keeps_view (cx_RoleBindings cli ns) view)"

text \<open>A quota lives in a namespace that exists; and deletions that always succeed.\<close>

definition housed :: "nsq_view \<Rightarrow> bool" where
  "housed v \<longleftrightarrow> (\<forall>n k. nv_nss v ([], n) = None \<longrightarrow> nv_quotas v (n, k) = None)"

definition dependable :: "('w, 's) cluster_client \<Rightarrow> bool" where
  "dependable cli \<longleftrightarrow> (\<forall>x w. fst (run_state (cl_delete (cx_Namespaces cli) x) w) = None)"

definition with_ns :: "NamespaceItem \<Rightarrow> nsq_view \<Rightarrow> nsq_view" where
  "with_ns ns v = v\<lparr>nv_nss := (nv_nss v)(item_key ns \<mapsto> ns)\<rparr>"

lemma drop_with_ns:
  assumes "housed v" and "nv_nss v (item_key ns) = None"
  shows "drop_ns (me_Name ns) (with_ns ns v) = v"
  using assms by (auto simp: drop_ns_def with_ns_def item_key_def housed_def fun_eq_iff intro!: nsq_view.equality)

lemma wait_rbac_keeps:
  assumes "nsq_world cli view" and "run_state (wait_rbac cli ns n) w = (e, w')"
  shows "view w' = view w"
  using assms(2)
proof (induction n arbitrary: w)
  case (Suc n)
  obtain r w1 where r: "run_state (cx_RoleBindings cli ns) w = (r, w1)" by fastforce
  then have "view w1 = view w" using assms(1) by (auto simp: nsq_world_def intro: keeps_viewD)
  then show ?case using Suc.prems r Suc.IH [of w1] by (auto split: sum.splits if_splits)
qed simp

lemma rollback_run:
  assumes "nsq_world cli view" and "run_state (rollback cli ns er) w = (r, w')" and "view w = with_ns ns v" and "housed v" and "nv_nss v (item_key ns) = None"
  shows "\<exists>e. r = Ret (Fail e)" and "view w' = v \<or> view w' = with_ns ns v \<and> \<not> dependable cli"
proof -
  obtain e w1 where d: "run_state (cl_delete (cx_Namespaces cli) ns) w = (e, w1)" by fastforce
  with assms(2) show "\<exists>e. r = Ret (Fail e)" by (auto simp: rollback_def)
  from d assms(2) have "w' = w1" by (simp add: rollback_def)
  moreover have "view w1 = (if e = None then drop_ns (me_Name ns) (view w) else view w)" using assms(1) d unfolding nsq_world_def by blast
  moreover have "e \<noteq> None \<Longrightarrow> \<not> dependable cli" using d unfolding dependable_def by (metis fst_conv)
  ultimately show "view w' = v \<or> view w' = with_ns ns v \<and> \<not> dependable cli"
    using drop_with_ns [OF assms(4,5)] assms(3) by (cases e) auto
qed

lemma created_ns:
  assumes "nsq_world cli view" and "run_state (cl_create (cx_Namespaces cli) ns) w = (None, w')"
  shows "view w' = with_ns ns (view w)" and "nv_nss (view w) (item_key ns) = None"
  using assms inserts_run [of "cx_Namespaces cli" item_key view nv_nss nv_quotas ns w None w']
  by (auto simp: nsq_world_def with_ns_def intro: nsq_view.equality)

lemma created_quota:
  assumes "nsq_world cli view" and "run_state (cl_create (cx_ResourceQuotas cli) q) w = (e, w')"
  shows "e = None \<Longrightarrow> view w' = (view w)\<lparr>nv_quotas := (nv_quotas (view w))(rquota_key q \<mapsto> q)\<rparr>" and "e \<noteq> None \<Longrightarrow> view w' = view w"
  using assms inserts_run [of "cx_ResourceQuotas cli" rquota_key view nv_quotas nv_nss q w e w']
  by (auto simp: nsq_world_def intro: nsq_view.equality)

text \<open>What is left to do once the namespace is there.\<close>

definition finish_quota :: "('w, 's) cluster_env \<Rightarrow> string \<Rightarrow> ('w, 's) cluster_client \<Rightarrow> NamespaceItem \<Rightarrow> ResourceQuota option \<Rightarrow> ('w, unit answer go) state" where
  "finish_quota env username cli ns quota =
     (case RolesFor (az_Rbac (cv_Authz env)) username [] of
        (roles, clusterRoles, errs) \<Rightarrow>
          if errs \<noteq> [] then rollback cli ns (hd errs)
          else do {
            w \<leftarrow> (if platform_seen (cv_RoleLabels env) clusterRoles True
                 then wait_rbac cli (me_Name ns) retryCount else State_Monad.return None);
            case w of
              Some er \<Rightarrow> rollback cli ns er
            | None \<Rightarrow>
                (case quota of
                   None \<Rightarrow> State_Monad.return Panic
                 | Some q \<Rightarrow> do {
                     e \<leftarrow> cl_create (cx_ResourceQuotas cli) q;
                     case e of Some er \<Rightarrow> rollback cli ns er | None \<Rightarrow> State_Monad.return (Ret (Success ()))
                   })
          })"

lemma finish_quota_run:
  assumes W: "nsq_world cli view" and "run_state (finish_quota env u cli ns quota) w = (r, w')"
    and v: "view w = with_ns ns v" "housed v" "nv_nss v (item_key ns) = None"
  shows "case r of
      Ret (Success _) \<Rightarrow> (\<exists>q. quota = Some q \<and> view w' = (with_ns ns v)\<lparr>nv_quotas := (nv_quotas v)(rquota_key q \<mapsto> q)\<rparr>)
    | Ret (Fail _) \<Rightarrow> view w' = v \<or> view w' = with_ns ns v \<and> \<not> dependable cli
    | Panic \<Rightarrow> quota = None \<and> view w' = with_ns ns v"
proof -
  obtain roles crs errs where R: "RolesFor (az_Rbac (cv_Authz env)) u [] = (roles, crs, errs)" by (cases "RolesFor (az_Rbac (cv_Authz env)) u []") auto
  let ?wait = "if platform_seen (cv_RoleLabels env) crs True then wait_rbac cli (me_Name ns) retryCount else State_Monad.return None"
  obtain e w1 where e: "run_state ?wait w = (e, w1)" by fastforce
  have v1: "view w1 = with_ns ns v" using e wait_rbac_keeps [OF W] v(1) by (auto split: if_splits)
  note undo = rollback_run [OF W _ _ v(2,3)]
  show ?thesis
  proof (cases "errs \<noteq> [] \<or> e \<noteq> None")
    case True
    have "\<exists>er w0. run_state (rollback cli ns er) w0 = (r, w') \<and> view w0 = with_ns ns v"
    proof (cases errs)
      case Nil
      with True obtain er where "e = Some er" by auto
      with Nil assms(2) R e have "run_state (rollback cli ns er) w1 = (r, w')" by (simp add: finish_quota_def)
      with v1 show ?thesis by blast
    next
      case (Cons er errs')
      with assms(2) R have "run_state (rollback cli ns er) w = (r, w')" by (simp add: finish_quota_def)
      with v(1) show ?thesis by blast
    qed
    then show ?thesis using undo by fastforce
  next
    case False
    then have run: "run_state (case quota of None \<Rightarrow> State_Monad.return Panic
        | Some q \<Rightarrow> State_Monad.bind (cl_create (cx_ResourceQuotas cli) q)
            (\<lambda>e. case e of Some er \<Rightarrow> rollback cli ns er | None \<Rightarrow> State_Monad.return (Ret (Success ())))) w1 = (r, w')"
      using assms(2) R e by (simp add: finish_quota_def)
    show ?thesis
    proof (cases quota)
      case None
      with run v1 show ?thesis by auto
    next
      case (Some q)
      obtain e2 w2 where q: "run_state (cl_create (cx_ResourceQuotas cli) q) w1 = (e2, w2)" by fastforce
      note Q = created_quota [OF W q]
      show ?thesis
      proof (cases e2)
        case None
        with run q Some Q(1) v1 show ?thesis by (auto simp: with_ns_def)
      next
        case e2: (Some er)
        with run q Some have "run_state (rollback cli ns er) w2 = (r, w')" by simp
        with undo [of er w2 r w'] Q(2) v1 e2 show ?thesis by auto
      qed
    qed
  qed
qed


subsection \<open>The namespaces a user sees\<close>

definition subns_visible :: "User \<Rightarrow> string \<Rightarrow> NamespaceItem \<Rightarrow> bool" where
  "subns_visible user fuzzyName ns \<longleftrightarrow>
     (\<exists>project tenant. gm_get (me_Labels ns) HncProjectLabel = Some project \<and> gm_get (me_Labels ns) HncTenantLabel = Some tenant \<and>
        ni_DeletionTimestamp ns = None \<and> label (me_Labels ns) (ProjectNsPrefix @ project @ HncSuffix) = HncProjectDepth \<and>
        (fuzzyName = [] \<or> Contains (me_Name ns) fuzzyName) \<and> (UserBelongsToTenant user tenant \<or> UserBelongsToProject user project))"

definition subns_item :: "('w, 's) cluster_client FuzzyCluster \<Rightarrow> NamespaceItem \<Rightarrow> respBody" where
  "subns_item cluster ns =
     (let cn = label (clu_Annotations (fc_RawCluster cluster)) CubeCnAnnotation
      in \<lparr>sn_Namespace = me_Name ns, sn_Cluster = fc_Name cluster, sn_ClusterName = (if cn = [] then fc_Name cluster else cn),
          sn_Project = label (me_Labels ns) HncProjectLabel, sn_Tenant = label (me_Labels ns) HncTenantLabel, sn_NamespaceBody = ns\<rparr>)"

lemma subns_items_step:
  "subns_items user f cluster (ns # nss) items =
     subns_items user f cluster nss (if subns_visible user f ns then items @ [subns_item cluster ns] else items)"
  by (auto simp: subns_visible_def subns_item_def label_def Let_def split: option.splits)

lemma subns_items_eq:
  "subns_items user f cluster nss items = items @ map (subns_item cluster) (filter (subns_visible user f) nss)"
proof (induction nss arbitrary: items)
  case (Cons ns nss)
  show ?case unfolding subns_items_step Cons.IH by simp
qed simp

text \<open>
  What the caches of the clusters and the parser of selectors do: \<open>matches\<close> says which labels a selector
  takes. The equality test is relied on for values without characters that have a meaning in a selector.
\<close>

definition plain_value :: "string \<Rightarrow> bool" where
  "plain_value v \<longleftrightarrow> v \<noteq> [] \<and> list_all (\<lambda>c. dns_alnum c \<or> c = CHR ''-'' \<or> c = CHR ''.'') v"

definition hnc_world :: "('w, 's) cluster_env \<Rightarrow> (string \<times> ('w, 's) cluster_client FuzzyCluster) list \<Rightarrow> ('s \<Rightarrow> labels \<Rightarrow> bool) \<Rightarrow> ('w \<Rightarrow> string \<Rightarrow> NamespaceItem set) \<Rightarrow> bool" where
  "hnc_world env clusters matches view \<longleftrightarrow>
     (\<forall>sel l. az_Parse (cv_Authz env) HncTenantLabel = Inr sel \<longrightarrow> matches sel l = gm_has l HncTenantLabel) \<and>
     (\<forall>v sel l. plain_value v \<and> az_Parse (cv_Authz env) (HncTenantLabel @ ''='' @ v) = Inr sel \<longrightarrow> matches sel l = (gm_get l HncTenantLabel = Some v)) \<and>
     (\<forall>n fc sel w r w'. (n, fc) \<in> set clusters \<and> run_state (cx_ListNs (fc_Client fc) (Some sel)) w = (r, w') \<longrightarrow>
        view w' = view w \<and> (\<forall>xs. r = Inr xs \<longrightarrow> set xs = {ns \<in> view w n. matches sel (me_Labels ns)}))"

lemma hnc_worldD:
  assumes "hnc_world env clusters matches view" and "(n, fc) \<in> set clusters" and "run_state (cx_ListNs (fc_Client fc) (Some sel)) w = (r, w')"
  shows "view w' = view w" and "r = Inr xs \<Longrightarrow> set xs = {ns \<in> view w n. matches sel (me_Labels ns)}"
  using assms unfolding hnc_world_def by blast+

definition lists_tenants :: "(('w, 's) cluster_client \<Rightarrow> ('w, NamespaceItem list result) state) \<Rightarrow> (string \<times> ('w, 's) cluster_client FuzzyCluster) list \<Rightarrow>
     ('w \<Rightarrow> string \<Rightarrow> NamespaceItem set) \<Rightarrow> (string \<Rightarrow> bool) \<Rightarrow> bool" where
  "lists_tenants f clusters view ok \<longleftrightarrow>
     (\<forall>n fc w r w'. (n, fc) \<in> set clusters \<and> run_state (f (fc_Client fc)) w = (r, w') \<longrightarrow>
        view w' = view w \<and> (\<forall>xs. r = Inr xs \<longrightarrow> set xs = {ns \<in> view w n. \<exists>t. gm_get (me_Labels ns) HncTenantLabel = Some t \<and> ok t}))"

lemma listAll_lists:
  assumes "hnc_world env clusters matches view"
  shows "lists_tenants (listAllHncNsFunc env) clusters view (\<lambda>t. True)"
  unfolding lists_tenants_def
proof (intro allI impI, elim conjE)
  fix n fc w r w'
  assume c: "(n, fc) \<in> set clusters" and r: "run_state (listAllHncNsFunc env (fc_Client fc)) w = (r, w')"
  show "view w' = view w \<and> (\<forall>xs. r = Inr xs \<longrightarrow> set xs = {ns \<in> view w n. \<exists>t. gm_get (me_Labels ns) HncTenantLabel = Some t \<and> True})"
  proof (cases "az_Parse (cv_Authz env) HncTenantLabel")
    case (Inr sel)
    then have "matches sel l = gm_has l HncTenantLabel" for l using assms unfolding hnc_world_def by blast
    with Inr r hnc_worldD [OF assms c] show ?thesis by (auto simp: listAllHncNsFunc_def gm_has_def)
  qed (use r in \<open>auto simp: listAllHncNsFunc_def\<close>)
qed

lemma listByTenants_run:
  assumes W: "hnc_world env clusters matches view" and "(n, fc) \<in> set clusters" and "list_all plain_value ts"
    and "run_state (listHncNsByTenantsFunc env ts acc (fc_Client fc)) w = (r, w')"
  shows "view w' = view w \<and> (\<forall>xs. r = Inr xs \<longrightarrow> set xs = set acc \<union> {ns \<in> view w n. \<exists>t \<in> set ts. gm_get (me_Labels ns) HncTenantLabel = Some t})"
  using assms(3,4)
proof (induction ts arbitrary: acc w)
  case (Cons t ts)
  show ?case
  proof (cases "az_Parse (cv_Authz env) (HncTenantLabel @ ''='' @ t)")
    case (Inr sel)
    then have m: "matches sel l = (gm_get l HncTenantLabel = Some t)" for l using W Cons.prems(1) unfolding hnc_world_def by simp
    obtain r1 w1 where l: "run_state (cx_ListNs (fc_Client fc) (Some sel)) w = (r1, w1)" by fastforce
    note L = hnc_worldD [OF W assms(2) l]
    show ?thesis
    proof (cases r1)
      case (Inl e)
      with Cons.prems(2) l Inr L(1) show ?thesis by auto
    next
      case ok: (Inr xs)
      with Cons.prems Inr l have "run_state (listHncNsByTenantsFunc env ts (acc @ xs) (fc_Client fc)) w1 = (r, w')" by simp
      from Cons.IH [OF _ this] Cons.prems(1) L(1) L(2) [OF ok] m show ?thesis by auto
    qed
  qed (use Cons.prems in auto)
qed auto

lemma subns_clusters_run:
  assumes "lists_tenants f clusters view ok" and "set cs \<subseteq> set clusters" and "run_state (subns_clusters f user fuzzy (map snd cs) items) w = (Inr res, w')"
  shows "set res = set items \<union> {subns_item fc ns | n fc ns. (n, fc) \<in> set cs \<and> ns \<in> view w n \<and> subns_visible user fuzzy ns \<and>
    ok (label (me_Labels ns) HncTenantLabel)}"
  using assms(2,3)
proof (induction cs arbitrary: items w)
  case (Cons c cs)
  obtain n fc where c: "c = (n, fc)" by fastforce
  obtain r w1 where r: "run_state (f (fc_Client fc)) w = (r, w1)" by fastforce
  with Cons.prems(2) c obtain xs where xs: "r = Inr xs"
    "run_state (subns_clusters f user fuzzy (map snd cs) (items @ map (subns_item fc) (filter (subns_visible user fuzzy) xs))) w1 = (Inr res, w')"
    by (cases r) (auto simp: subns_items_eq)
  have "view w1 = view w" "set xs = {ns \<in> view w n. \<exists>t. gm_get (me_Labels ns) HncTenantLabel = Some t \<and> ok t}"
    using assms(1) Cons.prems(1) c r xs(1) unfolding lists_tenants_def by auto
  moreover from this(2) have "set (filter (subns_visible user fuzzy) xs) = {ns \<in> view w n. subns_visible user fuzzy ns \<and> ok (label (me_Labels ns) HncTenantLabel)}"
    by (auto simp: subns_visible_def label_def)
  moreover have "set res = set (items @ map (subns_item fc) (filter (subns_visible user fuzzy) xs)) \<union> {subns_item fc ns | n fc ns. (n, fc) \<in> set cs \<and> ns \<in> view w1 n \<and> subns_visible user fuzzy ns \<and>
      ok (label (me_Labels ns) HncTenantLabel)}"
    using Cons.prems(1) by (intro Cons.IH [OF _ xs(2)]) simp
  ultimately show ?case unfolding c by auto
qed auto

text \<open>
  C36: which namespaces a user sees. An answer lists, over all clusters and newest first, exactly the namespaces that
  lie directly under a project, are not being deleted, carry the wanted text in their name, belong to one of the
  wanted tenants, if any are named, and whose tenant or project is among those of the user. The user may be
  any name the query gives.
\<close>

theorem getSubNamespaces_exact:
  assumes "FuzzyCopy (cv_Mgr env) = Ret clusters" and W: "hnc_world env clusters matches view"
    and user: "run_state (cl_get (az_CacheUsers (cv_Authz env)) ([], if userName = [] then asker else userName)) w = (Inr user, w1)" "view w1 = view w"
    and "tenantArray \<noteq> [] \<Longrightarrow> list_all plain_value (Split tenantArray ''|'')"
    and run: "run_state (getSubNamespaces env asker userName fuzzyName tenantArray) w = (Ret (Success items), w')"
  shows "set items = {subns_item fc ns | n fc ns. (n, fc) \<in> set clusters \<and> ns \<in> view w n \<and> subns_visible user fuzzyName ns \<and>
      (tenantArray = [] \<or> label (me_Labels ns) HncTenantLabel \<in> set (Split tenantArray ''|''))} \<and>
    sorted_wrt (\<lambda>i j. ni_CreationTimestamp (sn_NamespaceBody j) \<le> ni_CreationTimestamp (sn_NamespaceBody i)) items"
proof -
  define f where "f = (if tenantArray = [] then listAllHncNsFunc env else listHncNsByTenantsFunc env (Split tenantArray ''|'') [])"
  have "length (Split tenantArray ''|'') > 0" by simp
  with assms(1) user(1) run have "\<exists>res. run_state (subns_clusters f user fuzzyName (map snd clusters) []) w1 = (Inr res, w') \<and>
      items = sort_key (\<lambda>i. - ni_CreationTimestamp (sn_NamespaceBody i)) res"
    by (auto simp: getSubNamespaces_def f_def Let_def split: sum.splits prod.splits if_splits)
  then obtain res where res: "run_state (subns_clusters f user fuzzyName (map snd clusters) []) w1 = (Inr res, w')"
    "items = sort_key (\<lambda>i. - ni_CreationTimestamp (sn_NamespaceBody i)) res" by blast
  have "lists_tenants f clusters view (\<lambda>t. tenantArray = [] \<or> t \<in> set (Split tenantArray ''|''))"
  proof (cases "tenantArray = []")
    case True
    with listAll_lists [OF W] show ?thesis by (simp add: f_def)
  next
    case False
    with listByTenants_run [OF W _ assms(5)] show ?thesis by (fastforce simp: lists_tenants_def f_def)
  qed
  from subns_clusters_run [OF this _ res(1)] user(2)
  have "set res = {subns_item fc ns | n fc ns. (n, fc) \<in> set clusters \<and> ns \<in> view w n \<and> subns_visible user fuzzyName ns \<and>
      (tenantArray = [] \<or> label (me_Labels ns) HncTenantLabel \<in> set (Split tenantArray ''|''))}"
    by simp
  moreover have "set items = set res" using res(2) by simp
  moreover have "sorted (map (\<lambda>i. - ni_CreationTimestamp (sn_NamespaceBody i)) items)" using res(2) by simp
  ultimately show ?thesis by (simp add: sorted_map)
qed

text \<open>
  A namespace that was created for a project is among those that the users of the project see,
  unless its name is that of the namespace of the project or the tenant itself.
\<close>

lemma depth_key_neq: "x @ HncSuffix \<noteq> HncProjectLabel" "x @ HncSuffix \<noteq> HncTenantLabel"
proof -
  have "last (x @ HncSuffix) = CHR ''h''" by (simp add: HncSuffix_def)
  moreover have "last HncProjectLabel = CHR ''t''" "last HncTenantLabel = CHR ''t''" by (simp_all add: HncProjectLabel_def HncTenantLabel_def)
  ultimately show "x @ HncSuffix \<noteq> HncProjectLabel" "x @ HncSuffix \<noteq> HncTenantLabel" by auto
qed

lemma SubNs2Ns_visible:
  assumes "SubNs2Ns (Some a) = Ret (Some ns)" and "sa_Name a \<noteq> ProjectNsPrefix @ label (sa_Labels a) ProjectLabel"
    and "UserBelongsToProject user (label (sa_Labels a) ProjectLabel)"
  shows "subns_visible user [] ns"
proof -
  let ?p = "label (sa_Labels a) ProjectLabel" and ?t = "label (sa_Labels a) TenantLabel"
  have ns: "ni_DeletionTimestamp ns = None" "me_Labels ns = Some (make_map [(HncIncludedNsLabel, ''true''), (ProjectNsPrefix @ ?p @ HncSuffix, HncProjectDepth),
      (TenantNsPrefix @ ?t @ HncSuffix, HncTenantDepth), (sa_Name a @ HncSuffix, HncCurrentDepth), (HncProjectLabel, ?p), (HncTenantLabel, ?t)])"
    using assms(1) by (auto simp: SubNs2Ns_def Let_def split: if_splits)
  have get: "gm_get (me_Labels ns) k =
    (if k = HncTenantLabel then Some ?t else if k = HncProjectLabel then Some ?p else if k = sa_Name a @ HncSuffix then Some HncCurrentDepth
     else if k = TenantNsPrefix @ ?t @ HncSuffix then Some HncTenantDepth else if k = ProjectNsPrefix @ ?p @ HncSuffix then Some HncProjectDepth
     else if k = HncIncludedNsLabel then Some ''true'' else None)" for k
    by (simp add: ns(2) make_map_def update_conv')
  have "ProjectNsPrefix @ ?p @ HncSuffix \<noteq> TenantNsPrefix @ ?t @ HncSuffix" by (simp add: ProjectNsPrefix_def TenantNsPrefix_def)
  moreover have "HncProjectLabel \<noteq> HncTenantLabel" by (simp add: HncProjectLabel_def HncTenantLabel_def)
  moreover have "ProjectNsPrefix @ ?p @ HncSuffix \<noteq> sa_Name a @ HncSuffix" using assms(2) by (metis append_assoc append_same_eq)
  ultimately show ?thesis
    using assms(3) depth_key_neq [of "ProjectNsPrefix @ ?p"]
    by (simp add: subns_visible_def get ns(1) label_def [of "me_Labels ns"])
qed

subsection \<open>A small installation\<close>

record cluster_lab =
  cb_users :: "User list"
  cb_nss :: "NamespaceItem list"
  cb_quotas :: "ResourceQuota list"
  cb_clusters :: "Cluster list"

type_synonym lab_sel = "string \<times> string option"

definition lab_parse :: "string \<Rightarrow> lab_sel result" where
  "lab_parse s = (case Split s ''='' of [k] \<Rightarrow> Inr (k, None) | [k, v] \<Rightarrow> Inr (k, Some v) | _ \<Rightarrow> Inl (Err s))"

definition lab_matches :: "lab_sel \<Rightarrow> labels \<Rightarrow> bool" where
  "lab_matches sel l = (case snd sel of None \<Rightarrow> gm_has l (fst sel) | Some v \<Rightarrow> gm_get l (fst sel) = Some v)"

definition lab_nss :: "(cluster_lab, NamespaceItem) client" where
  "lab_nss = (list_client cb_nss (\<lambda>x w. w\<lparr>cb_nss := x\<rparr>) item_key)
     \<lparr>cl_delete := (\<lambda>x. State (\<lambda>w. (None, w\<lparr>cb_nss := filter (\<lambda>y. me_Name y \<noteq> me_Name x) (cb_nss w),
        cb_quotas := filter (\<lambda>q. rq_Namespace q \<noteq> me_Name x) (cb_quotas w)\<rparr>)))\<rparr>"

definition lab_client :: "(cluster_lab, lab_sel) cluster_client" where
  "lab_client = \<lparr>cx_Nodes = (\<lambda>s. State_Monad.return (Inr [])), cx_NodeMetrics = (\<lambda>s. State_Monad.return (Inr [])),
     cx_ListNs = (\<lambda>s. State (\<lambda>w. (Inr (filter (\<lambda>x. case s of None \<Rightarrow> True | Some sel \<Rightarrow> lab_matches sel (me_Labels x)) (cb_nss w)), w))),
     cx_Pods = State_Monad.return (Inr []), cx_DirectQuotas = (\<lambda>s. State_Monad.return (Inr [])),
     cx_RoleBindings = (\<lambda>n. State_Monad.return (Inr [lab_binding])), cx_Namespaces = lab_nss,
     cx_ResourceQuotas = list_client cb_quotas (\<lambda>x w. w\<lparr>cb_quotas := x\<rparr>) rquota_key\<rparr>"

definition lab_mgr :: "(cluster_lab, lab_sel) cluster_client MultiClustersMgr" where
  "lab_mgr = \<lparr>mg_Clusters = [(''m'', \<lparr>ic_Name = ''m'', ic_Type = MemberClusterT, ic_Client = lab_client, ic_Scout = None, ic_Version = [],
     ic_RawCluster = Some (member_obj ''m''), ic_StopCh = 0\<rparr>)], mg_closed = [], mg_next = 1\<rparr>"

definition cluster_authz :: "(cluster_lab, lab_sel) authz_env" where
  "cluster_authz = \<lparr>az_Rbac = empty_rbac, az_Clusters = (\<lambda>c. None), az_cmData = None, az_platformCmData = None,
     az_CacheUsers = list_client cb_users (\<lambda>x w. w\<lparr>cb_users := x\<rparr>) (\<lambda>u. ([], ur_Name u)),
     az_DirectUsers = list_client cb_users (\<lambda>x w. w\<lparr>cb_users := x\<rparr>) (\<lambda>u. ([], ur_Name u)),
     az_CacheProjects = list_client (\<lambda>w. []) (\<lambda>x w. w) (\<lambda>p. ([], [])), az_CacheRoleBindings = list_client (\<lambda>w. []) (\<lambda>x w. w) binding_key,
     az_CacheClusterRoles = list_client (\<lambda>w. []) (\<lambda>x w. w) role_key, az_DirectClusterRoles = list_client (\<lambda>w. []) (\<lambda>x w. w) role_key,
     az_ListTenants = State_Monad.return (Inr [tenant_a]), az_ListProjects = State_Monad.return (Inr [project_p]),
     az_ListClusterRoles = (\<lambda>s. State_Monad.return (Inr [])), az_DirectListClusterRoles = (\<lambda>s. State_Monad.return (Inr [])),
     az_ListRoles = (\<lambda>ns s. State_Monad.return (Inr [])), az_Parse = lab_parse\<rparr>"

definition cluster_lab :: "(cluster_lab, lab_sel) cluster_env" where
  "cluster_lab = \<lparr>cv_Mgr = lab_mgr, cv_Authz = cluster_authz,
     cv_DirectClusters = list_client cb_clusters (\<lambda>x w. w\<lparr>cb_clusters := x\<rparr>) (\<lambda>c. ([], clu_Name c)),
     cv_DirectListClusters = State (\<lambda>w. (Inr (cb_clusters w), w)), cv_CacheListClusters = State (\<lambda>w. (Inr (cb_clusters w), w)),
     cv_CacheQuotas = (\<lambda>s. State_Monad.return (Inr [])), cv_Requirements = (\<lambda>l. Inr ([], None)), cv_RoleLabels = (\<lambda>r. None)\<rparr>"

definition lab_view :: "cluster_lab \<Rightarrow> nsq_view" where
  "lab_view w = \<lparr>nv_nss = lookup_by item_key (cb_nss w), nv_quotas = lookup_by rquota_key (cb_quotas w)\<rparr>"

lemma lookup_by_other: "lookup_by key (filter (\<lambda>y. P (key y)) xs) k = (if P k then lookup_by key xs k else None)"
  by (induction xs) auto

lemma lab_nsq_world: "nsq_world lab_client lab_view"
  unfolding nsq_world_def
proof (intro conjI allI impI)
  show "inserts (cx_Namespaces lab_client) item_key lab_view nv_nss nv_quotas"
    using list_client_inserts [of nv_quotas lab_view "\<lambda>x w. w\<lparr>cb_nss := x\<rparr>" nv_nss item_key cb_nss]
    by (simp add: lab_client_def lab_nss_def inserts_def lab_view_def)
  show "inserts (cx_ResourceQuotas lab_client) rquota_key lab_view nv_quotas nv_nss"
    using list_client_inserts [of nv_nss lab_view "\<lambda>x w. w\<lparr>cb_quotas := x\<rparr>" nv_quotas rquota_key cb_quotas]
    by (simp add: lab_client_def lab_view_def)
  show "keeps_view (cx_RoleBindings lab_client ns) lab_view" for ns by (simp add: lab_client_def)
  show "lab_view w' = (if e = None then drop_ns (me_Name x) (lab_view w) else lab_view w)"
    if "run_state (cl_delete (cx_Namespaces lab_client) x) w = (e, w')" for w x e w'
  proof -
    have "lookup_by item_key (filter (\<lambda>y. me_Name y \<noteq> me_Name x) (cb_nss w)) = (lookup_by item_key (cb_nss w))(([], me_Name x) := None)"
      using lookup_by_filter [of item_key x "cb_nss w"] by (simp add: item_key_def)
    moreover have "lookup_by rquota_key (filter (\<lambda>q. rq_Namespace q \<noteq> me_Name x) (cb_quotas w)) =
        (\<lambda>k. if fst k = me_Name x then None else lookup_by rquota_key (cb_quotas w) k)"
      using lookup_by_other [of rquota_key "\<lambda>k. fst k \<noteq> me_Name x" "cb_quotas w"] by (auto simp: rquota_key_def fun_eq_iff)
    ultimately show ?thesis using that by (auto simp: lab_client_def lab_nss_def lab_view_def drop_ns_def)
  qed
qed

definition lab_anchor :: SubnamespaceAnchor where
  "lab_anchor = \<lparr>sa_Name = ''n1'', sa_Namespace = ''kubecube-project-p'', sa_Labels = Some [(TenantLabel, ''a''), (ProjectLabel, ''p'')]\<rparr>"

definition lab_quota :: ResourceQuota where
  "lab_quota = \<lparr>rq_Name = ''q'', rq_Namespace = ''n1'', rq_UID = [], rq_Labels = None, rq_Finalizers = [], rq_DeletionTimestamp = None, rq_Hard = None\<rparr>"

definition lab_request :: nsAndQuota where
  "lab_request = \<lparr>nq_Cluster = ''m'', nq_SubNamespaceAnchor = Some lab_anchor, nq_ResourceQuota = Some lab_quota\<rparr>"

definition lab_start :: cluster_lab where
  "lab_start = \<lparr>cb_users = [lab_bob], cb_nss = [], cb_quotas = [], cb_clusters = [member_obj ''m'']\<rparr>"

abbreviation lab_created :: "unit answer go \<times> cluster_lab" where
  "lab_created \<equiv> run_state (createNsAndQuota cluster_lab ''bob'' (Inr lab_request)) lab_start"

lemma lab_created_ok: "fst lab_created = Ret (Success ())"
  by code_simp

lemma lab_kubernetes: "Kubernetes (cv_Mgr cluster_lab) ''m'' = Some lab_client"
  by (simp add: Kubernetes_def GetClient_mgr_def Get_mgr_def cluster_lab_def lab_mgr_def)


definition lab_opts :: "lab_sel clusterInfoOpts" where
  "lab_opts = \<lparr>io_statusFilter = [], io_nodeLabelSelector = ([], None), io_pruneInfo = False, io_pageNum = 1, io_pageSize = 10\<rparr>"


lemma lab_fuzzy: "FuzzyCopy (cv_Mgr cluster_lab) = Ret [(''m'', \<lparr>fc_Name = ''m'', fc_Client = lab_client, fc_RawCluster = member_obj ''m''\<rparr>)]"
  by (simp add: FuzzyCopy_def cluster_lab_def lab_mgr_def LocalCluster_def)

lemma lab_hnc_world:
  "hnc_world cluster_lab [(''m'', \<lparr>fc_Name = ''m'', fc_Client = lab_client, fc_RawCluster = member_obj ''m''\<rparr>)] lab_matches (\<lambda>w n. set (cb_nss w))"
  unfolding hnc_world_def
proof (intro conjI allI impI)
  have p: "az_Parse (cv_Authz cluster_lab) = lab_parse" by (simp add: cluster_lab_def cluster_authz_def)
  show "lab_matches sel l = gm_has l HncTenantLabel" if "az_Parse (cv_Authz cluster_lab) HncTenantLabel = Inr sel" for sel l
  proof -
    have "lab_parse HncTenantLabel = Inr (HncTenantLabel, None)" by code_simp
    with that p show ?thesis by (auto simp: lab_matches_def)
  qed
  show "lab_matches sel l = (gm_get l HncTenantLabel = Some v)"
    if "plain_value v \<and> az_Parse (cv_Authz cluster_lab) (HncTenantLabel @ ''='' @ v) = Inr sel" for v sel l
  proof -
    have "CHR ''='' \<notin> set v" using that by (auto simp: plain_value_def list_all_iff dns_alnum_def)
    moreover have "CHR ''='' \<notin> set HncTenantLabel" by (simp add: HncTenantLabel_def)
    ultimately have "lab_parse (HncTenantLabel @ ''='' @ v) = Inr (HncTenantLabel, Some v)" by (simp add: lab_parse_def Split_char_two)
    with that p show ?thesis by (auto simp: lab_matches_def)
  qed
qed (auto simp: lab_client_def)

abbreviation lab_listed :: "respBody list answer go \<times> cluster_lab" where
  "lab_listed \<equiv> run_state (getSubNamespaces cluster_lab ''bob'' [] [] ''a'') (snd lab_created)"

theorem getSubNamespaces_exact_witness:
  "\<exists>items w'. lab_listed = (Ret (Success items), w') \<and> sn_Namespace ` set items = {''n1''} \<and>
     set items = {subns_item \<lparr>fc_Name = ''m'', fc_Client = lab_client, fc_RawCluster = member_obj ''m''\<rparr> ns | ns.
       ns \<in> set (cb_nss (snd lab_created)) \<and> subns_visible lab_bob [] ns \<and> label (me_Labels ns) HncTenantLabel = ''a''}"
proof -
  have "case fst lab_listed of Ret (Success items) \<Rightarrow> map sn_Namespace items = [''n1''] | _ \<Rightarrow> False" by code_simp
  then obtain items w' where run: "lab_listed = (Ret (Success items), w')" and n: "map sn_Namespace items = [''n1'']"
    by (cases lab_listed) (auto split: go.splits answer.splits)
  have u: "run_state (cl_get (az_CacheUsers (cv_Authz cluster_lab)) ([], if [] = [] then ''bob'' else [])) (snd lab_created) = (Inr lab_bob, snd lab_created)"
    by code_simp
  have s: "Split ''a'' ''|'' = [''a'']" by code_simp
  have "list_all plain_value (Split ''a'' ''|'')" unfolding s by (simp add: plain_value_def dns_alnum_def)
  from conjunct1 [OF getSubNamespaces_exact [OF lab_fuzzy lab_hnc_world u refl this run]]
  have "set items = {subns_item \<lparr>fc_Name = ''m'', fc_Client = lab_client, fc_RawCluster = member_obj ''m''\<rparr> ns | ns.
       ns \<in> set (cb_nss (snd lab_created)) \<and> subns_visible lab_bob [] ns \<and> label (me_Labels ns) HncTenantLabel = ''a''}"
    by (simp add: s)
  moreover have "sn_Namespace ` set items = {''n1''}" using n by (metis list.set(1) list.simps(15) list.set_map)
  ultimately show ?thesis using run by blast
qed

end
