(* ===== verification/AuditTrail.thy ===== *)
theory AuditTrail
  imports Authn MultiCluster
begin

section \<open>The audit trail of the API server\<close>

text \<open>
  The middlewares of \<open>pkg/apiserver/middlewares/precheck\<close> and \<open>pkg/apiserver/middlewares/audit\<close>: the check of the
  cluster a request is for, which requests are audited, the event that is made of each, and the request that
  carries it to the audit service. The handlers behind the middleware are a function on the context;
  translation and JSON are arguments. The event is made in a goroutine of its own, where nothing recovers
  a panic: a \<open>Panic\<close> of \<open>handle_audit\<close> ends the whole process.
\<close>

subsection \<open>Definitions\<close>

definition EventNameKey :: string where "EventNameKey = ''event''"
definition EventTypeUserWrite :: string where "EventTypeUserWrite = ''userwrite''"
definition EventResourceTypeKey :: string where "EventResourceTypeKey = ''resourceType''"
definition EventResourceNameKey :: string where "EventResourceNameKey = ''resourceName''"
definition EventRequestBodyKey :: string where "EventRequestBodyKey = ''requestBody''"
definition EventDescriptionKey :: string where "EventDescriptionKey = ''description''"
definition EventAccountIdKey :: string where "EventAccountIdKey = ''accountId''"
definition EventObjectNameKey :: string where "EventObjectNameKey = ''objectName''"
definition EventRespBodyKey :: string where "EventRespBodyKey = ''responseBody''"
definition UserNameKey :: string where "UserNameKey = ''userName''"
definition K8sResourceVersion :: string where "K8sResourceVersion = ''v1''"
definition K8sResourceNamespace :: string where "K8sResourceNamespace = ''namespaces''"
definition auditWhiteList :: "(string \<times> string) list" where "auditWhiteList = [(ApiPathRoot @ ''/audit'', ''POST'')]"

record AuditSvcApi =
  av_URL :: string
  av_Method :: string
  av_Header :: string
  av_AuditHeaders :: "string list"

record EventResource =
  er_ResourceType :: string
  er_ResourceId :: string
  er_ResourceName :: string

record Event =
  ev_EventTime :: int
  ev_EventVersion :: string
  ev_EventName :: string
  ev_Description :: string
  ev_SourceIpAddress :: string
  ev_UserAgent :: string
  ev_RequestId :: string
  ev_RequestMethod :: string
  ev_RequestParameters :: string
  ev_ResponseStatus :: int
  ev_ResponseElements :: string
  ev_EventType :: string
  ev_ResourceReports :: "EventResource list"
  ev_ErrorCode :: string
  ev_ErrorMessage :: string
  ev_Url :: string
  ev_UserIdentity :: "string option"
  ev_ApiAction :: string
  ev_ApiVersion :: string
  ev_EventSource :: string

record audit_parameters =
  ap_Query :: "(string \<times> string) list"
  ap_Body :: string
  ap_Headers :: http_header

text \<open>What the middleware reads of the context of a request besides what the authentication does.\<close>

record audit_ctx = gin_ctx +
  ax_RequestURI :: string
  ax_Url :: string
  ax_ClientIP :: string
  ax_Params :: "(string \<times> string) list"
  ax_RawData :: "string result"
  ax_Status :: int
  ax_Written :: string

text \<open>
  The handler: the two translators, the service that receives events and the source named in them, and the JSON
  functions, of which \<open>au_ObjectName\<close> reads the name out of an object.
\<close>

record audit_handler =
  au_EnInstance :: "string \<Rightarrow> string"
  au_EnvInstance :: "(string \<Rightarrow> string) option"
  au_Svc :: AuditSvcApi
  au_EventSource :: string
  au_Marshal :: "audit_parameters \<Rightarrow> string result"
  au_ObjectName :: "string \<Rightarrow> string result"

definition fetchCluster :: "string \<Rightarrow> string \<Rightarrow> string \<Rightarrow> string" where
  "fetchCluster param query form =
     (if length param > 0 then param else if length query > 0 then query else if length form > 0 then form else [])"

definition PreCheck :: "'c MultiClustersMgr \<Rightarrow> string \<Rightarrow> string \<Rightarrow> string \<Rightarrow> errinfo option" where
  "PreCheck m param query form =
     (let cluster = fetchCluster param query form
      in if length cluster > 0
         then (case Get_mgr m cluster of
                 (_, Some e) \<Rightarrow> Some (CustomReturn StatusBadRequest (Err (''cluster '' @ cluster @ '' unhealthy'')))
               | (_, None) \<Rightarrow> None)
         else None)"

definition isProxyApi :: "string \<Rightarrow> bool" where
  "isProxyApi requestURI = (if HasPrefix requestURI (ApiPathRoot @ ''/proxy'') then True else False)"

definition key_text :: "audit_ctx \<Rightarrow> string \<Rightarrow> string" where
  "key_text c k = (case map_of (gc_Keys c) k of None \<Rightarrow> [] | Some v \<Rightarrow> v)"

definition set_key :: "string \<Rightarrow> string \<Rightarrow> audit_ctx \<Rightarrow> audit_ctx" where
  "set_key k v c = c\<lparr>gc_Keys := AList.update k v (gc_Keys c)\<rparr>"

record EventInfo =
  ei_EventName :: string
  ei_Description :: string
  ei_ResourceType :: string

definition SetAuditInfo :: "audit_ctx \<Rightarrow> EventInfo \<Rightarrow> string \<Rightarrow> string result option \<Rightarrow> audit_ctx" where
  "SetAuditInfo c eventInfo resourceName RequestBody =
     (let c = set_key EventNameKey (ei_EventName eventInfo) c;
          c = set_key EventDescriptionKey (ei_Description eventInfo) c;
          c = set_key EventResourceTypeKey (ei_ResourceType eventInfo) c;
          c = set_key EventResourceNameKey resourceName c
      in case RequestBody of Some (Inr body) \<Rightarrow> set_key EventRequestBodyKey body c | _ \<Rightarrow> c)"

definition getPostObjectName :: "audit_handler \<Rightarrow> audit_ctx \<Rightarrow> string" where
  "getPostObjectName h c =
     (case ax_RawData c of
        Inl e \<Rightarrow> []
      | Inr data \<Rightarrow> (case au_ObjectName h data of Inl e \<Rightarrow> [] | Inr name \<Rightarrow> name))"

definition getUserIdentity :: "jwt_lib \<Rightarrow> AuthJwt \<Rightarrow> int \<Rightarrow> audit_ctx \<Rightarrow> string option" where
  "getUserIdentity lib a now c =
     (let accountId = key_text c EventAccountIdKey; userName = key_text c UserNameKey
      in if length accountId > 0 then Some accountId
         else if length userName > 0 then Some userName
         else (case GetUserFromReq lib a now (gc_Request c) of Inl e \<Rightarrow> None | Inr user \<Rightarrow> Some user))"

fun audit_headers :: "string list \<Rightarrow> http_header \<Rightarrow> http_header \<Rightarrow> http_header" where
  "audit_headers [] header headers = headers"
| "audit_headers (h # hs) header headers =
     audit_headers hs header (case map_of header h of None \<Rightarrow> headers | Some v \<Rightarrow> AList.update h v headers)"

definition ConsistParameters :: "audit_handler \<Rightarrow> audit_ctx \<Rightarrow> string option \<Rightarrow> string" where
  "ConsistParameters h c body =
     (case au_Marshal h
        \<lparr>ap_Query = fold (\<lambda>(k, v). AList.update k v) (ax_Params c) [],
         ap_Body = (case body of None \<Rightarrow> key_text c EventRequestBodyKey | Some b \<Rightarrow> b),
         ap_Headers = audit_headers (av_AuditHeaders (au_Svc h)) (hr_Header (gc_Request c)) []\<rparr> of
        Inl e \<Rightarrow> [] | Inr json \<Rightarrow> json)"

definition Translate_audit :: "audit_handler \<Rightarrow> string \<Rightarrow> string" where
  "Translate_audit h content = (case au_EnvInstance h of None \<Rightarrow> au_EnInstance h content | Some t \<Rightarrow> t content)"

text \<open>The object type and name in the segments of a path; an index beyond the end panics.\<close>

fun processUrlStr :: "string list \<Rightarrow> (string \<times> string) go" where
  "processUrlStr [] = Ret ([], [])"
| "processUrlStr (str # rest) =
     (if str = K8sResourceNamespace
      then Ret (case rest of
             [] \<Rightarrow> (K8sResourceNamespace, [])
           | [name] \<Rightarrow> (K8sResourceNamespace, name)
           | [_, objectType] \<Rightarrow> (objectType, [])
           | _ # objectType # objectName # _ \<Rightarrow> (objectType, objectName))
      else if str = K8sResourceVersion
      then (case rest of
              [] \<Rightarrow> Panic
            | objectType # rest' \<Rightarrow>
                if objectType \<noteq> K8sResourceNamespace
                then Ret (objectType, case rest' of [] \<Rightarrow> [] | objectName # _ \<Rightarrow> objectName)
                else processUrlStr rest)
      else processUrlStr rest)"

definition is_separator :: "char \<Rightarrow> bool" where
  "is_separator c \<longleftrightarrow> (let n = (of_char c :: nat) in
     \<not> (48 \<le> n \<and> n \<le> 57 \<or> 65 \<le> n \<and> n \<le> 90 \<or> 97 \<le> n \<and> n \<le> 122 \<or> n = 95))"

definition title_char :: "char \<Rightarrow> char" where
  "title_char c = (let n = (of_char c :: nat) in if 97 \<le> n \<and> n \<le> 122 then char_of (n - 32) else c)"

text \<open>\<open>strings.Title\<close> on ASCII texts.\<close>

fun title_from :: "char \<Rightarrow> string \<Rightarrow> string" where
  "title_from prev [] = []"
| "title_from prev (c # s) = (if is_separator prev then title_char c else c) # title_from c s"

definition Title :: "string \<Rightarrow> string" where
  "Title s = title_from (CHR '' '') s"

text \<open>The segments of the path behind the root of the API.\<close>

definition uri_segments :: "string \<Rightarrow> string list" where
  "uri_segments requestURI = Split (TrimPrefix (hd (Split requestURI ''?'')) ApiPathRoot) ''/''"

text \<open>\<open>objectType[:len(objectType)-1]\<close> panics for an empty type.\<close>

definition handleProxyApi :: "audit_handler \<Rightarrow> audit_ctx \<Rightarrow> Event \<Rightarrow> Event go" where
  "handleProxyApi h c e =
     (if \<not> isProxyApi (ax_RequestURI c) then Ret e
      else go_bind (processUrlStr (uri_segments (ax_RequestURI c))) (\<lambda>(objectType, objectName).
        let meth = hr_Method (gc_Request c);
            objectTypeTitle = (if length objectType > 0 then Title (butlast objectType) else []);
            e = e\<lparr>ev_EventName := au_EnInstance h meth @ objectTypeTitle,
                  ev_Description := Translate_audit h meth @ Translate_audit h objectType\<rparr>;
            objectName = (if meth = ''POST'' \<and> objectName = [] then key_text c EventObjectNameKey else objectName)
        in if objectType = [] then Panic
           else Ret (e\<lparr>ev_ResourceReports := [\<lparr>er_ResourceType = butlast objectType, er_ResourceId = [], er_ResourceName = objectName\<rparr>]\<rparr>)))"

text \<open>The event of an audited request that is sent, if it has a name.\<close>

definition handle_audit :: "audit_handler \<Rightarrow> jwt_lib \<Rightarrow> AuthJwt \<Rightarrow> int \<Rightarrow> string \<Rightarrow> audit_ctx \<Rightarrow> Event option go" where
  "handle_audit h lib a now uuid c =
     (let e = \<lparr>ev_EventTime = now, ev_EventVersion = ''V1'', ev_EventName = [], ev_Description = [], ev_SourceIpAddress = ax_ClientIP c,
               ev_UserAgent = ''HTTP'', ev_RequestId = uuid, ev_RequestMethod = hr_Method (gc_Request c),
               ev_RequestParameters = ConsistParameters h c None, ev_ResponseStatus = ax_Status c, ev_ResponseElements = ax_Written c,
               ev_EventType = EventTypeUserWrite, ev_ResourceReports = [], ev_ErrorCode = [], ev_ErrorMessage = [], ev_Url = ax_Url c,
               ev_UserIdentity = getUserIdentity lib a now c, ev_ApiAction = [], ev_ApiVersion = [], ev_EventSource = au_EventSource h\<rparr>;
          e = (case map_of (gc_Keys c) EventRespBodyKey of None \<Rightarrow> e | Some resp \<Rightarrow> e\<lparr>ev_ResponseElements := resp\<rparr>);
          e = (if ev_ResponseStatus e < 200 \<or> ev_ResponseStatus e > 299
               then e\<lparr>ev_ErrorCode := Itoa (ax_Status c), ev_ErrorMessage := ev_ResponseElements e\<rparr> else e)
      in go_bind
           (case map_of (gc_Keys c) EventNameKey of
              Some eventName \<Rightarrow> Ret (e\<lparr>ev_EventName := eventName, ev_Description := Translate_audit h eventName,
                ev_ResourceReports := [\<lparr>er_ResourceType = Translate_audit h (key_text c EventResourceTypeKey), er_ResourceId = [],
                  er_ResourceName = key_text c EventResourceNameKey\<rparr>]\<rparr>)
            | None \<Rightarrow> handleProxyApi h c e)
           (\<lambda>e. Ret (if ev_EventName e \<noteq> [] then Some e else None)))"

definition audited :: "audit_ctx \<Rightarrow> bool" where
  "audited c \<longleftrightarrow> (let p = hr_Path (gc_Request c); meth = hr_Method (gc_Request c)
     in \<not> WithinWhiteList p meth auditWhiteList \<and> \<not> WithinWhiteList p meth AuthWhiteList \<and> meth \<noteq> ''GET'')"

text \<open>\<open>next\<close> is what the later handlers do to the context. \<open>None\<close>: the request is not audited.\<close>

definition Audit_mw :: "audit_handler \<Rightarrow> jwt_lib \<Rightarrow> AuthJwt \<Rightarrow> int \<Rightarrow> string \<Rightarrow> (audit_ctx \<Rightarrow> audit_ctx) \<Rightarrow> audit_ctx \<Rightarrow> audit_ctx \<times> Event option go option" where
  "Audit_mw h lib a now uuid nxt c =
     (if audited c
      then let c = (if hr_Method (gc_Request c) = ''POST'' \<and> isProxyApi (ax_RequestURI c)
                    then set_key EventObjectNameKey (getPostObjectName h c) c else c);
               c = nxt c
           in (c, Some (handle_audit h lib a now uuid c))
      else (nxt c, None))"

fun svc_headers :: "string list \<Rightarrow> http_header \<Rightarrow> http_header" where
  "svc_headers [] h = h"
| "svc_headers (header # headers) h =
     (case Split header ''='' of
        [k, v] \<Rightarrow> svc_headers headers (header_set h k v)
      | _ \<Rightarrow> svc_headers headers h)"

text \<open>The request to the service: method, address, headers and the event as its body.\<close>

definition sendEvent :: "AuditSvcApi \<Rightarrow> Event \<Rightarrow> string \<times> string \<times> http_header \<times> Event" where
  "sendEvent svc e = (av_Method svc, av_URL svc, svc_headers (Split (av_Header svc) '';'') [], e)"

definition default_text :: "string \<Rightarrow> string \<Rightarrow> string" where
  "default_text d s = (if length s = 0 then d else s)"

fun complete_reports :: "audit_handler \<Rightarrow> bool \<Rightarrow> EventResource list \<Rightarrow> EventResource list option" where
  "complete_reports h translate [] = Some []"
| "complete_reports h translate (v # vs) =
     (if length (er_ResourceName v) = 0 \<or> length (er_ResourceType v) = 0 then None
      else map_option ((#) (if translate then v\<lparr>er_ResourceType := Translate_audit h (er_ResourceType v)\<rparr> else v)) (complete_reports h translate vs))"

definition SendEvent :: "audit_handler \<Rightarrow> jwt_lib \<Rightarrow> AuthJwt \<Rightarrow> int \<Rightarrow> string \<Rightarrow> audit_ctx \<Rightarrow> Event option \<Rightarrow> bool \<Rightarrow> Event option" where
  "SendEvent h lib a now uuid c event translate =
     (case event of
        None \<Rightarrow> None
      | Some e \<Rightarrow>
          if length (ev_EventName e) = 0 \<or> length (ev_RequestMethod e) = 0 \<or> ev_ResponseStatus e = 0 \<or> length (ev_Url e) = 0 then None
          else let e = e\<lparr>ev_EventTime := (if ev_EventTime e = 0 then now else ev_EventTime e),
                      ev_EventVersion := default_text ''V1'' (ev_EventVersion e),
                      ev_SourceIpAddress := default_text (ax_ClientIP c) (ev_SourceIpAddress e),
                      ev_UserAgent := default_text ''HTTP'' (ev_UserAgent e),
                      ev_EventType := default_text EventTypeUserWrite (ev_EventType e),
                      ev_RequestId := default_text uuid (ev_RequestId e),
                      ev_EventSource := default_text (au_EventSource h) (ev_EventSource e),
                      ev_UserIdentity := (case ev_UserIdentity e of None \<Rightarrow> getUserIdentity lib a now c | Some u \<Rightarrow> Some u)\<rparr>;
                    e = (if translate then e\<lparr>ev_Description := Translate_audit h (ev_Description e)\<rparr> else e)
               in map_option (\<lambda>reports. e\<lparr>ev_ResourceReports := reports\<rparr>) (complete_reports h translate (ev_ResourceReports e)))"

subsection \<open>The segments of a path\<close>

text \<open>The segments that name neither a version nor the namespaces are passed over.\<close>

definition plain_segments :: "string list \<Rightarrow> bool" where
  "plain_segments pre \<longleftrightarrow> K8sResourceNamespace \<notin> set pre \<and> K8sResourceVersion \<notin> set pre"

lemma version_not_namespace [simp]: "K8sResourceVersion \<noteq> K8sResourceNamespace" "K8sResourceNamespace \<noteq> K8sResourceVersion"
  by (simp_all add: K8sResourceVersion_def K8sResourceNamespace_def)

lemma processUrlStr_skip: "plain_segments pre \<Longrightarrow> processUrlStr (pre @ rest) = processUrlStr rest"
  by (induction pre) (auto simp: plain_segments_def)

text \<open>
  A path leads to no object type: it ends in the version, it has neither version nor namespaces, or the segment
  where the type should be is empty.
\<close>

definition typeless :: "string list \<Rightarrow> bool" where
  "typeless segs \<longleftrightarrow> (\<exists>pre. plain_segments pre \<and>
     (segs = pre \<or> segs = pre @ [K8sResourceVersion] \<or> (\<exists>rest. segs = pre @ K8sResourceVersion # [] # rest) \<or>
      (\<exists>v ns rest. v \<in> {[], [K8sResourceVersion]} \<and> segs = pre @ v @ K8sResourceNamespace # ns # [] # rest)))"

lemma typeless_Cons:
  assumes "str \<noteq> K8sResourceNamespace" and "str \<noteq> K8sResourceVersion"
  shows "typeless (str # segs) = typeless segs"
proof
  assume "typeless segs"
  then obtain pre where "plain_segments pre" and "segs = pre \<or> segs = pre @ [K8sResourceVersion] \<or> (\<exists>rest. segs = pre @ K8sResourceVersion # [] # rest) \<or>
      (\<exists>v ns rest. v \<in> {[], [K8sResourceVersion]} \<and> segs = pre @ v @ K8sResourceNamespace # ns # [] # rest)"
    unfolding typeless_def by blast
  moreover from this(1) assms have "plain_segments (str # pre)" by (simp add: plain_segments_def)
  ultimately show "typeless (str # segs)" unfolding typeless_def by (intro exI [of _ "str # pre"]) auto
next
  assume "typeless (str # segs)"
  then obtain pre where pre: "plain_segments pre" and c: "str # segs = pre \<or> str # segs = pre @ [K8sResourceVersion] \<or> (\<exists>rest. str # segs = pre @ K8sResourceVersion # [] # rest) \<or>
      (\<exists>v ns rest. v \<in> {[], [K8sResourceVersion]} \<and> str # segs = pre @ v @ K8sResourceNamespace # ns # [] # rest)"
    unfolding typeless_def by blast
  from c assms obtain pre' where "pre = str # pre'" by (cases pre) auto
  with pre c show "typeless segs" unfolding typeless_def by (intro exI [of _ pre']) (auto simp: plain_segments_def)
qed

lemma typeless_namespace: "typeless (K8sResourceNamespace # rest) \<longleftrightarrow> (\<exists>ns r. rest = ns # [] # r)"
proof
  assume "typeless (K8sResourceNamespace # rest)"
  then obtain pre where "plain_segments pre" and c: "K8sResourceNamespace # rest = pre \<or> K8sResourceNamespace # rest = pre @ [K8sResourceVersion] \<or>
      (\<exists>r. K8sResourceNamespace # rest = pre @ K8sResourceVersion # [] # r) \<or>
      (\<exists>v ns r. v \<in> {[], [K8sResourceVersion]} \<and> K8sResourceNamespace # rest = pre @ v @ K8sResourceNamespace # ns # [] # r)"
    unfolding typeless_def by blast
  then have "pre = []" by (cases pre) (auto simp: plain_segments_def)
  with c show "\<exists>ns r. rest = ns # [] # r" by auto
next
  assume "\<exists>ns r. rest = ns # [] # r"
  then show "typeless (K8sResourceNamespace # rest)" unfolding typeless_def by (intro exI [of _ "[]"]) (auto simp: plain_segments_def)
qed

lemma typeless_version:
  "typeless (K8sResourceVersion # rest) \<longleftrightarrow> rest = [] \<or> (\<exists>r. rest = [] # r) \<or> (\<exists>ns r. rest = K8sResourceNamespace # ns # [] # r)"
proof
  assume "typeless (K8sResourceVersion # rest)"
  then obtain pre where "plain_segments pre" and c: "K8sResourceVersion # rest = pre \<or> K8sResourceVersion # rest = pre @ [K8sResourceVersion] \<or>
      (\<exists>r. K8sResourceVersion # rest = pre @ K8sResourceVersion # [] # r) \<or>
      (\<exists>v ns r. v \<in> {[], [K8sResourceVersion]} \<and> K8sResourceVersion # rest = pre @ v @ K8sResourceNamespace # ns # [] # r)"
    unfolding typeless_def by blast
  then have "pre = []" by (cases pre) (auto simp: plain_segments_def)
  with c show "rest = [] \<or> (\<exists>r. rest = [] # r) \<or> (\<exists>ns r. rest = K8sResourceNamespace # ns # [] # r)" by auto
next
  assume "rest = [] \<or> (\<exists>r. rest = [] # r) \<or> (\<exists>ns r. rest = K8sResourceNamespace # ns # [] # r)"
  then show "typeless (K8sResourceVersion # rest)" unfolding typeless_def by (intro exI [of _ "[]"]) (auto simp: plain_segments_def)
qed

lemma namespace_type_empty:
  "(\<exists>n. processUrlStr (K8sResourceNamespace # rest) = Ret ([], n)) \<longleftrightarrow> (\<exists>ns r. rest = ns # [] # r)"
  "processUrlStr (K8sResourceNamespace # rest) \<noteq> Panic"
  by (auto simp: K8sResourceNamespace_def split: list.splits)

lemma processUrlStr_typeless: "processUrlStr segs = Panic \<or> (\<exists>n. processUrlStr segs = Ret ([], n)) \<longleftrightarrow> typeless segs"
proof (induction segs)
  case Nil
  show ?case by (auto simp: typeless_def plain_segments_def)
next
  case (Cons str segs)
  consider "str = K8sResourceNamespace" | "str = K8sResourceVersion" | "str \<noteq> K8sResourceNamespace" "str \<noteq> K8sResourceVersion" by blast
  then show ?case
  proof cases
    case 1
    then show ?thesis using namespace_type_empty [of segs] typeless_namespace [of segs] by (simp del: processUrlStr.simps)
  next
    case 2
    show ?thesis
    proof (cases segs)
      case Nil
      with 2 show ?thesis by (simp add: typeless_version)
    next
      case seg: (Cons x rest)
      show ?thesis
      proof (cases "x = K8sResourceNamespace")
        case True
        with 2 seg have "processUrlStr (str # segs) = processUrlStr (K8sResourceNamespace # rest)" by simp
        moreover have "K8sResourceNamespace \<noteq> []" by (simp add: K8sResourceNamespace_def)
        ultimately show ?thesis using namespace_type_empty [of rest] 2 seg True by (simp add: typeless_version del: processUrlStr.simps)
      next
        case False
        with 2 seg show ?thesis by (auto simp: typeless_version)
      qed
    qed
  next
    case 3
    with Cons.IH typeless_Cons [of str segs] show ?thesis by simp
  qed
qed


text \<open>
  What the event of a request through the proxy reports: for an object in a namespace, and for one that
  belongs to the cluster alone, its type without the last letter and its name.
\<close>

lemma processUrlStr_object:
  assumes "plain_segments pre"
  shows "processUrlStr (pre @ [K8sResourceNamespace, ns, objectType, name]) = Ret (objectType, name)"
    and "objectType \<noteq> K8sResourceNamespace \<Longrightarrow> processUrlStr (pre @ [K8sResourceVersion, objectType, name]) = Ret (objectType, name)"
  using assms by (simp_all add: processUrlStr_skip)

text \<open>A request that is audited and whose handler names the event always has its event sent, with the user who asked.\<close>

lemma handle_audit_named:
  assumes "map_of (gc_Keys c) EventNameKey = Some name" and "name \<noteq> []"
  shows "\<exists>e. handle_audit h lib a now uuid c = Ret (Some e) \<and> ev_EventName e = name \<and> ev_ResponseStatus e = ax_Status c \<and>
    ev_UserIdentity e = getUserIdentity lib a now c \<and> ev_RequestMethod e = hr_Method (gc_Request c)"
  using assms by (auto simp: handle_audit_def Let_def split: option.splits)

text \<open>
  For example, the deletion of a custom resource definition under its beta version, or of
  everything below the address of a cluster.
\<close>

lemma typeless_examples:
  "typeless (uri_segments ''/api/v1/cube/proxy/clusters/m/apis/apiextensions.k8s.io/v1beta1/customresourcedefinitions/x'')"
  "typeless (uri_segments ''/api/v1/cube/proxy/clusters/m/api/v1'')"
proof -
  have "processUrlStr (uri_segments ''/api/v1/cube/proxy/clusters/m/apis/apiextensions.k8s.io/v1beta1/customresourcedefinitions/x'') = Ret ([], [])"
    "processUrlStr (uri_segments ''/api/v1/cube/proxy/clusters/m/api/v1'') = Panic" by code_simp+
  then show "typeless (uri_segments ''/api/v1/cube/proxy/clusters/m/apis/apiextensions.k8s.io/v1beta1/customresourcedefinitions/x'')"
    "typeless (uri_segments ''/api/v1/cube/proxy/clusters/m/api/v1'')" unfolding processUrlStr_typeless [symmetric] by blast+
qed

end
