(* ===== verification/Conversion.thy ===== *)
theory Conversion
  imports ApiPath KubeApi
begin

section \<open>Objects and clients across API versions: pkg/conversion\<close>

text \<open>
  The converter of \<open>conversion.go\<close> finds out whether a cluster serves a kind in the version an object has, and converts the
  object where it does not; the clients of \<open>client.go\<close> do this around every call. The scheme that
  converts objects, the discovery of a cluster and the mapping of resources to kinds are arguments. An object that a call
  fills in is returned by the call.
\<close>

subsection \<open>Definitions: kinds and what a cluster serves\<close>

record gvk =
  gk_Group :: string
  gk_Version :: string
  gk_Kind :: string

record APIResource =
  ar_Group :: string
  ar_Version :: string
  ar_Kind :: string

record APIResourceList =
  al_GroupVersion :: string
  al_APIResources :: "APIResource list"

datatype GreetBackType = IsPassThrough | IsNotSupport | IsNeedConvert | IsUnknown

datatype GroupVersioner = InternalGroupVersioner | GroupVersion string string

text \<open>
  \<open>vc_Resources\<close> is the answer of the discovery, nil where it gave none; its error is only logged. \<open>vc_ObjectKinds\<close> is a
  nonempty list of kinds, given by its first and the others. \<open>vc_ConvertInto\<close> fills an object of the caller.
\<close>

record 'o VersionConverter =
  vc_Resources :: "APIResourceList list option"
  vc_KindsFor :: "gvr \<Rightarrow> gvk list result"
  vc_GroupVersionKind :: "'o \<Rightarrow> gvk"
  vc_ObjectKinds :: "'o \<Rightarrow> (gvk \<times> gvk list) result"
  vc_ConvertToVersion :: "'o \<Rightarrow> GroupVersioner \<Rightarrow> 'o result"
  vc_ConvertInto :: "'o \<Rightarrow> 'o \<Rightarrow> GroupVersioner \<Rightarrow> 'o result"
  vc_IsClientObject :: "'o \<Rightarrow> bool"
  vc_IsClientList :: "'o \<Rightarrow> bool"

definition ParseGroupVersion :: "string \<Rightarrow> (string \<times> string) result" where
  "ParseGroupVersion gv =
     (if length gv = 0 \<or> gv = ''/'' then Inr ([], [])
      else case Split gv ''/'' of
          [v] \<Rightarrow> Inr ([], v)
        | [g, v] \<Rightarrow> Inr (g, v)
        | _ \<Rightarrow> Inl (Err (''unexpected GroupVersion string: '' @ gv)))"

text \<open>The group and version of a resource in a list, which default to those of the list.\<close>

definition resource_gv :: "string \<Rightarrow> APIResource \<Rightarrow> (string \<times> string) result" where
  "resource_gv groupVersion resource =
     (if ar_Group resource = [] \<or> ar_Version resource = []
      then (case ParseGroupVersion groupVersion of
              Inl _ \<Rightarrow> Inl (Err (''parse group version '' @ groupVersion @ '' failed: unexpected GroupVersion string: '' @ groupVersion))
            | Inr gv \<Rightarrow> Inr gv)
      else Inr (ar_Group resource, ar_Version resource))"

text \<open>The first pass: \<open>Inr True\<close> is a resource of the very group, version and kind.\<close>

fun find_same :: "gvk \<Rightarrow> (string \<times> APIResource) list \<Rightarrow> bool result" where
  "find_same gvkCopy [] = Inr False"
| "find_same gvkCopy ((gv, resource) # rs) =
     (case resource_gv gv resource of
        Inl e \<Rightarrow> Inl e
      | Inr (g, v) \<Rightarrow>
          if g = gk_Group gvkCopy \<and> v = gk_Version gvkCopy \<and> ar_Kind resource = gk_Kind gvkCopy then Inr True
          else find_same gvkCopy rs)"

text \<open>The second pass: the group and version of the first resource of the kind.\<close>

fun find_kind :: "gvk \<Rightarrow> (string \<times> APIResource) list \<Rightarrow> (string \<times> string) option result" where
  "find_kind gvkCopy [] = Inr None"
| "find_kind gvkCopy ((gv, resource) # rs) =
     (if ar_Kind resource = gk_Kind gvkCopy
      then (case resource_gv gv resource of Inl e \<Rightarrow> Inl e | Inr r \<Rightarrow> Inr (Some r))
      else find_kind gvkCopy rs)"

definition all_resources :: "APIResourceList list \<Rightarrow> (string \<times> APIResource) list" where
  "all_resources l = concat (map (\<lambda>gvs. map (Pair (al_GroupVersion gvs)) (al_APIResources gvs)) l)"

text \<open>The answer, the kind as it was asked for, the recommended kind, and an error.\<close>

definition GvkGreeting :: "'o VersionConverter \<Rightarrow> gvk \<Rightarrow> GreetBackType \<times> gvk option \<times> gvk option \<times> err option" where
  "GvkGreeting c k =
     (let gvkCopy = (if HasSuffix (gk_Kind k) ''List'' then k\<lparr>gk_Kind := TrimSuffix (gk_Kind k) ''List''\<rparr> else k)
      in case vc_Resources c of
           None \<Rightarrow> (IsNotSupport, Some k, None, None)
         | Some allResources \<Rightarrow>
             (case find_same gvkCopy (all_resources allResources) of
                Inl e \<Rightarrow> (IsUnknown, Some k, None, Some e)
              | Inr True \<Rightarrow> (IsPassThrough, Some k, None, None)
              | Inr False \<Rightarrow>
                  (case find_kind gvkCopy (all_resources allResources) of
                     Inl e \<Rightarrow> (IsUnknown, Some k, None, Some e)
                   | Inr (Some (preferredGroup, preferredVersion)) \<Rightarrow>
                       (IsNeedConvert, Some k, Some \<lparr>gk_Group = preferredGroup, gk_Version = preferredVersion, gk_Kind = gk_Kind k\<rparr>, None)
                   | Inr None \<Rightarrow> (IsNotSupport, Some k, None, None))))"

definition Gvr2Gvk :: "'o VersionConverter \<Rightarrow> gvr \<Rightarrow> gvk result" where
  "Gvr2Gvk c r =
     (case vc_KindsFor c r of
        Inl e \<Rightarrow> Inl e
      | Inr [] \<Rightarrow> Inl (Err (gvr_Group r @ ''/'' @ gvr_Version r @ '', Resource='' @ gvr_Resource r @ '' is not supportted''))
      | Inr (k # _) \<Rightarrow> Inr k)"

definition GvrGreeting :: "'o VersionConverter \<Rightarrow> gvr \<Rightarrow> GreetBackType \<times> gvk option \<times> gvk option \<times> err option" where
  "GvrGreeting c r =
     (case Gvr2Gvk c r of
        Inl e \<Rightarrow> (IsUnknown, None, None, Some e)
      | Inr k \<Rightarrow> GvkGreeting c k)"

definition gvk_empty :: "gvk \<Rightarrow> bool" where
  "gvk_empty k \<longleftrightarrow> gk_Group k = [] \<and> gk_Version k = [] \<and> gk_Kind k = []"

definition ObjectGreeting :: "'o VersionConverter \<Rightarrow> 'o \<Rightarrow> GreetBackType \<times> gvk option \<times> gvk option \<times> err option" where
  "ObjectGreeting c obj =
     (let k = vc_GroupVersionKind c obj
      in if gvk_empty k
         then (case vc_ObjectKinds c obj of
                 Inl e \<Rightarrow> (IsUnknown, None, None, Some e)
               | Inr (k, _) \<Rightarrow> GvkGreeting c k)
         else GvkGreeting c k)"

subsection \<open>Definitions: conversion\<close>

definition Convert :: "'o VersionConverter \<Rightarrow> 'o \<Rightarrow> 'o option \<Rightarrow> GroupVersioner \<Rightarrow> 'o result" where
  "Convert c inp out target =
     (case out of
        Some out \<Rightarrow> vc_ConvertInto c inp out target
      | None \<Rightarrow> vc_ConvertToVersion c inp target)"

definition DirectConvert :: "'o VersionConverter \<Rightarrow> 'o \<Rightarrow> 'o option \<Rightarrow> GroupVersioner \<Rightarrow> 'o result" where
  "DirectConvert c inp out target =
     (case Convert c inp None InternalGroupVersioner of
        Inl e \<Rightarrow> Inl e
      | Inr internalObject \<Rightarrow>
          (case out of
             Some out \<Rightarrow> vc_ConvertInto c internalObject out target
           | None \<Rightarrow> Convert c internalObject None target))"

definition gvk_gv :: "gvk \<Rightarrow> GroupVersioner" where
  "gvk_gv k = GroupVersion (gk_Group k) (gk_Version k)"

text \<open>
  \<open>Inr None\<close> lets the object pass. A converted object that is no client object is reported with its name, which is read
  from a nil value.
\<close>

definition tryConvert :: "'o VersionConverter \<Rightarrow> 'o \<Rightarrow> ('o \<times> gvk option) option result go" where
  "tryConvert c obj =
     (case ObjectGreeting c obj of
        (IsNeedConvert, rawGvk, Some recommendGvk, _) \<Rightarrow>
          (case DirectConvert c obj None (gvk_gv recommendGvk) of
             Inl e \<Rightarrow> Ret (Inl e)
           | Inr converted \<Rightarrow> if vc_IsClientObject c converted then Ret (Inr (Some (converted, rawGvk))) else Panic)
      | _ \<Rightarrow> Ret (Inr None))"

definition tryConvertList :: "'o VersionConverter \<Rightarrow> 'o \<Rightarrow> ('o \<times> gvk option) option result go" where
  "tryConvertList c obj =
     (case ObjectGreeting c obj of
        (IsNeedConvert, rawGvk, Some recommendGvk, _) \<Rightarrow>
          (case DirectConvert c obj None (gvk_gv recommendGvk) of
             Inl e \<Rightarrow> Ret (Inl e)
           | Inr converted \<Rightarrow>
               if vc_IsClientList c converted then Ret (Inr (Some (converted, rawGvk)))
               else Ret (Inl (Err ''converted object is not client Object type'')))
      | _ \<Rightarrow> Ret (Inr None))"

definition tryConvertBack :: "'o VersionConverter \<Rightarrow> 'o \<Rightarrow> 'o \<Rightarrow> gvk option \<Rightarrow> 'o result go" where
  "tryConvertBack c obj out k =
     (case k of
        None \<Rightarrow> Panic
      | Some k \<Rightarrow> Ret (DirectConvert c obj (Some out) (gvk_gv k)))"

subsection \<open>Definitions: clients that convert\<close>

text \<open>A client of a cluster; what a call fills in or the server answers is the object that is returned.\<close>

record ('w, 'o, 'p) raw_client =
  rc_Get :: "objkey \<Rightarrow> 'o \<Rightarrow> ('w, 'o result) state"
  rc_List :: "'o \<Rightarrow> ('w, 'o result) state"
  rc_Create :: "'o \<Rightarrow> ('w, 'o result) state"
  rc_Delete :: "'o \<Rightarrow> ('w, 'o result) state"
  rc_Update :: "'o \<Rightarrow> ('w, 'o result) state"
  rc_Patch :: "'p \<Rightarrow> 'o \<Rightarrow> ('w, 'o result) state"
  rc_DeleteAllOf :: "'o \<Rightarrow> ('w, 'o result) state"
  rc_StatusUpdate :: "'o \<Rightarrow> ('w, 'o result) state"
  rc_StatusPatch :: "'p \<Rightarrow> 'o \<Rightarrow> ('w, 'o result) state"

text \<open>The body that the calls share: convert, call, and convert back where \<open>back\<close> says so.\<close>

definition convert_call ::
  "'o VersionConverter \<Rightarrow> ('o \<times> gvk option) option result go \<Rightarrow> bool \<Rightarrow> ('o \<Rightarrow> ('w, 'o result) state) \<Rightarrow> 'o \<Rightarrow> ('w, 'o result go) state" where
  "convert_call c tried back call obj =
     (case tried of
        Panic \<Rightarrow> State_Monad.return Panic
      | Ret (Inl e) \<Rightarrow> State_Monad.return (Ret (Inl e))
      | Ret (Inr None) \<Rightarrow> do {
          r \<leftarrow> call obj;
          State_Monad.return (Ret r)
        }
      | Ret (Inr (Some (converted, rawGvk))) \<Rightarrow> do {
          r \<leftarrow> call converted;
          State_Monad.return (case r of
            Inl e \<Rightarrow> Ret (Inl e)
          | Inr converted \<Rightarrow> if back then tryConvertBack c converted obj rawGvk else Ret (Inr obj))
        })"

definition wrapped_Get :: "'o VersionConverter \<Rightarrow> ('w, 'o, 'p) raw_client \<Rightarrow> objkey \<Rightarrow> 'o \<Rightarrow> ('w, 'o result go) state" where
  "wrapped_Get c cli key obj = convert_call c (tryConvert c obj) True (rc_Get cli key) obj"

definition wrapped_List :: "'o VersionConverter \<Rightarrow> ('w, 'o, 'p) raw_client \<Rightarrow> 'o \<Rightarrow> ('w, 'o result go) state" where
  "wrapped_List c cli list = convert_call c (tryConvertList c list) True (rc_List cli) list"

definition wrapped_Create :: "'o VersionConverter \<Rightarrow> bool \<Rightarrow> ('w, 'o, 'p) raw_client \<Rightarrow> 'o \<Rightarrow> ('w, 'o result go) state" where
  "wrapped_Create c convertBack cli obj = convert_call c (tryConvert c obj) convertBack (rc_Create cli) obj"

definition wrapped_Delete :: "'o VersionConverter \<Rightarrow> ('w, 'o, 'p) raw_client \<Rightarrow> 'o \<Rightarrow> ('w, 'o result go) state" where
  "wrapped_Delete c cli obj = convert_call c (tryConvert c obj) False (rc_Delete cli) obj"

definition wrapped_Update :: "'o VersionConverter \<Rightarrow> bool \<Rightarrow> ('w, 'o, 'p) raw_client \<Rightarrow> 'o \<Rightarrow> ('w, 'o result go) state" where
  "wrapped_Update c convertBack cli obj = convert_call c (tryConvert c obj) convertBack (rc_Update cli) obj"

definition wrapped_Patch :: "'o VersionConverter \<Rightarrow> bool \<Rightarrow> ('w, 'o, 'p) raw_client \<Rightarrow> 'p \<Rightarrow> 'o \<Rightarrow> ('w, 'o result go) state" where
  "wrapped_Patch c convertBack cli patch obj = convert_call c (tryConvert c obj) convertBack (rc_Patch cli patch) obj"

definition wrapped_DeleteAllOf :: "'o VersionConverter \<Rightarrow> ('w, 'o, 'p) raw_client \<Rightarrow> 'o \<Rightarrow> ('w, 'o result go) state" where
  "wrapped_DeleteAllOf c cli obj = convert_call c (tryConvert c obj) False (rc_DeleteAllOf cli) obj"

definition wrapped_StatusUpdate :: "'o VersionConverter \<Rightarrow> bool \<Rightarrow> ('w, 'o, 'p) raw_client \<Rightarrow> 'o \<Rightarrow> ('w, 'o result go) state" where
  "wrapped_StatusUpdate c convertBack cli obj = convert_call c (tryConvert c obj) convertBack (rc_StatusUpdate cli) obj"

definition wrapped_StatusPatch :: "'o VersionConverter \<Rightarrow> bool \<Rightarrow> ('w, 'o, 'p) raw_client \<Rightarrow> 'p \<Rightarrow> 'o \<Rightarrow> ('w, 'o result go) state" where
  "wrapped_StatusPatch c convertBack cli patch obj = convert_call c (tryConvert c obj) convertBack (rc_StatusPatch cli patch) obj"

subsection \<open>What the greeting says\<close>

text \<open>The kinds a cluster serves, as group, version and kind, where the texts of the discovery parse.\<close>

definition well_listed :: "'o VersionConverter \<Rightarrow> bool" where
  "well_listed c \<longleftrightarrow> (\<forall>l \<in> set (case vc_Resources c of None \<Rightarrow> [] | Some l \<Rightarrow> l). \<exists>gv. ParseGroupVersion (al_GroupVersion l) = Inr gv)"

definition served :: "'o VersionConverter \<Rightarrow> string \<Rightarrow> string \<Rightarrow> string \<Rightarrow> bool" where
  "served c g v kind \<longleftrightarrow> (\<exists>l r. vc_Resources c = Some l \<and> r \<in> set (all_resources l) \<and> resource_gv (fst r) (snd r) = Inr (g, v) \<and> ar_Kind (snd r) = kind)"

definition single_kind :: "string \<Rightarrow> string" where
  "single_kind kind = (if HasSuffix kind ''List'' then TrimSuffix kind ''List'' else kind)"

lemma find_same_exact:
  assumes "\<And>r. r \<in> set rs \<Longrightarrow> \<exists>gv. resource_gv (fst r) (snd r) = Inr gv"
  shows "find_same k rs = Inr (\<exists>r \<in> set rs. resource_gv (fst r) (snd r) = Inr (gk_Group k, gk_Version k) \<and> ar_Kind (snd r) = gk_Kind k)"
  using assms
proof (induction rs)
  case (Cons r rs)
  obtain gv res where r: "r = (gv, res)" by fastforce
  obtain g v where "resource_gv gv res = Inr (g, v)" using Cons.prems [of r] r by auto
  with Cons r show ?case by auto
qed simp

lemma find_kind_exact:
  assumes "\<And>r. r \<in> set rs \<Longrightarrow> \<exists>gv. resource_gv (fst r) (snd r) = Inr gv"
  shows "case find_kind k rs of
      Inl e \<Rightarrow> False
    | Inr None \<Rightarrow> \<forall>r \<in> set rs. ar_Kind (snd r) \<noteq> gk_Kind k
    | Inr (Some gv) \<Rightarrow> \<exists>r \<in> set rs. resource_gv (fst r) (snd r) = Inr gv \<and> ar_Kind (snd r) = gk_Kind k"
  using assms
proof (induction rs)
  case (Cons r rs)
  obtain gv res where r: "r = (gv, res)" by fastforce
  obtain p where "resource_gv gv res = Inr p" using Cons.prems [of r] r by auto
  with Cons r show ?case by (auto split: sum.splits option.splits)
qed simp

text \<open>
  C35: what a cluster is found to serve. Where the lists of the discovery are well formed, an object passes unchanged exactly when the
  cluster serves its group, version and kind, a list counting as its items; it is to be converted exactly when the
  cluster serves the kind in other versions only, and the recommended one is then one that the cluster
  serves; otherwise it is not supported.
\<close>

theorem GvkGreeting_exact:
  assumes "well_listed c"
  shows "case GvkGreeting c k of (answer, raw, recommend, e) \<Rightarrow> raw = Some k \<and> e = None \<and>
    (if served c (gk_Group k) (gk_Version k) (single_kind (gk_Kind k)) then answer = IsPassThrough \<and> recommend = None
     else if \<exists>g v. served c g v (single_kind (gk_Kind k))
     then answer = IsNeedConvert \<and> (\<exists>g v. recommend = Some \<lparr>gk_Group = g, gk_Version = v, gk_Kind = gk_Kind k\<rparr> \<and> served c g v (single_kind (gk_Kind k)))
     else answer = IsNotSupport \<and> recommend = None)"
proof (cases "vc_Resources c")
  case None
  then show ?thesis by (simp add: GvkGreeting_def served_def Let_def)
next
  case (Some l)
  define k' where "k' = (if HasSuffix (gk_Kind k) ''List'' then k\<lparr>gk_Kind := TrimSuffix (gk_Kind k) ''List''\<rparr> else k)"
  have k': "gk_Group k' = gk_Group k" "gk_Version k' = gk_Version k" "gk_Kind k' = single_kind (gk_Kind k)"
    by (simp_all add: k'_def single_kind_def)
  have ok: "\<exists>gv. resource_gv (fst r) (snd r) = Inr gv" if "r \<in> set (all_resources l)" for r
    using that assms Some by (auto simp: all_resources_def well_listed_def resource_gv_def)
  have same: "find_same k' (all_resources l) = Inr (served c (gk_Group k) (gk_Version k) (single_kind (gk_Kind k)))"
    by (subst find_same_exact) (use ok in \<open>auto simp: served_def Some k' Bex_def\<close>)
  have kind: "case find_kind k' (all_resources l) of
      Inl e \<Rightarrow> False
    | Inr None \<Rightarrow> \<not> (\<exists>g v. served c g v (single_kind (gk_Kind k)))
    | Inr (Some (g, v)) \<Rightarrow> served c g v (single_kind (gk_Kind k))"
  proof -
    have "(\<exists>g v. served c g v (single_kind (gk_Kind k))) \<longleftrightarrow> (\<exists>r \<in> set (all_resources l). ar_Kind (snd r) = single_kind (gk_Kind k))"
      unfolding served_def Some using ok by (metis option.inject surj_pair)
    moreover have "served c g v (single_kind (gk_Kind k)) \<longleftrightarrow>
        (\<exists>r \<in> set (all_resources l). resource_gv (fst r) (snd r) = Inr (g, v) \<and> ar_Kind (snd r) = single_kind (gk_Kind k))" for g v
      unfolding served_def Some by (simp add: Bex_def)
    ultimately show ?thesis
      using find_kind_exact [of "all_resources l" k', OF ok] k' by (auto split: sum.splits option.splits)
  qed
  have "GvkGreeting c k =
    (case find_same k' (all_resources l) of
       Inl e \<Rightarrow> (IsUnknown, Some k, None, Some e)
     | Inr True \<Rightarrow> (IsPassThrough, Some k, None, None)
     | Inr False \<Rightarrow>
         (case find_kind k' (all_resources l) of
            Inl e \<Rightarrow> (IsUnknown, Some k, None, Some e)
          | Inr (Some (g, v)) \<Rightarrow> (IsNeedConvert, Some k, Some \<lparr>gk_Group = g, gk_Version = v, gk_Kind = gk_Kind k\<rparr>, None)
          | Inr None \<Rightarrow> (IsNotSupport, Some k, None, None)))"
    unfolding GvkGreeting_def Let_def k'_def [symmetric] Some by simp
  with same kind show ?thesis by (auto split: sum.splits option.splits bool.splits)
qed

text \<open>A cluster that serves ingresses in the old extension group only.\<close>

definition old_cluster :: "string VersionConverter" where
  "old_cluster = \<lparr>vc_Resources = Some [\<lparr>al_GroupVersion = ''v1'', al_APIResources = [\<lparr>ar_Group = [], ar_Version = [], ar_Kind = ''Pod''\<rparr>]\<rparr>,
       \<lparr>al_GroupVersion = ''extensions/v1beta1'', al_APIResources = [\<lparr>ar_Group = [], ar_Version = [], ar_Kind = ''Ingress''\<rparr>]\<rparr>],
     vc_KindsFor = (\<lambda>_. Inr []), vc_GroupVersionKind = (\<lambda>_. \<lparr>gk_Group = ''networking.k8s.io'', gk_Version = ''v1'', gk_Kind = ''Ingress''\<rparr>),
     vc_ObjectKinds = (\<lambda>_. Inl NotFound), vc_ConvertToVersion = (\<lambda>s v. Inr s), vc_ConvertInto = (\<lambda>s _ v. Inr s),
     vc_IsClientObject = (\<lambda>_. True), vc_IsClientList = (\<lambda>_. True)\<rparr>"

lemma old_cluster_answers:
  "GvkGreeting old_cluster \<lparr>gk_Group = ''networking.k8s.io'', gk_Version = ''v1'', gk_Kind = ''IngressList''\<rparr> =
     (IsNeedConvert, Some \<lparr>gk_Group = ''networking.k8s.io'', gk_Version = ''v1'', gk_Kind = ''IngressList''\<rparr>,
      Some \<lparr>gk_Group = ''extensions'', gk_Version = ''v1beta1'', gk_Kind = ''IngressList''\<rparr>, None)"
  by code_simp

theorem GvkGreeting_exact_witness:
  "served old_cluster ''extensions'' ''v1beta1'' ''Ingress'' \<and> \<not> served old_cluster ''networking.k8s.io'' ''v1'' ''Ingress''"
proof -
  have "ParseGroupVersion ''v1'' = Inr ([], ''v1'')" "ParseGroupVersion ''extensions/v1beta1'' = Inr (''extensions'', ''v1beta1'')"
    by code_simp+
  then have "well_listed old_cluster" by (simp add: well_listed_def old_cluster_def)
  moreover have "single_kind ''IngressList'' = ''Ingress''" by code_simp
  ultimately show ?thesis
    using GvkGreeting_exact [of old_cluster "\<lparr>gk_Group = ''networking.k8s.io'', gk_Version = ''v1'', gk_Kind = ''IngressList''\<rparr>"]
    by (auto simp: old_cluster_answers split: if_splits)
qed

end
