(* ===== verification/ApiProxy.thy ===== *)
theory ApiProxy
  imports Authn MultiCluster ListFilter Conversion "HOL-Library.Char_ord" "HOL-Library.List_Lexorder"
begin

section \<open>Requests that the API server proxies to a cluster\<close>

text \<open>
  The handler of \<open>pkg/apiserver/cubeapi/resourcemanage/handle/proxy.go\<close>, which forwards every request below
  \<open>/proxy\<close> to the API server of a cluster, the functions of \<open>net/url\<close> on queries that it uses, and the small handlers of
  \<open>extend.go\<close>. The result is the request as the director leaves it; what the reverse proxy of the standard library
  adds and removes on the connection is left out. Decoding and encoding of objects, the discovery of a
  cluster and the parsing of its configured address are arguments.
\<close>

subsection \<open>Definitions: queries\<close>

type_synonym url_values = "(string \<times> string list) list"

definition unhex :: "char \<Rightarrow> nat option" where
  "unhex c =
     (let n = (of_char c :: nat)
      in if 48 \<le> n \<and> n \<le> 57 then Some (n - 48)
         else if 97 \<le> n \<and> n \<le> 102 then Some (n - 87)
         else if 65 \<le> n \<and> n \<le> 70 then Some (n - 55) else None)"

fun QueryUnescape :: "string \<Rightarrow> string option" where
  "QueryUnescape [] = Some []"
| "QueryUnescape (c # s) =
     (if c = CHR ''%''
      then (case s of
              a # b # s \<Rightarrow>
                (case (unhex a, unhex b, QueryUnescape s) of
                   (Some x, Some y, Some t) \<Rightarrow> Some (char_of (16 * x + y) # t)
                 | _ \<Rightarrow> None)
            | _ \<Rightarrow> None)
      else map_option ((#) (if c = CHR ''+'' then CHR '' '' else c)) (QueryUnescape s))"

definition add_value :: "string \<Rightarrow> string \<Rightarrow> url_values \<Rightarrow> url_values" where
  "add_value k v m = AList.update k ((case map_of m k of None \<Rightarrow> [] | Some vs \<Rightarrow> vs) @ [v]) m"

definition cut_eq :: "string \<Rightarrow> string \<times> string" where
  "cut_eq s = (takeWhile (\<lambda>c. c \<noteq> CHR ''='') s, drop 1 (dropWhile (\<lambda>c. c \<noteq> CHR ''='') s))"

fun parse_query :: "string list \<Rightarrow> url_values \<Rightarrow> err option \<Rightarrow> url_values \<times> err option" where
  "parse_query [] m e = (m, e)"
| "parse_query (key # rest) m e =
     (if Contains key '';'' then parse_query rest m (Some (Err ''invalid semicolon separator in query''))
      else if key = [] then parse_query rest m e
      else (case cut_eq key of (k, v) \<Rightarrow>
        (case QueryUnescape k of
           None \<Rightarrow> parse_query rest m (if e = None then Some (Err ''invalid URL escape'') else e)
         | Some k \<Rightarrow>
             (case QueryUnescape v of
                None \<Rightarrow> parse_query rest m (if e = None then Some (Err ''invalid URL escape'') else e)
              | Some v \<Rightarrow> parse_query rest (add_value k v m) e))))"

definition ParseQuery :: "string \<Rightarrow> url_values \<times> err option" where
  "ParseQuery query = parse_query (Split query ''&'') [] None"

definition Encode :: "url_values \<Rightarrow> string" where
  "Encode m = Join (concat (map (\<lambda>(k, vs). map (\<lambda>v. QueryEscape k @ ''='' @ QueryEscape v) vs) (sort_key fst m))) ''&''"

text \<open>In a segment of a path these characters stay as they are as well.\<close>

definition PathEscape :: "string \<Rightarrow> string" where
  "PathEscape s = concat (map (\<lambda>c. if unreserved c \<or> c \<in> set ''$&+:=@'' then [c]
     else [CHR ''%'', hex_upper (of_char c div 16), hex_upper (of_char c mod 16)]) s)"

text \<open>\<open>c.Query\<close>: the values that could be read, whatever the error.\<close>

definition query_of :: "string \<Rightarrow> string \<Rightarrow> string" where
  "query_of rawQuery k = (case map_of (fst (ParseQuery rawQuery)) k of Some (v # _) \<Rightarrow> v | _ \<Rightarrow> [])"

text \<open>\<open>AddQuery\<close> and \<open>AddFieldManager\<close> of \<open>pkg/utils/request\<close> on the text of the query.\<close>

definition AddQuery_raw :: "string \<Rightarrow> string \<Rightarrow> string \<Rightarrow> err option \<times> string" where
  "AddQuery_raw rawQuery key value =
     (case ParseQuery rawQuery of
        (_, Some e) \<Rightarrow> (Some e, rawQuery)
      | (query, None) \<Rightarrow> (None, Encode (AList.update key [value] query)))"

definition AddFieldManager_raw :: "string \<Rightarrow> string \<Rightarrow> err option \<times> string" where
  "AddFieldManager_raw rawQuery username =
     (if \<not> list_all IsPrint username then (Some (Err ''username not printable''), rawQuery)
      else let username = ''cube-'' @ username
           in if length username > 128 then (Some (Err ''username should not be longer than 128''), rawQuery)
              else AddQuery_raw rawQuery FieldManager username)"

subsection \<open>Definitions: label selectors\<close>

fun selector_text :: "(string \<times> string list) list \<Rightarrow> string \<Rightarrow> string" where
  "selector_text [] s = s"
| "selector_text ((key, value) # sel) s =
     selector_text sel (if length value < 1 then s else s @ key @ ''+in+('' @ Join value '','' @ '')'' @ '','')"

fun selector_query :: "string \<Rightarrow> string list \<Rightarrow> string \<Rightarrow> bool \<Rightarrow> string \<times> bool" where
  "selector_query lsq [] queryString labelSelectorSet = (queryString, labelSelectorSet)"
| "selector_query lsq (v # vs) queryString labelSelectorSet =
     (if HasPrefix v ''labelSelector='' then selector_query lsq vs (queryString @ v @ '','' @ lsq @ ''&'') True
      else if HasPrefix v ''labelSelector'' then selector_query lsq vs (queryString @ ''labelSelector='' @ lsq @ ''&'') True
      else selector_query lsq vs (queryString @ v @ ''&'') labelSelectorSet)"

definition convertsLabelSelectorForReq :: "string \<Rightarrow> (string \<times> string list) list \<Rightarrow> string" where
  "convertsLabelSelectorForReq rawQuery labelSelector =
     (let s = selector_text labelSelector [];
          s = (if length s > 0 then TrimRight s (CHR '','') else s);
          s = PathEscape s;
          (queryString, labelSelectorSet) = selector_query s (Split rawQuery ''&'') [] False
      in if length queryString > 0 \<and> \<not> labelSelectorSet then queryString @ ''&labelSelector='' @ s else queryString)"

subsection \<open>Definitions: the proxy\<close>

text \<open>A converter with the codec of a cluster; \<open>bv_Accessor\<close> is the error of reading the metadata of an object.\<close>

record 'o body_converter = "'o VersionConverter" +
  bv_Decode :: "string \<Rightarrow> ('o \<times> gvk) result"
  bv_Encode :: "'o \<Rightarrow> GroupVersioner \<Rightarrow> string result"
  bv_Accessor :: "'o \<Rightarrow> err option"

text \<open>
  What the handler uses of a cluster: the address in its configuration with the scheme and host that
  \<open>url.ParseRequestURI\<close> reads in it, the cache behind the relationship check, and the converter.
\<close>

record 'o proxy_cluster =
  px_Host :: string
  px_Uri :: "string result"
  px_Cache :: belongs_cache
  px_NewConverter :: "'o body_converter result"

record 'o ProxyHandler =
  ph_enableConvert :: bool
  ph_Mgr :: "'o proxy_cluster MultiClustersMgr"
  ph_converter :: "(string \<times> 'o body_converter) list"

text \<open>The request as the handler finds it: its parameters, the user the middleware has put into the context, and the parts that are forwarded.\<close>

record proxy_ctx =
  pc_Method :: string
  pc_Cluster :: string
  pc_Url :: string
  pc_Username :: string
  pc_RawQuery :: string
  pc_Header :: http_header
  pc_Body :: "string result"

record out_request =
  or_Method :: string
  or_Uri :: "string option"
  or_Host :: string
  or_Path :: string
  or_RawQuery :: string
  or_Header :: http_header
  or_Body :: "string result"

definition gvk_GroupVersion :: "gvk \<Rightarrow> string" where
  "gvk_GroupVersion k = GroupVersion_String (gk_Group k) (gk_Version k)"

text \<open>The converted body, if there is one, and the converted path; \<open>Inr None\<close> lets the request pass.\<close>

definition convert_body :: "'o body_converter \<Rightarrow> gvr \<Rightarrow> gvk \<Rightarrow> proxy_ctx \<Rightarrow> string result" where
  "convert_body converter g recommendVersion c =
     (case pc_Body c of
        Inl e \<Rightarrow> Inl e
      | Inr data \<Rightarrow>
          (case bv_Decode converter data of
             Inl e \<Rightarrow> Inl e
           | Inr (raw, rawGvr) \<Rightarrow>
               if gvk_GroupVersion rawGvr \<noteq> GroupVersion_String (gvr_Group g) (gvr_Version g)
               then Inl (Err (''gv parse failed with pair('' @ gvk_GroupVersion rawGvr @ ''~'' @ GroupVersion_String (gvr_Group g) (gvr_Version g) @ '')''))
               else (case Convert (VersionConverter.truncate converter) raw None (gvk_gv recommendVersion) of
                       Inl e \<Rightarrow> Inl e
                     | Inr out \<Rightarrow>
                         (case bv_Encode converter out (gvk_gv recommendVersion) of
                            Inl e \<Rightarrow> Inl e
                          | Inr convertedObj \<Rightarrow> (case bv_Accessor converter out of Some e \<Rightarrow> Inl e | None \<Rightarrow> Inr convertedObj)))))"

definition tryVersionConvert ::
  "'o ProxyHandler \<Rightarrow> proxy_ctx \<Rightarrow> (string option \<times> string) option result \<times> 'o ProxyHandler" where
  "tryVersionConvert h c =
     (if \<not> ph_enableConvert h then (Inr None, h)
      else case ParseURL (pc_Url c) of
        Inl e \<Rightarrow> (Inl e, h)
      | Inr (_, isNamespaced, g) \<Rightarrow>
          (case GetVersionConvert px_NewConverter (ph_Mgr h) (pc_Cluster c) (ph_converter h) of
             (Inl e, cs) \<Rightarrow> (Inl e, h\<lparr>ph_converter := cs\<rparr>)
           | (Inr converter, cs) \<Rightarrow>
               (case GvrGreeting (VersionConverter.truncate converter) g of
                  (IsNeedConvert, _, Some recommendVersion, _) \<Rightarrow>
                    (case ConvertURL (pc_Url c) \<lparr>gvr_Group = gk_Group recommendVersion, gvr_Version = gk_Version recommendVersion, gvr_Resource = gvr_Resource g\<rparr> of
                       Inl e \<Rightarrow> Inl e
                     | Inr convertedUrl \<Rightarrow>
                         if pc_Method c \<noteq> ''POST'' \<and> pc_Method c \<noteq> ''PUT'' then Inr (Some (None, convertedUrl))
                         else (case convert_body converter g recommendVersion c of
                                 Inl e \<Rightarrow> Inl e
                               | Inr convertedObj \<Rightarrow> Inr (Some (Some convertedObj, convertedUrl))),
                     h\<lparr>ph_converter := cs\<rparr>)
                | _ \<Rightarrow> (Inr None, h\<lparr>ph_converter := cs\<rparr>))))"

definition parseQueryParams :: "string \<Rightarrow> Condition" where
  "parseQueryParams rawQuery =
     (let (exact, fuzzy) = ParseSelector (query_of rawQuery ''selector'');
          (limit, offset) = ParsePage (query_of rawQuery ''pageSize'') (query_of rawQuery ''pageNum'');
          (sortName, sortOrder, sortFunc) = ParseSort (query_of rawQuery ''sortName'') (query_of rawQuery ''sortOrder'') (query_of rawQuery ''sortFunc'')
      in \<lparr>co_Exact = exact, co_Fuzzy = fuzzy, co_Limit = limit, co_Offset = offset, co_SortName = sortName, co_SortOrder = sortOrder, co_SortFunc = sortFunc\<rparr>)"

text \<open>An index beyond the segments of the path panics.\<close>

definition needModifyResponse :: "string \<Rightarrow> string \<Rightarrow> bool go" where
  "needModifyResponse proxyUrl rawQuery =
     (if ParseBool (query_of rawQuery ''follow'') = Some True then Ret False
      else if ParseBool (query_of rawQuery ''watch'') = Some True then Ret False
      else if length proxyUrl > 0
      then let path = (if HasPrefix proxyUrl ''/'' then drop 1 proxyUrl else proxyUrl);
               ss = Split path ''/''
           in if ss ! 0 = ''api'' then (if length ss \<le> 2 then Panic else Ret (ss ! 2 \<noteq> ''watch''))
              else if ss ! 0 = ''apis'' then (if length ss \<le> 3 then Panic else Ret (ss ! 3 \<noteq> ''watch''))
              else Ret True
      else Ret True)"

text \<open>
  The director, on the copy of the request that is to be sent. A configured address that cannot be parsed is
  answered, and the request is sent on with the address of the client all the same.
\<close>

definition directerFunc ::
  "proxy_ctx \<Rightarrow> 'o proxy_cluster \<Rightarrow> (string option \<times> string) option \<Rightarrow> out_request \<Rightarrow> (errinfo option \<times> out_request) go" where
  "directerFunc c ic converted req =
     go_bind (ParseLabelSelector (query_of (pc_RawQuery c) ''selector'')) (\<lambda>labelSelector.
       case px_Uri ic of
         Inl e \<Rightarrow> Ret (Some (BadRequest (Err (''could not parse host, host: '' @ px_Host ic))), req)
       | Inr uri \<Rightarrow>
           let req = req\<lparr>or_Uri := Some uri, or_RawQuery := pc_RawQuery c, or_Path := pc_Url c, or_Host := px_Host ic\<rparr>;
               req = req\<lparr>or_RawQuery := snd (AddFieldManager_raw (or_RawQuery req) (pc_Username c))\<rparr>;
               req = (case converted of
                        None \<Rightarrow> req
                      | Some (convertedObj, convertedUrl) \<Rightarrow>
                          (case convertedObj of None \<Rightarrow> req | Some body \<Rightarrow> req\<lparr>or_Body := Inr body\<rparr>)\<lparr>or_Path := convertedUrl\<rparr>);
               req = (if length labelSelector > 0 then req\<lparr>or_RawQuery := convertsLabelSelectorForReq (or_RawQuery req) labelSelector\<rparr> else req)
           in Ret (None, req))"

text \<open>
  A request is refused or sent on: with what the director has answered, with the request it leaves, and with the filter
  of the response, if there is one.
\<close>

datatype proxied = Refused errinfo | Sent "errinfo option" out_request "(Condition \<times> (gvr \<times> gvr) option) option"

definition ProxyHandle :: "'o ProxyHandler \<Rightarrow> proxy_ctx \<Rightarrow> proxied go \<times> 'o ProxyHandler" where
  "ProxyHandle h c =
     (let condition = parseQueryParams (pc_RawQuery c);
          header = header_set (pc_Header c) ImpersonateUserKey (pc_Username c)
      in case Get_mgr (ph_Mgr h) (pc_Cluster c) of
           (_, Some e) \<Rightarrow> (Ret (Refused (BadRequest e)), h)
         | (None, None) \<Rightarrow> (Panic, h)
         | (Some internalCluster, None) \<Rightarrow>
             (case ParseURL (pc_Url c) of
                Inl e \<Rightarrow> (Ret (Refused (BadRequest e)), h)
              | Inr (_, _, g) \<Rightarrow>
                  (case tryVersionConvert h c of
                     (Inl e, h) \<Rightarrow> (Ret (Refused (BadRequest e)), h)
                   | (Inr converted, h) \<Rightarrow>
                       (case RelationshipDetermine (px_Cache (ic_Client internalCluster)) (pc_Url c) (pc_Username c) of
                          (allowed, e) \<Rightarrow>
                            if e = None \<and> \<not> allowed then (Ret (Refused ForbiddenErr), h)
                            else (case (case converted of
                                         None \<Rightarrow> Inr None
                                       | Some (_, convertedUrl) \<Rightarrow>
                                           (case ParseURL convertedUrl of Inl e \<Rightarrow> Inl e | Inr (_, _, convertedGvr) \<Rightarrow> Inr (Some (convertedGvr, g)))) of
                                    Inl e \<Rightarrow> (Ret (Refused (BadRequest e)), h)
                                  | Inr converterContext \<Rightarrow>
                                      (go_bind (needModifyResponse (pc_Url c) (pc_RawQuery c)) (\<lambda>modify.
                                         go_bind (directerFunc c (ic_Client internalCluster) converted
                                             \<lparr>or_Method = pc_Method c, or_Uri = None, or_Host = [],
                                              or_Path = ApiPathRoot @ ''/proxy/clusters/'' @ pc_Cluster c @ pc_Url c, or_RawQuery = pc_RawQuery c,
                                              or_Header = header_del header AuthorizationHeader, or_Body = pc_Body c\<rparr>) (\<lambda>(answered, req).
                                           Ret (Sent answered req (if modify then Some (condition, converterContext) else None)))), h))))))"

subsection \<open>Definitions: the other handlers\<close>

record ExtendHandler =
  eh_NginxNamespace :: string
  eh_NginxTcpServiceConfigMap :: string
  eh_NginxUdpServiceConfigMap :: string

record ExtendContext =
  ec_Cluster :: string
  ec_Namespace :: string
  ec_Username :: string
  ec_Action :: string
  ec_ResourceName :: string
  ec_NginxNamespace :: string
  ec_NginxTcpServiceConfigMap :: string
  ec_NginxUdpServiceConfigMap :: string
  ec_FilterCondition :: Condition

text \<open>The functions that the resources have registered, by resource type, are an argument.\<close>

definition ExtendHandle ::
  "'c MultiClustersMgr \<Rightarrow> (string \<times> (ExtendContext \<Rightarrow> ('w, errinfo + 'r) state)) list \<Rightarrow> ExtendHandler \<Rightarrow>
   string \<Rightarrow> string \<Rightarrow> string \<Rightarrow> string \<Rightarrow> string \<Rightarrow> string \<Rightarrow> string \<Rightarrow> ('w, 'r answer) state" where
  "ExtendHandle m extendFuncMap e cluster namespace resourceType resourceName rawQuery httpMethod username =
     (case Kubernetes m cluster of
        None \<Rightarrow> State_Monad.return (Fail (ClusterNotFoundError cluster))
      | Some client \<Rightarrow>
          (case map_of extendFuncMap resourceType of
             None \<Rightarrow> State_Monad.return (Fail InvalidResourceTypeErr)
           | Some extendFunc \<Rightarrow> do {
               r \<leftarrow> extendFunc
                 \<lparr>ec_Cluster = cluster, ec_Namespace = namespace, ec_Username = username, ec_Action = httpMethod, ec_ResourceName = resourceName,
                  ec_NginxNamespace = eh_NginxNamespace e, ec_NginxTcpServiceConfigMap = eh_NginxTcpServiceConfigMap e,
                  ec_NginxUdpServiceConfigMap = eh_NginxUdpServiceConfigMap e, ec_FilterCondition = parseQueryParams rawQuery\<rparr>;
               State_Monad.return (case r of Inl errInfo \<Rightarrow> Fail errInfo | Inr result \<Rightarrow> Success result)
             }))"

text \<open>The client of the local cluster gives the data of a config map, and clusters and projects by their names; it may be nil.\<close>

record 'w local_client =
  lc_ConfigMap :: "objkey \<Rightarrow> ('w, (string, string) gomap result) state"
  lc_Cluster :: "string \<Rightarrow> ('w, Cluster result) state"
  lc_ProjectSuffixes :: "string \<Rightarrow> ('w, string list result) state"

definition read_configmap :: "'w local_client option \<Rightarrow> objkey \<Rightarrow> ('w, (string, string) gomap answer) state" where
  "read_configmap cli key =
     (case cli of
        None \<Rightarrow> State_Monad.return (Fail (BadRequest (Err [])))
      | Some cli \<Rightarrow> do {
          r \<leftarrow> lc_ConfigMap cli key;
          State_Monad.return (case r of
            Inl e \<Rightarrow> if e = NotFound then Fail (CustomReturn 404 (Err (''configmap('' @ fst key @ ''/'' @ snd key @ '') not found'')))
                    else Fail (BadRequest e)
          | Inr data \<Rightarrow> Success data)
        })"

definition GetFeatureConfig :: "'w local_client option \<Rightarrow> string \<Rightarrow> ('w, (string, string) gomap answer) state" where
  "GetFeatureConfig cli cubeNamespace = read_configmap cli (cubeNamespace, ''kubecube-feature-config'')"

definition GetConfigMap :: "'w local_client option \<Rightarrow> string \<Rightarrow> string \<Rightarrow> ('w, (string, string) gomap answer) state" where
  "GetConfigMap cli cubeNamespace cmName =
     (if cmName = [] then State_Monad.return (Fail InvalidBodyFormat) else read_configmap cli (cubeNamespace, cmName))"

text \<open>The set that the handler collects is answered as its sorted list.\<close>

definition IngressDomainSuffix :: "'w local_client option \<Rightarrow> string \<Rightarrow> string \<Rightarrow> ('w, string list answer) state" where
  "IngressDomainSuffix cli clusterName projectName =
     (case cli of
        None \<Rightarrow> State_Monad.return (Fail (ClusterNotFoundError clusterName))
      | Some cli \<Rightarrow> do {
          r \<leftarrow> lc_Cluster cli clusterName;
          case r of
            Inl e \<Rightarrow> State_Monad.return (Fail (if e = NotFound then ClusterNotFoundError clusterName else BadRequest e))
          | Inr cluster \<Rightarrow> do {
              r \<leftarrow> lc_ProjectSuffixes cli projectName;
              State_Monad.return (case r of
                Inl e \<Rightarrow> Fail (if e = NotFound then CustomReturn 404 (Err (''project('' @ projectName @ '') not found'')) else BadRequest e)
              | Inr sfx \<Rightarrow>
                  let tmpSet = (if length (clu_IngressDomainSuffix cluster) \<noteq> 0 then [clu_IngressDomainSuffix cluster] else []) @ sfx
                  in Success (sort (remdups tmpSet)))
            }
        })"

subsection \<open>Queries survive encoding\<close>

lemma unhex_hex_upper [simp]: "n < 16 \<Longrightarrow> unhex (hex_upper n) = Some n"
  by (simp add: unhex_def hex_upper_def Let_def of_char_of)

lemma byte_halves [simp]:
  "(of_char c :: nat) div 16 < 16" "char_of (16 * ((of_char c :: nat) div 16) + (of_char c :: nat) mod 16) = c"
proof -
  have "(of_char c :: nat) < 256" by simp
  then show "(of_char c :: nat) div 16 < 16" by linarith
qed (simp add: mult_div_mod_eq)

lemma unreserved_no_code: "unreserved c \<Longrightarrow> c \<noteq> CHR ''%'' \<and> c \<noteq> CHR ''+'' \<and> c \<noteq> CHR ''&'' \<and> c \<noteq> CHR '';'' \<and> c \<noteq> CHR ''=''"
  by (auto simp: unreserved_def Let_def)

lemma QueryUnescape_code [simp]:
  "QueryUnescape (CHR ''%'' # hex_upper (of_char c div 16) # hex_upper (of_char c mod 16) # s) = map_option ((#) c) (QueryUnescape s)"
  by (simp split: option.splits)

lemma QueryUnescape_plain: "c \<noteq> CHR ''%'' \<Longrightarrow> QueryUnescape (c # s) = map_option ((#) (if c = CHR ''+'' then CHR '' '' else c)) (QueryUnescape s)"
  by simp

declare QueryUnescape.simps(2) [simp del]

text \<open>The two ways of escaping write a character as itself or as its code; both are undone, but for a plus sign that stands in a path.\<close>

lemma unescape_concat:
  assumes "\<And>c. c \<in> set s \<Longrightarrow> \<forall>t. QueryUnescape (e c @ t) = map_option ((#) (f c)) (QueryUnescape t)"
  shows "QueryUnescape (concat (map e s)) = Some (map f s)"
  using assms by (induction s) auto

lemma QueryUnescape_QueryEscape [simp]: "QueryUnescape (QueryEscape s) = Some s"
proof -
  have "QueryUnescape (QueryEscape s) = Some (map (\<lambda>c. c) s)"
    unfolding QueryEscape_def
  proof (rule unescape_concat, intro allI)
    fix c t
    show "QueryUnescape ((if unreserved c then [c] else if c = CHR '' '' then [CHR ''+'']
        else [CHR ''%'', hex_upper (of_char c div 16), hex_upper (of_char c mod 16)]) @ t) = map_option ((#) c) (QueryUnescape t)"
      using unreserved_no_code [of c] by (simp add: QueryUnescape_plain)
  qed
  then show ?thesis by simp
qed

lemma QueryUnescape_PathEscape [simp]: "QueryUnescape (PathEscape s) = Some (map (\<lambda>c. if c = CHR ''+'' then CHR '' '' else c) s)"
  unfolding PathEscape_def
proof (rule unescape_concat, intro allI)
  fix c t
  show "QueryUnescape ((if unreserved c \<or> c \<in> set ''$&+:=@'' then [c]
      else [CHR ''%'', hex_upper (of_char c div 16), hex_upper (of_char c mod 16)]) @ t) =
    map_option ((#) (if c = CHR ''+'' then CHR '' '' else c)) (QueryUnescape t)"
    using unreserved_no_code [of c] by (auto simp: QueryUnescape_plain)
qed

lemma hex_upper_plain: "n < 16 \<Longrightarrow> hex_upper n \<notin> {CHR ''&'', CHR '';'', CHR ''='', CHR '',''}"
proof -
  assume "n < 16"
  then have "n \<in> set [0..<16]" by simp
  moreover have "list_all (\<lambda>n. hex_upper n \<notin> {CHR ''&'', CHR '';'', CHR ''='', CHR '',''}) [0..<16]" by code_simp
  ultimately show ?thesis by (simp add: list_all_iff)
qed

lemma code_plain: "x \<in> set [CHR ''%'', hex_upper (of_char c div 16), hex_upper (of_char c mod 16)] \<Longrightarrow> x \<noteq> CHR ''&'' \<and> x \<noteq> CHR '';'' \<and> x \<noteq> CHR ''=''"
  using hex_upper_plain [of "of_char c div 16"] hex_upper_plain [of "of_char c mod 16"] by auto

lemma QueryEscape_chars:
  assumes "x \<in> set (QueryEscape s)"
  shows "x \<noteq> CHR ''&'' \<and> x \<noteq> CHR '';'' \<and> x \<noteq> CHR ''=''"
proof -
  obtain c where "x \<in> set (if unreserved c then [c] else if c = CHR '' '' then [CHR ''+'']
     else [CHR ''%'', hex_upper (of_char c div 16), hex_upper (of_char c mod 16)])"
    using assms unfolding QueryEscape_def set_concat set_map by blast
  then show ?thesis using unreserved_no_code [of c] code_plain [of x c] by (auto split: if_splits)
qed

lemma PathEscape_chars:
  assumes "CHR ''&'' \<notin> set s" and "x \<in> set (PathEscape s)"
  shows "x \<noteq> CHR ''&'' \<and> x \<noteq> CHR '';''"
proof -
  obtain c where "c \<in> set s" "x \<in> set (if unreserved c \<or> c \<in> set ''$&+:=@'' then [c]
     else [CHR ''%'', hex_upper (of_char c div 16), hex_upper (of_char c mod 16)])"
    using assms(2) unfolding PathEscape_def set_concat set_map by blast
  then show ?thesis using assms(1) unreserved_no_code [of c] code_plain [of x c] by (auto split: if_splits)
qed

definition piece :: "string \<Rightarrow> string \<Rightarrow> string" where
  "piece k v = QueryEscape k @ ''='' @ QueryEscape v"

lemma cut_eq_at [simp]: "CHR ''='' \<notin> set k \<Longrightarrow> cut_eq (k @ CHR ''='' # v) = (k, v)"
  by (induction k) (auto simp: cut_eq_def)

lemma parse_query_pieces:
  "parse_query (map (\<lambda>(k, v). piece k v) kvs) m e = (fold (\<lambda>(k, v). add_value k v) kvs m, e)"
proof (induction kvs arbitrary: m)
  case (Cons kv kvs)
  obtain k v where kv: "kv = (k, v)" by fastforce
  have "\<not> Contains (piece k v) '';''" using QueryEscape_chars by (auto simp: Contains_char piece_def)
  moreover have "cut_eq (piece k v) = (QueryEscape k, QueryEscape v)"
    using QueryEscape_chars [of "CHR ''=''" k] cut_eq_at [of "QueryEscape k" "QueryEscape v"] by (auto simp: piece_def simp del: cut_eq_at)
  moreover have "piece k v \<noteq> []" by (simp add: piece_def)
  ultimately show ?case using Cons kv by simp
qed simp

lemma fold_add_value:
  assumes "distinct (map fst m)" "fst ` set m \<inter> fst ` set acc = {}" "[] \<notin> snd ` set m"
  shows "fold (\<lambda>(k, v). add_value k v) (concat (map (\<lambda>(k, vs). map (Pair k) vs) m)) acc = acc @ m"
  using assms
proof (induction m arbitrary: acc)
  case (Cons kvs m)
  obtain k vs where kvs: "kvs = (k, vs)" by fastforce
  have none: "map_of acc k = None" using Cons.prems(2) kvs by (auto simp: map_of_eq_None_iff)
  have more: "fold (\<lambda>(k, v). add_value k v) (map (Pair k) ws) (acc @ [(k, us)]) = acc @ [(k, us @ ws)]" for us ws
  proof (induction ws arbitrary: us)
    case (Cons w ws)
    have "add_value k w (acc @ [(k, us)]) = acc @ [(k, us @ [w])]"
      using none by (induction acc) (auto simp: add_value_def map_add_def split: if_splits option.splits)
    then show ?case using Cons by simp
  qed simp
  obtain w ws where vs: "vs = w # ws" using Cons.prems(3) kvs by (cases vs) auto
  have "add_value k w acc = acc @ [(k, [w])]"
    using none by (simp add: add_value_def) (induction acc; auto split: if_splits)
  with vs more have "fold (\<lambda>(k, v). add_value k v) (map (Pair k) vs) acc = acc @ [(k, vs)]" by simp
  with Cons kvs show ?case by auto
qed simp

definition values_ok :: "url_values \<Rightarrow> bool" where
  "values_ok m \<longleftrightarrow> distinct (map fst m) \<and> [] \<notin> snd ` set m"

lemma values_ok_update: "values_ok m \<Longrightarrow> vs \<noteq> [] \<Longrightarrow> values_ok (AList.update k vs m)"
  unfolding values_ok_def by (induction m) (auto simp: distinct_update update_keys)

lemma values_ok_add: "values_ok m \<Longrightarrow> values_ok (add_value k v m)"
  by (simp add: add_value_def values_ok_update)

lemma values_ok_parse: "values_ok m \<Longrightarrow> values_ok (fst (parse_query ps m e))"
  by (induction ps m e rule: parse_query.induct) (auto simp: values_ok_add split: prod.splits option.splits)

lemma values_ok_ParseQuery: "values_ok (fst (ParseQuery raw))"
  unfolding ParseQuery_def by (rule values_ok_parse) (simp add: values_ok_def)

lemma ParseQuery_Encode:
  assumes "values_ok m"
  shows "ParseQuery (Encode m) = (sort_key fst m, None)"
proof -
  let ?m = "sort_key fst m"
  let ?kvs = "concat (map (\<lambda>(k, vs). map (Pair k) vs) ?m)"
  have ok: "distinct (map fst ?m)" "[] \<notin> snd ` set ?m"
    using assms by (auto simp: values_ok_def distinct_map)
  have pieces: "concat (map (\<lambda>(k, vs). map (\<lambda>v. QueryEscape k @ ''='' @ QueryEscape v) vs) l) = map (\<lambda>(k, v). piece k v) (concat (map (\<lambda>(k, vs). map (Pair k) vs) l))" for l
    by (induction l) (auto simp: piece_def)
  have "parse_query (map (\<lambda>(k, v). piece k v) ?kvs) [] None = (?m, None)"
    using parse_query_pieces [of ?kvs "[]" None] fold_add_value [OF ok(1) _ ok(2), of "[]"] by simp
  moreover have "\<forall>x \<in> set (map (\<lambda>(k, v). piece k v) ?kvs). CHR ''&'' \<notin> set x"
    using QueryEscape_chars by (auto simp: piece_def)
  moreover have "Encode m = Join (map (\<lambda>(k, v). piece k v) ?kvs) ''&''" by (simp only: Encode_def pieces)
  ultimately show ?thesis
    using Split_Join_char [of "map (\<lambda>(k, v). piece k v) ?kvs" "CHR ''&''"]
    by (cases "map (\<lambda>(k, v). piece k v) ?kvs = []") (auto simp: ParseQuery_def Split_def)
qed

lemma map_of_sort_key: "distinct (map fst m) \<Longrightarrow> map_of (sort_key fst m) = map_of m"
  by (subst map_of_inject_set) (auto simp: distinct_map)

lemma AddFieldManager_raw_query:
  assumes "snd (ParseQuery raw) = None" and "list_all IsPrint u" and "length u \<le> 123"
  shows "\<exists>raw' q. AddFieldManager_raw raw u = (None, raw') \<and> ParseQuery raw' = (q, None) \<and>
    map_of q = (map_of (fst (ParseQuery raw)))(FieldManager \<mapsto> [''cube-'' @ u])"
proof -
  obtain q where q: "ParseQuery raw = (q, None)" using assms(1) by (metis prod.collapse)
  let ?q = "AList.update FieldManager [''cube-'' @ u] q"
  have ok: "values_ok ?q" using values_ok_ParseQuery [of raw] q by (simp add: values_ok_update)
  have "AddFieldManager_raw raw u = (None, Encode ?q)" using q assms by (simp add: AddFieldManager_raw_def AddQuery_raw_def)
  moreover have "map_of (sort_key fst ?q) = (map_of q)(FieldManager \<mapsto> [''cube-'' @ u])"
    using ok map_of_sort_key [of ?q] by (simp add: values_ok_def update_conv')
  ultimately show ?thesis using ParseQuery_Encode [OF ok] q by simp
qed

subsection \<open>Selectors become label selectors\<close>

lemma parse_query_append: "parse_query (xs @ ys) m e = (case parse_query xs m e of (m', e') \<Rightarrow> parse_query ys m' e')"
  by (induction xs m e rule: parse_query.induct) (auto split: prod.splits option.splits)

lemma split_from_chars: "x \<in> set (split_from [c] acc s) \<Longrightarrow> c \<notin> set acc \<Longrightarrow> c \<notin> set x"
proof (induction "[c]" acc s rule: split_from.induct)
  case (2 acc d cs)
  then show ?case by (auto simp: HasPrefix_def split: if_splits)
qed simp

lemma selector_query_plain:
  "(\<forall>v \<in> set vs. \<not> HasPrefix v ''labelSelector'') \<Longrightarrow> selector_query lsq vs q b = (q @ concat (map (\<lambda>v. v @ ''&'') vs), b)"
proof (induction vs arbitrary: q)
  case (Cons v vs)
  have "HasPrefix v ''labelSelector''" if p: "HasPrefix v ''labelSelector=''"
  proof -
    obtain t where "v = ''labelSelector='' @ t" using p unfolding HasPrefix_iff by blast
    then have "v = ''labelSelector'' @ (''='' @ t)" by simp
    then show ?thesis unfolding HasPrefix_iff by blast
  qed
  with Cons show ?case by auto
qed simp

lemma concat_amp_Join: "vs \<noteq> [] \<Longrightarrow> concat (map (\<lambda>v. v @ ''&'') vs) @ ''&'' @ x = Join (vs @ [[], x]) ''&''"
  by (induction vs rule: list_nonempty_induct) (auto simp: Join_Cons)

text \<open>The requirement that a pair of the selector stands for, as Kubernetes writes it.\<close>

definition requirement :: "string \<Rightarrow> string list \<Rightarrow> string" where
  "requirement k vs = k @ '' in ('' @ Join vs '','' @ '')''"

lemma selector_text_concat:
  "(\<forall>(k, vs) \<in> set sel. vs \<noteq> []) \<Longrightarrow>
     selector_text sel s = s @ concat (map (\<lambda>(k, vs). k @ ''+in+('' @ Join vs '','' @ '')'' @ '','') sel)"
proof (induction sel arbitrary: s)
  case (Cons kv sel)
  then show ?case by (cases kv) (auto simp: Suc_le_eq)
qed simp

lemma TrimRight_snoc: "x \<noteq> c \<Longrightarrow> TrimRight (s @ [x, c]) c = s @ [x]"
  by (simp add: TrimRight_def)

lemma selector_text_Join:
  assumes "sel \<noteq> []" and "\<forall>(k, vs) \<in> set sel. vs \<noteq> []"
  shows "TrimRight (selector_text sel []) (CHR '','') = Join (map (\<lambda>(k, vs). k @ ''+in+('' @ Join vs '','' @ '')'') sel) '',''"
proof -
  have J: "concat (map (\<lambda>(k, vs). k @ ''+in+('' @ Join vs '','' @ '')'' @ '','') sel) =
      Join (map (\<lambda>(k, vs). k @ ''+in+('' @ Join vs '','' @ '')'') sel) '','' @ '',''"
    using assms(1) by (induction sel rule: list_nonempty_induct) (auto simp: Join_Cons)
  have "\<exists>s. Join (map (\<lambda>(k, vs). k @ ''+in+('' @ Join vs '','' @ '')'') sel) '','' = s @ '')''"
    using assms(1) by (induction sel rule: list_nonempty_induct) (auto simp: Join_Cons)
  then obtain s where "Join (map (\<lambda>(k, vs). k @ ''+in+('' @ Join vs '','' @ '')'') sel) '','' = s @ '')''" by blast
  with J selector_text_concat [OF assms(2), of "[]"] TrimRight_snoc [of "CHR '')''" "CHR '',''" s] show ?thesis by simp
qed

text \<open>
  Where the query has no label selector of its own, exactly one is added to it, with the requirements
  that the selector stands for. A value with an ampersand would end the parameter: it is not escaped.
\<close>

lemma map_Join: "map f (Join xs sep) = Join (map (map f) xs) (map f sep)"
  by (induction xs sep rule: Join.induct) auto

lemma convertsLabelSelector_query:
  assumes raw: "\<forall>v \<in> set (Split raw ''&''). \<not> HasPrefix v ''labelSelector''"
    and sel: "sel \<noteq> []" "\<forall>(k, vs) \<in> set sel. vs \<noteq> [] \<and> plain k \<and> list_all plain vs"
    and plain: "plain = (\<lambda>s. CHR ''&'' \<notin> set s \<and> CHR ''+'' \<notin> set s)"
  shows "ParseQuery (convertsLabelSelectorForReq raw sel) =
    (add_value ''labelSelector'' (Join (map (\<lambda>(k, vs). requirement k vs) sel) '','') (fst (ParseQuery raw)), snd (ParseQuery raw))"
proof -
  define t where "t = Join (map (\<lambda>(k, vs). k @ ''+in+('' @ Join vs '','' @ '')'') sel) '',''"
  define x where "x = ''labelSelector='' @ PathEscape t"
  let ?f = "\<lambda>c. if c = CHR ''+'' then CHR '' '' else c"
  have ne: "\<forall>(k, vs) \<in> set sel. vs \<noteq> []" using sel(2) by auto
  have id: "map ?f s = s" if "plain s" for s using that plain by (auto intro: map_idI)
  have amp: "CHR ''&'' \<notin> set (Join xs '','')" if "\<And>x. x \<in> set xs \<Longrightarrow> CHR ''&'' \<notin> set x" for xs
    using that by (induction xs "'',''" rule: Join.induct) auto
  have "map ?f (Join vs '','') = Join vs '',''" if "list_all plain vs" for vs
  proof -
    have "map (map ?f) vs = vs" using that id by (auto simp: list_all_iff intro: map_idI)
    then show ?thesis by (simp add: map_Join)
  qed
  then have M: "map (map ?f) (map (\<lambda>(k, vs). k @ ''+in+('' @ Join vs '','' @ '')'') sel) = map (\<lambda>(k, vs). requirement k vs) sel"
    using sel(2) id by (auto simp: requirement_def)
  have dec: "map ?f t = Join (map (\<lambda>(k, vs). requirement k vs) sel) '',''"
    unfolding t_def map_Join M by simp
  have "CHR ''&'' \<notin> set t"
    unfolding t_def
  proof (rule amp)
    fix y
    assume "y \<in> set (map (\<lambda>(k, vs). k @ ''+in+('' @ Join vs '','' @ '')'') sel)"
    then obtain k vs where "(k, vs) \<in> set sel" and y: "y = k @ ''+in+('' @ Join vs '','' @ '')''" by auto
    then have "plain k" "list_all plain vs" using sel(2) by auto
    then show "CHR ''&'' \<notin> set y" using plain amp [of vs] by (auto simp: y list_all_iff)
  qed
  then have xc: "CHR ''&'' \<notin> set x" "\<not> Contains x '';''"
    using PathEscape_chars [of t] by (auto simp: x_def Contains_char)
  have cut: "cut_eq x = (''labelSelector'', PathEscape t)"
    using cut_eq_at [of "''labelSelector''" "PathEscape t"] by (simp add: x_def)
  have un: "QueryUnescape ''labelSelector'' = Some ''labelSelector''" by code_simp
  let ?vs = "Split raw ''&''"
  have "convertsLabelSelectorForReq raw sel = concat (map (\<lambda>v. v @ ''&'') ?vs) @ ''&'' @ x"
  proof -
    have "t = (if length (selector_text sel []) > 0 then TrimRight (selector_text sel []) (CHR '','') else selector_text sel [])"
      using selector_text_Join [OF sel(1) ne] by (cases "selector_text sel [] = []") (simp_all add: t_def TrimRight_def)
    moreover have "length (concat (map (\<lambda>v. v @ ''&'') ?vs)) > 0" using Split_nonempty [of raw "''&''"] by (cases ?vs) auto
    ultimately show ?thesis
      unfolding convertsLabelSelectorForReq_def Let_def selector_query_plain [OF raw] x_def by simp
  qed
  then have "convertsLabelSelectorForReq raw sel = Join (?vs @ [[], x]) ''&''" using concat_amp_Join [of ?vs x] by simp
  moreover have "\<forall>y \<in> set (?vs @ [[], x]). CHR ''&'' \<notin> set y"
    using xc(1) split_from_chars [of _ "CHR ''&''" "[]" raw] by (auto simp: Split_def)
  ultimately have S: "Split (convertsLabelSelectorForReq raw sel) ''&'' = ?vs @ [[], x]"
    using Split_Join_char [of "?vs @ [[], x]" "CHR ''&''"] by simp
  have "x \<noteq> []" by (simp add: x_def)
  then show ?thesis
    unfolding ParseQuery_def S parse_query_append
    using xc(2) cut un dec by (auto split: prod.splits)
qed

text \<open>A value with an ampersand adds a parameter of its own to the query.\<close>

lemma selector_injects:
  "map_of (fst (ParseQuery (convertsLabelSelectorForReq [] [(''a'', [''b&fieldSelector=c'', ''d''])]))) ''fieldSelector'' = Some [''c,d)'']"
  by code_simp

subsection \<open>What is sent on\<close>

lemma first_segment: "HasPrefix url (''/'' @ x @ ''/'') \<Longrightarrow> CHR ''/'' \<notin> set x \<Longrightarrow> url_segments url ! 0 = x"
  by (auto simp: HasPrefix_iff url_segments_def Split_def split_from_char TrimPrefix_def HasPrefix_def)

lemma ParseURL_segments:
  assumes "ParseURL url = Inr r"
  shows "HasPrefix url ''/''" and "url_segments url ! 0 = ''api'' \<Longrightarrow> length (url_segments url) > 2"
    and "url_segments url ! 0 = ''apis'' \<Longrightarrow> length (url_segments url) > 3"
proof -
  have c: "url_is_core url \<and> length (url_segments url) > 2 \<or> url_is_noncore url \<and> length (url_segments url) > 3"
    using assms by (auto simp: ParseURL_def Let_def split: if_splits)
  then show "HasPrefix url ''/''" by (auto simp: url_is_core_def url_is_noncore_def HasPrefix_iff)
  have "url_segments url ! 0 = ''api''" if "url_is_core url" using first_segment [of url "''api''"] that by (simp add: url_is_core_def)
  moreover have "url_segments url ! 0 = ''apis''" if "url_is_noncore url" using first_segment [of url "''apis''"] that by (simp add: url_is_noncore_def)
  ultimately show "url_segments url ! 0 = ''api'' \<Longrightarrow> length (url_segments url) > 2" "url_segments url ! 0 = ''apis'' \<Longrightarrow> length (url_segments url) > 3"
    using c by auto
qed

text \<open>The requests whose answer is a stream, which is not filtered.\<close>

definition streams :: "string \<Rightarrow> string \<Rightarrow> bool" where
  "streams url raw \<longleftrightarrow> ParseBool (query_of raw ''follow'') = Some True \<or> ParseBool (query_of raw ''watch'') = Some True \<or>
     url_segments url ! 0 = ''api'' \<and> url_segments url ! 2 = ''watch'' \<or> url_segments url ! 0 = ''apis'' \<and> url_segments url ! 3 = ''watch''"

lemma needModifyResponse_exact:
  assumes "ParseURL url = Inr r"
  shows "needModifyResponse url raw = Ret (\<not> streams url raw)"
proof -
  note seg = ParseURL_segments [OF assms]
  have "Split (drop 1 url) ''/'' = url_segments url" using seg(1) by (simp add: url_segments_def TrimPrefix_def)
  moreover have "length url > 0" using seg(1) by (auto simp: HasPrefix_def)
  ultimately show ?thesis using seg by (auto simp: needModifyResponse_def streams_def Let_def not_le)
qed

lemma ProxyHandle_sends:
  assumes "Get_mgr (ph_Mgr h) (pc_Cluster c) = (Some ic, None)" and "px_Uri (ic_Client ic) = Inr uri"
    and "ParseURL (pc_Url c) = Inr r" and "tryVersionConvert h c = (Inr None, h')" and "query_of (pc_RawQuery c) ''selector'' = []"
  shows "ProxyHandle h c = (Ret
    (if RelationshipDetermine (px_Cache (ic_Client ic)) (pc_Url c) (pc_Username c) = (False, None) then Refused ForbiddenErr
     else Sent None
       \<lparr>or_Method = pc_Method c, or_Uri = Some uri, or_Host = px_Host (ic_Client ic), or_Path = pc_Url c,
        or_RawQuery = snd (AddFieldManager_raw (pc_RawQuery c) (pc_Username c)),
        or_Header = header_del (header_set (pc_Header c) ImpersonateUserKey (pc_Username c)) AuthorizationHeader, or_Body = pc_Body c\<rparr>
       (if streams (pc_Url c) (pc_RawQuery c) then None else Some (parseQueryParams (pc_RawQuery c), None))), h')"
proof -
  obtain core ns g where r: "r = (core, ns, g)" by (cases r) auto
  have sel: "ParseLabelSelector [] = Ret []" by (simp add: ParseLabelSelector_def)
  obtain allowed e where rel: "RelationshipDetermine (px_Cache (ic_Client ic)) (pc_Url c) (pc_Username c) = (allowed, e)" by fastforce
  note mod = needModifyResponse_exact [OF assms(3), of "pc_RawQuery c"]
  show ?thesis
    using assms r rel sel mod by (auto simp: ProxyHandle_def directerFunc_def Let_def)
qed

lemma proxied_headers:
  "map_of (header_del (header_set header ImpersonateUserKey u) AuthorizationHeader) =
     (map_of header)(ImpersonateUserKey \<mapsto> [u], AuthorizationHeader := None)"
  by (auto simp: header_set_def header_del_def delete_conv' fun_eq_iff)


subsection \<open>A member cluster\<close>

definition member_proxy :: "unit proxy_cluster" where
  "member_proxy = \<lparr>px_Host = ''https://m'', px_Uri = Inr ''https://m'',
     px_Cache = \<lparr>bc_user = (\<lambda>_. Inl NotFound), bc_namespace = (\<lambda>_. Inl NotFound), bc_node = (\<lambda>_. Inl NotFound)\<rparr>, px_NewConverter = Inl NotFound\<rparr>"

definition proxy_lab :: "unit ProxyHandler" where
  "proxy_lab = \<lparr>ph_enableConvert = False,
     ph_Mgr = \<lparr>mg_Clusters = [(''m'', \<lparr>ic_Name = ''m'', ic_Type = MemberClusterT, ic_Client = member_proxy, ic_Scout = None, ic_Version = [],
       ic_RawCluster = None, ic_StopCh = 0\<rparr>)], mg_closed = [], mg_next = 1\<rparr>, ph_converter = []\<rparr>"

definition proxy_request :: "string \<Rightarrow> string \<Rightarrow> proxy_ctx" where
  "proxy_request url u = \<lparr>pc_Method = ''GET'', pc_Cluster = ''m'', pc_Url = url, pc_Username = u, pc_RawQuery = ''limit=5'',
     pc_Header = [(''Impersonate-Group'', [''system:masters''])], pc_Body = Inr []\<rparr>"

lemma proxy_lab_member: "Get_mgr (ph_Mgr proxy_lab) ''m'' = (Some \<lparr>ic_Name = ''m'', ic_Type = MemberClusterT, ic_Client = member_proxy,
    ic_Scout = None, ic_Version = [], ic_RawCluster = None, ic_StopCh = 0\<rparr>, None)"
  by (simp add: proxy_lab_def Get_mgr_def)

lemma proxy_lab_query: "query_of ''limit=5'' ''selector'' = []" "snd (ParseQuery ''limit=5'') = None"
  by code_simp+

lemma proxy_lab_same_version: "tryVersionConvert proxy_lab c = (Inr None, proxy_lab)"
  by (simp add: tryVersionConvert_def proxy_lab_def)


end
