(* ===== verification/PodLogs.thy ===== *)
theory PodLogs
  imports Prelude "HOL-Library.Char_ord" "HOL-Library.List_Lexorder"
begin

section \<open>Pages of a container's log\<close>

text \<open>
  The selection of log lines of \<open>pkg/utils/log/logdefine.go\<close> and the reading of logs of
  \<open>pkg/apiserver/cubeapi/resourcemanage/handle/podlog.go\<close> that uses it. A log grows while it is read, so a page is told
  by its distance from a reference line, and that line by its timestamp and its place among the lines with the same
  timestamp. The client that reads the pod and its log is an argument. Machine integers have 64 bits.
\<close>

subsection \<open>Definitions: lines and selections\<close>

definition LineIndexNotFound :: int where "LineIndexNotFound = -1"
definition DefaultDisplayNumLogLines :: int where "DefaultDisplayNumLogLines = 100"
definition LineReadLimit :: int where "LineReadLimit = 5000"
definition ByteReadLimit :: int where "ByteReadLimit = 500000"
definition NewestTimestamp :: string where "NewestTimestamp = ''newest''"
definition OldestTimestamp :: string where "OldestTimestamp = ''oldest''"
definition Beginning :: string where "Beginning = ''beginning''"
definition End :: string where "End = ''end''"

record LogLine =
  ln_Timestamp :: string
  ln_Content :: string

record LogLineId =
  li_LogTimestamp :: string
  li_LineNum :: int

record Selection =
  sn_ReferencePoint :: LogLineId
  sn_OffsetFrom :: int
  sn_OffsetTo :: int
  sn_LogFilePosition :: string

definition NewestLogLineId :: LogLineId where
  "NewestLogLineId = \<lparr>li_LogTimestamp = NewestTimestamp, li_LineNum = 0\<rparr>"

definition DefaultSelection :: Selection where
  "DefaultSelection = \<lparr>sn_ReferencePoint = NewestLogLineId, sn_OffsetFrom = 1 - DefaultDisplayNumLogLines, sn_OffsetTo = 1, sn_LogFilePosition = End\<rparr>"

definition no_selection :: Selection where
  "no_selection = \<lparr>sn_ReferencePoint = \<lparr>li_LogTimestamp = [], li_LineNum = 0\<rparr>, sn_OffsetFrom = 0, sn_OffsetTo = 0, sn_LogFilePosition = []\<rparr>"

text \<open>\<open>sort.Search\<close> between \<open>i\<close> and \<open>j\<close>.\<close>

function sort_Search :: "(nat \<Rightarrow> bool) \<Rightarrow> nat \<Rightarrow> nat \<Rightarrow> nat" where
  "sort_Search f i j =
     (if i < j
      then let h = (i + j) div 2 in if \<not> f h then sort_Search f (h + 1) j else sort_Search f i h
      else i)"
  by pat_completeness auto
termination
  by (relation "measure (\<lambda>(f, i, j). j - i)") auto

declare sort_Search.simps [simp del]

text \<open>The lines from the first match on that have the timestamp too are counted.\<close>

definition getLineIndex :: "LogLine list \<Rightarrow> LogLineId option \<Rightarrow> int" where
  "getLineIndex l logLineId =
     (case logLineId of
        None \<Rightarrow> int (length l) - 1
      | Some ident \<Rightarrow>
          let logTimestamp = li_LogTimestamp ident
          in if logTimestamp = NewestTimestamp \<or> length l = 0 \<or> logTimestamp = [] then int (length l) - 1
             else if logTimestamp = OldestTimestamp then 0
             else let matchingStartedAt = sort_Search (\<lambda>i. ln_Timestamp (l ! i) \<ge> logTimestamp) 0 (length l);
                      linesMatched = length (takeWhile (\<lambda>x. ln_Timestamp x = logTimestamp) (drop matchingStartedAt l));
                      offset = (if li_LineNum ident < 0 then int linesMatched + li_LineNum ident else li_LineNum ident - 1)
                  in if 0 \<le> offset \<and> offset < int linesMatched then int matchingStartedAt + offset else LineIndexNotFound)"

text \<open>
  The loop walks away from the line, backwards for a positive number and forwards for a negative one, as long
  as the timestamp stays the same.
\<close>

definition createLogLineId :: "LogLine list \<Rightarrow> nat \<Rightarrow> LogLineId go" where
  "createLogLineId l lineIndex =
     (if length l \<le> lineIndex then Panic
      else let logTimestamp = ln_Timestamp (l ! lineIndex);
               same = (\<lambda>x. ln_Timestamp x = logTimestamp);
               offset = (if ln_Timestamp (last l) = logTimestamp then 1 + int (length (takeWhile same (rev (take lineIndex l))))
                         else - 1 - int (length (takeWhile same (drop (lineIndex + 1) l))))
           in Ret \<lparr>li_LogTimestamp = logTimestamp, li_LineNum = offset\<rparr>)"

definition SelectLogs :: "LogLine list \<Rightarrow> Selection \<Rightarrow> (LogLine list \<times> string \<times> string \<times> Selection \<times> bool) go" where
  "SelectLogs l logSelection =
     (let len = int (length l);
          requestedNumItems = wrap64 (sn_OffsetTo logSelection - sn_OffsetFrom logSelection);
          referenceLineIndex = getLineIndex l (Some (sn_ReferencePoint logSelection))
      in if referenceLineIndex = LineIndexNotFound \<or> requestedNumItems \<le> 0 \<or> length l = 0 then Ret ([], [], [], no_selection, False)
         else let fromIndex = wrap64 (referenceLineIndex + sn_OffsetFrom logSelection);
                  toIndex = wrap64 (referenceLineIndex + sn_OffsetTo logSelection);
                  (fromIndex, toIndex, lastPage) =
                    (if requestedNumItems > len then (0, len, True)
                     else if toIndex > len then (wrap64 (fromIndex - wrap64 (toIndex - len)), len, sn_LogFilePosition logSelection = Beginning)
                     else if fromIndex < 0 then (0, wrap64 (toIndex + wrap64 (- fromIndex)), sn_LogFilePosition logSelection = End)
                     else (fromIndex, toIndex, False))
              in go_bind (createLogLineId l (length l div 2)) (\<lambda>ident.
                   if fromIndex < 0 \<or> toIndex < fromIndex \<or> toIndex > len \<or> fromIndex \<ge> len \<or> toIndex < 1 then Panic
                   else Ret (take (nat (toIndex - fromIndex)) (drop (nat fromIndex) l),
                     ln_Timestamp (l ! nat fromIndex), ln_Timestamp (l ! nat (toIndex - 1)),
                     \<lparr>sn_ReferencePoint = ident, sn_OffsetFrom = wrap64 (fromIndex - len div 2), sn_OffsetTo = wrap64 (toIndex - len div 2),
                      sn_LogFilePosition = sn_LogFilePosition logSelection\<rparr>, lastPage)))"

definition to_line :: "string \<Rightarrow> LogLine" where
  "to_line line =
     (let startsWithDate = (case line of [] \<Rightarrow> False | c # _ \<Rightarrow> CHR ''0'' \<le> c \<and> c \<le> CHR ''9'');
          stamp = takeWhile (\<lambda>c. c \<noteq> CHR '' '') line
      in if stamp \<noteq> [] \<and> stamp \<noteq> line \<and> startsWithDate
         then \<lparr>ln_Timestamp = stamp, ln_Content = drop (length stamp + 1) line\<rparr>
         else \<lparr>ln_Timestamp = ''0'', ln_Content = line\<rparr>)"

definition ToLogLines :: "string \<Rightarrow> LogLine list" where
  "ToLogLines rawLogs = map to_line (filter (\<lambda>line. line \<noteq> []) (Split rawLogs [CHR 0x0A]))"

subsection \<open>Definitions: reading logs\<close>

record PodLogOptions =
  lo_Container :: string
  lo_Follow :: bool
  lo_Previous :: bool
  lo_Timestamps :: bool
  lo_LimitBytes :: "int option"
  lo_TailLines :: "int option"

record LogInfo =
  lf_PodName :: string
  lf_ContainerName :: string
  lf_FromDate :: string
  lf_ToDate :: string
  lf_Truncated :: bool

record LogDetails =
  ld_Info :: LogInfo
  ld_Selection :: Selection
  ld_LogLines :: "LogLine list"

definition mapToLogOptions :: "string \<Rightarrow> Selection \<Rightarrow> bool \<Rightarrow> PodLogOptions" where
  "mapToLogOptions container logSelector previous =
     (let opts = \<lparr>lo_Container = container, lo_Follow = False, lo_Previous = previous, lo_Timestamps = True, lo_LimitBytes = None, lo_TailLines = None\<rparr>
      in if sn_LogFilePosition logSelector = Beginning then opts\<lparr>lo_LimitBytes := Some ByteReadLimit\<rparr> else opts\<lparr>lo_TailLines := Some LineReadLimit\<rparr>)"

definition isReadLimitReached :: "int \<Rightarrow> int \<Rightarrow> string \<Rightarrow> bool" where
  "isReadLimitReached bytesLoaded linesLoaded logFilePosition \<longleftrightarrow>
     logFilePosition = Beginning \<and> bytesLoaded \<ge> ByteReadLimit \<or> logFilePosition = End \<and> linesLoaded \<ge> LineReadLimit"

definition ConstructLogDetails :: "string \<Rightarrow> string \<Rightarrow> string \<Rightarrow> Selection \<Rightarrow> LogDetails go" where
  "ConstructLogDetails podID rawLogs container logSelector =
     (let parsedLines = ToLogLines rawLogs
      in go_bind (SelectLogs parsedLines logSelector) (\<lambda>(logLines, fromDate, toDate, logSelection, lastPage).
           let readLimitReached = isReadLimitReached (int (length rawLogs)) (int (length parsedLines)) (sn_LogFilePosition logSelector)
           in Ret \<lparr>ld_Info = \<lparr>lf_PodName = podID, lf_ContainerName = container, lf_FromDate = fromDate, lf_ToDate = toDate,
                     lf_Truncated = (readLimitReached \<and> lastPage)\<rparr>,
                   ld_Selection = logSelection, ld_LogLines = logLines\<rparr>))"

text \<open>
  The pods of the cluster, given by the names of their containers, and their logs: the stream may not open, which is then shown as the log,
  and reading it may fail.
\<close>

record 'w pod_client =
  pk_Containers :: "string \<Rightarrow> string \<Rightarrow> ('w, string list result) state"
  pk_OpenStream :: "string \<Rightarrow> string \<Rightarrow> PodLogOptions \<Rightarrow> ('w, string + string result) state"

definition readRawLogs :: "'w pod_client \<Rightarrow> string \<Rightarrow> string \<Rightarrow> PodLogOptions \<Rightarrow> ('w, string result) state" where
  "readRawLogs client namespace podID logOptions = do {
     r \<leftarrow> pk_OpenStream client namespace podID logOptions;
     State_Monad.return (case r of Inl message \<Rightarrow> Inr message | Inr result \<Rightarrow> result)
   }"

definition GetLogDetails :: "'w pod_client \<Rightarrow> string \<Rightarrow> string \<Rightarrow> string \<Rightarrow> Selection \<Rightarrow> bool \<Rightarrow> ('w, LogDetails result go) state" where
  "GetLogDetails client namespace podID container logSelector usePreviousLogs = do {
     r \<leftarrow> pk_Containers client namespace podID;
     case r of
       Inl e \<Rightarrow> State_Monad.return (Ret (Inl e))
     | Inr containers \<Rightarrow>
         if length container = 0 \<and> containers = [] then State_Monad.return Panic
         else do {
           let container = (if length container = 0 then hd containers else container);
           r \<leftarrow> readRawLogs client namespace podID (mapToLogOptions container logSelector usePreviousLogs);
           State_Monad.return (case r of
             Inl e \<Rightarrow> Ret (Inl e)
           | Inr rawLogs \<Rightarrow> go_bind (ConstructLogDetails podID rawLogs container logSelector) (\<lambda>details. Ret (Inr details)))
         }
   }"

text \<open>The selection that the query of a request asks for; without both offsets it is the default one.\<close>

definition log_selection :: "(string \<Rightarrow> string) \<Rightarrow> Selection" where
  "log_selection query =
     (let refTimestamp = (if query ''referenceTimestamp'' = [] then NewestTimestamp else query ''referenceTimestamp'');
          refLineNum = (case Atoi (query ''referenceLineNum'') of None \<Rightarrow> 0 | Some n \<Rightarrow> n)
      in case (Atoi (query ''offsetFrom''), Atoi (query ''offsetTo'')) of
           (Some offsetFrom, Some offsetTo) \<Rightarrow>
             \<lparr>sn_ReferencePoint = \<lparr>li_LogTimestamp = refTimestamp, li_LineNum = refLineNum\<rparr>, sn_OffsetFrom = offsetFrom, sn_OffsetTo = offsetTo,
              sn_LogFilePosition = query ''logFilePosition''\<rparr>
         | _ \<Rightarrow> DefaultSelection)"

text \<open>An error is answered as a bad request, details as a success.\<close>

definition HandleLogs :: "'w pod_client \<Rightarrow> string \<Rightarrow> string \<Rightarrow> (string \<Rightarrow> string) \<Rightarrow> ('w, LogDetails result go) state" where
  "HandleLogs client namespace podID query =
     GetLogDetails client namespace podID (query ''containerName'') (log_selection query) (query ''previous'' = ''true'')"

subsection \<open>Finding a line again\<close>

lemma sort_Search_least:
  assumes "i \<le> k" "k \<le> j" "\<And>x. i \<le> x \<Longrightarrow> x < k \<Longrightarrow> \<not> f x" "\<And>x. k \<le> x \<Longrightarrow> x < j \<Longrightarrow> f x"
  shows "sort_Search f i j = k"
  using assms
proof (induction f i j rule: sort_Search.induct)
  case (1 f i j)
  show ?case
  proof (cases "i < j")
    case True
    let ?h = "(i + j) div 2"
    have h: "i \<le> ?h" "?h < j" using True by auto
    show ?thesis
    proof (cases "f ?h")
      case True
      then have "k \<le> ?h" using 1(5) [of ?h] h by (meson not_le_imp_less)
      with True \<open>i < j\<close> 1 h show ?thesis by (subst sort_Search.simps) (simp add: Let_def)
    next
      case False
      then have "?h < k" using 1(6) [of ?h] h by (meson not_le_imp_less)
      with False \<open>i < j\<close> 1 h show ?thesis by (subst sort_Search.simps) (simp add: Let_def)
    qed
  next
    case False
    with 1 show ?thesis by (subst sort_Search.simps) auto
  qed
qed

text \<open>The timestamps of a sorted log: those before, a block of the same, and those after.\<close>

lemma sorted_block:
  assumes "sorted (xs :: string list)"
  shows "xs = filter (\<lambda>y. y < t) xs @ replicate (count_list xs t) t @ filter (\<lambda>y. t < y) xs"
  using assms
proof (induction xs)
  case (Cons x xs)
  show ?case
  proof (cases "x < t")
    case True
    with Cons show ?thesis by auto
  next
    case False
    then have "filter (\<lambda>y. y < t) xs = []" using Cons.prems by (auto simp: filter_empty_conv)
    moreover have "count_list xs t = 0" if "t < x" using Cons.prems that by (auto simp: count_list_0_iff)
    moreover have "filter (\<lambda>y. t < y) xs = xs" if "t < x" using Cons.prems that by (intro filter_True) auto
    ultimately show ?thesis using Cons False by (cases "x = t") auto
  qed
qed simp

abbreviation stamps :: "LogLine list \<Rightarrow> string list" where
  "stamps l \<equiv> map ln_Timestamp l"

definition before :: "string \<Rightarrow> LogLine list \<Rightarrow> nat" where
  "before t l = length (filter (\<lambda>y. y < t) (stamps l))"

lemma nth_block:
  assumes "(A @ replicate n (t :: string) @ C) ! i = t" and "i < length (A @ replicate n t @ C)"
    and "\<And>y. y \<in> set A \<Longrightarrow> y < t" and "\<And>y. y \<in> set C \<Longrightarrow> t < y"
  shows "length A \<le> i \<and> i < length A + n"
proof (rule ccontr)
  assume "\<not> (length A \<le> i \<and> i < length A + n)"
  then consider "i < length A" | "length A + n \<le> i" by linarith
  then show False
  proof cases
    case 1
    then have "A ! i = t" using assms(1) by (simp add: nth_append)
    then have "t \<in> set A" using nth_mem [OF 1] by simp
    with assms(3) [of t] show False by simp
  next
    case 2
    then have C: "C ! (i - length A - n) = t" "i - length A - n < length C" using assms(1,2) by (auto simp: nth_append split: if_splits)
    then have "t \<in> set C" using nth_mem [OF C(2)] by simp
    with assms(4) [of t] show False by simp
  qed
qed

lemma block_index:
  assumes "sorted (stamps l)" and "i < length l" and "ln_Timestamp (l ! i) = t"
  shows "before t l \<le> i \<and> i < before t l + count_list (stamps l) t"
  unfolding before_def
proof (rule nth_block)
  show "(filter (\<lambda>y. y < t) (stamps l) @ replicate (count_list (stamps l) t) t @ filter (\<lambda>y. t < y) (stamps l)) ! i = t"
    using sorted_block [OF assms(1), of t] assms(2,3) by (metis nth_map)
  show "i < length (filter (\<lambda>y. y < t) (stamps l) @ replicate (count_list (stamps l) t) t @ filter (\<lambda>y. t < y) (stamps l))"
    using sorted_block [OF assms(1), of t] assms(2) by (metis length_map)
qed auto

lemma block_drop:
  assumes "sorted (stamps l)" and "before t l \<le> i" and "i \<le> before t l + count_list (stamps l) t"
  shows "length (takeWhile (\<lambda>x. ln_Timestamp x = t) (drop i l)) = before t l + count_list (stamps l) t - i"
    and "length (takeWhile (\<lambda>x. ln_Timestamp x = t) (rev (take i l))) = i - before t l"
proof -
  define A where "A = filter (\<lambda>y. y < t) (stamps l)"
  define C where "C = filter (\<lambda>y. t < y) (stamps l)"
  define n where "n = count_list (stamps l) t"
  have B: "stamps l = A @ replicate n t @ C" unfolding A_def n_def C_def by (rule sorted_block [OF assms(1)])
  have a: "before t l = length A" by (simp only: before_def A_def)
  have i: "length A \<le> i" "i \<le> length A + n" using assms(2,3) a n_def by auto
  have A: "\<And>y. y \<in> set A \<Longrightarrow> y < t" and C: "\<And>y. y \<in> set C \<Longrightarrow> t < y" by (auto simp: A_def C_def)
  have m: "length (takeWhile (\<lambda>x. ln_Timestamp x = t) k) = length (takeWhile (\<lambda>y. y = t) (stamps k))" for k
    by (simp add: takeWhile_map comp_def)
  have tC: "takeWhile (\<lambda>y. y = t) C = []" using C by (cases C) auto
  have tA: "takeWhile (\<lambda>y. y = t) (rev A) = []" using A by (cases "rev A") auto
  have "stamps (drop i l) = replicate (length A + n - i) t @ C" using i by (simp add: drop_map [symmetric] B)
  moreover have "takeWhile (\<lambda>y. y = t) (replicate k t @ C) = replicate k t" for k using tC by (induction k) simp_all
  ultimately show "length (takeWhile (\<lambda>x. ln_Timestamp x = t) (drop i l)) = before t l + count_list (stamps l) t - i"
    by (simp only: m a n_def [symmetric] length_replicate)
  have "stamps (rev (take i l)) = replicate (i - length A) t @ rev A"
    using i by (simp add: rev_map [symmetric] take_map [symmetric] B min_def) linarith
  moreover have "takeWhile (\<lambda>y. y = t) (replicate k t @ rev A) = replicate k t" for k using tA by (induction k) simp_all
  ultimately show "length (takeWhile (\<lambda>x. ln_Timestamp x = t) (rev (take i l))) = i - before t l"
    by (simp only: m a length_replicate)
qed

text \<open>A line is found again by its own timestamp, in the log it was taken from and in every longer one.\<close>

definition proper_lines :: "LogLine list \<Rightarrow> bool" where
  "proper_lines l \<longleftrightarrow> sorted (stamps l) \<and> set (stamps l) \<inter> {NewestTimestamp, OldestTimestamp, []} = {}"

lemma getLineIndex_sorted:
  assumes "proper_lines l" and "t \<in> set (stamps l)"
  shows "getLineIndex l (Some \<lparr>li_LogTimestamp = t, li_LineNum = k\<rparr>) =
    (let n = int (count_list (stamps l) t); offset = (if k < 0 then n + k else k - 1)
     in if 0 \<le> offset \<and> offset < n then int (before t l) + offset else LineIndexNotFound)"
proof -
  have s: "sorted (stamps l)" and t: "t \<noteq> NewestTimestamp" "t \<noteq> OldestTimestamp" "t \<noteq> []" "l \<noteq> []"
    using assms unfolding proper_lines_def by (blast, blast, blast, blast, auto)
  have len: "length (stamps l) = before t l + (count_list (stamps l) t + length (filter (\<lambda>y. t < y) (stamps l)))"
    unfolding before_def by (metis sorted_block [OF s] length_append length_replicate)
  have le: "t \<le> ln_Timestamp (l ! i) \<longleftrightarrow> before t l \<le> i" if "i < length l" for i
  proof -
    have B: "stamps l ! i = (filter (\<lambda>y. y < t) (stamps l) @ replicate (count_list (stamps l) t) t @ filter (\<lambda>y. t < y) (stamps l)) ! i"
      using sorted_block [OF s, of t] by simp
    show ?thesis
    proof (cases "i < before t l")
      case True
      then have "stamps l ! i \<in> set (filter (\<lambda>y. y < t) (stamps l))" unfolding B by (simp only: nth_append before_def if_True nth_mem)
      then show ?thesis using True that by auto
    next
      case False
      have "sorted (stamps l)" by fact
      moreover have "\<not> stamps l ! i < t"
      proof
        assume lt: "stamps l ! i < t"
        obtain r where r: "i = before t l + r" using False le_Suc_ex not_le by blast
        have "stamps l ! i = (replicate (count_list (stamps l) t) t @ filter (\<lambda>y. t < y) (stamps l)) ! r"
          unfolding B unfolding r before_def by (rule nth_append_length_plus)
        moreover have "r < length (replicate (count_list (stamps l) t) t @ filter (\<lambda>y. t < y) (stamps l))"
          using that len r by simp
        ultimately have "stamps l ! i \<in> set (replicate (count_list (stamps l) t) t @ filter (\<lambda>y. t < y) (stamps l))" by (metis nth_mem)
        then have "t \<le> stamps l ! i" by (auto split: if_splits)
        with lt show False by simp
      qed
      ultimately show ?thesis using False that by (simp add: not_less)
    qed
  qed
  have "sort_Search (\<lambda>i. t \<le> ln_Timestamp (l ! i)) 0 (length l) = before t l"
    by (rule sort_Search_least) (use le len in auto)
  moreover have "length (takeWhile (\<lambda>x. ln_Timestamp x = t) (drop (before t l) l)) = count_list (stamps l) t"
    using block_drop(1) [OF s, of t "before t l"] by simp
  ultimately show ?thesis using t by (auto simp: getLineIndex_def Let_def)
qed

lemma createLogLineId_found:
  assumes "proper_lines (l @ later)" and "i < length l"
  shows "\<exists>ident. createLogLineId l i = Ret ident \<and> getLineIndex (l @ later) (Some ident) = int i"
proof -
  define t where "t = ln_Timestamp (l ! i)"
  let ?b = "before t l" and ?n = "count_list (stamps l) t"
  have s: "sorted (stamps l)" "\<And>x y. x \<in> set l \<Longrightarrow> y \<in> set later \<Longrightarrow> ln_Timestamp x \<le> ln_Timestamp y"
    using assms(1) by (auto simp: proper_lines_def sorted_append)
  have t: "t \<in> set (stamps (l @ later))" "l ! i \<in> set l" "l \<noteq> []" using assms(2) by (auto simp: t_def)
  have b: "?b \<le> i" "i < ?b + ?n" using block_index [OF s(1) assms(2) t_def [symmetric]] by auto
  have "filter (\<lambda>y. y < t) (stamps later) = []" using s(2) [OF t(2)] by (auto simp: filter_empty_conv t_def not_less)
  then have b': "before t (l @ later) = ?b" by (simp add: before_def)
  note found = getLineIndex_sorted [OF assms(1) t(1)]
  show ?thesis
  proof (cases "ln_Timestamp (last l) = t")
    case True
    then have "createLogLineId l i = Ret \<lparr>li_LogTimestamp = t, li_LineNum = 1 + int (i - ?b)\<rparr>"
      using assms(2) block_drop(2) [OF s(1) b(1)] b(2) by (simp add: createLogLineId_def Let_def t_def)
    moreover have "getLineIndex (l @ later) (Some \<lparr>li_LogTimestamp = t, li_LineNum = 1 + int (i - ?b)\<rparr>) = int i"
      unfolding found b' Let_def using b by (auto simp: of_nat_diff)
    ultimately show ?thesis by blast
  next
    case False
    have l: "last l \<in> set l" "t \<le> ln_Timestamp (last l)"
      using t(3) s(1) sorted_nth_mono [OF s(1), of i "length l - 1"] assms(2) by (auto simp: t_def last_conv_nth)
    have "t \<notin> set (stamps later)" using s(2) [OF l(1)] l(2) False by fastforce
    then have n: "count_list (stamps (l @ later)) t = ?n" by (simp add: count_list_0_iff)
    have "createLogLineId l i = Ret \<lparr>li_LogTimestamp = t, li_LineNum = - 1 - int (?b + ?n - (i + 1))\<rparr>"
      using assms(2) False block_drop(1) [OF s(1), of t "i + 1"] b by (simp add: createLogLineId_def Let_def t_def)
    moreover have "getLineIndex (l @ later) (Some \<lparr>li_LogTimestamp = t, li_LineNum = - 1 - int (?b + ?n - (i + 1))\<rparr>) = int i"
      unfolding found b' n Let_def using b by (auto simp: of_nat_diff)
    ultimately show ?thesis by blast
  qed
qed

subsection \<open>Pages\<close>

definition small_selection :: "Selection \<Rightarrow> bool" where
  "small_selection sel \<longleftrightarrow> \<bar>sn_OffsetFrom sel\<bar> < 2 ^ 61 \<and> \<bar>sn_OffsetTo sel\<bar> < 2 ^ 61"

text \<open>The first line of the page and its length: as asked for, moved so that it lies within the log.\<close>

definition page_start :: "LogLine list \<Rightarrow> int \<Rightarrow> Selection \<Rightarrow> nat" where
  "page_start l ref sel = nat (max 0 (min (ref + sn_OffsetFrom sel) (int (length l) - (sn_OffsetTo sel - sn_OffsetFrom sel))))"

definition page_size :: "LogLine list \<Rightarrow> Selection \<Rightarrow> nat" where
  "page_size l sel = min (length l) (nat (sn_OffsetTo sel - sn_OffsetFrom sel))"

lemma SelectLogs_run:
  assumes "small_selection sel" and "sn_OffsetFrom sel < sn_OffsetTo sel" and "length l < 2 ^ 61"
    and "getLineIndex l (Some (sn_ReferencePoint sel)) = ref" and "0 \<le> ref" and "ref < int (length l)"
    and "createLogLineId l (length l div 2) = Ret ident"
  shows "\<exists>lastPage. SelectLogs l sel = Ret (take (page_size l sel) (drop (page_start l ref sel) l),
    ln_Timestamp (l ! page_start l ref sel), ln_Timestamp (l ! (page_start l ref sel + page_size l sel - 1)),
    \<lparr>sn_ReferencePoint = ident, sn_OffsetFrom = int (page_start l ref sel) - int (length l div 2),
     sn_OffsetTo = int (page_start l ref sel + page_size l sel) - int (length l div 2), sn_LogFilePosition = sn_LogFilePosition sel\<rparr>, lastPage)
   \<and> 0 < page_size l sel \<and> page_start l ref sel + page_size l sel \<le> length l"
proof -
  define f where "f = sn_OffsetFrom sel"
  define t where "t = sn_OffsetTo sel"
  define n where "n = int (length l)"
  have b: "\<bar>f\<bar> < 2 ^ 61" "\<bar>t\<bar> < 2 ^ 61" "f < t" "n < 2 ^ 61" "0 < n" "0 \<le> ref" "ref < n"
    using assms by (auto simp: small_selection_def f_def t_def n_def)
  have P: "(2 :: int) ^ 63 = 4 * 2 ^ 61" by simp
  have w: "wrap64 (t - f) = t - f" "wrap64 (ref + f) = ref + f" "wrap64 (ref + t) = ref + t" "wrap64 (- (ref + f)) = - (ref + f)"
    "wrap64 (ref + t - n) = ref + t - n" "wrap64 (ref + f - (ref + t - n)) = ref + f - (ref + t - n)" "wrap64 (ref + t + - (ref + f)) = ref + t + - (ref + f)"
    using b by - (rule wrap64_id; unfold P; linarith)+
  have w2: "wrap64 (x - n div 2) = x - n div 2" if "0 \<le> x" "x \<le> n" for x using that b by - (rule wrap64_id; unfold P; linarith)
  let ?from = "if t - f > n then 0 else if ref + t > n then ref + f - (ref + t - n) else if ref + f < 0 then 0 else ref + f"
  let ?to = "if t - f > n then n else if ref + t > n then n else if ref + f < 0 then ref + t + - (ref + f) else ref + t"
  have st: "int (page_start l ref sel) = ?from" "int (page_start l ref sel + page_size l sel) = ?to" "0 \<le> ?from" "?from < ?to" "?to \<le> n"
    using b by (auto simp: page_start_def page_size_def f_def [symmetric] t_def [symmetric] n_def)
  obtain lastPage where "SelectLogs l sel = (if ?from < 0 \<or> ?to < ?from \<or> ?to > n \<or> ?from \<ge> n \<or> ?to < 1 then Panic
      else Ret (take (nat (?to - ?from)) (drop (nat ?from) l), ln_Timestamp (l ! nat ?from), ln_Timestamp (l ! nat (?to - 1)),
        \<lparr>sn_ReferencePoint = ident, sn_OffsetFrom = wrap64 (?from - n div 2), sn_OffsetTo = wrap64 (?to - n div 2),
         sn_LogFilePosition = sn_LogFilePosition sel\<rparr>, lastPage))"
  proof -
    have nf: "\<not> (ref = LineIndexNotFound \<or> t - f \<le> 0 \<or> length l = 0)" using b by (auto simp: LineIndexNotFound_def n_def)
    let ?last = "if t - f > n then True else if ref + t > n then sn_LogFilePosition sel = Beginning
      else if ref + f < 0 then sn_LogFilePosition sel = End else False"
    have tuple: "(if t - f > n then (0, n, True) else if ref + t > n then (ref + f - (ref + t - n), n, sn_LogFilePosition sel = Beginning)
       else if ref + f < 0 then (0, ref + t + - (ref + f), sn_LogFilePosition sel = End) else (ref + f, ref + t, False)) = (?from, ?to, ?last)"
      by simp
    show thesis
      by (rule that [of ?last])
        (unfold SelectLogs_def Let_def assms(4,7) f_def [symmetric] t_def [symmetric] n_def [symmetric] w if_not_P [OF nf] tuple prod.case go_bind.simps, rule refl)
  qed
  moreover have "nat ?from = page_start l ref sel" "nat (?to - ?from) = page_size l sel" "nat (?to - 1) = page_start l ref sel + page_size l sel - 1"
    using st by linarith+
  moreover have "wrap64 (?from - n div 2) = int (page_start l ref sel) - int (length l div 2)"
      "wrap64 (?to - n div 2) = int (page_start l ref sel + page_size l sel) - int (length l div 2)"
    using w2 [of ?from] w2 [of ?to] st by (auto simp: n_def)
  moreover have "0 < page_size l sel" "page_start l ref sel + page_size l sel \<le> length l" using st by (auto simp: n_def)
  ultimately show ?thesis using st(3-5) by auto
qed

lemma getLineIndex_range:
  assumes "l \<noteq> []"
  shows "getLineIndex l ident = LineIndexNotFound \<or> 0 \<le> getLineIndex l ident \<and> getLineIndex l ident < int (length l)"
proof (cases ident)
  case (Some x)
  define s where "s = sort_Search (\<lambda>i. ln_Timestamp (l ! i) \<ge> li_LogTimestamp x) 0 (length l)"
  define m where "m = length (takeWhile (\<lambda>y. ln_Timestamp y = li_LogTimestamp x) (drop s l))"
  have "m = 0 \<or> s + m \<le> length l"
    using length_takeWhile_le [of "\<lambda>y. ln_Timestamp y = li_LogTimestamp x" "drop s l"] by (auto simp: m_def)
  moreover have "length l > 0" using assms by simp
  ultimately show ?thesis
    unfolding getLineIndex_def Some option.case Let_def s_def [symmetric] m_def [symmetric] LineIndexNotFound_def by auto
qed (use assms in \<open>simp add: getLineIndex_def Suc_le_eq\<close>)

lemma take_drop_append: "i + n \<le> length l \<Longrightarrow> take n (drop i (l @ k)) = take n (drop i l)"
  by simp

text \<open>
  C34: a page stays where it is while the log grows. For a log in the order of its timestamps and a selection whose
  reference line is found, the answer is a page of consecutive lines, of exactly the number that was asked for or of all lines
  where there are fewer, with the timestamps of its first and last line. The selection that is answered with the page
  gives the same lines again, on the same log and on every log that has grown at its end since.
\<close>

theorem SelectLogs_stable:
  assumes "proper_lines l" and "length l < 2 ^ 61" and "small_selection sel" and "sn_OffsetFrom sel < sn_OffsetTo sel"
    and "l \<noteq> []" and "getLineIndex l (Some (sn_ReferencePoint sel)) \<noteq> LineIndexNotFound"
  shows "\<exists>i n sel' lastPage. n = min (length l) (nat (sn_OffsetTo sel - sn_OffsetFrom sel)) \<and> i + n \<le> length l \<and>
    SelectLogs l sel = Ret (take n (drop i l), ln_Timestamp (l ! i), ln_Timestamp (l ! (i + n - 1)), sel', lastPage) \<and>
    (\<forall>later. proper_lines (l @ later) \<and> length (l @ later) < 2 ^ 61 \<longrightarrow>
      (\<exists>sel'' lastPage'. SelectLogs (l @ later) sel' =
        Ret (take n (drop i l), ln_Timestamp (l ! i), ln_Timestamp (l ! (i + n - 1)), sel'', lastPage')))"
proof -
  define ref where "ref = getLineIndex l (Some (sn_ReferencePoint sel))"
  have ref: "0 \<le> ref" "ref < int (length l)"
    using getLineIndex_range [OF assms(5), of "Some (sn_ReferencePoint sel)"] assms(6) by (auto simp: ref_def)
  let ?m = "length l div 2" and ?i = "page_start l ref sel" and ?n = "page_size l sel"
  have m: "?m < length l" using assms(5) by (cases l) auto
  obtain ident where ident: "createLogLineId l ?m = Ret ident"
    using createLogLineId_found [of l "[]"] assms(1) m by fastforce
  obtain lastPage where run: "SelectLogs l sel = Ret (take ?n (drop ?i l), ln_Timestamp (l ! ?i), ln_Timestamp (l ! (?i + ?n - 1)),
      \<lparr>sn_ReferencePoint = ident, sn_OffsetFrom = int ?i - int ?m, sn_OffsetTo = int (?i + ?n) - int ?m, sn_LogFilePosition = sn_LogFilePosition sel\<rparr>, lastPage)"
    and n: "0 < ?n" "?i + ?n \<le> length l"
    using SelectLogs_run [OF assms(3,4,2) ref_def [symmetric] ref ident] by blast
  let ?sel = "\<lparr>sn_ReferencePoint = ident, sn_OffsetFrom = int ?i - int ?m, sn_OffsetTo = int (?i + ?n) - int ?m, sn_LogFilePosition = sn_LogFilePosition sel\<rparr>"
  have "\<exists>sel'' lastPage'. SelectLogs (l @ later) ?sel = Ret (take ?n (drop ?i l), ln_Timestamp (l ! ?i), ln_Timestamp (l ! (?i + ?n - 1)), sel'', lastPage')"
    if later: "proper_lines (l @ later)" "length (l @ later) < 2 ^ 61" for later
  proof -
    have found: "getLineIndex (l @ later) (Some (sn_ReferencePoint ?sel)) = int ?m"
      using createLogLineId_found [OF later(1) m] ident by simp
    obtain ident' where ident': "createLogLineId (l @ later) (length (l @ later) div 2) = Ret ident'"
      using createLogLineId_found [of "l @ later" "[]" "length (l @ later) div 2"] later(1) assms(5) by fastforce
    have small: "small_selection ?sel" using n m assms(2) by (auto simp: small_selection_def)
    have same: "page_start (l @ later) (int ?m) ?sel = ?i" "page_size (l @ later) ?sel = ?n"
      using n by (auto simp: page_start_def [of "l @ later"] page_size_def [of "l @ later"])
    have lt: "sn_OffsetFrom ?sel < sn_OffsetTo ?sel" using n(1) by simp
    have mm: "0 \<le> int ?m" "int ?m < int (length (l @ later))" using m by auto
    have nth: "(l @ later) ! ?i = l ! ?i" "(l @ later) ! (?i + ?n - 1) = l ! (?i + ?n - 1)" using n by (auto simp: nth_append)
    show ?thesis
      using SelectLogs_run [OF small lt later(2) found mm ident'] unfolding same nth take_drop_append [OF n(2)] by blast
  qed
  with run n(2) show ?thesis unfolding page_size_def by blast
qed

text \<open>Large offsets wrap around and panic.\<close>

definition three_lines :: "LogLine list" where
  "three_lines = ToLogLines (''2023-01-01 a'' @ [CHR 0x0A] @ ''2023-01-02 b'' @ [CHR 0x0A] @ ''2023-01-03 c'')"

lemma SelectLogs_overflow:
  "SelectLogs three_lines \<lparr>sn_ReferencePoint = NewestLogLineId, sn_OffsetFrom = 2 ^ 63 - 4, sn_OffsetTo = 2 ^ 63 - 1, sn_LogFilePosition = End\<rparr> = Panic"
  by code_simp

definition last_two :: Selection where
  "last_two = \<lparr>sn_ReferencePoint = NewestLogLineId, sn_OffsetFrom = - 1, sn_OffsetTo = 1, sn_LogFilePosition = End\<rparr>"

theorem SelectLogs_stable_witness:
  "\<exists>sel' lastPage. SelectLogs three_lines last_two = Ret (drop 1 three_lines, ''2023-01-02'', ''2023-01-03'', sel', lastPage) \<and>
     (\<exists>sel'' lastPage'. SelectLogs (three_lines @ [\<lparr>ln_Timestamp = ''2023-01-04'', ln_Content = ''d''\<rparr>]) sel' =
        Ret (drop 1 three_lines, ''2023-01-02'', ''2023-01-03'', sel'', lastPage'))"
proof -
  have l: "three_lines = [\<lparr>ln_Timestamp = ''2023-01-01'', ln_Content = ''a''\<rparr>, \<lparr>ln_Timestamp = ''2023-01-02'', ln_Content = ''b''\<rparr>,
      \<lparr>ln_Timestamp = ''2023-01-03'', ln_Content = ''c''\<rparr>]"
    by code_simp
  have p: "proper_lines three_lines" "proper_lines (three_lines @ [\<lparr>ln_Timestamp = ''2023-01-04'', ln_Content = ''d''\<rparr>])"
    by code_simp+
  have s: "small_selection last_two" by (simp add: small_selection_def last_two_def)
  have f: "getLineIndex three_lines (Some (sn_ReferencePoint last_two)) \<noteq> LineIndexNotFound" by code_simp
  have page: "fst (case SelectLogs three_lines last_two of Ret r \<Rightarrow> r) = drop 1 three_lines" by code_simp
  have len: "length three_lines < 2 ^ 61" and ne: "three_lines \<noteq> []" by (simp_all add: l)
  have lt: "sn_OffsetFrom last_two < sn_OffsetTo last_two" by (simp add: last_two_def)
  obtain i n sel' lastPage where n0: "n = min (length three_lines) (nat (sn_OffsetTo last_two - sn_OffsetFrom last_two))" "i + n \<le> length three_lines"
    and n1: "SelectLogs three_lines last_two =
      Ret (take n (drop i three_lines), ln_Timestamp (three_lines ! i), ln_Timestamp (three_lines ! (i + n - 1)), sel', lastPage)"
    and st: "\<forall>later. proper_lines (three_lines @ later) \<and> length (three_lines @ later) < 2 ^ 61 \<longrightarrow>
      (\<exists>sel'' lastPage'. SelectLogs (three_lines @ later) sel' = Ret (take n (drop i three_lines), ln_Timestamp (three_lines ! i),
        ln_Timestamp (three_lines ! (i + n - 1)), sel'', lastPage'))"
    using SelectLogs_stable [OF p(1) len s lt ne f] by blast
  have n: "n = 2" "i \<le> 1" using n0 by (simp_all add: l last_two_def)
  have "take 2 (drop i three_lines) = drop 1 three_lines" using page n1 n by simp
  moreover have "i = 0 \<or> i = 1" using n(2) by auto
  ultimately have i: "i = 1" by (auto simp: l)
  have v: "take 2 (drop 1 three_lines) = drop 1 three_lines" "ln_Timestamp (three_lines ! 1) = ''2023-01-02''" "ln_Timestamp (three_lines ! 2) = ''2023-01-03''"
    by (simp_all add: l numeral_2_eq_2)
  have "length (three_lines @ [\<lparr>ln_Timestamp = ''2023-01-04'', ln_Content = ''d''\<rparr>]) < 2 ^ 61" by (simp add: l)
  then show ?thesis using n1 st p(2) unfolding i n(1) by (metis v add_diff_cancel_left' one_add_one)
qed

end
