(* ===== verification/Spec2Isabelle.thy ===== *)
theory Spec2Isabelle
  imports ApiPath ListFilter Hotplug QuotaSystem QuotaController RoleMapping MultiCluster UserSystem BindingController Worker Admission ClusterController Accounts SyncMgr ExternalAccess RoleControllers AuthzApi
    ClusterApi AuditTrail ApiProxy PodLogs
begin

text \<open>
  A verification of KubeCube, which manages several Kubernetes clusters for tenants and their projects.

  \<^bold>\<open>The program.\<close> The control plane, \<open>cube\<close>, runs in the pivot cluster: an API server for users and the web console
  (\<open>pkg/apiserver\<close>), controllers and webhooks on its own resources (\<open>pkg/ctrlmgr\<close>), and a table of the clusters it has
  joined, each with a scout that listens for heartbeats (\<open>pkg/multicluster\<close>). In every cluster runs a \<open>warden\<close>
  (\<open>pkg/warden\<close>): it copies resources from the pivot cluster, turns tenants, projects and users into namespaces and role
  bindings, checks quotas of namespaces, installs components, and proxies requests to the local API server in the
  name of a user. Libraries below \<open>pkg\<close> are shared by both: authorization, quotas, conversion of API versions, filters.
  The parts meet in the objects that they read and write at an API server; a user is created at the API
  server, synchronised to each cluster, turned into role bindings there and recognised by the authorizer.

  \<^bold>\<open>The model.\<close> Every function of the source is a HOL function under its own name, with a suffix where several packages use
  the same name. A Go string is a list of bytes, a map that may be nil is an option of an association list,
  \<open>int\<close> wraps at 64 bits where it matters (\<open>wrap64\<close>), quantities count nano units. A panic is the value \<open>Panic\<close> of the type
  \<open>'a go\<close>, an error the left side of a sum or an option. What talks to an API server is a function in the state
  monad over an abstract world, and the API server is a record of its operations (\<open>client\<close> of KubeApi); theorems state
  what they rely on of it as predicates over a view of the world, \<open>reads\<close>, \<open>updates\<close>, \<open>inserts\<close>, \<open>removes\<close>, and each such
  predicate is shown to hold of a store of objects in a list. Loops are structural recursions, or functions with a measure.

  \<^bold>\<open>The theories\<close>, with the sources that they model:

  \<^item> Prelude: panics, errors, \<open>strings\<close>, \<open>strconv\<close> and 64-bit integers. StringUtils: \<open>pkg/utils/strslice\<close>, \<open>selector\<close>, \<open>page\<close>, \<open>sort\<close>,
    \<open>domain\<close>; the locale \<open>string_set\<close> for lists of strings used as sets. KubeApi: the client, \<open>RetryOnConflict\<close>, finalizers, which
    interpret the same locale.
  \<^item> ApiPath: \<open>pkg/utils/path\<close>, \<open>pkg/utils/keys\<close>, the functions on paths and versions of \<open>pkg/conversion\<close>. Conversion: the rest of that package,
    which tells what a cluster serves and converts objects around the calls of a client.
  \<^item> ListFilter: \<open>pkg/utils/filter\<close> over JSON values.
  \<^item> QuotaBase, QuotaCube, QuotaK8s: \<open>pkg/quota\<close>, with the locale \<open>quota_children\<close> for the children that a quota records, interpreted for both kinds of
    child. QuotaWebhook, QuotaController: the webhooks and controllers on quotas. QuotaSystem: all of them at work on one store.
  \<^item> RbacEval, RbacResolver: \<open>pkg/authorizer/rbac\<close>, with the locale \<open>name_dedup\<close> for its three collections. RoleMapping: \<open>pkg/authorizer/mapping\<close>.
  \<^item> UserScope: users, scope bindings and \<open>pkg/belongs\<close>. UserController: the controller of users of the warden. UserSystem: a whole
    run of it and the decisions that follow. BindingController: \<open>pkg/ctrlmgr/controllers/binding\<close>.
  \<^item> Scout, MultiCluster: \<open>pkg/multicluster\<close>, with the locale \<open>registry\<close> for the table. ClusterController: \<open>pkg/ctrlmgr/controllers/cluster\<close>.
    Worker: \<open>pkg/utils/worker\<close> on the queue of client-go, as a step relation.
  \<^item> TenantProject, Hotplug, RoleControllers, ExternalAccess: the controllers of the warden for tenants and projects, for components, for the
    roles of custom resources and operator groups, and for the ports of services, with the handler of the API server for the latter. SyncMgr:
    \<open>pkg/warden/syncmgr\<close>. Admission: the webhooks on tenants, projects, clusters and hotplugs of both sides.
  \<^item> Authn: tokens, login, the authentication middleware, and the proxy of the warden. Accounts: the handlers of users and keys.
    AuthzApi: \<open>pkg/apiserver/cubeapi/authorization\<close>. ClusterApi: \<open>pkg/apiserver/cubeapi/cluster\<close>. AuditTrail: the middlewares \<open>audit\<close> and
    \<open>precheck\<close>. ApiProxy: \<open>proxy.go\<close> and \<open>extend.go\<close> of \<open>pkg/apiserver/cubeapi/resourcemanage/handle\<close>. PodLogs: \<open>podlog.go\<close> beside them and
    \<open>pkg/utils/log\<close>.
  \<^item> This theory: properties of several components together.

  \<^bold>\<open>What is shown.\<close>

  \<^item> Quotas: the tests on quotas are exact, the books of a parent are the sums over its children, and in the system of webhook and
    controller a parent is never given away beyond its hard values (QuotaSystem).
  \<^item> Authorization: a request is allowed exactly by the rules that are granted; a run of the user controller leaves no
    binding without a scope; a posted binding ends in a decision of the authorizer (\<open>createBinds_grants\<close> here); roles and
    permission items are translated to and fro.
  \<^item> Clusters: the table never panics and follows the cache of clusters; a scout counts a cluster as abnormal exactly by its heartbeats; the
    controller keeps a cluster in the table or in the retry queue, and takes it out when it is deleted; the synchronisation leaves
    equal objects; deletions that it forwards are admitted (\<open>prepared_deletion_admitted\<close> here).
  \<^item> The worker: no key is worked on twice at once, retries are bounded, and the queue drains.
  \<^item> The API server: exactly which requests are let in and in whose name they are proxied, what logins, users, sessions, ports and namespaces
    come to, what is shown of clusters and logs, and where the code does not do what it means to: an open request is proxied with the rights of
    the server (\<open>open_request_proxied\<close> here), and the audit trail can end the process.

  \<^bold>\<open>Bounds.\<close> A wait for an event is a bounded number of polls, which is the interval and timeout of the source: 60 for the
  deletion of a namespace (\<open>waitPolls\<close>), 100 for a job (\<open>jobPolls\<close>), 20 for the bindings of a new namespace (\<open>retryCount\<close>), and
  5 attempts of \<open>RetryOnConflict\<close>. Each is the number of rounds of the source's own loop, so no run is cut off that the source
  would continue. A key is tried \<open>maxRetries\<close> = 15 times. The pages of a log are shown for offsets and lengths below \<open>2 ^ 61\<close>, where no sum
  overflows; beyond that the source panics (lemma \<open>SelectLogs_overflow\<close>).

  \<^bold>\<open>Not modelled.\<close> Third-party code is an argument: the JWT library, LDAP and GitHub, helm, YAML and JSON, the schemes that convert objects,
  label selectors, and the hash in the names of bindings. Left out are the reporter of the warden and the endpoint for heartbeats, which are timers
  and HTTP calls; \<open>upgradeaware.go\<close>, copied from Kubernetes, and the reverse proxy of the standard library; \<open>makeMonitorInfo\<close>, which
  reads numbers out of printed quantities and is not used; the stream of \<open>proxypodlog.go\<close>; the manifests that \<open>resources.go\<close> of the
  cluster controller renders; the lists of workloads for display and the deployment of YAML files; logging, the environment, the start of
  processes, wiring of managers and routes, and generated code and documentation.
\<close>

section \<open>Properties that span components\<close>

subsection \<open>From a posted binding to an allowed request\<close>

text \<open>
  C22: a posted binding takes effect, whoever posts it. The handler of the API server has accepted a role
  binding that names a user, a scope and a role; the user as it is then stored has been handled by the user
  controller of a cluster without an error. Then the authorizer allows that user, in every
  namespace of the scope, every request that a rule of the role allows. The one who posted the
  binding can be anybody with a valid token. The concatenated key of the scope must be new to the user, and
  the names of the generated bindings must tell the user's roles apart.
\<close>

theorem createBinds_grants:
  assumes plane: "authz_world az users" "run_state (createBinds az asker (Some rb)) p = (Success (), p')"
    and rb: "TransBinding (bl_Labels rb) (su_Name (hd (bi_Subjects rb))) (rr_Name (bi_RoleRef rb)) = Inr (st, sn, role, n)"
    and old: "users p ([], n) = Some u0" "sn @ st @ role \<notin> set (map ScopeBindingUnique (ur_ScopeBindings u0))"
    and new: "users p' ([], n) = Some u"
    and warden: "user_world env view" "keyed (uv_crbs (view w))" "keyed (uv_rbs (view w))"
      "scope_covers \<lparr>sb_ScopeType = st, sb_ScopeName = sn, sb_Role = role\<rparr> (uv_nss (view w)) ns"
      "inj_on (\<lambda>r. GenerateBindingName (ue_hash env) n r (me_Name ns)) (sb_Role ` set (ur_ScopeBindings u))"
      "uv_rbs (view w) (me_Name ns, GenerateBindingName (ue_hash env) n role (me_Name ns)) = None"
      "run_state (syncUser env u) w = (Ret None, w')"
    and cache: "mirrors r (view w')" "GetClusterRole r role = Inr c" "rule \<in> set (cr_Rules c)"
    and a: "at_User a = n" "at_Namespace a = me_Name ns" "me_Name ns \<noteq> []" "RuleAllows a rule"
  shows "fst (Authorize r a) = DecisionAllow"
proof -
  have u: "u = AddUserScopeBindings u0 st sn role" "ur_Name u = n"
    using createBinds_run [OF plane] rb old(1) new by (metis (no_types, lifting) AddUserScopeBindings_same(1) Pair_inject fun_upd_same option.inject sum.inject(2))+
  have b: "\<lparr>sb_ScopeType = st, sb_ScopeName = sn, sb_Role = role\<rparr> \<in> set (ur_ScopeBindings u)"
    using old(2) by (simp add: u(1) AddUserScopeBindings_def)
  show ?thesis
    by (rule syncUser_authorizes [OF warden(1-3) b warden(4) _ _ warden(7) cache(1) _ cache(3)])
      (use warden(5,6) cache(2) a u(2) in simp_all)
qed

definition bare_ada :: User where
  "bare_ada = (ada TenantScope ''t'')\<lparr>ur_ScopeBindings := []\<rparr>"

definition posted :: rbac_binding where
  "posted = \<lparr>bi_Name = ''x'', bi_Namespace = ''n'', bi_Subjects = [user_subject ''ada''], bi_RoleRef = cluster_role_ref ''reviewer'',
     bl_Labels = Some [(TenantLabel, ''t'')]\<rparr>"

abbreviation plane_done :: authz_lab where
  "plane_done \<equiv> snd (run_state (createBinds authz_lab ''ada'' (Some posted)) ([bare_ada], []))"

theorem createBinds_grants_witness:
  "fst (Authorize (cluster_cache (snd (sync_ada TenantScope ''t'' dev_cluster)))
     \<lparr>at_User = ''ada'', at_Verb = ''get'', at_Namespace = ''dev'', at_APIGroup = [], at_Resource = ''pods'',
      at_Subresource = [], at_Name = [], at_Path = [], at_ResourceRequest = True\<rparr>) = DecisionAllow"
proof (rule createBinds_grants [OF authz_lab_world, where asker = "''ada''" and rb = posted and p = "([bare_ada], [])" and p' = plane_done
      and u = "ada TenantScope ''t''" and ?u0.0 = bare_ada and st = TenantScope and sn = "''t''" and role = "''reviewer''" and env = cluster_env
      and view = cluster_view and w = dev_cluster and ns = dev_ns and c = reviewer and rule = "hd (cr_Rules reviewer)"])
  have "fst (run_state (createBinds authz_lab ''ada'' (Some posted)) ([bare_ada], [])) = Success ()" by code_simp
  then show "run_state (createBinds authz_lab ''ada'' (Some posted)) ([bare_ada], []) = (Success (), plane_done)" by (simp add: prod_eq_iff)
  show "TransBinding (bl_Labels posted) (su_Name (hd (bi_Subjects posted))) (rr_Name (bi_RoleRef posted)) = Inr (TenantScope, ''t'', ''reviewer'', ''ada'')"
    by code_simp
  show "users_of ([bare_ada], []) ([], ''ada'') = Some bare_ada" by code_simp
  show "users_of plane_done ([], ''ada'') = Some (ada TenantScope ''t'')" by code_simp
  have "fst (sync_ada TenantScope ''t'' dev_cluster) = Ret None" by code_simp
  then show "run_state (syncUser cluster_env (ada TenantScope ''t'')) dev_cluster = (Ret None, snd (sync_ada TenantScope ''t'' dev_cluster))"
    by (simp add: sync_ada_def prod_eq_iff)
  show "user_world cluster_env cluster_view" by (rule cluster_world)
  show "keyed (uv_crbs (cluster_view dev_cluster))" "keyed (uv_rbs (cluster_view dev_cluster))" by (rule cluster_keyed)+
  show "mirrors (cluster_cache (snd (sync_ada TenantScope ''t'' dev_cluster))) (cluster_view (snd (sync_ada TenantScope ''t'' dev_cluster)))"
    by (rule cluster_cache_mirrors)
qed (simp_all add: bare_ada_def ada_def scope_covers_def dev_cluster_def dev_ns_def lookup_by_def GetClusterRole_def
    cluster_cache_def reviewer_def RuleAllows_def VerbMatches_def APIGroupMatches_def ResourceMatches_def ResourceNameMatches_def)

subsection \<open>Deletions that the synchronisation forwards\<close>

text \<open>
  C23: the webhooks of a member cluster let the synchronisation delete. After a tenant or project that is
  gone in the pivot cluster has been prepared for deletion without an error, the webhooks of
  the warden admit the deletion of the object that is stored then, in a member cluster as well; where the
  object has not been prepared, only the cluster of the control plane admits it.
\<close>

theorem prepared_deletion_admitted:
  assumes "sync_world env view" and "run_state (updateSpecialObjForDelete env k) w = (None, w')" and "snd (view w) k = Some x"
  shows "\<exists>y. snd (view w') k = Some y \<and>
    (\<forall>t. tn_Annotations t = so_Annotations y \<longrightarrow> Handle_tenant_warden isMember Delete (Inr t) = Allowed) \<and>
    (\<forall>p. pj_Annotations p = so_Annotations y \<longrightarrow> Handle_project_warden isMember Delete (Inr p) = Allowed) \<and>
    (\<forall>t. tn_Annotations t = so_Annotations x \<longrightarrow>
       (Handle_tenant_warden isMember Delete (Inr t) = Allowed \<longleftrightarrow> \<not> isMember \<or> label (so_Annotations x) ForceDeleteAnnotation = ''true''))"
proof -
  obtain r w1 where g: "run_state (cl_get (se_Local env) k) w = (r, w1)" by fastforce
  note G = reads_run [OF sync_reads(2) [OF assms(1)] g]
  have r: "r = Inr x" using G(2,3) assms(2,3) g by (cases r) (auto simp: updateSpecialObjForDelete_def split: if_splits)
  let ?z = "x\<lparr>so_Annotations := Some (AList.update ForceDeleteAnnotation ''true'' (case so_Annotations x of None \<Rightarrow> [] | Some a \<Rightarrow> a))\<rparr>"
  have up: "run_state (cl_update (se_Local env) ?z) w1 = (None, w')"
    using assms(2) g r by (simp add: updateSpecialObjForDelete_def Let_def)
  have "\<exists>y. stored_as ?z y \<and> snd (view w') = (snd (view w1))(so_key ?z \<mapsto> y)"
    using assms(1) up unfolding sync_world_def by (metis (no_types, lifting))
  then obtain y where y: "stored_as ?z y" "snd (view w') = (snd (view w1))(so_key ?z \<mapsto> y)" by blast
  have key: "so_key ?z = k" using sync_named(2) [OF assms(1,3)] by (simp add: so_key_def)
  have ann: "label (so_Annotations y) ForceDeleteAnnotation = ''true''" using y(1) by (simp add: stored_as_def label_def)
  have "snd (view w') k = Some y" using y(2) key by simp
  with ann show ?thesis by (auto simp: Handle_tenant_warden_def Handle_project_warden_def verdict_def)
qed

definition special_env :: "(twin, nat) sync_env" where
  "special_env = twin_env\<lparr>se_Kind := TenantKind\<rparr>"

definition orphan_tenant :: twin where
  "orphan_tenant = ([], [local_role])"

abbreviation prepared :: twin where
  "prepared \<equiv> snd (run_state (updateSpecialObjForDelete special_env ([], ''r'')) orphan_tenant)"

theorem prepared_deletion_admitted_witness:
  "\<exists>y. snd (twin_view prepared) ([], ''r'') = Some y \<and>
     Handle_tenant_warden True Delete (Inr \<lparr>tn_Name = ''r'', tn_Labels = None, tn_Annotations = so_Annotations y, tn_Namespace = []\<rparr>) = Allowed"
proof -
  have W: "sync_world special_env twin_view" using twin_world by (simp add: sync_world_def special_env_def)
  have "fst (run_state (updateSpecialObjForDelete special_env ([], ''r'')) orphan_tenant) = None" by code_simp
  then have run: "run_state (updateSpecialObjForDelete special_env ([], ''r'')) orphan_tenant = (None, prepared)" by (simp add: prod_eq_iff)
  have "snd (twin_view orphan_tenant) ([], ''r'') = Some local_role" by code_simp
  from prepared_deletion_admitted [OF W run this, where isMember = True] show ?thesis by (metis Tenant.select_convs(3))
qed

subsection \<open>Open requests that are proxied\<close>

text \<open>What the proxy finds in its context after the middleware.\<close>

definition proxied_as :: "gin_ctx \<Rightarrow> proxy_ctx \<Rightarrow> bool" where
  "proxied_as g c \<longleftrightarrow> pc_Method c = hr_Method (gc_Request g) \<and> pc_Header c = hr_Header (gc_Request g) \<and>
     pc_Username c = (case map_of (gc_Keys g) ''userName'' of None \<Rightarrow> [] | Some u \<Rightarrow> u) \<and>
     hr_Path (gc_Request g) = ApiPathRoot @ ''/proxy/clusters/'' @ pc_Cluster c @ pc_Url c"

text \<open>
  C33: a request without a token is proxied with the rights of the server. The white list of the
  middleware takes its patterns anywhere in a path, so a path below the proxy whose end is one of them passes without
  a token and without a user. The proxy sends such a request to the cluster all the same: its check
  on namespaces and nodes fails on the missing user and counts as a pass, and the header that
  impersonates is set to the empty name, which impersonates nobody. No account has the empty name.
\<close>

theorem open_request_proxied:
  assumes req: "open_request (gc_Request g)" "gc_Fail g = None" "map_of (gc_Keys g) ''userName'' = None"
    and ctx: "proxied_as (Auth lib a now generic g) c"
    and cluster: "Get_mgr (ph_Mgr h) (pc_Cluster c) = (Some ic, None)" "px_Uri (ic_Client ic) = Inr uri" "bc_user (px_Cache (ic_Client ic)) [] = Inl e"
    and url: "ParseURL (pc_Url c) = Inr r" "tryVersionConvert h c = (Inr None, h')" "query_of (pc_RawQuery c) ''selector'' = []"
  shows "gc_Fail (Auth lib a now generic g) = None \<and>
    (\<exists>req flt. ProxyHandle h c = (Ret (Sent None req flt), h') \<and>
      or_Method req = hr_Method (gc_Request g) \<and> or_Uri req = Some uri \<and> or_Path req = pc_Url c \<and>
      map_of (or_Header req) = (map_of (hr_Header (gc_Request g)))(ImpersonateUserKey \<mapsto> [[]], AuthorizationHeader := None))"
proof -
  have "WithinWhiteList (hr_Path (gc_Request g)) (hr_Method (gc_Request g)) AuthWhiteList"
    using req(1) by (auto simp: WithinWhiteList_iff Contains_iff open_request_def)
  then have auth: "Auth lib a now generic g = g" by (simp add: Auth_def)
  have c: "pc_Method c = hr_Method (gc_Request g)" "pc_Header c = hr_Header (gc_Request g)" "pc_Username c = []"
    using ctx req(3) by (simp_all add: auth proxied_as_def)
  have "RelationshipDetermine (px_Cache (ic_Client ic)) (pc_Url c) [] \<noteq> (False, None)"
    using cluster(3) by (auto simp: RelationshipDetermine_def split: sum.splits if_splits)
  then show ?thesis
    using ProxyHandle_sends [OF cluster(1,2) url] auth req(2) by (simp add: c proxied_headers)
qed

definition token_service :: string where
  "token_service = ''/api/v1/namespaces/n/services/s/proxy/api/v1/cube/key/token''"

definition open_ctx :: gin_ctx where
  "open_ctx = fresh_ctx \<lparr>hr_Method = ''GET'', hr_Path = ApiPathRoot @ ''/proxy/clusters/m'' @ token_service,
     hr_Header = [(''Impersonate-Group'', [''system:masters''])], hr_Cookies = [], hr_Query = Inr []\<rparr>"

theorem open_request_proxied_witness:
  "gc_Fail (Auth plain_jwt plain_auth 0 None open_ctx) = None \<and>
   (\<exists>req flt. ProxyHandle proxy_lab (proxy_request token_service []) = (Ret (Sent None req flt), proxy_lab) \<and>
      or_Path req = token_service \<and> map_of (or_Header req) ImpersonateUserKey = Some [[]])"
proof -
  let ?c = "proxy_request token_service []"
  have op: "open_request (gc_Request open_ctx)"
  proof -
    have "(ApiPathRoot @ ''/key/token'', ''GET'') \<in> set AuthWhiteList" by (simp add: AuthWhiteList_def)
    moreover have "hr_Path (gc_Request open_ctx) = (ApiPathRoot @ ''/proxy/clusters/m/api/v1/namespaces/n/services/s/proxy'') @ (ApiPathRoot @ ''/key/token'') @ []"
      by (simp add: open_ctx_def fresh_ctx_def token_service_def ApiPathRoot_def)
    moreover have "hr_Method (gc_Request open_ctx) = ''GET''" by (simp add: open_ctx_def fresh_ctx_def)
    ultimately show ?thesis unfolding open_request_def by metis
  qed
  then have "Auth plain_jwt plain_auth 0 None open_ctx = open_ctx"
    by (auto simp: Auth_def WithinWhiteList_iff Contains_iff open_request_def)
  then have ctx: "proxied_as (Auth plain_jwt plain_auth 0 None open_ctx) ?c"
    by (simp add: proxied_as_def open_ctx_def fresh_ctx_def proxy_request_def)
  have url: "ParseURL token_service = Inr (True, True, \<lparr>gvr_Group = [], gvr_Version = ''v1'', gvr_Resource = ''services''\<rparr>)" by code_simp
  have c: "pc_Cluster ?c = ''m''" "pc_RawQuery ?c = ''limit=5''" "pc_Url ?c = token_service" by (simp_all add: proxy_request_def)
  have ok: "gc_Fail open_ctx = None" "map_of (gc_Keys open_ctx) ''userName'' = None" by (simp_all add: open_ctx_def fresh_ctx_def)
  show ?thesis
    using open_request_proxied [OF op ok ctx, of proxy_lab, unfolded c, OF proxy_lab_member _ _ url proxy_lab_same_version proxy_lab_query(1), of "''https://m''" NotFound]
    by (auto simp: member_proxy_def ImpersonateUserKey_def AuthorizationHeader_def)
qed

end
